(* ===== verification/Prelude.thy ===== *)
theory Prelude
  imports Main "HOL-Library.Word"
begin

text \<open>
  What every component shares: Go's fixed-width integers, the result of a Go function that may
  return an error or panic, byte slices with Go's bounds checks, and the big-endian codecs of the
  package encoding/binary. A slice is a list whose capacity is its length: every buffer of the
  modelled code is allocated with \<open>make([]byte, n)\<close> and only ever re-sliced towards its end.
\<close>

unbundle bit_operations_syntax

type_synonym u8 = "8 word"
type_synonym u16 = "16 word"
type_synonym u32 = "32 word"
type_synonym i32 = "32 word"
type_synonym bytes = "u8 list"

section \<open>Results of Go functions\<close>

text \<open>
  \<open>Error e\<close> is a returned error, \<open>Panic\<close> a run-time panic (index or slice out of range, failed type
  assertion, nil dereference), \<open>Diverges\<close> a loop that runs forever.
\<close>

datatype 'e go_error = Error 'e | Panic | Diverges

type_synonym ('e, 'a) result = "'e go_error + 'a"

named_theorems result_simps \<open>equations that evaluate sequenced results\<close>

definition bind_r :: "('e, 'a) result \<Rightarrow> ('a \<Rightarrow> ('e, 'b) result) \<Rightarrow> ('e, 'b) result" where
  "bind_r r f = (case r of Inl e \<Rightarrow> Inl e | Inr x \<Rightarrow> f x)"

lemma bind_r_Inl [simp, result_simps]: "bind_r (Inl e) f = Inl e"
  by (simp add: bind_r_def)

lemma bind_r_Inr [simp, result_simps]: "bind_r (Inr x) f = f x"
  by (simp add: bind_r_def)

lemma bind_r_eq_Inr: "bind_r r f = Inr y \<longleftrightarrow> (\<exists>x. r = Inr x \<and> f x = Inr y)"
  by (cases r) auto

lemma bind_r_eq_Inl: "bind_r r f = Inl e \<longleftrightarrow> r = Inl e \<or> (\<exists>x. r = Inr x \<and> f x = Inl e)"
  by (cases r) auto

lemma bind_r_cong [fundef_cong]:
  "r = r' \<Longrightarrow> (\<And>x. r' = Inr x \<Longrightarrow> f x = g x) \<Longrightarrow> bind_r r f = bind_r r' g"
  by (cases r') auto

lemma bind_r_assoc: "bind_r (bind_r r f) g = bind_r r (\<lambda>x. bind_r (f x) g)"
  by (cases r) auto

text \<open>Operations on a state, one after the other.\<close>

fun seq_ops :: "('s \<Rightarrow> ('e, 's) result) list \<Rightarrow> 's \<Rightarrow> ('e, 's) result" where
  "seq_ops [] f = Inr f"
| "seq_ops (op # ops) f = bind_r (op f) (seq_ops ops)"

section \<open>Slices\<close>

definition index_r :: "'a list \<Rightarrow> nat \<Rightarrow> ('e, 'a) result" where
  "index_r xs i = (if i < length xs then Inr (xs ! i) else Inl Panic)"

definition slice_from :: "'a list \<Rightarrow> nat \<Rightarrow> ('e, 'a list) result" where
  "slice_from xs i = (if i \<le> length xs then Inr (drop i xs) else Inl Panic)"

definition slice_r :: "'a list \<Rightarrow> nat \<Rightarrow> nat \<Rightarrow> ('e, 'a list) result" where
  "slice_r xs i j = (if i \<le> j \<and> j \<le> length xs then Inr (take (j - i) (drop i xs)) else Inl Panic)"

definition set_r :: "'a list \<Rightarrow> nat \<Rightarrow> 'a \<Rightarrow> ('e, 'a list) result" where
  "set_r xs i v = (if i < length xs then Inr (xs[i := v]) else Inl Panic)"

text \<open>\<open>put_r dst off bs\<close> is \<open>binary.BigEndian.PutUintN(dst[off:], v)\<close> where \<open>bs\<close> are the bytes of \<open>v\<close>.\<close>

definition put_r :: "'a list \<Rightarrow> nat \<Rightarrow> 'a list \<Rightarrow> ('e, 'a list) result" where
  "put_r dst off bs =
     (if off + length bs \<le> length dst
      then Inr (take off dst @ bs @ drop (off + length bs) dst) else Inl Panic)"

text \<open>\<open>copy_r dst off src\<close> is \<open>copy(dst[off:], src)\<close>: it copies what fits.\<close>

definition copy_r :: "'a list \<Rightarrow> nat \<Rightarrow> 'a list \<Rightarrow> ('e, 'a list) result" where
  "copy_r dst off src =
     (if off \<le> length dst
      then Inr (take off dst @ take (length dst - off) src @ drop (off + length src) dst)
      else Inl Panic)"

text \<open>\<open>on_slice f dst off\<close> passes \<open>dst[off:]\<close> to a function that writes into it.\<close>

definition on_slice ::
    "('a list \<Rightarrow> ('e, 'a list) result) \<Rightarrow> 'a list \<Rightarrow> nat \<Rightarrow> ('e, 'a list) result" where
  "on_slice f dst off =
     bind_r (slice_from dst off) (\<lambda>s. bind_r (f s) (\<lambda>s'. Inr (take off dst @ s')))"

lemma replicate_numeral [simp]: "replicate (numeral n) x = x # replicate (pred_numeral n) x"
  by (simp add: numeral_eq_Suc)

lemma list_update_numeral [simp]: "(x # xs)[numeral n := v] = x # xs[pred_numeral n := v]"
  by (simp add: numeral_eq_Suc)

lemma index_r_append [simp]: "i < length xs \<Longrightarrow> index_r (xs @ ys) i = Inr (xs ! i)"
  by (simp add: index_r_def nth_append)

lemma index_r_Cons_0 [simp]: "index_r (x # xs) 0 = Inr x"
  by (simp add: index_r_def)

lemma index_r_Cons_Suc [simp]: "index_r (x # xs) (Suc i) = index_r xs i"
  by (simp add: index_r_def)

lemma index_r_Cons_numeral [simp]:
  "index_r (x # xs) (numeral n) = index_r xs (pred_numeral n)"
  by (simp add: numeral_eq_Suc)

lemma index_r_eq_Inr: "index_r xs i = Inr v \<longleftrightarrow> i < length xs \<and> xs ! i = v"
  by (auto simp: index_r_def)

lemma slice_from_append [simp]: "slice_from (xs @ ys) (length xs) = Inr ys"
  by (simp add: slice_from_def)

lemma slice_from_le: "i \<le> length xs \<Longrightarrow> slice_from xs i = Inr (drop i xs)"
  by (simp add: slice_from_def)

lemma slice_from_0 [simp]: "slice_from xs 0 = Inr xs"
  by (simp add: slice_from_def)

lemma put_r_mid: "length old = length bs \<Longrightarrow> put_r (pre @ old @ post) (length pre) bs = Inr (pre @ bs @ post)"
  by (simp add: put_r_def)

lemma copy_r_mid: "length old = length bs \<Longrightarrow> copy_r (pre @ old @ post) (length pre) bs = Inr (pre @ bs @ post)"
  by (simp add: copy_r_def)

lemma on_slice_mid: "f s = Inr s' \<Longrightarrow> on_slice f (pre @ s) (length pre) = Inr (pre @ s')"
  by (simp add: on_slice_def)

lemma put_r_length: "put_r dst off bs = Inr d \<Longrightarrow> length d = length dst"
  by (auto simp: put_r_def split: if_splits)

lemma copy_r_length: "copy_r dst off bs = Inr d \<Longrightarrow> length d = length dst"
  by (auto simp: copy_r_def split: if_splits)

lemma set_r_length: "set_r dst i v = Inr d \<Longrightarrow> length d = length dst"
  by (auto simp: set_r_def split: if_splits)

section \<open>Big-endian integers\<close>

definition be16 :: "u16 \<Rightarrow> bytes" where
  "be16 w = [ucast (drop_bit 8 w), ucast w]"

definition be32 :: "u32 \<Rightarrow> bytes" where
  "be32 w = [ucast (drop_bit 24 w), ucast (drop_bit 16 w), ucast (drop_bit 8 w), ucast w]"

fun get16 :: "bytes \<Rightarrow> ('e, u16) result" where
  "get16 (b0 # b1 # _) = Inr (push_bit 8 (ucast b0) OR ucast b1)"
| "get16 _ = Inl Panic"

fun get32 :: "bytes \<Rightarrow> ('e, u32) result" where
  "get32 (b0 # b1 # b2 # b3 # _) =
     Inr (push_bit 24 (ucast b0) OR push_bit 16 (ucast b1) OR push_bit 8 (ucast b2) OR ucast b3)"
| "get32 _ = Inl Panic"

lemma length_be16 [simp]: "length (be16 w) = 2"
  by (simp add: be16_def)

lemma length_be32 [simp]: "length (be32 w) = 4"
  by (simp add: be32_def)

lemma get16_be16 [simp]: "get16 (be16 w @ xs) = Inr w"
proof -
  have "push_bit 8 (ucast (ucast (drop_bit 8 w) :: u8)) OR ucast (ucast w :: u8) = w"
    by (rule bit_word_eqI) (auto simp: bit_simps)
  then show ?thesis by (simp add: be16_def)
qed

lemma get32_be32 [simp]: "get32 (be32 w @ xs) = Inr w"
proof -
  have "push_bit 24 (ucast (ucast (drop_bit 24 w) :: u8)) OR
        push_bit 16 (ucast (ucast (drop_bit 16 w) :: u8)) OR
        push_bit 8 (ucast (ucast (drop_bit 8 w) :: u8)) OR ucast (ucast w :: u8) = w"
    (is "?l = w")
  proof (rule bit_word_eqI)
    fix n assume "n < LENGTH(32)"
    then consider "n < 8" | "8 \<le> n" "n < 16" | "16 \<le> n" "n < 24" | "24 \<le> n" "n < 32"
      by fastforce
    then show "bit ?l n = bit w n"
      by cases (auto simp: bit_simps)
  qed
  then show ?thesis by (simp add: be32_def)
qed

lemma get16_be16_only [simp]: "get16 (be16 w) = Inr w"
  using get16_be16 [of w "[]"] by (simp del: get16_be16)

lemma get32_be32_only [simp]: "get32 (be32 w) = Inr w"
  using get32_be32 [of w "[]"] by (simp del: get32_be32)

lemma be16_get16: "get16 bs = Inr w \<Longrightarrow> be16 w = take 2 bs"
proof (induction bs rule: get16.induct)
  case (1 b0 b1 rest)
  then have w: "w = push_bit 8 (ucast b0) OR ucast b1" by simp
  have "ucast (drop_bit 8 w) = b0"
    unfolding w by (rule bit_word_eqI) (auto simp: bit_simps dest: bit_imp_le_length)
  moreover have "ucast w = b1"
    unfolding w by (rule bit_word_eqI) (auto simp: bit_simps dest: bit_imp_le_length)
  ultimately show ?case by (simp add: be16_def)
qed simp_all

lemma be32_get32: "get32 bs = Inr w \<Longrightarrow> be32 w = take 4 bs"
proof (induction bs rule: get32.induct)
  case (1 b0 b1 b2 b3 rest)
  then have w: "w = push_bit 24 (ucast b0) OR push_bit 16 (ucast b1) OR push_bit 8 (ucast b2) OR ucast b3"
    by simp
  have "ucast (drop_bit 24 w) = b0"
    unfolding w by (rule bit_word_eqI) (auto simp: bit_simps dest: bit_imp_le_length)
  moreover have "ucast (drop_bit 16 w) = b1"
    unfolding w by (rule bit_word_eqI) (auto simp: bit_simps dest: bit_imp_le_length)
  moreover have "ucast (drop_bit 8 w) = b2"
    unfolding w by (rule bit_word_eqI) (auto simp: bit_simps dest: bit_imp_le_length)
  moreover have "ucast w = b3"
    unfolding w by (rule bit_word_eqI) (auto simp: bit_simps dest: bit_imp_le_length)
  ultimately show ?case by (simp add: be32_def)
qed simp_all

lemma get16_panic_iff: "get16 bs = Inl e \<longleftrightarrow> e = Panic \<and> length bs < 2"
  by (cases bs rule: get16.cases) auto

lemma get32_panic_iff: "get32 bs = Inl e \<longleftrightarrow> e = Panic \<and> length bs < 4"
  by (cases bs rule: get32.cases) auto

lemma get16_total: "2 \<le> length bs \<Longrightarrow> \<exists>w. get16 bs = Inr w"
  by (cases bs rule: get16.cases) auto

lemma get32_total: "4 \<le> length bs \<Longrightarrow> \<exists>w. get32 bs = Inr w"
  by (cases bs rule: get32.cases) auto

section \<open>Words as numbers\<close>

lemma uint_pos [simp]: "0 < uint w \<longleftrightarrow> w \<noteq> 0" for w :: "'a::len word"
  by (metis order_less_le uint_0_iff uint_ge_0)

lemma unat_pos [simp]: "0 < unat w \<longleftrightarrow> w \<noteq> 0" for w :: "'a::len word"
  by (simp add: unat_gt_0)

lemma unat_0_iff_zero [simp]: "unat w = 0 \<longleftrightarrow> w = 0" for w :: "'a::len word"
  by (simp add: unsigned_eq_0_iff)

lemma word_unat_eqI: "unat a = unat b \<Longrightarrow> a = b" for a b :: "'a::len word"
  by (rule unsigned_word_eqI)

lemma u8_less [simp]: "unat w < 256" for w :: u8
  using unsigned_less [of w, where ?'a = nat] by simp

lemma u16_less [simp]: "unat w < 65536" for w :: u16
  using unsigned_less [of w, where ?'a = nat] by simp

lemma u32_less [simp]: "unat w < 4294967296" for w :: u32
  using unsigned_less [of w, where ?'a = nat] by simp

lemma unat_ucast_8_16 [simp]: "unat (ucast w :: u16) = unat w" for w :: u8
  by (simp add: unsigned_ucast_eq take_bit_nat_eq_self_iff less_le_trans [OF u8_less])

lemma unat_ucast_8_32 [simp]: "unat (ucast w :: u32) = unat w" for w :: u8
  by (simp add: unsigned_ucast_eq take_bit_nat_eq_self_iff less_le_trans [OF u8_less])

lemma unat_ucast_16_32 [simp]: "unat (ucast w :: u32) = unat w" for w :: u16
  by (simp add: unsigned_ucast_eq take_bit_nat_eq_self_iff less_le_trans [OF u16_less])

lemma unat_add_small: "unat a + unat b < 2 ^ LENGTH('a) \<Longrightarrow> unat (a + b) = unat a + unat b"
  for a b :: "'a::len word"
  by (simp add: unat_word_ariths)

lemma unat_mult_small: "unat a * unat b < 2 ^ LENGTH('a) \<Longrightarrow> unat (a * b) = unat a * unat b"
  for a b :: "'a::len word"
  by (simp add: unat_word_ariths)

lemma u16_of_nat: "k < 65536 \<Longrightarrow> unat (of_nat k :: u16) = k"
  by (simp add: unsigned_of_nat take_bit_nat_eq_self)

text \<open>A sum of words whose total fits the width is the sum of the numbers.\<close>

lemma unat_sum_list:
  "sum_list (map (\<lambda>x. unat (f x)) xs) < 2 ^ LENGTH('a) \<Longrightarrow>
   unat (sum_list (map f xs)) = sum_list (map (\<lambda>x. unat (f x)) xs)"
  for f :: "'b \<Rightarrow> 'a::len word"
  by (induction xs) (simp_all add: unat_add_small)

section \<open>Removing by swapping with the last element\<close>

lemma butlast_update_nth:
  assumes "i < length xs" "j < length xs - 1"
  shows "butlast (xs[i := last xs]) ! j = (if j = i then last xs else xs ! j)"
  using assms by (simp add: nth_butlast nth_list_update)

lemma swap_remove_set:
  assumes "distinct xs" "i < length xs"
  shows "set (butlast (xs[i := last xs])) = set xs - {xs ! i}" "distinct (butlast (xs[i := last xs]))"
proof -
  obtain ys x where xs: "xs = ys @ [x]" using assms(2) by (cases xs rule: rev_cases) auto
  have eq: "butlast (xs[i := last xs]) = (if i < length ys then ys[i := x] else ys)"
    using assms(2) by (auto simp: xs list_update_append butlast_append less_Suc_eq)
  show "set (butlast (xs[i := last xs])) = set xs - {xs ! i}"
    using assms unfolding eq by (auto simp: xs nth_append set_update_distinct)
  show "distinct (butlast (xs[i := last xs]))"
    using assms unfolding eq by (auto simp: xs distinct_list_update)
qed

end
