(* ===== verification/Tables.thy ===== *)
theory Tables
  imports Prelude "HOL-Library.AList"
begin

text \<open>Association lists as the maps of Go that are iterated over: what an update and a deletion do to the list of entries.\<close>

lemma update_new: "k \<notin> fst ` set m \<Longrightarrow> AList.update k v m = m @ [(k, v)]"
  by (induction m) auto

lemma delete_split:
  assumes "distinct (map fst m)" "map_of m k = Some v"
  obtains xs ys where "m = xs @ (k, v) # ys" "AList.delete k m = xs @ ys"
proof -
  obtain xs ys where m: "m = xs @ (k, v) # ys" using map_of_SomeD [OF assms(2)] by (auto simp: in_set_conv_decomp)
  with assms(1) have "k \<notin> fst ` set xs" "k \<notin> fst ` set ys" by auto
  then have "filter (\<lambda>(k', _). k \<noteq> k') xs = xs" "filter (\<lambda>(k', _). k \<noteq> k') ys = ys" by (force simp: filter_id_conv)+
  then have "AList.delete k m = xs @ ys" by (simp add: m AList.delete_eq)
  with m that show ?thesis by blast
qed

lemma set_update_subset: "set (AList.update k v al) \<subseteq> insert (k, v) (set al)"
  by (induction al) auto

lemma update_keys_same: "k \<in> fst ` set al \<Longrightarrow> map fst (AList.update k v al) = map fst al"
  by (simp add: update_keys)

end
