(* ===== verification/Codec.thy ===== *)
theory Codec
  imports Prelude
begin

text \<open>
  The two loops the wire code of the repository repeats for every kind of element (capabilities,
  optional parameters, prefixes, path attributes): appending the encodings of a list, and decoding
  elements at a cursor until a declared length is used up. The locale \<open>tlv\<close> is the contract between
  such a loop and the element it decodes; what the loop then does is proved once, from the contract.
\<close>

section \<open>The loops\<close>

text \<open>\<open>for _, x := range xs { b, err := x.Encode(); if err != nil { return err }; pkt = append(pkt, b...) }\<close>\<close>

fun concat_r :: "('a \<Rightarrow> ('e, bytes) result) \<Rightarrow> 'a list \<Rightarrow> ('e, bytes) result" where
  "concat_r enc [] = Inr []"
| "concat_r enc (x # xs) = bind_r (enc x) (\<lambda>b. bind_r (concat_r enc xs) (\<lambda>bs. Inr (b @ bs)))"

text \<open>
  \<open>for rem > 0 { x.Decode(pkt[off:]); xs = append(xs, x); off += x.Len(); rem -= x.Len() }\<close>. An
  element of length 0 leaves the cursor where it is, so that the same element is decoded forever.
\<close>

function decode_loop ::
    "(bytes \<Rightarrow> ('e, 'a) result) \<Rightarrow> ('a \<Rightarrow> nat) \<Rightarrow> int \<Rightarrow> bytes \<Rightarrow> nat \<Rightarrow> 'a list
     \<Rightarrow> ('e, 'a list \<times> int \<times> nat) result" where
  "decode_loop dec len rem pkt off acc =
     (if rem \<le> 0 then Inr (acc, rem, off)
      else bind_r (slice_from pkt off) (\<lambda>s. bind_r (dec s) (\<lambda>x.
             if len x = 0 then Inl Diverges
             else decode_loop dec len (rem - int (len x)) pkt (off + len x) (acc @ [x]))))"
  by pat_completeness auto
termination
  by (relation "measure (\<lambda>(dec, len, rem, pkt, off, acc). nat rem)") auto

declare decode_loop.simps [simp del]

lemma decode_loop_done [simp]: "rem \<le> 0 \<Longrightarrow> decode_loop dec len rem pkt off acc = Inr (acc, rem, off)"
  by (simp add: decode_loop.simps)

lemma decode_loop_step:
  "0 < rem \<Longrightarrow> off \<le> length pkt \<Longrightarrow> dec (drop off pkt) = Inr x \<Longrightarrow> 0 < len x \<Longrightarrow>
   decode_loop dec len rem pkt off acc
     = decode_loop dec len (rem - int (len x)) pkt (off + len x) (acc @ [x])"
  by (subst decode_loop.simps) (simp add: slice_from_def)

text \<open>
  A loop whose decoder never faults, only returns elements that lie within the bytes it was given
  and of positive length, faults only by running past the end of the buffer, which a decoder that
  reports an error on an empty buffer excludes.
\<close>

lemma decode_loop_safe:
  assumes safe: "\<And>s f. dec s = Inl f \<Longrightarrow> \<exists>e. f = Error e"
    and pos: "\<And>s x. dec s = Inr x \<Longrightarrow> 0 < len x \<and> len x \<le> length s"
  shows "off \<le> length pkt \<Longrightarrow> decode_loop dec len rem pkt off acc = Inl f \<Longrightarrow> \<exists>e. f = Error e"
proof (induction "nat rem" arbitrary: rem off acc rule: less_induct)
  case less
  show ?case
  proof (cases "rem \<le> 0")
    case True
    with less.prems show ?thesis by simp
  next
    case False
    show ?thesis
    proof (cases "dec (drop off pkt)")
      case (Inl e)
      with False less.prems safe show ?thesis
        by (subst (asm) decode_loop.simps) (auto simp: slice_from_def)
    next
      case (Inr x)
      with pos [OF this] False less.prems have
        "decode_loop dec len (rem - int (len x)) pkt (off + len x) (acc @ [x]) = Inl f"
        using decode_loop_step [of rem off pkt dec x len acc] by simp
      moreover have "off + len x \<le> length pkt" and "nat (rem - int (len x)) < nat rem"
        using pos [OF Inr] less.prems(1) False by auto
      ultimately show ?thesis by (intro less.hyps)
    qed
  qed
qed

text \<open>Under the same conditions the elements decoded fill exactly the distance the cursor moved.\<close>

lemma decode_loop_extent:
  "decode_loop dec len rem pkt off acc = Inr (xs, rem', off') \<Longrightarrow>
   \<exists>ys. xs = acc @ ys \<and> off' = off + sum_list (map len ys) \<and> rem' = rem - int (sum_list (map len ys))"
proof (induction "nat rem" arbitrary: rem off acc rule: less_induct)
  case less
  show ?case
  proof (cases "rem \<le> 0")
    case True
    with less.prems show ?thesis by simp
  next
    case False
    with less.prems obtain x where pos: "len x \<noteq> 0" and
      "decode_loop dec len (rem - int (len x)) pkt (off + len x) (acc @ [x]) = Inr (xs, rem', off')"
      by (subst (asm) decode_loop.simps) (auto simp: bind_r_eq_Inr split: if_splits)
    moreover have "nat (rem - int (len x)) < nat rem" using pos False by auto
    ultimately obtain ys where "xs = (acc @ [x]) @ ys" "off' = off + len x + sum_list (map len ys)"
      "rem' = rem - int (len x) - int (sum_list (map len ys))"
      using less.hyps by blast
    then have "xs = acc @ (x # ys) \<and> off' = off + sum_list (map len (x # ys)) \<and>
        rem' = rem - int (sum_list (map len (x # ys)))"
      by simp
    then show ?thesis by blast
  qed
qed

lemma decode_loop_all:
  assumes "\<And>s x. dec s = Inr x \<Longrightarrow> P x"
  shows "decode_loop dec len rem pkt off acc = Inr (xs, rem', off') \<Longrightarrow> list_all P acc \<Longrightarrow> list_all P xs"
proof (induction "nat rem" arbitrary: rem off acc rule: less_induct)
  case less
  show ?case
  proof (cases "rem \<le> 0")
    case True
    with less.prems show ?thesis by simp
  next
    case False
    with less.prems obtain s x where x: "dec s = Inr x" "len x \<noteq> 0" and
      "decode_loop dec len (rem - int (len x)) pkt (off + len x) (acc @ [x]) = Inr (xs, rem', off')"
      by (subst (asm) decode_loop.simps) (auto simp: bind_r_eq_Inr split: if_splits)
    moreover have "nat (rem - int (len x)) < nat rem" using x False by auto
    moreover have "list_all P (acc @ [x])" using less.prems assms x by simp
    ultimately show ?thesis using less.hyps by blast
  qed
qed

lemma concat_r_append:
  "concat_r enc (xs @ ys) =
     bind_r (concat_r enc xs) (\<lambda>a. bind_r (concat_r enc ys) (\<lambda>b. Inr (a @ b)))"
proof (induction xs)
  case Nil
  then show ?case by (cases "concat_r enc ys") auto
next
  case (Cons x xs)
  then show ?case by (simp add: bind_r_assoc)
qed

section \<open>The contract of an element\<close>

locale tlv =
  fixes enc :: "'a \<Rightarrow> ('e, bytes) result"
    and dec :: "bytes \<Rightarrow> ('e, 'a) result"
    and len :: "'a \<Rightarrow> nat"
    and wf :: "'a \<Rightarrow> bool"
  assumes enc_ok: "wf x \<Longrightarrow> \<exists>bs. enc x = Inr bs \<and> length bs = len x"
    and dec_enc: "wf x \<Longrightarrow> enc x = Inr bs \<Longrightarrow> dec (bs @ rest) = Inr x"
    and len_pos: "wf x \<Longrightarrow> 0 < len x"
begin

lemma concat_ok:
  "list_all wf xs \<Longrightarrow> \<exists>bs. concat_r enc xs = Inr bs \<and> length bs = sum_list (map len xs)"
proof (induction xs)
  case Nil
  then show ?case by simp
next
  case (Cons x xs)
  then obtain bs where "concat_r enc xs = Inr bs" "length bs = sum_list (map len xs)"
    by auto
  moreover obtain b where "enc x = Inr b" "length b = len x"
    using Cons.prems enc_ok by auto
  ultimately show ?case by simp
qed

lemma enc_length: "wf x \<Longrightarrow> enc x = Inr b \<Longrightarrow> length b = len x"
  using enc_ok by fastforce

lemma concat_length:
  "list_all wf xs \<Longrightarrow> concat_r enc xs = Inr bs \<Longrightarrow> length bs = sum_list (map len xs)"
  using concat_ok by fastforce

lemma decode_loop_concat:
  "list_all wf xs \<Longrightarrow> concat_r enc xs = Inr bs \<Longrightarrow>
   decode_loop dec len (int (length bs)) (pre @ bs @ post) (length pre) acc
     = Inr (acc @ xs, 0, length pre + length bs)"
proof (induction xs arbitrary: bs pre acc)
  case Nil
  then show ?case by simp
next
  case (Cons x xs)
  then obtain b bs' where b: "enc x = Inr b" and bs': "concat_r enc xs = Inr bs'" and bs: "bs = b @ bs'"
    by (auto simp: bind_r_eq_Inr)
  have x: "wf x" and xs: "list_all wf xs" using Cons.prems by auto
  have lb: "length b = len x" using enc_length x b by blast
  have pos: "0 < length b" using len_pos x lb by simp
  have "dec (drop (length pre) (pre @ bs @ post)) = Inr x"
    using dec_enc [OF x b] by (simp add: bs)
  then have "decode_loop dec len (int (length bs)) (pre @ bs @ post) (length pre) acc
      = decode_loop dec len (int (length bs) - int (len x)) (pre @ bs @ post)
          (length pre + len x) (acc @ [x])"
    using pos lb by (intro decode_loop_step) (simp_all add: bs)
  also have "\<dots> = decode_loop dec len (int (length bs')) ((pre @ b) @ bs' @ post)
      (length (pre @ b)) (acc @ [x])"
    by (simp add: bs lb)
  also have "\<dots> = Inr ((acc @ [x]) @ xs, 0, length (pre @ b) + length bs')"
    by (rule Cons.IH [OF xs bs'])
  finally show ?case by (simp add: bs)
qed

end

end
