(* ===== verification/AfiSafi.thy ===== *)
theory AfiSafi
  imports Codec
begin

text \<open>
  The error type of the BGP packet library and its code constants (bgp/packet/bgp.go), the attributes
  a peer negotiated, and the address families (bgp/packet/afisafi.go). The human-readable
  \<open>Message\<close> of a \<open>BGPMessageError\<close> is diagnostic text that nothing reads back and is left out;
  its \<open>TypeCode\<close>, \<open>SubTypeCode\<close> and \<open>Data\<close> are what the session sends to the peer.
\<close>

section \<open>Errors\<close>

record BGPMessageError =
  TypeCode :: u8
  SubTypeCode :: u8
  ErrData :: bytes

text \<open>\<open>PlainError\<close> is an error made by \<open>errors.New\<close>.\<close>

datatype pkt_error = MsgError BGPMessageError | PlainError

type_synonym 'a pres = "(pkt_error, 'a) result"

definition msg_error :: "u8 \<Rightarrow> u8 \<Rightarrow> bytes \<Rightarrow> 'a pres" where
  "msg_error t s d = Inl (Error (MsgError \<lparr>TypeCode = t, SubTypeCode = s, ErrData = d\<rparr>))"

lemma msg_error_neq [simp]:
  "msg_error t s d \<noteq> Inr x" "msg_error t s d \<noteq> Inl Panic" "msg_error t s d \<noteq> Inl Diverges"
  "Inr x \<noteq> msg_error t s d"
  by (simp_all add: msg_error_def)

lemma msg_error_bind [simp]: "bind_r (msg_error t s d) f = msg_error t s d"
  by (simp add: msg_error_def)

abbreviation (input) BGPMsgHeaderError :: u8 where "BGPMsgHeaderError \<equiv> 1"
abbreviation (input) BGPOpenMsgError :: u8 where "BGPOpenMsgError \<equiv> 2"
abbreviation (input) BGPUpdateMsgError :: u8 where "BGPUpdateMsgError \<equiv> 3"
abbreviation (input) BGPHoldTimerExpired :: u8 where "BGPHoldTimerExpired \<equiv> 4"
abbreviation (input) BGPFSMError :: u8 where "BGPFSMError \<equiv> 5"
abbreviation (input) BGPCease :: u8 where "BGPCease \<equiv> 6"

abbreviation (input) BGPUnspecific :: u8 where "BGPUnspecific \<equiv> 0"
abbreviation (input) BGPUnsupportedOptionalParam :: u8 where "BGPUnsupportedOptionalParam \<equiv> 4"

abbreviation (input) BGPMalformedAttrList :: u8 where "BGPMalformedAttrList \<equiv> 1"
abbreviation (input) BGPUnrecognizedWellKnownAttr :: u8 where "BGPUnrecognizedWellKnownAttr \<equiv> 2"
abbreviation (input) BGPMissingWellKnownAttr :: u8 where "BGPMissingWellKnownAttr \<equiv> 3"
abbreviation (input) BGPAttrFlagsError :: u8 where "BGPAttrFlagsError \<equiv> 4"
abbreviation (input) BGPAttrLenError :: u8 where "BGPAttrLenError \<equiv> 5"
abbreviation (input) BGPInvalidNetworkField :: u8 where "BGPInvalidNetworkField \<equiv> 10"

abbreviation (input) BGPASTrans :: u16 where "BGPASTrans \<equiv> 23456"

section \<open>Addresses\<close>

text \<open>
  \<open>net.IP.To4\<close> of the Go standard library: a 4-byte slice is returned as it is, a 16-byte slice that
  holds a v4-in-v6 address is reduced to its last four bytes, anything else gives nil. \<open>[]\<close> is nil.
\<close>

definition To4 :: "bytes \<Rightarrow> bytes" where
  "To4 ip = (if length ip = 4 then ip
             else if length ip = 16 \<and> take 12 ip = replicate 10 0 @ [255, 255] then drop 12 ip
             else [])"

lemma To4_4 [simp]: "length ip = 4 \<Longrightarrow> To4 ip = ip"
  by (simp add: To4_def)

lemma length_To4: "length (To4 ip) = 4 \<or> To4 ip = []"
  by (auto simp: To4_def)

lemma To4_idem [simp]: "To4 (To4 ip) = To4 ip"
  by (auto simp: To4_def)

section \<open>Address families\<close>

type_synonym AFI = u16
type_synonym SAFI = u8

abbreviation (input) AfiIP :: AFI where "AfiIP \<equiv> 1"
abbreviation (input) AfiIP6 :: AFI where "AfiIP6 \<equiv> 2"
abbreviation (input) SafiUnicast :: SAFI where "SafiUnicast \<equiv> 1"
abbreviation (input) SafiMulticast :: SAFI where "SafiMulticast \<equiv> 2"

definition AFINextHopLenMap :: "AFI \<Rightarrow> nat option" where
  "AFINextHopLenMap afi = (if afi = AfiIP then Some 4 else if afi = AfiIP6 then Some 16 else None)"

definition GetProtocolFamily :: "AFI \<Rightarrow> SAFI \<Rightarrow> u32" where
  "GetProtocolFamily afi safi = ucast (push_bit 8 afi) OR ucast safi"

definition GetAfiSafi :: "u32 \<Rightarrow> AFI \<times> SAFI" where
  "GetAfiSafi protocolFamily = (ucast (drop_bit 8 protocolFamily), ucast (protocolFamily AND 0xFF))"

definition GetAddressLengthForFamily :: "u32 \<Rightarrow> int" where
  "GetAddressLengthForFamily protoFamily =
     (case AFINextHopLenMap (fst (GetAfiSafi protoFamily)) of Some addrLen \<Rightarrow> int addrLen | None \<Rightarrow> -1)"

definition GetZeroNextHopForFamily :: "u32 \<Rightarrow> bytes" where
  "GetZeroNextHopForFamily protoFamily =
     (let afi = fst (GetAfiSafi protoFamily) in
      if afi = AfiIP then replicate 10 0 @ [255, 255, 0, 0, 0, 0]
      else if afi = AfiIP6 then replicate 16 0 else [])"

definition ProtocolFamilyMap :: "string \<Rightarrow> u32 option" where
  "ProtocolFamilyMap name =
     (if name = ''ipv4-unicast'' then Some (GetProtocolFamily AfiIP SafiUnicast)
      else if name = ''ipv6-unicast'' then Some (GetProtocolFamily AfiIP6 SafiUnicast)
      else None)"

text \<open>The loop over the configured families: it stops at the first name it does not know.\<close>

fun configured_families :: "string list \<Rightarrow> u32 set \<Rightarrow> u32 set \<times> bool" where
  "configured_families [] m = (m, True)"
| "configured_families (name # rest) m =
     (case ProtocolFamilyMap name of
        Some v \<Rightarrow> configured_families rest (insert v m)
      | None \<Rightarrow> (m, False))"

definition GetProtocolFromConfig :: "string list \<Rightarrow> bytes \<Rightarrow> u32 set \<times> bool" where
  "GetProtocolFromConfig afiSafis neighborAddress =
     (let (m, rv) = configured_families afiSafis {} in
      (if m = {} then
         (if To4 neighborAddress = [] then {GetProtocolFamily AfiIP6 SafiUnicast}
          else {GetProtocolFamily AfiIP SafiUnicast})
       else m, rv))"

text \<open>
  \<open>AddPathFamily\<close> is Go's map from families to flags, as an association list whose keys are distinct.
\<close>

type_synonym add_path_family = "((AFI \<times> SAFI) \<times> u8) list"

record BGPPeerAttrs =
  PeerASSize :: u8
  AddPathFamily :: add_path_family
  AddPathsRxActual :: bool

lemma GetAfiSafi_GetProtocolFamily:
  "GetAfiSafi (GetProtocolFamily afi safi) = (afi AND 0xFF, safi)"
proof -
  have ff: "(0xFF :: u16) = mask 8" "(0xFF :: u32) = mask 8"
    by (simp_all add: mask_eq_exp_minus_1)
  have "ucast (drop_bit 8 (GetProtocolFamily afi safi)) = afi AND 0xFF"
    unfolding GetProtocolFamily_def ff
    by (rule bit_word_eqI) (auto simp: bit_simps dest: bit_imp_le_length)
  moreover have "ucast (GetProtocolFamily afi safi AND 0xFF) = safi"
    unfolding GetProtocolFamily_def ff
    by (rule bit_word_eqI) (auto simp: bit_simps)
  ultimately show ?thesis by (simp add: GetAfiSafi_def)
qed

end
