(* ===== verification/AttrBase.thy ===== *)
theory AttrBase
  imports AfiSafi
begin

text \<open>
  The header every path attribute starts with (\<open>BGPPathAttrBase\<close> of bgp/packet/bgp.go): flags, type code
  and a length of one or two bytes, with the tables of flags and lengths that a decoded attribute is checked
  against.
\<close>

section \<open>Codes and flags\<close>

abbreviation (input) BGPPathAttrFlagExtendedLen :: u8 where "BGPPathAttrFlagExtendedLen \<equiv> 0x10"
abbreviation (input) BGPPathAttrFlagPartial :: u8 where "BGPPathAttrFlagPartial \<equiv> 0x20"
abbreviation (input) BGPPathAttrFlagTransitive :: u8 where "BGPPathAttrFlagTransitive \<equiv> 0x40"
abbreviation (input) BGPPathAttrFlagOptional :: u8 where "BGPPathAttrFlagOptional \<equiv> 0x80"
abbreviation (input) BGPPathAttrFlagAllMinusExtendedLen :: u8 where "BGPPathAttrFlagAllMinusExtendedLen \<equiv> 0xE0"

abbreviation (input) BGPPathAttrTypeOrigin :: u8 where "BGPPathAttrTypeOrigin \<equiv> 1"
abbreviation (input) BGPPathAttrTypeASPath :: u8 where "BGPPathAttrTypeASPath \<equiv> 2"
abbreviation (input) BGPPathAttrTypeNextHop :: u8 where "BGPPathAttrTypeNextHop \<equiv> 3"
abbreviation (input) BGPPathAttrTypeMultiExitDisc :: u8 where "BGPPathAttrTypeMultiExitDisc \<equiv> 4"
abbreviation (input) BGPPathAttrTypeLocalPref :: u8 where "BGPPathAttrTypeLocalPref \<equiv> 5"
abbreviation (input) BGPPathAttrTypeAtomicAggregate :: u8 where "BGPPathAttrTypeAtomicAggregate \<equiv> 6"
abbreviation (input) BGPPathAttrTypeAggregator :: u8 where "BGPPathAttrTypeAggregator \<equiv> 7"
abbreviation (input) BGPPathAttrTypeOriginatorId :: u8 where "BGPPathAttrTypeOriginatorId \<equiv> 9"
abbreviation (input) BGPPathAttrTypeClusterList :: u8 where "BGPPathAttrTypeClusterList \<equiv> 10"
abbreviation (input) BGPPathAttrTypeMPReachNLRI :: u8 where "BGPPathAttrTypeMPReachNLRI \<equiv> 14"
abbreviation (input) BGPPathAttrTypeMPUnreachNLRI :: u8 where "BGPPathAttrTypeMPUnreachNLRI \<equiv> 15"
abbreviation (input) BGPPathAttrTypeAS4Path :: u8 where "BGPPathAttrTypeAS4Path \<equiv> 17"
abbreviation (input) BGPPathAttrTypeAS4Aggregator :: u8 where "BGPPathAttrTypeAS4Aggregator \<equiv> 18"
abbreviation (input) BGPPathAttrTypeUnknown :: u8 where "BGPPathAttrTypeUnknown \<equiv> 19"

text \<open>The flags a known attribute must carry and the mask they are compared under.\<close>

definition BGPPathAttrTypeFlagsMap :: "u8 \<Rightarrow> (u8 \<times> u8) option" where
  "BGPPathAttrTypeFlagsMap code =
     (if code \<in> {BGPPathAttrTypeOrigin, BGPPathAttrTypeASPath, BGPPathAttrTypeNextHop,
                 BGPPathAttrTypeLocalPref, BGPPathAttrTypeAtomicAggregate}
      then Some (BGPPathAttrFlagTransitive, BGPPathAttrFlagAllMinusExtendedLen)
      else if code \<in> {BGPPathAttrTypeMultiExitDisc, BGPPathAttrTypeOriginatorId, BGPPathAttrTypeClusterList,
                      BGPPathAttrTypeMPReachNLRI, BGPPathAttrTypeMPUnreachNLRI}
      then Some (BGPPathAttrFlagOptional, BGPPathAttrFlagAllMinusExtendedLen)
      else if code \<in> {BGPPathAttrTypeAggregator, BGPPathAttrTypeAS4Path, BGPPathAttrTypeAS4Aggregator}
      then Some (BGPPathAttrFlagOptional OR BGPPathAttrFlagTransitive, BGPPathAttrFlagAllMinusExtendedLen)
      else None)"

definition BGPPathAttrTypeLenMap :: "u8 \<Rightarrow> u16 option" where
  "BGPPathAttrTypeLenMap code =
     (if code = BGPPathAttrTypeOrigin then Some 1
      else if code \<in> {BGPPathAttrTypeNextHop, BGPPathAttrTypeMultiExitDisc, BGPPathAttrTypeLocalPref} then Some 4
      else if code = BGPPathAttrTypeAtomicAggregate then Some 0
      else if code = BGPPathAttrTypeAS4Aggregator then Some 8
      else None)"

section \<open>The header\<close>

record BGPPathAttrBase =
  Flags :: u8
  Code :: u8
  Attr_Length :: u16
  BGPPathAttrLen :: u16

definition BGPPathAttrBase_TotalLen :: "BGPPathAttrBase \<Rightarrow> u32" where
  "BGPPathAttrBase_TotalLen pa = ucast (Attr_Length pa) + ucast (BGPPathAttrLen pa)"

definition BGPPathAttrBase_Encode :: "BGPPathAttrBase \<Rightarrow> bytes pres" where
  "BGPPathAttrBase_Encode pa =
     bind_r (set_r (replicate (unat (BGPPathAttrBase_TotalLen pa)) 0) 0 (Flags pa)) (\<lambda>pkt.
     bind_r (set_r pkt 1 (Code pa)) (\<lambda>pkt.
     if Flags pa AND BGPPathAttrFlagExtendedLen \<noteq> 0 then put_r pkt 2 (be16 (Attr_Length pa))
     else set_r pkt 2 (ucast (Attr_Length pa))))"

text \<open>An error whose data are \<open>pkt[:pa.TotalLen()]\<close>.\<close>

definition attr_error :: "u8 \<Rightarrow> BGPPathAttrBase \<Rightarrow> bytes \<Rightarrow> 'a pres" where
  "attr_error sub pa pkt =
     bind_r (slice_r pkt 0 (unat (BGPPathAttrBase_TotalLen pa))) (\<lambda>d. msg_error BGPUpdateMsgError sub d)"

definition checkFlags :: "BGPPathAttrBase \<Rightarrow> bytes \<Rightarrow> unit pres" where
  "checkFlags pa pkt =
     (if Flags pa AND BGPPathAttrFlagOptional = 0 \<and> Flags pa AND BGPPathAttrFlagTransitive = 0
      then attr_error BGPAttrFlagsError pa pkt
      else if Flags pa AND BGPPathAttrFlagPartial \<noteq> 0 then
        (if Flags pa AND BGPPathAttrFlagOptional = 0 then attr_error BGPAttrFlagsError pa pkt
         else if Flags pa AND BGPPathAttrFlagOptional \<noteq> 0 \<and> Flags pa AND BGPPathAttrFlagTransitive = 0
         then attr_error BGPAttrFlagsError pa pkt
         else Inr ())
      else Inr ())"

text \<open>The part of \<open>Decode\<close> that reads the header, before the checks on the bytes present and the tables.\<close>

definition base_header :: "bytes \<Rightarrow> BGPPathAttrBase pres" where
  "base_header pkt =
     (if length pkt < 3 then msg_error BGPUpdateMsgError BGPMalformedAttrList []
      else bind_r (index_r pkt 0) (\<lambda>flags. bind_r (index_r pkt 1) (\<lambda>code.
        if flags AND BGPPathAttrFlagExtendedLen \<noteq> 0 then
          (if length pkt < 4 then msg_error BGPUpdateMsgError BGPMalformedAttrList []
           else bind_r (bind_r (slice_r pkt 2 4) get16) (\<lambda>l.
             Inr \<lparr>Flags = flags, Code = code, Attr_Length = l, BGPPathAttrLen = 4\<rparr>))
        else bind_r (index_r pkt 2) (\<lambda>l.
             Inr \<lparr>Flags = flags, Code = code, Attr_Length = ucast l, BGPPathAttrLen = 3\<rparr>))))"

definition base_checks :: "BGPPathAttrBase \<Rightarrow> bytes \<Rightarrow> BGPPathAttrBase pres" where
  "base_checks pa pkt =
     (if length pkt < unat (Attr_Length pa + BGPPathAttrLen pa)
      then msg_error BGPUpdateMsgError BGPMalformedAttrList pkt
      else if (case BGPPathAttrTypeFlagsMap (Code pa) of
                 Some (v, m) \<Rightarrow> (v XOR Flags pa) AND m \<noteq> 0 | None \<Rightarrow> False)
      then attr_error BGPAttrFlagsError pa pkt
      else bind_r (checkFlags pa pkt) (\<lambda>_.
        if (case BGPPathAttrTypeLenMap (Code pa) of Some l \<Rightarrow> l \<noteq> Attr_Length pa | None \<Rightarrow> False)
        then attr_error BGPAttrLenError pa pkt
        else if Flags pa AND BGPPathAttrFlagOptional = 0 \<and> Code pa \<ge> BGPPathAttrTypeUnknown
        then attr_error BGPUnrecognizedWellKnownAttr pa pkt
        else Inr pa))"

definition BGPPathAttrBase_Decode :: "bytes \<Rightarrow> BGPPathAttrBase pres" where
  "BGPPathAttrBase_Decode pkt = bind_r (base_header pkt) (\<lambda>pa. base_checks pa pkt)"

section \<open>Reading and writing the header\<close>

definition ext_len :: "BGPPathAttrBase \<Rightarrow> bool" where
  "ext_len pa \<longleftrightarrow> Flags pa AND BGPPathAttrFlagExtendedLen \<noteq> 0"

text \<open>The header on the wire, and a header whose fields agree with one another.\<close>

definition hdr_bytes :: "BGPPathAttrBase \<Rightarrow> bytes" where
  "hdr_bytes pa = [Flags pa, Code pa] @
     (if ext_len pa then be16 (Attr_Length pa) else [ucast (Attr_Length pa)])"

definition hdr_wf :: "BGPPathAttrBase \<Rightarrow> bool" where
  "hdr_wf pa \<longleftrightarrow> (if ext_len pa then BGPPathAttrLen pa = 4
                   else BGPPathAttrLen pa = 3 \<and> unat (Attr_Length pa) < 256)"

text \<open>The tables accept the header.\<close>

definition hdr_accepted :: "BGPPathAttrBase \<Rightarrow> bool" where
  "hdr_accepted pa \<longleftrightarrow>
     (case BGPPathAttrTypeFlagsMap (Code pa) of Some (v, m) \<Rightarrow> (v XOR Flags pa) AND m = 0 | None \<Rightarrow> True) \<and>
     (Flags pa AND BGPPathAttrFlagOptional \<noteq> 0 \<or> Flags pa AND BGPPathAttrFlagTransitive \<noteq> 0) \<and>
     (Flags pa AND BGPPathAttrFlagPartial \<noteq> 0 \<longrightarrow>
        Flags pa AND BGPPathAttrFlagOptional \<noteq> 0 \<and> Flags pa AND BGPPathAttrFlagTransitive \<noteq> 0) \<and>
     (case BGPPathAttrTypeLenMap (Code pa) of Some l \<Rightarrow> l = Attr_Length pa | None \<Rightarrow> True) \<and>
     (Flags pa AND BGPPathAttrFlagOptional \<noteq> 0 \<or> Code pa < BGPPathAttrTypeUnknown)"

lemma unat_BGPPathAttrBase_TotalLen:
  "unat (BGPPathAttrBase_TotalLen pa) = unat (Attr_Length pa) + unat (BGPPathAttrLen pa)"
  using unat_add_small [of "ucast (Attr_Length pa) :: u32" "ucast (BGPPathAttrLen pa)"]
    u16_less [of "Attr_Length pa"] u16_less [of "BGPPathAttrLen pa"]
  by (simp add: BGPPathAttrBase_TotalLen_def del: u16_less)

lemma length_hdr_bytes: "hdr_wf pa \<Longrightarrow> length (hdr_bytes pa) = unat (BGPPathAttrLen pa)"
  by (simp add: hdr_bytes_def hdr_wf_def split: if_splits)

lemma hdr_wf_TotalLen:
  "hdr_wf pa \<Longrightarrow> unat (BGPPathAttrBase_TotalLen pa) = length (hdr_bytes pa) + unat (Attr_Length pa)"
  by (simp add: unat_BGPPathAttrBase_TotalLen length_hdr_bytes)

lemma BGPPathAttrBase_Encode_wf:
  assumes "hdr_wf pa"
  shows "BGPPathAttrBase_Encode pa = Inr (hdr_bytes pa @ replicate (unat (Attr_Length pa)) 0)"
proof (cases "ext_len pa")
  case True
  then have "unat (BGPPathAttrBase_TotalLen pa) = Suc (Suc (Suc (Suc (unat (Attr_Length pa)))))"
    using assms by (simp add: hdr_wf_def unat_BGPPathAttrBase_TotalLen)
  then show ?thesis
    using True by (simp add: BGPPathAttrBase_Encode_def ext_len_def hdr_bytes_def set_r_def put_r_def numeral_2_eq_2)
next
  case False
  then have "unat (BGPPathAttrBase_TotalLen pa) = Suc (Suc (Suc (unat (Attr_Length pa))))"
    using assms by (simp add: hdr_wf_def unat_BGPPathAttrBase_TotalLen)
  then show ?thesis
    using False by (simp add: BGPPathAttrBase_Encode_def ext_len_def hdr_bytes_def set_r_def)
qed

text \<open>Reading a header: never a fault, and what is read are the first bytes.\<close>

lemma base_header_hdr: "hdr_wf pa \<Longrightarrow> base_header (hdr_bytes pa @ rest) = Inr pa"
proof (cases "ext_len pa")
  case True
  assume "hdr_wf pa"
  with True show ?thesis
    by (cases pa) (simp add: base_header_def hdr_bytes_def hdr_wf_def ext_len_def slice_r_def index_r_def)
next
  case False
  assume "hdr_wf pa"
  moreover from this False have "ucast (ucast (Attr_Length pa) :: u8) = Attr_Length pa"
    by (intro word_unat_eqI) (simp add: hdr_wf_def unsigned_ucast_eq unsigned_take_bit_eq take_bit_nat_eq_self_iff)
  ultimately show ?thesis using False
    by (cases pa) (simp add: base_header_def hdr_bytes_def hdr_wf_def ext_len_def index_r_def)
qed

lemma base_header_cases:
  "(\<exists>e. base_header pkt = Inl (Error e)) \<or>
   (\<exists>pa rest. base_header pkt = Inr pa \<and> hdr_wf pa \<and> pkt = hdr_bytes pa @ rest)"
proof (cases "length pkt < 3 \<or> (pkt ! 0 AND BGPPathAttrFlagExtendedLen \<noteq> 0 \<and> length pkt < 4)")
  case True
  then show ?thesis by (auto simp: base_header_def msg_error_def index_r_def)
next
  case False
  then obtain f c l rest where pkt: "pkt = f # c # l # rest"
    by (metis One_nat_def Suc_1 length_Cons less_Suc_eq list.exhaust list.size(3) numeral_3_eq_3 zero_less_Suc)
  show ?thesis
  proof (cases "f AND BGPPathAttrFlagExtendedLen \<noteq> 0")
    case True
    with False pkt obtain m rest' where rest: "rest = m # rest'" by (cases rest) auto
    let ?w = "push_bit 8 (ucast l) OR ucast m :: u16"
    have "be16 ?w = [l, m]" using be16_get16 [of "[l, m]" ?w] by simp
    then show ?thesis using True
      by (intro disjI2 exI [of _ "\<lparr>Flags = f, Code = c, Attr_Length = ?w, BGPPathAttrLen = 4\<rparr>"] exI [of _ rest'])
         (simp add: pkt rest base_header_def slice_r_def hdr_wf_def ext_len_def hdr_bytes_def)
  next
    case f: False
    have "ucast (ucast l :: u16) = l"
      by (intro word_unat_eqI) (simp add: unsigned_ucast_eq unsigned_take_bit_eq take_bit_nat_eq_self_iff less_le_trans [OF u8_less])
    then show ?thesis using f
      by (intro disjI2 exI [of _ "\<lparr>Flags = f, Code = c, Attr_Length = ucast l, BGPPathAttrLen = 3\<rparr>"] exI [of _ rest])
         (simp add: pkt base_header_def hdr_wf_def ext_len_def hdr_bytes_def)
  qed
qed


text \<open>
  The tables' verdict. The sum \<open>pa.Length + pa.BGPPathAttrLen\<close> is a \<open>uint16\<close>; where it does not overflow, the
  bytes of the attribute are present once the checks are reached, so that no error report faults.
\<close>

definition hdr_no_overflow :: "BGPPathAttrBase \<Rightarrow> bool" where
  "hdr_no_overflow pa \<longleftrightarrow> unat (Attr_Length pa) + unat (BGPPathAttrLen pa) < 65536"

lemma unat_Length_plus:
  "hdr_no_overflow pa \<Longrightarrow> unat (Attr_Length pa + BGPPathAttrLen pa) = unat (BGPPathAttrBase_TotalLen pa)"
  using unat_add_small [of "Attr_Length pa" "BGPPathAttrLen pa"]
  by (simp add: hdr_no_overflow_def unat_BGPPathAttrBase_TotalLen)

lemma attr_error_not_Inr [simp]: "attr_error sub pa pkt \<noteq> Inr x"
  by (simp add: attr_error_def slice_r_def)

lemma attr_error_bind [simp]: "bind_r (attr_error sub pa pkt) f = attr_error sub pa pkt"
  by (simp add: attr_error_def slice_r_def)

lemma attr_error_Inl:
  "attr_error sub pa pkt = Inl f \<Longrightarrow> unat (BGPPathAttrBase_TotalLen pa) \<le> length pkt \<Longrightarrow> \<exists>e. f = Error e"
  by (auto simp: attr_error_def slice_r_def msg_error_def)

lemma base_checks_Inr_iff:
  "base_checks pa pkt = Inr x \<longleftrightarrow>
     x = pa \<and> unat (Attr_Length pa + BGPPathAttrLen pa) \<le> length pkt \<and> hdr_accepted pa"
  by (auto simp: base_checks_def hdr_accepted_def checkFlags_def not_less
      split: option.splits if_splits)

lemma base_checks_safe:
  assumes "hdr_no_overflow pa" "base_checks pa pkt = Inl f"
  shows "\<exists>e. f = Error e"
proof (cases "length pkt < unat (Attr_Length pa + BGPPathAttrLen pa)")
  case True
  then show ?thesis using assms by (auto simp: base_checks_def msg_error_def)
next
  case False
  then have len: "unat (BGPPathAttrBase_TotalLen pa) \<le> length pkt"
    using assms by (simp add: unat_Length_plus)
  show ?thesis
    using assms(2) False len
    by (auto simp: base_checks_def checkFlags_def bind_r_eq_Inl split: if_splits dest: attr_error_Inl)
qed

lemma BGPPathAttrBase_Decode_Inr:
  "BGPPathAttrBase_Decode pkt = Inr pa \<longleftrightarrow>
     hdr_wf pa \<and> hdr_accepted pa \<and> unat (Attr_Length pa + BGPPathAttrLen pa) \<le> length pkt \<and>
     (\<exists>rest. pkt = hdr_bytes pa @ rest)"
proof
  assume "BGPPathAttrBase_Decode pkt = Inr pa"
  then show "hdr_wf pa \<and> hdr_accepted pa \<and> unat (Attr_Length pa + BGPPathAttrLen pa) \<le> length pkt \<and>
     (\<exists>rest. pkt = hdr_bytes pa @ rest)"
    using base_header_cases [of pkt]
    by (auto simp: BGPPathAttrBase_Decode_def bind_r_eq_Inr base_checks_Inr_iff)
next
  assume "hdr_wf pa \<and> hdr_accepted pa \<and> unat (Attr_Length pa + BGPPathAttrLen pa) \<le> length pkt \<and>
     (\<exists>rest. pkt = hdr_bytes pa @ rest)"
  then show "BGPPathAttrBase_Decode pkt = Inr pa"
    by (auto simp: BGPPathAttrBase_Decode_def base_header_hdr base_checks_Inr_iff)
qed

text \<open>The header declares fewer than 65532 bytes: then decoding reports an error or succeeds, and a success
  has all of the attribute's bytes.\<close>

lemma BGPPathAttrBase_Decode_safe:
  assumes "\<And>pa. base_header pkt = Inr pa \<Longrightarrow> hdr_no_overflow pa"
  shows "(\<exists>e. BGPPathAttrBase_Decode pkt = Inl (Error e)) \<or>
         (\<exists>pa body rest. BGPPathAttrBase_Decode pkt = Inr pa \<and> hdr_wf pa \<and> hdr_accepted pa \<and> hdr_no_overflow pa \<and>
            pkt = hdr_bytes pa @ body @ rest \<and> length body = unat (Attr_Length pa))"
proof (cases "BGPPathAttrBase_Decode pkt")
  case (Inl f)
  then show ?thesis
    using base_header_cases [of pkt] base_checks_safe assms
    by (fastforce simp: BGPPathAttrBase_Decode_def)
next
  case (Inr pa)
  then obtain rest where pa: "hdr_wf pa" "hdr_accepted pa" and
    l: "unat (Attr_Length pa + BGPPathAttrLen pa) \<le> length pkt" and rest: "pkt = hdr_bytes pa @ rest"
    unfolding BGPPathAttrBase_Decode_Inr by blast
  have "hdr_no_overflow pa" using assms base_header_hdr [OF pa(1), of rest] rest by simp
  moreover have "unat (Attr_Length pa) \<le> length rest"
    using l rest pa calculation by (simp add: unat_Length_plus hdr_wf_TotalLen)
  then have "rest = take (unat (Attr_Length pa)) rest @ drop (unat (Attr_Length pa)) rest \<and>
      length (take (unat (Attr_Length pa)) rest) = unat (Attr_Length pa)" by simp
  ultimately show ?thesis using Inr pa rest by metis
qed

lemma BGPPathAttrBase_Decode_hdr:
  "hdr_wf pa \<Longrightarrow> hdr_accepted pa \<Longrightarrow> hdr_no_overflow pa \<Longrightarrow> unat (Attr_Length pa) \<le> length rest \<Longrightarrow>
   BGPPathAttrBase_Decode (hdr_bytes pa @ rest) = Inr pa"
  by (auto simp: BGPPathAttrBase_Decode_Inr unat_Length_plus hdr_wf_TotalLen)

end
