(* ===== verification/Nlri.thy ===== *)
theory Nlri
  imports AfiSafi
begin

text \<open>
  Network layer reachability information (bgp/packet/bgp.go): prefixes, prefixes with a path id
  (add-path), and the loop that decodes a list of them. \<open>Length\<close> is a \<open>uint8\<close> and so is every
  expression on it, so \<open>(Length + 7) / 8\<close> wraps above 248.
\<close>

section \<open>Prefixes\<close>

record IPPrefix =
  Length :: u8
  Prefix :: bytes

definition prefix_bytes :: "u8 \<Rightarrow> u8" where
  "prefix_bytes l = (l + 7) div 8"

definition IPPrefix_Len :: "IPPrefix \<Rightarrow> u32" where
  "IPPrefix_Len ip = ucast (prefix_bytes (Length ip) + 1)"

definition IPPrefix_Encode :: "IPPrefix \<Rightarrow> AFI \<Rightarrow> bytes pres" where
  "IPPrefix_Encode ip afi =
     (let ipLen = (if afi = AfiIP6 then 16 else 4);
          ipBytesStart = (of_int (int (length (Prefix ip)) - ipLen) :: u8)
      in bind_r (set_r (replicate (unat (IPPrefix_Len ip)) 0) 0 (Length ip)) (\<lambda>pkt.
         bind_r (slice_r (Prefix ip) (unat ipBytesStart)
                   (unat (ipBytesStart + prefix_bytes (Length ip)))) (\<lambda>src.
         copy_r pkt 1 src)))"

definition IPPrefix_Decode :: "bytes \<Rightarrow> AFI \<Rightarrow> IPPrefix pres" where
  "IPPrefix_Decode pkt afi =
     (if length pkt < 1 then msg_error BGPUpdateMsgError BGPInvalidNetworkField []
      else bind_r (index_r pkt 0) (\<lambda>l.
        if (case AFINextHopLenMap afi of Some n \<Rightarrow> l > of_nat n * 8 | None \<Rightarrow> False)
        then msg_error BGPUpdateMsgError BGPInvalidNetworkField []
        else let bs = prefix_bytes l in
          if length pkt < unat bs + 1 then msg_error BGPUpdateMsgError BGPInvalidNetworkField []
          else let ipLen = (if afi = AfiIP6 \<or> unat bs > 4 then 16 else 4) in
            bind_r (slice_r pkt 1 (unat (bs + 1))) (\<lambda>src.
            bind_r (copy_r (replicate ipLen 0) 0 src) (\<lambda>prefix.
            if bs > 0 \<and> l mod 8 > 0 then
              bind_r (index_r prefix (unat (bs - 1))) (\<lambda>b.
              bind_r (set_r prefix (unat (bs - 1)) (b AND NOT (drop_bit (unat (l mod 8)) 0xFF))) (\<lambda>prefix.
              Inr \<lparr>Length = l, Prefix = prefix\<rparr>))
            else Inr \<lparr>Length = l, Prefix = prefix\<rparr>))))"

definition NewIPPrefix :: "bytes \<Rightarrow> u8 \<Rightarrow> IPPrefix" where
  "NewIPPrefix prefix len = \<lparr>Length = len, Prefix = prefix\<rparr>"

record ExtNLRI =
  Ext_IPPrefix :: IPPrefix
  Ext_PathId :: u32

definition ExtNLRI_Len :: "ExtNLRI \<Rightarrow> u32" where
  "ExtNLRI_Len n = IPPrefix_Len (Ext_IPPrefix n) + 4"

definition ExtNLRI_Encode :: "ExtNLRI \<Rightarrow> AFI \<Rightarrow> bytes pres" where
  "ExtNLRI_Encode n afi =
     bind_r (put_r (replicate 4 0) 0 (be32 (Ext_PathId n))) (\<lambda>pkt.
     bind_r (IPPrefix_Encode (Ext_IPPrefix n) afi) (\<lambda>ipBytes. Inr (pkt @ ipBytes)))"

definition ExtNLRI_Decode :: "bytes \<Rightarrow> AFI \<Rightarrow> ExtNLRI pres" where
  "ExtNLRI_Decode pkt afi =
     (if length pkt < 5 then msg_error BGPUpdateMsgError BGPInvalidNetworkField []
      else bind_r (bind_r (slice_r pkt 0 4) get32) (\<lambda>pathId.
        bind_r (slice_from pkt 4) (\<lambda>s.
        bind_r (IPPrefix_Decode s afi) (\<lambda>ip.
        Inr \<lparr>Ext_IPPrefix = ip, Ext_PathId = pathId\<rparr>))))"

definition NewExtNLRI :: "u32 \<Rightarrow> IPPrefix \<Rightarrow> ExtNLRI" where
  "NewExtNLRI pathId prefix = \<lparr>Ext_IPPrefix = prefix, Ext_PathId = pathId\<rparr>"

datatype NLRI = PlainNLRI IPPrefix | PathNLRI ExtNLRI

fun NLRI_Encode :: "AFI \<Rightarrow> NLRI \<Rightarrow> bytes pres" where
  "NLRI_Encode afi (PlainNLRI ip) = IPPrefix_Encode ip afi"
| "NLRI_Encode afi (PathNLRI n) = ExtNLRI_Encode n afi"

fun NLRI_Len :: "NLRI \<Rightarrow> u32" where
  "NLRI_Len (PlainNLRI ip) = IPPrefix_Len ip"
| "NLRI_Len (PathNLRI n) = ExtNLRI_Len n"

fun GetIPPrefix :: "NLRI \<Rightarrow> IPPrefix" where
  "GetIPPrefix (PlainNLRI ip) = ip"
| "GetIPPrefix (PathNLRI n) = Ext_IPPrefix n"

fun GetPathId :: "NLRI \<Rightarrow> u32" where
  "GetPathId (PlainNLRI ip) = 0"
| "GetPathId (PathNLRI n) = 0"

text \<open>
  \<open>ExtNLRI\<close> embeds \<open>*IPPrefix\<close> and declares no \<open>GetPathId\<close> of its own, so the promoted method of the
  prefix answers, which is always 0.
\<close>

text \<open>One element of the list: the peer's negotiated flag decides which kind is read.\<close>

definition NLRI_Decode :: "bool \<Rightarrow> AFI \<Rightarrow> bytes \<Rightarrow> NLRI pres" where
  "NLRI_Decode addPathsRx afi pkt =
     (if addPathsRx then bind_r (ExtNLRI_Decode pkt afi) (\<lambda>n. Inr (PathNLRI n))
      else bind_r (IPPrefix_Decode pkt afi) (\<lambda>ip. Inr (PlainNLRI ip)))"

text \<open>
  \<open>decodeNLRI\<close>: the list is appended to, so the result holds the elements and the number of bytes read.
  The loop variable counts up to \<open>length\<close>; the distance that is left counts down to 0.
\<close>

definition decodeNLRI :: "bytes \<Rightarrow> u32 \<Rightarrow> AFI \<Rightarrow> SAFI \<Rightarrow> BGPPeerAttrs \<Rightarrow> (NLRI list \<times> nat) pres" where
  "decodeNLRI pkt len afi safi peerAttrs =
     (if unat len > length pkt then msg_error BGPUpdateMsgError BGPMalformedAttrList []
      else bind_r (decode_loop (NLRI_Decode (AddPathsRxActual peerAttrs) afi) (\<lambda>n. unat (NLRI_Len n))
                     (int (unat len)) pkt 0 []) (\<lambda>(ns, left, ptr).
        if left \<noteq> 0 then msg_error BGPUpdateMsgError BGPAttrLenError pkt
        else Inr (ns, ptr)))"

text \<open>\<open>ConstructNLRIFromPathIdAndNLRI\<close> of bgp/packet/helpers.go.\<close>

fun ConstructNLRIFromPathIdAndNLRI :: "NLRI \<Rightarrow> u32 \<Rightarrow> NLRI" where
  "ConstructNLRIFromPathIdAndNLRI (PlainNLRI ip) pathId = PlainNLRI ip"
| "ConstructNLRIFromPathIdAndNLRI (PathNLRI n) pathId = PathNLRI (n\<lparr>Ext_PathId := pathId\<rparr>)"

section \<open>Prefixes decode to what was encoded\<close>

lemma prefix_bytes_nat: "unat l \<le> 128 \<Longrightarrow> unat (prefix_bytes l) = (unat l + 7) div 8"
  by (simp add: prefix_bytes_def unat_div unat_add_small)

definition afi_len :: "AFI \<Rightarrow> nat" where
  "afi_len afi = (if afi = AfiIP6 then 16 else 4)"

definition known_afi :: "AFI \<Rightarrow> bool" where
  "known_afi afi \<longleftrightarrow> afi = AfiIP \<or> afi = AfiIP6"

text \<open>The number of bytes of a prefix of \<open>l\<close> bits, and the prefix those bytes denote.\<close>

definition nbytes :: "u8 \<Rightarrow> nat" where
  "nbytes l = (unat l + 7) div 8"

definition mask_last :: "u8 \<Rightarrow> bytes \<Rightarrow> bytes" where
  "mask_last l p =
     (if unat l mod 8 > 0
      then p[nbytes l - 1 := p ! (nbytes l - 1) AND NOT (drop_bit (unat l mod 8) 0xFF)] else p)"

lemma length_mask_last [simp]: "length (mask_last l p) = length p"
  by (simp add: mask_last_def)

definition prefix_of_bytes :: "AFI \<Rightarrow> u8 \<Rightarrow> bytes \<Rightarrow> bytes" where
  "prefix_of_bytes afi l bs = mask_last l (take (nbytes l) bs @ replicate (afi_len afi - nbytes l) 0)"

lemma nbytes_le: "unat l \<le> 8 * n \<Longrightarrow> nbytes l \<le> n"
  by (simp add: nbytes_def)

lemma nbytes_pos: "unat l mod 8 > 0 \<Longrightarrow> nbytes l > 0"
  unfolding nbytes_def by presburger

lemma IPPrefix_Decode_known:
  assumes "known_afi afi"
  shows "IPPrefix_Decode (l # body) afi =
    (if unat l > 8 * afi_len afi \<or> length body < nbytes l
     then msg_error BGPUpdateMsgError BGPInvalidNetworkField []
     else Inr \<lparr>Length = l, Prefix = prefix_of_bytes afi l body\<rparr>)"
proof -
  have map: "(case AFINextHopLenMap afi of Some n \<Rightarrow> l > of_nat n * 8 | None \<Rightarrow> False)
      \<longleftrightarrow> unat l > 8 * afi_len afi"
    using assms by (auto simp: AFINextHopLenMap_def afi_len_def known_afi_def word_less_nat_alt)
  show ?thesis
  proof (cases "unat l > 8 * afi_len afi")
    case True
    with map show ?thesis by (simp add: IPPrefix_Decode_def)
  next
    case False
    then have l: "unat l \<le> 8 * afi_len afi" by simp
    then have small: "unat l \<le> 128" by (simp add: afi_len_def split: if_splits)
    have k: "unat (prefix_bytes l) = nbytes l" using small by (simp add: prefix_bytes_nat nbytes_def)
    have k16: "nbytes l \<le> afi_len afi" using l by (rule nbytes_le)
    have k1: "unat (prefix_bytes l + 1) = nbytes l + 1"
      using small k by (subst unat_add_small) (simp_all add: nbytes_def)
    have ipl: "(if afi = AfiIP6 \<or> nbytes l > 4 then 16 else 4) = afi_len afi"
      using k16 by (simp add: afi_len_def split: if_splits)
    have m8: "unat (l mod 8) = unat l mod 8" by (simp add: unat_mod)
    then have mpos: "l mod 8 > 0 \<longleftrightarrow> unat l mod 8 > 0" by (simp add: word_less_nat_alt)
    have bpos: "prefix_bytes l > 0 \<longleftrightarrow> nbytes l > 0" using k by (simp add: word_less_nat_alt)
    have km: "nbytes l > 0 \<Longrightarrow> unat (prefix_bytes l - 1) = nbytes l - 1"
      using k by (subst unat_minus_one) auto
    show ?thesis
    proof (cases "length body < nbytes l")
      case True
      with False map k show ?thesis by (simp add: IPPrefix_Decode_def Let_def)
    next
      case len: False
      have src: "slice_r (l # body) 1 (nbytes l + 1) = (Inr (take (nbytes l) body) :: bytes pres)"
        using len by (simp add: slice_r_def)
      have cp: "copy_r (replicate (afi_len afi) 0) 0 (take (nbytes l) body)
          = (Inr (take (nbytes l) body @ replicate (afi_len afi - nbytes l) 0) :: bytes pres)"
        using len k16 by (simp add: copy_r_def)
      show ?thesis
      proof (cases "unat l mod 8 > 0")
        case True
        with nbytes_pos [OF this] km k16 have "nbytes l - 1 < afi_len afi"
          "unat (prefix_bytes l - 1) = nbytes l - 1" by auto
        with True nbytes_pos [OF True] False map k len src cp k1 k16 show ?thesis
          by (simp add: IPPrefix_Decode_def Let_def ipl mpos bpos m8 index_r_def set_r_def
              prefix_of_bytes_def mask_last_def)
      next
        case m0: False
        with False map k len src cp k1 show ?thesis
          by (simp add: IPPrefix_Decode_def Let_def ipl mpos prefix_of_bytes_def mask_last_def)
      qed
    qed
  qed
qed

definition wf_prefix :: "AFI \<Rightarrow> IPPrefix \<Rightarrow> bool" where
  "wf_prefix afi ip \<longleftrightarrow>
     known_afi afi \<and> unat (Length ip) \<le> 8 * afi_len afi \<and> length (Prefix ip) = afi_len afi \<and>
     prefix_of_bytes afi (Length ip) (Prefix ip) = Prefix ip"

lemma length_prefix_of_bytes:
  "nbytes l \<le> length bs \<Longrightarrow> nbytes l \<le> afi_len afi \<Longrightarrow> length (prefix_of_bytes afi l bs) = afi_len afi"
  by (simp add: prefix_of_bytes_def mask_last_def)

lemma mask_last_idem: "mask_last l (mask_last l p) = mask_last l p"
proof (cases "unat l mod 8 > 0 \<and> nbytes l - 1 < length p")
  case True
  then show ?thesis by (simp add: mask_last_def and.assoc)
next
  case False
  then show ?thesis by (auto simp: mask_last_def list_update_beyond)
qed

lemma mask_last_take:
  assumes "nbytes l \<le> length p"
  shows "take (nbytes l) (mask_last l p) = mask_last l (take (nbytes l) p)"
    and "drop (nbytes l) (mask_last l p) = drop (nbytes l) p"
proof -
  have "unat l mod 8 > 0 \<Longrightarrow> nbytes l - 1 < nbytes l" using nbytes_pos [of l] by simp
  then show "take (nbytes l) (mask_last l p) = mask_last l (take (nbytes l) p)"
    and "drop (nbytes l) (mask_last l p) = drop (nbytes l) p"
    by (auto simp: mask_last_def take_update_swap)
qed

lemma mask_last_append: "nbytes l \<le> length p \<Longrightarrow> mask_last l (p @ q) = mask_last l p @ q"
  using nbytes_pos [of l] by (auto simp: mask_last_def list_update_append nth_append)

lemma prefix_of_bytes_idem:
  assumes "nbytes l \<le> length bs" "nbytes l \<le> afi_len afi"
  shows "prefix_of_bytes afi l (prefix_of_bytes afi l bs) = prefix_of_bytes afi l bs"
proof -
  let ?z = "replicate (afi_len afi - nbytes l) 0" and ?t = "take (nbytes l) bs"
  have t: "length ?t = nbytes l" using assms(1) by simp
  then have p: "prefix_of_bytes afi l bs = mask_last l ?t @ ?z"
    by (simp add: prefix_of_bytes_def mask_last_append)
  have "prefix_of_bytes afi l (mask_last l ?t @ ?z) = mask_last l (mask_last l ?t @ ?z)"
    using t by (simp add: prefix_of_bytes_def)
  also have "\<dots> = mask_last l ?t @ ?z"
    using t by (simp add: mask_last_append mask_last_idem)
  finally show ?thesis unfolding p .
qed

lemma IPPrefix_Decode_wf:
  assumes "known_afi afi" "IPPrefix_Decode pkt afi = Inr ip"
  shows "wf_prefix afi ip \<and> 0 < unat (IPPrefix_Len ip) \<and> unat (IPPrefix_Len ip) \<le> length pkt"
proof (cases pkt)
  case Nil
  with assms show ?thesis by (simp add: IPPrefix_Decode_def)
next
  case (Cons l body)
  with assms have l: "unat l \<le> 8 * afi_len afi" and b: "nbytes l \<le> length body"
    and ip: "ip = \<lparr>Length = l, Prefix = prefix_of_bytes afi l body\<rparr>"
    by (auto simp: IPPrefix_Decode_known split: if_splits)
  have small: "unat l \<le> 128" using l by (simp add: afi_len_def split: if_splits)
  have "unat (prefix_bytes l + 1) = nbytes l + 1"
    using small by (subst unat_add_small) (simp_all add: prefix_bytes_nat nbytes_def)
  then have "unat (IPPrefix_Len ip) = nbytes l + 1" by (simp add: IPPrefix_Len_def ip)
  then show ?thesis
    using assms(1) l b nbytes_le [OF l] Cons
    by (simp add: wf_prefix_def ip length_prefix_of_bytes prefix_of_bytes_idem)
qed

lemma IPPrefix_Decode_safe:
  assumes "known_afi afi" "IPPrefix_Decode pkt afi = Inl f"
  shows "\<exists>e. f = Error e"
proof (cases pkt)
  case Nil
  with assms show ?thesis by (auto simp: IPPrefix_Decode_def msg_error_def)
next
  case (Cons l body)
  with assms show ?thesis by (auto simp: IPPrefix_Decode_known msg_error_def split: if_splits)
qed

lemma IPPrefix_Len_wf: "wf_prefix afi ip \<Longrightarrow> unat (IPPrefix_Len ip) = nbytes (Length ip) + 1"
proof -
  assume "wf_prefix afi ip"
  then have small: "unat (Length ip) \<le> 128" by (simp add: wf_prefix_def afi_len_def split: if_splits)
  have "unat (prefix_bytes (Length ip) + 1) = nbytes (Length ip) + 1"
    using small by (subst unat_add_small) (simp_all add: prefix_bytes_nat nbytes_def)
  then show ?thesis by (simp add: IPPrefix_Len_def)
qed

lemma IPPrefix_Encode_wf:
  assumes "wf_prefix afi ip"
  shows "IPPrefix_Encode ip afi = Inr (Length ip # take (nbytes (Length ip)) (Prefix ip))"
proof -
  let ?l = "Length ip" and ?p = "Prefix ip"
  have l: "unat ?l \<le> 8 * afi_len afi" and p: "length ?p = afi_len afi"
    using assms by (auto simp: wf_prefix_def)
  have small: "unat ?l \<le> 128" using l by (simp add: afi_len_def split: if_splits)
  then have k: "unat (prefix_bytes ?l) = nbytes ?l" by (simp add: prefix_bytes_nat nbytes_def)
  have "int (length ?p) - (if afi = AfiIP6 then 16 else 4) = 0" using p by (simp add: afi_len_def)
  then show ?thesis
    using k nbytes_le [OF l] p
    by (simp add: IPPrefix_Encode_def Let_def IPPrefix_Len_wf [OF assms] slice_r_def copy_r_def set_r_def)
qed

lemma IPPrefix_roundtrip:
  assumes "wf_prefix afi ip"
  shows "IPPrefix_Decode (Length ip # take (nbytes (Length ip)) (Prefix ip) @ rest) afi = Inr ip"
proof -
  have afi: "known_afi afi" and l: "unat (Length ip) \<le> 8 * afi_len afi" and p: "length (Prefix ip) = afi_len afi"
    and stable: "prefix_of_bytes afi (Length ip) (Prefix ip) = Prefix ip"
    using assms by (auto simp: wf_prefix_def)
  have k: "nbytes (Length ip) \<le> length (Prefix ip)" using nbytes_le [OF l] p by simp
  then have "prefix_of_bytes afi (Length ip) (take (nbytes (Length ip)) (Prefix ip) @ rest) = Prefix ip"
    using stable by (simp add: prefix_of_bytes_def)
  then show ?thesis using afi l k by (simp add: IPPrefix_Decode_known)
qed

fun wf_nlri :: "bool \<Rightarrow> AFI \<Rightarrow> NLRI \<Rightarrow> bool" where
  "wf_nlri addPathsRx afi (PlainNLRI ip) \<longleftrightarrow> \<not> addPathsRx \<and> wf_prefix afi ip"
| "wf_nlri addPathsRx afi (PathNLRI n) \<longleftrightarrow> addPathsRx \<and> wf_prefix afi (Ext_IPPrefix n)"

lemma ExtNLRI_Len_wf: "wf_prefix afi (Ext_IPPrefix n) \<Longrightarrow> unat (ExtNLRI_Len n) = nbytes (Length (Ext_IPPrefix n)) + 5"
  using IPPrefix_Len_wf [of afi "Ext_IPPrefix n"] unfolding ExtNLRI_Len_def
  by (subst unat_add_small) (simp_all add: nbytes_def, use u8_less [of "Length (Ext_IPPrefix n)"] in linarith)

interpretation nlri_codec: tlv "NLRI_Encode afi" "NLRI_Decode addPathsRx afi"
  "\<lambda>n. unat (NLRI_Len n)" "wf_nlri addPathsRx afi" for addPathsRx afi
proof unfold_locales
  fix n assume wf: "wf_nlri addPathsRx afi n"
  show "\<exists>bs. NLRI_Encode afi n = Inr bs \<and> length bs = unat (NLRI_Len n)"
  proof (cases n)
    case (PlainNLRI ip)
    with wf have w: "wf_prefix afi ip" by simp
    then have "nbytes (Length ip) \<le> length (Prefix ip)" by (auto simp: wf_prefix_def nbytes_le)
    with w PlainNLRI show ?thesis by (simp add: IPPrefix_Encode_wf IPPrefix_Len_wf)
  next
    case (PathNLRI e)
    with wf have w: "wf_prefix afi (Ext_IPPrefix e)" by simp
    then have "nbytes (Length (Ext_IPPrefix e)) \<le> length (Prefix (Ext_IPPrefix e))" by (auto simp: wf_prefix_def nbytes_le)
    with w PathNLRI show ?thesis
      by (simp add: ExtNLRI_Encode_def IPPrefix_Encode_wf ExtNLRI_Len_wf put_r_def)
  qed
  show "0 < unat (NLRI_Len n)"
    using wf by (cases n) (auto dest!: IPPrefix_Len_wf ExtNLRI_Len_wf simp del: unat_pos)
  fix bs rest assume e: "NLRI_Encode afi n = Inr bs"
  show "NLRI_Decode addPathsRx afi (bs @ rest) = Inr n"
  proof (cases n)
    case (PlainNLRI ip)
    with wf e IPPrefix_roundtrip [of afi ip rest] show ?thesis
      by (auto simp: NLRI_Decode_def IPPrefix_Encode_wf)
  next
    case (PathNLRI x)
    with wf e IPPrefix_roundtrip [of afi "Ext_IPPrefix x" rest] show ?thesis
      by (auto simp: NLRI_Decode_def ExtNLRI_Decode_def ExtNLRI_Encode_def IPPrefix_Encode_wf put_r_def
          slice_r_def slice_from_def)
  qed
qed

section \<open>Lists of prefixes\<close>

lemma NLRI_Decode_wf:
  assumes "known_afi afi" "NLRI_Decode rx afi pkt = Inr n"
  shows "wf_nlri rx afi n \<and> 0 < unat (NLRI_Len n) \<and> unat (NLRI_Len n) \<le> length pkt"
proof (cases rx)
  case True
  with assms(2) obtain e where n: "n = PathNLRI e" and d: "IPPrefix_Decode (drop 4 pkt) afi = Inr (Ext_IPPrefix e)"
    and "5 \<le> length pkt"
    by (fastforce simp: NLRI_Decode_def ExtNLRI_Decode_def slice_from_def bind_r_eq_Inr split: if_splits)
  moreover have "wf_prefix afi (Ext_IPPrefix e)" "unat (IPPrefix_Len (Ext_IPPrefix e)) \<le> length pkt - 4"
    using IPPrefix_Decode_wf [OF assms(1) d] by auto
  ultimately show ?thesis
    using True IPPrefix_Len_wf [of afi "Ext_IPPrefix e"] ExtNLRI_Len_wf [of afi e] by (simp del: unat_pos)
next
  case False
  with assms show ?thesis
    by (auto simp: NLRI_Decode_def bind_r_eq_Inr dest: IPPrefix_Decode_wf simp del: unat_pos)
qed

lemma NLRI_Decode_safe:
  assumes "known_afi afi" "NLRI_Decode rx afi pkt = Inl f"
  shows "\<exists>e. f = Error e"
  using assms IPPrefix_Decode_safe [OF assms(1)]
  by (auto simp: NLRI_Decode_def ExtNLRI_Decode_def bind_r_eq_Inl bind_r_eq_Inr msg_error_def slice_r_def
      slice_from_def get32_panic_iff split: if_splits)

lemma decodeNLRI_concat:
  assumes "list_all (wf_nlri (AddPathsRxActual pa) afi) ns" "concat_r (NLRI_Encode afi) ns = Inr bs"
    and "unat len = length bs"
  shows "decodeNLRI (bs @ rest) len afi safi pa = Inr (ns, length bs)"
proof -
  have "uint len = int (length bs)" by (simp flip: assms(3))
  then show ?thesis
    using nlri_codec.decode_loop_concat [OF assms(1,2), of "[]" rest "[]"] assms(3)
    by (simp add: decodeNLRI_def)
qed

theorem decodeNLRI_roundtrip:
  assumes "list_all (wf_nlri (AddPathsRxActual pa) afi) ns"
    and "sum_list (map (\<lambda>n. unat (NLRI_Len n)) ns) < 2 ^ 32"
  shows "\<exists>bs. concat_r (NLRI_Encode afi) ns = Inr bs \<and>
           (\<forall>rest. decodeNLRI (bs @ rest) (of_nat (length bs)) afi safi pa = Inr (ns, length bs))"
proof -
  obtain bs where "concat_r (NLRI_Encode afi) ns = Inr bs"
      "length bs = sum_list (map (\<lambda>n. unat (NLRI_Len n)) ns)"
    using nlri_codec.concat_ok [OF assms(1)] by auto
  moreover from this assms(2) have "unat (of_nat (length bs) :: u32) = length bs"
    by (simp add: unsigned_of_nat take_bit_nat_eq_self_iff)
  ultimately show ?thesis using decodeNLRI_concat [OF assms(1)] by blast
qed

theorem decodeNLRI_safe:
  assumes "known_afi afi" "decodeNLRI pkt len afi safi pa = Inl f"
  shows "\<exists>e. f = Error e"
proof (cases "unat len > length pkt")
  case True
  with assms(2) show ?thesis by (auto simp: decodeNLRI_def msg_error_def)
next
  case False
  have "\<exists>e. g = Error e"
    if "decode_loop (NLRI_Decode (AddPathsRxActual pa) afi) (\<lambda>n. unat (NLRI_Len n)) rem pkt 0 [] = Inl g" for rem g
  proof (rule decode_loop_safe [OF _ _ _ that])
    show "0 \<le> length pkt" by simp
  qed (use NLRI_Decode_safe [OF assms(1)] NLRI_Decode_wf [OF assms(1)] in blast)+
  with False assms(2) show ?thesis
    by (auto simp: decodeNLRI_def bind_r_eq_Inl msg_error_def split: if_splits)
qed

theorem decodeNLRI_canonical:
  assumes "known_afi afi" "decodeNLRI pkt len afi safi pa = Inr (ns, n)"
  shows "list_all (wf_nlri (AddPathsRxActual pa) afi) ns \<and> n = unat len \<and>
         n = sum_list (map (\<lambda>x. unat (NLRI_Len x)) ns)"
proof -
  obtain left where l: "decode_loop (NLRI_Decode (AddPathsRxActual pa) afi) (\<lambda>x. unat (NLRI_Len x))
      (int (unat len)) pkt 0 [] = Inr (ns, left, n)" and "left = 0"
    using assms(2) by (auto simp: decodeNLRI_def bind_r_eq_Inr split: if_splits)
  have "list_all (wf_nlri (AddPathsRxActual pa) afi) ns"
    using decode_loop_all [OF _ l, of "wf_nlri (AddPathsRxActual pa) afi"] NLRI_Decode_wf [OF assms(1)] by auto
  moreover have "n = sum_list (map (\<lambda>x. unat (NLRI_Len x)) ns)" "int n = int (unat len)"
    using decode_loop_extent [OF l] \<open>left = 0\<close> by auto
  ultimately show ?thesis by linarith
qed

theorem IPPrefix_Decode_unknown_afi_panics:
  assumes "\<not> known_afi afi" "128 < unat l" "unat l < 249" "unat l mod 8 \<noteq> 0" "(unat l + 7) div 8 \<le> length body"
  shows "IPPrefix_Decode (l # body) afi = Inl Panic"
proof -
  have b: "unat (prefix_bytes l) = (unat l + 7) div 8"
    using assms(3) by (simp add: prefix_bytes_def unat_div unat_add_small)
  then have b17: "17 \<le> unat (prefix_bytes l)" using assms(2) by simp
  have "unat (prefix_bytes l) \<le> 31" using b assms(3) by simp
  then have b1: "unat (prefix_bytes l + 1) = unat (prefix_bytes l) + 1"
    by (subst unat_add_small) simp_all
  have nz: "prefix_bytes l \<noteq> 0"
  proof
    assume "prefix_bytes l = 0"
    with b17 show False by simp
  qed
  have bm: "unat (prefix_bytes l - 1) = unat (prefix_bytes l) - 1"
    using nz by (rule unat_minus_one)
  have m: "AFINextHopLenMap afi = None" using assms(1) by (simp add: AFINextHopLenMap_def known_afi_def)
  have bpos: "prefix_bytes l > 0" using nz by (simp add: word_less_nat_alt)
  have mpos: "l mod 8 > 0" using assms(4) by (simp add: word_less_nat_alt unat_mod)
  have "unat (prefix_bytes l) \<le> length body" "\<not> unat (prefix_bytes l) - 1 < 16"
    using assms(5) b b17 by simp_all
  then show ?thesis
    using b17 bm m bpos mpos
    by (simp add: IPPrefix_Decode_def Let_def b1 slice_r_def copy_r_def index_r_def)
qed

theorem GetPathId_zero: "GetPathId n = 0"
  by (cases n) simp_all

end
