(* ===== verification/MpBgp.thy ===== *)
theory MpBgp
  imports AttrBase Nlri
begin

text \<open>
  The multiprotocol attributes (bgp/packet/mpbgp.go): next hops of an address family and the attributes
  MP_REACH_NLRI and MP_UNREACH_NLRI. \<open>BGPPathAttrMPReachNLRI.Decode\<close> ignores the error of the next hop it
  decodes, so the decoders of next hops return the object they leave behind together with the error.
\<close>

section \<open>Next hops\<close>

record MPNextHopIP =
  NH_Length :: u8
  NH_Value :: bytes

definition wrong_nh_len :: "u8 \<Rightarrow> bool" where
  "wrong_nh_len l \<longleftrightarrow> l \<noteq> 4 \<and> l \<noteq> 16 \<and> l \<noteq> 32"

definition nh_ip_len :: "u8 \<Rightarrow> nat" where
  "nh_ip_len l = (if l = 16 \<or> l = 32 then 16 else 4)"

text \<open>\<open>v[cap(v)-n:]\<close>: the last \<open>n\<close> bytes; a negative start panics.\<close>

definition last_bytes :: "bytes \<Rightarrow> nat \<Rightarrow> bytes pres" where
  "last_bytes v n = (if n \<le> length v then Inr (drop (length v - n) v) else Inl Panic)"

definition MPNextHopIP_Encode :: "MPNextHopIP \<Rightarrow> bytes \<Rightarrow> bytes pres" where
  "MPNextHopIP_Encode i pkt =
     bind_r (set_r pkt 0 (NH_Length i)) (\<lambda>pkt.
     if wrong_nh_len (NH_Length i) then Inl (Error PlainError)
     else bind_r (last_bytes (NH_Value i) (nh_ip_len (NH_Length i))) (\<lambda>v. copy_r pkt 1 v))"

text \<open>\<open>net.IPv4(a, b, c, d)\<close> gives the 16-byte form.\<close>

definition IPv4 :: "u8 \<Rightarrow> u8 \<Rightarrow> u8 \<Rightarrow> u8 \<Rightarrow> bytes" where
  "IPv4 a b c d = replicate 10 0 @ [255, 255, a, b, c, d]"

definition MPNextHopIP_Decode :: "MPNextHopIP \<Rightarrow> bytes \<Rightarrow> (MPNextHopIP \<times> pkt_error option) pres" where
  "MPNextHopIP_Decode i pkt =
     bind_r (index_r pkt 0) (\<lambda>l.
     if wrong_nh_len l then Inr (i\<lparr>NH_Length := l\<rparr>, Some PlainError)
     else if nh_ip_len l = 4 then
       bind_r (index_r pkt 1) (\<lambda>a. bind_r (index_r pkt 2) (\<lambda>b.
       bind_r (index_r pkt 3) (\<lambda>c. bind_r (index_r pkt 4) (\<lambda>d.
       Inr (i\<lparr>NH_Length := l, NH_Value := IPv4 a b c d\<rparr>, None)))))
     else
       bind_r (slice_from pkt 1) (\<lambda>s.
       bind_r (copy_r (replicate 16 0) 0 s) (\<lambda>v.
       Inr (i\<lparr>NH_Length := l, NH_Value := v\<rparr>, None))))"

definition MPNextHopIP_Len :: "MPNextHopIP \<Rightarrow> u8" where
  "MPNextHopIP_Len i = NH_Length i + 1"

text \<open>
  \<open>SetNextHop\<close>: a 16-byte address always has a 16-byte form, so the second check of the source never fires
  and its condition is \<open>To4 ip = [] \<and> length ip \<noteq> 4 \<and> length ip \<noteq> 16\<close>.
\<close>

definition MPNextHopIP_SetNextHop :: "MPNextHopIP \<Rightarrow> bytes \<Rightarrow> MPNextHopIP pres" where
  "MPNextHopIP_SetNextHop i ip =
     (if length ip \<noteq> 4 \<and> length ip \<noteq> 16 then Inl (Error PlainError)
      else if To4 ip = [] \<and> length ip \<noteq> 4 \<and> length ip \<noteq> 16 then Inl (Error PlainError)
      else Inr \<lparr>NH_Length = (if To4 ip \<noteq> [] then 4 else 16), NH_Value = ip\<rparr>)"

definition NewMPNextHopIP :: MPNextHopIP where
  "NewMPNextHopIP = \<lparr>NH_Length = 0, NH_Value = []\<rparr>"

record MPNextHopIP6 =
  NH6_IP :: MPNextHopIP
  NH6_LinkLocal :: "bytes option"

definition MPNextHopIP6_Encode :: "MPNextHopIP6 \<Rightarrow> bytes \<Rightarrow> bytes pres" where
  "MPNextHopIP6_Encode i pkt =
     bind_r (MPNextHopIP_Encode (NH6_IP i) pkt) (\<lambda>pkt.
     case NH6_LinkLocal i of
       None \<Rightarrow> Inr pkt
     | Some ll \<Rightarrow> bind_r (last_bytes ll 16) (\<lambda>v. copy_r pkt 17 v))"

definition MPNextHopIP6_Decode :: "MPNextHopIP6 \<Rightarrow> bytes \<Rightarrow> (MPNextHopIP6 \<times> pkt_error option) pres" where
  "MPNextHopIP6_Decode i pkt =
     bind_r (MPNextHopIP_Decode (NH6_IP i) pkt) (\<lambda>(ip, err).
     if err \<noteq> None then Inr (i\<lparr>NH6_IP := ip\<rparr>, err)
     else if NH_Length ip = 32 then
       bind_r (slice_from pkt 17) (\<lambda>s.
       bind_r (copy_r (replicate 16 0) 0 s) (\<lambda>ll.
       Inr (\<lparr>NH6_IP = ip, NH6_LinkLocal = Some ll\<rparr>, None)))
     else Inr (i\<lparr>NH6_IP := ip\<rparr>, None))"

definition MPNextHopIP6_SetGlobalNextHop :: "MPNextHopIP6 \<Rightarrow> bytes \<Rightarrow> MPNextHopIP6 pres" where
  "MPNextHopIP6_SetGlobalNextHop i ip =
     (if length ip \<noteq> 16 then Inl (Error PlainError)
      else Inr (i\<lparr>NH6_IP := \<lparr>NH_Length = (if NH6_LinkLocal i \<noteq> None then of_nat (length ip) * 2
                                           else of_nat (length ip)), NH_Value = ip\<rparr>\<rparr>))"

definition MPNextHopIP6_SetLinkLocalNextHop :: "MPNextHopIP6 \<Rightarrow> bytes \<Rightarrow> MPNextHopIP6 pres" where
  "MPNextHopIP6_SetLinkLocalNextHop i ip =
     (if length ip \<noteq> 16 then Inl (Error PlainError)
      else Inr \<lparr>NH6_IP = (NH6_IP i)\<lparr>NH_Length := of_nat (length ip) * 2\<rparr>, NH6_LinkLocal = Some ip\<rparr>)"

definition NewMPNextHopIP6 :: MPNextHopIP6 where
  "NewMPNextHopIP6 = \<lparr>NH6_IP = \<lparr>NH_Length = 0, NH_Value = []\<rparr>, NH6_LinkLocal = None\<rparr>"

record MPNextHopUnknown =
  NHU_Length :: u8
  NHU_Value :: bytes

definition MPNextHopUnknown_Encode :: "MPNextHopUnknown \<Rightarrow> bytes \<Rightarrow> bytes pres" where
  "MPNextHopUnknown_Encode u pkt = bind_r (set_r pkt 0 (NHU_Length u)) (\<lambda>pkt. copy_r pkt 1 (NHU_Value u))"

definition MPNextHopUnknown_Decode :: "bytes \<Rightarrow> MPNextHopUnknown pres" where
  "MPNextHopUnknown_Decode pkt =
     bind_r (index_r pkt 0) (\<lambda>l. bind_r (slice_from pkt 1) (\<lambda>s.
     bind_r (copy_r (replicate (unat l) 0) 0 s) (\<lambda>v. Inr \<lparr>NHU_Length = l, NHU_Value = v\<rparr>)))"

definition MPNextHopUnknown_SetNextHop :: "bytes \<Rightarrow> MPNextHopUnknown pres" where
  "MPNextHopUnknown_SetNextHop nextHop =
     (let l = (of_nat (length nextHop) :: u8) in
      bind_r (copy_r (replicate (unat l) 0) 0 nextHop) (\<lambda>v. Inr \<lparr>NHU_Length = l, NHU_Value = v\<rparr>))"

datatype MPNextHop = NH_IP MPNextHopIP | NH_IP6 MPNextHopIP6 | NH_Unknown MPNextHopUnknown

fun MPNextHop_Encode :: "MPNextHop \<Rightarrow> bytes \<Rightarrow> bytes pres" where
  "MPNextHop_Encode (NH_IP i) = MPNextHopIP_Encode i"
| "MPNextHop_Encode (NH_IP6 i) = MPNextHopIP6_Encode i"
| "MPNextHop_Encode (NH_Unknown u) = MPNextHopUnknown_Encode u"

fun MPNextHop_Decode :: "MPNextHop \<Rightarrow> bytes \<Rightarrow> (MPNextHop \<times> pkt_error option) pres" where
  "MPNextHop_Decode (NH_IP i) pkt = bind_r (MPNextHopIP_Decode i pkt) (\<lambda>(x, e). Inr (NH_IP x, e))"
| "MPNextHop_Decode (NH_IP6 i) pkt = bind_r (MPNextHopIP6_Decode i pkt) (\<lambda>(x, e). Inr (NH_IP6 x, e))"
| "MPNextHop_Decode (NH_Unknown u) pkt = bind_r (MPNextHopUnknown_Decode pkt) (\<lambda>x. Inr (NH_Unknown x, None))"

fun MPNextHop_Len :: "MPNextHop \<Rightarrow> u8" where
  "MPNextHop_Len (NH_IP i) = MPNextHopIP_Len i"
| "MPNextHop_Len (NH_IP6 i) = MPNextHopIP_Len (NH6_IP i)"
| "MPNextHop_Len (NH_Unknown u) = NHU_Length u + 1"

fun MPNextHop_GetNextHop :: "MPNextHop \<Rightarrow> bytes" where
  "MPNextHop_GetNextHop (NH_IP i) = NH_Value i"
| "MPNextHop_GetNextHop (NH_IP6 i) = NH_Value (NH6_IP i)"
| "MPNextHop_GetNextHop (NH_Unknown u) = NHU_Value u"

text \<open>
  \<open>BGPGetMPNextHop\<close>: the \<open>New\<close> of an IPv6 next hop returns a plain \<open>MPNextHopIP\<close>, so both families get one.
\<close>

definition BGPGetMPNextHop :: "AFI \<Rightarrow> MPNextHop" where
  "BGPGetMPNextHop afi =
     (if afi = AfiIP \<or> afi = AfiIP6 then NH_IP \<lparr>NH_Length = 0, NH_Value = []\<rparr>
      else NH_Unknown \<lparr>NHU_Length = 0, NHU_Value = []\<rparr>)"

section \<open>The reachability attributes\<close>

record BGPPathAttrMPReachNLRI =
  Reach_Base :: BGPPathAttrBase
  Reach_AFI :: AFI
  Reach_SAFI :: SAFI
  Reach_NextHop :: "MPNextHop option"
  Reach_Reserved :: u8
  Reach_NLRI :: "NLRI list"

text \<open>\<open>for i := ... { bytes, err := NLRI[i].Encode(afi); copy(pkt[idx:], bytes); idx += len(bytes) }\<close>\<close>

fun copy_nlri :: "AFI \<Rightarrow> NLRI list \<Rightarrow> bytes \<Rightarrow> nat \<Rightarrow> bytes pres" where
  "copy_nlri afi [] pkt idx = Inr pkt"
| "copy_nlri afi (n # ns) pkt idx =
     bind_r (NLRI_Encode afi n) (\<lambda>bs.
     bind_r (copy_r pkt idx bs) (\<lambda>pkt. copy_nlri afi ns pkt (idx + length bs)))"

text \<open>\<open>PutUint16(pkt[idx:idx+2], afi); pkt[idx+2] = safi\<close>\<close>

definition put_afi_safi :: "bytes \<Rightarrow> nat \<Rightarrow> AFI \<Rightarrow> SAFI \<Rightarrow> bytes pres" where
  "put_afi_safi pkt idx afi safi = bind_r (put_r pkt idx (be16 afi)) (\<lambda>pkt. set_r pkt (idx + 2) safi)"

definition BGPPathAttrMPReachNLRI_Encode :: "BGPPathAttrMPReachNLRI \<Rightarrow> bytes pres" where
  "BGPPathAttrMPReachNLRI_Encode r =
     bind_r (BGPPathAttrBase_Encode (Reach_Base r)) (\<lambda>pkt.
     let idx = unat (BGPPathAttrLen (Reach_Base r)) in
     bind_r (put_afi_safi pkt idx (Reach_AFI r) (Reach_SAFI r)) (\<lambda>pkt.
     case Reach_NextHop r of
       None \<Rightarrow> Inl Panic
     | Some nh \<Rightarrow>
         bind_r (on_slice (MPNextHop_Encode nh) pkt (idx + 3)) (\<lambda>pkt.
         let idx = idx + 3 + unat (MPNextHop_Len nh) in
         bind_r (set_r pkt idx 0) (\<lambda>pkt.
         copy_nlri (Reach_AFI r) (Reach_NLRI r) pkt (idx + 1)))))"

definition BGPPathAttrMPReachNLRI_Decode :: "bytes \<Rightarrow> BGPPeerAttrs \<Rightarrow> BGPPathAttrMPReachNLRI pres" where
  "BGPPathAttrMPReachNLRI_Decode pkt peerAttrs =
     bind_r (BGPPathAttrBase_Decode pkt) (\<lambda>b.
     let idx = unat (BGPPathAttrLen b) in
     bind_r (bind_r (slice_r pkt idx (idx + 2)) get16) (\<lambda>afi.
     bind_r (index_r pkt (idx + 2)) (\<lambda>safi.
     bind_r (bind_r (slice_from pkt (idx + 3)) (MPNextHop_Decode (BGPGetMPNextHop afi))) (\<lambda>(nh, _).
     let idx = idx + 3 + unat (MPNextHop_Len nh) in
     bind_r (index_r pkt idx) (\<lambda>reserved.
     let len = ucast (Attr_Length b) - 4 - ucast (MPNextHop_Len nh) in
     bind_r (slice_from pkt (idx + 1)) (\<lambda>s.
     bind_r (decodeNLRI s len afi safi peerAttrs) (\<lambda>(ns, _).
     Inr \<lparr>Reach_Base = b, Reach_AFI = afi, Reach_SAFI = safi, Reach_NextHop = Some nh,
          Reach_Reserved = reserved, Reach_NLRI = ns\<rparr>)))))))"

definition BGPPathAttrMPReachNLRI_SetNextHop ::
    "BGPPathAttrMPReachNLRI \<Rightarrow> MPNextHop \<Rightarrow> BGPPathAttrMPReachNLRI" where
  "BGPPathAttrMPReachNLRI_SetNextHop r nh =
     r\<lparr>Reach_NextHop := Some nh,
       Reach_Base := (Reach_Base r)\<lparr>Attr_Length := Attr_Length (Reach_Base r) + ucast (MPNextHop_Len nh)\<rparr>\<rparr>"

definition add_nlri_len :: "BGPPathAttrBase \<Rightarrow> NLRI \<Rightarrow> BGPPathAttrBase" where
  "add_nlri_len b n = b\<lparr>Attr_Length := Attr_Length b + ucast (NLRI_Len n)\<rparr>"

definition BGPPathAttrMPReachNLRI_AddNLRI :: "BGPPathAttrMPReachNLRI \<Rightarrow> NLRI \<Rightarrow> BGPPathAttrMPReachNLRI" where
  "BGPPathAttrMPReachNLRI_AddNLRI r n =
     r\<lparr>Reach_NLRI := Reach_NLRI r @ [n], Reach_Base := add_nlri_len (Reach_Base r) n\<rparr>"

definition BGPPathAttrMPReachNLRI_SetNLRIList ::
    "BGPPathAttrMPReachNLRI \<Rightarrow> NLRI list \<Rightarrow> BGPPathAttrMPReachNLRI" where
  "BGPPathAttrMPReachNLRI_SetNLRIList r ns =
     r\<lparr>Reach_NLRI := ns, Reach_Base := foldl add_nlri_len (Reach_Base r) ns\<rparr>"

definition NewBGPPathAttrMPReachNLRI :: BGPPathAttrMPReachNLRI where
  "NewBGPPathAttrMPReachNLRI =
     \<lparr>Reach_Base = \<lparr>Flags = BGPPathAttrFlagOptional OR BGPPathAttrFlagExtendedLen,
                    Code = BGPPathAttrTypeMPReachNLRI, Attr_Length = 4, BGPPathAttrLen = 4\<rparr>,
      Reach_AFI = 0, Reach_SAFI = 0, Reach_NextHop = None, Reach_Reserved = 0, Reach_NLRI = []\<rparr>"

record BGPPathAttrMPUnreachNLRI =
  Unreach_Base :: BGPPathAttrBase
  Unreach_AFI :: AFI
  Unreach_SAFI :: SAFI
  Unreach_NLRI :: "NLRI list"

definition BGPPathAttrMPUnreachNLRI_Encode :: "BGPPathAttrMPUnreachNLRI \<Rightarrow> bytes pres" where
  "BGPPathAttrMPUnreachNLRI_Encode u =
     bind_r (BGPPathAttrBase_Encode (Unreach_Base u)) (\<lambda>pkt.
     let idx = unat (BGPPathAttrLen (Unreach_Base u)) in
     bind_r (put_afi_safi pkt idx (Unreach_AFI u) (Unreach_SAFI u)) (\<lambda>pkt.
     copy_nlri (Unreach_AFI u) (Unreach_NLRI u) pkt (idx + 3)))"

definition BGPPathAttrMPUnreachNLRI_Decode :: "bytes \<Rightarrow> BGPPeerAttrs \<Rightarrow> BGPPathAttrMPUnreachNLRI pres" where
  "BGPPathAttrMPUnreachNLRI_Decode pkt peerAttrs =
     bind_r (BGPPathAttrBase_Decode pkt) (\<lambda>b.
     let idx = unat (BGPPathAttrLen b) in
     bind_r (bind_r (slice_r pkt idx (idx + 2)) get16) (\<lambda>afi.
     bind_r (index_r pkt (idx + 2)) (\<lambda>safi.
     bind_r (slice_from pkt (idx + 3)) (\<lambda>s.
     bind_r (decodeNLRI s (ucast (Attr_Length b) - 3) afi safi peerAttrs) (\<lambda>(ns, _).
     Inr \<lparr>Unreach_Base = b, Unreach_AFI = afi, Unreach_SAFI = safi, Unreach_NLRI = ns\<rparr>)))))"

definition BGPPathAttrMPUnreachNLRI_AddNLRI :: "BGPPathAttrMPUnreachNLRI \<Rightarrow> NLRI \<Rightarrow> BGPPathAttrMPUnreachNLRI" where
  "BGPPathAttrMPUnreachNLRI_AddNLRI u n =
     u\<lparr>Unreach_NLRI := Unreach_NLRI u @ [n], Unreach_Base := add_nlri_len (Unreach_Base u) n\<rparr>"

definition BGPPathAttrMPUnreachNLRI_AddNLRIList ::
    "BGPPathAttrMPUnreachNLRI \<Rightarrow> NLRI list \<Rightarrow> BGPPathAttrMPUnreachNLRI" where
  "BGPPathAttrMPUnreachNLRI_AddNLRIList u ns = foldl BGPPathAttrMPUnreachNLRI_AddNLRI u ns"

definition NewBGPPathAttrMPUnreachNLRI :: BGPPathAttrMPUnreachNLRI where
  "NewBGPPathAttrMPUnreachNLRI =
     \<lparr>Unreach_Base = \<lparr>Flags = BGPPathAttrFlagOptional OR BGPPathAttrFlagExtendedLen,
                      Code = BGPPathAttrTypeMPUnreachNLRI, Attr_Length = 3, BGPPathAttrLen = 4\<rparr>,
      Unreach_AFI = 0, Unreach_SAFI = 0, Unreach_NLRI = []\<rparr>"

lemma copy_nlri_fills:
  "concat_r (NLRI_Encode afi) ns = Inr bs \<Longrightarrow> length old = length bs \<Longrightarrow>
   copy_nlri afi ns (pre @ old @ post) (length pre) = Inr (pre @ bs @ post)"
proof (induction ns arbitrary: bs pre old)
  case Nil
  then show ?case by simp
next
  case (Cons n ns)
  then obtain b bs' where b: "NLRI_Encode afi n = Inr b" and bs': "concat_r (NLRI_Encode afi) ns = Inr bs'"
    and bs: "bs = b @ bs'" by (auto simp: bind_r_eq_Inr)
  let ?o1 = "take (length b) old" and ?o2 = "drop (length b) old"
  have "copy_r (pre @ ?o1 @ ?o2 @ post) (length pre) b = (Inr (pre @ b @ ?o2 @ post) :: bytes pres)"
    using Cons.prems bs by (intro copy_r_mid) simp
  then have "copy_r (pre @ old @ post) (length pre) b = (Inr (pre @ b @ ?o2 @ post) :: bytes pres)"
    by (metis append.assoc append_take_drop_id)
  moreover have "copy_nlri afi ns ((pre @ b) @ ?o2 @ post) (length (pre @ b)) = Inr ((pre @ b) @ bs' @ post)"
    using Cons.prems bs by (intro Cons.IH [OF bs']) simp
  ultimately show ?case by (simp add: b bs)
qed

lemma put_afi_safi_fills:
  "length old = 3 \<Longrightarrow> put_afi_safi (pre @ old @ post) (length pre) afi safi = Inr (pre @ be16 afi @ [safi] @ post)"
proof -
  assume "length old = 3"
  then obtain a b c where old: "old = [a, b, c]" by (auto simp: numeral_3_eq_3 length_Suc_conv)
  have "put_r (pre @ [a, b] @ (c # post)) (length pre) (be16 afi) = (Inr (pre @ be16 afi @ c # post) :: bytes pres)"
    by (rule put_r_mid) simp
  then show ?thesis by (simp add: put_afi_safi_def old set_r_def list_update_append)
qed

text \<open>Reading the family back.\<close>

lemma slice_r_mid: "slice_r (pre @ mid @ post) (length pre) (length pre + length mid) = Inr mid"
  by (simp add: slice_r_def)

lemma get_afi_safi:
  "bind_r (slice_r (pre @ be16 afi @ safi # post) (length pre) (length pre + 2)) get16 = (Inr afi :: AFI pres)"
  "index_r (pre @ be16 afi @ safi # post) (length pre + 2) = (Inr safi :: SAFI pres)"
  "slice_from (pre @ be16 afi @ safi # post) (length pre + 3) = (Inr post :: bytes pres)"
  using slice_r_mid [of pre "be16 afi" "safi # post", where ?'a = pkt_error] by (simp_all add: index_r_def nth_append slice_from_def)

section \<open>MP_UNREACH_NLRI\<close>

definition wf_attr_hdr :: "BGPPathAttrBase \<Rightarrow> bool" where
  "wf_attr_hdr b \<longleftrightarrow> hdr_wf b \<and> hdr_accepted b \<and> hdr_no_overflow b"

definition nlri_total :: "NLRI list \<Rightarrow> nat" where
  "nlri_total ns = sum_list (map (\<lambda>n. unat (NLRI_Len n)) ns)"

definition wf_unreach :: "bool \<Rightarrow> BGPPathAttrMPUnreachNLRI \<Rightarrow> bool" where
  "wf_unreach rx u \<longleftrightarrow> wf_attr_hdr (Unreach_Base u) \<and> list_all (wf_nlri rx (Unreach_AFI u)) (Unreach_NLRI u) \<and>
     unat (Attr_Length (Unreach_Base u)) = 3 + nlri_total (Unreach_NLRI u)"

lemma BGPPathAttrMPUnreachNLRI_Encode_wf:
  assumes "wf_unreach rx u"
  obtains bs where "concat_r (NLRI_Encode (Unreach_AFI u)) (Unreach_NLRI u) = Inr bs"
    and "length bs = nlri_total (Unreach_NLRI u)"
    and "BGPPathAttrMPUnreachNLRI_Encode u
           = Inr (hdr_bytes (Unreach_Base u) @ be16 (Unreach_AFI u) @ Unreach_SAFI u # bs)"
proof -
  let ?b = "Unreach_Base u" and ?h = "hdr_bytes (Unreach_Base u)"
  have b: "hdr_wf ?b" and l: "unat (Attr_Length ?b) = 3 + nlri_total (Unreach_NLRI u)"
    and ns: "list_all (wf_nlri rx (Unreach_AFI u)) (Unreach_NLRI u)"
    using assms by (auto simp: wf_unreach_def wf_attr_hdr_def)
  obtain bs where bs: "concat_r (NLRI_Encode (Unreach_AFI u)) (Unreach_NLRI u) = Inr bs"
    and lbs: "length bs = nlri_total (Unreach_NLRI u)"
    using nlri_codec.concat_ok [OF ns] by (auto simp: nlri_total_def)
  have "copy_nlri (Unreach_AFI u) (Unreach_NLRI u)
        (?h @ be16 (Unreach_AFI u) @ Unreach_SAFI u # replicate (length bs) 0) (length ?h + 3)
      = Inr (?h @ be16 (Unreach_AFI u) @ Unreach_SAFI u # bs)"
    using copy_nlri_fills [OF bs, of "replicate (length bs) 0" "?h @ be16 (Unreach_AFI u) @ [Unreach_SAFI u]" "[]"]
    by (simp add: numeral_3_eq_3)
  moreover have "put_afi_safi (?h @ replicate 3 0 @ replicate (length bs) 0) (length ?h) (Unreach_AFI u) (Unreach_SAFI u)
      = Inr (?h @ be16 (Unreach_AFI u) @ [Unreach_SAFI u] @ replicate (length bs) 0)"
    by (rule put_afi_safi_fills) simp
  moreover have "replicate (unat (Attr_Length ?b)) (0 :: u8) = replicate 3 0 @ replicate (length bs) 0"
    unfolding l lbs by (rule replicate_add)
  ultimately have "BGPPathAttrMPUnreachNLRI_Encode u = Inr (?h @ be16 (Unreach_AFI u) @ Unreach_SAFI u # bs)"
    by (simp add: BGPPathAttrMPUnreachNLRI_Encode_def BGPPathAttrBase_Encode_wf [OF b] Let_def
        flip: length_hdr_bytes [OF b] del: replicate_numeral)
  then show thesis using that bs lbs by blast
qed

lemma BGPPathAttrMPUnreachNLRI_roundtrip:
  assumes wf: "wf_unreach (AddPathsRxActual pa) u" and enc: "BGPPathAttrMPUnreachNLRI_Encode u = Inr pkt"
  shows "BGPPathAttrMPUnreachNLRI_Decode (pkt @ rest) pa = Inr u"
proof -
  let ?b = "Unreach_Base u" and ?h = "hdr_bytes (Unreach_Base u)"
  have b: "hdr_wf ?b" "hdr_accepted ?b" "hdr_no_overflow ?b"
    and l: "unat (Attr_Length ?b) = 3 + nlri_total (Unreach_NLRI u)"
    and ns: "list_all (wf_nlri (AddPathsRxActual pa) (Unreach_AFI u)) (Unreach_NLRI u)"
    using wf by (auto simp: wf_unreach_def wf_attr_hdr_def)
  obtain bs where bs: "concat_r (NLRI_Encode (Unreach_AFI u)) (Unreach_NLRI u) = Inr bs"
    and lbs: "length bs = nlri_total (Unreach_NLRI u)"
    and pkt: "pkt = ?h @ be16 (Unreach_AFI u) @ Unreach_SAFI u # bs"
    using BGPPathAttrMPUnreachNLRI_Encode_wf [OF wf] enc by (metis sum.inject(2))
  have hdr: "BGPPathAttrBase_Decode (pkt @ rest) = Inr ?b"
    unfolding pkt using BGPPathAttrBase_Decode_hdr [OF b] l lbs by simp
  have "(3 :: u32) \<le> ucast (Attr_Length ?b)" using l by (simp add: word_le_nat_alt)
  then have "unat (ucast (Attr_Length ?b) - 3 :: u32) = length bs"
    using l lbs by (simp add: unat_sub)
  then have "decodeNLRI (bs @ rest) (ucast (Attr_Length ?b) - 3) (Unreach_AFI u) (Unreach_SAFI u) pa
      = Inr (Unreach_NLRI u, length bs)"
    by (rule decodeNLRI_concat [OF ns bs])
  then show ?thesis
    using hdr get_afi_safi [of ?h "Unreach_AFI u" "Unreach_SAFI u" "bs @ rest"]
    by (simp add: BGPPathAttrMPUnreachNLRI_Decode_def pkt Let_def flip: length_hdr_bytes [OF b(1)])
qed

section \<open>MP_REACH_NLRI\<close>

text \<open>
  The next hops that \<open>Decode\<close> can produce: an IPv4 next hop is held in its 16-byte form, an IPv6 one has
  16 bytes, and another family's next hop is as long as it says.
\<close>

definition is_v4_mapped :: "bytes \<Rightarrow> bool" where
  "is_v4_mapped v \<longleftrightarrow> length v = 16 \<and> take 12 v = replicate 10 0 @ [255, 255]"

fun wf_nh :: "AFI \<Rightarrow> MPNextHop \<Rightarrow> bool" where
  "wf_nh afi (NH_IP i) \<longleftrightarrow> (afi = AfiIP \<or> afi = AfiIP6) \<and>
     (NH_Length i = 4 \<and> is_v4_mapped (NH_Value i) \<or> NH_Length i = 16 \<and> length (NH_Value i) = 16)"
| "wf_nh afi (NH_IP6 i) \<longleftrightarrow> False"
| "wf_nh afi (NH_Unknown u) \<longleftrightarrow> afi \<noteq> AfiIP \<and> afi \<noteq> AfiIP6 \<and>
     unat (NHU_Length u) = length (NHU_Value u) \<and> length (NHU_Value u) < 255"

fun nh_bytes :: "MPNextHop \<Rightarrow> bytes" where
  "nh_bytes (NH_IP i) = NH_Length i # drop (16 - nh_ip_len (NH_Length i)) (NH_Value i)"
| "nh_bytes (NH_IP6 i) = []"
| "nh_bytes (NH_Unknown u) = NHU_Length u # NHU_Value u"

lemma length_nh_bytes: "wf_nh afi nh \<Longrightarrow> length (nh_bytes nh) = unat (MPNextHop_Len nh)"
  by (cases nh) (auto simp: is_v4_mapped_def nh_ip_len_def MPNextHopIP_Len_def unat_add_small)

lemma length_Suc_fill: "length old = Suc n \<Longrightarrow> \<exists>x o'. old = x # o' \<and> length o' = n"
  by (cases old) auto

lemma copy_r_tail:
  assumes "length o' = length v"
  shows "copy_r (x # o' @ post) 1 v = (Inr (x # v @ post) :: bytes pres)"
  using copy_r_mid [OF assms, of "[x]" post] by simp

lemma copy_r_prefix: "length v = n \<Longrightarrow> copy_r (replicate n 0) 0 (v @ post) = (Inr v :: bytes pres)"
  by (simp add: copy_r_def)

lemma MPNextHop_Encode_fills:
  assumes wf: "wf_nh afi nh" and old: "length old = length (nh_bytes nh)"
  shows "MPNextHop_Encode nh (old @ post) = Inr (nh_bytes nh @ post)"
proof (cases nh)
  case (NH_IP i)
  with old obtain x o' where o: "old = x # o'" "length o' = length (tl (nh_bytes nh))"
    by (cases old) auto
  have l: "\<not> wrong_nh_len (NH_Length i)" "length (NH_Value i) = 16"
    using wf NH_IP by (auto simp: wrong_nh_len_def is_v4_mapped_def)
  then have "last_bytes (NH_Value i) (nh_ip_len (NH_Length i)) = Inr (tl (nh_bytes nh))"
    using NH_IP by (simp add: last_bytes_def nh_ip_len_def)
  then show ?thesis
    using NH_IP l copy_r_tail [OF o(2), of "NH_Length i" post]
    by (simp add: MPNextHopIP_Encode_def o set_r_def)
next
  case (NH_Unknown u)
  with old obtain x o' where o: "old = x # o'" "length o' = length (NHU_Value u)"
    by (cases old) auto
  then show ?thesis
    using NH_Unknown copy_r_tail [OF o(2), of "NHU_Length u" post]
    by (simp add: MPNextHopUnknown_Encode_def set_r_def)
qed (use wf in simp)

lemma length_4: "length xs = 4 \<Longrightarrow> \<exists>a b c d. xs = [a, b, c, d]"
  by (auto simp: length_Suc_conv eval_nat_numeral)

lemma v4_mapped_split:
  assumes "is_v4_mapped v"
  obtains a b c d where "v = IPv4 a b c d" "drop 12 v = [a, b, c, d]"
proof -
  have "length (drop 12 v) = 4" using assms by (simp add: is_v4_mapped_def)
  then obtain a b c d where d: "drop 12 v = [a, b, c, d]"
    using length_4 by blast
  moreover have "v = take 12 v @ drop 12 v" by simp
  ultimately have "v = IPv4 a b c d" using assms by (simp add: IPv4_def is_v4_mapped_def)
  then show thesis using that d by blast
qed

lemma MPNextHop_Decode_bytes:
  assumes wf: "wf_nh afi nh"
  shows "MPNextHop_Decode (BGPGetMPNextHop afi) (nh_bytes nh @ post) = Inr (nh, None)"
proof (cases nh)
  case (NH_IP i)
  then have afi: "BGPGetMPNextHop afi = NH_IP \<lparr>NH_Length = 0, NH_Value = []\<rparr>"
    using wf by (simp add: BGPGetMPNextHop_def)
  consider "NH_Length i = 4" "is_v4_mapped (NH_Value i)" | "NH_Length i = 16" "length (NH_Value i) = 16"
    using wf NH_IP by auto
  then show ?thesis
  proof cases
    case 1
    then obtain a b c d where "NH_Value i = IPv4 a b c d" "drop 12 (NH_Value i) = [a, b, c, d]"
      by (auto elim: v4_mapped_split)
    then show ?thesis using 1 NH_IP afi
      by (cases i) (simp add: MPNextHopIP_Decode_def wrong_nh_len_def nh_ip_len_def)
  next
    case 2
    then show ?thesis using NH_IP afi copy_r_prefix [of "NH_Value i" 16 post]
      by (cases i) (simp add: MPNextHopIP_Decode_def wrong_nh_len_def nh_ip_len_def slice_from_def
          del: replicate_numeral)
  qed
next
  case (NH_Unknown u)
  then show ?thesis using wf copy_r_prefix [of "NHU_Value u" "unat (NHU_Length u)" post]
    by (cases u) (simp add: BGPGetMPNextHop_def MPNextHopUnknown_Decode_def slice_from_def)
qed (use wf in simp)

definition wf_reach :: "bool \<Rightarrow> BGPPathAttrMPReachNLRI \<Rightarrow> bool" where
  "wf_reach rx r \<longleftrightarrow> wf_attr_hdr (Reach_Base r) \<and> Reach_Reserved r = 0 \<and>
     list_all (wf_nlri rx (Reach_AFI r)) (Reach_NLRI r) \<and>
     (case Reach_NextHop r of None \<Rightarrow> False
      | Some nh \<Rightarrow> wf_nh (Reach_AFI r) nh \<and>
          unat (Attr_Length (Reach_Base r)) = 4 + unat (MPNextHop_Len nh) + nlri_total (Reach_NLRI r))"

lemma BGPPathAttrMPReachNLRI_Encode_wf:
  assumes "wf_reach rx r"
  obtains nh bs where "Reach_NextHop r = Some nh"
    and "concat_r (NLRI_Encode (Reach_AFI r)) (Reach_NLRI r) = Inr bs"
    and "length bs = nlri_total (Reach_NLRI r)"
    and "BGPPathAttrMPReachNLRI_Encode r =
           Inr (hdr_bytes (Reach_Base r) @ be16 (Reach_AFI r) @ Reach_SAFI r # nh_bytes nh @ 0 # bs)"
proof -
  let ?b = "Reach_Base r" and ?afi = "Reach_AFI r"
  obtain nh where nh: "Reach_NextHop r = Some nh" "wf_nh ?afi nh"
    and l: "unat (Attr_Length ?b) = 3 + (length (nh_bytes nh) + (1 + nlri_total (Reach_NLRI r)))"
    using assms by (auto simp: wf_reach_def length_nh_bytes split: option.splits)
  have b: "hdr_wf ?b" and ns: "list_all (wf_nlri rx ?afi) (Reach_NLRI r)"
    using assms by (auto simp: wf_reach_def wf_attr_hdr_def)
  obtain bs where bs: "concat_r (NLRI_Encode ?afi) (Reach_NLRI r) = Inr bs"
    and lbs: "length bs = nlri_total (Reach_NLRI r)"
    using nlri_codec.concat_ok [OF ns] by (auto simp: nlri_total_def)
  let ?z = "\<lambda>n. replicate n (0 :: u8)" and ?n = "length (nh_bytes nh)"
  let ?h = "hdr_bytes ?b" and ?p = "hdr_bytes ?b @ be16 ?afi @ [Reach_SAFI r]"
  have zeros: "?z (unat (Attr_Length ?b)) = ?z 3 @ ?z ?n @ ?z 1 @ ?z (length bs)"
    unfolding l lbs by (simp only: replicate_add)
  have p: "put_afi_safi (?h @ ?z 3 @ ?z ?n @ ?z 1 @ ?z (length bs)) (length ?h) ?afi (Reach_SAFI r)
      = Inr (?p @ ?z ?n @ ?z 1 @ ?z (length bs))"
    using put_afi_safi_fills [of "?z 3" ?h "?z ?n @ ?z 1 @ ?z (length bs)"] by simp
  have lp: "length ?p = length ?h + 3" by simp
  have nhe: "on_slice (MPNextHop_Encode nh) (?p @ ?z ?n @ ?z 1 @ ?z (length bs)) (length ?h + 3)
      = Inr (?p @ nh_bytes nh @ ?z 1 @ ?z (length bs))"
    unfolding lp [symmetric] by (rule on_slice_mid) (rule MPNextHop_Encode_fills [OF nh(2)], simp)
  have lq: "length (?p @ nh_bytes nh) = length ?h + 3 + unat (MPNextHop_Len nh)"
    by (simp add: length_nh_bytes [OF nh(2)])
  have res: "set_r ((?p @ nh_bytes nh) @ ?z 1 @ ?z (length bs)) (length ?h + 3 + unat (MPNextHop_Len nh)) 0
      = (Inr ((?p @ nh_bytes nh) @ 0 # ?z (length bs)) :: bytes pres)"
    unfolding lq [symmetric] by (simp add: set_r_def list_update_append)
  have cp: "copy_nlri ?afi (Reach_NLRI r) ((?p @ nh_bytes nh @ [0]) @ ?z (length bs) @ [])
       (length (?p @ nh_bytes nh @ [0])) = Inr ((?p @ nh_bytes nh @ [0]) @ bs @ [])"
    by (rule copy_nlri_fills [OF bs]) simp
  have lr: "length (?p @ nh_bytes nh @ [0]) = length ?h + 3 + unat (MPNextHop_Len nh) + 1"
    by (simp add: length_nh_bytes [OF nh(2)])
  have "BGPPathAttrMPReachNLRI_Encode r = Inr (?h @ be16 ?afi @ Reach_SAFI r # nh_bytes nh @ 0 # bs)"
    unfolding BGPPathAttrMPReachNLRI_Encode_def BGPPathAttrBase_Encode_wf [OF b] bind_r_Inr Let_def
      length_hdr_bytes [OF b, symmetric] zeros p nh(1) option.case nhe
    using res cp [unfolded lr] by simp
  then show thesis using that nh(1) bs lbs by blast
qed


lemma BGPPathAttrMPReachNLRI_roundtrip:
  assumes wf: "wf_reach (AddPathsRxActual pa) r" and enc: "BGPPathAttrMPReachNLRI_Encode r = Inr pkt"
  shows "BGPPathAttrMPReachNLRI_Decode (pkt @ rest) pa = Inr r"
proof -
  let ?b = "Reach_Base r" and ?afi = "Reach_AFI r" and ?h = "hdr_bytes (Reach_Base r)"
  obtain nh bs where nh: "Reach_NextHop r = Some nh"
    and bs: "concat_r (NLRI_Encode ?afi) (Reach_NLRI r) = Inr bs"
    and lbs: "length bs = nlri_total (Reach_NLRI r)"
    and pkt: "pkt = ?h @ be16 ?afi @ Reach_SAFI r # nh_bytes nh @ 0 # bs"
    using BGPPathAttrMPReachNLRI_Encode_wf [OF wf] enc by (metis sum.inject(2))
  have b: "hdr_wf ?b" "hdr_accepted ?b" "hdr_no_overflow ?b" and reserved: "Reach_Reserved r = 0"
    and ns: "list_all (wf_nlri (AddPathsRxActual pa) ?afi) (Reach_NLRI r)" and wnh: "wf_nh ?afi nh"
    and l: "unat (Attr_Length ?b) = 4 + unat (MPNextHop_Len nh) + nlri_total (Reach_NLRI r)"
    using wf nh by (auto simp: wf_reach_def wf_attr_hdr_def)
  have hdr: "BGPPathAttrBase_Decode (pkt @ rest) = Inr ?b"
    unfolding pkt using BGPPathAttrBase_Decode_hdr [OF b] l lbs by (simp add: length_nh_bytes [OF wnh])
  have "(4 :: u32) \<le> ucast (Attr_Length ?b)" using l by (simp add: word_le_nat_alt)
  then have sub4: "unat (ucast (Attr_Length ?b) - 4 :: u32) = unat (MPNextHop_Len nh) + length bs"
    using l lbs by (simp add: unat_sub)
  then have "(ucast (MPNextHop_Len nh) :: u32) \<le> ucast (Attr_Length ?b) - 4"
    by (simp add: word_le_nat_alt)
  then have "unat (ucast (Attr_Length ?b) - 4 - ucast (MPNextHop_Len nh) :: u32) = length bs"
    using sub4 by (simp add: unat_sub)
  then have dec: "decodeNLRI (bs @ rest) (ucast (Attr_Length ?b) - 4 - ucast (MPNextHop_Len nh)) ?afi (Reach_SAFI r) pa
      = Inr (Reach_NLRI r, length bs)"
    by (rule decodeNLRI_concat [OF ns bs])
  let ?q = "?h @ be16 ?afi @ Reach_SAFI r # nh_bytes nh" and ?n = "length ?h + 3 + unat (MPNextHop_Len nh)"
  have q: "length ?q = ?n" by (simp add: length_nh_bytes [OF wnh])
  have pq: "pkt @ rest = ?q @ 0 # bs @ rest" by (simp add: pkt)
  have tail: "index_r (pkt @ rest) ?n = (Inr 0 :: u8 pres)"
    "slice_from (pkt @ rest) (?n + 1) = (Inr (bs @ rest) :: bytes pres)"
    unfolding pq q [symmetric] by (simp_all add: index_r_def slice_from_def nth_append)
  have fam: "bind_r (slice_r (pkt @ rest) (length ?h) (length ?h + 2)) get16 = (Inr ?afi :: AFI pres)"
    "index_r (pkt @ rest) (length ?h + 2) = (Inr (Reach_SAFI r) :: SAFI pres)"
    "slice_from (pkt @ rest) (length ?h + 3) = (Inr (nh_bytes nh @ 0 # bs @ rest) :: bytes pres)"
    using get_afi_safi [of ?h ?afi "Reach_SAFI r" "nh_bytes nh @ 0 # bs @ rest"] by (simp_all add: pkt)
  show ?thesis
    unfolding BGPPathAttrMPReachNLRI_Decode_def hdr bind_r_Inr Let_def length_hdr_bytes [OF b(1), symmetric]
      fam MPNextHop_Decode_bytes [OF wnh] prod.case tail dec
    using nh reserved by simp
qed

text \<open>
  An IPv6 next hop with a link-local address (length 32) is read back as a plain next hop: the link-local
  half is skipped, because \<open>MPNextHopIP6.New\<close> returns an \<open>MPNextHopIP\<close>.
\<close>

lemma MPNextHop_link_local_lost:
  assumes "length g = 16" "length ll = 16"
  shows "\<exists>bs. MPNextHop_Encode (NH_IP6 \<lparr>NH6_IP = \<lparr>NH_Length = 32, NH_Value = g\<rparr>, NH6_LinkLocal = Some ll\<rparr>)
              (replicate 33 0) = Inr bs \<and>
           MPNextHop_Decode (BGPGetMPNextHop AfiIP6) bs = Inr (NH_IP \<lparr>NH_Length = 32, NH_Value = g\<rparr>, None) \<and>
           MPNextHopIP6_Decode NewMPNextHopIP6 bs
             = Inr (\<lparr>NH6_IP = \<lparr>NH_Length = 32, NH_Value = g\<rparr>, NH6_LinkLocal = Some ll\<rparr>, None)"
proof -
  have z: "replicate 33 (0 :: u8) = 0 # replicate 16 0 @ replicate 16 0" by simp
  have "copy_r (32 # replicate 16 0 @ replicate 16 0) 1 g = (Inr (32 # g @ replicate 16 0) :: bytes pres)"
    using assms(1) by (intro copy_r_tail) simp
  moreover have "copy_r ((32 # g) @ replicate 16 0 @ []) (length (32 # g)) ll = (Inr ((32 # g) @ ll @ []) :: bytes pres)"
    using assms(2) by (intro copy_r_mid) simp
  then have "copy_r (32 # g @ replicate 16 0) 17 ll = (Inr (32 # g @ ll) :: bytes pres)"
    using assms(1) by (simp del: replicate_numeral)
  ultimately have "MPNextHop_Encode (NH_IP6 \<lparr>NH6_IP = \<lparr>NH_Length = 32, NH_Value = g\<rparr>, NH6_LinkLocal = Some ll\<rparr>)
      (replicate 33 0) = Inr (32 # g @ ll)"
    unfolding z using assms
    by (simp add: MPNextHopIP6_Encode_def MPNextHopIP_Encode_def set_r_def wrong_nh_len_def last_bytes_def
        nh_ip_len_def del: replicate_numeral)
  moreover have "copy_r (replicate 16 0) 0 (g @ ll) = (Inr g :: bytes pres)"
    "copy_r (replicate 16 0) 0 (ll @ []) = (Inr ll :: bytes pres)"
    by (rule copy_r_prefix, fact)+
  ultimately show ?thesis using assms
    by (simp add: BGPGetMPNextHop_def MPNextHopIP_Decode_def wrong_nh_len_def nh_ip_len_def slice_from_def
        MPNextHopIP6_Decode_def del: replicate_numeral)
qed

end
