(* ===== verification/AsPath.thy ===== *)
theory AsPath
  imports AfiSafi
begin

text \<open>
  AS path segments (bgp/packet/bgp.go) and the iterator over them (bgp/packet/aspathiter.go). A segment
  carries its count of AS numbers in a byte and its size in bytes in a \<open>uint16\<close>; \<open>Decode\<close> computes the
  size as \<open>uint16(ps.Length*4 + 2)\<close>, whose product and sum are \<open>uint8\<close>.
\<close>

section \<open>Segments\<close>

abbreviation (input) BGPASPathSegmentSet :: u8 where "BGPASPathSegmentSet \<equiv> 1"
abbreviation (input) BGPASPathSegmentSequence :: u8 where "BGPASPathSegmentSequence \<equiv> 2"

record BGPASPathSegmentBase =
  Seg_Type :: u8
  Seg_Length :: u8
  Seg_Len :: u16

definition BGPASPathSegmentBase_Encode :: "BGPASPathSegmentBase \<Rightarrow> bytes \<Rightarrow> bytes pres" where
  "BGPASPathSegmentBase_Encode ps pkt =
     bind_r (set_r pkt 0 (Seg_Type ps)) (\<lambda>pkt. set_r pkt 1 (Seg_Length ps))"

definition BGPASPathSegmentBase_Decode :: "BGPASPathSegmentBase \<Rightarrow> bytes \<Rightarrow> BGPASPathSegmentBase pres" where
  "BGPASPathSegmentBase_Decode ps pkt =
     (if length pkt \<le> 2 then msg_error BGPUpdateMsgError BGPMalformedAttrList []
      else bind_r (index_r pkt 0) (\<lambda>t. bind_r (index_r pkt 1) (\<lambda>l.
        Inr (ps\<lparr>Seg_Type := t, Seg_Length := l\<rparr>))))"

record BGPAS2PathSegment =
  AS2_Base :: BGPASPathSegmentBase
  AS2_AS :: "u16 list"

record BGPAS4PathSegment =
  AS4_Base :: BGPASPathSegmentBase
  AS4_AS :: "u32 list"

text \<open>\<open>for i, as := range ps.AS { PutUintN(pkt[(i*n)+2:], as) }\<close>\<close>

fun put_as :: "('a \<Rightarrow> bytes) \<Rightarrow> nat \<Rightarrow> 'a list \<Rightarrow> bytes \<Rightarrow> bytes pres" where
  "put_as enc off [] pkt = Inr pkt"
| "put_as enc off (a # as) pkt = bind_r (put_r pkt off (enc a)) (\<lambda>pkt. put_as enc (off + length (enc a)) as pkt)"

text \<open>\<open>for i := 0; i < n; i++ { ps.AS[i] = UintN(pkt[(i*width)+2:]) }\<close>\<close>

fun get_as :: "(bytes \<Rightarrow> 'a pres) \<Rightarrow> nat \<Rightarrow> nat \<Rightarrow> nat \<Rightarrow> bytes \<Rightarrow> 'a list pres" where
  "get_as dec width off 0 pkt = Inr []"
| "get_as dec width off (Suc n) pkt =
     bind_r (bind_r (slice_from pkt off) dec) (\<lambda>a.
     bind_r (get_as dec width (off + width) n pkt) (\<lambda>as. Inr (a # as)))"

definition BGPAS2PathSegment_Encode :: "BGPAS2PathSegment \<Rightarrow> bytes \<Rightarrow> bytes pres" where
  "BGPAS2PathSegment_Encode ps pkt =
     bind_r (BGPASPathSegmentBase_Encode (AS2_Base ps) pkt) (\<lambda>pkt. put_as be16 2 (AS2_AS ps) pkt)"

definition BGPAS2PathSegment_Decode :: "BGPAS2PathSegment \<Rightarrow> bytes \<Rightarrow> BGPAS2PathSegment pres" where
  "BGPAS2PathSegment_Decode ps pkt =
     bind_r (BGPASPathSegmentBase_Decode (AS2_Base ps) pkt) (\<lambda>b.
     if length pkt - 2 < unat (Seg_Length b) * 2
     then msg_error BGPUpdateMsgError BGPMalformedAttrList []
     else bind_r (get_as get16 2 2 (unat (Seg_Length b)) pkt) (\<lambda>as.
       Inr \<lparr>AS2_Base = b\<lparr>Seg_Len := ucast (Seg_Length b * 2 + 2)\<rparr>, AS2_AS = as\<rparr>))"

definition BGPAS2PathSegment_GetNumASes :: "BGPAS2PathSegment \<Rightarrow> u8" where
  "BGPAS2PathSegment_GetNumASes ps =
     (if Seg_Type (AS2_Base ps) = BGPASPathSegmentSet then 1 else of_nat (length (AS2_AS ps)))"

definition BGPAS2PathSegment_PrependAS :: "BGPAS2PathSegment \<Rightarrow> u32 \<Rightarrow> BGPAS2PathSegment \<times> bool" where
  "BGPAS2PathSegment_PrependAS ps as =
     (let b = AS2_Base ps in
      if Seg_Length b \<ge> 255 then (ps, False)
      else (\<lparr>AS2_Base = b\<lparr>Seg_Length := Seg_Length b + 1, Seg_Len := Seg_Len b + 2\<rparr>,
             AS2_AS = ucast as # AS2_AS ps\<rparr>, True))"

definition BGPAS2PathSegment_AppendAS :: "BGPAS2PathSegment \<Rightarrow> u32 \<Rightarrow> BGPAS2PathSegment \<times> bool" where
  "BGPAS2PathSegment_AppendAS ps as =
     (let b = AS2_Base ps in
      if Seg_Length b \<ge> 255 then (ps, False)
      else (\<lparr>AS2_Base = b\<lparr>Seg_Length := Seg_Length b + 1, Seg_Len := Seg_Len b + 2\<rparr>,
             AS2_AS = AS2_AS ps @ [ucast as]\<rparr>, True))"

definition NewBGPAS2PathSegment :: "u8 \<Rightarrow> BGPAS2PathSegment" where
  "NewBGPAS2PathSegment segType =
     \<lparr>AS2_Base = \<lparr>Seg_Type = segType, Seg_Length = 0, Seg_Len = 2\<rparr>, AS2_AS = []\<rparr>"

definition NewBGPAS2PathSegmentSeq :: BGPAS2PathSegment where
  "NewBGPAS2PathSegmentSeq = NewBGPAS2PathSegment BGPASPathSegmentSequence"

definition CloneAsAS2PathSegment :: "BGPAS4PathSegment \<Rightarrow> BGPAS2PathSegment \<times> bool" where
  "CloneAsAS2PathSegment ps =
     (let b = AS4_Base ps; x = NewBGPAS2PathSegment (Seg_Type b) in
      (\<lparr>AS2_Base = (AS2_Base x)\<lparr>Seg_Length := Seg_Length b,
                                Seg_Len := Seg_Len (AS2_Base x) + ucast (Seg_Length b * 2)\<rparr>,
        AS2_AS = map (\<lambda>as. if as > 65535 then BGPASTrans else ucast as) (AS4_AS ps)\<rparr>,
       list_all (\<lambda>as. as \<le> 65535) (AS4_AS ps)))"

definition BGPAS4PathSegment_Encode :: "BGPAS4PathSegment \<Rightarrow> bytes \<Rightarrow> bytes pres" where
  "BGPAS4PathSegment_Encode ps pkt =
     bind_r (BGPASPathSegmentBase_Encode (AS4_Base ps) pkt) (\<lambda>pkt. put_as be32 2 (AS4_AS ps) pkt)"

definition BGPAS4PathSegment_Decode :: "BGPAS4PathSegment \<Rightarrow> bytes \<Rightarrow> BGPAS4PathSegment pres" where
  "BGPAS4PathSegment_Decode ps pkt =
     bind_r (BGPASPathSegmentBase_Decode (AS4_Base ps) pkt) (\<lambda>b.
     if length pkt - 2 < unat (Seg_Length b) * 4
     then msg_error BGPUpdateMsgError BGPMalformedAttrList []
     else bind_r (get_as get32 4 2 (unat (Seg_Length b)) pkt) (\<lambda>as.
       Inr \<lparr>AS4_Base = b\<lparr>Seg_Len := ucast (Seg_Length b * 4 + 2)\<rparr>, AS4_AS = as\<rparr>))"

definition BGPAS4PathSegment_GetNumASes :: "BGPAS4PathSegment \<Rightarrow> u8" where
  "BGPAS4PathSegment_GetNumASes ps =
     (if Seg_Type (AS4_Base ps) = BGPASPathSegmentSet then 1 else of_nat (length (AS4_AS ps)))"

definition BGPAS4PathSegment_PrependAS :: "BGPAS4PathSegment \<Rightarrow> u32 \<Rightarrow> BGPAS4PathSegment \<times> bool" where
  "BGPAS4PathSegment_PrependAS ps as =
     (let b = AS4_Base ps in
      if Seg_Length b \<ge> 255 then (ps, False)
      else (\<lparr>AS4_Base = b\<lparr>Seg_Length := Seg_Length b + 1, Seg_Len := Seg_Len b + 4\<rparr>,
             AS4_AS = as # AS4_AS ps\<rparr>, True))"

definition BGPAS4PathSegment_AppendAS :: "BGPAS4PathSegment \<Rightarrow> u32 \<Rightarrow> BGPAS4PathSegment \<times> bool" where
  "BGPAS4PathSegment_AppendAS ps as =
     (let b = AS4_Base ps in
      if Seg_Length b \<ge> 255 then (ps, False)
      else (\<lparr>AS4_Base = b\<lparr>Seg_Length := Seg_Length b + 1, Seg_Len := Seg_Len b + 4\<rparr>,
             AS4_AS = AS4_AS ps @ [as]\<rparr>, True))"

definition NewBGPAS4PathSegment :: "u8 \<Rightarrow> BGPAS4PathSegment" where
  "NewBGPAS4PathSegment segType =
     \<lparr>AS4_Base = \<lparr>Seg_Type = segType, Seg_Length = 0, Seg_Len = 2\<rparr>, AS4_AS = []\<rparr>"

definition NewBGPAS4PathSegmentSeq :: BGPAS4PathSegment where
  "NewBGPAS4PathSegmentSeq = NewBGPAS4PathSegment BGPASPathSegmentSequence"

definition NewBGPAS4PathSegmentSet :: BGPAS4PathSegment where
  "NewBGPAS4PathSegmentSet = NewBGPAS4PathSegment BGPASPathSegmentSet"

section \<open>The segment interface\<close>

datatype BGPASPathSegment = Seg2 BGPAS2PathSegment | Seg4 BGPAS4PathSegment

fun Seg_base :: "BGPASPathSegment \<Rightarrow> BGPASPathSegmentBase" where
  "Seg_base (Seg2 s) = AS2_Base s"
| "Seg_base (Seg4 s) = AS4_Base s"

definition Seg_TotalLen :: "BGPASPathSegment \<Rightarrow> u16" where
  "Seg_TotalLen s = Seg_Len (Seg_base s)"

definition Seg_GetType :: "BGPASPathSegment \<Rightarrow> u8" where
  "Seg_GetType s = Seg_Type (Seg_base s)"

definition Seg_GetLen :: "BGPASPathSegment \<Rightarrow> u8" where
  "Seg_GetLen s = Seg_Length (Seg_base s)"

fun Seg_Encode :: "BGPASPathSegment \<Rightarrow> bytes \<Rightarrow> bytes pres" where
  "Seg_Encode (Seg2 s) = BGPAS2PathSegment_Encode s"
| "Seg_Encode (Seg4 s) = BGPAS4PathSegment_Encode s"

fun Seg_Decode :: "BGPASPathSegment \<Rightarrow> bytes \<Rightarrow> BGPASPathSegment pres" where
  "Seg_Decode (Seg2 s) pkt = bind_r (BGPAS2PathSegment_Decode s pkt) (\<lambda>x. Inr (Seg2 x))"
| "Seg_Decode (Seg4 s) pkt = bind_r (BGPAS4PathSegment_Decode s pkt) (\<lambda>x. Inr (Seg4 x))"

fun Seg_GetNumASes :: "BGPASPathSegment \<Rightarrow> u8" where
  "Seg_GetNumASes (Seg2 s) = BGPAS2PathSegment_GetNumASes s"
| "Seg_GetNumASes (Seg4 s) = BGPAS4PathSegment_GetNumASes s"

fun Seg_PrependAS :: "BGPASPathSegment \<Rightarrow> u32 \<Rightarrow> BGPASPathSegment \<times> bool" where
  "Seg_PrependAS (Seg2 s) as = (case BGPAS2PathSegment_PrependAS s as of (x, ok) \<Rightarrow> (Seg2 x, ok))"
| "Seg_PrependAS (Seg4 s) as = (case BGPAS4PathSegment_PrependAS s as of (x, ok) \<Rightarrow> (Seg4 x, ok))"

fun Seg_AppendAS :: "BGPASPathSegment \<Rightarrow> u32 \<Rightarrow> BGPASPathSegment \<times> bool" where
  "Seg_AppendAS (Seg2 s) as = (case BGPAS2PathSegment_AppendAS s as of (x, ok) \<Rightarrow> (Seg2 x, ok))"
| "Seg_AppendAS (Seg4 s) as = (case BGPAS4PathSegment_AppendAS s as of (x, ok) \<Rightarrow> (Seg4 x, ok))"

section \<open>The iterator\<close>

record ASPathIter =
  Iter_segments :: "BGPAS4PathSegment list"
  Iter_segmentLen :: nat
  Iter_segIdx :: nat
  Iter_asValIdx :: nat

fun as4_segments :: "BGPASPathSegment list \<Rightarrow> BGPAS4PathSegment list option" where
  "as4_segments [] = Some []"
| "as4_segments (Seg4 s # ss) = map_option (\<lambda>r. s # r) (as4_segments ss)"
| "as4_segments (Seg2 s # ss) = None"

text \<open>\<open>NewASPathIter\<close> gives nil for a path with a 2-byte segment.\<close>

definition NewASPathIter :: "BGPASPathSegment list \<Rightarrow> ASPathIter option" where
  "NewASPathIter value =
     map_option (\<lambda>ss. \<lparr>Iter_segments = ss, Iter_segmentLen = length value, Iter_segIdx = 0, Iter_asValIdx = 0\<rparr>)
       (as4_segments value)"

text \<open>\<open>Next\<close>: the iterator moves on; a segment with no AS numbers makes the index panic.\<close>

definition ASPathIter_Next :: "ASPathIter \<Rightarrow> (ASPathIter \<times> (u32 \<times> u8) option) pres" where
  "ASPathIter_Next a =
     (if Iter_segIdx a \<ge> Iter_segmentLen a then Inr (a, None)
      else bind_r (index_r (Iter_segments a) (Iter_segIdx a)) (\<lambda>seg.
        bind_r (index_r (AS4_AS seg) (Iter_asValIdx a)) (\<lambda>val.
        let next = Iter_asValIdx a + 1;
            a' = (if next \<ge> length (AS4_AS seg)
                  then a\<lparr>Iter_segIdx := Iter_segIdx a + 1, Iter_asValIdx := 0\<rparr>
                  else a\<lparr>Iter_asValIdx := next\<rparr>)
        in Inr (a', Some (val, Seg_Type (AS4_Base seg))))))"

section \<open>The codec of a segment\<close>

text \<open>
  What the two AS widths share: the element codec of a segment. The segment lemmas are proved from this
  contract and used at both widths.
\<close>

locale fixed_codec =
  fixes enc :: "'a \<Rightarrow> bytes"
    and dec :: "bytes \<Rightarrow> 'a pres"
    and width :: nat
  assumes enc_width: "length (enc a) = width"
    and dec_enc: "dec (enc a @ rest) = Inr a"
    and dec_total: "width \<le> length s \<Longrightarrow> \<exists>a. dec s = Inr a"
begin

lemma length_concat_enc: "length (concat (map enc as)) = width * length as"
  by (induction as) (simp_all add: enc_width)

lemma put_as_fills:
  "length old = width * length as \<Longrightarrow>
   put_as enc (length pre) as (pre @ old @ post) = Inr (pre @ concat (map enc as) @ post)"
proof (induction as arbitrary: pre old)
  case Nil
  then show ?case by simp
next
  case (Cons a as)
  let ?o1 = "take width old" and ?o2 = "drop width old"
  have "put_r (pre @ ?o1 @ ?o2 @ post) (length pre) (enc a) = (Inr (pre @ enc a @ ?o2 @ post) :: bytes pres)"
    using Cons.prems by (intro put_r_mid) (simp add: enc_width)
  then have "put_r (pre @ old @ post) (length pre) (enc a) = (Inr (pre @ enc a @ ?o2 @ post) :: bytes pres)"
    by (metis append.assoc append_take_drop_id)
  moreover have "put_as enc (length (pre @ enc a)) as ((pre @ enc a) @ ?o2 @ post)
      = Inr ((pre @ enc a) @ concat (map enc as) @ post)"
    using Cons.prems by (intro Cons.IH) simp
  ultimately show ?case by simp
qed

lemma get_as_concat:
  "get_as dec width (length pre) (length as) (pre @ concat (map enc as) @ post) = Inr as"
proof (induction as arbitrary: pre)
  case Nil
  then show ?case by simp
next
  case (Cons a as)
  have "get_as dec width (length (pre @ enc a)) (length as) ((pre @ enc a) @ concat (map enc as) @ post) = Inr as"
    by (rule Cons.IH)
  then show ?case by (simp add: dec_enc enc_width)
qed

lemma get_as_total:
  "off + width * n \<le> length pkt \<Longrightarrow> \<exists>as. get_as dec width off n pkt = Inr as \<and> length as = n"
proof (induction n arbitrary: off)
  case 0
  then show ?case by simp
next
  case (Suc n)
  then have "off + width + width * n \<le> length pkt" by (simp add: algebra_simps)
  then obtain as where "get_as dec width (off + width) n pkt = Inr as" "length as = n"
    using Suc.IH by blast
  moreover obtain a where "dec (drop off pkt) = Inr a"
    using \<open>off + width + width * n \<le> length pkt\<close> dec_total [of "drop off pkt"] by force
  ultimately show ?case using Suc.prems by (simp add: slice_from_le)
qed

end

interpretation as2: fixed_codec be16 get16 2
  by unfold_locales (simp_all add: get16_total)

interpretation as4: fixed_codec be32 get32 4
  by unfold_locales (simp_all add: get32_total)

text \<open>
  A segment is well formed when its count and its size agree with its AS numbers, and it is not empty and
  short enough for the \<open>uint8\<close> arithmetic of \<open>Decode\<close>.
\<close>

definition wf_seg2 :: "BGPAS2PathSegment \<Rightarrow> bool" where
  "wf_seg2 s \<longleftrightarrow> unat (Seg_Length (AS2_Base s)) = length (AS2_AS s) \<and>
     unat (Seg_Len (AS2_Base s)) = 2 * length (AS2_AS s) + 2 \<and> 0 < length (AS2_AS s) \<and> length (AS2_AS s) \<le> 126"

definition wf_seg4 :: "BGPAS4PathSegment \<Rightarrow> bool" where
  "wf_seg4 s \<longleftrightarrow> unat (Seg_Length (AS4_Base s)) = length (AS4_AS s) \<and>
     unat (Seg_Len (AS4_Base s)) = 4 * length (AS4_AS s) + 2 \<and> 0 < length (AS4_AS s) \<and> length (AS4_AS s) \<le> 63"

definition seg2_bytes :: "BGPAS2PathSegment \<Rightarrow> bytes" where
  "seg2_bytes s = [Seg_Type (AS2_Base s), Seg_Length (AS2_Base s)] @ concat (map be16 (AS2_AS s))"

definition seg4_bytes :: "BGPAS4PathSegment \<Rightarrow> bytes" where
  "seg4_bytes s = [Seg_Type (AS4_Base s), Seg_Length (AS4_Base s)] @ concat (map be32 (AS4_AS s))"

lemma length_seg2_bytes: "length (seg2_bytes s) = 2 * length (AS2_AS s) + 2"
  by (simp add: seg2_bytes_def as2.length_concat_enc)

lemma length_seg4_bytes: "length (seg4_bytes s) = 4 * length (AS4_AS s) + 2"
  by (simp add: seg4_bytes_def as4.length_concat_enc)

lemma BGPASPathSegmentBase_Encode_fills:
  "BGPASPathSegmentBase_Encode b (x # y # rest) = Inr (Seg_Type b # Seg_Length b # rest)"
  by (simp add: BGPASPathSegmentBase_Encode_def set_r_def)

lemma length_ge2E:
  assumes "2 \<le> length xs"
  obtains x y zs where "xs = x # y # zs" "length zs = length xs - 2"
  using assms by (cases xs; cases "tl xs") auto

lemma BGPAS2PathSegment_Encode_fills:
  assumes "length old = length (seg2_bytes s)"
  shows "BGPAS2PathSegment_Encode s (old @ post) = Inr (seg2_bytes s @ post)"
proof -
  have "2 \<le> length old" using assms by (simp add: length_seg2_bytes)
  then obtain x y o' where old: "old = x # y # o'" and "length o' = length old - 2"
    by (rule length_ge2E)
  then have l: "length o' = 2 * length (AS2_AS s)"
    using assms by (simp add: length_seg2_bytes)
  show ?thesis
    using as2.put_as_fills [OF l, of "[Seg_Type (AS2_Base s), Seg_Length (AS2_Base s)]" post]
    by (simp add: BGPAS2PathSegment_Encode_def old BGPASPathSegmentBase_Encode_fills seg2_bytes_def flip: numeral_2_eq_2)
qed

lemma BGPAS4PathSegment_Encode_fills:
  assumes "length old = length (seg4_bytes s)"
  shows "BGPAS4PathSegment_Encode s (old @ post) = Inr (seg4_bytes s @ post)"
proof -
  have "2 \<le> length old" using assms by (simp add: length_seg4_bytes)
  then obtain x y o' where old: "old = x # y # o'" and "length o' = length old - 2"
    by (rule length_ge2E)
  then have l: "length o' = 4 * length (AS4_AS s)"
    using assms by (simp add: length_seg4_bytes)
  show ?thesis
    using as4.put_as_fills [OF l, of "[Seg_Type (AS4_Base s), Seg_Length (AS4_Base s)]" post]
    by (simp add: BGPAS4PathSegment_Encode_def old BGPASPathSegmentBase_Encode_fills seg4_bytes_def flip: numeral_2_eq_2)
qed

lemma BGPAS2PathSegment_Decode_bytes:
  assumes "wf_seg2 s"
  shows "BGPAS2PathSegment_Decode s0 (seg2_bytes s @ post) = Inr s"
proof -
  let ?b = "AS2_Base s"
  have n: "unat (Seg_Length ?b) = length (AS2_AS s)" "0 < length (AS2_AS s)" "length (AS2_AS s) \<le> 126"
    and l: "unat (Seg_Len ?b) = 2 * length (AS2_AS s) + 2"
    using assms by (auto simp: wf_seg2_def)
  have "unat (Seg_Length ?b * 2 + 2) = 2 * length (AS2_AS s) + 2"
    using n by (simp add: unat_word_ariths)
  then have len: "ucast (Seg_Length ?b * 2 + 2) = Seg_Len ?b"
    using l by (intro word_unat_eqI) simp
  have lc: "length (concat (map be16 (AS2_AS s))) = 2 * length (AS2_AS s)"
    by (rule as2.length_concat_enc)
  then have ne: "length (seg2_bytes s @ post) > 2" using n by (simp add: seg2_bytes_def)
  have "get_as get16 2 2 (length (AS2_AS s)) (seg2_bytes s @ post) = Inr (AS2_AS s)"
    using as2.get_as_concat [of "[Seg_Type ?b, Seg_Length ?b]" "AS2_AS s" post]
    by (simp add: seg2_bytes_def flip: numeral_2_eq_2)
  then show ?thesis
    using ne lc
    by (simp add: BGPAS2PathSegment_Decode_def BGPASPathSegmentBase_Decode_def n len)
       (simp add: seg2_bytes_def n len index_r_def lc)
qed

lemma BGPAS4PathSegment_Decode_bytes:
  assumes "wf_seg4 s"
  shows "BGPAS4PathSegment_Decode s0 (seg4_bytes s @ post) = Inr s"
proof -
  let ?b = "AS4_Base s"
  have n: "unat (Seg_Length ?b) = length (AS4_AS s)" "0 < length (AS4_AS s)" "length (AS4_AS s) \<le> 63"
    and l: "unat (Seg_Len ?b) = 4 * length (AS4_AS s) + 2"
    using assms by (auto simp: wf_seg4_def)
  have "unat (Seg_Length ?b * 4 + 2) = 4 * length (AS4_AS s) + 2"
    using n by (simp add: unat_word_ariths)
  then have len: "ucast (Seg_Length ?b * 4 + 2) = Seg_Len ?b"
    using l by (intro word_unat_eqI) simp
  have lc: "length (concat (map be32 (AS4_AS s))) = 4 * length (AS4_AS s)"
    by (rule as4.length_concat_enc)
  then have ne: "length (seg4_bytes s @ post) > 2" using n by (simp add: seg4_bytes_def)
  have "get_as get32 4 2 (length (AS4_AS s)) (seg4_bytes s @ post) = Inr (AS4_AS s)"
    using as4.get_as_concat [of "[Seg_Type ?b, Seg_Length ?b]" "AS4_AS s" post]
    by (simp add: seg4_bytes_def flip: numeral_2_eq_2)
  then show ?thesis
    using ne lc
    by (simp add: BGPAS4PathSegment_Decode_def BGPASPathSegmentBase_Decode_def n len)
       (simp add: seg4_bytes_def n len index_r_def lc)
qed

section \<open>The segment interface as a codec\<close>

fun wf_seg :: "BGPASPathSegment \<Rightarrow> bool" where
  "wf_seg (Seg2 s) = wf_seg2 s"
| "wf_seg (Seg4 s) = wf_seg4 s"

fun seg_bytes :: "BGPASPathSegment \<Rightarrow> bytes" where
  "seg_bytes (Seg2 s) = seg2_bytes s"
| "seg_bytes (Seg4 s) = seg4_bytes s"

lemma length_seg_bytes: "wf_seg s \<Longrightarrow> length (seg_bytes s) = unat (Seg_TotalLen s)"
  by (cases s) (auto simp: wf_seg2_def wf_seg4_def length_seg2_bytes length_seg4_bytes Seg_TotalLen_def)

lemma Seg_TotalLen_pos: "wf_seg s \<Longrightarrow> 4 \<le> unat (Seg_TotalLen s)"
  by (cases s) (auto simp: wf_seg2_def wf_seg4_def Seg_TotalLen_def Suc_le_eq)

lemma Seg_Encode_fills:
  "length old = length (seg_bytes s) \<Longrightarrow> Seg_Encode s (old @ post) = Inr (seg_bytes s @ post)"
  by (cases s) (simp_all add: BGPAS2PathSegment_Encode_fills BGPAS4PathSegment_Encode_fills)

text \<open>A fresh segment of the width negotiated with the peer, as the decoder of a path allocates it.\<close>

definition new_seg :: "u8 \<Rightarrow> BGPASPathSegment" where
  "new_seg ASSize = (if ASSize = 4 then Seg4 NewBGPAS4PathSegmentSeq else Seg2 NewBGPAS2PathSegmentSeq)"

definition seg_width_ok :: "u8 \<Rightarrow> BGPASPathSegment \<Rightarrow> bool" where
  "seg_width_ok ASSize s \<longleftrightarrow> (case s of Seg4 _ \<Rightarrow> ASSize = 4 | Seg2 _ \<Rightarrow> ASSize \<noteq> 4)"

lemma Seg_Decode_bytes:
  "wf_seg s \<Longrightarrow> seg_width_ok n s \<Longrightarrow> Seg_Decode (new_seg n) (seg_bytes s @ post) = Inr s"
  by (cases s) (simp_all add: seg_width_ok_def new_seg_def
      BGPAS2PathSegment_Decode_bytes BGPAS4PathSegment_Decode_bytes)

lemma BGPASPathSegmentBase_Decode_safe:
  "BGPASPathSegmentBase_Decode b pkt = Inl f \<Longrightarrow> \<exists>e. f = Error e"
  by (auto simp: BGPASPathSegmentBase_Decode_def msg_error_def index_r_def split: if_splits)

text \<open>
  Decoding a segment never faults; what it returns has as many AS numbers as its count says, and a size
  that is the \<open>uint8\<close> product and sum.
\<close>

lemma BGPAS2PathSegment_Decode_cases:
  "(\<exists>e. BGPAS2PathSegment_Decode s pkt = Inl (Error e)) \<or>
   (\<exists>x. BGPAS2PathSegment_Decode s pkt = Inr x \<and> length (AS2_AS x) = unat (Seg_Length (AS2_Base x)) \<and>
        Seg_Len (AS2_Base x) = ucast (Seg_Length (AS2_Base x) * 2 + 2) \<and>
        2 * length (AS2_AS x) + 2 \<le> length pkt)"
proof (cases "BGPASPathSegmentBase_Decode (AS2_Base s) pkt")
  case (Inl f)
  then show ?thesis
    using BGPASPathSegmentBase_Decode_safe by (fastforce simp: BGPAS2PathSegment_Decode_def)
next
  case (Inr b)
  then have "2 < length pkt"
    by (auto simp: BGPASPathSegmentBase_Decode_def split: if_splits)
  show ?thesis
  proof (cases "length pkt - 2 < unat (Seg_Length b) * 2")
    case True
    then show ?thesis using Inr by (simp add: BGPAS2PathSegment_Decode_def msg_error_def)
  next
    case False
    with \<open>2 < length pkt\<close> have "2 + 2 * unat (Seg_Length b) \<le> length pkt" by simp
    with as2.get_as_total [of 2 "unat (Seg_Length b)" pkt] False Inr show ?thesis
      by (auto simp: BGPAS2PathSegment_Decode_def)
  qed
qed

lemma BGPAS4PathSegment_Decode_cases:
  "(\<exists>e. BGPAS4PathSegment_Decode s pkt = Inl (Error e)) \<or>
   (\<exists>x. BGPAS4PathSegment_Decode s pkt = Inr x \<and> length (AS4_AS x) = unat (Seg_Length (AS4_Base x)) \<and>
        Seg_Len (AS4_Base x) = ucast (Seg_Length (AS4_Base x) * 4 + 2) \<and>
        4 * length (AS4_AS x) + 2 \<le> length pkt)"
proof (cases "BGPASPathSegmentBase_Decode (AS4_Base s) pkt")
  case (Inl f)
  then show ?thesis
    using BGPASPathSegmentBase_Decode_safe by (fastforce simp: BGPAS4PathSegment_Decode_def)
next
  case (Inr b)
  then have "2 < length pkt"
    by (auto simp: BGPASPathSegmentBase_Decode_def split: if_splits)
  show ?thesis
  proof (cases "length pkt - 2 < unat (Seg_Length b) * 4")
    case True
    then show ?thesis using Inr by (simp add: BGPAS4PathSegment_Decode_def msg_error_def)
  next
    case False
    with \<open>2 < length pkt\<close> have "2 + 4 * unat (Seg_Length b) \<le> length pkt" by simp
    with as4.get_as_total [of 2 "unat (Seg_Length b)" pkt] False Inr show ?thesis
      by (auto simp: BGPAS4PathSegment_Decode_def)
  qed
qed

lemma Seg_Decode_safe: "Seg_Decode s pkt = Inl f \<Longrightarrow> \<exists>e. f = Error e"
proof (cases s)
  case (Seg2 x)
  assume "Seg_Decode s pkt = Inl f"
  then show ?thesis using Seg2 BGPAS2PathSegment_Decode_cases [of x pkt] by (auto simp: bind_r_eq_Inl)
next
  case (Seg4 x)
  assume "Seg_Decode s pkt = Inl f"
  then show ?thesis using Seg4 BGPAS4PathSegment_Decode_cases [of x pkt] by (auto simp: bind_r_eq_Inl)
qed

text \<open>
  The size a decoded segment reports: at most 256 and never more than the bytes it was decoded from; it is 0
  exactly when the \<open>uint8\<close> sum wraps to 0, which needs 127 or 255 two-byte AS numbers, or an impossible
  count of four-byte ones.
\<close>

lemma twice_plus_two_zero: "(c * 2 + 2 = 0) = (unat c = 127 \<or> unat c = 255)" for c :: u8
proof
  assume "c * 2 + 2 = 0"
  then have "(unat c * 2 + 2) mod 256 = 0"
    using unat_word_ariths(1) [of "c * 2" 2] by (simp add: unat_word_ariths mod_simps)
  moreover have "unat c < 256" by simp
  ultimately show "unat c = 127 \<or> unat c = 255" by presburger
next
  assume "unat c = 127 \<or> unat c = 255"
  then have "c = 127 \<or> c = 255" by (auto intro: word_unat_eqI)
  then show "c * 2 + 2 = 0" by auto
qed

lemma four_times_plus_two_nonzero: "c * 4 + 2 \<noteq> 0" for c :: u8
proof
  assume "c * 4 + 2 = 0"
  then have "(unat c * 4 + 2) mod 256 = 0"
    using unat_word_ariths(1) [of "c * 4" 2] by (simp add: unat_word_ariths mod_simps)
  then show False by presburger
qed


section \<open>Editing a segment\<close>

text \<open>
  A segment that agrees with its AS numbers, of any length: what \<open>PrependAS\<close> and \<open>AppendAS\<close> keep.
\<close>

fun seg_consistent :: "BGPASPathSegment \<Rightarrow> bool" where
  "seg_consistent (Seg2 s) \<longleftrightarrow> unat (Seg_Length (AS2_Base s)) = length (AS2_AS s) \<and>
     unat (Seg_Len (AS2_Base s)) = 2 * length (AS2_AS s) + 2"
| "seg_consistent (Seg4 s) \<longleftrightarrow> unat (Seg_Length (AS4_Base s)) = length (AS4_AS s) \<and>
     unat (Seg_Len (AS4_Base s)) = 4 * length (AS4_AS s) + 2"

fun seg_ases :: "BGPASPathSegment \<Rightarrow> u32 list" where
  "seg_ases (Seg2 s) = map ucast (AS2_AS s)"
| "seg_ases (Seg4 s) = AS4_AS s"

lemma wf_seg_consistent: "wf_seg s \<Longrightarrow> seg_consistent s"
  by (cases s) (auto simp: wf_seg2_def wf_seg4_def)

lemma u8_inc: "\<not> 255 \<le> c \<Longrightarrow> unat (c + 1) = Suc (unat c)" for c :: u8
  using unat_add_small [of c 1] by (simp add: word_le_nat_alt)

lemma u16_add_const: "unat c + unat k < 65536 \<Longrightarrow> unat (c + k) = unat c + unat k" for c k :: u16
  using unat_add_small [of c k] by simp

lemma ucast_16_32_16 [simp]: "ucast (ucast a :: u16) = (a AND 65535 :: u32)"
proof -
  have m: "(65535 :: u32) = mask 16" by (simp add: mask_eq_exp_minus_1)
  show ?thesis unfolding m by (rule bit_word_eqI) (auto simp: bit_simps)
qed

lemma seg_consistent_bound: "seg_consistent s \<Longrightarrow> length (seg_ases s) \<le> 255"
proof (cases s)
  case (Seg2 x)
  then show "seg_consistent s \<Longrightarrow> ?thesis" using u8_less [of "Seg_Length (AS2_Base x)"] by simp
next
  case (Seg4 x)
  then show "seg_consistent s \<Longrightarrow> ?thesis" using u8_less [of "Seg_Length (AS4_Base x)"] by simp
qed

text \<open>
  \<open>PrependAS\<close> and \<open>AppendAS\<close>: a segment of 255 AS numbers is left as it is and the call reports false;
  any other gains exactly the given number (cut to 16 bits in a two-byte segment) and stays consistent.
\<close>

lemma Seg_PrependAS_spec:
  assumes "seg_consistent s"
  shows "if length (seg_ases s) = 255 then Seg_PrependAS s as = (s, False)
         else \<exists>s'. Seg_PrependAS s as = (s', True) \<and> seg_consistent s' \<and> Seg_GetType s' = Seg_GetType s \<and>
              seg_ases s' = (case s of Seg2 _ \<Rightarrow> as AND 65535 | Seg4 _ \<Rightarrow> as) # seg_ases s"
  using assms seg_consistent_bound [OF assms]
  by (cases s)
     (auto simp: BGPAS2PathSegment_PrependAS_def BGPAS4PathSegment_PrependAS_def Let_def Seg_GetType_def
       u8_inc u16_add_const word_le_nat_alt)

lemma Seg_AppendAS_spec:
  assumes "seg_consistent s"
  shows "if length (seg_ases s) = 255 then Seg_AppendAS s as = (s, False)
         else \<exists>s'. Seg_AppendAS s as = (s', True) \<and> seg_consistent s' \<and> Seg_GetType s' = Seg_GetType s \<and>
              seg_ases s' = seg_ases s @ [case s of Seg2 _ \<Rightarrow> as AND 65535 | Seg4 _ \<Rightarrow> as]"
  using assms seg_consistent_bound [OF assms]
  by (cases s)
     (auto simp: BGPAS2PathSegment_AppendAS_def BGPAS4PathSegment_AppendAS_def Let_def Seg_GetType_def
       u8_inc u16_add_const word_le_nat_alt)

section \<open>The iterator delivers every AS number\<close>

definition iter_wf :: "ASPathIter \<Rightarrow> bool" where
  "iter_wf a \<longleftrightarrow> list_all (\<lambda>s. AS4_AS s \<noteq> []) (Iter_segments a) \<and>
     Iter_segmentLen a = length (Iter_segments a) \<and>
     (if Iter_segIdx a < Iter_segmentLen a
      then Iter_asValIdx a < length (AS4_AS (Iter_segments a ! Iter_segIdx a)) else Iter_asValIdx a = 0)"

definition seg_items :: "BGPAS4PathSegment \<Rightarrow> (u32 \<times> u8) list" where
  "seg_items s = map (\<lambda>as. (as, Seg_Type (AS4_Base s))) (AS4_AS s)"

text \<open>What the iterator has still to deliver.\<close>

definition iter_rest :: "ASPathIter \<Rightarrow> (u32 \<times> u8) list" where
  "iter_rest a = drop (Iter_asValIdx a) (concat (map seg_items (drop (Iter_segIdx a) (Iter_segments a))))"

lemma length_seg_items [simp]: "length (seg_items s) = length (AS4_AS s)"
  by (simp add: seg_items_def)

lemma ASPathIter_Next_end:
  "iter_wf a \<Longrightarrow> iter_rest a = [] \<Longrightarrow> ASPathIter_Next a = Inr (a, None)"
proof -
  assume wf: "iter_wf a" and e: "iter_rest a = []"
  have "\<not> Iter_segIdx a < Iter_segmentLen a"
  proof
    assume lt: "Iter_segIdx a < Iter_segmentLen a"
    then have "drop (Iter_segIdx a) (Iter_segments a)
        = Iter_segments a ! Iter_segIdx a # drop (Suc (Iter_segIdx a)) (Iter_segments a)"
      using wf by (simp add: iter_wf_def Cons_nth_drop_Suc)
    with lt wf e show False by (auto simp: iter_wf_def iter_rest_def)
  qed
  then show ?thesis by (simp add: ASPathIter_Next_def)
qed

lemma ASPathIter_Next_step:
  assumes wf: "iter_wf a" and r: "iter_rest a = x # xs"
  shows "\<exists>a'. ASPathIter_Next a = Inr (a', Some x) \<and> iter_wf a' \<and> iter_rest a' = xs"
proof -
  let ?i = "Iter_segIdx a" and ?j = "Iter_asValIdx a" and ?ss = "Iter_segments a"
  let ?s = "?ss ! ?i"
  have lt: "?i < length ?ss"
    using r by (cases "?i < length ?ss") (auto simp: iter_rest_def)
  then have d: "drop ?i ?ss = ?s # drop (Suc ?i) ?ss" by (simp add: Cons_nth_drop_Suc)
  have j: "?j < length (AS4_AS ?s)" using wf lt by (simp add: iter_wf_def)
  have split: "iter_rest a = (AS4_AS ?s ! ?j, Seg_Type (AS4_Base ?s)) #
      drop (Suc ?j) (seg_items ?s) @ concat (map seg_items (drop (Suc ?i) ?ss))"
  proof -
    have "drop ?j (seg_items ?s) = seg_items ?s ! ?j # drop (Suc ?j) (seg_items ?s)"
      using j by (simp add: Cons_nth_drop_Suc)
    then show ?thesis using j by (simp add: iter_rest_def d) (simp add: seg_items_def)
  qed
  define a' where "a' = (if Suc ?j \<ge> length (AS4_AS ?s) then a\<lparr>Iter_segIdx := ?i + 1, Iter_asValIdx := 0\<rparr>
                         else a\<lparr>Iter_asValIdx := ?j + 1\<rparr>)"
  have "ASPathIter_Next a = Inr (a', Some x)"
    using lt j split r wf by (simp add: ASPathIter_Next_def index_r_def a'_def iter_wf_def Let_def)
  moreover have "iter_wf a'"
    using wf lt by (auto simp: a'_def iter_wf_def list_all_length)
  moreover have "iter_rest a' = xs"
    using split r d j by (auto simp: a'_def iter_rest_def)
  ultimately show ?thesis by blast
qed

text \<open>A loop that calls \<open>Next\<close> until its flag is false, with a bound on the number of calls.\<close>

fun iter_drain :: "nat \<Rightarrow> ASPathIter \<Rightarrow> (u32 \<times> u8) list pres" where
  "iter_drain 0 a = Inl Diverges"
| "iter_drain (Suc n) a =
     bind_r (ASPathIter_Next a) (\<lambda>(a', r). case r of
       None \<Rightarrow> Inr []
     | Some x \<Rightarrow> bind_r (iter_drain n a') (\<lambda>xs. Inr (x # xs)))"

lemma iter_drain_rest:
  "iter_wf a \<Longrightarrow> length (iter_rest a) < n \<Longrightarrow> iter_drain n a = Inr (iter_rest a)"
proof (induction n arbitrary: a)
  case 0
  then show ?case by simp
next
  case (Suc n)
  show ?case
  proof (cases "iter_rest a")
    case Nil
    then show ?thesis using Suc.prems ASPathIter_Next_end by simp
  next
    case (Cons x xs)
    then obtain a' where "ASPathIter_Next a = Inr (a', Some x)" "iter_wf a'" "iter_rest a' = xs"
      using Suc.prems ASPathIter_Next_step by blast
    then show ?thesis using Suc.IH [of a'] Suc.prems Cons by simp
  qed
qed

lemma as4_segments_Some: "as4_segments v = Some ss \<longleftrightarrow> v = map Seg4 ss"
  by (induction v arbitrary: ss rule: as4_segments.induct) auto

lemma iter_all_ases:
  assumes "list_all (\<lambda>s. AS4_AS s \<noteq> []) ss"
  shows "\<exists>a. NewASPathIter (map Seg4 ss) = Some a \<and>
           iter_drain (Suc (length (concat (map AS4_AS ss)))) a = Inr (concat (map seg_items ss))"
proof -
  let ?a = "\<lparr>Iter_segments = ss, Iter_segmentLen = length ss, Iter_segIdx = 0, Iter_asValIdx = 0\<rparr>"
  have "as4_segments (map Seg4 ss) = Some ss" by (simp add: as4_segments_Some)
  then have new: "NewASPathIter (map Seg4 ss) = Some ?a" by (simp add: NewASPathIter_def)
  moreover have "iter_wf ?a" using assms by (cases ss) (auto simp: iter_wf_def)
  moreover have "iter_rest ?a = concat (map seg_items ss)" by (simp add: iter_rest_def)
  moreover have "length (concat (map seg_items ss)) = length (concat (map AS4_AS ss))"
    by (simp add: length_concat comp_def)
  ultimately show ?thesis using iter_drain_rest [of ?a "Suc (length (concat (map AS4_AS ss)))"] by simp
qed

end
