(* ===== verification/PathAttr.thy ===== *)
theory PathAttr
  imports MpBgp AsPath
begin

text \<open>
  The path attributes of an UPDATE (bgp/packet/bgp.go): one record per attribute with the common header, its
  constructor, \<open>Encode\<close> and \<open>Decode\<close>, and the interface \<open>BGPPathAttr\<close> that dispatches on the type code.
  A \<open>Clone\<close> copies an object deeply; objects are values here, so a clone is the object itself.
\<close>

section \<open>Attributes with a fixed body\<close>

abbreviation (input) BGPPathAttrOriginMax :: u8 where "BGPPathAttrOriginMax \<equiv> 3"

record BGPPathAttrOrigin =
  Origin_Base :: BGPPathAttrBase
  Origin_Value :: u8

definition BGPPathAttrOrigin_Encode :: "BGPPathAttrOrigin \<Rightarrow> bytes pres" where
  "BGPPathAttrOrigin_Encode o1 =
     bind_r (BGPPathAttrBase_Encode (Origin_Base o1)) (\<lambda>pkt.
     set_r pkt (unat (BGPPathAttrLen (Origin_Base o1))) (Origin_Value o1))"

definition BGPPathAttrOrigin_Decode :: "bytes \<Rightarrow> BGPPathAttrOrigin pres" where
  "BGPPathAttrOrigin_Decode pkt =
     bind_r (BGPPathAttrBase_Decode pkt) (\<lambda>b.
     bind_r (index_r pkt (unat (BGPPathAttrLen b))) (\<lambda>v.
     if v \<ge> BGPPathAttrOriginMax then attr_error BGPMalformedAttrList b pkt
     else Inr \<lparr>Origin_Base = b, Origin_Value = v\<rparr>))"

definition NewBGPPathAttrOrigin :: "u8 \<Rightarrow> BGPPathAttrOrigin" where
  "NewBGPPathAttrOrigin originType =
     \<lparr>Origin_Base = \<lparr>Flags = 0x40, Code = BGPPathAttrTypeOrigin, Attr_Length = 1, BGPPathAttrLen = 3\<rparr>,
      Origin_Value = originType\<rparr>"

record BGPPathAttrNextHop =
  NextHop_Base :: BGPPathAttrBase
  NextHop_Value :: bytes

text \<open>\<open>pkt[pa.BGPPathAttrLen : pa.BGPPathAttrLen+pa.Length]\<close>: the sum is a \<open>uint16\<close>.\<close>

definition attr_body :: "BGPPathAttrBase \<Rightarrow> bytes \<Rightarrow> bytes pres" where
  "attr_body b pkt = slice_r pkt (unat (BGPPathAttrLen b)) (unat (BGPPathAttrLen b + Attr_Length b))"

text \<open>\<open>v = make([]byte, pa.Length); copy(v, pkt[...])\<close>\<close>

definition attr_body_copy :: "BGPPathAttrBase \<Rightarrow> bytes \<Rightarrow> bytes pres" where
  "attr_body_copy b pkt = bind_r (attr_body b pkt) (\<lambda>s. copy_r (replicate (unat (Attr_Length b)) 0) 0 s)"

definition BGPPathAttrNextHop_Encode :: "BGPPathAttrNextHop \<Rightarrow> bytes pres" where
  "BGPPathAttrNextHop_Encode n =
     bind_r (BGPPathAttrBase_Encode (NextHop_Base n)) (\<lambda>pkt.
     bind_r (last_bytes (NextHop_Value n) (unat (Attr_Length (NextHop_Base n)))) (\<lambda>v.
     copy_r pkt (unat (BGPPathAttrLen (NextHop_Base n))) v))"

definition BGPPathAttrNextHop_Decode :: "bytes \<Rightarrow> BGPPathAttrNextHop pres" where
  "BGPPathAttrNextHop_Decode pkt =
     bind_r (BGPPathAttrBase_Decode pkt) (\<lambda>b.
     bind_r (attr_body_copy b pkt) (\<lambda>v. Inr \<lparr>NextHop_Base = b, NextHop_Value = v\<rparr>))"

definition NewBGPPathAttrNextHop :: BGPPathAttrNextHop where
  "NewBGPPathAttrNextHop =
     \<lparr>NextHop_Base = \<lparr>Flags = 0x40, Code = BGPPathAttrTypeNextHop, Attr_Length = 4, BGPPathAttrLen = 3\<rparr>,
      NextHop_Value = []\<rparr>"

record BGPPathAttrMultiExitDisc =
  MED_Base :: BGPPathAttrBase
  MED_Value :: u32

definition BGPPathAttrMultiExitDisc_Encode :: "BGPPathAttrMultiExitDisc \<Rightarrow> bytes pres" where
  "BGPPathAttrMultiExitDisc_Encode m =
     bind_r (BGPPathAttrBase_Encode (MED_Base m)) (\<lambda>pkt.
     put_r pkt (unat (BGPPathAttrLen (MED_Base m))) (be32 (MED_Value m)))"

definition BGPPathAttrMultiExitDisc_Decode :: "bytes \<Rightarrow> BGPPathAttrMultiExitDisc pres" where
  "BGPPathAttrMultiExitDisc_Decode pkt =
     bind_r (BGPPathAttrBase_Decode pkt) (\<lambda>b.
     bind_r (bind_r (attr_body b pkt) get32) (\<lambda>v. Inr \<lparr>MED_Base = b, MED_Value = v\<rparr>))"

definition NewBGPPathAttrMultiExitDisc :: BGPPathAttrMultiExitDisc where
  "NewBGPPathAttrMultiExitDisc =
     \<lparr>MED_Base = \<lparr>Flags = 0x80, Code = BGPPathAttrTypeMultiExitDisc, Attr_Length = 4, BGPPathAttrLen = 3\<rparr>,
      MED_Value = 0\<rparr>"

record BGPPathAttrLocalPref =
  LocalPref_Base :: BGPPathAttrBase
  LocalPref_Value :: u32

definition BGPPathAttrLocalPref_Encode :: "BGPPathAttrLocalPref \<Rightarrow> bytes pres" where
  "BGPPathAttrLocalPref_Encode l =
     bind_r (BGPPathAttrBase_Encode (LocalPref_Base l)) (\<lambda>pkt.
     put_r pkt (unat (BGPPathAttrLen (LocalPref_Base l))) (be32 (LocalPref_Value l)))"

definition BGPPathAttrLocalPref_Decode :: "bytes \<Rightarrow> BGPPathAttrLocalPref pres" where
  "BGPPathAttrLocalPref_Decode pkt =
     bind_r (BGPPathAttrBase_Decode pkt) (\<lambda>b.
     bind_r (bind_r (attr_body b pkt) get32) (\<lambda>v. Inr \<lparr>LocalPref_Base = b, LocalPref_Value = v\<rparr>))"

definition NewBGPPathAttrLocalPref :: BGPPathAttrLocalPref where
  "NewBGPPathAttrLocalPref =
     \<lparr>LocalPref_Base = \<lparr>Flags = BGPPathAttrFlagTransitive, Code = BGPPathAttrTypeLocalPref, Attr_Length = 4,
                        BGPPathAttrLen = 3\<rparr>,
      LocalPref_Value = 0\<rparr>"

text \<open>\<open>BGPPathAttrAtomicAggregate\<close> is its header: its codec is the promoted one.\<close>

record BGPPathAttrAtomicAggregate =
  Atomic_Base :: BGPPathAttrBase

definition BGPPathAttrAtomicAggregate_Decode :: "bytes \<Rightarrow> BGPPathAttrAtomicAggregate pres" where
  "BGPPathAttrAtomicAggregate_Decode pkt = bind_r (BGPPathAttrBase_Decode pkt) (\<lambda>b. Inr \<lparr>Atomic_Base = b\<rparr>)"

definition NewBGPPathAttrAtomicAggregate :: BGPPathAttrAtomicAggregate where
  "NewBGPPathAttrAtomicAggregate =
     \<lparr>Atomic_Base = \<lparr>Flags = BGPPathAttrFlagTransitive, Code = BGPPathAttrTypeAtomicAggregate, Attr_Length = 0,
                     BGPPathAttrLen = 3\<rparr>\<rparr>"

section \<open>Aggregators\<close>

datatype BGPAggregatorAS = Agg2 u16 | Agg4 u32

fun BGPAggregatorAS_Encode :: "BGPAggregatorAS \<Rightarrow> bytes \<Rightarrow> nat \<Rightarrow> bytes pres" where
  "BGPAggregatorAS_Encode (Agg2 a) pkt off = put_r pkt off (be16 a)"
| "BGPAggregatorAS_Encode (Agg4 a) pkt off = put_r pkt off (be32 a)"

definition BGPAggregator2ByteAS_Decode :: "bytes \<Rightarrow> u16 pres" where
  "BGPAggregator2ByteAS_Decode pkt =
     (if length pkt < 2 then msg_error BGPUpdateMsgError BGPAttrLenError [] else bind_r (slice_r pkt 0 2) get16)"

definition BGPAggregator4ByteAS_Decode :: "bytes \<Rightarrow> u32 pres" where
  "BGPAggregator4ByteAS_Decode pkt = bind_r (slice_r pkt 0 4) get32"

fun BGPAggregatorAS_GetLen :: "BGPAggregatorAS \<Rightarrow> u16" where
  "BGPAggregatorAS_GetLen (Agg2 a) = 2"
| "BGPAggregatorAS_GetLen (Agg4 a) = 4"

fun BGPAggregatorAS_GetAS :: "BGPAggregatorAS \<Rightarrow> u32" where
  "BGPAggregatorAS_GetAS (Agg2 a) = ucast a"
| "BGPAggregatorAS_GetAS (Agg4 a) = a"

text \<open>The field \<open>AS\<close> is an interface that is nil until it is set; calling a method of nil panics.\<close>

record BGPPathAttrAggregator =
  Agg_Base :: BGPPathAttrBase
  Agg_AS :: "BGPAggregatorAS option"
  Agg_IP :: bytes

definition BGPPathAttrAggregator_Encode :: "BGPPathAttrAggregator \<Rightarrow> bytes pres" where
  "BGPPathAttrAggregator_Encode a =
     bind_r (BGPPathAttrBase_Encode (Agg_Base a)) (\<lambda>pkt.
     case Agg_AS a of
       None \<Rightarrow> Inl Panic
     | Some as \<Rightarrow>
         bind_r (BGPAggregatorAS_Encode as pkt (unat (BGPPathAttrLen (Agg_Base a)))) (\<lambda>pkt.
         copy_r pkt (unat (BGPPathAttrLen (Agg_Base a) + BGPAggregatorAS_GetLen as)) (Agg_IP a)))"

definition BGPPathAttrAggregator_Decode :: "bytes \<Rightarrow> BGPPeerAttrs \<Rightarrow> BGPPathAttrAggregator pres" where
  "BGPPathAttrAggregator_Decode pkt peerAttrs =
     bind_r (BGPPathAttrBase_Decode pkt) (\<lambda>b.
     if Attr_Length b < ucast (PeerASSize peerAttrs + 4) then attr_error BGPAttrLenError b pkt
     else
       bind_r (slice_from pkt (unat (BGPPathAttrLen b))) (\<lambda>s.
       bind_r (if PeerASSize peerAttrs = 2
               then bind_r (BGPAggregator2ByteAS_Decode s) (\<lambda>a. Inr (Agg2 a))
               else bind_r (BGPAggregator4ByteAS_Decode s) (\<lambda>a. Inr (Agg4 a))) (\<lambda>as.
       bind_r (slice_from pkt (unat (BGPPathAttrLen b + BGPAggregatorAS_GetLen as))) (\<lambda>t.
       bind_r (copy_r (replicate 4 0) 0 t) (\<lambda>ip.
       Inr \<lparr>Agg_Base = b, Agg_AS = Some as, Agg_IP = ip\<rparr>)))))"

definition BGPPathAttrAggregator_SetBGPAggregatorAS ::
    "BGPPathAttrAggregator \<Rightarrow> BGPAggregatorAS \<Rightarrow> BGPPathAttrAggregator" where
  "BGPPathAttrAggregator_SetBGPAggregatorAS a as =
     a\<lparr>Agg_AS := Some as,
       Agg_Base := (Agg_Base a)\<lparr>Attr_Length := Attr_Length (Agg_Base a) + BGPAggregatorAS_GetLen as\<rparr>\<rparr>"

definition NewBGPPathAttrAggregator :: BGPPathAttrAggregator where
  "NewBGPPathAttrAggregator =
     \<lparr>Agg_Base = \<lparr>Flags = BGPPathAttrFlagTransitive OR BGPPathAttrFlagOptional, Code = BGPPathAttrTypeAggregator,
                  Attr_Length = 4, BGPPathAttrLen = 3\<rparr>,
      Agg_AS = None, Agg_IP = []\<rparr>"

record BGPPathAttrAS4Aggregator =
  Agg4_Base :: BGPPathAttrBase
  Agg4_AS :: "u32 option"
  Agg4_IP :: bytes

definition BGPPathAttrAS4Aggregator_Encode :: "BGPPathAttrAS4Aggregator \<Rightarrow> bytes pres" where
  "BGPPathAttrAS4Aggregator_Encode a =
     bind_r (BGPPathAttrBase_Encode (Agg4_Base a)) (\<lambda>pkt.
     case Agg4_AS a of
       None \<Rightarrow> Inl Panic
     | Some as \<Rightarrow>
         bind_r (BGPAggregatorAS_Encode (Agg4 as) pkt (unat (BGPPathAttrLen (Agg4_Base a)))) (\<lambda>pkt.
         copy_r pkt (unat (BGPPathAttrLen (Agg4_Base a) + 4)) (Agg4_IP a)))"

definition BGPPathAttrAS4Aggregator_Decode :: "bytes \<Rightarrow> BGPPathAttrAS4Aggregator pres" where
  "BGPPathAttrAS4Aggregator_Decode pkt =
     bind_r (BGPPathAttrBase_Decode pkt) (\<lambda>b.
     bind_r (slice_from pkt (unat (BGPPathAttrLen b))) (\<lambda>s.
     bind_r (BGPAggregator4ByteAS_Decode s) (\<lambda>as.
     bind_r (slice_from pkt (unat (BGPPathAttrLen b + 4))) (\<lambda>t.
     bind_r (copy_r (replicate 4 0) 0 t) (\<lambda>ip.
     Inr \<lparr>Agg4_Base = b, Agg4_AS = Some as, Agg4_IP = ip\<rparr>)))))"

definition NewBGPPathAttrAS4Aggregator :: BGPPathAttrAS4Aggregator where
  "NewBGPPathAttrAS4Aggregator =
     \<lparr>Agg4_Base = \<lparr>Flags = BGPPathAttrFlagTransitive OR BGPPathAttrFlagOptional,
                   Code = BGPPathAttrTypeAS4Aggregator, Attr_Length = 4 + 4, BGPPathAttrLen = 3\<rparr>,
      Agg4_AS = Some 0, Agg4_IP = []\<rparr>"

section \<open>Route reflection and unknown attributes\<close>

record BGPPathAttrOriginatorId =
  OrigId_Base :: BGPPathAttrBase
  OrigId_Value :: bytes

definition BGPPathAttrOriginatorId_Encode :: "BGPPathAttrOriginatorId \<Rightarrow> bytes pres" where
  "BGPPathAttrOriginatorId_Encode o1 =
     bind_r (BGPPathAttrBase_Encode (OrigId_Base o1)) (\<lambda>pkt.
     copy_r pkt (unat (BGPPathAttrLen (OrigId_Base o1))) (OrigId_Value o1))"

definition BGPPathAttrOriginatorId_Decode :: "bytes \<Rightarrow> BGPPathAttrOriginatorId pres" where
  "BGPPathAttrOriginatorId_Decode pkt =
     bind_r (BGPPathAttrBase_Decode pkt) (\<lambda>b.
     bind_r (attr_body_copy b pkt) (\<lambda>v. Inr \<lparr>OrigId_Base = b, OrigId_Value = v\<rparr>))"

definition NewBGPPathAttrOriginatorId :: "bytes \<Rightarrow> BGPPathAttrOriginatorId" where
  "NewBGPPathAttrOriginatorId ident =
     \<lparr>OrigId_Base = \<lparr>Flags = BGPPathAttrFlagOptional, Code = BGPPathAttrTypeOriginatorId, Attr_Length = 4,
                     BGPPathAttrLen = 3\<rparr>,
      OrigId_Value = ident\<rparr>"

record BGPPathAttrClusterList =
  Cluster_Base :: BGPPathAttrBase
  Cluster_Value :: "u32 list"

text \<open>The index of the loops is a \<open>uint16\<close>, and so are the offsets computed from it.\<close>

fun put_clusters :: "u16 \<Rightarrow> u32 list \<Rightarrow> bytes \<Rightarrow> bytes pres" where
  "put_clusters off [] pkt = Inr pkt"
| "put_clusters off (c # cs) pkt = bind_r (put_r pkt (unat off) (be32 c)) (\<lambda>pkt. put_clusters (off + 4) cs pkt)"

fun get_clusters :: "u16 \<Rightarrow> nat \<Rightarrow> bytes \<Rightarrow> u32 list pres" where
  "get_clusters off 0 pkt = Inr []"
| "get_clusters off (Suc n) pkt =
     bind_r (bind_r (slice_r pkt (unat off) (unat (off + 4))) get32) (\<lambda>c.
     bind_r (get_clusters (off + 4) n pkt) (\<lambda>cs. Inr (c # cs)))"

definition BGPPathAttrClusterList_Encode :: "BGPPathAttrClusterList \<Rightarrow> bytes pres" where
  "BGPPathAttrClusterList_Encode c =
     bind_r (BGPPathAttrBase_Encode (Cluster_Base c)) (\<lambda>pkt.
     put_clusters (BGPPathAttrLen (Cluster_Base c))
       (take (unat (of_nat (length (Cluster_Value c)) :: u16)) (Cluster_Value c)) pkt)"

definition BGPPathAttrClusterList_Decode :: "bytes \<Rightarrow> BGPPathAttrClusterList pres" where
  "BGPPathAttrClusterList_Decode pkt =
     bind_r (BGPPathAttrBase_Decode pkt) (\<lambda>b.
     bind_r (get_clusters (BGPPathAttrLen b) (unat (Attr_Length b div 4)) pkt) (\<lambda>cs.
     Inr \<lparr>Cluster_Base = b, Cluster_Value = cs\<rparr>))"

definition BGPPathAttrClusterList_PrependId :: "BGPPathAttrClusterList \<Rightarrow> u32 \<Rightarrow> BGPPathAttrClusterList" where
  "BGPPathAttrClusterList_PrependId c ident =
     c\<lparr>Cluster_Value := ident # Cluster_Value c,
       Cluster_Base := (Cluster_Base c)\<lparr>Attr_Length := Attr_Length (Cluster_Base c) + 4\<rparr>\<rparr>"

definition NewBGPPathAttrClusterList :: BGPPathAttrClusterList where
  "NewBGPPathAttrClusterList =
     \<lparr>Cluster_Base = \<lparr>Flags = BGPPathAttrFlagOptional, Code = BGPPathAttrTypeClusterList, Attr_Length = 0,
                      BGPPathAttrLen = 3\<rparr>,
      Cluster_Value = []\<rparr>"

record BGPPathAttrUnknown =
  Unknown_Base :: BGPPathAttrBase
  Unknown_Value :: bytes

definition BGPPathAttrUnknown_Encode :: "BGPPathAttrUnknown \<Rightarrow> bytes pres" where
  "BGPPathAttrUnknown_Encode u =
     bind_r (BGPPathAttrBase_Encode (Unknown_Base u)) (\<lambda>pkt.
     copy_r pkt (unat (BGPPathAttrLen (Unknown_Base u))) (Unknown_Value u))"

definition BGPPathAttrUnknown_Decode :: "bytes \<Rightarrow> BGPPathAttrUnknown pres" where
  "BGPPathAttrUnknown_Decode pkt =
     bind_r (BGPPathAttrBase_Decode pkt) (\<lambda>b.
     bind_r (attr_body_copy b pkt) (\<lambda>v. Inr \<lparr>Unknown_Base = b, Unknown_Value = v\<rparr>))"

section \<open>AS paths\<close>

record BGPPathAttrASPath =
  ASPath_Base :: BGPPathAttrBase
  ASPath_Value :: "BGPASPathSegment list"
  ASPath_ASSize :: u8

text \<open>
  \<open>for _, val := range as.Value { val.Encode(pkt[length:]); length += val.TotalLen() }\<close>; \<open>length\<close> is a
  \<open>uint16\<close>.
\<close>

fun put_segs :: "('s \<Rightarrow> bytes \<Rightarrow> bytes pres) \<Rightarrow> ('s \<Rightarrow> u16) \<Rightarrow> u16 \<Rightarrow> 's list \<Rightarrow> bytes \<Rightarrow> bytes pres" where
  "put_segs enc len off [] pkt = Inr pkt"
| "put_segs enc len off (s # ss) pkt =
     bind_r (on_slice (enc s) pkt (unat off)) (\<lambda>pkt. put_segs enc len (off + len s) ss pkt)"

definition BGPPathAttrASPath_Encode :: "BGPPathAttrASPath \<Rightarrow> bytes pres" where
  "BGPPathAttrASPath_Encode as =
     bind_r (BGPPathAttrBase_Encode (ASPath_Base as)) (\<lambda>pkt.
     put_segs Seg_Encode Seg_TotalLen (BGPPathAttrLen (ASPath_Base as)) (ASPath_Value as) pkt)"

text \<open>
  The loop that reads segments up to \<open>end_off\<close>. A segment that cannot be decoded ends the loop with \<open>return nil\<close>,
  keeping the segments before it; a segment of size 0 keeps the cursor where it is, so the loop never ends.
\<close>

function segs_loop ::
    "(bytes \<Rightarrow> 's pres) \<Rightarrow> ('s \<Rightarrow> u16) \<Rightarrow> nat \<Rightarrow> bytes \<Rightarrow> nat \<Rightarrow> 's list \<Rightarrow> 's list pres" where
  "segs_loop dec len end_off pkt ptr acc =
     (if ptr < end_off then
        bind_r (slice_from pkt ptr) (\<lambda>s.
        case dec s of
          Inl (Error _) \<Rightarrow> Inr acc
        | Inl f \<Rightarrow> Inl f
        | Inr seg \<Rightarrow>
            let ptr' = ptr + unat (len seg) in
            if len seg = 0 then Inl Diverges
            else if ptr' > end_off then msg_error BGPUpdateMsgError BGPAttrLenError pkt
            else segs_loop dec len end_off pkt ptr' (acc @ [seg]))
      else if ptr \<noteq> end_off then msg_error BGPUpdateMsgError BGPAttrLenError pkt
      else Inr acc)"
  by pat_completeness auto
termination
  by (relation "measure (\<lambda>(dec, len, end_off, pkt, ptr, acc). end_off - ptr)") (auto intro!: diff_less_mono2)

declare segs_loop.simps [simp del]

definition BGPPathAttrASPath_Decode :: "bytes \<Rightarrow> BGPPeerAttrs \<Rightarrow> BGPPathAttrASPath pres" where
  "BGPPathAttrASPath_Decode pkt peerAttrs =
     bind_r (BGPPathAttrBase_Decode pkt) (\<lambda>b.
     bind_r (segs_loop (Seg_Decode (new_seg (PeerASSize peerAttrs))) Seg_TotalLen
               (unat (Attr_Length b) + unat (BGPPathAttrLen b)) pkt (unat (BGPPathAttrLen b)) []) (\<lambda>v.
     Inr \<lparr>ASPath_Base = b, ASPath_Value = v, ASPath_ASSize = PeerASSize peerAttrs\<rparr>))"

definition BGPPathAttrASPath_PrependASPathSegment :: "BGPPathAttrASPath \<Rightarrow> BGPASPathSegment \<Rightarrow> BGPPathAttrASPath" where
  "BGPPathAttrASPath_PrependASPathSegment as seg =
     as\<lparr>ASPath_Value := seg # ASPath_Value as,
        ASPath_Base := (ASPath_Base as)\<lparr>Attr_Length := Attr_Length (ASPath_Base as) + Seg_TotalLen seg\<rparr>\<rparr>"

definition BGPPathAttrASPath_AppendASPathSegment :: "BGPPathAttrASPath \<Rightarrow> BGPASPathSegment \<Rightarrow> BGPPathAttrASPath" where
  "BGPPathAttrASPath_AppendASPathSegment as seg =
     as\<lparr>ASPath_Value := ASPath_Value as @ [seg],
        ASPath_Base := (ASPath_Base as)\<lparr>Attr_Length := Attr_Length (ASPath_Base as) + Seg_TotalLen seg\<rparr>\<rparr>"

definition NewBGPPathAttrASPath :: BGPPathAttrASPath where
  "NewBGPPathAttrASPath =
     \<lparr>ASPath_Base = \<lparr>Flags = 0x50, Code = BGPPathAttrTypeASPath, Attr_Length = 0, BGPPathAttrLen = 4\<rparr>,
      ASPath_Value = [], ASPath_ASSize = 0\<rparr>"

record BGPPathAttrAS4Path =
  AS4Path_Base :: BGPPathAttrBase
  AS4Path_Value :: "BGPAS4PathSegment list"

definition seg4_TotalLen :: "BGPAS4PathSegment \<Rightarrow> u16" where
  "seg4_TotalLen s = Seg_Len (AS4_Base s)"

definition BGPPathAttrAS4Path_Encode :: "BGPPathAttrAS4Path \<Rightarrow> bytes pres" where
  "BGPPathAttrAS4Path_Encode as =
     bind_r (BGPPathAttrBase_Encode (AS4Path_Base as)) (\<lambda>pkt.
     put_segs BGPAS4PathSegment_Encode seg4_TotalLen (BGPPathAttrLen (AS4Path_Base as)) (AS4Path_Value as) pkt)"

definition BGPPathAttrAS4Path_Decode :: "bytes \<Rightarrow> BGPPathAttrAS4Path pres" where
  "BGPPathAttrAS4Path_Decode pkt =
     bind_r (BGPPathAttrBase_Decode pkt) (\<lambda>b.
     bind_r (segs_loop (BGPAS4PathSegment_Decode NewBGPAS4PathSegmentSeq) seg4_TotalLen
               (unat (Attr_Length b) + unat (BGPPathAttrLen b)) pkt (unat (BGPPathAttrLen b)) []) (\<lambda>v.
     Inr \<lparr>AS4Path_Base = b, AS4Path_Value = v\<rparr>))"

definition BGPPathAttrAS4Path_AddASPathSegment :: "BGPPathAttrAS4Path \<Rightarrow> BGPAS4PathSegment \<Rightarrow> BGPPathAttrAS4Path" where
  "BGPPathAttrAS4Path_AddASPathSegment as seg =
     as\<lparr>AS4Path_Value := seg # AS4Path_Value as,
        AS4Path_Base := (AS4Path_Base as)\<lparr>Attr_Length := Attr_Length (AS4Path_Base as) + seg4_TotalLen seg\<rparr>\<rparr>"

text \<open>\<open>NewBGPPathAttrAS4Path\<close> carries the type code of AS_PATH, as the source does.\<close>

definition NewBGPPathAttrAS4Path :: BGPPathAttrAS4Path where
  "NewBGPPathAttrAS4Path =
     \<lparr>AS4Path_Base = \<lparr>Flags = BGPPathAttrFlagOptional OR BGPPathAttrFlagTransitive, Code = BGPPathAttrTypeASPath,
                      Attr_Length = 0, BGPPathAttrLen = 4\<rparr>,
      AS4Path_Value = []\<rparr>"

text \<open>\<open>CloneAsAS4Path\<close>: a two-byte segment fails the type assertion.\<close>

definition CloneAsAS4Path :: "BGPPathAttrASPath \<Rightarrow> BGPPathAttrAS4Path pres" where
  "CloneAsAS4Path as =
     (case as4_segments (ASPath_Value as) of
        None \<Rightarrow> Inl Panic
      | Some segs \<Rightarrow>
          let b = AS4Path_Base NewBGPPathAttrAS4Path in
          Inr \<lparr>AS4Path_Base = b\<lparr>Attr_Length := Attr_Length (ASPath_Base as),
                                 BGPPathAttrLen := BGPPathAttrLen b + of_nat (length (ASPath_Value as) * 4)\<rparr>,
               AS4Path_Value = segs\<rparr>)"

section \<open>The attribute interface\<close>

datatype BGPPathAttr =
    PA_Origin BGPPathAttrOrigin
  | PA_ASPath BGPPathAttrASPath
  | PA_NextHop BGPPathAttrNextHop
  | PA_MultiExitDisc BGPPathAttrMultiExitDisc
  | PA_LocalPref BGPPathAttrLocalPref
  | PA_AtomicAggregate BGPPathAttrAtomicAggregate
  | PA_Aggregator BGPPathAttrAggregator
  | PA_OriginatorId BGPPathAttrOriginatorId
  | PA_ClusterList BGPPathAttrClusterList
  | PA_MPReachNLRI BGPPathAttrMPReachNLRI
  | PA_MPUnreachNLRI BGPPathAttrMPUnreachNLRI
  | PA_AS4Path BGPPathAttrAS4Path
  | PA_AS4Aggregator BGPPathAttrAS4Aggregator
  | PA_Unknown BGPPathAttrUnknown

fun PA_base :: "BGPPathAttr \<Rightarrow> BGPPathAttrBase" where
  "PA_base (PA_Origin a) = Origin_Base a"
| "PA_base (PA_ASPath a) = ASPath_Base a"
| "PA_base (PA_NextHop a) = NextHop_Base a"
| "PA_base (PA_MultiExitDisc a) = MED_Base a"
| "PA_base (PA_LocalPref a) = LocalPref_Base a"
| "PA_base (PA_AtomicAggregate a) = Atomic_Base a"
| "PA_base (PA_Aggregator a) = Agg_Base a"
| "PA_base (PA_OriginatorId a) = OrigId_Base a"
| "PA_base (PA_ClusterList a) = Cluster_Base a"
| "PA_base (PA_MPReachNLRI a) = Reach_Base a"
| "PA_base (PA_MPUnreachNLRI a) = Unreach_Base a"
| "PA_base (PA_AS4Path a) = AS4Path_Base a"
| "PA_base (PA_AS4Aggregator a) = Agg4_Base a"
| "PA_base (PA_Unknown a) = Unknown_Base a"

definition PA_TotalLen :: "BGPPathAttr \<Rightarrow> u32" where
  "PA_TotalLen pa = BGPPathAttrBase_TotalLen (PA_base pa)"

definition PA_GetCode :: "BGPPathAttr \<Rightarrow> u8" where
  "PA_GetCode pa = Code (PA_base pa)"

fun PA_Encode :: "BGPPathAttr \<Rightarrow> bytes pres" where
  "PA_Encode (PA_Origin a) = BGPPathAttrOrigin_Encode a"
| "PA_Encode (PA_ASPath a) = BGPPathAttrASPath_Encode a"
| "PA_Encode (PA_NextHop a) = BGPPathAttrNextHop_Encode a"
| "PA_Encode (PA_MultiExitDisc a) = BGPPathAttrMultiExitDisc_Encode a"
| "PA_Encode (PA_LocalPref a) = BGPPathAttrLocalPref_Encode a"
| "PA_Encode (PA_AtomicAggregate a) = BGPPathAttrBase_Encode (Atomic_Base a)"
| "PA_Encode (PA_Aggregator a) = BGPPathAttrAggregator_Encode a"
| "PA_Encode (PA_OriginatorId a) = BGPPathAttrOriginatorId_Encode a"
| "PA_Encode (PA_ClusterList a) = BGPPathAttrClusterList_Encode a"
| "PA_Encode (PA_MPReachNLRI a) = BGPPathAttrMPReachNLRI_Encode a"
| "PA_Encode (PA_MPUnreachNLRI a) = BGPPathAttrMPUnreachNLRI_Encode a"
| "PA_Encode (PA_AS4Path a) = BGPPathAttrAS4Path_Encode a"
| "PA_Encode (PA_AS4Aggregator a) = BGPPathAttrAS4Aggregator_Encode a"
| "PA_Encode (PA_Unknown a) = BGPPathAttrUnknown_Encode a"

text \<open>
  \<open>BGPGetPathAttr(pkt)\<close> reads the type code at \<open>pkt[1]\<close> and allocates the attribute it selects; its
  \<open>Decode(pkt, data)\<close> follows at every call. \<open>attr_of_code\<close> is the dispatch.
\<close>

definition attr_of_code :: "u8 \<Rightarrow> bytes \<Rightarrow> BGPPeerAttrs \<Rightarrow> BGPPathAttr pres" where
  "attr_of_code code pkt peerAttrs =
     (if code = BGPPathAttrTypeOrigin then bind_r (BGPPathAttrOrigin_Decode pkt) (\<lambda>a. Inr (PA_Origin a))
      else if code = BGPPathAttrTypeASPath then bind_r (BGPPathAttrASPath_Decode pkt peerAttrs) (\<lambda>a. Inr (PA_ASPath a))
      else if code = BGPPathAttrTypeNextHop then bind_r (BGPPathAttrNextHop_Decode pkt) (\<lambda>a. Inr (PA_NextHop a))
      else if code = BGPPathAttrTypeMultiExitDisc then bind_r (BGPPathAttrMultiExitDisc_Decode pkt) (\<lambda>a. Inr (PA_MultiExitDisc a))
      else if code = BGPPathAttrTypeLocalPref then bind_r (BGPPathAttrLocalPref_Decode pkt) (\<lambda>a. Inr (PA_LocalPref a))
      else if code = BGPPathAttrTypeAtomicAggregate then bind_r (BGPPathAttrAtomicAggregate_Decode pkt) (\<lambda>a. Inr (PA_AtomicAggregate a))
      else if code = BGPPathAttrTypeAggregator then bind_r (BGPPathAttrAggregator_Decode pkt peerAttrs) (\<lambda>a. Inr (PA_Aggregator a))
      else if code = BGPPathAttrTypeOriginatorId then bind_r (BGPPathAttrOriginatorId_Decode pkt) (\<lambda>a. Inr (PA_OriginatorId a))
      else if code = BGPPathAttrTypeClusterList then bind_r (BGPPathAttrClusterList_Decode pkt) (\<lambda>a. Inr (PA_ClusterList a))
      else if code = BGPPathAttrTypeMPReachNLRI then bind_r (BGPPathAttrMPReachNLRI_Decode pkt peerAttrs) (\<lambda>a. Inr (PA_MPReachNLRI a))
      else if code = BGPPathAttrTypeMPUnreachNLRI then bind_r (BGPPathAttrMPUnreachNLRI_Decode pkt peerAttrs) (\<lambda>a. Inr (PA_MPUnreachNLRI a))
      else if code = BGPPathAttrTypeAS4Path then bind_r (BGPPathAttrAS4Path_Decode pkt) (\<lambda>a. Inr (PA_AS4Path a))
      else if code = BGPPathAttrTypeAS4Aggregator then bind_r (BGPPathAttrAS4Aggregator_Decode pkt) (\<lambda>a. Inr (PA_AS4Aggregator a))
      else bind_r (BGPPathAttrUnknown_Decode pkt) (\<lambda>a. Inr (PA_Unknown a)))"

definition PA_Decode :: "BGPPeerAttrs \<Rightarrow> bytes \<Rightarrow> BGPPathAttr pres" where
  "PA_Decode peerAttrs pkt = bind_r (index_r pkt 1) (\<lambda>code. attr_of_code code pkt peerAttrs)"

section \<open>Each attribute decodes to what was encoded\<close>

text \<open>
  The shape of every encoding: the header, then as many bytes as it declares, and the decoder gives the
  attribute back whatever follows.
\<close>

definition codec_ok ::
    "BGPPathAttrBase \<Rightarrow> ('a \<Rightarrow> bytes pres) \<Rightarrow> (bytes \<Rightarrow> 'a pres) \<Rightarrow> 'a \<Rightarrow> bool" where
  "codec_ok b enc dec a \<longleftrightarrow>
     (\<exists>body. enc a = Inr (hdr_bytes b @ body) \<and> length body = unat (Attr_Length b) \<and>
             (\<forall>rest. dec (hdr_bytes b @ body @ rest) = Inr a))"

lemma codec_okI:
  assumes "enc a = Inr (hdr_bytes b @ body)" "length body = unat (Attr_Length b)"
    and "\<And>rest. dec (hdr_bytes b @ body @ rest) = Inr a"
  shows "codec_ok b enc dec a"
  using assms by (auto simp: codec_ok_def)

lemma wf_attr_hdr_dec:
  "wf_attr_hdr b \<Longrightarrow> length body = unat (Attr_Length b) \<Longrightarrow>
   BGPPathAttrBase_Decode (hdr_bytes b @ body @ rest) = Inr b"
  by (simp add: wf_attr_hdr_def BGPPathAttrBase_Decode_hdr)

lemma wf_attr_hdr_enc:
  "wf_attr_hdr b \<Longrightarrow> BGPPathAttrBase_Encode b = Inr (hdr_bytes b @ replicate (unat (Attr_Length b)) 0)"
  by (simp add: wf_attr_hdr_def BGPPathAttrBase_Encode_wf)

lemma wf_attr_hdr_len: "wf_attr_hdr b \<Longrightarrow> unat (BGPPathAttrLen b) = length (hdr_bytes b)"
  by (simp add: wf_attr_hdr_def length_hdr_bytes)

lemma wf_attr_hdr_sum:
  "wf_attr_hdr b \<Longrightarrow> unat (BGPPathAttrLen b + k) = length (hdr_bytes b) + unat k"
  if "unat k \<le> unat (Attr_Length b)"
  using that unat_add_small [of "BGPPathAttrLen b" k]
  by (simp add: wf_attr_hdr_len) (simp add: wf_attr_hdr_def hdr_no_overflow_def length_hdr_bytes)

lemma attr_body_hdr:
  "wf_attr_hdr b \<Longrightarrow> length body = unat (Attr_Length b) \<Longrightarrow> attr_body b (hdr_bytes b @ body @ rest) = Inr body"
  by (simp add: attr_body_def wf_attr_hdr_sum wf_attr_hdr_len) (simp add: slice_r_def)

lemma attr_body_copy_hdr:
  "wf_attr_hdr b \<Longrightarrow> length body = unat (Attr_Length b) \<Longrightarrow> attr_body_copy b (hdr_bytes b @ body @ rest) = Inr body"
  by (simp add: attr_body_copy_def attr_body_hdr copy_r_def)

lemma fill_copy:
  "length v = n \<Longrightarrow> copy_r (h @ replicate n 0) (length h) v = (Inr (h @ v) :: bytes pres)"
  using copy_r_mid [of "replicate n 0" v h "[]", where ?'b = pkt_error] by simp

lemma fill_put:
  "length v = n \<Longrightarrow> put_r (h @ replicate n 0) (length h) v = (Inr (h @ v) :: bytes pres)"
  using put_r_mid [of "replicate n 0" v h "[]", where ?'b = pkt_error] by simp

lemmas hdr_simps = wf_attr_hdr_dec wf_attr_hdr_enc wf_attr_hdr_len attr_body_hdr attr_body_copy_hdr fill_copy fill_put

lemma origin_codec:
  assumes "wf_attr_hdr (Origin_Base a)" "Attr_Length (Origin_Base a) = 1" "Origin_Value a < 3"
  shows "codec_ok (Origin_Base a) BGPPathAttrOrigin_Encode BGPPathAttrOrigin_Decode a"
proof (rule codec_okI [where body = "[Origin_Value a]"])
  show "BGPPathAttrOrigin_Encode a = Inr (hdr_bytes (Origin_Base a) @ [Origin_Value a])"
    using assms by (simp add: BGPPathAttrOrigin_Encode_def hdr_simps set_r_def list_update_append)
  show "BGPPathAttrOrigin_Decode (hdr_bytes (Origin_Base a) @ [Origin_Value a] @ rest) = Inr a" for rest
    using assms wf_attr_hdr_dec [of "Origin_Base a" "[Origin_Value a]" rest]
    by (simp add: BGPPathAttrOrigin_Decode_def hdr_simps index_r_def nth_append linorder_not_le [THEN iffD2, OF assms(3)])
qed (simp add: assms)

lemma nexthop_codec:
  assumes "wf_attr_hdr (NextHop_Base a)" "length (NextHop_Value a) = unat (Attr_Length (NextHop_Base a))"
  shows "codec_ok (NextHop_Base a) BGPPathAttrNextHop_Encode BGPPathAttrNextHop_Decode a"
  using assms
  by (intro codec_okI [where body = "NextHop_Value a"])
     (simp_all add: BGPPathAttrNextHop_Encode_def BGPPathAttrNextHop_Decode_def hdr_simps last_bytes_def)

lemma med_codec:
  assumes "wf_attr_hdr (MED_Base a)" "Attr_Length (MED_Base a) = 4"
  shows "codec_ok (MED_Base a) BGPPathAttrMultiExitDisc_Encode BGPPathAttrMultiExitDisc_Decode a"
  using assms
  by (intro codec_okI [where body = "be32 (MED_Value a)"])
     (simp_all add: BGPPathAttrMultiExitDisc_Encode_def BGPPathAttrMultiExitDisc_Decode_def hdr_simps
       del: replicate_numeral)

lemma localpref_codec:
  assumes "wf_attr_hdr (LocalPref_Base a)" "Attr_Length (LocalPref_Base a) = 4"
  shows "codec_ok (LocalPref_Base a) BGPPathAttrLocalPref_Encode BGPPathAttrLocalPref_Decode a"
  using assms
  by (intro codec_okI [where body = "be32 (LocalPref_Value a)"])
     (simp_all add: BGPPathAttrLocalPref_Encode_def BGPPathAttrLocalPref_Decode_def hdr_simps
       del: replicate_numeral)

lemma atomic_codec:
  assumes "wf_attr_hdr (Atomic_Base a)" "Attr_Length (Atomic_Base a) = 0"
  shows "codec_ok (Atomic_Base a) (\<lambda>a. BGPPathAttrBase_Encode (Atomic_Base a)) BGPPathAttrAtomicAggregate_Decode a"
  using assms wf_attr_hdr_dec [of "Atomic_Base a" "[]"]
  by (intro codec_okI [where body = "[]"])
     (simp_all add: BGPPathAttrAtomicAggregate_Decode_def hdr_simps)

lemma originatorid_codec:
  assumes "wf_attr_hdr (OrigId_Base a)" "length (OrigId_Value a) = unat (Attr_Length (OrigId_Base a))"
  shows "codec_ok (OrigId_Base a) BGPPathAttrOriginatorId_Encode BGPPathAttrOriginatorId_Decode a"
  using assms
  by (intro codec_okI [where body = "OrigId_Value a"])
     (simp_all add: BGPPathAttrOriginatorId_Encode_def BGPPathAttrOriginatorId_Decode_def hdr_simps)

lemma unknown_codec:
  assumes "wf_attr_hdr (Unknown_Base a)" "length (Unknown_Value a) = unat (Attr_Length (Unknown_Base a))"
  shows "codec_ok (Unknown_Base a) BGPPathAttrUnknown_Encode BGPPathAttrUnknown_Decode a"
  using assms
  by (intro codec_okI [where body = "Unknown_Value a"])
     (simp_all add: BGPPathAttrUnknown_Encode_def BGPPathAttrUnknown_Decode_def hdr_simps)

lemma copy4: "length ip = 4 \<Longrightarrow> copy_r (replicate 4 0) 0 (ip @ rest) = (Inr ip :: bytes pres)"
  by (simp add: copy_r_def del: replicate_numeral)

lemma put_then_copy:
  assumes "length v = n" "length w = m"
  shows "put_r (h @ replicate (n + m) 0) (length h) v = (Inr (h @ v @ replicate m 0) :: bytes pres)"
    and "copy_r (h @ v @ replicate m 0) (length h + n) w = (Inr (h @ v @ w) :: bytes pres)"
proof -
  show "put_r (h @ replicate (n + m) 0) (length h) v = (Inr (h @ v @ replicate m 0) :: bytes pres)"
    using assms put_r_mid [of "replicate n 0" v h "replicate m 0", where ?'b = pkt_error] by (simp add: replicate_add)
  show "copy_r (h @ v @ replicate m 0) (length h + n) w = (Inr (h @ v @ w) :: bytes pres)"
    using assms fill_copy [of w m "h @ v"] by simp
qed

fun agg_bytes :: "BGPAggregatorAS \<Rightarrow> bytes" where
  "agg_bytes (Agg2 a) = be16 a"
| "agg_bytes (Agg4 a) = be32 a"

lemma BGPAggregatorAS_Encode_put: "BGPAggregatorAS_Encode as pkt off = put_r pkt off (agg_bytes as)"
  by (cases as) simp_all

lemma length_agg_bytes: "length (agg_bytes as) = unat (BGPAggregatorAS_GetLen as)"
  by (cases as) simp_all

text \<open>The sizes of an AS number the session negotiates.\<close>

definition agg_matches :: "u8 \<Rightarrow> BGPAggregatorAS \<Rightarrow> bool" where
  "agg_matches asSize as \<longleftrightarrow> (case as of Agg2 _ \<Rightarrow> asSize = 2 | Agg4 _ \<Rightarrow> asSize = 4)"

lemma aggregator_codec:
  assumes "wf_attr_hdr (Agg_Base a)" "Agg_AS a = Some as" "agg_matches (PeerASSize peer) as"
    and "unat (Attr_Length (Agg_Base a)) = unat (BGPAggregatorAS_GetLen as) + 4" "length (Agg_IP a) = 4"
  shows "codec_ok (Agg_Base a) BGPPathAttrAggregator_Encode (\<lambda>p. BGPPathAttrAggregator_Decode p peer) a"
proof (rule codec_okI [where body = "agg_bytes as @ Agg_IP a"])
  let ?b = "Agg_Base a" and ?h = "hdr_bytes (Agg_Base a)"
  let ?n = "unat (BGPAggregatorAS_GetLen as)"
  have sum: "unat (BGPPathAttrLen ?b + BGPAggregatorAS_GetLen as) = length ?h + ?n"
    using assms by (intro wf_attr_hdr_sum) simp_all
  show "BGPPathAttrAggregator_Encode a = Inr (?h @ agg_bytes as @ Agg_IP a)"
    using put_then_copy [of "agg_bytes as" ?n "Agg_IP a" 4 ?h] assms
    by (simp add: BGPPathAttrAggregator_Encode_def BGPAggregatorAS_Encode_put sum length_agg_bytes
        wf_attr_hdr_enc wf_attr_hdr_len del: replicate_numeral)
  show l: "length (agg_bytes as @ Agg_IP a) = unat (Attr_Length ?b)"
    using assms by (simp add: length_agg_bytes)
  show "BGPPathAttrAggregator_Decode (?h @ (agg_bytes as @ Agg_IP a) @ rest) peer = Inr a" for rest
  proof -
    have "\<not> Attr_Length ?b < ucast (PeerASSize peer + 4)"
      using assms(3,4) by (cases as) (auto simp: agg_matches_def word_less_nat_alt)
    moreover have "slice_from (?h @ agg_bytes as @ Agg_IP a @ rest) (length ?h + ?n)
        = (Inr (Agg_IP a @ rest) :: bytes pres)"
      by (simp add: slice_from_def flip: length_agg_bytes)
    moreover have "BGPPathAttrBase_Decode (?h @ agg_bytes as @ Agg_IP a @ rest) = Inr ?b"
      using wf_attr_hdr_dec [OF assms(1) l, of rest] by simp
    ultimately show ?thesis
      using assms copy4 [of "Agg_IP a" rest] sum
      by (cases as)
         (simp_all add: BGPPathAttrAggregator_Decode_def wf_attr_hdr_len agg_matches_def
           BGPAggregator2ByteAS_Decode_def BGPAggregator4ByteAS_Decode_def slice_r_def del: replicate_numeral)
  qed
qed

lemma as4aggregator_codec:
  assumes "wf_attr_hdr (Agg4_Base a)" "Agg4_AS a = Some as" "Attr_Length (Agg4_Base a) = 8" "length (Agg4_IP a) = 4"
  shows "codec_ok (Agg4_Base a) BGPPathAttrAS4Aggregator_Encode BGPPathAttrAS4Aggregator_Decode a"
proof (rule codec_okI [where body = "be32 as @ Agg4_IP a"])
  let ?b = "Agg4_Base a" and ?h = "hdr_bytes (Agg4_Base a)"
  have sum: "unat (BGPPathAttrLen ?b + 4) = length ?h + 4"
    using wf_attr_hdr_sum [OF _ assms(1), of 4] assms(3) by simp
  show "BGPPathAttrAS4Aggregator_Encode a = Inr (?h @ be32 as @ Agg4_IP a)"
    using put_then_copy [of "be32 as" 4 "Agg4_IP a" 4 ?h] assms
    by (simp add: BGPPathAttrAS4Aggregator_Encode_def sum wf_attr_hdr_enc wf_attr_hdr_len del: replicate_numeral)
  show l: "length (be32 as @ Agg4_IP a) = unat (Attr_Length ?b)" using assms by simp
  show "BGPPathAttrAS4Aggregator_Decode (?h @ (be32 as @ Agg4_IP a) @ rest) = Inr a" for rest
  proof -
    have "slice_from (?h @ be32 as @ Agg4_IP a @ rest) (length ?h + 4) = (Inr (Agg4_IP a @ rest) :: bytes pres)"
      by (simp add: slice_from_def)
    moreover have "BGPPathAttrBase_Decode (?h @ be32 as @ Agg4_IP a @ rest) = Inr ?b"
      using wf_attr_hdr_dec [OF assms(1) l, of rest] by simp
    ultimately show ?thesis
      using assms copy4 [of "Agg4_IP a" rest] sum
      by (simp add: BGPPathAttrAS4Aggregator_Decode_def wf_attr_hdr_len
           BGPAggregator4ByteAS_Decode_def slice_r_def del: replicate_numeral)
  qed
qed

lemma put_clusters_fills:
  "unat off = length pre \<Longrightarrow> length pre + 4 * length cs < 65536 \<Longrightarrow> length old = 4 * length cs \<Longrightarrow>
   put_clusters off cs (pre @ old @ post) = Inr (pre @ concat (map be32 cs) @ post)"
proof (induction cs arbitrary: off pre old)
  case Nil
  then show ?case by simp
next
  case (Cons c cs)
  have "put_r (pre @ take 4 old @ drop 4 old @ post) (length pre) (be32 c)
      = (Inr (pre @ be32 c @ drop 4 old @ post) :: bytes pres)"
    using Cons.prems by (intro put_r_mid) simp
  then have p: "put_r (pre @ old @ post) (length pre) (be32 c) = (Inr (pre @ be32 c @ drop 4 old @ post) :: bytes pres)"
    by (metis append.assoc append_take_drop_id)
  have "unat (off + 4) = length (pre @ be32 c)"
    using Cons.prems by (simp add: unat_add_small)
  then have "put_clusters (off + 4) cs ((pre @ be32 c) @ drop 4 old @ post)
      = Inr ((pre @ be32 c) @ concat (map be32 cs) @ post)"
    by (rule Cons.IH) (use Cons.prems in simp_all)
  then show ?case using Cons.prems(1) p by simp
qed

lemma get_clusters_concat:
  "unat off = length pre \<Longrightarrow> length pre + 4 * length cs < 65536 \<Longrightarrow>
   get_clusters off (length cs) (pre @ concat (map be32 cs) @ post) = Inr cs"
proof (induction cs arbitrary: off pre)
  case Nil
  then show ?case by simp
next
  case (Cons c cs)
  have o4: "unat (off + 4) = length (pre @ be32 c)"
    using Cons.prems by (simp add: unat_add_small)
  then have "get_clusters (off + 4) (length cs) ((pre @ be32 c) @ concat (map be32 cs) @ post) = Inr cs"
    by (rule Cons.IH) (use Cons.prems in simp_all)
  moreover have "slice_r (pre @ be32 c @ concat (map be32 cs) @ post) (length pre) (length (pre @ be32 c))
      = (Inr (be32 c) :: bytes pres)"
    using slice_r_mid [of pre "be32 c" "concat (map be32 cs) @ post"] by simp
  ultimately show ?case using Cons.prems(1) o4 by simp
qed

lemma cluster_codec:
  assumes "wf_attr_hdr (Cluster_Base a)" "unat (Attr_Length (Cluster_Base a)) = 4 * length (Cluster_Value a)"
  shows "codec_ok (Cluster_Base a) BGPPathAttrClusterList_Encode BGPPathAttrClusterList_Decode a"
proof (rule codec_okI [where body = "concat (map be32 (Cluster_Value a))"])
  let ?b = "Cluster_Base a" and ?h = "hdr_bytes (Cluster_Base a)" and ?v = "Cluster_Value a"
  have lt: "length ?h + 4 * length ?v < 65536"
    using assms by (simp add: wf_attr_hdr_def hdr_no_overflow_def length_hdr_bytes)
  have "take (unat (of_nat (length ?v) :: u16)) ?v = ?v"
    using lt by (simp add: unsigned_of_nat take_bit_nat_eq_self)
  then show "BGPPathAttrClusterList_Encode a = Inr (?h @ concat (map be32 ?v))"
    using assms lt put_clusters_fills [of "BGPPathAttrLen ?b" ?h ?v "replicate (4 * length ?v) 0" "[]"]
    by (simp add: BGPPathAttrClusterList_Encode_def wf_attr_hdr_enc wf_attr_hdr_len)
  show l: "length (concat (map be32 ?v)) = unat (Attr_Length ?b)"
    using assms as4.length_concat_enc by simp
  have "unat (Attr_Length ?b div 4) = length ?v" using assms(2) by (simp add: unat_div)
  then show "BGPPathAttrClusterList_Decode (?h @ concat (map be32 ?v) @ rest) = Inr a" for rest
    using get_clusters_concat [of "BGPPathAttrLen ?b" ?h ?v rest] lt assms(1) wf_attr_hdr_dec [OF assms(1) l]
    by (simp add: BGPPathAttrClusterList_Decode_def wf_attr_hdr_len)
qed

text \<open>The contract between an AS path attribute and its segments, for both kinds of path.\<close>

locale seg_codec =
  fixes enc :: "'s \<Rightarrow> bytes \<Rightarrow> bytes pres"
    and dec :: "bytes \<Rightarrow> 's pres"
    and len :: "'s \<Rightarrow> u16"
    and bytes_of :: "'s \<Rightarrow> bytes"
    and wf :: "'s \<Rightarrow> bool"
  assumes fills: "wf s \<Longrightarrow> length old = length (bytes_of s) \<Longrightarrow> enc s (old @ post) = Inr (bytes_of s @ post)"
    and decodes: "wf s \<Longrightarrow> dec (bytes_of s @ post) = Inr s"
    and size: "wf s \<Longrightarrow> length (bytes_of s) = unat (len s)"
    and pos: "wf s \<Longrightarrow> len s \<noteq> 0"
begin

lemma put_segs_fills:
  "list_all wf ss \<Longrightarrow> unat off = length pre \<Longrightarrow> length old = length (concat (map bytes_of ss)) \<Longrightarrow>
   length pre + length (concat (map bytes_of ss)) < 65536 \<Longrightarrow>
   put_segs enc len off ss (pre @ old @ post) = Inr (pre @ concat (map bytes_of ss) @ post)"
proof (induction ss arbitrary: off pre old)
  case Nil
  then show ?case by simp
next
  case (Cons s ss)
  let ?n = "length (bytes_of s)"
  have s: "wf s" and ss: "list_all wf ss" using Cons.prems by auto
  have "enc s (take ?n old @ drop ?n old @ post) = Inr (bytes_of s @ drop ?n old @ post)"
    using Cons.prems by (intro fills [OF s]) simp
  then have "on_slice (enc s) (pre @ take ?n old @ drop ?n old @ post) (length pre)
      = Inr (pre @ bytes_of s @ drop ?n old @ post)"
    by (rule on_slice_mid)
  then have e: "on_slice (enc s) (pre @ old @ post) (length pre) = Inr (pre @ bytes_of s @ drop ?n old @ post)"
    by (metis append.assoc append_take_drop_id)
  have "unat (off + len s) = length (pre @ bytes_of s)"
    using Cons.prems size [OF s] by (simp add: unat_add_small)
  then have "put_segs enc len (off + len s) ss ((pre @ bytes_of s) @ drop ?n old @ post)
      = Inr ((pre @ bytes_of s) @ concat (map bytes_of ss) @ post)"
    using Cons.prems by (intro Cons.IH [OF ss]) simp_all
  then show ?case using Cons.prems(2) e by simp
qed

lemma segs_loop_concat:
  "list_all wf ss \<Longrightarrow>
   segs_loop dec len (length pre + length (concat (map bytes_of ss)))
     (pre @ concat (map bytes_of ss) @ post) (length pre) acc = Inr (acc @ ss)"
proof (induction ss arbitrary: pre acc)
  case Nil
  then show ?case by (simp add: segs_loop.simps)
next
  case (Cons s ss)
  let ?rest = "concat (map bytes_of ss)"
  have s: "wf s" and ss: "list_all wf ss" using Cons.prems by auto
  have "segs_loop dec len (length (pre @ bytes_of s) + length ?rest) ((pre @ bytes_of s) @ ?rest @ post)
      (length (pre @ bytes_of s)) (acc @ [s]) = Inr ((acc @ [s]) @ ss)"
    by (rule Cons.IH [OF ss])
  then show ?case
    using decodes [OF s, of "?rest @ post"] size [OF s] pos [OF s]
    by (subst segs_loop.simps) (simp add: Let_def add.assoc)
qed

end

interpretation path_seg: seg_codec Seg_Encode "Seg_Decode (new_seg n)" Seg_TotalLen seg_bytes
  "\<lambda>s. wf_seg s \<and> seg_width_ok n s" for n
  using Seg_TotalLen_pos
  by unfold_locales (fastforce simp: Seg_Encode_fills Seg_Decode_bytes length_seg_bytes)+

interpretation as4_seg: seg_codec BGPAS4PathSegment_Encode "BGPAS4PathSegment_Decode NewBGPAS4PathSegmentSeq"
  seg4_TotalLen seg4_bytes wf_seg4
  by unfold_locales
     (auto simp: BGPAS4PathSegment_Encode_fills BGPAS4PathSegment_Decode_bytes length_seg4_bytes wf_seg4_def
       seg4_TotalLen_def)

lemma aspath_codec:
  assumes "wf_attr_hdr (ASPath_Base a)" "ASPath_ASSize a = PeerASSize peer"
    and segs: "list_all (\<lambda>s. wf_seg s \<and> seg_width_ok (PeerASSize peer) s) (ASPath_Value a)"
    and l: "unat (Attr_Length (ASPath_Base a)) = length (concat (map seg_bytes (ASPath_Value a)))"
  shows "codec_ok (ASPath_Base a) BGPPathAttrASPath_Encode (\<lambda>p. BGPPathAttrASPath_Decode p peer) a"
proof (rule codec_okI [where body = "concat (map seg_bytes (ASPath_Value a))"])
  let ?b = "ASPath_Base a" and ?h = "hdr_bytes (ASPath_Base a)" and ?v = "concat (map seg_bytes (ASPath_Value a))"
  have "length ?h + length ?v < 65536"
    using assms by (simp add: wf_attr_hdr_def hdr_no_overflow_def length_hdr_bytes)
  then show "BGPPathAttrASPath_Encode a = Inr (?h @ ?v)"
    using path_seg.put_segs_fills [OF segs, of "BGPPathAttrLen ?b" ?h "replicate (length ?v) 0" "[]"] assms(1) l
    by (simp add: BGPPathAttrASPath_Encode_def wf_attr_hdr_enc wf_attr_hdr_len)
  show "length ?v = unat (Attr_Length ?b)" using l by simp
  then show "BGPPathAttrASPath_Decode (?h @ ?v @ rest) peer = Inr a" for rest
    using path_seg.segs_loop_concat [OF segs, of ?h rest "[]"] wf_attr_hdr_dec [OF assms(1)] assms(1,2)
    by (simp add: BGPPathAttrASPath_Decode_def wf_attr_hdr_len add.commute)
qed

lemma as4path_codec:
  assumes "wf_attr_hdr (AS4Path_Base a)" and segs: "list_all wf_seg4 (AS4Path_Value a)"
    and l: "unat (Attr_Length (AS4Path_Base a)) = length (concat (map seg4_bytes (AS4Path_Value a)))"
  shows "codec_ok (AS4Path_Base a) BGPPathAttrAS4Path_Encode BGPPathAttrAS4Path_Decode a"
proof (rule codec_okI [where body = "concat (map seg4_bytes (AS4Path_Value a))"])
  let ?b = "AS4Path_Base a" and ?h = "hdr_bytes (AS4Path_Base a)" and ?v = "concat (map seg4_bytes (AS4Path_Value a))"
  have "length ?h + length ?v < 65536"
    using assms by (simp add: wf_attr_hdr_def hdr_no_overflow_def length_hdr_bytes)
  then show "BGPPathAttrAS4Path_Encode a = Inr (?h @ ?v)"
    using as4_seg.put_segs_fills [OF segs, of "BGPPathAttrLen ?b" ?h "replicate (length ?v) 0" "[]"] assms(1) l
    by (simp add: BGPPathAttrAS4Path_Encode_def wf_attr_hdr_enc wf_attr_hdr_len)
  show "length ?v = unat (Attr_Length ?b)" using l by simp
  then show "BGPPathAttrAS4Path_Decode (?h @ ?v @ rest) = Inr a" for rest
    using as4_seg.segs_loop_concat [OF segs, of ?h rest "[]"] wf_attr_hdr_dec [OF assms(1)] assms(1)
    by (simp add: BGPPathAttrAS4Path_Decode_def wf_attr_hdr_len add.commute)
qed

section \<open>The attribute interface as a codec\<close>

definition known_codes :: "u8 set" where
  "known_codes = {1, 2, 3, 4, 5, 6, 7, 9, 10, 14, 15, 17, 18}"

fun wf_attr :: "BGPPeerAttrs \<Rightarrow> BGPPathAttr \<Rightarrow> bool" where
  "wf_attr peer (PA_Origin a) \<longleftrightarrow> wf_attr_hdr (Origin_Base a) \<and> Code (Origin_Base a) = BGPPathAttrTypeOrigin \<and>
     Attr_Length (Origin_Base a) = 1 \<and> Origin_Value a < BGPPathAttrOriginMax"
| "wf_attr peer (PA_ASPath a) \<longleftrightarrow> wf_attr_hdr (ASPath_Base a) \<and> Code (ASPath_Base a) = BGPPathAttrTypeASPath \<and>
     ASPath_ASSize a = PeerASSize peer \<and>
     list_all (\<lambda>s. wf_seg s \<and> seg_width_ok (PeerASSize peer) s) (ASPath_Value a) \<and>
     unat (Attr_Length (ASPath_Base a)) = length (concat (map seg_bytes (ASPath_Value a)))"
| "wf_attr peer (PA_NextHop a) \<longleftrightarrow> wf_attr_hdr (NextHop_Base a) \<and> Code (NextHop_Base a) = BGPPathAttrTypeNextHop \<and>
     length (NextHop_Value a) = unat (Attr_Length (NextHop_Base a))"
| "wf_attr peer (PA_MultiExitDisc a) \<longleftrightarrow> wf_attr_hdr (MED_Base a) \<and> Code (MED_Base a) = BGPPathAttrTypeMultiExitDisc \<and>
     Attr_Length (MED_Base a) = 4"
| "wf_attr peer (PA_LocalPref a) \<longleftrightarrow> wf_attr_hdr (LocalPref_Base a) \<and> Code (LocalPref_Base a) = BGPPathAttrTypeLocalPref \<and>
     Attr_Length (LocalPref_Base a) = 4"
| "wf_attr peer (PA_AtomicAggregate a) \<longleftrightarrow> wf_attr_hdr (Atomic_Base a) \<and>
     Code (Atomic_Base a) = BGPPathAttrTypeAtomicAggregate \<and> Attr_Length (Atomic_Base a) = 0"
| "wf_attr peer (PA_Aggregator a) \<longleftrightarrow> wf_attr_hdr (Agg_Base a) \<and> Code (Agg_Base a) = BGPPathAttrTypeAggregator \<and>
     (case Agg_AS a of None \<Rightarrow> False
      | Some as \<Rightarrow> agg_matches (PeerASSize peer) as \<and>
          unat (Attr_Length (Agg_Base a)) = unat (BGPAggregatorAS_GetLen as) + 4) \<and> length (Agg_IP a) = 4"
| "wf_attr peer (PA_OriginatorId a) \<longleftrightarrow> wf_attr_hdr (OrigId_Base a) \<and> Code (OrigId_Base a) = BGPPathAttrTypeOriginatorId \<and>
     length (OrigId_Value a) = unat (Attr_Length (OrigId_Base a))"
| "wf_attr peer (PA_ClusterList a) \<longleftrightarrow> wf_attr_hdr (Cluster_Base a) \<and> Code (Cluster_Base a) = BGPPathAttrTypeClusterList \<and>
     unat (Attr_Length (Cluster_Base a)) = 4 * length (Cluster_Value a)"
| "wf_attr peer (PA_MPReachNLRI a) \<longleftrightarrow> wf_reach (AddPathsRxActual peer) a \<and> Code (Reach_Base a) = BGPPathAttrTypeMPReachNLRI"
| "wf_attr peer (PA_MPUnreachNLRI a) \<longleftrightarrow> wf_unreach (AddPathsRxActual peer) a \<and>
     Code (Unreach_Base a) = BGPPathAttrTypeMPUnreachNLRI"
| "wf_attr peer (PA_AS4Path a) \<longleftrightarrow> wf_attr_hdr (AS4Path_Base a) \<and> Code (AS4Path_Base a) = BGPPathAttrTypeAS4Path \<and>
     list_all wf_seg4 (AS4Path_Value a) \<and>
     unat (Attr_Length (AS4Path_Base a)) = length (concat (map seg4_bytes (AS4Path_Value a)))"
| "wf_attr peer (PA_AS4Aggregator a) \<longleftrightarrow> wf_attr_hdr (Agg4_Base a) \<and> Code (Agg4_Base a) = BGPPathAttrTypeAS4Aggregator \<and>
     Agg4_AS a \<noteq> None \<and> Attr_Length (Agg4_Base a) = 8 \<and> length (Agg4_IP a) = 4"
| "wf_attr peer (PA_Unknown a) \<longleftrightarrow> wf_attr_hdr (Unknown_Base a) \<and> Code (Unknown_Base a) \<notin> known_codes \<and>
     length (Unknown_Value a) = unat (Attr_Length (Unknown_Base a))"

lemma wf_attr_hdr_of: "wf_attr peer pa \<Longrightarrow> wf_attr_hdr (PA_base pa)"
  by (cases pa) (auto simp: wf_reach_def wf_unreach_def)

lemma reach_codec:
  assumes wf: "wf_reach (AddPathsRxActual peer) a"
  shows "codec_ok (Reach_Base a) BGPPathAttrMPReachNLRI_Encode (\<lambda>p. BGPPathAttrMPReachNLRI_Decode p peer) a"
proof -
  obtain nh bs where nh: "Reach_NextHop a = Some nh" and l: "length bs = nlri_total (Reach_NLRI a)" and
    e: "BGPPathAttrMPReachNLRI_Encode a =
           Inr (hdr_bytes (Reach_Base a) @ be16 (Reach_AFI a) @ Reach_SAFI a # nh_bytes nh @ 0 # bs)"
    using BGPPathAttrMPReachNLRI_Encode_wf [OF wf] by metis
  show ?thesis
  proof (rule codec_okI [where body = "be16 (Reach_AFI a) @ Reach_SAFI a # nh_bytes nh @ 0 # bs"])
    show "length (be16 (Reach_AFI a) @ Reach_SAFI a # nh_bytes nh @ 0 # bs) = unat (Attr_Length (Reach_Base a))"
      using wf nh l by (auto simp: wf_reach_def length_nh_bytes)
    show "BGPPathAttrMPReachNLRI_Decode (hdr_bytes (Reach_Base a) @
        (be16 (Reach_AFI a) @ Reach_SAFI a # nh_bytes nh @ 0 # bs) @ rest) peer = Inr a" for rest
      using BGPPathAttrMPReachNLRI_roundtrip [OF wf e, of rest] by simp
  qed (rule e)
qed

lemma unreach_codec:
  assumes wf: "wf_unreach (AddPathsRxActual peer) a"
  shows "codec_ok (Unreach_Base a) BGPPathAttrMPUnreachNLRI_Encode (\<lambda>p. BGPPathAttrMPUnreachNLRI_Decode p peer) a"
proof -
  obtain bs where l: "length bs = nlri_total (Unreach_NLRI a)" and
    e: "BGPPathAttrMPUnreachNLRI_Encode a
          = Inr (hdr_bytes (Unreach_Base a) @ be16 (Unreach_AFI a) @ Unreach_SAFI a # bs)"
    using BGPPathAttrMPUnreachNLRI_Encode_wf [OF wf] by metis
  show ?thesis
  proof (rule codec_okI [where body = "be16 (Unreach_AFI a) @ Unreach_SAFI a # bs"])
    show "length (be16 (Unreach_AFI a) @ Unreach_SAFI a # bs) = unat (Attr_Length (Unreach_Base a))"
      using wf l by (auto simp: wf_unreach_def)
    show "BGPPathAttrMPUnreachNLRI_Decode (hdr_bytes (Unreach_Base a) @
        (be16 (Unreach_AFI a) @ Unreach_SAFI a # bs) @ rest) peer = Inr a" for rest
      using BGPPathAttrMPUnreachNLRI_roundtrip [OF wf e, of rest] by simp
  qed (rule e)
qed

text \<open>The codec of an attribute carries over to the interface once its type code selects it.\<close>

lemma codec_ok_lift:
  assumes "codec_ok b enc dec a" "wf_attr_hdr b"
    and "\<And>pkt. attr_of_code (Code b) pkt peer = bind_r (dec pkt) (\<lambda>x. Inr (C x))"
    and "PA_Encode (C a) = enc a"
  shows "codec_ok b PA_Encode (PA_Decode peer) (C a)"
proof -
  have "index_r (hdr_bytes b @ r) 1 = (Inr (Code b) :: u8 pres)" for r
    by (simp add: hdr_bytes_def)
  then show ?thesis using assms(1,3,4) by (auto simp: codec_ok_def PA_Decode_def)
qed

lemma wf_attr_codec: "wf_attr peer pa \<Longrightarrow> codec_ok (PA_base pa) PA_Encode (PA_Decode peer) pa"
proof (cases pa)
  case (PA_Origin a)
  then show "wf_attr peer pa \<Longrightarrow> ?thesis"
    by (auto intro!: codec_ok_lift [OF origin_codec] simp: attr_of_code_def)
next
  case (PA_ASPath a)
  then show "wf_attr peer pa \<Longrightarrow> ?thesis"
    by (auto intro!: codec_ok_lift [OF aspath_codec] simp: attr_of_code_def)
next
  case (PA_NextHop a)
  then show "wf_attr peer pa \<Longrightarrow> ?thesis"
    by (auto intro!: codec_ok_lift [OF nexthop_codec] simp: attr_of_code_def)
next
  case (PA_MultiExitDisc a)
  then show "wf_attr peer pa \<Longrightarrow> ?thesis"
    by (auto intro!: codec_ok_lift [OF med_codec] simp: attr_of_code_def)
next
  case (PA_LocalPref a)
  then show "wf_attr peer pa \<Longrightarrow> ?thesis"
    by (auto intro!: codec_ok_lift [OF localpref_codec] simp: attr_of_code_def)
next
  case (PA_AtomicAggregate a)
  then show "wf_attr peer pa \<Longrightarrow> ?thesis"
    by (auto intro!: codec_ok_lift [OF atomic_codec] simp: attr_of_code_def)
next
  case (PA_Aggregator a)
  then show "wf_attr peer pa \<Longrightarrow> ?thesis"
    by (auto intro!: codec_ok_lift [OF aggregator_codec] simp: attr_of_code_def split: option.splits)
next
  case (PA_OriginatorId a)
  then show "wf_attr peer pa \<Longrightarrow> ?thesis"
    by (auto intro!: codec_ok_lift [OF originatorid_codec] simp: attr_of_code_def)
next
  case (PA_ClusterList a)
  then show "wf_attr peer pa \<Longrightarrow> ?thesis"
    by (auto intro!: codec_ok_lift [OF cluster_codec] simp: attr_of_code_def)
next
  case (PA_MPReachNLRI a)
  then show "wf_attr peer pa \<Longrightarrow> ?thesis"
    by (auto intro!: codec_ok_lift [OF reach_codec] simp: attr_of_code_def wf_reach_def)
next
  case (PA_MPUnreachNLRI a)
  then show "wf_attr peer pa \<Longrightarrow> ?thesis"
    by (auto intro!: codec_ok_lift [OF unreach_codec] simp: attr_of_code_def wf_unreach_def)
next
  case (PA_AS4Path a)
  then show "wf_attr peer pa \<Longrightarrow> ?thesis"
    by (auto intro!: codec_ok_lift [OF as4path_codec] simp: attr_of_code_def)
next
  case (PA_AS4Aggregator a)
  then show "wf_attr peer pa \<Longrightarrow> ?thesis"
    by (auto intro!: codec_ok_lift [OF as4aggregator_codec] simp: attr_of_code_def)
next
  case (PA_Unknown a)
  then show "wf_attr peer pa \<Longrightarrow> ?thesis"
    by (auto intro!: codec_ok_lift [OF unknown_codec] simp: attr_of_code_def known_codes_def)
qed

interpretation attr_codec: tlv PA_Encode "PA_Decode peer" "\<lambda>pa. unat (PA_TotalLen pa)" "wf_attr peer" for peer
proof unfold_locales
  fix pa assume wf: "wf_attr peer pa"
  obtain body where e: "PA_Encode pa = Inr (hdr_bytes (PA_base pa) @ body)"
    and l: "length body = unat (Attr_Length (PA_base pa))"
    and d: "\<And>rest. PA_Decode peer (hdr_bytes (PA_base pa) @ body @ rest) = Inr pa"
    using wf_attr_codec [OF wf] by (auto simp: codec_ok_def)
  have t: "unat (PA_TotalLen pa) = length (hdr_bytes (PA_base pa)) + length body"
    using wf_attr_hdr_of [OF wf] l by (simp add: PA_TotalLen_def wf_attr_hdr_def hdr_wf_TotalLen)
  show "\<exists>bs. PA_Encode pa = Inr bs \<and> length bs = unat (PA_TotalLen pa)" using e t by simp
  show "0 < unat (PA_TotalLen pa)" unfolding t by (simp add: hdr_bytes_def)
  show "PA_Decode peer (bs @ rest) = Inr pa" if "PA_Encode pa = Inr bs" for bs rest
    using that e d by auto
qed

section \<open>Decoding an attribute never faults\<close>

text \<open>
  \<open>no_fault r\<close>: the call returned, with a value or with an error. The lemmas below give it for every
  attribute that has a guard in front of each access; the multiprotocol attributes do not.
\<close>

definition no_fault :: "'a pres \<Rightarrow> bool" where
  "no_fault r \<longleftrightarrow> r \<noteq> Inl Panic \<and> r \<noteq> Inl Diverges"

lemma no_fault_Inr [simp]: "no_fault (Inr x)"
  by (simp add: no_fault_def)

lemma no_fault_Error [simp]: "no_fault (Inl (Error e))"
  by (simp add: no_fault_def)

lemma no_fault_msg_error [simp]: "no_fault (msg_error t s d)"
  by (simp add: no_fault_def)

lemma no_fault_bind: "no_fault r \<Longrightarrow> (\<And>x. r = Inr x \<Longrightarrow> no_fault (f x)) \<Longrightarrow> no_fault (bind_r r f)"
  by (cases r) (auto simp: no_fault_def)

lemma no_fault_map [simp]: "no_fault (bind_r r (\<lambda>x. Inr (C x))) \<longleftrightarrow> no_fault r"
  by (cases r) (auto simp: no_fault_def)

lemma no_fault_attr_error: "unat (BGPPathAttrBase_TotalLen b) \<le> length pkt \<Longrightarrow> no_fault (attr_error sub b pkt)"
  by (simp add: attr_error_def slice_r_def)

lemma segs_loop_no_fault:
  assumes safe: "\<And>s f. dec s = Inl f \<Longrightarrow> \<exists>e. f = Error e"
    and pos: "\<And>s x. dec s = Inr x \<Longrightarrow> len x \<noteq> 0"
    and "end_off \<le> length pkt"
  shows "no_fault (segs_loop dec len end_off pkt ptr acc)"
proof (induction "end_off - ptr" arbitrary: ptr acc rule: less_induct)
  case less
  show ?case
  proof (cases "ptr < end_off")
    case False
    then show ?thesis by (subst segs_loop.simps) simp
  next
    case True
    then have s: "slice_from pkt ptr = (Inr (drop ptr pkt) :: bytes pres)"
      using assms(3) by (simp add: slice_from_def)
    show ?thesis
    proof (cases "dec (drop ptr pkt)")
      case (Inl f)
      then show ?thesis using safe [OF Inl] s True by (subst segs_loop.simps) auto
    next
      case (Inr x)
      have "end_off - (ptr + unat (len x)) < end_off - ptr"
        using True pos [OF Inr] by (simp add: diff_less_mono2)
      then show ?thesis
        using less.hyps [of "ptr + unat (len x)"] pos [OF Inr] s True Inr
        by (subst segs_loop.simps) (simp add: Let_def)
    qed
  qed
qed

text \<open>A header whose length field is below 65532, as it must be in a message of at most 65535 bytes.\<close>

definition attr_len_ok :: "bytes \<Rightarrow> bool" where
  "attr_len_ok pkt \<longleftrightarrow> (\<forall>b. base_header pkt = Inr b \<longrightarrow> hdr_no_overflow b)"

lemma base_decode_cases:
  assumes "attr_len_ok pkt"
  obtains (err) e where "BGPPathAttrBase_Decode pkt = Inl (Error e)"
  | (ok) b body rest where "BGPPathAttrBase_Decode pkt = Inr b" "wf_attr_hdr b"
      "pkt = hdr_bytes b @ body @ rest" "length body = unat (Attr_Length b)"
  using BGPPathAttrBase_Decode_safe [of pkt] assms by (auto simp: attr_len_ok_def wf_attr_hdr_def)

text \<open>To show that a decoder does not fault: look at it on a packet that holds a whole attribute.\<close>

lemma no_fault_attrI:
  assumes "attr_len_ok pkt"
    and "\<And>b body rest. wf_attr_hdr b \<Longrightarrow> length body = unat (Attr_Length b) \<Longrightarrow> pkt = hdr_bytes b @ body @ rest \<Longrightarrow>
       no_fault (f b)"
  shows "no_fault (bind_r (BGPPathAttrBase_Decode pkt) f)"
  using assms(1) by (cases rule: base_decode_cases) (auto intro: assms(2))

lemma TotalLen_le:
  "wf_attr_hdr b \<Longrightarrow> length body = unat (Attr_Length b) \<Longrightarrow>
   unat (BGPPathAttrBase_TotalLen b) \<le> length (hdr_bytes b @ body @ rest)"
  by (simp add: wf_attr_hdr_def hdr_wf_TotalLen)

lemma no_fault_origin: "attr_len_ok pkt \<Longrightarrow> pkt ! 1 = 1 \<Longrightarrow> no_fault (BGPPathAttrOrigin_Decode pkt)"
  unfolding BGPPathAttrOrigin_Decode_def
proof (rule no_fault_attrI)
  fix b body rest
  assume wf: "wf_attr_hdr b" and l: "length body = unat (Attr_Length b)" and pkt: "pkt = hdr_bytes b @ body @ rest"
    and "pkt ! 1 = 1"
  then have "Code b = 1" by (simp add: hdr_bytes_def)
  then have "Attr_Length b = 1" using wf by (simp add: wf_attr_hdr_def hdr_accepted_def BGPPathAttrTypeLenMap_def)
  then obtain v where "body = [v]" using l by (cases body) auto
  then show "no_fault (bind_r (index_r pkt (unat (BGPPathAttrLen b))) (\<lambda>v.
     if v \<ge> 3 then attr_error 1 b pkt else Inr \<lparr>Origin_Base = b, Origin_Value = v\<rparr>))"
    using TotalLen_le [OF wf l, of rest] wf pkt
    by (auto simp: wf_attr_hdr_len index_r_def nth_append intro: no_fault_attr_error)
qed

lemma no_fault_copy:
  assumes "attr_len_ok pkt"
  shows "no_fault (bind_r (BGPPathAttrBase_Decode pkt) (\<lambda>b. bind_r (attr_body_copy b pkt) (\<lambda>v. Inr (C b v))))"
  using assms by (rule no_fault_attrI) (simp add: attr_body_copy_hdr)

lemma no_fault_get32:
  assumes "attr_len_ok pkt" "\<And>b. hdr_accepted b \<Longrightarrow> Code b = pkt ! 1 \<Longrightarrow> Attr_Length b = 4"
  shows "no_fault (bind_r (BGPPathAttrBase_Decode pkt) (\<lambda>b. bind_r (bind_r (attr_body b pkt) get32) (\<lambda>v. Inr (C b v))))"
  using assms(1)
proof (rule no_fault_attrI)
  fix b body rest
  assume wf: "wf_attr_hdr b" and l: "length body = unat (Attr_Length b)" and pkt: "pkt = hdr_bytes b @ body @ rest"
  then have "Attr_Length b = 4" using assms(2) by (simp add: wf_attr_hdr_def hdr_bytes_def)
  then obtain w where "get32 body = (Inr w :: u32 pres)" using l get32_total [of body] by auto
  then show "no_fault (bind_r (bind_r (attr_body b pkt) get32) (\<lambda>v. Inr (C b v)))"
    using wf l pkt by (simp add: attr_body_hdr)
qed


lemma get_clusters_total:
  "unat off + 4 * n \<le> length pkt \<Longrightarrow> unat off + 4 * n < 65536 \<Longrightarrow> \<exists>cs. get_clusters off n pkt = Inr cs"
proof (induction n arbitrary: off)
  case 0
  then show ?case by simp
next
  case (Suc n)
  have o: "unat (off + 4) = unat off + 4" using Suc.prems by (simp add: unat_add_small)
  then obtain cs where "get_clusters (off + 4) n pkt = Inr cs" using Suc by fastforce
  moreover obtain c where "get32 (take 4 (drop (unat off) pkt)) = (Inr c :: u32 pres)"
    using get32_total [of "take 4 (drop (unat off) pkt)"] Suc.prems by force
  ultimately show ?case using Suc.prems o by (simp add: slice_r_def)
qed

lemma no_fault_cluster: "attr_len_ok pkt \<Longrightarrow> no_fault (BGPPathAttrClusterList_Decode pkt)"
  unfolding BGPPathAttrClusterList_Decode_def
proof (rule no_fault_attrI)
  fix b body rest
  assume wf: "wf_attr_hdr b" and l: "length body = unat (Attr_Length b)" and pkt: "pkt = hdr_bytes b @ body @ rest"
  have "4 * unat (Attr_Length b div 4) \<le> unat (Attr_Length b)" by (simp add: unat_div)
  then obtain cs where "get_clusters (BGPPathAttrLen b) (unat (Attr_Length b div 4)) pkt = Inr cs"
    using get_clusters_total [of "BGPPathAttrLen b" "unat (Attr_Length b div 4)" pkt] wf pkt l
    by (auto simp: wf_attr_hdr_len) (auto simp: wf_attr_hdr_def hdr_no_overflow_def length_hdr_bytes)
  then show "no_fault (bind_r (get_clusters (BGPPathAttrLen b) (unat (Attr_Length b div 4)) pkt) (\<lambda>cs.
     Inr \<lparr>Cluster_Base = b, Cluster_Value = cs\<rparr>))" by simp
qed

text \<open>The two aggregators: the guard on the length covers the AS number and the address.\<close>

lemma agg4_decode_total: "4 \<le> length s \<Longrightarrow> \<exists>a. BGPAggregator4ByteAS_Decode s = Inr a"
  using get32_total [of "take 4 s"] by (auto simp: BGPAggregator4ByteAS_Decode_def slice_r_def)

lemma no_fault_slice_copy4:
  "n \<le> length pkt \<Longrightarrow> no_fault (bind_r (slice_from pkt n) (\<lambda>t. bind_r (copy_r (replicate 4 0) 0 t) (\<lambda>ip. Inr (C ip))))"
  by (simp add: slice_from_def copy_r_def del: replicate_numeral)

lemma no_fault_aggregator:
  assumes "attr_len_ok pkt" "PeerASSize peer = 2 \<or> PeerASSize peer = 4"
  shows "no_fault (BGPPathAttrAggregator_Decode pkt peer)"
  unfolding BGPPathAttrAggregator_Decode_def using assms(1)
proof (rule no_fault_attrI)
  fix b body rest
  assume wf: "wf_attr_hdr b" and l: "length body = unat (Attr_Length b)" and pkt: "pkt = hdr_bytes b @ body @ rest"
  let ?n = "PeerASSize peer"
  show "no_fault (if Attr_Length b < ucast (?n + 4) then attr_error 5 b pkt
     else bind_r (slice_from pkt (unat (BGPPathAttrLen b))) (\<lambda>s.
       bind_r (if ?n = 2 then bind_r (BGPAggregator2ByteAS_Decode s) (\<lambda>a. Inr (Agg2 a))
               else bind_r (BGPAggregator4ByteAS_Decode s) (\<lambda>a. Inr (Agg4 a))) (\<lambda>as.
       bind_r (slice_from pkt (unat (BGPPathAttrLen b + BGPAggregatorAS_GetLen as))) (\<lambda>t.
       bind_r (copy_r (replicate 4 0) 0 t) (\<lambda>ip. Inr \<lparr>Agg_Base = b, Agg_AS = Some as, Agg_IP = ip\<rparr>)))))"
  proof (cases "Attr_Length b < ucast (?n + 4)")
    case True
    then show ?thesis using TotalLen_le [OF wf l, of rest] pkt by (simp add: no_fault_attr_error)
  next
    case False
    then have n: "unat ?n + 4 \<le> unat (Attr_Length b)" using assms(2) by (auto simp: word_less_nat_alt)
    have s: "slice_from pkt (unat (BGPPathAttrLen b)) = (Inr (body @ rest) :: bytes pres)"
      using wf pkt by (simp add: wf_attr_hdr_len)
    have tail: "no_fault (bind_r (slice_from pkt (unat (BGPPathAttrLen b + BGPAggregatorAS_GetLen as))) (\<lambda>t.
       bind_r (copy_r (replicate 4 0) 0 t) (\<lambda>ip. Inr \<lparr>Agg_Base = b, Agg_AS = Some as, Agg_IP = ip\<rparr>)))"
      if "unat (BGPAggregatorAS_GetLen as) = unat ?n" for as
      using n that wf_attr_hdr_sum [OF _ wf, of "BGPAggregatorAS_GetLen as"] l pkt
      by (intro no_fault_slice_copy4) simp
    show ?thesis
    proof (cases "?n = 2")
      case True
      then obtain w where "BGPAggregator2ByteAS_Decode (body @ rest) = Inr w"
        using get16_total [of "take 2 (body @ rest)"] n l
        by (auto simp: BGPAggregator2ByteAS_Decode_def slice_r_def)
      then show ?thesis using False True s tail [of "Agg2 w"] by simp
    next
      case n4: False
      then obtain w where "BGPAggregator4ByteAS_Decode (body @ rest) = Inr w"
        using agg4_decode_total [of "body @ rest"] n l assms(2) by auto
      then show ?thesis using False n4 s tail [of "Agg4 w"] assms(2) by simp
    qed
  qed
qed

lemma no_fault_as4aggregator:
  assumes "attr_len_ok pkt" "pkt ! 1 = 18"
  shows "no_fault (BGPPathAttrAS4Aggregator_Decode pkt)"
  unfolding BGPPathAttrAS4Aggregator_Decode_def using assms(1)
proof (rule no_fault_attrI)
  fix b body rest
  assume wf: "wf_attr_hdr b" and l: "length body = unat (Attr_Length b)" and pkt: "pkt = hdr_bytes b @ body @ rest"
  have "Attr_Length b = 8"
    using wf assms(2) pkt by (simp add: wf_attr_hdr_def hdr_accepted_def BGPPathAttrTypeLenMap_def hdr_bytes_def)
  then have "length body = 8" and "unat (BGPPathAttrLen b + 4) \<le> length pkt"
    using l wf_attr_hdr_sum [OF _ wf, of 4] pkt by simp_all
  moreover from this obtain w where "BGPAggregator4ByteAS_Decode (body @ rest) = Inr w"
    using agg4_decode_total [of "body @ rest"] by auto
  moreover have "slice_from pkt (unat (BGPPathAttrLen b)) = (Inr (body @ rest) :: bytes pres)"
    using wf pkt by (simp add: wf_attr_hdr_len)
  ultimately show "no_fault (bind_r (slice_from pkt (unat (BGPPathAttrLen b))) (\<lambda>s.
     bind_r (BGPAggregator4ByteAS_Decode s) (\<lambda>as.
     bind_r (slice_from pkt (unat (BGPPathAttrLen b + 4))) (\<lambda>t.
     bind_r (copy_r (replicate 4 0) 0 t) (\<lambda>ip.
     Inr \<lparr>Agg4_Base = b, Agg4_AS = Some as, Agg4_IP = ip\<rparr>)))))"
    using no_fault_slice_copy4 by simp
qed

lemma seg4_size_nonzero: "(ucast (c * 4 + 2) :: u16) \<noteq> 0" for c :: u8
  by (metis four_times_plus_two_nonzero unat_0_iff_zero unat_ucast_8_16)

lemma no_fault_aspath:
  assumes "attr_len_ok pkt" "PeerASSize peer = 4"
  shows "no_fault (BGPPathAttrASPath_Decode pkt peer)"
  unfolding BGPPathAttrASPath_Decode_def using assms(1)
proof (rule no_fault_attrI)
  fix b body rest
  assume wf: "wf_attr_hdr b" and l: "length body = unat (Attr_Length b)" and pkt: "pkt = hdr_bytes b @ body @ rest"
  have "Seg_TotalLen x \<noteq> 0" if "Seg_Decode (new_seg (PeerASSize peer)) s = Inr x" for s x
    using that assms(2) BGPAS4PathSegment_Decode_cases [of NewBGPAS4PathSegmentSeq s] seg4_size_nonzero
    by (auto simp: new_seg_def Seg_TotalLen_def bind_r_eq_Inr)
  then show "no_fault (bind_r (segs_loop (Seg_Decode (new_seg (PeerASSize peer))) Seg_TotalLen
       (unat (Attr_Length b) + unat (BGPPathAttrLen b)) pkt (unat (BGPPathAttrLen b)) []) (\<lambda>v.
     Inr \<lparr>ASPath_Base = b, ASPath_Value = v, ASPath_ASSize = PeerASSize peer\<rparr>))"
    using Seg_Decode_safe wf l pkt by (simp add: segs_loop_no_fault wf_attr_hdr_len)
qed

lemma no_fault_as4path: "attr_len_ok pkt \<Longrightarrow> no_fault (BGPPathAttrAS4Path_Decode pkt)"
  unfolding BGPPathAttrAS4Path_Decode_def
proof (rule no_fault_attrI)
  fix b body rest
  assume wf: "wf_attr_hdr b" and l: "length body = unat (Attr_Length b)" and pkt: "pkt = hdr_bytes b @ body @ rest"
  have "(\<exists>e. f = Error e)" if "BGPAS4PathSegment_Decode NewBGPAS4PathSegmentSeq s = Inl f" for s f
    using that BGPAS4PathSegment_Decode_cases [of NewBGPAS4PathSegmentSeq s] by auto
  moreover have "seg4_TotalLen x \<noteq> 0" if "BGPAS4PathSegment_Decode NewBGPAS4PathSegmentSeq s = Inr x" for s x
    using that BGPAS4PathSegment_Decode_cases [of NewBGPAS4PathSegmentSeq s] seg4_size_nonzero
    by (auto simp: seg4_TotalLen_def)
  ultimately show "no_fault (bind_r (segs_loop (BGPAS4PathSegment_Decode NewBGPAS4PathSegmentSeq) seg4_TotalLen
       (unat (Attr_Length b) + unat (BGPPathAttrLen b)) pkt (unat (BGPPathAttrLen b)) []) (\<lambda>v.
     Inr \<lparr>AS4Path_Base = b, AS4Path_Value = v\<rparr>))"
    using wf l pkt by (simp add: segs_loop_no_fault wf_attr_hdr_len)
qed

lemma PA_Decode_no_fault:
  assumes "attr_len_ok pkt" "PeerASSize peer = 4" "2 \<le> length pkt" "pkt ! 1 \<noteq> 14" "pkt ! 1 \<noteq> 15"
  shows "no_fault (PA_Decode peer pkt)"
proof -
  have "no_fault (BGPPathAttrMultiExitDisc_Decode pkt)" if "pkt ! 1 = 4"
    unfolding BGPPathAttrMultiExitDisc_Decode_def using assms(1) that
    by (intro no_fault_get32) (simp_all add: hdr_accepted_def BGPPathAttrTypeLenMap_def)
  moreover have "no_fault (BGPPathAttrLocalPref_Decode pkt)" if "pkt ! 1 = 5"
    unfolding BGPPathAttrLocalPref_Decode_def using assms(1) that
    by (intro no_fault_get32) (simp_all add: hdr_accepted_def BGPPathAttrTypeLenMap_def)
  moreover have "no_fault (BGPPathAttrAtomicAggregate_Decode pkt)"
    unfolding BGPPathAttrAtomicAggregate_Decode_def by (rule no_fault_attrI [OF assms(1)]) simp
  moreover have "no_fault (BGPPathAttrNextHop_Decode pkt)"
    "no_fault (BGPPathAttrOriginatorId_Decode pkt)" "no_fault (BGPPathAttrUnknown_Decode pkt)"
    unfolding BGPPathAttrNextHop_Decode_def BGPPathAttrOriginatorId_Decode_def BGPPathAttrUnknown_Decode_def
    by (rule no_fault_copy [OF assms(1)])+
  ultimately have "no_fault (attr_of_code (pkt ! 1) pkt peer)"
    using assms no_fault_origin no_fault_cluster no_fault_aggregator no_fault_as4aggregator no_fault_aspath
      no_fault_as4path
    by (simp add: attr_of_code_def)
  then show ?thesis using assms(3) by (simp add: PA_Decode_def index_r_def)
qed

section \<open>Where the decoders go wrong\<close>

text \<open>
  A two-byte segment of 127 AS numbers occupies 256 bytes, and \<open>uint16(ps.Length*2 + 2)\<close> is 0: the cursor
  stays where it is and the loop appends the same segment forever.
\<close>

lemma seg2_127_size_zero:
  assumes "254 \<le> length r" "n \<noteq> 4"
  shows "\<exists>x. Seg_Decode (new_seg n) (t # 127 # r) = Inr x \<and> Seg_TotalLen x = 0"
proof -
  obtain as where "get_as get16 2 2 127 (t # 127 # r) = Inr as"
    using as2.get_as_total [of 2 127 "t # 127 # r"] assms(1) by auto
  moreover have "r \<noteq> []" using assms(1) by auto
  ultimately show ?thesis using assms
    by (simp add: new_seg_def BGPAS2PathSegment_Decode_def BGPASPathSegmentBase_Decode_def Seg_TotalLen_def)
qed

lemma aspath_two_byte_127_diverges:
  assumes "PeerASSize peer \<noteq> 4" "wf_attr_hdr b" "length body = unat (Attr_Length b)"
    and "body = t # 127 # r" "254 \<le> length r"
  shows "BGPPathAttrASPath_Decode (hdr_bytes b @ body @ rest) peer = Inl Diverges"
proof -
  obtain x where x: "Seg_Decode (new_seg (PeerASSize peer)) (t # 127 # r @ rest) = Inr x" "Seg_TotalLen x = 0"
    using seg2_127_size_zero [of "r @ rest"] assms by fastforce
  have "unat (Attr_Length b) > 0" using assms(3,4) by (simp del: unat_pos)
  then have "segs_loop (Seg_Decode (new_seg (PeerASSize peer))) Seg_TotalLen
       (unat (Attr_Length b) + unat (BGPPathAttrLen b)) (hdr_bytes b @ body @ rest) (unat (BGPPathAttrLen b)) []
     = Inl Diverges"
    using x assms by (subst segs_loop.simps) (simp add: wf_attr_hdr_len Let_def)
  then show ?thesis
    using wf_attr_hdr_dec [OF assms(2,3), of rest] by (simp add: BGPPathAttrASPath_Decode_def)
qed

text \<open>
  An AS path whose last segment is cut short is accepted: the error of the segment is dropped, and the
  attribute keeps its declared length with fewer segments.
\<close>

lemma aspath_truncated_accepted:
  assumes "wf_attr_hdr b" "Attr_Length b = 3" "PeerASSize peer = 4"
  shows "BGPPathAttrASPath_Decode (hdr_bytes b @ [t, 1, x]) peer
           = Inr \<lparr>ASPath_Base = b, ASPath_Value = [], ASPath_ASSize = 4\<rparr>"
proof -
  have "segs_loop (Seg_Decode (new_seg 4)) Seg_TotalLen (3 + length (hdr_bytes b)) (hdr_bytes b @ [t, 1, x])
      (length (hdr_bytes b)) [] = Inr []"
    by (subst segs_loop.simps)
       (simp add: new_seg_def BGPAS4PathSegment_Decode_def BGPASPathSegmentBase_Decode_def msg_error_def)
  then show ?thesis
    using wf_attr_hdr_dec [of b "[t, 1, x]" "[]"] assms
    by (simp add: BGPPathAttrASPath_Decode_def wf_attr_hdr_len)
qed

text \<open>
  The multiprotocol attributes read the address family without looking at the length: with an empty body at
  the end of the packet the slice panics.
\<close>

lemma mp_attr_empty_panics:
  assumes "wf_attr_hdr b" "Attr_Length b = 0"
  shows "BGPPathAttrMPReachNLRI_Decode (hdr_bytes b) peer = Inl Panic"
    and "BGPPathAttrMPUnreachNLRI_Decode (hdr_bytes b) peer = Inl Panic"
  using wf_attr_hdr_dec [of b "[]" "[]"] assms
  by (simp_all add: BGPPathAttrMPReachNLRI_Decode_def BGPPathAttrMPUnreachNLRI_Decode_def Let_def
      wf_attr_hdr_len slice_r_def)

text \<open>
  An extended length of 65532 or more makes the \<open>uint16\<close> sum of the length check wrap to a small number: the
  check passes, and reporting a flags error then slices past the end.
\<close>

lemma attr_len_overflow_panics:
  assumes "unat l \<ge> 65532" "length rest < 65532" "f AND 16 \<noteq> 0" "f AND 192 = 0" "4 \<le> length rest"
  shows "BGPPathAttrBase_Decode (f # c # be16 l @ rest) = Inl Panic"
proof -
  let ?b = "\<lparr>Flags = f, Code = c, Attr_Length = l, BGPPathAttrLen = 4\<rparr>"
  have "f AND (128 OR 64) = 0" using assms(4) by simp
  then have f: "f AND 128 = 0" "f AND 64 = 0"
    by (metis and.assoc and.left_commute and_zero_eq word_bw_comms(1) word_ao_absorbs(6) and.right_idem
        bit.conj_disj_distrib or_eq_0_iff)+
  have hb: "base_header (f # c # be16 l @ rest) = Inr ?b"
    using base_header_hdr [of ?b rest] assms(3) by (simp add: hdr_wf_def ext_len_def hdr_bytes_def)
  have "unat (l + 4) = unat l + 4 - 65536"
    using assms(1) u16_less [of l] by (simp add: unat_word_ariths mod_if del: u16_less)
  then have le: "unat (Attr_Length ?b + BGPPathAttrLen ?b) \<le> length (f # c # be16 l @ rest)"
    using u16_less [of l] by (simp del: u16_less)
  have "attr_error s ?b (f # c # be16 l @ rest) = Inl Panic" for s
    using assms(1,2) by (simp add: attr_error_def slice_r_def unat_BGPPathAttrBase_TotalLen)
  then show ?thesis
    using hb le f by (simp add: BGPPathAttrBase_Decode_def base_checks_def checkFlags_def)
qed

text \<open>
  \<open>NewBGPPathAttrAS4Path\<close> uses the type code of AS_PATH, so that the attribute it builds is refused by the
  flags table when it is read back.
\<close>

lemma new_as4path_refused:
  "\<exists>pkt. PA_Encode (PA_AS4Path NewBGPPathAttrAS4Path) = Inr pkt \<and>
         PA_Decode peer pkt = msg_error BGPUpdateMsgError BGPAttrFlagsError (take 3 pkt)"
  by (simp add: BGPPathAttrAS4Path_Encode_def NewBGPPathAttrAS4Path_def BGPPathAttrBase_Encode_def
      BGPPathAttrBase_TotalLen_def set_r_def PA_Decode_def attr_of_code_def BGPPathAttrASPath_Decode_def
      BGPPathAttrBase_Decode_def base_header_def base_checks_def BGPPathAttrTypeFlagsMap_def attr_error_def slice_r_def)

end
