(* ===== verification/UpdateMsg.thy ===== *)
theory UpdateMsg
  imports PathAttr
begin

text \<open>
  The message header and the UPDATE message (bgp/packet/bgp.go). A body is decoded from the bytes after the
  header; \<open>Decode\<close> checks its lengths against the length field of the header.
\<close>

section \<open>The header\<close>

record BGPHeader =
  Marker :: bytes
  Hdr_Length :: u16
  Hdr_Type :: u8

definition NewBGPHeader :: BGPHeader where
  "NewBGPHeader = \<lparr>Marker = replicate 16 0, Hdr_Length = 0, Hdr_Type = 0\<rparr>"

definition BGPHeader_Encode :: "BGPHeader \<Rightarrow> bytes" where
  "BGPHeader_Encode header = replicate 16 0xFF @ be16 (Hdr_Length header) @ [Hdr_Type header]"

text \<open>\<open>Decode\<close> leaves the marker of the object alone and does not look at the marker of the packet.\<close>

definition BGPHeader_Decode :: "BGPHeader \<Rightarrow> bytes \<Rightarrow> BGPHeader pres" where
  "BGPHeader_Decode header pkt =
     bind_r (bind_r (slice_r pkt 16 18) get16) (\<lambda>l. bind_r (index_r pkt 18) (\<lambda>t.
     Inr (header\<lparr>Hdr_Length := l, Hdr_Type := t\<rparr>)))"

definition BGPHeader_Len :: "BGPHeader \<Rightarrow> u32" where
  "BGPHeader_Len header = ucast (Hdr_Length header)"

section \<open>UPDATE\<close>

record BGPUpdate =
  WithdrawnRoutesLen :: u16
  WithdrawnRoutes :: "NLRI list"
  TotalPathAttrLen :: u16
  PathAttributes :: "BGPPathAttr list"
  Upd_NLRI :: "NLRI list"

definition BGPUpdate_Encode :: "BGPUpdate \<Rightarrow> bytes pres" where
  "BGPUpdate_Encode msg =
     bind_r (concat_r (NLRI_Encode AfiIP) (WithdrawnRoutes msg)) (\<lambda>wd.
     bind_r (concat_r PA_Encode (PathAttributes msg)) (\<lambda>pa.
     bind_r (concat_r (NLRI_Encode AfiIP) (Upd_NLRI msg)) (\<lambda>nlri.
     Inr (be16 (of_nat (length wd)) @ wd @ be16 (of_nat (length pa)) @ pa @ nlri))))"

text \<open>\<open>checkPathAttributes\<close>: no attribute twice, and every well-known mandatory one present.\<close>

fun check_duplicates :: "u8 set \<Rightarrow> BGPPathAttr list \<Rightarrow> (u8 set) pres" where
  "check_duplicates found [] = Inr found"
| "check_duplicates found (attr # rest) =
     (if PA_GetCode attr \<in> found then msg_error BGPUpdateMsgError BGPMalformedAttrList []
      else check_duplicates (insert (PA_GetCode attr) found) rest)"

fun check_mandatory :: "u8 set \<Rightarrow> u8 list \<Rightarrow> unit pres" where
  "check_mandatory found [] = Inr ()"
| "check_mandatory found (t # ts) =
     (if t \<notin> found then msg_error BGPUpdateMsgError BGPMissingWellKnownAttr [t] else check_mandatory found ts)"

definition BGPPathAttrWellKnownMandatory :: "u8 list" where
  "BGPPathAttrWellKnownMandatory = [BGPPathAttrTypeOrigin, BGPPathAttrTypeASPath, BGPPathAttrTypeNextHop]"

definition checkPathAttributes :: "BGPPathAttr list \<Rightarrow> unit pres" where
  "checkPathAttributes pathAttrs =
     bind_r (check_duplicates {} pathAttrs) (\<lambda>found. check_mandatory found BGPPathAttrWellKnownMandatory)"

text \<open>Any error of the withdrawn routes is reported as a malformed attribute list.\<close>

definition withdrawn_r :: "(NLRI list \<times> nat) pres \<Rightarrow> (NLRI list \<times> nat) pres" where
  "withdrawn_r r = (case r of Inl (Error _) \<Rightarrow> msg_error BGPUpdateMsgError BGPMalformedAttrList [] | _ \<Rightarrow> r)"

definition BGPUpdate_Decode :: "BGPHeader \<Rightarrow> bytes \<Rightarrow> BGPPeerAttrs \<Rightarrow> BGPUpdate pres" where
  "BGPUpdate_Decode header pkt peerAttrs =
     bind_r (bind_r (slice_r pkt 0 2) get16) (\<lambda>wlen.
     if ucast wlen + 23 > BGPHeader_Len header then msg_error BGPUpdateMsgError BGPMalformedAttrList []
     else
       bind_r (slice_from pkt 2) (\<lambda>s.
       bind_r (withdrawn_r (decodeNLRI s (ucast wlen) AfiIP SafiUnicast peerAttrs)) (\<lambda>(wd, ipLen).
       let ptr = 2 + ipLen in
       bind_r (bind_r (slice_r pkt ptr (ptr + 2)) get16) (\<lambda>palen.
       let ptr = ptr + 2 in
       if unat palen + unat wlen + 23 > unat (BGPHeader_Len header)
       then msg_error BGPUpdateMsgError BGPMalformedAttrList []
       else
         bind_r (decode_loop (PA_Decode peerAttrs) (\<lambda>pa. unat (PA_TotalLen pa)) (int (unat palen)) pkt ptr []) (\<lambda>(pas, left, ptr).
         if left < 0 then msg_error BGPUpdateMsgError BGPMalformedAttrList []
         else
           bind_r (slice_from pkt ptr) (\<lambda>s.
           bind_r (decodeNLRI s (BGPHeader_Len header - 23 - ucast wlen - ucast palen) AfiIP SafiUnicast peerAttrs) (\<lambda>(ns, _).
           Inr \<lparr>WithdrawnRoutesLen = wlen, WithdrawnRoutes = wd, TotalPathAttrLen = palen,
                PathAttributes = pas, Upd_NLRI = ns\<rparr>)))))))"

definition NewBGPUpdate :: "NLRI list \<Rightarrow> BGPPathAttr list \<Rightarrow> NLRI list \<Rightarrow> BGPUpdate" where
  "NewBGPUpdate wdRoutes pa nlri =
     \<lparr>WithdrawnRoutesLen = 0, WithdrawnRoutes = wdRoutes, TotalPathAttrLen = 0, PathAttributes = pa, Upd_NLRI = nlri\<rparr>"

section \<open>An UPDATE decodes to what was encoded\<close>

definition attrs_total :: "BGPPathAttr list \<Rightarrow> nat" where
  "attrs_total pas = sum_list (map (\<lambda>pa. unat (PA_TotalLen pa)) pas)"

definition wf_update :: "BGPPeerAttrs \<Rightarrow> BGPUpdate \<Rightarrow> bool" where
  "wf_update peer u \<longleftrightarrow>
     list_all (wf_nlri (AddPathsRxActual peer) AfiIP) (WithdrawnRoutes u) \<and>
     list_all (wf_attr peer) (PathAttributes u) \<and>
     list_all (wf_nlri (AddPathsRxActual peer) AfiIP) (Upd_NLRI u) \<and>
     unat (WithdrawnRoutesLen u) = nlri_total (WithdrawnRoutes u) \<and>
     unat (TotalPathAttrLen u) = attrs_total (PathAttributes u) \<and>
     23 + nlri_total (WithdrawnRoutes u) + attrs_total (PathAttributes u) + nlri_total (Upd_NLRI u) < 65536"

lemma of_nat_unat: "unat w = n \<Longrightarrow> of_nat n = w" for w :: "'a::len word"
  by auto

lemma update_roundtrip:
  assumes wf: "wf_update peer u" and len: "unat (Hdr_Length hdr) = 19 + length pkt"
    and enc: "BGPUpdate_Encode u = Inr pkt"
  shows "BGPUpdate_Decode hdr pkt peer = Inr u"
proof -
  let ?rx = "AddPathsRxActual peer"
  have ws: "list_all (wf_nlri ?rx 1) (WithdrawnRoutes u)" and ps: "list_all (wf_attr peer) (PathAttributes u)"
    and ns: "list_all (wf_nlri ?rx 1) (Upd_NLRI u)" using wf by (auto simp: wf_update_def)
  obtain wd pa nl where wd: "concat_r (NLRI_Encode 1) (WithdrawnRoutes u) = Inr wd"
    and pa: "concat_r PA_Encode (PathAttributes u) = Inr pa"
    and nl: "concat_r (NLRI_Encode 1) (Upd_NLRI u) = Inr nl"
    and pkt0: "pkt = be16 (of_nat (length wd)) @ wd @ be16 (of_nat (length pa)) @ pa @ nl"
    using enc by (auto simp: BGPUpdate_Encode_def bind_r_eq_Inr)
  have lwd: "unat (WithdrawnRoutesLen u) = length wd" and lpa: "unat (TotalPathAttrLen u) = length pa"
    using wf nlri_codec.concat_length [OF ws wd] attr_codec.concat_length [OF ps pa]
    by (simp_all add: wf_update_def nlri_total_def attrs_total_def)
  have pkt: "pkt = be16 (WithdrawnRoutesLen u) @ wd @ be16 (TotalPathAttrLen u) @ pa @ nl"
    using pkt0 of_nat_unat [OF lwd] of_nat_unat [OF lpa] by simp
  have hlen: "unat (BGPHeader_Len hdr) = 23 + length wd + length pa + length nl"
    using len by (simp add: BGPHeader_Len_def pkt)
  have small: "23 + length wd + length pa + length nl < 65536" using hlen u16_less [of "Hdr_Length hdr"]
    by (simp add: BGPHeader_Len_def del: u16_less)
  have w23: "unat (ucast (WithdrawnRoutesLen u) + 23 :: u32) = length wd + 23"
    using lwd small by (simp add: unat_add_small)
  have rest: "unat (BGPHeader_Len hdr - 23 - ucast (WithdrawnRoutesLen u) - ucast (TotalPathAttrLen u)) = length nl"
    using hlen lwd lpa by (simp add: unat_sub word_le_nat_alt)
  have dw: "decodeNLRI (wd @ be16 (TotalPathAttrLen u) @ pa @ nl) (ucast (WithdrawnRoutesLen u)) 1 1 peer
      = Inr (WithdrawnRoutes u, length wd)"
    using lwd by (intro decodeNLRI_concat [OF ws wd]) simp
  let ?h = "be16 (WithdrawnRoutesLen u) @ wd @ be16 (TotalPathAttrLen u)"
  have da: "decode_loop (PA_Decode peer) (\<lambda>pa. unat (PA_TotalLen pa)) (int (length pa)) pkt (length ?h) []
      = Inr (PathAttributes u, 0, length ?h + length pa)"
    using attr_codec.decode_loop_concat [OF ps pa, of ?h nl "[]"] by (simp add: pkt)
  have dn: "decodeNLRI nl (BGPHeader_Len hdr - 23 - ucast (WithdrawnRoutesLen u) - ucast (TotalPathAttrLen u)) 1 1 peer
      = Inr (Upd_NLRI u, length nl)"
    using decodeNLRI_concat [OF ns nl rest, of "[]"] by simp
  have s1: "slice_r pkt 0 2 = (Inr (be16 (WithdrawnRoutesLen u)) :: bytes pres)"
    "slice_from pkt 2 = (Inr (wd @ be16 (TotalPathAttrLen u) @ pa @ nl) :: bytes pres)"
    by (simp_all add: pkt slice_r_def slice_from_def)
  have s2: "slice_r pkt (2 + length wd) (2 + length wd + 2) = (Inr (be16 (TotalPathAttrLen u)) :: bytes pres)"
    "slice_from pkt (length ?h + length pa) = (Inr nl :: bytes pres)"
    by (simp_all add: pkt slice_r_def slice_from_def)
  have lh: "2 + length wd + 2 = length ?h" by simp
  show ?thesis
    unfolding BGPUpdate_Decode_def s1 bind_r_Inr get16_be16_only dw withdrawn_r_def sum.case prod.case Let_def s2(1)
    unfolding lh lpa da bind_r_Inr prod.case s2(2) dn
    using w23 hlen lwd lpa by (cases u) (simp add: word_less_nat_alt)
qed

section \<open>Checks on the attribute list\<close>

lemma check_duplicates_spec:
  "check_duplicates found pas = (if distinct (map PA_GetCode pas) \<and> set (map PA_GetCode pas) \<inter> found = {}
     then Inr (found \<union> set (map PA_GetCode pas)) else msg_error BGPUpdateMsgError BGPMalformedAttrList [])"
  by (induction pas arbitrary: found) auto

lemma check_mandatory_spec: "check_mandatory found ts = Inr () \<longleftrightarrow> set ts \<subseteq> found"
  by (induction ts) auto

lemma checkPathAttributes_spec:
  "checkPathAttributes pas = Inr () \<longleftrightarrow>
     distinct (map PA_GetCode pas) \<and> {1, 2, 3} \<subseteq> set (map PA_GetCode pas)"
  by (auto simp: checkPathAttributes_def check_duplicates_spec check_mandatory_spec BGPPathAttrWellKnownMandatory_def)

text \<open>
  No decoder calls \<open>checkPathAttributes\<close>: an UPDATE that announces a prefix with no attribute at all is
  accepted.
\<close>

lemma update_without_attributes_accepted:
  assumes "wf_nlri (AddPathsRxActual peer) AfiIP n" "nlri_total [n] \<le> 1000"
  shows "\<exists>pkt u. BGPUpdate_Encode (NewBGPUpdate [] [] [n]) = Inr pkt \<and>
           BGPUpdate_Decode \<lparr>Marker = m, Hdr_Length = of_nat (19 + length pkt), Hdr_Type = 2\<rparr> pkt peer = Inr u \<and>
           Upd_NLRI u = [n] \<and> checkPathAttributes (PathAttributes u) = msg_error BGPUpdateMsgError BGPMissingWellKnownAttr [1]"
proof -
  let ?u = "NewBGPUpdate [] [] [n]"
  obtain bs where bs: "concat_r (NLRI_Encode 1) [n] = Inr bs" "length bs = nlri_total [n]"
    using nlri_codec.concat_ok [of "AddPathsRxActual peer" 1 "[n]"] assms by (auto simp: nlri_total_def)
  then have e: "BGPUpdate_Encode ?u = Inr (be16 0 @ be16 0 @ bs)"
    by (simp add: BGPUpdate_Encode_def NewBGPUpdate_def)
  have wf: "wf_update peer ?u" using assms by (simp add: wf_update_def NewBGPUpdate_def nlri_total_def attrs_total_def)
  have "unat (of_nat (19 + length (be16 0 @ be16 0 @ bs)) :: u16) = 19 + length (be16 0 @ be16 0 @ bs)"
    using bs(2) assms(2) by (intro u16_of_nat) simp
  then have "BGPUpdate_Decode \<lparr>Marker = m, Hdr_Length = of_nat (19 + length (be16 0 @ be16 0 @ bs)), Hdr_Type = 2\<rparr>
      (be16 0 @ be16 0 @ bs) peer = Inr ?u"
    by (intro update_roundtrip [OF wf _ e]) simp
  moreover have "checkPathAttributes [] = msg_error BGPUpdateMsgError BGPMissingWellKnownAttr [1]"
    by (simp add: checkPathAttributes_def BGPPathAttrWellKnownMandatory_def)
  ultimately show ?thesis using e by (auto simp: NewBGPUpdate_def)
qed

section \<open>Where the decoder panics\<close>

text \<open>
  A body of fewer than two bytes, and an attribute list of one byte at the end of the packet, whose type code
  \<open>BGPGetPathAttr\<close> reads without looking.
\<close>

lemma update_short_panics: "length pkt < 2 \<Longrightarrow> BGPUpdate_Decode hdr pkt peer = Inl Panic"
  by (simp add: BGPUpdate_Decode_def slice_r_def)

lemma update_one_byte_attr_panics:
  assumes "Hdr_Length hdr = 24"
  shows "BGPUpdate_Decode hdr [0, 0, 0, 1, x] peer = Inl Panic"
proof -
  have "decodeNLRI [0, 1, x] 0 1 1 peer = Inr ([], 0)" by (simp add: decodeNLRI_def)
  then show ?thesis using assms
    by (simp add: BGPUpdate_Decode_def slice_r_def slice_from_def BGPHeader_Len_def withdrawn_r_def Let_def
        decode_loop.simps PA_Decode_def index_r_def)
qed

end
