(* ===== verification/AttrHelpers.thy ===== *)
theory AttrHelpers
  imports UpdateMsg "HOL-Library.Multiset"
begin

text \<open>
  The operations on the attributes of an UPDATE (bgp/packet/helpers.go): what the session does to a received
  message (\<open>NormalizeASPath\<close>), to a message it sends (\<open>PrependAS\<close>, \<open>SetLocalPref\<close>, \<open>AddOriginatorId\<close>, ...), and
  the accessors the decision process reads. A list of attributes is the value of the slice; a function that
  assigns to the slice it was given returns the new list. A failed type assertion panics.
\<close>

section \<open>Type assertions\<close>

fun as_ASPath :: "BGPPathAttr \<Rightarrow> BGPPathAttrASPath pres" where
  "as_ASPath (PA_ASPath a) = Inr a"
| "as_ASPath _ = Inl Panic"

fun as_AS4Path :: "BGPPathAttr \<Rightarrow> BGPPathAttrAS4Path pres" where
  "as_AS4Path (PA_AS4Path a) = Inr a"
| "as_AS4Path _ = Inl Panic"

fun as_Aggregator :: "BGPPathAttr \<Rightarrow> BGPPathAttrAggregator pres" where
  "as_Aggregator (PA_Aggregator a) = Inr a"
| "as_Aggregator _ = Inl Panic"

fun as_AS4Aggregator :: "BGPPathAttr \<Rightarrow> BGPPathAttrAS4Aggregator pres" where
  "as_AS4Aggregator (PA_AS4Aggregator a) = Inr a"
| "as_AS4Aggregator _ = Inl Panic"

fun as_MPReach :: "BGPPathAttr \<Rightarrow> BGPPathAttrMPReachNLRI pres" where
  "as_MPReach (PA_MPReachNLRI a) = Inr a"
| "as_MPReach _ = Inl Panic"

fun as_MPUnreach :: "BGPPathAttr \<Rightarrow> BGPPathAttrMPUnreachNLRI pres" where
  "as_MPUnreach (PA_MPUnreachNLRI a) = Inr a"
| "as_MPUnreach _ = Inl Panic"

fun as_seg2 :: "BGPASPathSegment \<Rightarrow> BGPAS2PathSegment pres" where
  "as_seg2 (Seg2 s) = Inr s"
| "as_seg2 (Seg4 s) = Inl Panic"

fun as_seg4 :: "BGPASPathSegment \<Rightarrow> BGPAS4PathSegment pres" where
  "as_seg4 (Seg4 s) = Inr s"
| "as_seg4 (Seg2 s) = Inl Panic"

text \<open>Running a fallible function over a list, and applying one to an optional object.\<close>

fun map_r :: "('a \<Rightarrow> 'b pres) \<Rightarrow> 'a list \<Rightarrow> 'b list pres" where
  "map_r f [] = Inr []"
| "map_r f (x # xs) = bind_r (f x) (\<lambda>y. bind_r (map_r f xs) (\<lambda>ys. Inr (y # ys)))"

definition opt_r :: "('a \<Rightarrow> 'b pres) \<Rightarrow> 'a option \<Rightarrow> 'b option pres" where
  "opt_r f x = (case x of None \<Rightarrow> Inr None | Some a \<Rightarrow> bind_r (f a) (\<lambda>b. Inr (Some b)))"

section \<open>Lists of attributes\<close>

text \<open>\<open>AddPathAttrToPathAttrsByCode\<close> inserts before the last attribute with a greater code.\<close>

fun last_greater :: "u8 \<Rightarrow> nat \<Rightarrow> BGPPathAttr list \<Rightarrow> nat option \<Rightarrow> nat option" where
  "last_greater code idx [] addIdx = addIdx"
| "last_greater code idx (pa # pas) addIdx =
     last_greater code (Suc idx) pas (if PA_GetCode pa > code then Some idx else addIdx)"

definition AddPathAttrToPathAttrsByCode :: "BGPPathAttr list \<Rightarrow> u8 \<Rightarrow> BGPPathAttr \<Rightarrow> BGPPathAttr list" where
  "AddPathAttrToPathAttrsByCode pathAttrs code attr =
     (let addIdx = (case last_greater code 0 pathAttrs None of None \<Rightarrow> length pathAttrs | Some i \<Rightarrow> i)
      in take addIdx pathAttrs @ attr # drop addIdx pathAttrs)"

definition addPathAttrToPathAttrs :: "BGPPathAttr list \<Rightarrow> BGPPathAttr option \<Rightarrow> BGPPathAttr list" where
  "addPathAttrToPathAttrs pathAttrs attr =
     (case attr of None \<Rightarrow> pathAttrs | Some a \<Rightarrow> AddPathAttrToPathAttrsByCode pathAttrs (PA_GetCode a) a)"

definition AddMPReachNLRIToPathAttrs :: "BGPPathAttr list \<Rightarrow> BGPPathAttrMPReachNLRI \<Rightarrow> BGPPathAttr list" where
  "AddMPReachNLRIToPathAttrs pathAttrs mpReach =
     AddPathAttrToPathAttrsByCode pathAttrs BGPPathAttrTypeMPReachNLRI (PA_MPReachNLRI mpReach)"

definition AddMPUnreachNLRIToPathAttrs :: "BGPPathAttr list \<Rightarrow> BGPPathAttrMPUnreachNLRI \<Rightarrow> BGPPathAttr list" where
  "AddMPUnreachNLRIToPathAttrs pathAttrs mpUnreach =
     AddPathAttrToPathAttrsByCode pathAttrs BGPPathAttrTypeMPUnreachNLRI (PA_MPUnreachNLRI mpUnreach)"

definition addPathAttr :: "BGPUpdate \<Rightarrow> u8 \<Rightarrow> BGPPathAttr \<Rightarrow> BGPUpdate" where
  "addPathAttr body code attr =
     body\<lparr>PathAttributes := AddPathAttrToPathAttrsByCode (PathAttributes body) code attr\<rparr>"

fun removeTypeFromPathAttrs :: "BGPPathAttr list \<Rightarrow> u8 \<Rightarrow> BGPPathAttr list \<times> BGPPathAttr option" where
  "removeTypeFromPathAttrs [] code = ([], None)"
| "removeTypeFromPathAttrs (pa # pas) code =
     (if PA_GetCode pa = code then (pas, Some pa)
      else case removeTypeFromPathAttrs pas code of (r, x) \<Rightarrow> (pa # r, x))"

definition removePathAttr :: "BGPUpdate \<Rightarrow> u8 \<Rightarrow> BGPUpdate \<times> BGPPathAttr option" where
  "removePathAttr body code =
     (case removeTypeFromPathAttrs (PathAttributes body) code of (pas, x) \<Rightarrow> (body\<lparr>PathAttributes := pas\<rparr>, x))"

definition RemoveNextHop :: "BGPPathAttr list \<Rightarrow> BGPPathAttr list" where
  "RemoveNextHop pathAttrs = fst (removeTypeFromPathAttrs pathAttrs BGPPathAttrTypeNextHop)"

definition RemoveMultiExitDisc :: "BGPUpdate \<Rightarrow> BGPUpdate \<times> BGPPathAttr option" where
  "RemoveMultiExitDisc body = removePathAttr body BGPPathAttrTypeMultiExitDisc"

definition RemoveLocalPref :: "BGPUpdate \<Rightarrow> BGPUpdate \<times> BGPPathAttr option" where
  "RemoveLocalPref body = removePathAttr body BGPPathAttrTypeLocalPref"

definition RemoveMPAttrs ::
    "BGPPathAttr list \<Rightarrow> (BGPPathAttr list \<times> BGPPathAttrMPReachNLRI option \<times> BGPPathAttrMPUnreachNLRI option) pres" where
  "RemoveMPAttrs pathAttrs =
     (let (pas, reach) = removeTypeFromPathAttrs pathAttrs BGPPathAttrTypeMPReachNLRI in
      bind_r (opt_r as_MPReach reach) (\<lambda>mpReach.
      let (pas, unreach) = removeTypeFromPathAttrs pas BGPPathAttrTypeMPUnreachNLRI in
      bind_r (opt_r as_MPUnreach unreach) (\<lambda>mpUnreach. Inr (pas, mpReach, mpUnreach))))"

fun getTypeFromPathAttrs :: "BGPPathAttr list \<Rightarrow> u8 \<Rightarrow> BGPPathAttr option" where
  "getTypeFromPathAttrs [] code = None"
| "getTypeFromPathAttrs (pa # pas) code = (if PA_GetCode pa = code then Some pa else getTypeFromPathAttrs pas code)"

definition getPathAttr :: "BGPUpdate \<Rightarrow> u8 \<Rightarrow> BGPPathAttr option" where
  "getPathAttr body code = getTypeFromPathAttrs (PathAttributes body) code"

definition GetAtomicAggregatePathAttr :: "BGPPathAttr list \<Rightarrow> BGPPathAttr option" where
  "GetAtomicAggregatePathAttr pathAttrs = getTypeFromPathAttrs pathAttrs BGPPathAttrTypeAtomicAggregate"

definition GetMPAttrs ::
    "BGPPathAttr list \<Rightarrow> (BGPPathAttrMPReachNLRI option \<times> BGPPathAttrMPUnreachNLRI option) pres" where
  "GetMPAttrs pathAttrs =
     bind_r (opt_r as_MPReach (getTypeFromPathAttrs pathAttrs BGPPathAttrTypeMPReachNLRI)) (\<lambda>mpReach.
     bind_r (opt_r as_MPUnreach (getTypeFromPathAttrs pathAttrs BGPPathAttrTypeMPUnreachNLRI)) (\<lambda>mpUnreach.
     Inr (mpReach, mpUnreach)))"

text \<open>
  The index that \<open>SetLocalPref\<close>, \<open>AddOriginatorId\<close> and \<open>AddClusterId\<close> compute: the first attribute with a greater
  code, the length of the list when there is none, and -1 (\<open>None\<close>) for an empty list.
\<close>

fun first_greater :: "u8 \<Rightarrow> BGPPathAttr list \<Rightarrow> nat" where
  "first_greater code [] = 0"
| "first_greater code (pa # pas) = (if PA_GetCode pa > code then 0 else Suc (first_greater code pas))"

definition insert_index :: "u8 \<Rightarrow> BGPPathAttr list \<Rightarrow> nat option" where
  "insert_index code pas = (if pas = [] then None else Some (first_greater code pas))"

fun set_local_pref :: "BGPPathAttr list \<Rightarrow> u32 \<Rightarrow> BGPPathAttr list option pres" where
  "set_local_pref [] pref = Inr None"
| "set_local_pref (pa # pas) pref =
     (if PA_GetCode pa = BGPPathAttrTypeLocalPref then
        (case pa of PA_LocalPref l \<Rightarrow> Inr (Some (PA_LocalPref (l\<lparr>LocalPref_Value := pref\<rparr>) # pas)) | _ \<Rightarrow> Inl Panic)
      else bind_r (set_local_pref pas pref) (\<lambda>r. Inr (map_option (\<lambda>x. pa # x) r)))"

definition SetLocalPref :: "BGPUpdate \<Rightarrow> u32 \<Rightarrow> BGPUpdate pres" where
  "SetLocalPref body pref =
     bind_r (set_local_pref (PathAttributes body) pref) (\<lambda>found.
     case found of
       Some pas \<Rightarrow> Inr (body\<lparr>PathAttributes := pas\<rparr>)
     | None \<Rightarrow>
         let pas = PathAttributes body;
             new = PA_LocalPref (NewBGPPathAttrLocalPref\<lparr>LocalPref_Value := pref\<rparr>)
         in Inr (case insert_index BGPPathAttrTypeLocalPref pas of
                   None \<Rightarrow> body
                 | Some idx \<Rightarrow> body\<lparr>PathAttributes := take idx pas @ new # drop idx pas\<rparr>))"

definition set_next_hop :: "bytes \<Rightarrow> BGPPathAttr \<Rightarrow> BGPPathAttr pres" where
  "set_next_hop ip pa =
     (if PA_GetCode pa = BGPPathAttrTypeNextHop then
        (case pa of PA_NextHop n \<Rightarrow> Inr (PA_NextHop (n\<lparr>NextHop_Value := ip\<rparr>)) | _ \<Rightarrow> Inl Panic)
      else Inr pa)"

definition SetNextHopPathAttrs :: "BGPPathAttr list \<Rightarrow> bytes \<Rightarrow> BGPPathAttr list pres" where
  "SetNextHopPathAttrs pathAttrs nextHopIP = map_r (set_next_hop nextHopIP) pathAttrs"

definition SetNextHop :: "BGPUpdate \<Rightarrow> bytes \<Rightarrow> BGPUpdate pres" where
  "SetNextHop body nextHop =
     bind_r (SetNextHopPathAttrs (PathAttributes body) nextHop) (\<lambda>pas. Inr (body\<lparr>PathAttributes := pas\<rparr>))"

definition set_aggregator :: "u32 \<Rightarrow> bytes \<Rightarrow> BGPPathAttr \<Rightarrow> BGPPathAttr pres" where
  "set_aggregator as ip pa =
     (if PA_GetCode pa = BGPPathAttrTypeAggregator then
        bind_r (as_Aggregator pa) (\<lambda>a.
        Inr (PA_Aggregator ((BGPPathAttrAggregator_SetBGPAggregatorAS a (Agg4 as))\<lparr>Agg_IP := ip\<rparr>)))
      else Inr pa)"

definition SetPathAttrAggregator :: "BGPPathAttr list \<Rightarrow> u32 \<Rightarrow> bytes \<Rightarrow> BGPPathAttr list pres" where
  "SetPathAttrAggregator pathAttrs as ip = map_r (set_aggregator as ip) pathAttrs"

text \<open>
  \<open>AddOriginatorId\<close>: \<open>append(PathAttributes[:idx], x)\<close> is a slice of \<open>idx + 1\<close> elements; the \<open>copy\<close> that follows has
  nothing to move, so the attributes from \<open>idx\<close> on are gone.
\<close>

definition AddOriginatorId :: "BGPUpdate \<Rightarrow> bytes \<Rightarrow> BGPUpdate \<times> bool" where
  "AddOriginatorId body ident =
     (let pas = PathAttributes body in
      if list_ex (\<lambda>pa. PA_GetCode pa = BGPPathAttrTypeOriginatorId) pas then (body, False)
      else (case insert_index BGPPathAttrTypeOriginatorId pas of
              None \<Rightarrow> body
            | Some idx \<Rightarrow> body\<lparr>PathAttributes := take idx pas @ [PA_OriginatorId (NewBGPPathAttrOriginatorId ident)]\<rparr>,
            True))"

definition RemoveOriginatorId :: "BGPUpdate \<Rightarrow> BGPUpdate" where
  "RemoveOriginatorId body = fst (removePathAttr body BGPPathAttrTypeOriginatorId)"

text \<open>The loop of \<open>AddClusterId\<close>: the cluster list if there is one, else the index to insert at.\<close>

fun cluster_index :: "BGPPathAttr list \<Rightarrow> nat \<Rightarrow> nat option \<Rightarrow> nat option \<times> bool" where
  "cluster_index [] i idx = (idx, False)"
| "cluster_index (pa # pas) i idx =
     (if PA_GetCode pa = BGPPathAttrTypeClusterList then (Some i, True)
      else cluster_index pas (Suc i)
             (if idx = None then
                (if PA_GetCode pa > BGPPathAttrTypeClusterList then Some i
                 else if pas = [] then Some (Suc i) else None)
              else idx))"

definition prepend_cluster :: "BGPPathAttr \<Rightarrow> u32 \<Rightarrow> BGPPathAttr pres" where
  "prepend_cluster pa ident =
     (case pa of PA_ClusterList c \<Rightarrow> Inr (PA_ClusterList (BGPPathAttrClusterList_PrependId c ident)) | _ \<Rightarrow> Inl Panic)"

definition AddClusterId :: "BGPUpdate \<Rightarrow> u32 \<Rightarrow> (BGPUpdate \<times> bool) pres" where
  "AddClusterId body ident =
     (case cluster_index (PathAttributes body) 0 None of
        (None, _) \<Rightarrow> Inr (body, False)
      | (Some idx, found) \<Rightarrow>
          let pas = (if found then PathAttributes body
                     else take idx (PathAttributes body) @ [PA_ClusterList NewBGPPathAttrClusterList])
          in bind_r (index_r pas idx) (\<lambda>pa.
             bind_r (prepend_cluster pa ident) (\<lambda>pa'. Inr (body\<lparr>PathAttributes := pas[idx := pa']\<rparr>, True))))"

definition RemoveClusterList :: "BGPUpdate \<Rightarrow> BGPUpdate" where
  "RemoveClusterList body = fst (removePathAttr body BGPPathAttrTypeClusterList)"

text \<open>\<open>uint32(bytes[1]<<16)\<close> shifts a byte, which leaves nothing of it.\<close>

definition ConvertIPBytesToUint :: "bytes \<Rightarrow> u32 pres" where
  "ConvertIPBytesToUint bs =
     bind_r (index_r bs 0) (\<lambda>b0. bind_r (index_r bs 1) (\<lambda>b1.
     bind_r (index_r bs 2) (\<lambda>b2. bind_r (index_r bs 3) (\<lambda>b3.
     Inr (push_bit 24 (ucast b0) OR ucast (push_bit 16 b1) OR ucast (push_bit 8 b2) OR ucast b3)))))"

section \<open>Accessors\<close>

definition HasMPAttrs :: "BGPPathAttr list \<Rightarrow> bool" where
  "HasMPAttrs pathAttrs =
     list_ex (\<lambda>a. PA_GetCode a = BGPPathAttrTypeMPReachNLRI \<or> PA_GetCode a = BGPPathAttrTypeMPUnreachNLRI) pathAttrs"

definition HasMPReachNLRI :: "BGPPathAttr list \<Rightarrow> bool" where
  "HasMPReachNLRI pathAttrs = list_ex (\<lambda>a. PA_GetCode a = BGPPathAttrTypeMPReachNLRI) pathAttrs"

text \<open>The loops of \<open>HasASLoop\<close> over the segments of the first AS path: the assertion follows \<open>ASSize\<close>.\<close>

fun segs_have_as :: "u8 \<Rightarrow> u32 \<Rightarrow> BGPASPathSegment list \<Rightarrow> bool pres" where
  "segs_have_as asSize localAS [] = Inr False"
| "segs_have_as asSize localAS (s # ss) =
     (if asSize = 4 then
        bind_r (as_seg4 s) (\<lambda>seg. if localAS \<in> set (AS4_AS seg) then Inr True else segs_have_as asSize localAS ss)
      else
        bind_r (as_seg2 s) (\<lambda>seg. if ucast localAS \<in> set (AS2_AS seg) then Inr True
                                   else segs_have_as asSize localAS ss))"

definition HasASLoop :: "BGPPathAttr list \<Rightarrow> u32 \<Rightarrow> bool pres" where
  "HasASLoop pathAttrs localAS =
     (case getTypeFromPathAttrs pathAttrs BGPPathAttrTypeASPath of
        None \<Rightarrow> Inr False
      | Some attr \<Rightarrow> bind_r (as_ASPath attr) (\<lambda>a. segs_have_as (ASPath_ASSize a) localAS (ASPath_Value a)))"

definition GetNumASes :: "BGPPathAttr list \<Rightarrow> u32 pres" where
  "GetNumASes pathAttrs =
     (case getTypeFromPathAttrs pathAttrs BGPPathAttrTypeASPath of
        None \<Rightarrow> Inr 0
      | Some attr \<Rightarrow> bind_r (as_ASPath attr) (\<lambda>a. Inr (sum_list (map (\<lambda>s. ucast (Seg_GetNumASes s)) (ASPath_Value a)))))"

definition GetOrigin :: "BGPPathAttr list \<Rightarrow> u8 pres" where
  "GetOrigin pathAttrs =
     (case getTypeFromPathAttrs pathAttrs BGPPathAttrTypeOrigin of
        None \<Rightarrow> Inr BGPPathAttrOriginMax
      | Some (PA_Origin a) \<Rightarrow> Inr (Origin_Value a)
      | Some _ \<Rightarrow> Inl Panic)"

definition GetMED :: "BGPPathAttr list \<Rightarrow> (u32 \<times> bool) pres" where
  "GetMED pathAttrs =
     (case getTypeFromPathAttrs pathAttrs BGPPathAttrTypeMultiExitDisc of
        None \<Rightarrow> Inr (0, False)
      | Some (PA_MultiExitDisc a) \<Rightarrow> Inr (MED_Value a, True)
      | Some _ \<Rightarrow> Inl Panic)"

definition GetNextHop :: "BGPPathAttr list \<Rightarrow> bytes pres" where
  "GetNextHop pathAttrs =
     (case getTypeFromPathAttrs pathAttrs BGPPathAttrTypeNextHop of
        None \<Rightarrow> Inr (IPv4 0 0 0 0)
      | Some (PA_NextHop a) \<Rightarrow> Inr (NextHop_Value a)
      | Some _ \<Rightarrow> Inl Panic)"

definition GetNumClusters :: "BGPPathAttr list \<Rightarrow> u16 pres" where
  "GetNumClusters pathAttrs =
     (case getTypeFromPathAttrs pathAttrs BGPPathAttrTypeClusterList of
        None \<Rightarrow> Inr 0
      | Some (PA_ClusterList a) \<Rightarrow> Inr (Attr_Length (Cluster_Base a) div 4)
      | Some _ \<Rightarrow> Inl Panic)"

section \<open>Building attributes\<close>

definition ConstructPathAttrForConnRoutes :: "u32 \<Rightarrow> BGPPathAttr list" where
  "ConstructPathAttrForConnRoutes as =
     [PA_Origin (NewBGPPathAttrOrigin 2), PA_ASPath NewBGPPathAttrASPath,
      PA_NextHop (NewBGPPathAttrNextHop\<lparr>NextHop_Value := IPv4 0 0 0 0\<rparr>)]"

definition ConstructMPUnreachNLRI :: "AFI \<Rightarrow> SAFI \<Rightarrow> NLRI list \<Rightarrow> BGPPathAttrMPUnreachNLRI" where
  "ConstructMPUnreachNLRI afi safi nlriList =
     BGPPathAttrMPUnreachNLRI_AddNLRIList
       (NewBGPPathAttrMPUnreachNLRI\<lparr>Unreach_AFI := afi, Unreach_SAFI := safi\<rparr>) nlriList"

definition ConstructMPUnreachNLRIFromProtoFamily :: "u32 \<Rightarrow> NLRI list \<Rightarrow> BGPPathAttrMPUnreachNLRI" where
  "ConstructMPUnreachNLRIFromProtoFamily protoFamily nlriList =
     (case GetAfiSafi protoFamily of (afi, safi) \<Rightarrow> ConstructMPUnreachNLRI afi safi nlriList)"

text \<open>An error of \<open>SetGlobalNextHop\<close> or \<open>SetLinkLocalNextHop\<close> is ignored, and the object stays as it was.\<close>

definition keep_on_error :: "'a \<Rightarrow> 'a pres \<Rightarrow> 'a pres" where
  "keep_on_error x r = (case r of Inl (Error _) \<Rightarrow> Inr x | _ \<Rightarrow> r)"

text \<open>\<open>nextHopLinkLocal.To16() == nil\<close> holds of slices that are neither 4 nor 16 bytes long.\<close>

definition ConstructIPv6MPReachNLRI :: "u32 \<Rightarrow> bytes \<Rightarrow> bytes option \<Rightarrow> NLRI list \<Rightarrow> BGPPathAttrMPReachNLRI pres" where
  "ConstructIPv6MPReachNLRI protoFamily nextHop nextHopLinkLocal nlriList =
     (case GetAfiSafi protoFamily of (afi, safi) \<Rightarrow>
      bind_r (keep_on_error NewMPNextHopIP6 (MPNextHopIP6_SetGlobalNextHop NewMPNextHopIP6 nextHop)) (\<lambda>nh.
      bind_r (case nextHopLinkLocal of
                None \<Rightarrow> Inr nh
              | Some ll \<Rightarrow> if length ll \<noteq> 4 \<and> length ll \<noteq> 16
                           then keep_on_error nh (MPNextHopIP6_SetLinkLocalNextHop nh ll) else Inr nh) (\<lambda>nh.
      Inr (BGPPathAttrMPReachNLRI_SetNLRIList
             (BGPPathAttrMPReachNLRI_SetNextHop
                (NewBGPPathAttrMPReachNLRI\<lparr>Reach_AFI := afi, Reach_SAFI := safi\<rparr>) (NH_IP6 nh)) nlriList))))"

definition ConstructIPv6MPReachNLRIForConnRoutes :: "u32 \<Rightarrow> BGPPathAttrMPReachNLRI pres" where
  "ConstructIPv6MPReachNLRIForConnRoutes protoFamily =
     ConstructIPv6MPReachNLRI protoFamily (replicate 16 0) None []"

definition ConstructMPReachNLRIForAggRoutes :: "u32 \<Rightarrow> BGPPathAttrMPReachNLRI pres" where
  "ConstructMPReachNLRIForAggRoutes protoFamily =
     (case GetAfiSafi protoFamily of (afi, safi) \<Rightarrow>
      bind_r (keep_on_error NewMPNextHopIP (MPNextHopIP_SetNextHop NewMPNextHopIP (replicate 16 0))) (\<lambda>nh.
      Inr (BGPPathAttrMPReachNLRI_SetNextHop
             (NewBGPPathAttrMPReachNLRI\<lparr>Reach_AFI := afi, Reach_SAFI := safi\<rparr>) (NH_IP nh))))"

definition CloneMPReachNLRIWithNewNLRI :: "BGPPathAttrMPReachNLRI \<Rightarrow> NLRI list \<Rightarrow> BGPPathAttrMPReachNLRI pres" where
  "CloneMPReachNLRIWithNewNLRI r nlri =
     (case Reach_NextHop r of
        None \<Rightarrow> Inl Panic
      | Some nh \<Rightarrow>
          Inr (BGPPathAttrMPReachNLRI_SetNLRIList
                 (BGPPathAttrMPReachNLRI_SetNextHop
                    (NewBGPPathAttrMPReachNLRI\<lparr>Reach_AFI := Reach_AFI r, Reach_SAFI := Reach_SAFI r\<rparr>) nh) nlri))"

section \<open>AS paths\<close>

text \<open>
  \<open>PrependAS\<close>: the parameter \<open>AS\<close> is assigned when a two-byte segment is added, and keeps that value for the
  attributes that follow. On an AS4_PATH the last statement asserts the wrong type.
\<close>

definition prepend_as_path :: "BGPPathAttrASPath \<Rightarrow> u32 \<Rightarrow> u8 \<Rightarrow> (BGPPathAttrASPath \<times> u32) pres" where
  "prepend_as_path a AS asSize =
     (let needs_seg = (case ASPath_Value a of
                         [] \<Rightarrow> True
                       | s # _ \<Rightarrow> Seg_GetType s = BGPASPathSegmentSet \<or> Seg_GetLen s \<ge> 255);
          AS' = (if needs_seg \<and> asSize = 2 \<and> AS > 65535 then ucast BGPASTrans else AS);
          a1 = (if needs_seg then
                  BGPPathAttrASPath_PrependASPathSegment a
                    (if asSize = 4 then Seg4 NewBGPAS4PathSegmentSeq else Seg2 NewBGPAS2PathSegmentSeq)
                else a)
      in case ASPath_Value a1 of
           [] \<Rightarrow> Inl Panic
         | s # ss \<Rightarrow>
             Inr (a1\<lparr>ASPath_Value := fst (Seg_PrependAS s AS') # ss,
                     ASPath_Base := (ASPath_Base a1)\<lparr>Attr_Length := Attr_Length (ASPath_Base a1) + ucast asSize\<rparr>\<rparr>, AS'))"

fun prepend_attrs :: "BGPPathAttr list \<Rightarrow> u32 \<Rightarrow> u8 \<Rightarrow> BGPPathAttr list pres" where
  "prepend_attrs [] AS asSize = Inr []"
| "prepend_attrs (pa # pas) AS asSize =
     (if PA_GetCode pa = BGPPathAttrTypeASPath then
        bind_r (as_ASPath pa) (\<lambda>a.
        bind_r (prepend_as_path a AS asSize) (\<lambda>(a', AS').
        bind_r (prepend_attrs pas AS' asSize) (\<lambda>r. Inr (PA_ASPath a' # r))))
      else if PA_GetCode pa = BGPPathAttrTypeAS4Path then Inl Panic
      else bind_r (prepend_attrs pas AS asSize) (\<lambda>r. Inr (pa # r)))"

definition PrependAS :: "BGPUpdate \<Rightarrow> u32 \<Rightarrow> u8 \<Rightarrow> BGPUpdate pres" where
  "PrependAS body AS asSize =
     bind_r (prepend_attrs (PathAttributes body) AS asSize) (\<lambda>pas. Inr (body\<lparr>PathAttributes := pas\<rparr>))"

definition GetNumASesByASType :: "BGPUpdate \<Rightarrow> u8 \<Rightarrow> u32 pres" where
  "GetNumASesByASType body asType =
     (if asType \<noteq> BGPPathAttrTypeASPath \<and> asType \<noteq> BGPPathAttrTypeAS4Path then Inr 0
      else case getTypeFromPathAttrs (PathAttributes body) BGPPathAttrTypeASPath of
        None \<Rightarrow> Inr 0
      | Some attr \<Rightarrow> bind_r (as_ASPath attr) (\<lambda>a.
          Inr (sum_list (map (\<lambda>s. if Seg_GetType s = BGPASPathSegmentSet then 1
                                   else if Seg_GetType s = BGPASPathSegmentSequence then ucast (Seg_GetLen s)
                                   else 0) (ASPath_Value a)))))"

text \<open>One segment of \<open>ConvertAS2ToAS4\<close>: the new slice has \<open>Length\<close> elements and is assigned by index.\<close>

definition seg2_to_seg4 :: "BGPASPathSegment \<Rightarrow> BGPASPathSegment pres" where
  "seg2_to_seg4 s =
     bind_r (as_seg2 s) (\<lambda>s2.
     let l = Seg_Length (AS2_Base s2); b = AS4_Base NewBGPAS4PathSegmentSeq in
     if length (AS2_AS s2) > unat l then Inl Panic
     else Inr (Seg4 \<lparr>AS4_Base = \<lparr>Seg_Type = Seg_Type (AS2_Base s2), Seg_Length = l, Seg_Len = Seg_Len b + ucast l * 4\<rparr>,
                     AS4_AS = map ucast (AS2_AS s2) @ replicate (unat l - length (AS2_AS s2)) 0\<rparr>))"

text \<open>Replacing the first AS path of the list.\<close>

fun replace_as_path :: "(BGPPathAttrASPath \<Rightarrow> BGPPathAttrASPath pres) \<Rightarrow> BGPPathAttr list \<Rightarrow> BGPPathAttr list pres" where
  "replace_as_path f [] = Inr []"
| "replace_as_path f (pa # pas) =
     (if PA_GetCode pa = BGPPathAttrTypeASPath then
        bind_r (as_ASPath pa) (\<lambda>a. bind_r (f a) (\<lambda>a'. Inr (PA_ASPath a' # pas)))
      else bind_r (replace_as_path f pas) (\<lambda>r. Inr (pa # r)))"

definition ConvertAS2ToAS4 :: "BGPUpdate \<Rightarrow> BGPUpdate pres" where
  "ConvertAS2ToAS4 body =
     bind_r (replace_as_path (\<lambda>a.
       bind_r (map_r seg2_to_seg4 (ASPath_Value a)) (\<lambda>segs.
       Inr (foldl BGPPathAttrASPath_AppendASPathSegment NewBGPPathAttrASPath segs))) (PathAttributes body)) (\<lambda>pas.
     Inr (body\<lparr>PathAttributes := pas\<rparr>))"

text \<open>
  \<open>ConstructASPathFromAS4Path\<close>. The first loop copies whole segments while they fit in \<open>skip\<close>; it writes the AS
  numbers into a slice of length 0, so a segment that has any panics. It leaves the index of the segment it
  stopped at. In the second loop nothing changes \<open>asNum\<close>.
\<close>

fun skip_segments ::
    "BGPASPathSegment list \<Rightarrow> nat \<Rightarrow> u16 \<Rightarrow> u16 \<Rightarrow> BGPPathAttrASPath \<Rightarrow> (nat \<times> u16 \<times> BGPPathAttrASPath) pres" where
  "skip_segments [] idx asNum skip acc = Inr (idx - 1, asNum, acc)"
| "skip_segments (s # ss) idx asNum skip acc =
     (if ucast (Seg_GetNumASes s) + asNum > skip then Inr (idx, asNum, acc)
      else bind_r (as_seg2 s) (\<lambda>seg.
        if AS2_AS seg \<noteq> [] then Inl Panic
        else
          let b = AS2_Base seg; n = AS4_Base NewBGPAS4PathSegmentSeq in
          skip_segments ss (Suc idx) (asNum + ucast (BGPAS2PathSegment_GetNumASes seg)) skip
            (BGPPathAttrASPath_AppendASPathSegment acc
               (Seg4 \<lparr>AS4_Base = \<lparr>Seg_Type = Seg_Type b, Seg_Length = Seg_Length b,
                                    Seg_Len = Seg_Len n + ucast (Seg_Length b) * 4\<rparr>,
                      AS4_AS = []\<rparr>))))"

definition ConstructASPathFromAS4Path ::
    "BGPPathAttrASPath \<Rightarrow> BGPPathAttrAS4Path \<Rightarrow> u16 \<Rightarrow> BGPPathAttrASPath pres" where
  "ConstructASPathFromAS4Path asPath as4Path skip =
     bind_r (skip_segments (ASPath_Value asPath) 0 0 skip NewBGPPathAttrASPath) (\<lambda>(segIdx, asNum, acc).
     if AS4Path_Value as4Path = [] then Inr acc
     else
       bind_r (bind_r (index_r (ASPath_Value asPath) segIdx) as_seg2) (\<lambda>seg.
       if asNum < skip then
         bind_r (index_r (AS2_AS seg) (unat (skip - asNum - 1))) (\<lambda>_. Inl Diverges)
       else Inr (foldl BGPPathAttrASPath_AppendASPathSegment acc (map Seg4 (AS4Path_Value as4Path)))))"

definition Convert4ByteTo2ByteASPath :: "BGPUpdate \<Rightarrow> BGPUpdate pres" where
  "Convert4ByteTo2ByteASPath body =
     (case getTypeFromPathAttrs (PathAttributes body) BGPPathAttrTypeASPath of
        None \<Rightarrow> Inr body
      | Some pa \<Rightarrow>
          bind_r (as_ASPath pa) (\<lambda>asPath.
          bind_r (CloneAsAS4Path asPath) (\<lambda>newAS4Path.
          bind_r (map_r as_seg4 (ASPath_Value asPath)) (\<lambda>segs.
          let converted = map CloneAsAS2PathSegment segs;
              newAS2Path = foldl BGPPathAttrASPath_AppendASPathSegment NewBGPPathAttrASPath (map (Seg2 \<circ> fst) converted)
          in bind_r (replace_as_path (\<lambda>_. Inr newAS2Path) (PathAttributes body)) (\<lambda>pas.
             let body = body\<lparr>PathAttributes := pas\<rparr> in
             Inr (if list_ex (\<lambda>c. \<not> snd c) converted
                  then addPathAttr body BGPPathAttrTypeAS4Path (PA_AS4Path newAS4Path) else body))))))"

section \<open>Normalising a received path\<close>

record norm_attrs =
  N_asPath :: "BGPPathAttrASPath option"
  N_as4Path :: "BGPPathAttrAS4Path option"
  N_asAggregator :: "BGPPathAttrAggregator option"
  N_as4Aggregator :: "BGPPathAttrAS4Aggregator option"

text \<open>The loop of \<open>NormalizeASPath\<close>: the last attribute of each kind is kept.\<close>

fun norm_scan :: "BGPPathAttr list \<Rightarrow> norm_attrs \<Rightarrow> norm_attrs pres" where
  "norm_scan [] n = Inr n"
| "norm_scan (pa # pas) n =
     (if PA_GetCode pa = BGPPathAttrTypeASPath then
        bind_r (as_ASPath pa) (\<lambda>a. norm_scan pas (n\<lparr>N_asPath := Some a\<rparr>))
      else if PA_GetCode pa = BGPPathAttrTypeAS4Path then
        bind_r (as_AS4Path pa) (\<lambda>a. norm_scan pas (n\<lparr>N_as4Path := Some a\<rparr>))
      else if PA_GetCode pa = BGPPathAttrTypeAggregator then
        bind_r (as_Aggregator pa) (\<lambda>a. norm_scan pas (n\<lparr>N_asAggregator := Some a\<rparr>))
      else if PA_GetCode pa = BGPPathAttrTypeAS4Aggregator then
        bind_r (as_AS4Aggregator pa) (\<lambda>a. norm_scan pas (n\<lparr>N_as4Aggregator := Some a\<rparr>))
      else norm_scan pas n)"

definition no_norm_attrs :: norm_attrs where
  "no_norm_attrs = \<lparr>N_asPath = None, N_as4Path = None, N_asAggregator = None, N_as4Aggregator = None\<rparr>"

text \<open>\<open>asAggregator != nil && as4Aggregator != nil && uint16(asAggregator.AS.GetAS()) != BGPASTrans\<close>\<close>

definition aggregator_not_trans :: "norm_attrs \<Rightarrow> bool pres" where
  "aggregator_not_trans n =
     (case (N_asAggregator n, N_as4Aggregator n) of
        (Some agg, Some _) \<Rightarrow>
          (case Agg_AS agg of None \<Rightarrow> Inl Panic | Some as \<Rightarrow> Inr ((ucast (BGPAggregatorAS_GetAS as) :: u16) \<noteq> BGPASTrans))
      | _ \<Rightarrow> Inr False)"

definition norm_two_byte :: "BGPUpdate \<Rightarrow> BGPPathAttrASPath \<Rightarrow> norm_attrs \<Rightarrow> BGPUpdate pres" where
  "norm_two_byte body asPath n =
     bind_r (aggregator_not_trans n) (\<lambda>c.
     if c then Inr (fst (removePathAttr (fst (removePathAttr body BGPPathAttrTypeAS4Aggregator)) BGPPathAttrTypeAS4Path))
     else
       bind_r (ConvertAS2ToAS4 body) (\<lambda>body.
       case N_as4Path n of
         None \<Rightarrow> Inr body
       | Some as4Path \<Rightarrow>
           bind_r (GetNumASesByASType body BGPPathAttrTypeASPath) (\<lambda>numASes.
           bind_r (GetNumASesByASType body BGPPathAttrTypeAS4Path) (\<lambda>numAS4es.
           if numASes \<ge> numAS4es then
             bind_r (ConstructASPathFromAS4Path asPath as4Path (ucast (numASes - numAS4es))) (\<lambda>newASPath.
             let body = fst (removePathAttr body BGPPathAttrTypeAS4Path);
                 body = fst (removePathAttr body BGPPathAttrTypeASPath)
             in Inr (addPathAttr body BGPPathAttrTypeASPath (PA_ASPath newASPath)))
           else Inr body))))"

definition NormalizeASPath :: "BGPUpdate \<Rightarrow> BGPUpdate pres" where
  "NormalizeASPath body =
     (if TotalPathAttrLen body = 0 then Inr body
      else bind_r (norm_scan (PathAttributes body) no_norm_attrs) (\<lambda>n.
        case N_asPath n of
          None \<Rightarrow> Inr body
        | Some asPath \<Rightarrow>
            if ASPath_ASSize asPath = 2 then norm_two_byte body asPath n
            else if ASPath_ASSize asPath = 4 then
              let body = (if N_as4Aggregator n \<noteq> None then fst (removePathAttr body BGPPathAttrTypeAS4Aggregator) else body)
              in Inr (if N_as4Path n \<noteq> None then fst (removePathAttr body BGPPathAttrTypeAS4Path) else body)
            else Inr body))"

section \<open>Attribute lists as sorted, typed lists\<close>

text \<open>
  Each attribute is the one its code names, as \<open>BGPGetPathAttr\<close> allocates them: the type assertions of the
  helpers then succeed.
\<close>

fun code_matches :: "BGPPathAttr \<Rightarrow> bool" where
  "code_matches (PA_Origin a) \<longleftrightarrow> Code (Origin_Base a) = 1"
| "code_matches (PA_ASPath a) \<longleftrightarrow> Code (ASPath_Base a) = 2"
| "code_matches (PA_NextHop a) \<longleftrightarrow> Code (NextHop_Base a) = 3"
| "code_matches (PA_MultiExitDisc a) \<longleftrightarrow> Code (MED_Base a) = 4"
| "code_matches (PA_LocalPref a) \<longleftrightarrow> Code (LocalPref_Base a) = 5"
| "code_matches (PA_AtomicAggregate a) \<longleftrightarrow> Code (Atomic_Base a) = 6"
| "code_matches (PA_Aggregator a) \<longleftrightarrow> Code (Agg_Base a) = 7"
| "code_matches (PA_OriginatorId a) \<longleftrightarrow> Code (OrigId_Base a) = 9"
| "code_matches (PA_ClusterList a) \<longleftrightarrow> Code (Cluster_Base a) = 10"
| "code_matches (PA_MPReachNLRI a) \<longleftrightarrow> Code (Reach_Base a) = 14"
| "code_matches (PA_MPUnreachNLRI a) \<longleftrightarrow> Code (Unreach_Base a) = 15"
| "code_matches (PA_AS4Path a) \<longleftrightarrow> Code (AS4Path_Base a) = 17"
| "code_matches (PA_AS4Aggregator a) \<longleftrightarrow> Code (Agg4_Base a) = 18"
| "code_matches (PA_Unknown a) \<longleftrightarrow> Code (Unknown_Base a) \<notin> known_codes"

lemma code_matches_cases:
  assumes "code_matches pa"
  shows "PA_GetCode pa = 1 \<longleftrightarrow> (\<exists>a. pa = PA_Origin a)" "PA_GetCode pa = 2 \<longleftrightarrow> (\<exists>a. pa = PA_ASPath a)"
    "PA_GetCode pa = 3 \<longleftrightarrow> (\<exists>a. pa = PA_NextHop a)" "PA_GetCode pa = 4 \<longleftrightarrow> (\<exists>a. pa = PA_MultiExitDisc a)"
    "PA_GetCode pa = 5 \<longleftrightarrow> (\<exists>a. pa = PA_LocalPref a)" "PA_GetCode pa = 7 \<longleftrightarrow> (\<exists>a. pa = PA_Aggregator a)"
    "PA_GetCode pa = 10 \<longleftrightarrow> (\<exists>a. pa = PA_ClusterList a)" "PA_GetCode pa = 14 \<longleftrightarrow> (\<exists>a. pa = PA_MPReachNLRI a)"
    "PA_GetCode pa = 15 \<longleftrightarrow> (\<exists>a. pa = PA_MPUnreachNLRI a)" "PA_GetCode pa = 17 \<longleftrightarrow> (\<exists>a. pa = PA_AS4Path a)"
    "PA_GetCode pa = 18 \<longleftrightarrow> (\<exists>a. pa = PA_AS4Aggregator a)"
  using assms by (cases pa; simp add: PA_GetCode_def known_codes_def)+

text \<open>Decoding gives attributes whose code matches.\<close>

lemma BGPPathAttrBase_Decode_code: "BGPPathAttrBase_Decode pkt = Inr b \<Longrightarrow> Code b = pkt ! 1"
  by (auto simp: BGPPathAttrBase_Decode_Inr hdr_bytes_def)

lemma PA_Decode_code_matches: "PA_Decode peer pkt = Inr pa \<Longrightarrow> code_matches pa"
  by (auto simp: PA_Decode_def attr_of_code_def bind_r_eq_Inr index_r_eq_Inr Let_def known_codes_def
      BGPPathAttrOrigin_Decode_def BGPPathAttrASPath_Decode_def BGPPathAttrNextHop_Decode_def
      BGPPathAttrMultiExitDisc_Decode_def BGPPathAttrLocalPref_Decode_def BGPPathAttrAtomicAggregate_Decode_def
      BGPPathAttrAggregator_Decode_def BGPPathAttrOriginatorId_Decode_def BGPPathAttrClusterList_Decode_def
      BGPPathAttrMPReachNLRI_Decode_def BGPPathAttrMPUnreachNLRI_Decode_def BGPPathAttrAS4Path_Decode_def
      BGPPathAttrAS4Aggregator_Decode_def BGPPathAttrUnknown_Decode_def
      split: if_splits prod.splits dest!: BGPPathAttrBase_Decode_code)

definition codes_sorted :: "BGPPathAttr list \<Rightarrow> bool" where
  "codes_sorted pas \<longleftrightarrow> sorted (map PA_GetCode pas)"

text \<open>Insertion before the first greater code keeps a sorted list sorted.\<close>

lemma first_greater_le: "first_greater c pas \<le> length pas"
  by (induction pas) auto

lemma insert_first_greater_sorted:
  "codes_sorted pas \<Longrightarrow> PA_GetCode x = c \<Longrightarrow>
   codes_sorted (take (first_greater c pas) pas @ x # drop (first_greater c pas) pas)"
proof (induction pas)
  case Nil
  then show ?case by (simp add: codes_sorted_def)
next
  case (Cons pa pas)
  show ?case
  proof (cases "PA_GetCode pa > c")
    case True
    then show ?thesis using Cons.prems by (auto simp: codes_sorted_def intro: order.trans less_imp_le)
  next
    case False
    have "codes_sorted (take (first_greater c pas) pas @ x # drop (first_greater c pas) pas)"
      using Cons by (simp add: codes_sorted_def)
    moreover have "\<forall>y \<in> set (take (first_greater c pas) pas @ x # drop (first_greater c pas) pas).
        PA_GetCode pa \<le> PA_GetCode y"
      using Cons.prems False by (auto simp: codes_sorted_def dest: in_set_takeD in_set_dropD)
    ultimately show ?thesis using False by (auto simp: codes_sorted_def)
  qed
qed

text \<open>
  \<open>SetLocalPref\<close> on a list in the order of the codes: the result is in order, has the local preference asked
  for, and every other attribute is unchanged.
\<close>

lemma SetLocalPref_found:
  assumes "list_all code_matches pas" "set_local_pref pas pref = Inr (Some pas')"
  shows "map PA_GetCode pas' = map PA_GetCode pas \<and>
         filter (\<lambda>pa. PA_GetCode pa \<noteq> 5) pas' = filter (\<lambda>pa. PA_GetCode pa \<noteq> 5) pas \<and>
         (\<exists>l. getTypeFromPathAttrs pas' 5 = Some (PA_LocalPref l) \<and> LocalPref_Value l = pref)"
  using assms
proof (induction pas arbitrary: pas')
  case Nil
  then show ?case by simp
next
  case (Cons pa pas)
  show ?case
  proof (cases "PA_GetCode pa = 5")
    case True
    then obtain l where "pa = PA_LocalPref l" using Cons.prems(1) code_matches_cases(5) [of pa] by auto
    with True Cons.prems(2) show ?thesis by (auto simp: PA_GetCode_def)
  next
    case False
    with Cons.prems obtain p where "set_local_pref pas pref = Inr (Some p)" "pas' = pa # p"
      by (auto simp: bind_r_eq_Inr)
    with Cons False show ?thesis by auto
  qed
qed

lemma set_local_pref_none:
  "set_local_pref pas pref = Inr None \<longleftrightarrow> 5 \<notin> set (map PA_GetCode pas)"
  by (induction pas) (auto simp: bind_r_eq_Inr split: BGPPathAttr.splits)

lemma set_local_pref_total: "list_all code_matches pas \<Longrightarrow> \<exists>r. set_local_pref pas pref = Inr r"
proof (induction pas)
  case (Cons pa pas)
  then show ?case using code_matches_cases(5) [of pa] by auto
qed simp

lemma getType_append:
  "getTypeFromPathAttrs (xs @ ys) c =
     (case getTypeFromPathAttrs xs c of None \<Rightarrow> getTypeFromPathAttrs ys c | Some x \<Rightarrow> Some x)"
  by (induction xs) auto

lemma getType_none: "getTypeFromPathAttrs pas c = None \<longleftrightarrow> c \<notin> set (map PA_GetCode pas)"
  by (induction pas) auto

lemma getType_some: "getTypeFromPathAttrs pas c = Some pa \<Longrightarrow> pa \<in> set pas \<and> PA_GetCode pa = c"
  by (induction pas) (auto split: if_splits)

lemma filter_insert_other:
  "PA_GetCode x = c \<Longrightarrow> filter (\<lambda>pa. PA_GetCode pa \<noteq> c) (take n pas @ x # drop n pas)
     = filter (\<lambda>pa. PA_GetCode pa \<noteq> c) pas"
  using filter_append [of "\<lambda>pa. PA_GetCode pa \<noteq> c" "take n pas" "drop n pas"] by simp

lemma SetLocalPref_spec:
  assumes "list_all code_matches (PathAttributes body)" "codes_sorted (PathAttributes body)" "PathAttributes body \<noteq> []"
  shows "\<exists>body'. SetLocalPref body pref = Inr body' \<and> codes_sorted (PathAttributes body') \<and>
           filter (\<lambda>pa. PA_GetCode pa \<noteq> 5) (PathAttributes body') = filter (\<lambda>pa. PA_GetCode pa \<noteq> 5) (PathAttributes body) \<and>
           (\<exists>l. getTypeFromPathAttrs (PathAttributes body') 5 = Some (PA_LocalPref l) \<and> LocalPref_Value l = pref)"
proof -
  let ?pas = "PathAttributes body"
  obtain r where r: "set_local_pref ?pas pref = Inr r" using set_local_pref_total assms(1) by blast
  show ?thesis
  proof (cases r)
    case (Some pas')
    with r have "SetLocalPref body pref = Inr (body\<lparr>PathAttributes := pas'\<rparr>)" by (simp add: SetLocalPref_def)
    then show ?thesis
      using SetLocalPref_found [OF assms(1)] r Some assms(2) by (auto simp: codes_sorted_def)
  next
    case None
    let ?l = "NewBGPPathAttrLocalPref\<lparr>LocalPref_Value := pref\<rparr>" and ?i = "first_greater 5 ?pas"
    have c: "PA_GetCode (PA_LocalPref ?l) = 5" by (simp add: PA_GetCode_def NewBGPPathAttrLocalPref_def)
    have "5 \<notin> set (map PA_GetCode ?pas)" using r None set_local_pref_none by simp
    then have "5 \<notin> set (map PA_GetCode (take ?i ?pas))" using set_take_subset by fastforce
    then have "getTypeFromPathAttrs (take ?i ?pas @ PA_LocalPref ?l # drop ?i ?pas) 5 = Some (PA_LocalPref ?l)"
      using c by (simp add: getType_append getType_none [THEN iffD2])
    moreover have "SetLocalPref body pref
        = Inr (body\<lparr>PathAttributes := take ?i ?pas @ PA_LocalPref ?l # drop ?i ?pas\<rparr>)"
      using r None assms(3) by (simp add: SetLocalPref_def insert_index_def Let_def)
    ultimately show ?thesis
      using insert_first_greater_sorted [OF assms(2) c] filter_insert_other [OF c] by auto
  qed
qed

section \<open>Adding and removing by code\<close>

lemma removeType_fst:
  "distinct (map PA_GetCode pas) \<Longrightarrow>
   removeTypeFromPathAttrs pas c = (filter (\<lambda>pa. PA_GetCode pa \<noteq> c) pas, getTypeFromPathAttrs pas c)"
proof (induction pas)
  case (Cons pa pas)
  show ?case
  proof (cases "PA_GetCode pa = c")
    case True
    have "filter (\<lambda>pa. PA_GetCode pa \<noteq> c) pas = pas"
      using Cons.prems True by (intro filter_True) (metis distinct.simps(2) image_eqI list.set_map list.simps(9))
    then show ?thesis using True by simp
  next
    case False
    then show ?thesis using Cons by simp
  qed
qed simp

lemma removePathAttr_filter:
  "distinct (map PA_GetCode (PathAttributes u)) \<Longrightarrow>
   removePathAttr u c = (u\<lparr>PathAttributes := filter (\<lambda>pa. PA_GetCode pa \<noteq> c) (PathAttributes u)\<rparr>, getPathAttr u c)"
  by (simp add: removePathAttr_def removeType_fst getPathAttr_def)

lemma AddPathAttrToPathAttrsByCode_mset:
  "mset (AddPathAttrToPathAttrsByCode pas c x) = add_mset x (mset pas)"
  using mset_append [of "take i pas" "drop i pas" for i]
  by (simp add: AddPathAttrToPathAttrsByCode_def Let_def split: option.split)

text \<open>
  The position: right before the last attribute with a greater code. With at most one such attribute a sorted
  list stays sorted; with two the new attribute lands between them.
\<close>

lemma last_greater_single:
  "list_all (\<lambda>pa. PA_GetCode pa \<le> c) pas \<Longrightarrow> last_greater c i pas a = a"
  by (induction pas arbitrary: i a) (auto simp: not_less)

lemma AddPathAttrToPathAttrsByCode_last:
  assumes "list_all (\<lambda>pa. PA_GetCode pa \<le> c) pas"
  shows "AddPathAttrToPathAttrsByCode pas c x = pas @ [x]"
  using assms by (simp add: AddPathAttrToPathAttrsByCode_def last_greater_single)

lemma AddPathAttrToPathAttrsByCode_unsorted:
  assumes "c < PA_GetCode a" "c < PA_GetCode b"
  shows "AddPathAttrToPathAttrsByCode [a, b] c x = [a, x, b]"
  using assms by (simp add: AddPathAttrToPathAttrsByCode_def)

section \<open>Reading the path\<close>

definition path_ases :: "BGPPathAttrASPath \<Rightarrow> u32 list" where
  "path_ases a = concat (map seg_ases (ASPath_Value a))"

lemma segs_have_as_4:
  "segs_have_as 4 x (map Seg4 ss) = Inr (x \<in> set (concat (map AS4_AS ss)))"
  by (induction ss) auto

lemma HasASLoop_four_byte:
  assumes "getTypeFromPathAttrs pas BGPPathAttrTypeASPath = Some (PA_ASPath a)" "ASPath_ASSize a = 4"
    and "ASPath_Value a = map Seg4 ss"
  shows "HasASLoop pas localAS = Inr (localAS \<in> set (path_ases a))"
  using assms by (simp add: HasASLoop_def segs_have_as_4 path_ases_def)

text \<open>With a size other than 4 the first four-byte segment fails the assertion.\<close>

lemma HasASLoop_size_mismatch_panics:
  assumes "getTypeFromPathAttrs pas BGPPathAttrTypeASPath = Some (PA_ASPath a)" "ASPath_ASSize a \<noteq> 4"
    and "ASPath_Value a = Seg4 s # ss"
  shows "HasASLoop pas localAS = Inl Panic"
  using assms by (simp add: HasASLoop_def)

section \<open>Route reflection\<close>

text \<open>
  \<open>AddOriginatorId\<close>: exact for a list with no greater code, and destructive otherwise: every attribute from the
  insertion point on is lost.
\<close>

lemma AddOriginatorId_last:
  assumes "list_all (\<lambda>pa. PA_GetCode pa < BGPPathAttrTypeOriginatorId) (PathAttributes body)" "PathAttributes body \<noteq> []"
  shows "AddOriginatorId body ident =
     (body\<lparr>PathAttributes := PathAttributes body @ [PA_OriginatorId (NewBGPPathAttrOriginatorId ident)]\<rparr>, True)"
proof -
  have "first_greater 9 pas = length pas" if "list_all (\<lambda>pa. PA_GetCode pa < 9) pas" for pas
    using that by (induction pas) (auto simp: not_less)
  moreover have "\<not> list_ex (\<lambda>pa. PA_GetCode pa = 9) (PathAttributes body)"
    using assms(1) by (auto simp: list_all_iff list_ex_iff)
  ultimately show ?thesis using assms by (simp add: AddOriginatorId_def insert_index_def Let_def)
qed

lemma AddOriginatorId_drops:
  assumes "\<not> list_ex (\<lambda>pa. PA_GetCode pa = BGPPathAttrTypeOriginatorId) (PathAttributes body)"
    and "PathAttributes body = pre @ pa # post" "BGPPathAttrTypeOriginatorId < PA_GetCode pa"
    and "list_all (\<lambda>pa. PA_GetCode pa \<le> BGPPathAttrTypeOriginatorId) pre"
  shows "AddOriginatorId body ident =
     (body\<lparr>PathAttributes := pre @ [PA_OriginatorId (NewBGPPathAttrOriginatorId ident)]\<rparr>, True)"
proof -
  have "first_greater 9 (xs @ pa # post) = length xs" if "list_all (\<lambda>pa. PA_GetCode pa \<le> 9) xs" for xs
    using that assms(3) by (induction xs) auto
  then show ?thesis using assms by (simp add: AddOriginatorId_def insert_index_def Let_def)
qed

lemma cluster_index_found:
  "list_all (\<lambda>pa. PA_GetCode pa \<noteq> BGPPathAttrTypeClusterList) pre \<Longrightarrow> PA_GetCode pa = BGPPathAttrTypeClusterList \<Longrightarrow>
   cluster_index (pre @ pa # post) i idx = (Some (i + length pre), True)"
  by (induction pre arbitrary: i idx) auto

lemma AddClusterId_existing:
  assumes "PathAttributes body = pre @ PA_ClusterList c # post"
    and "list_all (\<lambda>pa. PA_GetCode pa \<noteq> BGPPathAttrTypeClusterList) pre" "Code (Cluster_Base c) = BGPPathAttrTypeClusterList"
  shows "AddClusterId body ident =
     Inr (body\<lparr>PathAttributes := pre @ PA_ClusterList (BGPPathAttrClusterList_PrependId c ident) # post\<rparr>, True)"
  using assms cluster_index_found [of pre "PA_ClusterList c" post 0 None]
  by (simp add: AddClusterId_def PA_GetCode_def index_r_def prepend_cluster_def)

text \<open>
  The identifier of a router as a number: the two middle bytes are lost, so routers that differ only there
  compare as equal.
\<close>

lemma ConvertIPBytesToUint_spec:
  "ConvertIPBytesToUint [a, b, c, d] = Inr (push_bit 24 (ucast a) OR ucast d)"
proof -
  have "ucast (push_bit 16 b) = (0 :: u32)" "ucast (push_bit 8 c) = (0 :: u32)"
    by (rule bit_word_eqI; simp add: bit_simps)+
  then show ?thesis by (simp add: ConvertIPBytesToUint_def)
qed

section \<open>Normalisation\<close>

text \<open>The object of a kind among the attributes: what the scan finds.\<close>

fun sel_ASPath :: "BGPPathAttr option \<Rightarrow> BGPPathAttrASPath option" where
  "sel_ASPath (Some (PA_ASPath a)) = Some a"
| "sel_ASPath _ = None"

fun sel_AS4Path :: "BGPPathAttr option \<Rightarrow> BGPPathAttrAS4Path option" where
  "sel_AS4Path (Some (PA_AS4Path a)) = Some a"
| "sel_AS4Path _ = None"

fun sel_Aggregator :: "BGPPathAttr option \<Rightarrow> BGPPathAttrAggregator option" where
  "sel_Aggregator (Some (PA_Aggregator a)) = Some a"
| "sel_Aggregator _ = None"

fun sel_AS4Aggregator :: "BGPPathAttr option \<Rightarrow> BGPPathAttrAS4Aggregator option" where
  "sel_AS4Aggregator (Some (PA_AS4Aggregator a)) = Some a"
| "sel_AS4Aggregator _ = None"

fun first_some :: "'a option \<Rightarrow> 'a option \<Rightarrow> 'a option" where
  "first_some None y = y"
| "first_some (Some x) y = Some x"

lemma first_some_None [simp]: "first_some x None = x"
  by (cases x) simp_all

lemma norm_scan_spec:
  "list_all code_matches pas \<Longrightarrow> distinct (map PA_GetCode pas) \<Longrightarrow>
   \<exists>n'. norm_scan pas n = Inr n' \<and>
     N_asPath n' = first_some (sel_ASPath (getTypeFromPathAttrs pas 2)) (N_asPath n) \<and>
     N_as4Path n' = first_some (sel_AS4Path (getTypeFromPathAttrs pas 17)) (N_as4Path n) \<and>
     N_asAggregator n' = first_some (sel_Aggregator (getTypeFromPathAttrs pas 7)) (N_asAggregator n) \<and>
     N_as4Aggregator n' = first_some (sel_AS4Aggregator (getTypeFromPathAttrs pas 18)) (N_as4Aggregator n)"
proof (induction pas arbitrary: n)
  case Nil
  then show ?case by simp
next
  case (Cons pa pas)
  have pa: "code_matches pa" and nd: "PA_GetCode pa \<notin> set (map PA_GetCode pas)" using Cons.prems by auto
  have IH: "\<exists>n'. norm_scan pas m = Inr n' \<and>
     N_asPath n' = first_some (sel_ASPath (getTypeFromPathAttrs pas 2)) (N_asPath m) \<and>
     N_as4Path n' = first_some (sel_AS4Path (getTypeFromPathAttrs pas 17)) (N_as4Path m) \<and>
     N_asAggregator n' = first_some (sel_Aggregator (getTypeFromPathAttrs pas 7)) (N_asAggregator m) \<and>
     N_as4Aggregator n' = first_some (sel_AS4Aggregator (getTypeFromPathAttrs pas 18)) (N_as4Aggregator m)" for m
    using Cons by simp
  consider "PA_GetCode pa = 2" | "PA_GetCode pa = 17" | "PA_GetCode pa = 7" | "PA_GetCode pa = 18"
    | "PA_GetCode pa \<notin> {2, 17, 7, 18}" by blast
  then show ?case
  proof cases
    case 1
    then obtain a where a: "pa = PA_ASPath a" using code_matches_cases [OF pa] by blast
    show ?thesis using IH [of "n\<lparr>N_asPath := Some a\<rparr>"] 1 nd a getType_none [of pas 2] by simp
  next
    case 2
    then obtain a where a: "pa = PA_AS4Path a" using code_matches_cases [OF pa] by blast
    show ?thesis using IH [of "n\<lparr>N_as4Path := Some a\<rparr>"] 2 nd a getType_none [of pas 17] by simp
  next
    case 3
    then obtain a where a: "pa = PA_Aggregator a" using code_matches_cases [OF pa] by blast
    show ?thesis using IH [of "n\<lparr>N_asAggregator := Some a\<rparr>"] 3 nd a getType_none [of pas 7] by simp
  next
    case 4
    then obtain a where a: "pa = PA_AS4Aggregator a" using code_matches_cases [OF pa] by blast
    show ?thesis using IH [of "n\<lparr>N_as4Aggregator := Some a\<rparr>"] 4 nd a getType_none [of pas 18] by simp
  next
    case 5
    then show ?thesis using IH [of n] by simp
  qed
qed

lemma getType_matches:
  assumes "list_all code_matches pas" "getTypeFromPathAttrs pas c = Some pa"
  shows "code_matches pa" "PA_GetCode pa = c"
  using getType_some [OF assms(2)] assms(1) by (auto simp: list_all_iff)

lemma filter_absent: "c \<notin> set (map PA_GetCode pas) \<Longrightarrow> filter (\<lambda>pa. PA_GetCode pa \<noteq> c) pas = pas"
  by (rule filter_True) auto

text \<open>A path of four-byte AS numbers: the attributes of two-byte speakers are removed and nothing else changes.\<close>

lemma NormalizeASPath_four_byte:
  assumes cm: "list_all code_matches (PathAttributes u)" and d: "distinct (map PA_GetCode (PathAttributes u))"
    and p: "getTypeFromPathAttrs (PathAttributes u) BGPPathAttrTypeASPath = Some (PA_ASPath a)"
    and "ASPath_ASSize a = 4" "TotalPathAttrLen u \<noteq> 0"
  shows "NormalizeASPath u =
     Inr (u\<lparr>PathAttributes := filter (\<lambda>pa. PA_GetCode pa \<noteq> BGPPathAttrTypeAS4Path \<and>
                                            PA_GetCode pa \<noteq> BGPPathAttrTypeAS4Aggregator) (PathAttributes u)\<rparr>)"
proof -
  let ?pas = "PathAttributes u"
  obtain n where n: "norm_scan ?pas no_norm_attrs = Inr n" "N_asPath n = Some a"
    and n4: "N_as4Path n = first_some (sel_AS4Path (getTypeFromPathAttrs ?pas 17)) None"
    and na: "N_as4Aggregator n = first_some (sel_AS4Aggregator (getTypeFromPathAttrs ?pas 18)) None"
    using norm_scan_spec [OF cm d, of no_norm_attrs] p by (auto simp: no_norm_attrs_def)
  have r18: "(if N_as4Aggregator n \<noteq> None then fst (removePathAttr u 18) else u)
      = u\<lparr>PathAttributes := filter (\<lambda>pa. PA_GetCode pa \<noteq> 18) ?pas\<rparr>"
  proof (cases "getTypeFromPathAttrs ?pas 18")
    case None
    then show ?thesis using na getType_none [of ?pas 18] by (simp add: filter_absent)
  next
    case (Some pa)
    then show ?thesis
      using na getType_matches [OF cm Some] code_matches_cases(11) [of pa] d by (auto simp: removePathAttr_filter)
  qed
  let ?u = "u\<lparr>PathAttributes := filter (\<lambda>pa. PA_GetCode pa \<noteq> 18) ?pas\<rparr>"
  have d': "distinct (map PA_GetCode (PathAttributes ?u))" using d by (simp add: distinct_map_filter)
  have r17: "(if N_as4Path n \<noteq> None then fst (removePathAttr ?u 17) else ?u)
      = ?u\<lparr>PathAttributes := filter (\<lambda>pa. PA_GetCode pa \<noteq> 17) (PathAttributes ?u)\<rparr>"
  proof (cases "getTypeFromPathAttrs ?pas 17")
    case None
    then have "17 \<notin> set (map PA_GetCode (PathAttributes ?u))" using getType_none [of ?pas 17] by auto
    then have "filter (\<lambda>pa. PA_GetCode pa \<noteq> 17) (PathAttributes ?u) = PathAttributes ?u" by (rule filter_absent)
    then show ?thesis using n4 None by (simp only:) simp
  next
    case (Some pa)
    then show ?thesis
      using n4 getType_matches [OF cm Some] code_matches_cases(10) [of pa] d' by (auto simp: removePathAttr_filter)
  qed
  show ?thesis
    unfolding NormalizeASPath_def n bind_r_Inr option.case Let_def r18 r17
    using assms(4,5) n by (simp add: r18 [simplified] r17 [simplified] conj_commute)
qed

lemma seg2_to_seg4_spec:
  assumes "seg_consistent (Seg2 s)"
  shows "\<exists>s'. seg2_to_seg4 (Seg2 s) = Inr (Seg4 s') \<and> seg_consistent (Seg4 s') \<and>
           AS4_AS s' = map ucast (AS2_AS s) \<and> Seg_Type (AS4_Base s') = Seg_Type (AS2_Base s)"
proof -
  let ?l = "Seg_Length (AS2_Base s)"
  have "unat ?l * 4 + 2 < 65536" using u8_less [of ?l] by linarith
  then have "unat (2 + ucast ?l * 4 :: u16) = 2 + unat ?l * 4"
    by (simp add: unat_add_small unat_mult_small)
  then show ?thesis using assms
    by (simp add: seg2_to_seg4_def NewBGPAS4PathSegmentSeq_def NewBGPAS4PathSegment_def Let_def)
qed

lemma map_r_seg2_to_seg4:
  "list_all (\<lambda>s. seg_consistent (Seg2 s)) ss \<Longrightarrow>
   \<exists>ss'. map_r seg2_to_seg4 (map Seg2 ss) = Inr (map Seg4 ss') \<and> length ss' = length ss \<and>
     list_all (\<lambda>s. seg_consistent (Seg4 s)) ss' \<and>
     concat (map AS4_AS ss') = concat (map (\<lambda>s. map ucast (AS2_AS s)) ss)"
proof (induction ss)
  case Nil
  then show ?case by simp
next
  case (Cons s ss)
  then obtain ss' where "map_r seg2_to_seg4 (map Seg2 ss) = Inr (map Seg4 ss')" "length ss' = length ss"
    "list_all (\<lambda>s. seg_consistent (Seg4 s)) ss'" "concat (map AS4_AS ss') = concat (map (\<lambda>s. map ucast (AS2_AS s)) ss)"
    by auto
  moreover obtain s' where "seg2_to_seg4 (Seg2 s) = Inr (Seg4 s')" "seg_consistent (Seg4 s')"
    "AS4_AS s' = map ucast (AS2_AS s)" using seg2_to_seg4_spec [of s] Cons.prems by auto
  ultimately show ?case by (intro exI [of _ "s' # ss'"]) simp
qed

lemma append_segments:
  "ASPath_Value (foldl BGPPathAttrASPath_AppendASPathSegment a segs) = ASPath_Value a @ segs"
  "ASPath_ASSize (foldl BGPPathAttrASPath_AppendASPathSegment a segs) = ASPath_ASSize a"
  "ASPath_Base (foldl BGPPathAttrASPath_AppendASPathSegment a segs)
     = (ASPath_Base a)\<lparr>Attr_Length := Attr_Length (ASPath_Base a) + sum_list (map Seg_TotalLen segs)\<rparr>"
  by (induction segs arbitrary: a) (auto simp: BGPPathAttrASPath_AppendASPathSegment_def add.assoc)

lemma replace_as_path_spec:
  "distinct (map PA_GetCode pas) \<Longrightarrow> getTypeFromPathAttrs pas 2 = Some (PA_ASPath a) \<Longrightarrow>
   replace_as_path f pas =
     bind_r (f a) (\<lambda>a'. Inr (map (\<lambda>pa. if PA_GetCode pa = 2 then PA_ASPath a' else pa) pas))"
proof (induction pas)
  case Nil
  then show ?case by simp
next
  case (Cons pa pas)
  show ?case
  proof (cases "PA_GetCode pa = 2")
    case True
    have "map (\<lambda>pa. if PA_GetCode pa = 2 then x else pa) pas = pas" for x
      using Cons.prems(1) True by (intro map_idI) (auto simp: image_iff)
    then show ?thesis using Cons.prems True by simp
  next
    case False
    then show ?thesis using Cons by (simp add: bind_r_assoc)
  qed
qed

text \<open>
  A path of two-byte AS numbers with neither AS4_PATH nor AS4_AGGREGATOR: the path becomes one of four-byte
  segments with the same AS numbers. The new attribute records no AS size.
\<close>

lemma NormalizeASPath_two_byte:
  assumes cm: "list_all code_matches (PathAttributes u)" and d: "distinct (map PA_GetCode (PathAttributes u))"
    and p: "getTypeFromPathAttrs (PathAttributes u) BGPPathAttrTypeASPath = Some (PA_ASPath a)"
    and sz: "ASPath_ASSize a = 2" and t: "TotalPathAttrLen u \<noteq> 0"
    and ss: "ASPath_Value a = map Seg2 ss" "list_all (\<lambda>s. seg_consistent (Seg2 s)) ss"
    and no4: "BGPPathAttrTypeAS4Path \<notin> set (map PA_GetCode (PathAttributes u))"
      "BGPPathAttrTypeAS4Aggregator \<notin> set (map PA_GetCode (PathAttributes u))"
  shows "\<exists>a' ss'. NormalizeASPath u = Inr (u\<lparr>PathAttributes :=
             map (\<lambda>pa. if PA_GetCode pa = BGPPathAttrTypeASPath then PA_ASPath a' else pa) (PathAttributes u)\<rparr>) \<and>
           ASPath_Value a' = map Seg4 ss' \<and> length ss' = length ss \<and>
           list_all seg_consistent (ASPath_Value a') \<and> path_ases a' = path_ases a \<and>
           Code (ASPath_Base a') = BGPPathAttrTypeASPath \<and> ASPath_ASSize a' = 0"
proof -
  let ?pas = "PathAttributes u"
  obtain n where n: "norm_scan ?pas no_norm_attrs = Inr n" "N_asPath n = Some a" "N_as4Path n = None"
    "N_as4Aggregator n = None"
    using norm_scan_spec [OF cm d, of no_norm_attrs] p no4 getType_none [of ?pas 17] getType_none [of ?pas 18]
    by (auto simp: no_norm_attrs_def)
  obtain ss' where ss': "map_r seg2_to_seg4 (map Seg2 ss) = Inr (map Seg4 ss')" "length ss' = length ss"
    "list_all (\<lambda>s. seg_consistent (Seg4 s)) ss'"
    "concat (map AS4_AS ss') = concat (map (\<lambda>s. map ucast (AS2_AS s)) ss)"
    using map_r_seg2_to_seg4 [OF ss(2)] by blast
  let ?a = "foldl BGPPathAttrASPath_AppendASPathSegment NewBGPPathAttrASPath (map Seg4 ss')"
  have "ConvertAS2ToAS4 u = Inr (u\<lparr>PathAttributes :=
      map (\<lambda>pa. if PA_GetCode pa = 2 then PA_ASPath ?a else pa) ?pas\<rparr>)"
    using replace_as_path_spec [OF d p] ss(1) ss'(1) by (simp add: ConvertAS2ToAS4_def)
  then have "NormalizeASPath u = Inr (u\<lparr>PathAttributes :=
      map (\<lambda>pa. if PA_GetCode pa = 2 then PA_ASPath ?a else pa) ?pas\<rparr>)"
    using n sz t by (simp add: NormalizeASPath_def norm_two_byte_def aggregator_not_trans_def split: option.split)
  moreover have "ASPath_Value ?a = map Seg4 ss'" "ASPath_ASSize ?a = 0" "Code (ASPath_Base ?a) = 2"
    by (simp_all add: append_segments NewBGPPathAttrASPath_def)
  moreover have "path_ases ?a = path_ases a"
    using ss(1) ss'(4) by (simp add: path_ases_def append_segments NewBGPPathAttrASPath_def comp_def)
  ultimately show ?thesis using ss'(2,3) by (intro exI [of _ ?a] exI [of _ ss']) (simp add: list_all_iff)
qed

lemma getType_map_path:
  assumes "getTypeFromPathAttrs pas 2 = Some x" "Code (ASPath_Base a') = 2"
  shows "getTypeFromPathAttrs (map (\<lambda>pa. if PA_GetCode pa = 2 then PA_ASPath a' else pa) pas) 2 = Some (PA_ASPath a')"
  using assms by (induction pas) (auto simp: PA_GetCode_def split: if_splits)

text \<open>
  The loop check that the session runs on the message next finds four-byte segments in a path whose recorded
  size is 0, and panics.
\<close>

lemma NormalizeASPath_then_HasASLoop_panics:
  assumes cm: "list_all code_matches (PathAttributes u)" and d: "distinct (map PA_GetCode (PathAttributes u))"
    and p: "getTypeFromPathAttrs (PathAttributes u) BGPPathAttrTypeASPath = Some (PA_ASPath a)"
    and sz: "ASPath_ASSize a = 2" and t: "TotalPathAttrLen u \<noteq> 0"
    and ss: "ASPath_Value a = map Seg2 ss" "list_all (\<lambda>s. seg_consistent (Seg2 s)) ss" "ss \<noteq> []"
    and no4: "BGPPathAttrTypeAS4Path \<notin> set (map PA_GetCode (PathAttributes u))"
      "BGPPathAttrTypeAS4Aggregator \<notin> set (map PA_GetCode (PathAttributes u))"
  shows "\<exists>u'. NormalizeASPath u = Inr u' \<and> HasASLoop (PathAttributes u') localAS = Inl Panic"
proof -
  obtain a' ss' where n: "NormalizeASPath u = Inr (u\<lparr>PathAttributes :=
      map (\<lambda>pa. if PA_GetCode pa = 2 then PA_ASPath a' else pa) (PathAttributes u)\<rparr>)"
    and a': "ASPath_Value a' = map Seg4 ss'" "length ss' = length ss" "Code (ASPath_Base a') = 2" "ASPath_ASSize a' = 0"
    using NormalizeASPath_two_byte [OF cm d p sz t ss(1,2) no4] by blast
  obtain s r where "ASPath_Value a' = Seg4 s # r" using a'(1,2) ss(3) by (cases ss') auto
  then have "HasASLoop (map (\<lambda>pa. if PA_GetCode pa = 2 then PA_ASPath a' else pa) (PathAttributes u)) localAS = Inl Panic"
    using getType_map_path [OF p a'(3)] a'(4) by (intro HasASLoop_size_mismatch_panics) simp_all
  then show ?thesis using n by simp
qed

section \<open>Prepending the local AS\<close>

text \<open>The header's length agrees with the segments.\<close>

definition path_len_ok :: "BGPPathAttrASPath \<Rightarrow> bool" where
  "path_len_ok a \<longleftrightarrow> list_all seg_consistent (ASPath_Value a) \<and>
     Attr_Length (ASPath_Base a) = sum_list (map Seg_TotalLen (ASPath_Value a))"

lemma Seg4_PrependAS_len:
  assumes "seg_consistent (Seg4 s)" "\<not> Seg_Length (AS4_Base s) \<ge> 255"
  shows "Seg_TotalLen (fst (Seg_PrependAS (Seg4 s) as)) = Seg_TotalLen (Seg4 s) + 4"
  using assms by (simp add: BGPAS4PathSegment_PrependAS_def Let_def Seg_TotalLen_def)

lemma prepend_as_path_four_byte:
  assumes ok: "path_len_ok a" and ss: "ASPath_Value a = map Seg4 ss"
  shows "\<exists>a' ss'. prepend_as_path a as 4 = Inr (a', as) \<and> ASPath_Value a' = map Seg4 ss' \<and> path_len_ok a' \<and>
           path_ases a' = as # path_ases a \<and> ASPath_ASSize a' = ASPath_ASSize a \<and>
           (\<exists>s r. ASPath_Value a' = s # r \<and> (ss = [] \<or> Seg_GetType (hd (ASPath_Value a)) = BGPASPathSegmentSet \<longrightarrow>
                  Seg_GetType s = BGPASPathSegmentSequence))"
proof (cases "case ASPath_Value a of [] \<Rightarrow> True | s # _ \<Rightarrow> Seg_GetType s = BGPASPathSegmentSet \<or> Seg_GetLen s \<ge> 255")
  case True
  let ?n = "BGPAS4PathSegment_PrependAS NewBGPAS4PathSegmentSeq as"
  show ?thesis
    using True ok
    by (intro exI [of _ "a\<lparr>ASPath_Value := Seg4 (fst ?n) # ASPath_Value a,
              ASPath_Base := (ASPath_Base a)\<lparr>Attr_Length := Attr_Length (ASPath_Base a) + 2 + 4\<rparr>\<rparr>"] exI [of _ "fst ?n # ss"])
       (auto simp: prepend_as_path_def Let_def BGPPathAttrASPath_PrependASPathSegment_def ss path_ases_def path_len_ok_def
         NewBGPAS4PathSegmentSeq_def NewBGPAS4PathSegment_def BGPAS4PathSegment_PrependAS_def Seg_TotalLen_def Seg_GetType_def)
next
  case False
  then obtain s r where s: "ss = s # r" using ss by (cases ss) auto
  have nf: "\<not> Seg_Length (AS4_Base s) \<ge> 255" "Seg_Type (AS4_Base s) \<noteq> 1" using False ss s
    by (auto simp: Seg_GetLen_def Seg_GetType_def)
  have c: "seg_consistent (Seg4 s)" using ok ss s by (simp add: path_len_ok_def)
  have "length (AS4_AS s) \<noteq> 255" using nf c by (auto simp: word_le_nat_alt)
  then obtain s' where s': "Seg_PrependAS (Seg4 s) as = (s', True)" "seg_consistent s'" "seg_ases s' = as # AS4_AS s"
    using Seg_PrependAS_spec [OF c, of as] by auto
  then obtain t where t: "s' = Seg4 t" by (auto split: prod.splits)
  have "Seg_TotalLen s' = Seg_TotalLen (Seg4 s) + 4" using Seg4_PrependAS_len [OF c nf(1), of as] s'(1) by simp
  then show ?thesis
    using False ok s' t nf
    by (intro exI [of _ "a\<lparr>ASPath_Value := s' # map Seg4 r,
          ASPath_Base := (ASPath_Base a)\<lparr>Attr_Length := Attr_Length (ASPath_Base a) + 4\<rparr>\<rparr>"] exI [of _ "t # r"])
       (auto simp: prepend_as_path_def Let_def ss s path_ases_def path_len_ok_def Seg_GetType_def Seg_GetLen_def)
qed

lemma prepend_attrs_skip:
  "2 \<notin> set (map PA_GetCode pas) \<Longrightarrow> 17 \<notin> set (map PA_GetCode pas) \<Longrightarrow> prepend_attrs pas as n = Inr pas"
  by (induction pas) auto

lemma prepend_attrs_spec:
  "distinct (map PA_GetCode pas) \<Longrightarrow> 17 \<notin> set (map PA_GetCode pas) \<Longrightarrow>
   getTypeFromPathAttrs pas 2 = Some (PA_ASPath a) \<Longrightarrow> prepend_as_path a as n = Inr (a', as') \<Longrightarrow>
   prepend_attrs pas as n = Inr (map (\<lambda>pa. if PA_GetCode pa = 2 then PA_ASPath a' else pa) pas)"
proof (induction pas)
  case Nil
  then show ?case by simp
next
  case (Cons pa pas)
  show ?case
  proof (cases "PA_GetCode pa = 2")
    case True
    have "map (\<lambda>pa. if PA_GetCode pa = 2 then x else pa) pas = pas" for x
      using Cons.prems(1) True by (intro map_idI) (auto simp: image_iff)
    moreover have "prepend_attrs pas as' n = Inr pas"
      using Cons.prems True by (intro prepend_attrs_skip) auto
    ultimately show ?thesis using Cons.prems True by simp
  next
    case False
    then show ?thesis using Cons by simp
  qed
qed

text \<open>
  \<open>PrependAS\<close> for a four-byte peer: the AS number is put in front of the path, the header's length stays
  right, every other attribute is unchanged, and the path now has the loop that the receiver looks for.
\<close>

lemma PrependAS_four_byte:
  assumes "distinct (map PA_GetCode (PathAttributes u))"
    and "BGPPathAttrTypeAS4Path \<notin> set (map PA_GetCode (PathAttributes u))"
    and p: "getTypeFromPathAttrs (PathAttributes u) BGPPathAttrTypeASPath = Some (PA_ASPath a)"
    and "path_len_ok a" "ASPath_Value a = map Seg4 ss" "ASPath_ASSize a = 4" "Code (ASPath_Base a) = BGPPathAttrTypeASPath"
  shows "\<exists>a' u'. PrependAS u as 4 = Inr u' \<and>
           PathAttributes u' = map (\<lambda>pa. if PA_GetCode pa = BGPPathAttrTypeASPath then PA_ASPath a' else pa) (PathAttributes u) \<and>
           path_ases a' = as # path_ases a \<and> path_len_ok a' \<and> HasASLoop (PathAttributes u') as = Inr True"
proof -
  obtain a' ss' where a': "prepend_as_path a as 4 = Inr (a', as)" "ASPath_Value a' = map Seg4 ss'" "path_len_ok a'"
    "path_ases a' = as # path_ases a" "ASPath_ASSize a' = 4"
    using prepend_as_path_four_byte [OF assms(4,5), of as] assms(6) by auto
  have code: "Code (ASPath_Base a') = 2"
    using a'(1) assms(7) by (auto simp: prepend_as_path_def Let_def BGPPathAttrASPath_PrependASPathSegment_def
        split: list.splits if_splits)
  have e: "PrependAS u as 4 = Inr (u\<lparr>PathAttributes :=
      map (\<lambda>pa. if PA_GetCode pa = 2 then PA_ASPath a' else pa) (PathAttributes u)\<rparr>)"
    using prepend_attrs_spec [OF assms(1,2) p a'(1)] by (simp add: PrependAS_def)
  moreover have "HasASLoop (map (\<lambda>pa. if PA_GetCode pa = 2 then PA_ASPath a' else pa) (PathAttributes u)) as = Inr True"
    using HasASLoop_four_byte [OF getType_map_path [OF p code] a'(5,2), of as] a'(4) by simp
  ultimately show ?thesis using a' by (intro exI [of _ a'] exI) auto
qed

text \<open>With an AS4_PATH among the attributes the call panics.\<close>

lemma PrependAS_as4path_panics:
  assumes "PathAttributes u = pre @ PA_AS4Path x # post" "Code (AS4Path_Base x) = BGPPathAttrTypeAS4Path"
    and "BGPPathAttrTypeASPath \<notin> set (map PA_GetCode pre)"
  shows "PrependAS u as n = Inl Panic"
proof -
  have "prepend_attrs (xs @ PA_AS4Path x # post) as n = Inl Panic" if "2 \<notin> set (map PA_GetCode xs)" for xs
    using that assms(2) by (induction xs) (auto simp: PA_GetCode_def)
  then show ?thesis using assms by (simp add: PrependAS_def)
qed

end
