(* ===== verification/BgpPath.thy ===== *)
theory BgpPath
  imports AttrHelpers "HOL-Library.AList"
begin

text \<open>
  The paths of the routing table (bgp/rib/path.go, the reachability information of bgp/rib/rib.go): a route of a neighbour
  or of the router itself with its attributes, its preference and what is known of its next hops.

  A \<open>*Path\<close> is compared by address in the code; \<open>P_ref\<close> is that address. Aggregated paths are not modelled.
\<close>

section \<open>Data\<close>

abbreviation (input) RouteTypeAgg :: u8 where "RouteTypeAgg \<equiv> 1"
abbreviation (input) RouteTypeConnected :: u8 where "RouteTypeConnected \<equiv> 2"
abbreviation (input) RouteTypeStatic :: u8 where "RouteTypeStatic \<equiv> 4"
abbreviation (input) RouteTypeIGP :: u8 where "RouteTypeIGP \<equiv> 8"
abbreviation (input) RouteTypeEGP :: u8 where "RouteTypeEGP \<equiv> 16"

abbreviation (input) RouteSrcLocal :: u8 where "RouteSrcLocal \<equiv> 1"
abbreviation (input) RouteSrcExternal :: u8 where "RouteSrcExternal \<equiv> 2"
abbreviation (input) RouteSrcUnknown :: u8 where "RouteSrcUnknown \<equiv> 4"

abbreviation (input) BGP_INTERNAL_PREF :: u32 where "BGP_INTERNAL_PREF \<equiv> 100"
abbreviation (input) BGP_EXTERNAL_PREF :: u32 where "BGP_EXTERNAL_PREF \<equiv> 100"

definition RouteTypeToSource :: "u8 \<Rightarrow> u8 option" where
  "RouteTypeToSource t =
     map_of [(RouteTypeAgg, RouteSrcLocal), (RouteTypeConnected, RouteSrcLocal), (RouteTypeStatic, RouteSrcLocal),
             (RouteTypeIGP, RouteSrcLocal), (RouteTypeEGP, RouteSrcExternal)] t"

definition getRouteSource :: "u8 \<Rightarrow> u8" where
  "getRouteSource routeType =
     (case RouteTypeToSource routeType of Some routeSource \<Rightarrow> routeSource | None \<Rightarrow> RouteSrcUnknown)"

record ReachabilityInfo =
  RI_NextHop :: string
  RI_NextHopIfType :: "32 word"
  RI_NextHopIfIdx :: "32 word"
  RI_Metric :: "32 word"

definition NewReachabilityInfo :: "string \<Rightarrow> 32 word \<Rightarrow> 32 word \<Rightarrow> 32 word \<Rightarrow> ReachabilityInfo" where
  "NewReachabilityInfo nextHop nhIfType nhIfIdx metric =
     \<lparr>RI_NextHop = nextHop, RI_NextHopIfType = nhIfType, RI_NextHopIfIdx = nhIfIdx, RI_Metric = metric\<rparr>"

record NHReachabilityInfo =
  NHR_nextHop :: bytes
  NHR_info :: "ReachabilityInfo option"

text \<open>What the routing table reads of the configuration of a neighbour (bgp/baseobjects).\<close>

record NeighborConf =
  N_NeighborAddress :: bytes
  N_BGPId :: bytes
  N_LocalAS :: u32
  N_PeerAS :: u32
  N_RouterId :: bytes
  N_ClusterId :: u32

definition NeighborConf_IsInternal :: "NeighborConf \<Rightarrow> bool" where
  "NeighborConf_IsInternal n \<longleftrightarrow> N_PeerAS n = N_LocalAS n"

definition NeighborConf_IsExternal :: "NeighborConf \<Rightarrow> bool" where
  "NeighborConf_IsExternal n \<longleftrightarrow> N_LocalAS n \<noteq> N_PeerAS n"

record Path =
  P_ref :: nat
  P_NeighborConf :: "NeighborConf option"
  P_PathAttrs :: "BGPPathAttr list"
  P_Pref :: u32
  P_nhReachabilityInfo :: "(u32 \<times> NHReachabilityInfo) list"
  P_routeType :: u8
  P_MED :: u32
  P_LocalPref :: u32

section \<open>Operations\<close>

text \<open>A use of \<open>p.NeighborConf\<close> without a test panics when it is nil.\<close>

definition neighbor_r :: "Path \<Rightarrow> NeighborConf pres" where
  "neighbor_r p = (case P_NeighborConf p of Some n \<Rightarrow> Inr n | None \<Rightarrow> Inl Panic)"

definition Path_IsExternal :: "Path \<Rightarrow> bool" where
  "Path_IsExternal p = (case P_NeighborConf p of Some n \<Rightarrow> NeighborConf_IsExternal n | None \<Rightarrow> False)"

definition Path_IsInternal :: "Path \<Rightarrow> bool" where
  "Path_IsInternal p = (case P_NeighborConf p of Some n \<Rightarrow> NeighborConf_IsInternal n | None \<Rightarrow> False)"

definition Path_IsLocal :: "Path \<Rightarrow> bool" where
  "Path_IsLocal p \<longleftrightarrow> getRouteSource (P_routeType p) = RouteSrcLocal"

definition Path_IsAggregate :: "Path \<Rightarrow> bool" where
  "Path_IsAggregate p \<longleftrightarrow> P_routeType p = RouteTypeAgg"

text \<open>
  \<open>calculatePref\<close>: the loop stores LOCAL_PREF and MED in the path and keeps the preference; for an external path it is
  the external one at the end.
\<close>

fun pref_loop :: "BGPPathAttr list \<Rightarrow> Path \<Rightarrow> u32 \<Rightarrow> (Path \<times> u32) pres" where
  "pref_loop [] p pref = Inr (p, pref)"
| "pref_loop (attr # attrs) p pref =
     (if PA_GetCode attr = BGPPathAttrTypeLocalPref then
        (case attr of
           PA_LocalPref a \<Rightarrow> pref_loop attrs (p\<lparr>P_LocalPref := LocalPref_Value a\<rparr>) (LocalPref_Value a)
         | _ \<Rightarrow> Inl Panic)
      else if PA_GetCode attr = BGPPathAttrTypeMultiExitDisc then
        (case attr of
           PA_MultiExitDisc a \<Rightarrow> pref_loop attrs (p\<lparr>P_MED := MED_Value a\<rparr>) pref
         | _ \<Rightarrow> Inl Panic)
      else pref_loop attrs p pref)"

definition calculatePref :: "Path \<Rightarrow> (Path \<times> u32) pres" where
  "calculatePref p =
     bind_r (pref_loop (P_PathAttrs p) p BGP_INTERNAL_PREF) (\<lambda>(p, pref).
     Inr (p, if Path_IsExternal p then BGP_EXTERNAL_PREF else pref))"

definition set_next_hop_info :: "u32 \<Rightarrow> bytes \<Rightarrow> Path \<Rightarrow> Path" where
  "set_next_hop_info protoFamily nextHop p =
     (let m = P_nhReachabilityInfo p;
          info = (case map_of m protoFamily of Some i \<Rightarrow> i | None \<Rightarrow> \<lparr>NHR_nextHop = [], NHR_info = None\<rparr>)
      in p\<lparr>P_nhReachabilityInfo := AList.update protoFamily (info\<lparr>NHR_nextHop := nextHop\<rparr>) m\<rparr>)"

fun next_hop_loop :: "BGPPathAttr list \<Rightarrow> Path \<Rightarrow> Path pres" where
  "next_hop_loop [] p = Inr p"
| "next_hop_loop (attr # attrs) p =
     (if PA_GetCode attr = BGPPathAttrTypeNextHop then
        (case attr of
           PA_NextHop a \<Rightarrow> next_hop_loop attrs (set_next_hop_info (GetProtocolFamily AfiIP SafiUnicast) (NextHop_Value a) p)
         | _ \<Rightarrow> Inl Panic)
      else next_hop_loop attrs p)"

definition constructNHReachabilityInfo :: "BGPPathAttrMPReachNLRI option \<Rightarrow> Path \<Rightarrow> Path pres" where
  "constructNHReachabilityInfo mpReach p =
     bind_r (next_hop_loop (P_PathAttrs p) p) (\<lambda>p.
     case mpReach of
       None \<Rightarrow> Inr p
     | Some r \<Rightarrow> (case Reach_NextHop r of
         None \<Rightarrow> Inl Panic
       | Some nh \<Rightarrow> Inr (set_next_hop_info (GetProtocolFamily (Reach_AFI r) (Reach_SAFI r)) (MPNextHop_GetNextHop nh) p)))"

definition NewPath ::
    "nat \<Rightarrow> NeighborConf option \<Rightarrow> BGPPathAttr list \<Rightarrow> BGPPathAttrMPReachNLRI option \<Rightarrow> u8 \<Rightarrow> Path pres" where
  "NewPath ref peer pa mpReach routeType =
     bind_r (calculatePref
       \<lparr>P_ref = ref, P_NeighborConf = peer, P_PathAttrs = pa, P_Pref = 0, P_nhReachabilityInfo = [], P_routeType = routeType,
        P_MED = 0, P_LocalPref = 0\<rparr>) (\<lambda>(p, pref).
     constructNHReachabilityInfo mpReach (p\<lparr>P_Pref := pref\<rparr>))"

text \<open>\<open>net.IP.Equal\<close>: an IPv4 address and its v4-in-v6 form are equal.\<close>

definition IP_Equal :: "bytes \<Rightarrow> bytes \<Rightarrow> bool" where
  "IP_Equal a b \<longleftrightarrow>
     (if length a = length b then a = b
      else if length a = 4 \<and> length b = 16 \<or> length a = 16 \<and> length b = 4 then To4 a = To4 b
      else False)"

fun valid_loop :: "Path \<Rightarrow> BGPPathAttr list \<Rightarrow> bool pres" where
  "valid_loop p [] = Inr True"
| "valid_loop p (attr # attrs) =
     bind_r (if PA_GetCode attr = BGPPathAttrTypeOriginatorId then
               bind_r (neighbor_r p) (\<lambda>n.
               case attr of PA_OriginatorId a \<Rightarrow> Inr (\<not> IP_Equal (N_RouterId n) (OrigId_Value a)) | _ \<Rightarrow> Inl Panic)
             else Inr True) (\<lambda>ok.
     if \<not> ok then Inr False
     else bind_r (if PA_GetCode attr = BGPPathAttrTypeClusterList then
                    (case attr of
                       PA_ClusterList a \<Rightarrow>
                         if Cluster_Value a = [] then Inr True
                         else bind_r (neighbor_r p) (\<lambda>n. Inr (N_ClusterId n \<notin> set (Cluster_Value a)))
                     | _ \<Rightarrow> Inl Panic)
                  else Inr True) (\<lambda>ok.
     if \<not> ok then Inr False else valid_loop p attrs))"

definition Path_IsValid :: "Path \<Rightarrow> bool pres" where
  "Path_IsValid p = valid_loop p (P_PathAttrs p)"

definition Path_GetPreference :: "Path \<Rightarrow> u32" where
  "Path_GetPreference p = P_Pref p"

definition Path_HasASLoop :: "Path \<Rightarrow> bool pres" where
  "Path_HasASLoop p =
     (case P_NeighborConf p of None \<Rightarrow> Inr False | Some n \<Rightarrow> HasASLoop (P_PathAttrs p) (N_LocalAS n))"

definition Path_GetNumASes :: "Path \<Rightarrow> u32 pres" where
  "Path_GetNumASes p = GetNumASes (P_PathAttrs p)"

definition Path_GetOrigin :: "Path \<Rightarrow> u8 pres" where
  "Path_GetOrigin p = GetOrigin (P_PathAttrs p)"

definition Path_GetNextHop :: "u32 \<Rightarrow> Path \<Rightarrow> bytes" where
  "Path_GetNextHop protoFamily p =
     (case map_of (P_nhReachabilityInfo p) protoFamily of Some i \<Rightarrow> NHR_nextHop i | None \<Rightarrow> [])"

definition Path_GetBGPId :: "Path \<Rightarrow> u32 pres" where
  "Path_GetBGPId p =
     (case getTypeFromPathAttrs (P_PathAttrs p) BGPPathAttrTypeOriginatorId of
        Some (PA_OriginatorId a) \<Rightarrow> get32 (To4 (OrigId_Value a))
      | Some _ \<Rightarrow> Inl Panic
      | None \<Rightarrow> bind_r (neighbor_r p) (\<lambda>n. get32 (To4 (N_BGPId n))))"

definition Path_GetNumClusters :: "Path \<Rightarrow> u16 pres" where
  "Path_GetNumClusters p = GetNumClusters (P_PathAttrs p)"

definition SetReachabilityForFamily :: "u32 \<Rightarrow> ReachabilityInfo option \<Rightarrow> Path \<Rightarrow> Path" where
  "SetReachabilityForFamily protoFamily info p =
     (case map_of (P_nhReachabilityInfo p) protoFamily of
        None \<Rightarrow> p
      | Some i \<Rightarrow> p\<lparr>P_nhReachabilityInfo := AList.update protoFamily (i\<lparr>NHR_info := info\<rparr>) (P_nhReachabilityInfo p)\<rparr>)"

definition GetReachability :: "u32 \<Rightarrow> Path \<Rightarrow> ReachabilityInfo option" where
  "GetReachability protoFamily p =
     (case map_of (P_nhReachabilityInfo p) protoFamily of Some i \<Rightarrow> NHR_info i | None \<Rightarrow> None)"

definition IsReachable :: "u32 \<Rightarrow> Path \<Rightarrow> bool" where
  "IsReachable protoFamily p \<longleftrightarrow>
     P_routeType p \<in> {RouteTypeStatic, RouteTypeConnected, RouteTypeIGP} \<or>
     (case map_of (P_nhReachabilityInfo p) protoFamily of Some i \<Rightarrow> NHR_info i \<noteq> None | None \<Rightarrow> False)"

text \<open>Using the next hop of \<open>GetReachability\<close> without a test panics when it is nil.\<close>

definition reach_next_hop :: "u32 \<Rightarrow> Path \<Rightarrow> string pres" where
  "reach_next_hop protoFamily p =
     (case GetReachability protoFamily p of Some i \<Rightarrow> Inr (RI_NextHop i) | None \<Rightarrow> Inl Panic)"

section \<open>Properties\<close>

lemma getRouteSource_values: "getRouteSource t \<in> {RouteSrcLocal, RouteSrcExternal, RouteSrcUnknown}"
  by (simp add: getRouteSource_def RouteTypeToSource_def)

lemma IsReachable_unless_local:
  "IsReachable fam p \<longleftrightarrow>
     P_routeType p \<in> {RouteTypeStatic, RouteTypeConnected, RouteTypeIGP} \<or> GetReachability fam p \<noteq> None"
  by (auto simp: IsReachable_def GetReachability_def split: option.splits)

lemma reach_after_set:
  "map_of (P_nhReachabilityInfo p) fam \<noteq> None \<Longrightarrow> GetReachability fam (SetReachabilityForFamily fam info p) = info"
  by (auto simp: GetReachability_def SetReachabilityForFamily_def update_conv' split: option.splits)

lemma pref_loop_keeps:
  "pref_loop attrs p pref = Inr (p', pref') \<Longrightarrow>
     P_NeighborConf p' = P_NeighborConf p \<and> P_PathAttrs p' = P_PathAttrs p \<and> P_routeType p' = P_routeType p \<and> P_ref p' = P_ref p"
  by (induction attrs arbitrary: p pref) (fastforce split: if_splits BGPPathAttr.splits)+

text \<open>A path from an external neighbour ignores LOCAL_PREF; another one without it has the default.\<close>

lemma calculatePref_external:
  "calculatePref p = Inr (p', pref) \<Longrightarrow> Path_IsExternal p \<Longrightarrow> pref = BGP_EXTERNAL_PREF"
  using pref_loop_keeps by (fastforce simp: calculatePref_def bind_r_eq_Inr Path_IsExternal_def)

lemma pref_loop_none:
  "getTypeFromPathAttrs attrs BGPPathAttrTypeLocalPref = None \<Longrightarrow> pref_loop attrs p pref = Inr (p', pref') \<Longrightarrow> pref' = pref"
  by (induction attrs arbitrary: p) (auto split: if_splits BGPPathAttr.splits)

end
