(* ===== verification/BestPath.thy ===== *)
theory BestPath
  imports BgpPath "HOL-Library.Multiset" "HOL-Library.List_Lexorder" "HOL-Library.Product_Lexorder"
begin

text \<open>
  The decision process of the routing table (bgp/rib/pathsort.go and the selection of bgp/rib/destination.go): the paths of a
  prefix are thinned out by one rule after another, in place in the slice of candidates, and what a rule removes is kept,
  with the order of that rule, as a source of additional paths.

  Two things are not determined by the code and are arguments, collected in \<open>runtime\<close>: the order in which Go visits a map,
  and the order in which \<open>sort.Sort\<close>, which is not stable, leaves equal elements.
\<close>

section \<open>Orders of removed paths\<close>

datatype sort_iface =
  ByRouteSrc | ByPref | BySmallestAS | ByLowestOrigin | ByIBGPOrEBGPRoutes | ByLowestBGPId | ByShorterClusterLen | ByLowestPeerAddress

record PathSortIface =
  PS_paths :: "Path list"
  PS_iface :: sort_iface

fun bytes_less :: "bytes \<Rightarrow> bytes \<Rightarrow> bool" where
  "bytes_less (x # xs) (y # ys) = (if x < y then True else if x > y then False else bytes_less xs ys)"
| "bytes_less _ _ = False"

definition peer_address_less :: "Path \<Rightarrow> Path \<Rightarrow> bool" where
  "peer_address_less p q =
     (case (P_NeighborConf p, P_NeighborConf q) of
        (None, _) \<Rightarrow> True
      | (Some _, None) \<Rightarrow> False
      | (Some m, Some n) \<Rightarrow>
          let a = N_NeighborAddress m; b = N_NeighborAddress n in
          if length a < length b then True else if length b < length a then False else bytes_less a b)"

fun Less :: "sort_iface \<Rightarrow> Path \<Rightarrow> Path \<Rightarrow> bool pres" where
  "Less ByRouteSrc p q = Inr (getRouteSource (P_routeType p) < getRouteSource (P_routeType q))"
| "Less ByPref p q = Inr (P_Pref p > P_Pref q)"
| "Less BySmallestAS p q = bind_r (Path_GetNumASes p) (\<lambda>a. bind_r (Path_GetNumASes q) (\<lambda>b. Inr (a < b)))"
| "Less ByLowestOrigin p q = bind_r (Path_GetOrigin p) (\<lambda>a. bind_r (Path_GetOrigin q) (\<lambda>b. Inr (a < b)))"
| "Less ByIBGPOrEBGPRoutes p q = Inr True"
| "Less ByLowestBGPId p q = bind_r (Path_GetBGPId p) (\<lambda>a. bind_r (Path_GetBGPId q) (\<lambda>b. Inr (a < b)))"
| "Less ByShorterClusterLen p q = bind_r (Path_GetNumClusters p) (\<lambda>a. bind_r (Path_GetNumClusters q) (\<lambda>b. Inr (a < b)))"
| "Less ByLowestPeerAddress p q = Inr (peer_address_less p q)"

text \<open>\<open>ClonePaths\<close> makes a slice of length 0 and assigns to its elements.\<close>

definition ClonePaths :: "Path list \<Rightarrow> Path list pres" where
  "ClonePaths paths = (if paths = [] then Inr [] else Inl Panic)"

section \<open>The rules\<close>

text \<open>
  The loop that most rules share: \<open>score\<close> rates a path, \<open>better\<close> compares ratings, \<open>xs\<close> is the slice, whose first \<open>idx\<close> elements are the
  kept ones. \<open>nxt\<close> is what becomes of \<open>idx\<close> when a path beats all before it: 1, but \<open>idx + 1\<close> in \<open>getRoutesWithLowestOrigin\<close>.
\<close>

fun select_loop ::
    "('a \<Rightarrow> 'a \<Rightarrow> bool) \<Rightarrow> (nat \<Rightarrow> nat) \<Rightarrow> (Path \<Rightarrow> 'a pres) \<Rightarrow> nat \<Rightarrow> nat \<Rightarrow>
     Path list \<times> Path list \<times> 'a \<times> nat \<Rightarrow> (Path list \<times> Path list \<times> 'a \<times> nat) pres" where
  "select_loop better nxt score i 0 st = Inr st"
| "select_loop better nxt score i (Suc k) (xs, removed, best, idx) =
     bind_r (score (xs ! i)) (\<lambda>v.
     select_loop better nxt score (Suc i) k
       (if better best v then (xs, removed @ [xs ! i], best, idx)
        else if better v best then (xs[0 := xs ! i], removed @ take idx xs, v, nxt idx)
        else (xs[idx := xs ! i], removed, best, Suc idx)))"

definition prune :: "sort_iface \<Rightarrow> Path list \<Rightarrow> PathSortIface list \<Rightarrow> PathSortIface list" where
  "prune key removed pruned = (if removed \<noteq> [] then pruned @ [\<lparr>PS_paths = removed, PS_iface = key\<rparr>] else pruned)"

definition select_by ::
    "('a \<Rightarrow> 'a \<Rightarrow> bool) \<Rightarrow> (nat \<Rightarrow> nat) \<Rightarrow> (Path \<Rightarrow> 'a pres) \<Rightarrow> 'a \<Rightarrow> sort_iface \<Rightarrow>
     Path list \<times> PathSortIface list \<Rightarrow> (Path list \<times> PathSortIface list) pres" where
  "select_by better nxt score start key = (\<lambda>(xs, pruned).
     bind_r (select_loop better nxt score 0 (length xs) (xs, [], start, 0)) (\<lambda>(xs, removed, _, idx).
     Inr (if idx > 0 then take idx xs else xs, prune key removed pruned)))"

type_synonym rule = "Path list \<times> PathSortIface list \<Rightarrow> (Path list \<times> PathSortIface list) pres"

definition getRoutesWithHighestPref :: rule where
  "getRoutesWithHighestPref = select_by (>) (\<lambda>_. 1) (\<lambda>p. Inr (Path_GetPreference p)) 0 ByPref"

definition getRoutesWithSmallestAS :: rule where
  "getRoutesWithSmallestAS = select_by (<) (\<lambda>_. 1) Path_GetNumASes 4096 BySmallestAS"

definition getRoutesWithLowestOrigin :: rule where
  "getRoutesWithLowestOrigin = select_by (<) (\<lambda>idx. idx + 1) Path_GetOrigin BGPPathAttrOriginMax ByLowestOrigin"

definition getRoutesWithLowestBGPId :: rule where
  "getRoutesWithLowestBGPId = select_by (<) (\<lambda>_. 1) Path_GetBGPId 0xFFFFFFFF ByLowestBGPId"

definition getRoutesWithShorterClusterLen :: rule where
  "getRoutesWithShorterClusterLen = select_by (<) (\<lambda>_. 1) Path_GetNumClusters 0xFFFF ByShorterClusterLen"

text \<open>
  \<open>deleteIBGPRoutes\<close>: \<open>n\<close> is one more than the variable of that name. An internal path is replaced by the last one.
\<close>

function ibgp_loop :: "nat \<Rightarrow> nat \<Rightarrow> Path list \<Rightarrow> Path list \<Rightarrow> (Path list \<times> Path list) pres" where
  "ibgp_loop i n xs removed =
     (if i < n then
        bind_r (neighbor_r (xs ! i)) (\<lambda>c.
        if NeighborConf_IsInternal c then ibgp_loop i (n - 1) (xs[i := xs ! (n - 1)]) (removed @ [xs ! i])
        else ibgp_loop (i + 1) n xs removed)
      else Inr (take i xs, removed))"
  by pat_completeness auto

termination ibgp_loop
  by (relation "measure (\<lambda>(i, n, _). n - i)") auto

declare ibgp_loop.simps [simp del]

definition deleteIBGPRoutes :: rule where
  "deleteIBGPRoutes = (\<lambda>(xs, pruned).
     bind_r (ibgp_loop 0 (length xs) xs []) (\<lambda>(kept, removed). Inr (kept, prune ByIBGPOrEBGPRoutes removed pruned)))"

definition isEBGPRoute :: "Path \<Rightarrow> bool" where
  "isEBGPRoute path = (case P_NeighborConf path of Some n \<Rightarrow> NeighborConf_IsExternal n | None \<Rightarrow> False)"

definition isIBGPRoute :: "Path \<Rightarrow> bool" where
  "isIBGPRoute path = (case P_NeighborConf path of Some n \<Rightarrow> NeighborConf_IsInternal n | None \<Rightarrow> False)"

definition removeIBGPRoutesIfEBGPExist :: rule where
  "removeIBGPRoutesIfEBGPExist = (\<lambda>(xs, pruned).
     if list_ex isEBGPRoute xs then deleteIBGPRoutes (xs, pruned) else Inr (xs, pruned))"

text \<open>\<open>CompareNeighborAddress\<close>: addresses of different lengths give 0 and an error, which the caller only logs.\<close>

fun compare_bytes :: "bytes \<Rightarrow> bytes \<Rightarrow> int" where
  "compare_bytes (x # xs) (y # ys) = (if x < y then -1 else if x > y then 1 else compare_bytes xs ys)"
| "compare_bytes _ _ = 0"

definition CompareNeighborAddress :: "bytes \<Rightarrow> bytes \<Rightarrow> int \<times> bool" where
  "CompareNeighborAddress a b = (if length a \<noteq> length b then (0, False) else (compare_bytes a b, True))"

fun address_loop ::
    "nat \<Rightarrow> nat \<Rightarrow> Path list \<times> Path list \<times> nat \<Rightarrow> (Path list \<times> Path list \<times> nat) pres" where
  "address_loop i 0 st = Inr st"
| "address_loop i (Suc k) (xs, removed, idx) =
     bind_r (neighbor_r (xs ! i)) (\<lambda>m.
     bind_r (neighbor_r (xs ! 0)) (\<lambda>n.
     let val = fst (CompareNeighborAddress (N_NeighborAddress m) (N_NeighborAddress n)) in
     address_loop (Suc i) k
       (if val > 0 then (xs, removed @ [xs ! i], idx)
        else if val < 0 then (xs[0 := xs ! i], removed @ take idx xs, 1)
        else (xs[idx := xs ! i], removed, Suc idx))))"

definition getRoutesWithLowestPeerAddress :: rule where
  "getRoutesWithLowestPeerAddress = (\<lambda>(xs, pruned).
     bind_r (address_loop 0 (length xs) (xs, [], 0)) (\<lambda>(xs, removed, idx).
     Inr (if idx > 0 then take idx xs else xs, prune ByLowestPeerAddress removed pruned)))"

section \<open>Multiple and additional paths\<close>

record runtime =
  RT_map_order :: "(string \<times> Path list) list \<Rightarrow> (string \<times> Path list) list"
  RT_path_order :: "(string \<times> Path) list \<Rightarrow> (string \<times> Path) list"
  RT_sort :: "sort_iface \<Rightarrow> Path list \<Rightarrow> Path list pres"

text \<open>The paths by their next hop. The maps are association lists in the order of insertion.\<close>

fun ecmp_map :: "u32 \<Rightarrow> Path list \<Rightarrow> (string \<times> Path list) list \<Rightarrow> ((string \<times> Path list) list) pres" where
  "ecmp_map fam [] m = Inr m"
| "ecmp_map fam (p # ps) m =
     bind_r (reach_next_hop fam p) (\<lambda>nh.
     ecmp_map fam ps (case map_of m nh of
                        None \<Rightarrow> AList.update nh [p] m
                      | Some qs \<Rightarrow> AList.update nh (qs @ [p]) m))"

definition getECMPPaths :: "runtime \<Rightarrow> u32 \<Rightarrow> Path list \<Rightarrow> (Path list list) pres" where
  "getECMPPaths rt fam updatedPaths =
     bind_r (ecmp_map fam updatedPaths []) (\<lambda>m. Inr (map snd (RT_map_order rt m)))"

fun add_path_map :: "u32 \<Rightarrow> Path list \<Rightarrow> (string \<times> Path) list \<Rightarrow> (string \<times> Path) list \<Rightarrow>
    ((string \<times> Path) list \<times> (string \<times> Path) list) pres" where
  "add_path_map fam [] currPathMap m = Inr (currPathMap, m)"
| "add_path_map fam (p # ps) currPathMap m =
     bind_r (reach_next_hop fam p) (\<lambda>nh.
     if map_of m nh = None then add_path_map fam ps (AList.update nh p currPathMap) (AList.update nh p m)
     else add_path_map fam ps currPathMap m)"

definition addAddPaths :: "runtime \<Rightarrow> u32 \<Rightarrow> Path list \<Rightarrow> Path list \<Rightarrow> (string \<times> Path) list \<Rightarrow> (Path list \<times> (string \<times> Path) list) pres" where
  "addAddPaths rt fam addPaths currPaths pathMap =
     bind_r (add_path_map fam currPaths [] pathMap) (\<lambda>(currPathMap, pathMap).
     Inr (addPaths @ map snd (RT_path_order rt currPathMap), pathMap))"

text \<open>The last loop of \<open>calculateBestPath\<close>, over the removed paths from the last rule to the first.\<close>

fun add_pruned :: "runtime \<Rightarrow> u32 \<Rightarrow> nat \<Rightarrow> PathSortIface list \<Rightarrow> Path list \<Rightarrow> (string \<times> Path) list \<Rightarrow> (Path list) pres" where
  "add_pruned rt fam addPathCount [] addPaths pathMap = Inr addPaths"
| "add_pruned rt fam addPathCount (ps # rest) addPaths pathMap =
     bind_r (RT_sort rt (PS_iface ps) (PS_paths ps)) (\<lambda>currPaths.
     bind_r (addAddPaths rt fam addPaths currPaths pathMap) (\<lambda>(addPaths, pathMap).
     if length addPaths \<ge> addPathCount then Inr (take addPathCount addPaths)
     else add_pruned rt fam addPathCount rest addPaths pathMap))"

text \<open>A rule runs only while there is more than one candidate.\<close>

definition if_several :: "rule \<Rightarrow> rule" where
  "if_several r st = (if length (fst st) > 1 then r st else Inr st)"

definition ecmp_if :: "bool \<Rightarrow> runtime \<Rightarrow> u32 \<Rightarrow> Path list \<Rightarrow> Path list list \<Rightarrow> (Path list list) pres" where
  "ecmp_if b rt fam xs old = (if b then getECMPPaths rt fam xs else Inr old)"

definition decision_head :: rule where
  "decision_head st =
     bind_r (if_several getRoutesWithHighestPref st) (\<lambda>st.
     bind_r (if_several getRoutesWithSmallestAS st) (\<lambda>st.
     if_several getRoutesWithLowestOrigin st))"

definition decision_tail :: rule where
  "decision_tail st =
     bind_r (if_several getRoutesWithLowestBGPId st) (\<lambda>st.
     bind_r (if_several getRoutesWithShorterClusterLen st) (\<lambda>st.
     if_several getRoutesWithLowestPeerAddress st))"

definition additional_paths :: "runtime \<Rightarrow> u32 \<Rightarrow> nat \<Rightarrow> Path list \<Rightarrow> PathSortIface list \<Rightarrow> (Path list) pres" where
  "additional_paths rt fam addPathCount xs pruned =
     bind_r (if 0 < addPathCount \<and> length xs > 1 then addAddPaths rt fam [] (tl xs) [] else Inr ([], [])) (\<lambda>(addPaths, pathMap).
     if length addPaths < addPathCount then add_pruned rt fam addPathCount (rev pruned) addPaths pathMap
     else Inr addPaths)"

definition calculateBestPath ::
    "runtime \<Rightarrow> u32 \<Rightarrow> Path list \<Rightarrow> Path list \<Rightarrow> bool \<Rightarrow> bool \<Rightarrow> nat \<Rightarrow> (Path list \<times> Path list list \<times> Path list) pres" where
  "calculateBestPath rt fam updatedPaths removedPaths ebgpMultiPath ibgpMultiPath addPathCount =
     bind_r (decision_head (updatedPaths, [\<lparr>PS_paths = removedPaths, PS_iface = ByRouteSrc\<rparr>])) (\<lambda>(xs, pruned).
     bind_r (ecmp_if (length xs > 1 \<and> ebgpMultiPath \<and> ibgpMultiPath) rt fam xs []) (\<lambda>ecmp.
     bind_r (if_several removeIBGPRoutesIfEBGPExist (xs, pruned)) (\<lambda>(xs, pruned).
     bind_r (ecmp_if (length xs > 1 \<and> ibgpMultiPath \<noteq> ebgpMultiPath \<and>
                      (ebgpMultiPath \<and> isEBGPRoute (xs ! 0) \<or> ibgpMultiPath \<and> isIBGPRoute (xs ! 0))) rt fam xs ecmp) (\<lambda>ecmp.
     bind_r (decision_tail (xs, pruned)) (\<lambda>(xs, pruned).
     bind_r (additional_paths rt fam addPathCount xs pruned) (\<lambda>addPaths.
     Inr (xs, ecmp, addPaths)))))))"

section \<open>What the shared loop computes\<close>

text \<open>
  A rule's comparison is a strict linear order. The loop keeps, in their order, the paths that no other beats, and the
  removed ones are the rest.
\<close>

definition optimal :: "('a \<Rightarrow> 'a \<Rightarrow> bool) \<Rightarrow> (Path \<Rightarrow> 'a) \<Rightarrow> Path list \<Rightarrow> Path list" where
  "optimal better sc xs = filter (\<lambda>p. \<forall>q \<in> set xs. \<not> better (sc q) (sc p)) xs"

locale ranking =
  fixes better :: "'a \<Rightarrow> 'a \<Rightarrow> bool"
  assumes irrefl: "\<not> better a a"
    and trans: "better a b \<Longrightarrow> better b c \<Longrightarrow> better a c"
    and linear: "a \<noteq> b \<Longrightarrow> better a b \<or> better b a"
begin

lemma asym: "better a b \<Longrightarrow> \<not> better b a"
  using irrefl trans by blast

definition the_best :: "'a \<Rightarrow> 'a list \<Rightarrow> 'a" where
  "the_best start vs = fold (\<lambda>v b. if better v b then v else b) vs start"

lemma the_best_snoc: "the_best start (vs @ [v]) = (if better v (the_best start vs) then v else the_best start vs)"
  by (simp add: the_best_def)

lemma the_best_max: "w \<in> set (start # vs) \<Longrightarrow> \<not> better w (the_best start vs)"
proof (induction vs rule: rev_induct)
  case (snoc v vs)
  then show ?case using trans irrefl linear by (auto simp: the_best_snoc)
qed (simp add: the_best_def irrefl)

lemma the_best_in: "the_best start vs \<in> set (start # vs)"
  by (induction vs rule: rev_induct) (auto simp: the_best_snoc the_best_def)

text \<open>The invariant of the loop after \<open>i\<close> paths of \<open>ys\<close>.\<close>

definition loop_inv :: "(Path \<Rightarrow> 'a) \<Rightarrow> 'a \<Rightarrow> Path list \<Rightarrow> nat \<Rightarrow> Path list \<times> Path list \<times> 'a \<times> nat \<Rightarrow> bool" where
  "loop_inv sc start ys i = (\<lambda>(xs, removed, best, idx).
     length xs = length ys \<and> idx \<le> i \<and> drop i xs = drop i ys \<and> best = the_best start (map sc (take i ys)) \<and>
     take idx xs = filter (\<lambda>p. sc p = best) (take i ys) \<and>
     mset removed = filter_mset (\<lambda>p. sc p \<noteq> best) (mset (take i ys)) \<and> (idx = 0 \<longrightarrow> xs = ys))"

lemma loop_inv_step:
  assumes inv: "loop_inv sc start ys i (xs, removed, best, idx)" and i: "i < length ys"
  shows "loop_inv sc start ys (Suc i)
    (if better best (sc (xs ! i)) then (xs, removed @ [xs ! i], best, idx)
     else if better (sc (xs ! i)) best then (xs[0 := xs ! i], removed @ take idx xs, sc (xs ! i), 1)
     else (xs[idx := xs ! i], removed, best, Suc idx))"
proof -
  have inv': "length xs = length ys" "idx \<le> i" "drop i xs = drop i ys" "best = the_best start (map sc (take i ys))"
    "take idx xs = filter (\<lambda>p. sc p = best) (take i ys)"
    "mset removed = filter_mset (\<lambda>p. sc p \<noteq> best) (mset (take i ys))" "idx = 0 \<longrightarrow> xs = ys"
    using inv by (auto simp: loop_inv_def)
  have xi: "xs ! i = ys ! i" using inv'(1,3) i by (metis hd_drop_conv_nth)
  have tk: "take (Suc i) ys = take i ys @ [xs ! i]" using i xi by (simp add: take_Suc_conv_app_nth)
  have dr: "drop (Suc i) xs = drop (Suc i) ys" using inv'(3) by (metis drop_Suc tl_drop)
  have upd: "drop (Suc i) (xs[j := z]) = drop (Suc i) ys" if "j \<le> i" for j z
    using that dr by simp
  let ?v = "sc (xs ! i)"
  show ?thesis
  proof (cases "better best ?v")
    case True
    then have "\<not> better ?v best" "?v \<noteq> best" using asym irrefl by auto
    with True inv' tk dr show ?thesis by (simp add: loop_inv_def the_best_snoc)
  next
    case nb: False
    show ?thesis
    proof (cases "better ?v best")
      case True
      have worse: "sc p \<noteq> ?v" if "p \<in> set (take i ys)" for p
        using the_best_max [of "sc p" start "map sc (take i ys)"] that True inv'(4) by auto
      have rem: "mset (removed @ take idx xs) = mset (take i ys)"
        using inv'(5,6) multiset_partition [of "mset (take i ys)" "\<lambda>p. sc p = best"] by (simp add: add.commute)
      have none: "filter (\<lambda>p. sc p = ?v) (take i ys) = []" using worse by (auto simp: filter_empty_conv)
      have all: "filter_mset (\<lambda>p. sc p \<noteq> ?v) (mset (take i ys)) = mset (take i ys)"
        using worse by (auto intro!: filter_mset_eq_conv [THEN iffD2])
      have len: "0 < length xs" using i inv'(1) by auto
      have "take 1 (xs[0 := xs ! i]) = [xs ! i]" using len by (cases xs) auto
      moreover have "?v = the_best start (map sc (take (Suc i) ys))" using tk True inv'(4) by (simp add: the_best_snoc)
      moreover have "mset (removed @ take idx xs) = filter_mset (\<lambda>p. sc p \<noteq> ?v) (mset (take (Suc i) ys))"
        using rem all tk by simp
      ultimately show ?thesis using nb True inv'(1) tk upd [of 0] none by (simp add: loop_inv_def)
    next
      case False
      then have eq: "?v = best" using nb linear by blast
      have "take (Suc idx) (xs[idx := xs ! i]) = take idx xs @ [xs ! i]"
        using inv'(1,2) i by (simp add: take_Suc_conv_app_nth)
      with False nb eq inv' tk upd [of idx] show ?thesis by (simp add: loop_inv_def the_best_snoc irrefl)
    qed
  qed
qed

lemma select_loop_inv:
  assumes "loop_inv sc start ys i st" "i + k = length ys" "\<And>p. p \<in> set ys \<Longrightarrow> score p = Inr (sc p)"
  shows "\<exists>st'. select_loop better (\<lambda>_. 1) score i k st = Inr st' \<and> loop_inv sc start ys (length ys) st'"
  using assms(1,2)
proof (induction k arbitrary: i st)
  case (Suc k)
  obtain xs removed best idx where st: "st = (xs, removed, best, idx)" by (cases st)
  have "drop i xs = drop i ys" "length xs = length ys" "i < length ys" using Suc.prems by (auto simp: st loop_inv_def)
  then have "xs ! i \<in> set ys" by (metis hd_drop_conv_nth nth_mem)
  then have sc: "score (xs ! i) = Inr (sc (xs ! i))" by (rule assms(3))
  show ?case
    using Suc.IH [OF loop_inv_step [OF Suc.prems(1) [unfolded st] \<open>i < length ys\<close>]] Suc.prems(2)
    by (simp add: st sc del: One_nat_def split del: if_split)
qed auto

lemma filter_best: 
  assumes "\<exists>p \<in> set xs. \<not> better start (sc p)"
  shows "filter (\<lambda>p. sc p = the_best start (map sc xs)) xs = optimal better sc xs"
    and "filter (\<lambda>p. sc p = the_best start (map sc xs)) xs \<noteq> []"
proof -
  let ?b = "the_best start (map sc xs)"
  have top: "\<not> better (sc q) ?b" if "q \<in> set xs" for q using the_best_max [of "sc q" start "map sc xs"] that by auto
  obtain p0 where p0: "p0 \<in> set xs" "\<not> better start (sc p0)" using assms by blast
  have "\<exists>p \<in> set xs. sc p = ?b"
  proof (cases "?b = start")
    case True
    with top [OF p0(1)] p0(2) have "sc p0 = ?b" using linear by metis
    with p0(1) show ?thesis by blast
  next
    case False
    with the_best_in [of start "map sc xs"] show ?thesis by auto
  qed
  then obtain p1 where p1: "p1 \<in> set xs" "sc p1 = ?b" by blast
  have "sc p = ?b \<longleftrightarrow> (\<forall>q \<in> set xs. \<not> better (sc q) (sc p))" if "p \<in> set xs" for p
    using top that p1 linear by metis
  then show "filter (\<lambda>p. sc p = ?b) xs = optimal better sc xs" by (auto simp: optimal_def intro!: filter_cong)
  show "filter (\<lambda>p. sc p = ?b) xs \<noteq> []" using p1 by (auto simp: filter_empty_conv)
qed

text \<open>A rule keeps the optimal paths, if one of the candidates is at least as good as the start value, and all of them else.\<close>

lemma select_by_optimal:
  assumes "\<And>p. p \<in> set xs \<Longrightarrow> score p = Inr (sc p)" "\<exists>p \<in> set xs. \<not> better start (sc p)"
  shows "\<exists>removed. select_by better (\<lambda>_. 1) score start key (xs, pruned) = Inr (optimal better sc xs, prune key removed pruned) \<and>
    mset removed + mset (optimal better sc xs) = mset xs"
proof -
  have "loop_inv sc start xs 0 (xs, [], start, 0)" by (simp add: loop_inv_def the_best_def)
  from select_loop_inv [OF this, where k = "length xs" and score = score] assms(1) obtain ys removed best idx where
    run: "select_loop better (\<lambda>_. 1) score 0 (length xs) (xs, [], start, 0) = Inr (ys, removed, best, idx)" and
    inv: "loop_inv sc start xs (length xs) (ys, removed, best, idx)" by auto
  have kept: "take idx ys = optimal better sc xs" and best: "best = the_best start (map sc xs)"
    and removed: "mset removed = filter_mset (\<lambda>p. sc p \<noteq> best) (mset xs)"
    using inv filter_best [OF assms(2)] by (auto simp: loop_inv_def)
  have "idx > 0" using kept filter_best [OF assms(2)] by (cases idx) auto
  moreover have "mset removed + mset (optimal better sc xs) = mset xs"
    using filter_best(1) [OF assms(2)] best removed
    by (metis add.commute mset_filter multiset_partition)
  ultimately show ?thesis by (auto simp: select_by_def run kept simp del: One_nat_def)
qed

lemma optimal_single: "length xs \<le> 1 \<Longrightarrow> optimal better sc xs = xs"
  by (cases xs) (auto simp: optimal_def irrefl)

lemma optimal_nonempty: "xs \<noteq> [] \<Longrightarrow> optimal better sc xs \<noteq> []"
  using filter_best [of xs "sc (hd xs)" sc] irrefl hd_in_set by metis

end

interpretation highest: ranking "(>) :: 'b::linorder \<Rightarrow> 'b \<Rightarrow> bool"
  by unfold_locales auto

interpretation lowest: ranking "(<) :: 'b::linorder \<Rightarrow> 'b \<Rightarrow> bool"
  by unfold_locales auto

end
