(* ===== verification/Decision.thy ===== *)
theory Decision
  imports BestPath
begin

text \<open>
  What the decision process of \<open>BestPath\<close> decides: every rule keeps the candidates that no other beats, the rules together keep
  those of the lowest rank, the equal-cost groups partition the paths by next hop; and the two places where it goes wrong.
\<close>

section \<open>The rules keep the best\<close>

lemma optimal_pair:
  fixes f :: "Path \<Rightarrow> 'a::linorder" and g :: "Path \<Rightarrow> 'b::linorder"
  shows "optimal (<) g (optimal (<) f xs) = optimal (<) (\<lambda>p. (f p, g p)) xs"
proof -
  have "(\<forall>q \<in> set xs. \<not> f q < f p) \<and> (\<forall>q \<in> set xs. (\<forall>r \<in> set xs. \<not> f r < f q) \<longrightarrow> \<not> g q < g p) \<longleftrightarrow>
        (\<forall>q \<in> set xs. \<not> (f q, g q) < (f p, g p))" if "p \<in> set xs" for p
    using that by (auto simp: less_prod_def' not_less) (metis order_antisym order_trans)+
  then show ?thesis by (auto simp: optimal_def intro!: filter_cong)
qed

lemma mset_optimal: "mset (optimal better sc xs) = {#p \<in># mset xs. \<forall>q \<in># mset xs. \<not> better (sc q) (sc p)#}"
  by (simp add: optimal_def)

lemma optimal_mset: "mset xs = mset ys \<Longrightarrow> mset (optimal better sc xs) = mset (optimal better sc ys)"
  by (simp add: mset_optimal)

lemma optimal_pref: "optimal (>) P_Pref xs = optimal (<) (\<lambda>p. - uint (P_Pref p)) xs"
  by (simp add: optimal_def word_less_def)

definition pruned_paths :: "PathSortIface list \<Rightarrow> Path multiset" where
  "pruned_paths pruned = mset (concat (map PS_paths pruned))"

lemma pruned_prune [simp]: "pruned_paths (prune key removed pruned) = pruned_paths pruned + mset removed"
  by (simp add: pruned_paths_def prune_def)

text \<open>A rule that keeps the best candidates and hands every other one to the removed paths.\<close>

definition keeps_best :: "rule \<Rightarrow> (Path \<Rightarrow> 'a::linorder) \<Rightarrow> Path list \<Rightarrow> bool" where
  "keeps_best r sc xs \<longleftrightarrow>
     (\<forall>pruned. \<exists>ys pruned'. r (xs, pruned) = Inr (ys, pruned') \<and> mset ys = mset (optimal (<) sc xs) \<and>
        mset ys + pruned_paths pruned' = mset xs + pruned_paths pruned)"

text \<open>The same, keeping the order of the candidates too.\<close>

definition keeps_list :: "rule \<Rightarrow> (Path \<Rightarrow> 'a::linorder) \<Rightarrow> Path list \<Rightarrow> bool" where
  "keeps_list r sc xs \<longleftrightarrow>
     (\<forall>pruned. \<exists>pruned'. r (xs, pruned) = Inr (optimal (<) sc xs, pruned') \<and>
        mset (optimal (<) sc xs) + pruned_paths pruned' = mset xs + pruned_paths pruned)"

lemma keeps_list_best: "keeps_list r sc xs \<Longrightarrow> keeps_best r sc xs"
  unfolding keeps_list_def keeps_best_def by metis

lemma keeps_if_several:
  "(length xs > 1 \<Longrightarrow> keeps_list r sc xs) \<Longrightarrow> keeps_list (if_several r) sc xs"
  "(length xs > 1 \<Longrightarrow> keeps_best r sc xs) \<Longrightarrow> keeps_best (if_several r) sc xs"
  by (cases "length xs > 1";
      simp add: keeps_list_def keeps_best_def if_several_def lowest.optimal_single [of xs])+

lemma keeps_list_seq:
  assumes "keeps_list r f xs" "keeps_list s g (optimal (<) f xs)"
  shows "keeps_list (\<lambda>st. bind_r (r st) s) (\<lambda>p. (f p, g p)) xs"
  unfolding keeps_list_def
proof
  fix pruned
  from assms(1) obtain p1 where 1: "r (xs, pruned) = Inr (optimal (<) f xs, p1)"
    "mset (optimal (<) f xs) + pruned_paths p1 = mset xs + pruned_paths pruned"
    unfolding keeps_list_def by blast
  from assms(2) obtain p2 where 2: "s (optimal (<) f xs, p1) = Inr (optimal (<) g (optimal (<) f xs), p2)"
    "mset (optimal (<) g (optimal (<) f xs)) + pruned_paths p2 = mset (optimal (<) f xs) + pruned_paths p1"
    unfolding keeps_list_def by blast
  from 1 2 show "\<exists>pruned'. bind_r (r (xs, pruned)) s = Inr (optimal (<) (\<lambda>p. (f p, g p)) xs, pruned') \<and>
    mset (optimal (<) (\<lambda>p. (f p, g p)) xs) + pruned_paths pruned' = mset xs + pruned_paths pruned"
    by (simp add: optimal_pair)
qed

lemma keeps_best_seq:
  assumes "keeps_best r f xs" "\<And>ys. mset ys = mset (optimal (<) f xs) \<Longrightarrow> keeps_best s g ys"
  shows "keeps_best (\<lambda>st. bind_r (r st) s) (\<lambda>p. (f p, g p)) xs"
  unfolding keeps_best_def
proof
  fix pruned
  from assms(1) obtain ys p1 where 1: "r (xs, pruned) = Inr (ys, p1)" "mset ys = mset (optimal (<) f xs)"
    "mset ys + pruned_paths p1 = mset xs + pruned_paths pruned" unfolding keeps_best_def by blast
  from assms(2) [OF 1(2)] obtain zs p2 where 2: "s (ys, p1) = Inr (zs, p2)" "mset zs = mset (optimal (<) g ys)"
    "mset zs + pruned_paths p2 = mset ys + pruned_paths p1" unfolding keeps_best_def by blast
  have "mset zs = mset (optimal (<) (\<lambda>p. (f p, g p)) xs)"
    using 2(2) optimal_mset [OF 1(2), of "(<)" g] by (simp add: optimal_pair)
  with 1 2 show "\<exists>ys pruned'. bind_r (r (xs, pruned)) s = Inr (ys, pruned') \<and> mset ys = mset (optimal (<) (\<lambda>p. (f p, g p)) xs) \<and>
    mset ys + pruned_paths pruned' = mset xs + pruned_paths pruned" by simp
qed

lemma select_by_keeps:
  fixes sc :: "Path \<Rightarrow> 'a::linorder"
  assumes "\<And>p. p \<in> set xs \<Longrightarrow> score p = Inr (sc p)" "\<exists>p \<in> set xs. sc p \<le> start"
  shows "keeps_list (select_by (<) (\<lambda>_. 1) score start key) sc xs"
  unfolding keeps_list_def
proof
  fix pruned
  have "\<exists>p \<in> set xs. \<not> start < sc p" using assms(2) by (auto simp: not_less)
  with lowest.select_by_optimal [where score = score and sc = sc and start = start and xs = xs and key = key and pruned = pruned] assms(1)
  obtain removed where "select_by (<) (\<lambda>_. 1) score start key (xs, pruned) = Inr (optimal (<) sc xs, prune key removed pruned)"
    "mset removed + mset (optimal (<) sc xs) = mset xs" by blast
  then show "\<exists>pruned'. select_by (<) (\<lambda>_. 1) score start key (xs, pruned) = Inr (optimal (<) sc xs, pruned') \<and>
    mset (optimal (<) sc xs) + pruned_paths pruned' = mset xs + pruned_paths pruned"
    by (auto simp: ac_simps intro!: exI [of _ "prune key removed pruned"])
qed


lemma select_pref_keeps:
  assumes "xs \<noteq> []"
  shows "keeps_list getRoutesWithHighestPref (\<lambda>p. - uint (P_Pref p)) xs"
  unfolding keeps_list_def
proof
  fix pruned
  have "\<exists>p \<in> set xs. \<not> 0 > P_Pref p" using assms by (cases xs) auto
  then obtain removed where "getRoutesWithHighestPref (xs, pruned) = Inr (optimal (>) P_Pref xs, prune ByPref removed pruned)"
    "mset removed + mset (optimal (>) P_Pref xs) = mset xs"
    using highest.select_by_optimal [of xs "\<lambda>p. Inr (Path_GetPreference p)" P_Pref 0 ByPref pruned]
    by (auto simp: getRoutesWithHighestPref_def Path_GetPreference_def)
  then show "\<exists>pruned'. getRoutesWithHighestPref (xs, pruned) = Inr (optimal (<) (\<lambda>p. - uint (P_Pref p)) xs, pruned') \<and>
    mset (optimal (<) (\<lambda>p. - uint (P_Pref p)) xs) + pruned_paths pruned' = mset xs + pruned_paths pruned"
    by (auto simp: optimal_pref ac_simps intro!: exI [of _ "prune ByPref removed pruned"])
qed

text \<open>What becomes of \<open>idx\<close> when a path beats the first one does not matter when none does.\<close>

lemma select_loop_nxt:
  assumes "\<And>p. p \<in> set (drop i xs) \<Longrightarrow> score p = Inr (sc p) \<and> \<not> better (sc p) best" "i + k = length xs" "idx \<le> i"
  shows "select_loop better nxt score i k (xs, removed, best, idx) = select_loop better nxt' score i k (xs, removed, best, idx)"
  using assms
proof (induction k arbitrary: i xs removed idx)
  case (Suc k)
  have i: "i < length xs" using Suc.prems(2) by simp
  then have d: "drop i xs = xs ! i # drop (Suc i) xs" by (simp add: Cons_nth_drop_Suc)
  have now: "score (xs ! i) = Inr (sc (xs ! i))" "\<not> better (sc (xs ! i)) best" using Suc.prems(1) d by auto
  have later: "\<And>p. p \<in> set (drop (Suc i) xs) \<Longrightarrow> score p = Inr (sc p) \<and> \<not> better (sc p) best"
    using Suc.prems(1) d by simp
  show ?case
    using now Suc.prems(2,3) later Suc.IH [of "Suc i" xs idx] Suc.IH [of "Suc i" "xs[idx := xs ! i]" "Suc idx"]
    by simp
qed simp

lemma select_by_nxt:
  assumes "xs \<noteq> []" "\<And>p. p \<in> set xs \<Longrightarrow> score p = Inr (sc p)" "\<not> better start (sc (hd xs))"
    and "\<And>p. p \<in> set xs \<Longrightarrow> \<not> better (sc p) (sc (hd xs))" "better (sc (hd xs)) start \<or> sc (hd xs) = start"
  shows "select_by better Suc score start key (xs, pruned) = select_by better (\<lambda>_. 1) score start key (xs, pruned)"
proof -
  obtain p ps where xs: "xs = p # ps" using assms(1) by (cases xs) auto
  have "select_loop better nxt score 0 (length xs) (xs, [], start, 0) =
        select_loop better nxt score 1 (length ps) (xs, [], sc p, 1)" if "nxt 0 = 1" for nxt
    using assms that by (auto simp: xs)
  moreover have "select_loop better Suc score 1 (length ps) (xs, [], sc p, 1) =
        select_loop better (\<lambda>_. 1) score 1 (length ps) (xs, [], sc p, 1)"
    using assms by (intro select_loop_nxt [where sc = sc]) (auto simp: xs)
  ultimately show ?thesis by (simp add: select_by_def)
qed

lemma select_origin_keeps:
  assumes "xs \<noteq> []" "\<And>p. p \<in> set xs \<Longrightarrow> Path_GetOrigin p = Inr (sc p) \<and> sc (hd xs) \<le> sc p" "sc (hd xs) \<le> BGPPathAttrOriginMax"
  shows "keeps_list getRoutesWithLowestOrigin sc xs"
proof -
  have "keeps_list (select_by (<) (\<lambda>_. 1) Path_GetOrigin BGPPathAttrOriginMax ByLowestOrigin) sc xs"
    using assms by (intro select_by_keeps) (auto intro: bexI [of _ "hd xs"])
  moreover have "getRoutesWithLowestOrigin (xs, pruned) =
      select_by (<) (\<lambda>_. 1) Path_GetOrigin BGPPathAttrOriginMax ByLowestOrigin (xs, pruned)" for pruned
    using select_by_nxt [of xs Path_GetOrigin sc "(<)" BGPPathAttrOriginMax ByLowestOrigin pruned] assms
    by (force simp: getRoutesWithLowestOrigin_def not_less order_le_less Suc_eq_plus1 [symmetric])
  ultimately show ?thesis by (simp add: keeps_list_def)
qed


text \<open>Internal paths go, if there is an external one. The order of the others changes.\<close>

lemma take_shrink:
  assumes "i < n" "n \<le> length xs"
  shows "mset (take (n - 1) (xs[i := xs ! (n - 1)])) + {#xs ! i#} = mset (take n xs)"
proof (cases "i = n - 1")
  case True
  with assms show ?thesis by (cases n) (auto simp: take_Suc_conv_app_nth)
next
  case False
  define ys where "ys = take (n - 1) xs"
  have i: "i < length ys" "ys ! i = xs ! i" using False assms by (auto simp: ys_def)
  have "take n xs = ys @ [xs ! (n - 1)]" using assms by (cases n) (auto simp: take_Suc_conv_app_nth ys_def)
  moreover have "take (n - 1) (xs[i := xs ! (n - 1)]) = ys[i := xs ! (n - 1)]" by (simp add: ys_def take_update_swap)
  ultimately show ?thesis using i nth_mem [OF i(1)] by (simp add: mset_update)
qed

lemma ibgp_loop_spec:
  assumes "i \<le> n" "n \<le> length xs" "\<And>p. p \<in> set xs \<Longrightarrow> P_NeighborConf p \<noteq> None"
    and "\<And>p. p \<in> set (take i xs) \<Longrightarrow> \<not> Path_IsInternal p" "\<And>p. p \<in> set removed \<Longrightarrow> Path_IsInternal p"
  shows "\<exists>kept rem. ibgp_loop i n xs removed = Inr (kept, rem) \<and> mset kept + mset rem = mset (take n xs) + mset removed \<and>
    (\<forall>p \<in> set kept. \<not> Path_IsInternal p) \<and> (\<forall>p \<in> set rem. Path_IsInternal p)"
  using assms
proof (induction i n xs removed rule: ibgp_loop.induct)
  case (1 i n xs removed)
  show ?case
  proof (cases "i < n")
    case False
    with 1(3-7) show ?thesis by (auto simp: ibgp_loop.simps [of n n xs])
  next
    case True
    have mem: "xs ! i \<in> set xs" "xs ! (n - 1) \<in> set xs" using True 1(4) by auto
    then obtain c where c: "neighbor_r (xs ! i) = Inr c" "P_NeighborConf (xs ! i) = Some c"
      using 1(5) [of "xs ! i"] by (auto simp: neighbor_r_def)
    have int: "Path_IsInternal (xs ! i) = NeighborConf_IsInternal c" by (simp add: Path_IsInternal_def c(2))
    show ?thesis
    proof (cases "NeighborConf_IsInternal c")
      case internal: True
      let ?ys = "xs[i := xs ! (n - 1)]"
      have "set ?ys \<subseteq> set xs" using mem set_update_subset_insert by fastforce
      then have "\<exists>kept rem. ibgp_loop i (n - 1) ?ys (removed @ [xs ! i]) = Inr (kept, rem) \<and>
        mset kept + mset rem = mset (take (n - 1) ?ys) + mset (removed @ [xs ! i]) \<and>
        (\<forall>p \<in> set kept. \<not> Path_IsInternal p) \<and> (\<forall>p \<in> set rem. Path_IsInternal p)"
        using 1(3-7) True internal int by (intro 1(1) [OF True c(1) internal]) auto
      with take_shrink [OF True 1(4)] c internal True show ?thesis
        by (auto simp: ibgp_loop.simps [of i n xs] ac_simps)
    next
      case ext: False
      have "take (i + 1) xs = take i xs @ [xs ! i]" using True 1(4) by (simp add: take_Suc_conv_app_nth)
      then have "\<exists>kept rem. ibgp_loop (i + 1) n xs removed = Inr (kept, rem) \<and>
        mset kept + mset rem = mset (take n xs) + mset removed \<and>
        (\<forall>p \<in> set kept. \<not> Path_IsInternal p) \<and> (\<forall>p \<in> set rem. Path_IsInternal p)"
        using 1(3-7) True ext int by (intro 1(2) [OF True c(1) ext]) auto
      with c ext True show ?thesis by (simp add: ibgp_loop.simps [of i n xs])
    qed
  qed
qed

lemma filter_of_parts:
  assumes "mset kept + mset rem = mset xs" "\<forall>p \<in> set kept. \<not> P p" "\<forall>p \<in> set rem. P p"
  shows "mset kept = {#p \<in># mset xs. \<not> P p#}"
proof -
  have "{#p \<in># mset kept. \<not> P p#} = mset kept" "{#p \<in># mset rem. \<not> P p#} = {#}"
    using assms(2,3) by (auto simp: filter_mset_eq_conv)
  then show ?thesis using assms(1) [symmetric] by simp
qed

lemma remove_ibgp_keeps:
  assumes "\<And>p. p \<in> set xs \<Longrightarrow> P_NeighborConf p \<noteq> None"
  shows "keeps_best removeIBGPRoutesIfEBGPExist Path_IsInternal xs"
proof (cases "list_ex isEBGPRoute xs")
  case True
  have ie: "isEBGPRoute p = (\<not> Path_IsInternal p)" if "p \<in> set xs" for p
    using assms [OF that]
    by (auto simp: isEBGPRoute_def Path_IsInternal_def NeighborConf_IsInternal_def NeighborConf_IsExternal_def)
  from ibgp_loop_spec [of 0 "length xs" xs "[]"] assms obtain kept rem where
    run: "ibgp_loop 0 (length xs) xs [] = Inr (kept, rem)" and parts: "mset kept + mset rem = mset xs"
    "\<forall>p \<in> set kept. \<not> Path_IsInternal p" "\<forall>p \<in> set rem. Path_IsInternal p" by auto
  obtain e where e: "e \<in> set xs" "\<not> Path_IsInternal e" using True ie by (auto simp: list_ex_iff)
  have "optimal (<) Path_IsInternal xs = filter (\<lambda>p. \<not> Path_IsInternal p) xs"
    using e by (auto simp: optimal_def intro!: filter_cong)
  then have "mset kept = mset (optimal (<) Path_IsInternal xs)" using filter_of_parts [OF parts] by simp
  with True run parts(1) show ?thesis
    by (auto simp: keeps_best_def removeIBGPRoutesIfEBGPExist_def deleteIBGPRoutes_def ac_simps)
next
  case False
  have "Path_IsInternal p" if "p \<in> set xs" for p
    using assms [OF that] False that
    by (auto simp: isEBGPRoute_def Path_IsInternal_def NeighborConf_IsInternal_def NeighborConf_IsExternal_def list_ex_iff)
  then have "optimal (<) Path_IsInternal xs = xs" by (auto simp: optimal_def)
  with False show ?thesis by (auto simp: keeps_best_def removeIBGPRoutesIfEBGPExist_def)
qed

text \<open>Addresses of one length are compared as lists of bytes.\<close>

lemma compare_bytes_less:
  "length a = length b \<Longrightarrow> (compare_bytes a b < 0) = (a < b) \<and> (compare_bytes a b > 0) = (b < a)"
  by (induction a b rule: compare_bytes.induct) auto

definition address :: "Path \<Rightarrow> bytes" where
  "address p = N_NeighborAddress (the (P_NeighborConf p))"

lemma address_loop_select:
  assumes "\<And>p. p \<in> set xs \<Longrightarrow> P_NeighborConf p \<noteq> None \<and> length (address p) = n"
    and "i + k = length xs" "0 < i \<longrightarrow> 0 < idx" "idx \<le> i" "best = address (xs ! 0)"
  shows "address_loop i k (xs, removed, idx) =
    bind_r (select_loop (<) (\<lambda>_. 1) (\<lambda>p. Inr (address p)) i k (xs, removed, best, idx)) (\<lambda>(xs, removed, _, idx). Inr (xs, removed, idx))"
  using assms
proof (induction k arbitrary: i xs removed best idx)
  case (Suc k)
  have i: "i < length xs" using Suc.prems(2) by simp
  have mem: "xs ! i \<in> set xs" "xs ! 0 \<in> set xs" using i by (auto intro: nth_mem)
  obtain m where m: "neighbor_r (xs ! i) = Inr m" "N_NeighborAddress m = address (xs ! i)"
    using Suc.prems(1) [OF mem(1)] by (auto simp: neighbor_r_def address_def)
  obtain c where c: "neighbor_r (xs ! 0) = Inr c" "N_NeighborAddress c = address (xs ! 0)"
    using Suc.prems(1) [OF mem(2)] by (auto simp: neighbor_r_def address_def)
  have sub: "set (xs[j := xs ! i]) \<subseteq> set xs" for j using mem set_update_subset_insert by fastforce
  have upd0: "xs[0 := xs ! i] ! 0 = xs ! i" using i by (cases xs) auto
  have updi: "xs[idx := xs ! i] ! 0 = xs ! 0" if "i = 0 \<or> idx > 0" using that i Suc.prems(4) by (cases xs; cases idx) auto
  have cmp: "fst (CompareNeighborAddress (address (xs ! i)) (address (xs ! 0))) = compare_bytes (address (xs ! i)) (address (xs ! 0))"
    "(compare_bytes (address (xs ! i)) (address (xs ! 0)) < 0) = (address (xs ! i) < address (xs ! 0))"
    "(compare_bytes (address (xs ! i)) (address (xs ! 0)) > 0) = (address (xs ! 0) < address (xs ! i))"
    using compare_bytes_less [of "address (xs ! i)" "address (xs ! 0)"] Suc.prems(1) mem
    by (auto simp: CompareNeighborAddress_def)
  consider "best < address (xs ! i)" | "address (xs ! i) < best" | "address (xs ! i) = best" by fastforce
  then show ?case
  proof cases
    case 1
    then have "0 < i" using Suc.prems(5) by (cases i) auto
    with 1 m c cmp Suc.prems Suc.IH [of xs "Suc i" idx best] show ?thesis by (simp add: Let_def)
  next
    case 2
    have "\<And>p. p \<in> set (xs[0 := xs ! i]) \<Longrightarrow> P_NeighborConf p \<noteq> None \<and> length (address p) = n" using Suc.prems(1) sub by blast
    with 2 m c cmp Suc.prems upd0 Suc.IH [of "xs[0 := xs ! i]" "Suc i" 1 "address (xs ! i)"] show ?thesis
      by (simp add: Let_def)
  next
    case 3
    have "\<And>p. p \<in> set (xs[idx := xs ! i]) \<Longrightarrow> P_NeighborConf p \<noteq> None \<and> length (address p) = n" using Suc.prems(1) sub by blast
    with 3 m c cmp Suc.prems updi Suc.IH [of "xs[idx := xs ! i]" "Suc i" "Suc idx" best] show ?thesis
      by (auto simp: Let_def)
  qed
qed simp

lemma lowest_address_keeps:
  assumes "xs \<noteq> []" "\<And>p. p \<in> set xs \<Longrightarrow> P_NeighborConf p \<noteq> None \<and> length (address p) = n"
  shows "keeps_list getRoutesWithLowestPeerAddress address xs"
proof -
  have "keeps_list (select_by (<) (\<lambda>_. 1) (\<lambda>p. Inr (address p)) (address (hd xs)) ByLowestPeerAddress) address xs"
    using assms(1) by (intro select_by_keeps) (auto intro: bexI [of _ "hd xs"])
  moreover have "getRoutesWithLowestPeerAddress (xs, pruned) =
      select_by (<) (\<lambda>_. 1) (\<lambda>p. Inr (address p)) (address (hd xs)) ByLowestPeerAddress (xs, pruned)" for pruned
    using address_loop_select [of xs n 0 "length xs" 0 "address (hd xs)" "[]"] assms
    by (auto simp: getRoutesWithLowestPeerAddress_def select_by_def hd_conv_nth bind_r_assoc intro!: arg_cong2 [where f = bind_r])
  ultimately show ?thesis by (simp add: keeps_list_def)
qed

section \<open>The decision process\<close>

text \<open>
  The rank of a path: the greater preference, the shorter AS path, the lower origin, external before internal, the lower
  router id, the shorter cluster list, the lower address of the neighbour. A path is \<open>rankable\<close> if it comes from a neighbour and
  none of these is missing.
\<close>

definition rank_head :: "Path \<Rightarrow> (int \<times> u32) \<times> u8" where
  "rank_head p = ((- uint (P_Pref p), projr (Path_GetNumASes p)), projr (Path_GetOrigin p))"

definition rank_tail :: "Path \<Rightarrow> (u32 \<times> u16) \<times> bytes" where
  "rank_tail p = ((projr (Path_GetBGPId p), projr (Path_GetNumClusters p)), address p)"

definition rank :: "Path \<Rightarrow> (((int \<times> u32) \<times> u8) \<times> bool) \<times> (u32 \<times> u16) \<times> bytes" where
  "rank p = ((rank_head p, Path_IsInternal p), rank_tail p)"

definition rankable :: "nat \<Rightarrow> Path \<Rightarrow> bool" where
  "rankable n p \<longleftrightarrow>
     P_NeighborConf p \<noteq> None \<and> length (address p) = n \<and> \<not> isl (Path_GetNumASes p) \<and> projr (Path_GetNumASes p) \<le> 4096 \<and>
     \<not> isl (Path_GetOrigin p) \<and> projr (Path_GetOrigin p) \<le> BGPPathAttrOriginMax \<and> \<not> isl (Path_GetBGPId p) \<and> \<not> isl (Path_GetNumClusters p)"

lemma set_optimal: "set (optimal better sc xs) \<subseteq> set xs"
  by (auto simp: optimal_def)

lemma optimal_sorted: "sorted_wrt R xs \<Longrightarrow> sorted_wrt R (optimal better sc xs)"
  by (simp add: optimal_def sorted_wrt_filter)

lemma word_le_max: "(v :: u32) \<le> 0xFFFFFFFF" "(w :: u16) \<le> 0xFFFF"
  using uint_lt2p [of v] uint_lt2p [of w] by (simp_all add: word_le_def)

lemma keeps_bestD:
  "keeps_best r sc xs \<Longrightarrow> \<exists>ys pruned'. r (xs, pruned) = Inr (ys, pruned') \<and> mset ys = mset (optimal (<) sc xs) \<and>
     mset ys + pruned_paths pruned' = mset xs + pruned_paths pruned"
  by (simp add: keeps_best_def)

lemma select_by_keeps_all:
  fixes sc :: "Path \<Rightarrow> 'a::linorder"
  assumes "xs \<noteq> []" "\<And>p. p \<in> set xs \<Longrightarrow> score p = Inr (sc p) \<and> sc p \<le> start"
  shows "keeps_list (select_by (<) (\<lambda>_. 1) score start key) sc xs"
  using assms by (intro select_by_keeps) (auto simp: neq_Nil_conv)

lemma decision_head_keeps:
  assumes "xs \<noteq> []" "\<And>p. p \<in> set xs \<Longrightarrow> rankable n p"
    and "sorted_wrt (\<lambda>p q. projr (Path_GetOrigin p) \<le> projr (Path_GetOrigin q)) xs"
  shows "keeps_list decision_head rank_head xs"
proof -
  let ?f = "\<lambda>p. - uint (P_Pref p)" and ?g = "\<lambda>p. projr (Path_GetNumASes p)" and ?h = "\<lambda>p. projr (Path_GetOrigin p)"
  let ?ys = "optimal (<) ?f xs" and ?zs = "optimal (<) ?g (optimal (<) ?f xs)"
  have ne: "?ys \<noteq> []" "?zs \<noteq> []" using assms(1) by (simp_all add: lowest.optimal_nonempty)
  have sub: "set ?ys \<subseteq> set xs" "set ?zs \<subseteq> set xs" by (auto simp: optimal_def)
  have 1: "keeps_list (if_several getRoutesWithHighestPref) ?f xs"
    by (rule keeps_if_several) (rule select_pref_keeps [OF assms(1)])
  have 2: "keeps_list (if_several getRoutesWithSmallestAS) ?g ?ys"
    unfolding getRoutesWithSmallestAS_def using sub(1) assms(2) ne(1)
    by (intro keeps_if_several select_by_keeps_all) (auto simp: rankable_def)
  have hd: "?h (hd ?zs) \<le> ?h p" if "p \<in> set ?zs" for p
    using optimal_sorted [OF optimal_sorted [OF assms(3)], of "(<)" ?g "(<)" ?f] that by (cases ?zs) auto
  have "rankable n (hd ?zs)" using hd_in_set [OF ne(2)] sub(2) assms(2) by blast
  then have 3: "keeps_list (if_several getRoutesWithLowestOrigin) ?h ?zs"
    using sub(2) assms(2) ne(2) hd
    by (intro keeps_if_several select_origin_keeps) (auto simp: rankable_def)
  have 12: "keeps_list (\<lambda>st. bind_r (if_several getRoutesWithHighestPref st) (if_several getRoutesWithSmallestAS)) (\<lambda>p. (?f p, ?g p)) xs"
    by (rule keeps_list_seq [OF 1 2])
  have "decision_head = (\<lambda>st. bind_r (bind_r (if_several getRoutesWithHighestPref st) (if_several getRoutesWithSmallestAS))
      (if_several getRoutesWithLowestOrigin))"
    by (rule ext) (simp add: decision_head_def bind_r_assoc)
  then show ?thesis
    using keeps_list_seq [OF 12, of "if_several getRoutesWithLowestOrigin" ?h] 3
    by (simp add: optimal_pair rank_head_def [abs_def])
qed

lemma decision_tail_keeps:
  assumes "xs \<noteq> []" "\<And>p. p \<in> set xs \<Longrightarrow> rankable n p"
  shows "keeps_best decision_tail rank_tail xs"
proof -
  let ?f = "\<lambda>p. projr (Path_GetBGPId p)" and ?g = "\<lambda>p. projr (Path_GetNumClusters p)"
  let ?ys = "optimal (<) ?f xs" and ?zs = "optimal (<) ?g (optimal (<) ?f xs)"
  have ne: "?ys \<noteq> []" "?zs \<noteq> []" using assms(1) by (simp_all add: lowest.optimal_nonempty)
  have sub: "set ?ys \<subseteq> set xs" "set ?zs \<subseteq> set xs" by (auto simp: optimal_def)
  have 1: "keeps_list (if_several getRoutesWithLowestBGPId) ?f xs"
    unfolding getRoutesWithLowestBGPId_def using assms word_le_max
    by (intro keeps_if_several select_by_keeps_all) (auto simp: rankable_def)
  have 2: "keeps_list (if_several getRoutesWithShorterClusterLen) ?g ?ys"
    unfolding getRoutesWithShorterClusterLen_def using sub(1) assms(2) ne(1) word_le_max
    by (intro keeps_if_several select_by_keeps_all) (auto simp: rankable_def)
  have 3: "keeps_list (if_several getRoutesWithLowestPeerAddress) address ?zs"
    using sub(2) assms(2) ne(2) by (intro keeps_if_several lowest_address_keeps) (auto simp: rankable_def)
  have 12: "keeps_list (\<lambda>st. bind_r (if_several getRoutesWithLowestBGPId st) (if_several getRoutesWithShorterClusterLen)) (\<lambda>p. (?f p, ?g p)) xs"
    by (rule keeps_list_seq [OF 1 2])
  have "decision_tail = (\<lambda>st. bind_r (bind_r (if_several getRoutesWithLowestBGPId st) (if_several getRoutesWithShorterClusterLen))
      (if_several getRoutesWithLowestPeerAddress))"
    by (rule ext) (simp add: decision_tail_def bind_r_assoc)
  then show ?thesis
    using keeps_list_seq [OF 12, of "if_several getRoutesWithLowestPeerAddress" address] 3
    by (intro keeps_list_best) (simp add: optimal_pair rank_tail_def [abs_def])
qed


text \<open>Next hops are known of every path that may be asked for one.\<close>

definition known_next_hops :: "u32 \<Rightarrow> Path multiset \<Rightarrow> bool" where
  "known_next_hops fam M \<longleftrightarrow> (\<forall>p \<in># M. GetReachability fam p \<noteq> None)"

text \<open>What the runtime promises: a map is visited completely, and sorting with a comparison that never panics permutes.\<close>

definition fair_runtime :: "runtime \<Rightarrow> bool" where
  "fair_runtime rt \<longleftrightarrow>
     (\<forall>m. mset (RT_map_order rt m) = mset m) \<and> (\<forall>m. mset (RT_path_order rt m) = mset m) \<and>
     (\<forall>key xs. (\<forall>p \<in> set xs. \<forall>q \<in> set xs. \<not> isl (Less key p q)) \<longrightarrow> (\<exists>ys. RT_sort rt key xs = Inr ys \<and> mset ys = mset xs))"

lemma reach_known: "known_next_hops fam M \<Longrightarrow> p \<in># M \<Longrightarrow> \<exists>nh. reach_next_hop fam p = Inr nh"
  by (auto simp: known_next_hops_def reach_next_hop_def)

lemma ecmp_map_total: "known_next_hops fam (mset ps) \<Longrightarrow> \<exists>m'. ecmp_map fam ps m = Inr m'"
  by (induction ps arbitrary: m) (auto simp: known_next_hops_def reach_next_hop_def)

lemma add_path_map_total:
  "known_next_hops fam (mset ps) \<Longrightarrow> \<exists>c m'. add_path_map fam ps currPathMap m = Inr (c, m')"
  by (induction ps arbitrary: m currPathMap) (auto simp: known_next_hops_def reach_next_hop_def)

lemma add_pruned_total:
  assumes "fair_runtime rt" "known_next_hops fam (pruned_paths pruned)"
    and "\<And>ps p q. ps \<in> set pruned \<Longrightarrow> p \<in> set (PS_paths ps) \<Longrightarrow> q \<in> set (PS_paths ps) \<Longrightarrow> \<not> isl (Less (PS_iface ps) p q)"
  shows "\<exists>xs. add_pruned rt fam n pruned addPaths m = Inr xs"
  using assms(2,3)
proof (induction pruned arbitrary: addPaths m)
  case (Cons ps pruned)
  obtain ys where ys: "RT_sort rt (PS_iface ps) (PS_paths ps) = Inr ys" "mset ys = mset (PS_paths ps)"
    using assms(1) Cons.prems(2) [of ps] by (force simp: fair_runtime_def)
  have known: "known_next_hops fam (mset ys)" "known_next_hops fam (pruned_paths pruned)"
    using Cons.prems(1) ys(2) by (auto simp: known_next_hops_def pruned_paths_def)
  obtain c m' where "add_path_map fam ys [] m = Inr (c, m')" using add_path_map_total [OF known(1)] by blast
  with ys Cons.IH [OF known(2)] Cons.prems(2) show ?case by (auto simp: addAddPaths_def)
qed simp


lemma Less_total: "rankable n p \<Longrightarrow> rankable n q \<Longrightarrow> \<not> isl (Less key p q)"
  by (cases key) (auto simp: rankable_def bind_r_def split: sum.splits)

lemma additional_paths_total:
  assumes "fair_runtime rt" "\<And>p. p \<in># mset xs + pruned_paths pruned \<Longrightarrow> rankable n p"
    and "known_next_hops fam (mset xs + pruned_paths pruned)"
  shows "\<exists>ys. additional_paths rt fam k xs pruned = Inr ys"
proof -
  have "set (tl xs) \<subseteq> set xs" by (cases xs) auto
  then have known: "known_next_hops fam (mset (tl xs))" "known_next_hops fam (pruned_paths (rev pruned))"
    using assms(3) by (auto simp: known_next_hops_def pruned_paths_def)
  obtain c m where first: "add_path_map fam (tl xs) [] [] = Inr (c, m)" using add_path_map_total [OF known(1)] by blast
  have less: "\<not> isl (Less (PS_iface ps) p q)" if "ps \<in> set (rev pruned)" "p \<in> set (PS_paths ps)" "q \<in> set (PS_paths ps)" for ps p q
    using that assms(2) by (intro Less_total [of n]) (auto simp: pruned_paths_def)
  have rest: "\<exists>ys. add_pruned rt fam k (rev pruned) addPaths m' = Inr ys" for addPaths m'
    using add_pruned_total [OF assms(1) known(2) less] by blast
  show ?thesis using first rest by (auto simp: additional_paths_def addAddPaths_def)
qed

lemma ecmp_if_total: "known_next_hops fam (mset xs) \<Longrightarrow> \<exists>e. ecmp_if b rt fam xs old = Inr e"
  using ecmp_map_total [of fam xs "[]"] by (auto simp: ecmp_if_def getECMPPaths_def)

text \<open>The decision process returns, and keeps exactly the paths of the lowest rank.\<close>

lemma calculateBestPath_optimal:
  assumes "xs \<noteq> []" "fair_runtime rt" "\<And>p. p \<in> set (xs @ removed) \<Longrightarrow> rankable n p"
    and "sorted_wrt (\<lambda>p q. projr (Path_GetOrigin p) \<le> projr (Path_GetOrigin q)) xs"
    and "known_next_hops fam (mset (xs @ removed))"
  shows "\<exists>ys ecmp addPaths. calculateBestPath rt fam xs removed ebgp ibgp k = Inr (ys, ecmp, addPaths) \<and>
    mset ys = mset (optimal (<) rank xs)"
proof -
  let ?pr = "[\<lparr>PS_paths = removed, PS_iface = ByRouteSrc\<rparr>]" and ?M = "mset (xs @ removed)"
  let ?x1 = "optimal (<) rank_head xs"
  have all: "mset xs + pruned_paths ?pr = ?M" by (simp add: pruned_paths_def)
  obtain p1 where 1: "decision_head (xs, ?pr) = Inr (?x1, p1)" "mset ?x1 + pruned_paths p1 = ?M"
    using decision_head_keeps [of xs n] assms(1,3,4) all [symmetric] by (auto simp: keeps_list_def)
  have in1: "set ?x1 \<subseteq> set xs" by (rule set_optimal)
  have "keeps_best (if_several removeIBGPRoutesIfEBGPExist) Path_IsInternal ?x1"
    using in1 assms(3) by (intro keeps_if_several remove_ibgp_keeps) (auto simp: rankable_def)
  then obtain x2 p2 where 2: "if_several removeIBGPRoutesIfEBGPExist (?x1, p1) = Inr (x2, p2)"
    "mset x2 = mset (optimal (<) Path_IsInternal ?x1)" "mset x2 + pruned_paths p2 = ?M"
    using 1(2) by (auto dest: keeps_bestD [where pruned = p1])
  have in2: "set x2 \<subseteq> set xs"
    using mset_eq_setD [OF 2(2)] set_optimal [of "(<)" Path_IsInternal ?x1] in1 by blast
  have "optimal (<) Path_IsInternal ?x1 \<noteq> []" using assms(1) by (simp add: lowest.optimal_nonempty)
  then have ne2: "x2 \<noteq> []" using 2(2) by auto
  have "keeps_best decision_tail rank_tail x2" using in2 assms(3) by (intro decision_tail_keeps [OF ne2, of n]) auto
  then obtain x3 p3 where 3: "decision_tail (x2, p2) = Inr (x3, p3)" "mset x3 = mset (optimal (<) rank_tail x2)"
    "mset x3 + pruned_paths p3 = ?M"
    using 2(3) by (auto dest: keeps_bestD [where pruned = p2])
  have best: "mset x3 = mset (optimal (<) rank xs)"
    using 3(2) optimal_mset [OF 2(2), of "(<)" rank_tail] by (simp add: optimal_pair rank_def [abs_def])
  have known: "known_next_hops fam (mset ?x1)" "known_next_hops fam (mset x2)"
    using assms(5) in1 in2 by (auto simp: known_next_hops_def)
  obtain e1 where e1: "ecmp_if (length ?x1 > 1 \<and> ebgp \<and> ibgp) rt fam ?x1 [] = Inr e1" using ecmp_if_total [OF known(1)] by blast
  obtain e2 where e2: "ecmp_if (length x2 > 1 \<and> ibgp \<noteq> ebgp \<and> (ebgp \<and> isEBGPRoute (x2 ! 0) \<or> ibgp \<and> isIBGPRoute (x2 ! 0))) rt fam x2 e1 = Inr e2"
    using ecmp_if_total [OF known(2)] by blast
  have rk: "rankable n p" if "p \<in># mset x3 + pruned_paths p3" for p using that 3(3) assms(3) by (simp only: in_multiset_in_set)
  have "known_next_hops fam (mset x3 + pruned_paths p3)" using 3(3) assms(5) by simp
  then obtain a where "additional_paths rt fam k x3 p3 = Inr a"
    using additional_paths_total [OF assms(2) rk] by blast
  with 1(1) 2(1) 3(1) e1 e2 best show ?thesis by (auto simp: calculateBestPath_def)
qed


section \<open>Where it goes wrong\<close>

text \<open>
  In \<open>getRoutesWithLowestOrigin\<close> a path that beats the ones before it does not reset the index: one of the beaten paths
  stays a candidate, and the winner is there twice.
\<close>

lemma lowest_origin_late:
  assumes "Path_GetOrigin p = Inr a" "Path_GetOrigin q = Inr a" "Path_GetOrigin r = Inr b" "b < a" "a < BGPPathAttrOriginMax"
  shows "getRoutesWithLowestOrigin ([p, q, r], pruned) = Inr ([r, q, r], prune ByLowestOrigin [p, q] pruned)"
proof -
  have "\<not> 3 < a" "\<not> a < b" "a \<noteq> b" using assms(4,5) by order+
  with assms show ?thesis by (simp add: getRoutesWithLowestOrigin_def select_by_def)
qed

lemma select_two:
  fixes a b start :: "'a::linorder"
  assumes "score q = Inr a" "score r = Inr b" "a < b" "b \<le> start"
  shows "select_by (<) (\<lambda>_. 1) score start key ([r, q, r], pruned) = Inr ([q], prune key [r, r] pruned)"
proof -
  have "\<not> b < a" "\<not> start < b" "\<not> start < a" "a < start" using assms(3,4) by order+
  with assms show ?thesis by (simp add: select_by_def)
qed

text \<open>So a path with a worse origin wins by its lower router id.\<close>

lemma worse_origin_wins:
  assumes "P_Pref p = v" "P_Pref q = v" "P_Pref r = v"
    and "Path_GetNumASes p = Inr k" "Path_GetNumASes q = Inr k" "Path_GetNumASes r = Inr k" "k \<le> 4096"
    and "Path_GetOrigin p = Inr a" "Path_GetOrigin q = Inr a" "Path_GetOrigin r = Inr b" "b < a" "a < BGPPathAttrOriginMax"
    and "Path_IsInternal q" "Path_IsInternal r" "Path_GetBGPId q = Inr c" "Path_GetBGPId r = Inr d" "c < d"
  shows "calculateBestPath rt fam [p, q, r] [] False False 0 = Inr ([q], [], [])"
proof -
  have ext: "\<not> isEBGPRoute q" "\<not> isEBGPRoute r"
    using assms(13,14) by (auto simp: isEBGPRoute_def Path_IsInternal_def NeighborConf_IsInternal_def NeighborConf_IsExternal_def split: option.splits)
  have "getRoutesWithHighestPref ([p, q, r], pr) = Inr ([p, q, r], pr)" for pr
    using assms(1-3) by (cases "v = 0") (auto simp: getRoutesWithHighestPref_def select_by_def Path_GetPreference_def prune_def word_gt_0)
  moreover have "getRoutesWithSmallestAS ([p, q, r], pr) = Inr ([p, q, r], pr)" for pr
    using assms(4-7) by (cases "k = 4096") (auto simp: getRoutesWithSmallestAS_def select_by_def prune_def)
  moreover have "getRoutesWithLowestBGPId ([r, q, r], pr) = Inr ([q], prune ByLowestBGPId [r, r] pr)" for pr
    using select_two [OF assms(15-17) word_le_max(1)] by (simp add: getRoutesWithLowestBGPId_def)
  ultimately show ?thesis
    using lowest_origin_late [OF assms(8-12)] ext
    by (simp add: calculateBestPath_def decision_head_def decision_tail_def if_several_def ecmp_if_def
        removeIBGPRoutesIfEBGPExist_def additional_paths_def)
qed

text \<open>Two paths of the router itself have no router id to compare.\<close>

lemma local_tie_panics:
  assumes "P_NeighborConf p = None" "P_NeighborConf q = None" "P_Pref p = P_Pref q"
    and "Path_GetNumASes p = Inr 0" "Path_GetNumASes q = Inr 0" "Path_GetOrigin p = Inr a" "Path_GetOrigin q = Inr a" "a \<le> BGPPathAttrOriginMax"
    and "getTypeFromPathAttrs (P_PathAttrs p) BGPPathAttrTypeOriginatorId = None"
  shows "calculateBestPath rt fam [p, q] [] False False k = Inl Panic"
proof -
  have "getRoutesWithHighestPref ([p, q], pr) = Inr ([p, q], pr)" for pr
    using assms(3) by (cases "P_Pref q = 0") (auto simp: getRoutesWithHighestPref_def select_by_def Path_GetPreference_def prune_def word_gt_0)
  moreover have "getRoutesWithSmallestAS ([p, q], pr) = Inr ([p, q], pr)" for pr
    using assms(4,5) by (simp add: getRoutesWithSmallestAS_def select_by_def prune_def)
  moreover have "getRoutesWithLowestOrigin ([p, q], pr) = Inr ([p, q], pr)" for pr
    using assms(6-8) by (cases "a = BGPPathAttrOriginMax") (auto simp: getRoutesWithLowestOrigin_def select_by_def prune_def)
  moreover have "getRoutesWithLowestBGPId ([p, q], pr) = Inl Panic" for pr
    using assms(1,9) by (simp add: getRoutesWithLowestBGPId_def select_by_def Path_GetBGPId_def neighbor_r_def)
  ultimately show ?thesis
    using assms(1,2)
    by (simp add: calculateBestPath_def decision_head_def decision_tail_def if_several_def ecmp_if_def
        removeIBGPRoutesIfEBGPExist_def isEBGPRoute_def)
qed

section \<open>Multiple paths\<close>

lemma ecmp_map_groups:
  assumes "ecmp_map fam ps m = Inr m'" "distinct (map fst m)"
    and "\<And>nh qs q. (nh, qs) \<in> set m \<Longrightarrow> qs \<noteq> [] \<and> (q \<in> set qs \<longrightarrow> reach_next_hop fam q = Inr nh)"
  shows "distinct (map fst m') \<and> (\<forall>(nh, qs) \<in> set m'. qs \<noteq> [] \<and> (\<forall>q \<in> set qs. reach_next_hop fam q = Inr nh)) \<and>
    mset (concat (map snd m')) = mset (concat (map snd m)) + mset ps"
  using assms
proof (induction ps arbitrary: m)
  case (Cons p ps)
  obtain nh where nh: "reach_next_hop fam p = Inr nh" using Cons.prems(1) by (auto simp: bind_r_eq_Inr)
  define qs where "qs = (case map_of m nh of None \<Rightarrow> [] | Some qs \<Rightarrow> qs)"
  let ?m = "AList.update nh (qs @ [p]) m"
  have run: "ecmp_map fam ps ?m = Inr m'"
    using Cons.prems(1) nh by (auto simp: qs_def split: option.splits)
  have dist: "distinct (map fst ?m)" using Cons.prems(2) by (simp add: distinct_update)
  have "mset (concat (map snd ?m)) = mset (concat (map snd m)) + {#p#}"
    using Cons.prems(2) unfolding qs_def
    by (induction m) (auto split: option.splits simp: map_of_eq_None_iff)
  moreover have "\<And>nh' qs' q. (nh', qs') \<in> set ?m \<Longrightarrow> qs' \<noteq> [] \<and> (q \<in> set qs' \<longrightarrow> reach_next_hop fam q = Inr nh')"
  proof -
    fix nh' qs' q
    assume "(nh', qs') \<in> set ?m"
    then have "map_of ?m nh' = Some qs'" using dist by simp
    then show "qs' \<noteq> [] \<and> (q \<in> set qs' \<longrightarrow> reach_next_hop fam q = Inr nh')"
      using Cons.prems(3) nh
      by (cases "map_of m nh") (auto simp: update_conv' qs_def split: if_splits dest!: map_of_SomeD)
  qed
  ultimately show ?case using Cons.IH [OF run dist] by simp
qed auto


text \<open>The groups of equal-cost paths: one per next hop, none empty, and together all paths.\<close>

lemma getECMPPaths_groups:
  assumes "fair_runtime rt" "getECMPPaths rt fam ps = Inr groups"
  shows "\<exists>hops. length hops = length groups \<and> distinct hops \<and> mset (concat groups) = mset ps \<and>
    (\<forall>i < length groups. groups ! i \<noteq> [] \<and> (\<forall>p \<in> set (groups ! i). reach_next_hop fam p = Inr (hops ! i)))"
proof -
  obtain m where m: "ecmp_map fam ps [] = Inr m" and g: "groups = map snd (RT_map_order rt m)"
    using assms(2) by (auto simp: getECMPPaths_def bind_r_eq_Inr)
  have perm: "mset (RT_map_order rt m) = mset m" using assms(1) by (simp add: fair_runtime_def)
  note gr = ecmp_map_groups [OF m]
  let ?l = "RT_map_order rt m"
  have "mset (map fst ?l) = mset (map fst m)" "mset (map snd ?l) = mset (map snd m)" using perm by simp_all
  note parts = this
  have "distinct (map fst ?l)" using gr mset_eq_imp_distinct_iff [OF parts(1)] by simp
  moreover have "mset (concat (map snd ?l)) = mset (concat (map snd m))"
    using arg_cong [OF parts(2), of "\<lambda>M. \<Sum>\<^sub># (image_mset mset M)"] by (simp add: mset_concat sum_mset_sum_list flip: mset_map)
  moreover have "set ?l = set m" using perm by (rule mset_eq_setD)
  moreover have "snd (?l ! i) \<noteq> [] \<and> (\<forall>p \<in> set (snd (?l ! i)). reach_next_hop fam p = Inr (fst (?l ! i)))" if "i < length ?l" for i
    using gr nth_mem [OF that] \<open>set ?l = set m\<close> by (cases "?l ! i") auto
  ultimately show ?thesis
    using gr by (intro exI [of _ "map fst ?l"]) (simp add: g)
qed

text \<open>Additional paths: at most \<open>addPathCount\<close> of them, unless the ties of the best path are more already.\<close>

lemma add_pruned_bound: "add_pruned rt fam k pruned addPaths m = Inr ys \<Longrightarrow> length addPaths < k \<Longrightarrow> length ys \<le> k"
  by (induction pruned arbitrary: addPaths m) (auto simp: bind_r_eq_Inr split: if_splits)

lemma additional_paths_bound:
  assumes "additional_paths rt fam k xs pruned = Inr ys" "length xs \<le> 1"
  shows "length ys \<le> k"
  using assms add_pruned_bound [of rt fam k "rev pruned" "[]" "[]" ys]
  by (auto simp: additional_paths_def split: if_splits)

end
