(* ===== verification/Destination.thy ===== *)
theory Destination
  imports Decision
begin

text \<open>
  A destination of the routing table (bgp/rib/destination.go, route.go and the path lists of ipv4Route.go and ipv6Route.go): the
  paths to one prefix, the route of each, the installed ones, and the choice of the path for the local routing table.

  Pointers are numbers. \<open>ph\<close>, an argument of the operations that look into paths, is the store of the paths; the routes of a destination are in
  its own store \<open>D_heap\<close>, \<open>D_next\<close> being the next free address. A route and the \<open>PathInfo\<close> it points to are created together and
  share an address, so \<open>PathInfoRouteMap\<close> is the set of the routes in it. Maps that the code iterates over are association
  lists, in the order of the iteration. Calls of the route manager are appended to a log; addresses in them stay bytes.
\<close>

section \<open>State\<close>

datatype RouteAction = RouteActionNone | RouteActionAdd | RouteActionReplace | RouteActionDelete

record Route =
  R_path :: nat
  R_routeListIdx :: "nat option"
  R_action :: RouteAction
  R_OutPathId :: u32
  R_PathId :: u32
  R_ValidPath :: bool
  R_BestPath :: bool
  R_MultiPath :: bool
  R_AdditionalPath :: bool

record RouteConfig =
  RC_Cost :: u32
  RC_IntfType :: u32
  RC_Protocol :: string
  RC_NextHopIp :: string
  RC_NetworkMask :: bytes
  RC_DestinationNw :: bytes
  RC_OutgoingInterface :: u32
  RC_IsIPv6 :: bool
  RC_NullRoute :: bool

datatype rib_call = CreateRoute RouteConfig | UpdateRoute RouteConfig string

record rib_conf =
  G_UseMultiplePaths :: bool
  G_EBGPMaxPaths :: u32
  G_IBGPMaxPaths :: u32

record Destination =
  D_Prefix :: IPPrefix
  D_protoFamily :: u32
  D_peerPathMap :: "(string \<times> (u32 \<times> nat) list) list"
  D_LocRibPath :: "nat option"
  D_LocRibPathRoute :: "nat option"
  D_ecmpPaths :: "(nat \<times> nat) list"
  D_pathRouteMap :: "nat \<rightharpoonup> nat"
  D_AddPaths :: "nat list"
  D_maxPathId :: u32
  D_pathIds :: "u32 list"
  D_recalculate :: bool
  D_Paths :: "nat list"
  D_PathInfoRouteMap :: "nat set"
  D_heap :: "nat \<Rightarrow> Route"
  D_next :: nat
  D_log :: "rib_call list"

definition no_route :: Route where
  "no_route = \<lparr>R_path = 0, R_routeListIdx = None, R_action = RouteActionNone, R_OutPathId = 0, R_PathId = 0, R_ValidPath = False,
     R_BestPath = False, R_MultiPath = False, R_AdditionalPath = False\<rparr>"

definition NewDestination :: "IPPrefix \<Rightarrow> u32 \<Rightarrow> Destination" where
  "NewDestination nlri protoFamily =
     \<lparr>D_Prefix = nlri, D_protoFamily = protoFamily, D_peerPathMap = [], D_LocRibPath = None, D_LocRibPathRoute = None,
      D_ecmpPaths = [], D_pathRouteMap = Map.empty, D_AddPaths = [], D_maxPathId = 1, D_pathIds = [], D_recalculate = False,
      D_Paths = [], D_PathInfoRouteMap = {}, D_heap = (\<lambda>_. no_route), D_next = 0, D_log = []\<rparr>"

section \<open>Routes\<close>

definition NewRoute :: "(nat \<Rightarrow> Path) \<Rightarrow> u32 \<Rightarrow> nat \<Rightarrow> RouteAction \<Rightarrow> u32 \<Rightarrow> u32 \<Rightarrow> Route" where
  "NewRoute ph protoFamily path action inPathId outPathId =
     \<lparr>R_path = path, R_routeListIdx = None, R_action = action, R_OutPathId = outPathId, R_PathId = inPathId,
      R_ValidPath = IsReachable protoFamily (ph path), R_BestPath = False, R_MultiPath = False, R_AdditionalPath = False\<rparr>"

definition on_route :: "nat \<Rightarrow> (Route \<Rightarrow> Route) \<Rightarrow> Destination \<Rightarrow> Destination" where
  "on_route r f d = d\<lparr>D_heap := (D_heap d)(r := f (D_heap d r))\<rparr>"

definition setAction :: "RouteAction \<Rightarrow> Route \<Rightarrow> Route" where
  "setAction a r = r\<lparr>R_action := a\<rparr>"

definition setIdx :: "nat \<Rightarrow> Route \<Rightarrow> Route" where
  "setIdx idx r = r\<lparr>R_routeListIdx := Some idx\<rparr>"

definition SetBestPath :: "bool \<Rightarrow> Route \<Rightarrow> Route" where
  "SetBestPath b r = r\<lparr>R_BestPath := b\<rparr>"

definition SetMultiPath :: "bool \<Rightarrow> Route \<Rightarrow> Route" where
  "SetMultiPath b r = r\<lparr>R_MultiPath := b\<rparr>"

definition SetAdditionalPath :: "bool \<Rightarrow> Route \<Rightarrow> Route" where
  "SetAdditionalPath b r = r\<lparr>R_AdditionalPath := b\<rparr>"

section \<open>Path identifiers and the list of paths\<close>

definition IsEmpty :: "Destination \<Rightarrow> bool" where
  "IsEmpty d \<longleftrightarrow> D_peerPathMap d = []"

definition getNextPathId :: "Destination \<Rightarrow> Destination \<times> u32" where
  "getNextPathId d =
     (if D_pathIds d \<noteq> [] then (d\<lparr>D_pathIds := butlast (D_pathIds d)\<rparr>, last (D_pathIds d))
      else (d\<lparr>D_maxPathId := D_maxPathId d + 1\<rparr>, D_maxPathId d))"

definition releasePathId :: "u32 \<Rightarrow> Destination \<Rightarrow> Destination" where
  "releasePathId pathId d =
     (if pathId + 1 = D_maxPathId d then d\<lparr>D_maxPathId := D_maxPathId d - 1\<rparr>
      else d\<lparr>D_pathIds := D_pathIds d @ [pathId]\<rparr>)"

definition AppendPath :: "nat \<Rightarrow> Destination \<Rightarrow> Destination" where
  "AppendPath r d = d\<lparr>D_Paths := D_Paths d @ [r]\<rparr>"

definition SetPath :: "nat \<Rightarrow> nat \<Rightarrow> Destination \<Rightarrow> Destination pres" where
  "SetPath r idx d = bind_r (set_r (D_Paths d) idx r) (\<lambda>ps. Inr (d\<lparr>D_Paths := ps\<rparr>))"

definition GetLastPath :: "Destination \<Rightarrow> nat pres" where
  "GetLastPath d = (if D_Paths d = [] then Inl Panic else Inr (last (D_Paths d)))"

definition RemovePathAndSetLast :: "nat \<Rightarrow> Destination \<Rightarrow> Destination" where
  "RemovePathAndSetLast idx d =
     (if idx < length (D_Paths d) then d\<lparr>D_Paths := butlast ((D_Paths d)[idx := last (D_Paths d)])\<rparr> else d)"

definition peer_paths :: "string \<Rightarrow> Destination \<Rightarrow> (u32 \<times> nat) list option" where
  "peer_paths peerIP d = map_of (D_peerPathMap d) peerIP"

definition getPathForIP :: "string \<Rightarrow> u32 \<Rightarrow> Destination \<Rightarrow> nat option" where
  "getPathForIP peerIP pathId d = (case peer_paths peerIP d of Some m \<Rightarrow> map_of m pathId | None \<Rightarrow> None)"

fun id_of_path :: "nat \<Rightarrow> (u32 \<times> nat) list \<Rightarrow> u32 option" where
  "id_of_path path [] = None"
| "id_of_path path ((i, p) # m) = (if p = path then Some i else id_of_path path m)"

definition getPathIdForPath :: "nat \<Rightarrow> Destination \<Rightarrow> u32 \<times> bool" where
  "getPathIdForPath path d =
     (case id_of_path path (concat (map snd (D_peerPathMap d))) of Some i \<Rightarrow> (i, True) | None \<Rightarrow> (0, False))"

text \<open>Whether a path of the given source makes the selection run again.\<close>

definition beats_loc_rib :: "(nat \<Rightarrow> Path) \<Rightarrow> nat \<Rightarrow> Destination \<Rightarrow> bool" where
  "beats_loc_rib ph path d =
     (case D_LocRibPath d of
        None \<Rightarrow> True
      | Some l \<Rightarrow> getRouteSource (P_routeType (ph l)) \<ge> getRouteSource (P_routeType (ph path)))"

definition setUpdateAggPath :: "(nat \<Rightarrow> Path) \<Rightarrow> string \<Rightarrow> u32 \<Rightarrow> Destination \<Rightarrow> Destination" where
  "setUpdateAggPath ph peerIP pathId d =
     (let d = (case getPathForIP peerIP pathId d of
                 None \<Rightarrow> d
               | Some path \<Rightarrow> if D_LocRibPath d = Some path \<or> beats_loc_rib ph path d then d\<lparr>D_recalculate := True\<rparr> else d)
      in if D_LocRibPath d = None then d\<lparr>D_recalculate := True\<rparr> else d)"

section \<open>Adding and removing paths\<close>

text \<open>
  \<open>AddOrUpdatePath\<close>. A path that replaces another takes over its place in the list of paths; the route of the old one stays in
  \<open>pathRouteMap\<close>, and its identifier is not released.
\<close>

definition drop_old_path :: "nat \<Rightarrow> Destination \<Rightarrow> Destination \<times> nat option" where
  "drop_old_path oldPath d =
     (let (d, idx) = (case D_pathRouteMap d oldPath of
                        Some route \<Rightarrow> (d\<lparr>D_PathInfoRouteMap := D_PathInfoRouteMap d - {route}\<rparr>, R_routeListIdx (D_heap d route))
                      | None \<Rightarrow> (d, None))
      in (if D_LocRibPath d = Some oldPath then d\<lparr>D_LocRibPath := None\<rparr> else d, idx))"

definition add_route :: "(nat \<Rightarrow> Path) \<Rightarrow> string \<Rightarrow> u32 \<Rightarrow> nat \<Rightarrow> nat option \<Rightarrow> Destination \<Rightarrow> Destination pres" where
  "add_route ph peerIp pathId path idx d =
     (let d = (if beats_loc_rib ph path d then d\<lparr>D_recalculate := True\<rparr> else d);
          (d, outPathId) = getNextPathId d;
          r = D_next d;
          d = d\<lparr>D_heap := (D_heap d)(r := NewRoute ph (D_protoFamily d) path RouteActionNone pathId outPathId), D_next := Suc r,
                D_pathRouteMap := (D_pathRouteMap d)(path \<mapsto> r)\<rparr>
      in bind_r (case idx of Some i \<Rightarrow> bind_r (SetPath r i d) (\<lambda>d. Inr (d, i))
                           | None \<Rightarrow> Inr (AppendPath r d, length (D_Paths d))) (\<lambda>(d, i).
         let d = on_route r (setIdx i) (d\<lparr>D_PathInfoRouteMap := insert r (D_PathInfoRouteMap d)\<rparr>);
             m = (case peer_paths peerIp d of Some m \<Rightarrow> m | None \<Rightarrow> [])
         in Inr (d\<lparr>D_peerPathMap := AList.update peerIp (AList.update pathId path m) (D_peerPathMap d)\<rparr>)))"

definition AddOrUpdatePath :: "(nat \<Rightarrow> Path) \<Rightarrow> string \<Rightarrow> u32 \<Rightarrow> nat \<Rightarrow> Destination \<Rightarrow> (Destination \<times> bool) pres" where
  "AddOrUpdatePath ph peerIp pathId path d =
     (case getPathForIP peerIp pathId d of
        Some oldPath \<Rightarrow>
          if oldPath = path then Inr (d, False)
          else let (d, idx) = drop_old_path oldPath d in bind_r (add_route ph peerIp pathId path idx d) (\<lambda>d. Inr (d, False))
      | None \<Rightarrow> bind_r (add_route ph peerIp pathId path None d) (\<lambda>d. Inr (d, True)))"

definition drop_route :: "nat \<Rightarrow> Destination \<Rightarrow> Destination pres" where
  "drop_route oldPath d =
     (case D_pathRouteMap d oldPath of
        None \<Rightarrow> Inl Panic
      | Some route \<Rightarrow>
          let d = releasePathId (R_OutPathId (D_heap d route)) d;
              d = d\<lparr>D_pathRouteMap := (D_pathRouteMap d)(oldPath := None)\<rparr>
          in case R_routeListIdx (D_heap d route) of
               None \<Rightarrow> Inr d
             | Some i \<Rightarrow> bind_r (GetLastPath d) (\<lambda>newRoute.
                 Inr (if newRoute \<in> D_PathInfoRouteMap d then
                        on_route newRoute (setIdx i)
                          (RemovePathAndSetLast i (d\<lparr>D_PathInfoRouteMap := D_PathInfoRouteMap d - {route}\<rparr>))
                      else d)))"

definition RemovePath :: "string \<Rightarrow> u32 \<Rightarrow> Destination \<Rightarrow> (Destination \<times> nat option) pres" where
  "RemovePath peerIP pathId d =
     (case getPathForIP peerIP pathId d of
        None \<Rightarrow> Inr (d, None)
      | Some oldPath \<Rightarrow>
          let d = (if oldPath \<in> fst ` set (D_ecmpPaths d) then d\<lparr>D_recalculate := True\<rparr> else d);
              d = (if D_LocRibPath d = Some oldPath then d\<lparr>D_recalculate := True, D_LocRibPath := None\<rparr> else d)
          in bind_r (drop_route oldPath d) (\<lambda>d.
             let m = AList.delete pathId (case peer_paths peerIP d of Some m \<Rightarrow> m | None \<Rightarrow> [])
             in Inr (d\<lparr>D_peerPathMap := (if m = [] then AList.delete peerIP (D_peerPathMap d)
                                           else AList.update peerIP m (D_peerPathMap d))\<rparr>, Some oldPath)))"

fun remove_ids :: "string \<Rightarrow> u32 list \<Rightarrow> Destination \<Rightarrow> Destination pres" where
  "remove_ids peerIP [] d = Inr d"
| "remove_ids peerIP (i # is) d = bind_r (RemovePath peerIP i d) (\<lambda>(d, _). remove_ids peerIP is d)"

definition RemoveAllPaths :: "string \<Rightarrow> Destination \<Rightarrow> Destination pres" where
  "RemoveAllPaths peerIP d =
     (case peer_paths peerIP d of None \<Rightarrow> Inr d | Some m \<Rightarrow> remove_ids peerIP (map fst m) d)"

text \<open>A peer is dropped with its last path.\<close>

definition RemoveAllNeighborPaths :: "(nat \<Rightarrow> Path) \<Rightarrow> Destination \<Rightarrow> Destination" where
  "RemoveAllNeighborPaths ph d =
     (let keep = \<lambda>pm. filter (\<lambda>(_, p). P_NeighborConf (ph p) = None) pm;
          m = map (\<lambda>(peer, pm). (peer, keep pm)) (filter (\<lambda>(_, pm). pm = [] \<or> keep pm \<noteq> []) (D_peerPathMap d));
          d = d\<lparr>D_peerPathMap := m\<rparr>
      in case D_LocRibPath d of
           Some l \<Rightarrow> if P_NeighborConf (ph l) \<noteq> None then d\<lparr>D_recalculate := True, D_LocRibPath := None\<rparr> else d
         | None \<Rightarrow> d)"

section \<open>Installing routes\<close>

definition reset_additional :: "bool \<Rightarrow> nat \<Rightarrow> Destination \<Rightarrow> Destination" where
  "reset_additional b p d = (case D_pathRouteMap d p of Some r \<Rightarrow> on_route r (SetAdditionalPath b) d | None \<Rightarrow> d)"

definition updateAddPaths :: "nat list \<Rightarrow> Destination \<Rightarrow> Destination \<times> bool" where
  "updateAddPaths addPaths d =
     (if D_AddPaths d = addPaths then (d, False)
      else (fold (reset_additional True) addPaths ((fold (reset_additional False) (D_AddPaths d) d)\<lparr>D_AddPaths := addPaths\<rparr>), True))"

text \<open>\<open>255 << uint(8-rem)\<close> in a byte; a prefix longer than the address panics.\<close>

definition constructNetmaskFromLen :: "nat \<Rightarrow> int \<Rightarrow> bytes pres" where
  "constructNetmaskFromLen ones bits =
     (let len = nat bits div 8; n = ones div 8; rem = ones mod 8 in
      if bits < 0 \<or> n > len \<or> rem \<noteq> 0 \<and> n \<ge> len then Inl Panic
      else Inr (replicate n 255 @ (if rem \<noteq> 0 then [push_bit (8 - rem) 255] @ replicate (len - n - 1) 0 else replicate (len - n) 0)))"

definition ConstructRouteConfig :: "Path \<Rightarrow> ReachabilityInfo \<Rightarrow> int \<Rightarrow> Destination \<Rightarrow> RouteConfig pres" where
  "ConstructRouteConfig path reachInfo ipLength d =
     bind_r (constructNetmaskFromLen (unat (Length (D_Prefix d))) (ipLength * 8)) (\<lambda>mask.
     Inr \<lparr>RC_Cost = RI_Metric reachInfo, RC_IntfType = RI_NextHopIfType reachInfo,
          RC_Protocol = (if Path_IsExternal path then ''EBGP'' else ''IBGP''), RC_NextHopIp = RI_NextHop reachInfo,
          RC_NetworkMask = mask, RC_DestinationNw = Prefix (D_Prefix d), RC_OutgoingInterface = RI_NextHopIfIdx reachInfo,
          RC_IsIPv6 = (ipLength = 16), RC_NullRoute = Path_IsAggregate path\<rparr>)"

text \<open>
  \<open>removeAndPrepend\<close>: the item moves to the front of the first group that holds it, and that group to the front. When no group
  does, a new one is appended, but the shift that follows starts at the last old group.
\<close>

definition to_front :: "nat \<Rightarrow> 'a list \<Rightarrow> 'a \<Rightarrow> 'a list" where
  "to_front i xs x = x # take i xs @ drop (Suc i) xs"

fun find_index :: "('a \<Rightarrow> bool) \<Rightarrow> 'a list \<Rightarrow> nat option" where
  "find_index P [] = None"
| "find_index P (x # xs) = (if P x then Some 0 else map_option Suc (find_index P xs))"

definition removeAndPrepend :: "nat list list \<Rightarrow> nat \<Rightarrow> nat list list" where
  "removeAndPrepend pathsList item =
     (case find_index (\<lambda>paths. item \<in> set paths) pathsList of
        Some idx \<Rightarrow>
          let paths = pathsList ! idx;
              paths' = (case find_index (\<lambda>p. p = item) paths of Some pathIdx \<Rightarrow> to_front pathIdx paths item | None \<Rightarrow> paths)
          in to_front idx pathsList paths'
      | None \<Rightarrow> to_front (length pathsList - 1) (pathsList @ [[item]]) [item])"

section \<open>Selecting the path for the local routing table\<close>

text \<open>The candidates: all paths of the best source that are reachable and without a loop, the current choice unchecked.\<close>

fun candidate_loop :: "(nat \<Rightarrow> Path) \<Rightarrow> u32 \<Rightarrow> nat option \<Rightarrow> nat list \<Rightarrow> Path list \<times> Path list \<times> u8 \<Rightarrow> (Path list \<times> Path list \<times> u8) pres" where
  "candidate_loop ph fam l [] st = Inr st"
| "candidate_loop ph fam l (r # rs) (updated, removed, src) =
     (if l = Some r then candidate_loop ph fam l rs (updated, removed, src)
      else if \<not> IsReachable fam (ph r) then candidate_loop ph fam l rs (updated, removed, src)
      else bind_r (Path_HasASLoop (ph r)) (\<lambda>loop.
        if loop then candidate_loop ph fam l rs (updated, removed, src)
        else let curr = getRouteSource (P_routeType (ph r)) in
          candidate_loop ph fam l rs
            (if curr > src then (updated, removed @ [ph r], src)
             else if curr < src then ([ph r], removed @ updated, curr)
             else (updated @ [ph r], removed, src))))"

definition all_paths :: "Destination \<Rightarrow> nat list" where
  "all_paths d = concat (map (map snd \<circ> snd) (D_peerPathMap d))"

definition candidates :: "(nat \<Rightarrow> Path) \<Rightarrow> Destination \<Rightarrow> (Path list \<times> Path list) pres" where
  "candidates ph d =
     (let (updated, src) = (case D_LocRibPath d of Some l \<Rightarrow> ([ph l], getRouteSource (P_routeType (ph l))) | None \<Rightarrow> ([], RouteSrcUnknown))
      in bind_r (candidate_loop ph (D_protoFamily d) (D_LocRibPath d) (all_paths d) (updated, [], src)) (\<lambda>(updated, removed, _).
         Inr (updated, removed)))"

record selection =
  S_locRibAction :: RouteAction
  S_addPathsUpdated :: bool
  S_added :: "nat list"
  S_updated :: "nat list"
  S_deleted :: "nat list"
  S_firstRoute :: bool
  S_create :: "nat list"

definition no_selection :: selection where
  "no_selection = \<lparr>S_locRibAction = RouteActionNone, S_addPathsUpdated = False, S_added = [], S_updated = [], S_deleted = [],
     S_firstRoute = True, S_create = []\<rparr>"

text \<open>Whether the route daemon has to know of a path.\<close>

definition in_kernel :: "Path \<Rightarrow> bool" where
  "in_kernel p \<longleftrightarrow> \<not> Path_IsLocal p \<or> Path_IsAggregate p"

definition install_group :: "(nat \<Rightarrow> Path) \<Rightarrow> nat \<Rightarrow> nat list \<Rightarrow> Destination \<times> selection \<Rightarrow> (Destination \<times> selection) pres" where
  "install_group ph idx paths = (\<lambda>(d, s).
     case find (\<lambda>p. map_of (D_ecmpPaths d) p \<noteq> None) (if idx = 0 then take 1 paths else paths) of
       Some path \<Rightarrow>
         let route = the (map_of (D_ecmpPaths d) path);
             s = s\<lparr>S_firstRoute := False, S_updated := S_updated s @ [route],
                   S_locRibAction := (if idx = 0 \<and> Path_IsAggregate (ph path) then RouteActionReplace else S_locRibAction s)\<rparr>;
             d = on_route route (setAction RouteActionReplace) d
         in Inr (if idx \<noteq> 0 then on_route route (SetBestPath False) d else d, s)
     | None \<Rightarrow>
         bind_r (index_r paths 0) (\<lambda>path.
         case D_pathRouteMap d path of
           None \<Rightarrow> Inr (d, s)
         | Some r \<Rightarrow>
             let d = on_route r (SetMultiPath True) (on_route r (setAction RouteActionAdd) d) in
             bind_r (if in_kernel (ph path) then bind_r (reach_next_hop (D_protoFamily d) (ph path)) (\<lambda>_. Inr (S_create s @ [path]))
                     else Inr (S_create s)) (\<lambda>create.
             let s = s\<lparr>S_create := create, S_added := S_added s @ [r]\<rparr>;
                 (d, s) = (if idx = 0 then (on_route r (SetBestPath True) d, s\<lparr>S_locRibAction := RouteActionAdd\<rparr>) else (d, s))
             in Inr (d\<lparr>D_ecmpPaths := AList.update path r (D_ecmpPaths d)\<rparr>, s))))"

fun install_groups :: "(nat \<Rightarrow> Path) \<Rightarrow> nat \<Rightarrow> nat list list \<Rightarrow> Destination \<times> selection \<Rightarrow> (Destination \<times> selection) pres" where
  "install_groups ph idx [] st = Inr st"
| "install_groups ph idx (g # gs) st = bind_r (install_group ph idx g st) (install_groups ph (Suc idx) gs)"

definition call_rib :: "(nat \<Rightarrow> Path) \<Rightarrow> (RouteConfig \<Rightarrow> rib_call) \<Rightarrow> nat \<Rightarrow> Destination \<Rightarrow> Destination pres" where
  "call_rib ph call path d =
     (case GetReachability (D_protoFamily d) (ph path) of
        None \<Rightarrow> Inl Panic
      | Some reachInfo \<Rightarrow>
          bind_r (ConstructRouteConfig (ph path) reachInfo (GetAddressLengthForFamily (D_protoFamily d)) d) (\<lambda>cfg.
          Inr (d\<lparr>D_log := D_log d @ [call cfg]\<rparr>)))"

text \<open>Routes that were not confirmed are removed, the others are made ready for the next selection.\<close>

fun remove_stale :: "(nat \<Rightarrow> Path) \<Rightarrow> (nat \<times> nat) list \<Rightarrow> Destination \<times> selection \<Rightarrow> (Destination \<times> selection) pres" where
  "remove_stale ph [] st = Inr st"
| "remove_stale ph ((path, route) # rest) (d, s) =
     (if R_action (D_heap d route) \<in> {RouteActionNone, RouteActionDelete} then
        bind_r (if in_kernel (ph path) then call_rib ph (\<lambda>cfg. UpdateRoute cfg ''remove'') path d else Inr d) (\<lambda>d.
        remove_stale ph rest
          ((on_route route (SetMultiPath False) (on_route route (SetBestPath False) d))\<lparr>D_ecmpPaths := AList.delete path (D_ecmpPaths d)\<rparr>,
           s\<lparr>S_deleted := S_deleted s @ [route]\<rparr>))
      else remove_stale ph rest (on_route route (setAction RouteActionNone) d, s))"

fun create_routes :: "(nat \<Rightarrow> Path) \<Rightarrow> nat list \<Rightarrow> Destination \<times> selection \<Rightarrow> (Destination \<times> selection) pres" where
  "create_routes ph [] st = Inr st"
| "create_routes ph (path # rest) (d, s) =
     bind_r (call_rib ph (if S_firstRoute s then CreateRoute else (\<lambda>cfg. UpdateRoute cfg ''add'')) path d) (\<lambda>d.
     create_routes ph rest (d, s\<lparr>S_firstRoute := False\<rparr>))"

definition best_paths :: "runtime \<Rightarrow> rib_conf \<Rightarrow> u32 \<Rightarrow> nat \<Rightarrow> Path list \<Rightarrow> Path list \<Rightarrow> (Path list \<times> Path list list \<times> Path list) pres" where
  "best_paths rt g fam addPathCount updated removed =
     (if length updated > 1 \<or> addPathCount > 0 then
        (if G_UseMultiplePaths g then calculateBestPath rt fam updated removed (G_EBGPMaxPaths g > 1) (G_IBGPMaxPaths g > 1) addPathCount
         else calculateBestPath rt fam updated removed False False addPathCount)
      else Inr (updated, [], []))"

definition choose_path :: "runtime \<Rightarrow> rib_conf \<Rightarrow> (nat \<Rightarrow> Path) \<Rightarrow> nat \<Rightarrow> Path list \<Rightarrow> Path list \<Rightarrow> Destination \<Rightarrow> (Destination \<times> selection) pres" where
  "choose_path rt g ph addPathCount updated removed d =
     bind_r (best_paths rt g (D_protoFamily d) addPathCount updated removed) (\<lambda>(updated, ecmp, addPaths).
     let (d, changed) = updateAddPaths (map P_ref addPaths) d in
     bind_r (index_r updated 0) (\<lambda>best.
     let groups = removeAndPrepend (map (map P_ref) ecmp) (P_ref best) in
     bind_r (install_groups ph 0 groups (d, no_selection\<lparr>S_addPathsUpdated := changed\<rparr>)) (\<lambda>(d, s).
     Inr (d\<lparr>D_LocRibPath := Some (hd (hd groups)), D_LocRibPathRoute := map_of (D_ecmpPaths d) (hd (hd groups))\<rparr>, s))))"

definition SelectRouteForLocRib :: "runtime \<Rightarrow> rib_conf \<Rightarrow> (nat \<Rightarrow> Path) \<Rightarrow> nat \<Rightarrow> Destination \<Rightarrow> (Destination \<times> selection) pres" where
  "SelectRouteForLocRib rt g ph addPathCount d =
     (if \<not> D_recalculate d then Inr (d, no_selection)
      else let d = d\<lparr>D_recalculate := False\<rparr> in
        bind_r (candidates ph d) (\<lambda>(updated, removed).
        bind_r (if updated \<noteq> [] then choose_path rt g ph addPathCount updated removed d
                else Inr ((fold (\<lambda>(_, r). on_route r (setAction RouteActionDelete)) (D_ecmpPaths d) d)\<lparr>D_LocRibPath := None\<rparr>,
                          no_selection\<lparr>S_locRibAction := RouteActionDelete\<rparr>)) (\<lambda>(d, s).
        bind_r (remove_stale ph (D_ecmpPaths d) (d, s)) (\<lambda>(d, s).
        create_routes ph (S_create s) (d, s)))))"

end
