(* ===== verification/DestInv.thy ===== *)
theory DestInv
  imports Destination
begin

text \<open>
  The invariant of a destination and that its operations keep it: path identifiers through the locale \<open>allocator\<close>, the list of
  paths with the indices in the routes, the route of every path. Adding and removing paths always succeed.
\<close>

section \<open>Path identifiers\<close>

text \<open>
  An allocator of identifiers: \<open>ok U s\<close> says that the identifiers in use are \<open>U\<close>. A client that gives every key of a set an identifier of
  its own can go on doing so.
\<close>

locale allocator =
  fixes ok :: "'i set \<Rightarrow> 's \<Rightarrow> bool" and room :: "'s \<Rightarrow> bool" and alloc :: "'s \<Rightarrow> 's \<times> 'i" and release :: "'i \<Rightarrow> 's \<Rightarrow> 's"
  assumes alloc_ok: "ok U s \<Longrightarrow> room s \<Longrightarrow> alloc s = (s', i) \<Longrightarrow> i \<notin> U \<and> ok (insert i U) s'"
    and release_ok: "ok U s \<Longrightarrow> i \<in> U \<Longrightarrow> ok (U - {i}) (release i s)"
    and forget_ok: "ok U s \<Longrightarrow> V \<subseteq> U \<Longrightarrow> ok V s"
begin

definition assigned :: "('k \<Rightarrow> 'i) \<Rightarrow> 'k set \<Rightarrow> 's \<Rightarrow> bool" where
  "assigned f K s \<longleftrightarrow> inj_on f K \<and> ok (f ` K) s"

lemma assign:
  assumes "assigned f K s" "room s" "alloc s = (s', i)" "k \<notin> K" "g k = i" "\<And>x. x \<in> K \<Longrightarrow> g x = f x"
  shows "assigned g (insert k K) s'"
proof -
  have im: "g ` K = f ` K" using assms(6) by auto
  have fresh: "i \<notin> f ` K \<and> ok (insert i (f ` K)) s'" using assms(1-3) alloc_ok unfolding assigned_def by blast
  have "inj_on g K" using assms(1,6) by (simp add: assigned_def inj_on_def)
  then show ?thesis using fresh assms(4,5) im by (auto simp: assigned_def)
qed

lemma unassign:
  assumes "assigned f K s" "k \<in> K" "\<And>x. x \<in> K - {k} \<Longrightarrow> g x = f x"
  shows "assigned g (K - {k}) (release (f k) s)"
proof -
  have "g ` (K - {k}) = f ` K - {f k}" using assms by (auto simp: assigned_def inj_on_def image_iff)
  moreover have "inj_on g (K - {k})" using assms by (auto simp: assigned_def inj_on_def)
  ultimately show ?thesis using assms(1,2) release_ok by (auto simp: assigned_def)
qed

lemma restrict: "assigned f K s \<Longrightarrow> L \<subseteq> K \<Longrightarrow> assigned f L s"
  unfolding assigned_def using forget_ok inj_on_subset by (metis image_mono)

end

text \<open>The free identifiers are all different, not in use, and everything is below the next new one.\<close>

definition pool_ok :: "u32 set \<Rightarrow> Destination \<Rightarrow> bool" where
  "pool_ok U d \<longleftrightarrow> distinct (D_pathIds d) \<and> set (D_pathIds d) \<inter> U = {} \<and> (\<forall>i \<in> set (D_pathIds d) \<union> U. i < D_maxPathId d)"

definition pool_room :: "Destination \<Rightarrow> bool" where
  "pool_room d \<longleftrightarrow> D_pathIds d \<noteq> [] \<or> D_maxPathId d < 0xFFFFFFFF"

lemma getNextPathId_ok:
  assumes "pool_ok U d" "pool_room d" "getNextPathId d = (d', i)"
  shows "i \<notin> U \<and> pool_ok (insert i U) d'"
proof (cases "D_pathIds d = []")
  case True
  then have lt: "D_maxPathId d < 0xFFFFFFFF" and d': "d' = d\<lparr>D_maxPathId := D_maxPathId d + 1\<rparr>" "i = D_maxPathId d"
    using assms(2,3) by (auto simp: pool_room_def getNextPathId_def)
  have "x < D_maxPathId d + 1" if "x \<le> D_maxPathId d" for x
    using lt that by (simp add: word_less_def word_le_def uint_word_ariths mod_pos_pos_trivial)
  then show ?thesis using True assms(1) d' by (auto simp: pool_ok_def less_imp_le)
next
  case False
  then obtain ids where ids: "D_pathIds d = ids @ [i]" and d': "d' = d\<lparr>D_pathIds := ids\<rparr>"
    using assms(3) by (cases "D_pathIds d" rule: rev_cases) (auto simp: getNextPathId_def)
  then show ?thesis using assms(1) by (auto simp: pool_ok_def)
qed

lemma below_next:
  fixes x i :: u32
  assumes "x < i + 1"
  shows "x \<le> i"
proof (cases "unat i + 1 < 2 ^ 32")
  case True
  then have "unat (i + 1) = unat i + 1" by (simp add: unat_word_ariths)
  with assms show ?thesis by (simp add: word_less_nat_alt word_le_nat_alt)
next
  case False
  have "unat i < 4294967296" using unsigned_less [of i, where 'a = nat] by simp
  moreover have "unat i + 1 \<ge> 4294967296" using False by simp
  ultimately have "Suc (unat i) = 4294967296" by linarith
  then have "unat (i + 1) = 0" by (simp add: unat_word_ariths)
  with assms show ?thesis by (simp add: word_less_nat_alt)
qed

lemma releasePathId_ok:
  assumes "pool_ok U d" "i \<in> U"
  shows "pool_ok (U - {i}) (releasePathId i d)"
proof (cases "i + 1 = D_maxPathId d")
  case True
  have "x < i" if "x \<in> set (D_pathIds d) \<union> U" "x \<noteq> i" for x
    using assms(1) that below_next [of x i] True by (auto simp: pool_ok_def)
  moreover have "D_maxPathId d - 1 = i" using True by (metis add_diff_cancel_right')
  moreover have "i \<notin> set (D_pathIds d)" using assms by (auto simp: pool_ok_def)
  ultimately show ?thesis using True assms by (auto simp: pool_ok_def releasePathId_def)
next
  case False
  with assms show ?thesis by (auto simp: pool_ok_def releasePathId_def)
qed

interpretation ids: allocator pool_ok pool_room getNextPathId releasePathId
  by unfold_locales (auto simp: getNextPathId_ok releasePathId_ok, auto simp: pool_ok_def)

section \<open>The invariant of a destination\<close>

text \<open>
  Every path is under one key. The list of paths holds the routes of \<open>PathInfoRouteMap\<close>, each once and at the index the route knows.
  Every path has a route there, and the identifiers of these routes are different and not free.
\<close>

definition live :: "Destination \<Rightarrow> nat set" where
  "live d = {p. \<exists>peer i. getPathForIP peer i d = Some p}"

definition slot_inv :: "Destination \<Rightarrow> bool" where
  "slot_inv d \<longleftrightarrow> (\<forall>peer i peer' i' p. getPathForIP peer i d = Some p \<longrightarrow> getPathForIP peer' i' d = Some p \<longrightarrow> peer' = peer \<and> i' = i)"

definition keys_inv :: "Destination \<Rightarrow> bool" where
  "keys_inv d \<longleftrightarrow> distinct (map fst (D_peerPathMap d)) \<and> (\<forall>(peer, m) \<in> set (D_peerPathMap d). distinct (map fst m))"

definition list_inv :: "nat option \<Rightarrow> Destination \<Rightarrow> bool" where
  "list_inv idx d \<longleftrightarrow>
     (case idx of None \<Rightarrow> D_PathInfoRouteMap d = set (D_Paths d)
      | Some i \<Rightarrow> i < length (D_Paths d) \<and> D_PathInfoRouteMap d = set (D_Paths d) - {D_Paths d ! i}) \<and>
     distinct (D_Paths d) \<and>
     (\<forall>j < length (D_Paths d). R_routeListIdx (D_heap d (D_Paths d ! j)) = Some j \<and> D_Paths d ! j < D_next d)"

definition route_inv :: "nat set \<Rightarrow> Destination \<Rightarrow> bool" where
  "route_inv L d \<longleftrightarrow> (\<forall>p \<in> L. \<exists>r \<in> D_PathInfoRouteMap d. D_pathRouteMap d p = Some r \<and> R_path (D_heap d r) = p)"

definition out_id :: "Destination \<Rightarrow> nat \<Rightarrow> u32" where
  "out_id d p = R_OutPathId (D_heap d (the (D_pathRouteMap d p)))"

definition dest_inv :: "Destination \<Rightarrow> bool" where
  "dest_inv d \<longleftrightarrow> keys_inv d \<and> slot_inv d \<and> list_inv None d \<and> route_inv (live d) d \<and> ids.assigned (out_id d) (live d) d"

text \<open>What the invariant does not depend on.\<close>

lemma list_inv_upd [simp]:
  "list_inv idx (d\<lparr>D_LocRibPath := l\<rparr>) = list_inv idx d"
  "list_inv idx (d\<lparr>D_recalculate := b\<rparr>) = list_inv idx d"
  "list_inv idx (d\<lparr>D_ecmpPaths := e\<rparr>) = list_inv idx d"
  "list_inv idx (d\<lparr>D_AddPaths := ap\<rparr>) = list_inv idx d"
  "list_inv idx (d\<lparr>D_LocRibPathRoute := lr\<rparr>) = list_inv idx d"
  "list_inv idx (d\<lparr>D_log := lg\<rparr>) = list_inv idx d"
  by (cases idx; simp add: list_inv_def)+

lemma route_inv_upd [simp]:
  "route_inv L (d\<lparr>D_LocRibPath := l\<rparr>) = route_inv L d"
  "route_inv L (d\<lparr>D_recalculate := b\<rparr>) = route_inv L d"
  "route_inv L (d\<lparr>D_ecmpPaths := e\<rparr>) = route_inv L d"
  "route_inv L (d\<lparr>D_AddPaths := ap\<rparr>) = route_inv L d"
  "route_inv L (d\<lparr>D_LocRibPathRoute := lr\<rparr>) = route_inv L d"
  "route_inv L (d\<lparr>D_log := lg\<rparr>) = route_inv L d"
  by (simp_all add: route_inv_def)

lemma out_id_upd [simp]:
  "out_id (d\<lparr>D_LocRibPath := l\<rparr>) = out_id d"
  "out_id (d\<lparr>D_recalculate := b\<rparr>) = out_id d"
  "out_id (d\<lparr>D_ecmpPaths := e\<rparr>) = out_id d"
  "out_id (d\<lparr>D_AddPaths := ap\<rparr>) = out_id d"
  "out_id (d\<lparr>D_LocRibPathRoute := lr\<rparr>) = out_id d"
  "out_id (d\<lparr>D_log := lg\<rparr>) = out_id d"
  by (simp_all add: out_id_def [abs_def])

lemma assigned_upd [simp]:
  "ids.assigned f L (d\<lparr>D_LocRibPath := l\<rparr>) = ids.assigned f L d"
  "ids.assigned f L (d\<lparr>D_recalculate := b\<rparr>) = ids.assigned f L d"
  "ids.assigned f L (d\<lparr>D_ecmpPaths := e\<rparr>) = ids.assigned f L d"
  "ids.assigned f L (d\<lparr>D_AddPaths := ap\<rparr>) = ids.assigned f L d"
  "ids.assigned f L (d\<lparr>D_LocRibPathRoute := lr\<rparr>) = ids.assigned f L d"
  "ids.assigned f L (d\<lparr>D_log := lg\<rparr>) = ids.assigned f L d"
  by (simp_all add: ids.assigned_def pool_ok_def)

lemma getPathForIP_upd [simp]:
  "getPathForIP peer i (d\<lparr>D_LocRibPath := l\<rparr>) = getPathForIP peer i d"
  "getPathForIP peer i (d\<lparr>D_recalculate := b\<rparr>) = getPathForIP peer i d"
  "getPathForIP peer i (d\<lparr>D_ecmpPaths := e\<rparr>) = getPathForIP peer i d"
  "getPathForIP peer i (d\<lparr>D_AddPaths := ap\<rparr>) = getPathForIP peer i d"
  "getPathForIP peer i (d\<lparr>D_LocRibPathRoute := lr\<rparr>) = getPathForIP peer i d"
  "getPathForIP peer i (d\<lparr>D_log := lg\<rparr>) = getPathForIP peer i d"
  by (simp_all add: getPathForIP_def peer_paths_def)

lemma dest_inv_upd [simp]:
  "dest_inv (d\<lparr>D_LocRibPath := l\<rparr>) = dest_inv d"
  "dest_inv (d\<lparr>D_recalculate := b\<rparr>) = dest_inv d"
  "dest_inv (d\<lparr>D_ecmpPaths := e\<rparr>) = dest_inv d"
  "dest_inv (d\<lparr>D_AddPaths := ap\<rparr>) = dest_inv d"
  "dest_inv (d\<lparr>D_LocRibPathRoute := lr\<rparr>) = dest_inv d"
  "dest_inv (d\<lparr>D_log := lg\<rparr>) = dest_inv d"
  by (simp_all add: dest_inv_def slot_inv_def live_def keys_inv_def)

lemma NewDestination_inv: "dest_inv (NewDestination nlri fam)"
  by (simp add: dest_inv_def NewDestination_def keys_inv_def slot_inv_def list_inv_def route_inv_def live_def getPathForIP_def peer_paths_def
      ids.assigned_def pool_ok_def)

lemma getNextPathId_alt:
  "getNextPathId d =
     (d\<lparr>D_pathIds := butlast (D_pathIds d), D_maxPathId := (if D_pathIds d = [] then D_maxPathId d + 1 else D_maxPathId d)\<rparr>,
      if D_pathIds d = [] then D_maxPathId d else last (D_pathIds d))"
  by (cases d) (simp add: getNextPathId_def)

lemma assigned_cong:
  "D_pathIds d' = D_pathIds d \<Longrightarrow> D_maxPathId d' = D_maxPathId d \<Longrightarrow> (\<And>p. p \<in> L \<Longrightarrow> out_id d' p = out_id d p) \<Longrightarrow>
   ids.assigned (out_id d) L d \<Longrightarrow> ids.assigned (out_id d') L d'"
  by (simp add: ids.assigned_def pool_ok_def inj_on_def)

lemma list_inv_fresh: "list_inv idx d \<Longrightarrow> D_next d \<notin> set (D_Paths d)"
  by (auto simp: list_inv_def in_set_conv_nth)

lemma list_inv_PathInfo: "list_inv idx d \<Longrightarrow> D_PathInfoRouteMap d \<subseteq> set (D_Paths d)"
  by (auto simp: list_inv_def split: option.splits)

lemma getPathForIP_update:
  "getPathForIP p i (d\<lparr>D_peerPathMap := AList.update peer (AList.update pathId path (case peer_paths peer d of Some m \<Rightarrow> m | None \<Rightarrow> []))
      (D_peerPathMap d)\<rparr>) = (if p = peer \<and> i = pathId then Some path else getPathForIP p i d)"
  by (auto simp: getPathForIP_def peer_paths_def update_conv' split: option.splits)

lemma keys_inv_lookup: "keys_inv d \<Longrightarrow> distinct (map fst (case peer_paths peer d of Some m \<Rightarrow> m | None \<Rightarrow> []))"
  by (auto simp: keys_inv_def peer_paths_def split: option.splits dest!: map_of_SomeD)

lemma keys_inv_update:
  assumes "keys_inv d" "distinct (map fst m)"
  shows "keys_inv (d\<lparr>D_peerPathMap := AList.update peer m (D_peerPathMap d)\<rparr>)"
proof -
  let ?al = "AList.update peer m (D_peerPathMap d)"
  have dist: "distinct (map fst ?al)" using assms(1) by (simp add: keys_inv_def distinct_update)
  have "distinct (map fst m')" if "(q, m') \<in> set ?al" for q m'
  proof -
    have "map_of ?al q = Some m'" using that dist by simp
    then show ?thesis using assms by (auto simp: update_conv' keys_inv_def split: if_splits dest!: map_of_SomeD)
  qed
  with dist show ?thesis by (auto simp: keys_inv_def)
qed

lemma keys_inv_delete: "keys_inv d \<Longrightarrow> keys_inv (d\<lparr>D_peerPathMap := AList.delete peer (D_peerPathMap d)\<rparr>)"
  using distinct_delete [of "D_peerPathMap d" peer] by (auto simp: keys_inv_def AList.delete_eq)

text \<open>A new route, at the end of the list or at the place of a dropped one.\<close>

lemma add_route_ok:
  assumes "list_inv idx d" "route_inv L d" "ids.assigned (out_id d) L d" "pool_room d" "path \<notin> L"
  shows "\<exists>d'. add_route ph peer pathId path idx d = Inr d' \<and> list_inv None d' \<and> route_inv (insert path L) d' \<and>
    ids.assigned (out_id d') (insert path L) d' \<and>
    (keys_inv d \<longrightarrow> keys_inv d') \<and>
    (\<forall>p i. getPathForIP p i d' = (if p = peer \<and> i = pathId then Some path else getPathForIP p i d))"
proof -
  let ?r = "D_next d" and ?rec = "D_recalculate d \<or> beats_loc_rib ph path d"
  define free where "free = butlast (D_pathIds d)"
  define mx where "mx = (if D_pathIds d = [] then D_maxPathId d + 1 else D_maxPathId d)"
  define i where "i = (if D_pathIds d = [] then D_maxPathId d else last (D_pathIds d))"
  have nxt: "getNextPathId d = (d\<lparr>D_pathIds := free, D_maxPathId := mx\<rparr>, i)"
    by (simp add: getNextPathId_alt free_def mx_def i_def)
  have nxt': "getNextPathId (d\<lparr>D_recalculate := b\<rparr>) = (d\<lparr>D_recalculate := b, D_pathIds := free, D_maxPathId := mx\<rparr>, i)" for b
    by (simp add: getNextPathId_alt free_def mx_def i_def)
  let ?new = "(NewRoute ph (D_protoFamily d) path RouteActionNone pathId i)\<lparr>R_routeListIdx := Some (case idx of Some j \<Rightarrow> j | None \<Rightarrow> length (D_Paths d))\<rparr>"
  let ?ps = "case idx of Some j \<Rightarrow> (D_Paths d)[j := ?r] | None \<Rightarrow> D_Paths d @ [?r]"
  define d1 where "d1 = d\<lparr>D_recalculate := ?rec, D_pathIds := free, D_maxPathId := mx, D_heap := (D_heap d)(?r := ?new), D_next := Suc ?r,
    D_pathRouteMap := (D_pathRouteMap d)(path \<mapsto> ?r), D_Paths := ?ps, D_PathInfoRouteMap := insert ?r (D_PathInfoRouteMap d)\<rparr>"
  define d2 where "d2 = d1\<lparr>D_peerPathMap := AList.update peer (AList.update pathId path (case peer_paths peer d1 of Some m \<Rightarrow> m | None \<Rightarrow> []))
      (D_peerPathMap d1)\<rparr>"
  have idx: "idx = Some j \<Longrightarrow> j < length (D_Paths d)" for j using assms(1) by (simp add: list_inv_def)
  have "add_route ph peer pathId path idx d = Inr d2"
    using nxt' [of ?rec] nxt idx
    by (cases idx; cases "beats_loc_rib ph path d")
       (auto simp: add_route_def Let_def SetPath_def set_r_def AppendPath_def on_route_def setIdx_def d1_def d2_def NewRoute_def peer_paths_def)
  moreover have fresh: "?r \<notin> set (D_Paths d)" by (rule list_inv_fresh [OF assms(1)])
  have "list_inv None d1"
  proof (cases idx)
    case None
    with assms(1) fresh show ?thesis
      by (auto simp: list_inv_def d1_def nth_append less_Suc_eq dest: nth_mem)
  next
    case (Some j)
    with assms(1) fresh show ?thesis
      by (auto simp: list_inv_def d1_def set_update_distinct nth_list_update less_SucI distinct_list_update dest: nth_mem)
  qed
  then have "list_inv None d2" by (simp add: list_inv_def d2_def)
  moreover have "r \<noteq> ?r" if "r \<in> D_PathInfoRouteMap d" for r using that fresh list_inv_PathInfo [OF assms(1)] by auto
  then have routes: "route_inv (insert path L) d2"
    using assms(2,5) by (fastforce simp: route_inv_def d1_def d2_def NewRoute_def)
  moreover have "out_id d2 p = out_id d p" if "p \<in> L" for p
    using that assms(2,5) \<open>\<And>r. r \<in> D_PathInfoRouteMap d \<Longrightarrow> r \<noteq> ?r\<close>
    by (fastforce simp: route_inv_def out_id_def d1_def d2_def)
  then have "ids.assigned (out_id d2) (insert path L) (d\<lparr>D_pathIds := free, D_maxPathId := mx\<rparr>)"
    using assms(5) by (intro ids.assign [OF assms(3,4) nxt]) (auto simp: out_id_def d1_def d2_def NewRoute_def)
  then have "ids.assigned (out_id d2) (insert path L) d2" by (simp add: ids.assigned_def pool_ok_def d1_def d2_def)
  moreover have "keys_inv d \<longrightarrow> keys_inv d2"
  proof
    assume "keys_inv d"
    then have k: "keys_inv d1" by (simp add: keys_inv_def d1_def)
    show "keys_inv d2" unfolding d2_def by (rule keys_inv_update [OF k distinct_update [OF keys_inv_lookup [OF k]]])
  qed
  moreover have "getPathForIP p i d2 = (if p = peer \<and> i = pathId then Some path else getPathForIP p i d)" for p i
    using getPathForIP_update [of p i peer pathId path d1] by (simp add: d2_def d1_def getPathForIP_def peer_paths_def)
  ultimately show ?thesis by blast
qed

lemma live_update:
  assumes "slot_inv d" "\<forall>p i. getPathForIP p i d' = (if p = peer \<and> i = pathId then Some path else getPathForIP p i d)" "path \<notin> live d"
  shows "live d' = insert path (live d - set_option (getPathForIP peer pathId d))" "slot_inv d'"
proof -
  have ne: "getPathForIP p i d \<noteq> Some path" for p i using assms(3) by (auto simp: live_def)
  have "getPathForIP p i d' = Some q \<longleftrightarrow>
      (if q = path then p = peer \<and> i = pathId else getPathForIP p i d = Some q \<and> getPathForIP peer pathId d \<noteq> Some q)" for p i q
    using assms(1,2) ne unfolding slot_inv_def by auto
  note look = this
  show "live d' = insert path (live d - set_option (getPathForIP peer pathId d))"
  proof (rule set_eqI)
    fix q
    show "q \<in> live d' \<longleftrightarrow> q \<in> insert path (live d - set_option (getPathForIP peer pathId d))"
      unfolding live_def mem_Collect_eq look by (cases "q = path") auto
  qed
  show "slot_inv d'" unfolding slot_inv_def look using assms(1) [unfolded slot_inv_def] by (metis (full_types))
qed

lemma drop_old_path_ok:
  assumes "dest_inv d" "old \<in> live d" "drop_old_path old d = (d', idx)"
  shows "list_inv idx d' \<and> route_inv (live d - {old}) d' \<and> ids.assigned (out_id d') (live d - {old}) d' \<and>
    D_peerPathMap d' = D_peerPathMap d \<and> D_pathIds d' = D_pathIds d \<and> D_maxPathId d' = D_maxPathId d"
proof -
  obtain r where r: "r \<in> D_PathInfoRouteMap d" "D_pathRouteMap d old = Some r" "R_path (D_heap d r) = old"
    using assms(1,2) by (auto simp: dest_inv_def route_inv_def)
  have l: "list_inv None d" using assms(1) by (simp add: dest_inv_def)
  then obtain j where j: "j < length (D_Paths d)" "D_Paths d ! j = r" using r(1) by (auto simp: list_inv_def in_set_conv_nth)
  define d1 where "d1 = d\<lparr>D_PathInfoRouteMap := D_PathInfoRouteMap d - {r}\<rparr>"
  have d': "d' = d1 \<or> d' = d1\<lparr>D_LocRibPath := None\<rparr>" and idx: "idx = Some j"
    using assms(3) r(2) j l by (auto simp: drop_old_path_def d1_def list_inv_def Let_def split: if_splits)
  have "list_inv (Some j) d1" using l j by (auto simp: list_inv_def d1_def)
  moreover have "route_inv (live d - {old}) d1"
    unfolding route_inv_def
  proof
    fix p assume p: "p \<in> live d - {old}"
    then obtain q where "q \<in> D_PathInfoRouteMap d" "D_pathRouteMap d p = Some q" "R_path (D_heap d q) = p"
      using assms(1) by (auto simp: dest_inv_def route_inv_def)
    with p r(3) show "\<exists>q \<in> D_PathInfoRouteMap d1. D_pathRouteMap d1 p = Some q \<and> R_path (D_heap d1 q) = p" by (auto simp: d1_def)
  qed
  moreover have "ids.assigned (out_id d1) (live d - {old}) d1"
    by (rule assigned_cong [OF _ _ _ ids.restrict]) (use assms(1) in \<open>auto simp: dest_inv_def d1_def out_id_def\<close>)
  ultimately have "list_inv idx d1 \<and> route_inv (live d - {old}) d1 \<and> ids.assigned (out_id d1) (live d - {old}) d1" using idx by simp
  then show ?thesis
    using d' by (elim disjE) (simp_all add: d1_def)
qed

text \<open>A path is added or replaces another: this always succeeds, and the invariant stays.\<close>

lemma AddOrUpdatePath_inv:
  assumes inv: "dest_inv d" and room: "pool_room d" and new: "path \<notin> live d"
  shows "\<exists>d'. AddOrUpdatePath ph peer pathId path d = Inr (d', getPathForIP peer pathId d = None) \<and> dest_inv d' \<and>
    (\<forall>p i. getPathForIP p i d' = (if p = peer \<and> i = pathId then Some path else getPathForIP p i d)) \<and>
    live d' = insert path (live d - set_option (getPathForIP peer pathId d))"
proof -
  have k: "keys_inv d" and s: "slot_inv d" and i: "list_inv None d" "route_inv (live d) d" "ids.assigned (out_id d) (live d) d"
    using inv by (auto simp: dest_inv_def)
  show ?thesis
  proof (cases "getPathForIP peer pathId d")
    case None
    from add_route_ok [OF i room new, of ph peer pathId] obtain d' where
      d': "add_route ph peer pathId path None d = Inr d'" "list_inv None d'" "route_inv (insert path (live d)) d'"
      "ids.assigned (out_id d') (insert path (live d)) d'" "keys_inv d'"
      "\<forall>p i. getPathForIP p i d' = (if p = peer \<and> i = pathId then Some path else getPathForIP p i d)" using k by blast
    with live_update [OF s d'(6) new] None show ?thesis by (simp add: AddOrUpdatePath_def dest_inv_def)
  next
    case (Some old)
    then have old: "old \<in> live d" "old \<noteq> path" using new by (auto simp: live_def)
    obtain d1 idx where d1: "drop_old_path old d = (d1, idx)" by (cases "drop_old_path old d")
    note ok = drop_old_path_ok [OF inv old(1) d1]
    have same: "getPathForIP p i d1 = getPathForIP p i d" for p i using ok by (simp add: getPathForIP_def peer_paths_def)
    have "keys_inv d1" using ok k by (simp add: keys_inv_def)
    have "pool_room d1" "path \<notin> live d - {old}" using ok room new by (auto simp: pool_room_def)
    with add_route_ok [of idx d1 "live d - {old}" path ph peer pathId] ok obtain d' where
      d': "add_route ph peer pathId path idx d1 = Inr d'" "list_inv None d'" "route_inv (insert path (live d - {old})) d'"
      "ids.assigned (out_id d') (insert path (live d - {old})) d'" "keys_inv d'"
      "\<forall>p i. getPathForIP p i d' = (if p = peer \<and> i = pathId then Some path else getPathForIP p i d)"
      unfolding same using \<open>keys_inv d1\<close> by blast
    with live_update [OF s d'(6) new] Some old(2) d1 show ?thesis by (simp add: AddOrUpdatePath_def dest_inv_def)
  qed
qed

lemma drop_route_ok:
  assumes l: "list_inv None d" and rt: "route_inv L d" and ids: "ids.assigned (out_id d) L d" and old: "old \<in> L"
  shows "\<exists>d'. drop_route old d = Inr d' \<and> list_inv None d' \<and> route_inv (L - {old}) d' \<and>
    ids.assigned (out_id d') (L - {old}) d' \<and> D_peerPathMap d' = D_peerPathMap d"
proof -
  obtain r where r: "r \<in> D_PathInfoRouteMap d" "D_pathRouteMap d old = Some r" "R_path (D_heap d r) = old"
    using rt old by (auto simp: route_inv_def)
  let ?xs = "D_Paths d"
  obtain i where i: "i < length ?xs" "?xs ! i = r" using l r(1) by (auto simp: list_inv_def in_set_conv_nth)
  have ri: "R_routeListIdx (D_heap d r) = Some i" using l i by (auto simp: list_inv_def)
  have dist: "distinct ?xs" and pim: "D_PathInfoRouteMap d = set ?xs" using l by (auto simp: list_inv_def)
  define d1 where "d1 = releasePathId (out_id d old) d"
  have d1: "D_Paths d1 = ?xs" "D_PathInfoRouteMap d1 = set ?xs" "D_heap d1 = D_heap d" "D_pathRouteMap d1 = D_pathRouteMap d"
    "D_peerPathMap d1 = D_peerPathMap d" "D_next d1 = D_next d"
    using pim by (simp_all add: d1_def releasePathId_def)
  define d2 where "d2 = d1\<lparr>D_pathRouteMap := (D_pathRouteMap d)(old := None), D_PathInfoRouteMap := set ?xs - {r},
    D_Paths := butlast (?xs[i := last ?xs]), D_heap := (D_heap d)(last ?xs := setIdx i (D_heap d (last ?xs)))\<rparr>"
  have ne: "?xs \<noteq> []" using i by auto
  have rel: "releasePathId (R_OutPathId (D_heap d r)) d = d1" by (simp add: d1_def out_id_def r(2))
  have run: "drop_route old d = Inr d2"
    using ne i d1 by (simp add: drop_route_def r(2) rel ri Let_def GetLastPath_def RemovePathAndSetLast_def on_route_def d2_def)
  note sw = swap_remove_set [OF dist i(1)]
  have lastn: "?xs ! j \<noteq> last ?xs" if "j < length ?xs - 1" for j
    using that dist ne by (simp add: last_conv_nth nth_eq_iff_index_eq)
  have "list_inv None d2"
    unfolding list_inv_def
  proof (intro conjI allI impI)
    show "case None of None \<Rightarrow> D_PathInfoRouteMap d2 = set (D_Paths d2)
      | Some j \<Rightarrow> j < length (D_Paths d2) \<and> D_PathInfoRouteMap d2 = set (D_Paths d2) - {D_Paths d2 ! j}"
      using sw i(2) by (simp add: d2_def)
    show "distinct (D_Paths d2)" using sw by (simp add: d2_def)
    fix j assume "j < length (D_Paths d2)"
    then have j: "j < length ?xs - 1" by (simp add: d2_def)
    have nth: "D_Paths d2 ! j = (if j = i then last ?xs else ?xs ! j)" using butlast_update_nth [OF i(1) j] by (simp add: d2_def)
    show "R_routeListIdx (D_heap d2 (D_Paths d2 ! j)) = Some j"
      using l j lastn [OF j] unfolding nth by (simp add: d2_def setIdx_def list_inv_def)
    show "D_Paths d2 ! j < D_next d2"
      using l j ne unfolding nth by (auto simp: d2_def d1 list_inv_def last_conv_nth)
  qed
  moreover have "route_inv (L - {old}) d2"
    unfolding route_inv_def
  proof
    fix p assume p: "p \<in> L - {old}"
    then obtain q where "q \<in> set ?xs" "D_pathRouteMap d p = Some q" "R_path (D_heap d q) = p"
      using rt pim by (auto simp: route_inv_def)
    with p r(3) show "\<exists>q \<in> D_PathInfoRouteMap d2. D_pathRouteMap d2 p = Some q \<and> R_path (D_heap d2 q) = p"
      by (auto simp: d2_def setIdx_def)
  qed
  moreover have "ids.assigned (out_id d2) (L - {old}) d1"
    unfolding d1_def by (rule ids.unassign [OF ids old]) (auto simp: out_id_def d2_def setIdx_def)
  then have "ids.assigned (out_id d2) (L - {old}) d2" by (simp add: ids.assigned_def pool_ok_def d2_def)
  ultimately show ?thesis using run by (simp add: d2_def d1)
qed

lemma getPathForIP_delete:
  assumes "m = AList.delete pathId (case peer_paths peer d of Some m \<Rightarrow> m | None \<Rightarrow> [])"
  shows "getPathForIP p i (d\<lparr>D_peerPathMap := (if m = [] then AList.delete peer (D_peerPathMap d)
      else AList.update peer m (D_peerPathMap d))\<rparr>) = (if p = peer \<and> i = pathId then None else getPathForIP p i d)"
proof -
  have m: "map_of m = (case peer_paths peer d of Some m \<Rightarrow> map_of m | None \<Rightarrow> Map.empty)(pathId := None)"
    using assms by (auto simp: delete_conv' split: option.splits)
  show ?thesis
    using arg_cong [OF m, of "\<lambda>f. f i"]
    by (cases "m = []") (auto simp: getPathForIP_def peer_paths_def update_conv' delete_conv' fun_upd_apply split: option.splits if_splits)
qed

text \<open>Removing a path always succeeds, gives back what was there, and keeps the invariant.\<close>

lemma RemovePath_inv:
  assumes inv: "dest_inv d"
  shows "\<exists>d'. RemovePath peer pathId d = Inr (d', getPathForIP peer pathId d) \<and> dest_inv d' \<and>
    (\<forall>p i. getPathForIP p i d' = (if p = peer \<and> i = pathId then None else getPathForIP p i d))"
proof (cases "getPathForIP peer pathId d")
  case None
  with inv show ?thesis by (auto simp: RemovePath_def)
next
  case (Some old)
  define d0 where "d0 = (if D_LocRibPath d = Some old then d\<lparr>D_recalculate := True, D_LocRibPath := None\<rparr>
      else d\<lparr>D_recalculate := D_recalculate d \<or> old \<in> fst ` set (D_ecmpPaths d)\<rparr>)"
  have d0: "list_inv None d0" "route_inv (live d) d0" "ids.assigned (out_id d0) (live d) d0" "D_peerPathMap d0 = D_peerPathMap d"
    using inv by (auto simp: d0_def dest_inv_def list_inv_def route_inv_def out_id_def [abs_def] ids.assigned_def pool_ok_def)
  have "old \<in> live d" using Some by (auto simp: live_def)
  then obtain d1 where d1: "drop_route old d0 = Inr d1" "list_inv None d1" "route_inv (live d - {old}) d1"
    "ids.assigned (out_id d1) (live d - {old}) d1" "D_peerPathMap d1 = D_peerPathMap d"
    using drop_route_ok [OF d0(1-3)] d0(4) by metis
  define m where "m = AList.delete pathId (case peer_paths peer d1 of Some m \<Rightarrow> m | None \<Rightarrow> [])"
  define d2 where "d2 = d1\<lparr>D_peerPathMap := (if m = [] then AList.delete peer (D_peerPathMap d1)
      else AList.update peer m (D_peerPathMap d1))\<rparr>"
  have "(if D_LocRibPath d' = Some old then d'\<lparr>D_recalculate := True, D_LocRibPath := None\<rparr> else d') = d0"
    if "d' = (if old \<in> fst ` set (D_ecmpPaths d) then d\<lparr>D_recalculate := True\<rparr> else d)" for d'
    using that by (cases d) (auto simp: d0_def)
  then have run: "RemovePath peer pathId d = Inr (d2, Some old)"
    using Some d1(1) by (simp add: RemovePath_def Let_def d2_def m_def)
  have look: "getPathForIP p i d2 = (if p = peer \<and> i = pathId then None else getPathForIP p i d)" for p i
    using getPathForIP_delete [OF m_def, of p i] d1(5) by (simp add: d2_def getPathForIP_def peer_paths_def)
  have s: "slot_inv d" using inv by (simp add: dest_inv_def)
  have k: "keys_inv d1" using inv d1(5) by (simp add: dest_inv_def keys_inv_def)
  then have "distinct (map fst m)" unfolding m_def by (intro distinct_delete keys_inv_lookup)
  then have "keys_inv d2" using keys_inv_update [OF k, of m peer] keys_inv_delete [OF k, of peer] by (simp add: d2_def)
  moreover have "slot_inv d2" using s look by (simp add: slot_inv_def split: if_splits)
  moreover have "live d2 = live d - {old}"
  proof -
    have "getPathForIP p i d2 = Some q \<longleftrightarrow> getPathForIP p i d = Some q \<and> q \<noteq> old" for p i q
      using s Some unfolding look slot_inv_def by auto
    then show ?thesis by (auto simp: live_def)
  qed
  moreover have "list_inv None d2" "route_inv (live d - {old}) d2" "ids.assigned (out_id d2) (live d - {old}) d2"
    using d1(2-4) by (simp_all add: d2_def list_inv_def route_inv_def out_id_def [abs_def] ids.assigned_def pool_ok_def)
  ultimately show ?thesis using run look Some by (simp add: dest_inv_def)
qed

lemma remove_ids_inv:
  "dest_inv d \<Longrightarrow> \<exists>d'. remove_ids peer is d = Inr d' \<and> dest_inv d' \<and>
     (\<forall>p i. getPathForIP p i d' = (if p = peer \<and> i \<in> set is then None else getPathForIP p i d))"
proof (induction "is" arbitrary: d)
  case (Cons i "is")
  obtain d1 where d1: "RemovePath peer i d = Inr (d1, getPathForIP peer i d)" "dest_inv d1"
    "\<forall>p j. getPathForIP p j d1 = (if p = peer \<and> j = i then None else getPathForIP p j d)"
    using RemovePath_inv [OF Cons.prems] by blast
  obtain d2 where "remove_ids peer is d1 = Inr d2" "dest_inv d2"
    "\<forall>p j. getPathForIP p j d2 = (if p = peer \<and> j \<in> set is then None else getPathForIP p j d1)"
    using Cons.IH [OF d1(2)] by blast
  with d1 show ?case by auto
qed auto

lemma RemoveAllPaths_inv:
  assumes "dest_inv d"
  shows "\<exists>d'. RemoveAllPaths peer d = Inr d' \<and> dest_inv d' \<and> (\<forall>p i. getPathForIP p i d' = (if p = peer then None else getPathForIP p i d))"
proof (cases "peer_paths peer d")
  case None
  with assms show ?thesis by (auto simp: RemoveAllPaths_def getPathForIP_def)
next
  case (Some m)
  obtain d' where d': "remove_ids peer (map fst m) d = Inr d'" "dest_inv d'"
    "\<forall>p i. getPathForIP p i d' = (if p = peer \<and> i \<in> set (map fst m) then None else getPathForIP p i d)"
    using remove_ids_inv [OF assms] by blast
  have "getPathForIP peer i d = None" if "i \<notin> set (map fst m)" for i
    using Some that by (simp add: getPathForIP_def map_of_eq_None_iff)
  with Some d' show ?thesis by (auto simp: RemoveAllPaths_def)
qed

text \<open>Changes of a route that leave its place and its identifier alone.\<close>

definition harmless :: "(Route \<Rightarrow> Route) \<Rightarrow> bool" where
  "harmless f \<longleftrightarrow> (\<forall>r. R_path (f r) = R_path r \<and> R_routeListIdx (f r) = R_routeListIdx r \<and> R_OutPathId (f r) = R_OutPathId r)"

lemma harmless_ops [simp]:
  "harmless (setAction a)" "harmless (SetBestPath b)" "harmless (SetMultiPath b)" "harmless (SetAdditionalPath b)"
  by (simp_all add: harmless_def setAction_def SetBestPath_def SetMultiPath_def SetAdditionalPath_def)

lemma on_route_harmless:
  assumes "harmless f"
  shows "dest_inv (on_route r f d) = dest_inv d" "getPathForIP peer i (on_route r f d) = getPathForIP peer i d"
proof -
  let ?d = "on_route r f d"
  have same: "R_path (D_heap ?d q) = R_path (D_heap d q)" "R_routeListIdx (D_heap ?d q) = R_routeListIdx (D_heap d q)"
    "R_OutPathId (D_heap ?d q) = R_OutPathId (D_heap d q)" for q
    using assms by (simp_all add: on_route_def harmless_def)
  have flds: "D_Paths ?d = D_Paths d" "D_PathInfoRouteMap ?d = D_PathInfoRouteMap d" "D_next ?d = D_next d" "D_pathRouteMap ?d = D_pathRouteMap d"
    "D_pathIds ?d = D_pathIds d" "D_maxPathId ?d = D_maxPathId d" "D_peerPathMap ?d = D_peerPathMap d"
    by (simp_all add: on_route_def)
  show look: "getPathForIP peer i ?d = getPathForIP peer i d" for peer i by (simp add: getPathForIP_def peer_paths_def flds)
  show "dest_inv ?d = dest_inv d"
    by (simp add: dest_inv_def keys_inv_def slot_inv_def live_def look list_inv_def route_inv_def out_id_def [abs_def] ids.assigned_def pool_ok_def flds same)
qed

text \<open>Selecting a path leaves the paths, their routes and the identifiers alone.\<close>

definition same_paths :: "Destination \<Rightarrow> Destination \<Rightarrow> bool" where
  "same_paths d d' \<longleftrightarrow> dest_inv d' = dest_inv d \<and> D_peerPathMap d' = D_peerPathMap d \<and> D_pathIds d' = D_pathIds d \<and>
     D_maxPathId d' = D_maxPathId d \<and> D_protoFamily d' = D_protoFamily d \<and> D_Prefix d' = D_Prefix d"

lemma same_paths_lookup: "same_paths d d' \<Longrightarrow> getPathForIP peer i d' = getPathForIP peer i d"
  by (simp add: same_paths_def getPathForIP_def peer_paths_def)

lemma same_paths_refl [simp]: "same_paths d d" by (simp add: same_paths_def)

lemma same_paths_trans: "same_paths d1 d2 \<Longrightarrow> same_paths d2 d3 \<Longrightarrow> same_paths d1 d3" by (simp add: same_paths_def)

lemma same_paths_on_route [simp]: "harmless f \<Longrightarrow> same_paths d0 (on_route r f d) = same_paths d0 d"
  by (simp add: same_paths_def on_route_harmless) (simp add: on_route_def)

lemma same_paths_upd [simp]:
  "same_paths d0 (d\<lparr>D_LocRibPath := l\<rparr>) = same_paths d0 d" "same_paths d0 (d\<lparr>D_recalculate := b\<rparr>) = same_paths d0 d"
  "same_paths d0 (d\<lparr>D_ecmpPaths := e\<rparr>) = same_paths d0 d" "same_paths d0 (d\<lparr>D_AddPaths := ap\<rparr>) = same_paths d0 d"
  "same_paths d0 (d\<lparr>D_LocRibPathRoute := lr\<rparr>) = same_paths d0 d" "same_paths d0 (d\<lparr>D_log := lg\<rparr>) = same_paths d0 d"
  by (simp_all add: same_paths_def)

lemma fold_same_paths:
  "(\<And>x d. same_paths d0 d \<Longrightarrow> same_paths d0 (f x d)) \<Longrightarrow> same_paths d0 d \<Longrightarrow> same_paths d0 (fold f xs d)"
  by (induction xs arbitrary: d) auto

lemma updateAddPaths_same: "updateAddPaths ap d = (d', b) \<Longrightarrow> same_paths d0 d \<Longrightarrow> same_paths d0 d'"
  by (auto simp: updateAddPaths_def reset_additional_def split: if_splits option.splits intro!: fold_same_paths)

lemma install_group_same: "install_group ph idx g (d, s) = Inr (d', s') \<Longrightarrow> same_paths d0 d \<Longrightarrow> same_paths d0 d'"
  by (auto simp: install_group_def Let_def bind_r_eq_Inr split: option.splits if_splits)

lemma install_groups_same: "install_groups ph idx gs (d, s) = Inr (d', s') \<Longrightarrow> same_paths d0 d \<Longrightarrow> same_paths d0 d'"
  by (induction gs arbitrary: idx d s) (auto simp: bind_r_eq_Inr dest: install_group_same)

lemma call_rib_same: "call_rib ph c p d = Inr d' \<Longrightarrow> same_paths d0 d \<Longrightarrow> same_paths d0 d'"
  by (auto simp: call_rib_def bind_r_eq_Inr split: option.splits)

lemma remove_stale_same: "remove_stale ph rs (d, s) = Inr (d', s') \<Longrightarrow> same_paths d0 d \<Longrightarrow> same_paths d0 d'"
proof (induction rs arbitrary: d s)
  case (Cons r rs)
  obtain p q where r: "r = (p, q)" by (cases r)
  show ?case using Cons by (auto simp: r bind_r_eq_Inr split: if_splits dest: call_rib_same)
qed auto

lemma create_routes_same: "create_routes ph rs (d, s) = Inr (d', s') \<Longrightarrow> same_paths d0 d \<Longrightarrow> same_paths d0 d'"
  by (induction rs arbitrary: d s) (auto simp: bind_r_eq_Inr dest: call_rib_same)

lemma choose_path_same:
  assumes "choose_path rt g ph k upd rem d = Inr (d', s)" "same_paths d0 d"
  shows "same_paths d0 d'"
proof -
  obtain best ecmp ap where b: "best_paths rt g (D_protoFamily d) k upd rem = Inr (best, ecmp, ap)"
    using assms(1) by (auto simp: choose_path_def bind_r_eq_Inr)
  obtain d1 c where u: "updateAddPaths (map P_ref ap) d = (d1, c)" by (cases "updateAddPaths (map P_ref ap) d")
  show ?thesis
    using assms(1) updateAddPaths_same [OF u assms(2)]
    by (auto simp: choose_path_def b u bind_r_eq_Inr Let_def dest: install_groups_same)
qed

lemma SelectRouteForLocRib_same:
  assumes "SelectRouteForLocRib rt g ph k d = Inr (d', s)"
  shows "same_paths d d'"
proof (cases "D_recalculate d")
  case True
  let ?d0 = "d\<lparr>D_recalculate := False\<rparr>"
  from True assms obtain upd rem d1 s1 d2 s2 where
    sel: "(if upd \<noteq> [] then choose_path rt g ph k upd rem ?d0
       else Inr ((fold (\<lambda>(_, r). on_route r (setAction RouteActionDelete)) (D_ecmpPaths ?d0) ?d0)\<lparr>D_LocRibPath := None\<rparr>,
                 no_selection\<lparr>S_locRibAction := RouteActionDelete\<rparr>)) = Inr (d1, s1)"
    and rest: "remove_stale ph (D_ecmpPaths d1) (d1, s1) = Inr (d2, s2)" "create_routes ph (S_create s2) (d2, s2) = Inr (d', s)"
    by (auto simp: SelectRouteForLocRib_def Let_def bind_r_eq_Inr)
  have "same_paths d d1"
  proof (cases "upd = []")
    case True
    have "same_paths d (fold (\<lambda>(_, r). on_route r (setAction RouteActionDelete)) (D_ecmpPaths ?d0) ?d0)"
      by (rule fold_same_paths) auto
    with True sel show ?thesis by auto
  next
    case False
    with sel show ?thesis using choose_path_same [of rt g ph k upd rem ?d0 d1 s1 d] by simp
  qed
  with rest show ?thesis using remove_stale_same create_routes_same by blast
qed (use assms in \<open>auto simp: SelectRouteForLocRib_def\<close>)

section \<open>What is selected\<close>

lemma live_all_paths:
  assumes "keys_inv d"
  shows "live d = set (all_paths d)"
proof -
  have "getPathForIP peer i d = Some p \<longleftrightarrow> (\<exists>m. (peer, m) \<in> set (D_peerPathMap d) \<and> (i, p) \<in> set m)" for peer i p
  proof -
    have "peer_paths peer d = Some m \<longleftrightarrow> (peer, m) \<in> set (D_peerPathMap d)" for m
      using assms by (simp add: keys_inv_def peer_paths_def)
    moreover have "map_of m i = Some p \<longleftrightarrow> (i, p) \<in> set m" if "(peer, m) \<in> set (D_peerPathMap d)" for m
      using assms that by (auto simp: keys_inv_def intro!: map_of_eq_Some_iff)
    ultimately show ?thesis by (auto simp: getPathForIP_def split: option.splits) (metis option.inject)+
  qed
  then show ?thesis by (force simp: live_def all_paths_def image_iff)
qed

definition source :: "Path \<Rightarrow> u8" where
  "source p = getRouteSource (P_routeType p)"

definition eligible :: "u32 \<Rightarrow> Path \<Rightarrow> bool" where
  "eligible fam p \<longleftrightarrow> IsReachable fam p \<and> Path_HasASLoop p = Inr False"

lemma candidate_loop_spec:
  assumes "\<And>r. r \<in> set rs \<Longrightarrow> IsReachable fam (ph r) \<Longrightarrow> \<not> isl (Path_HasASLoop (ph r))"
  shows "\<exists>rm'. candidate_loop ph fam None rs (u, rm, s) = Inr
      ((if lowest.the_best s (map source (filter (eligible fam) (map ph rs))) = s then u else []) @
         filter (\<lambda>p. source p = lowest.the_best s (map source (filter (eligible fam) (map ph rs)))) (filter (eligible fam) (map ph rs)),
       rm', lowest.the_best s (map source (filter (eligible fam) (map ph rs)))) \<and>
      set rm' \<subseteq> set rm \<union> set u \<union> set (filter (eligible fam) (map ph rs))"
  using assms
proof (induction rs arbitrary: u rm s)
  case Nil
  then show ?case by (simp add: lowest.the_best_def)
next
  case (Cons r rs)
  let ?E = "filter (eligible fam) (map ph rs)" and ?p = "ph r"
  have IH: "\<exists>rm'. candidate_loop ph fam None rs (u, rm, s) = Inr ((if lowest.the_best s (map source ?E) = s then u else []) @
      filter (\<lambda>p. source p = lowest.the_best s (map source ?E)) ?E, rm', lowest.the_best s (map source ?E)) \<and>
      set rm' \<subseteq> set rm \<union> set u \<union> set ?E" for u rm s
    using Cons.IH Cons.prems by simp
  show ?case
  proof (cases "eligible fam ?p")
    case False
    then have skip: "candidate_loop ph fam None (r # rs) (u, rm, s) = candidate_loop ph fam None rs (u, rm, s)"
      using Cons.prems [of r] by (cases "Path_HasASLoop ?p") (auto simp: eligible_def)
    show ?thesis using IH [of u rm s] False by (auto simp add: skip simp del: candidate_loop.simps)
  next
    case True
    let ?c = "source ?p"
    have step: "candidate_loop ph fam None (r # rs) (u, rm, s) = candidate_loop ph fam None rs
        (if ?c > s then (u, rm @ [?p], s) else if ?c < s then ([?p], rm @ u, ?c) else (u @ [?p], rm, s))"
      using True by (simp add: eligible_def source_def Let_def)
    have fold: "lowest.the_best s (?c # map source ?E) = lowest.the_best (if ?c < s then ?c else s) (map source ?E)"
      by (simp add: lowest.the_best_def)
    consider "?c > s" | "?c < s" | "?c = s" by fastforce
    then show ?thesis
    proof cases
      case 1
      have "lowest.the_best s (map source ?E) \<noteq> ?c" using lowest.the_best_max [of s s "map source ?E"] 1 by auto
      with 1 True IH [of u "rm @ [?p]" s] show ?thesis by (auto simp: step fold simp del: candidate_loop.simps)
    next
      case 2
      have "lowest.the_best ?c (map source ?E) \<noteq> s" using lowest.the_best_max [of ?c ?c "map source ?E"] 2 by auto
      with 2 True IH [of "[?p]" "rm @ u" ?c] show ?thesis by (auto simp: step fold simp del: candidate_loop.simps)
    next
      case 3
      have "lowest.the_best ?c (?c # map source ?E) = lowest.the_best ?c (map source ?E)" by (simp add: lowest.the_best_def)
      with 3 True IH [of "u @ [?p]" rm s] show ?thesis by (auto simp: step fold simp del: candidate_loop.simps)
    qed
  qed
qed


text \<open>Without a current choice, the candidates are the eligible paths of the best source, in their order.\<close>

lemma candidates_spec:
  assumes "D_LocRibPath d = None"
    and "\<And>r. r \<in> set (all_paths d) \<Longrightarrow> IsReachable (D_protoFamily d) (ph r) \<Longrightarrow> \<not> isl (Path_HasASLoop (ph r))"
  shows "\<exists>removed. candidates ph d = Inr (optimal (<) source (filter (eligible (D_protoFamily d)) (map ph (all_paths d))), removed) \<and>
    set removed \<subseteq> set (filter (eligible (D_protoFamily d)) (map ph (all_paths d)))"
proof -
  let ?E = "filter (eligible (D_protoFamily d)) (map ph (all_paths d))"
  have le: "source p \<le> RouteSrcUnknown" for p using getRouteSource_values [of "P_routeType p"] by (auto simp: source_def)
  have "filter (\<lambda>p. source p = lowest.the_best RouteSrcUnknown (map source ?E)) ?E = optimal (<) source ?E"
  proof (cases "?E = []")
    case False
    then have "hd ?E \<in> set ?E" by (rule hd_in_set)
    then have "\<exists>p \<in> set ?E. \<not> RouteSrcUnknown < source p" using le by (metis not_less)
    then show ?thesis by (rule lowest.filter_best)
  qed (simp add: optimal_def)
  then show ?thesis
    using candidate_loop_spec [of "all_paths d" "D_protoFamily d" ph "[]" "[]" RouteSrcUnknown] assms
    by (auto simp: candidates_def simp del: filter_filter)
qed

lemma calculateBestPath_plain:
  "calculateBestPath rt fam xs rem False False 0 = Inr (ys, e, a) \<Longrightarrow> e = [] \<and> a = []"
  by (auto simp: calculateBestPath_def bind_r_eq_Inr ecmp_if_def additional_paths_def split: if_splits)

text \<open>The mode without multiple and additional paths.\<close>

lemma best_paths_plain:
  assumes "xs \<noteq> []" "fair_runtime rt" "\<And>p. p \<in> set (xs @ rem) \<Longrightarrow> rankable n p"
    and "sorted_wrt (\<lambda>p q. projr (Path_GetOrigin p) \<le> projr (Path_GetOrigin q)) xs"
    and "known_next_hops fam (mset (xs @ rem))" "\<not> G_UseMultiplePaths g"
  shows "\<exists>ys. best_paths rt g fam 0 xs rem = Inr (ys, [], []) \<and> mset ys = mset (optimal (<) rank xs)"
proof (cases "length xs > 1")
  case True
  from calculateBestPath_optimal [OF assms(1-5), of False False 0] obtain ys e a where
    "calculateBestPath rt fam xs rem False False 0 = Inr (ys, e, a)" "mset ys = mset (optimal (<) rank xs)" by blast
  with calculateBestPath_plain True assms(6) show ?thesis by (fastforce simp: best_paths_def)
next
  case False
  with assms show ?thesis by (auto simp: best_paths_def lowest.optimal_single)
qed

lemma netmask_total:
  assumes "ones \<le> 8 * nat len" "len > 0"
  shows "\<exists>mask. constructNetmaskFromLen ones (len * 8) = Inr mask"
proof -
  define n where "n = nat len"
  have n: "nat (len * 8) div 8 = n" "ones \<le> 8 * n" using assms by (simp_all add: nat_mult_distrib n_def)
  have le: "ones div 8 \<le> n" using div_le_mono [OF n(2), of 8] by simp
  have "ones mod 8 = 0" if "n \<le> ones div 8"
  proof -
    have "ones = 8 * n" using n(2) le that div_mult_mod_eq [of ones 8] by linarith
    then show ?thesis by simp
  qed
  with le have "\<not> ones div 8 > n" "\<not> (ones mod 8 \<noteq> 0 \<and> ones div 8 \<ge> n)" by auto
  then show ?thesis using assms(2) n(1) by (auto simp: constructNetmaskFromLen_def Let_def)
qed

text \<open>Installing one new path in a destination that has none installed.\<close>

lemma install_first:
  assumes "D_ecmpPaths d = []" "D_pathRouteMap d p = Some r" "reach_next_hop (D_protoFamily d) (ph p) = Inr nh" "in_kernel (ph p)"
  shows "install_groups ph 0 [[p]] (d, no_selection) = Inr
     ((on_route r (SetBestPath True) (on_route r (SetMultiPath True) (on_route r (setAction RouteActionAdd) d)))\<lparr>D_ecmpPaths := [(p, r)]\<rparr>,
      no_selection\<lparr>S_create := [p], S_added := [r], S_locRibAction := RouteActionAdd\<rparr>)"
  using assms by (simp add: install_group_def no_selection_def on_route_def Let_def)

lemma selection_installs:
  assumes inv: "dest_inv d" and d: "D_recalculate d" "D_LocRibPath d = None" "D_ecmpPaths d = []" "D_AddPaths d = []"
    and refs: "\<And>r. P_ref (ph r) = r" and fair: "fair_runtime rt" and single: "\<not> G_UseMultiplePaths g"
    and paths: "\<And>r. r \<in> set (all_paths d) \<Longrightarrow> P_routeType (ph r) = RouteTypeEGP \<and> rankable n (ph r) \<and> \<not> isl (Path_HasASLoop (ph r))"
    and sorted: "sorted_wrt (\<lambda>p q. projr (Path_GetOrigin p) \<le> projr (Path_GetOrigin q)) (map ph (all_paths d))"
    and E: "E = filter (eligible (D_protoFamily d)) (map ph (all_paths d))" "E \<noteq> []"
    and len: "unat (Length (D_Prefix d)) \<le> 8 * nat (GetAddressLengthForFamily (D_protoFamily d))" "GetAddressLengthForFamily (D_protoFamily d) > 0"
  shows "\<exists>d' s p r cfg. SelectRouteForLocRib rt g ph 0 d = Inr (d', s) \<and> D_LocRibPath d' = Some p \<and> D_ecmpPaths d' = [(p, r)] \<and>
    ph p \<in> set E \<and> (\<forall>q \<in> set E. rank (ph p) \<le> rank q) \<and> D_pathRouteMap d p = Some r \<and> R_BestPath (D_heap d' r) \<and>
    S_locRibAction s = RouteActionAdd \<and> D_log d' = D_log d @ [CreateRoute cfg] \<and> dest_inv d'"
proof -
  let ?d = "d\<lparr>D_recalculate := False\<rparr>" and ?fam = "D_protoFamily d"
  have inE: "\<exists>r \<in> set (all_paths d). q = ph r \<and> eligible ?fam q" if "q \<in> set E" for q using that by (auto simp: E(1))
  have src: "source q = RouteSrcExternal" if "q \<in> set E" for q
    using inE [OF that] paths by (auto simp: source_def getRouteSource_def RouteTypeToSource_def)
  have "optimal (<) source E = E" unfolding optimal_def by (rule filter_True) (simp add: src)
  then obtain removed where cand: "candidates ph ?d = Inr (E, removed)" "set removed \<subseteq> set E"
    using candidates_spec [of ?d ph] d(2) paths by (auto simp: E(1) all_paths_def)
  have ok: "rankable n q \<and> GetReachability ?fam q \<noteq> None" if "q \<in> set (E @ removed)" for q
  proof -
    have "q \<in> set E" using that cand(2) by auto
    from inE [OF this] obtain r where "r \<in> set (all_paths d)" "q = ph r" "eligible ?fam q" by blast
    with paths [of r] show ?thesis by (auto simp: eligible_def IsReachable_unless_local)
  qed
  have "sorted_wrt (\<lambda>p q. projr (Path_GetOrigin p) \<le> projr (Path_GetOrigin q)) E"
    unfolding E(1) by (rule sorted_wrt_filter [OF sorted])
  then obtain ys where ys: "best_paths rt g ?fam 0 E removed = Inr (ys, [], [])" "mset ys = mset (optimal (<) rank E)"
    using best_paths_plain [OF E(2) fair, of removed n ?fam g] ok single by (auto simp: known_next_hops_def)
  have "ys \<noteq> []" using ys(2) lowest.optimal_nonempty [OF E(2), of rank] by auto
  then have "hd ys \<in> set (optimal (<) rank E)" using hd_in_set mset_eq_setD [OF ys(2)] by blast
  then have best: "hd ys \<in> set E" "\<forall>q \<in> set E. rank (hd ys) \<le> rank q" by (auto simp: optimal_def not_less)
  define p where "p = P_ref (hd ys)"
  have p: "ph p = hd ys" "p \<in> set (all_paths d)" using inE [OF best(1)] refs by (auto simp: p_def)
  then have "p \<in> live d" using inv live_all_paths by (auto simp: dest_inv_def)
  then obtain r where r: "D_pathRouteMap d p = Some r" using inv by (auto simp: dest_inv_def route_inv_def)
  have reach: "GetReachability ?fam (ph p) \<noteq> None" "in_kernel (ph p)"
    using ok [of "hd ys"] best(1) src [OF best(1)] by (auto simp: p(1) in_kernel_def Path_IsLocal_def source_def)
  then obtain info where info: "GetReachability ?fam (ph p) = Some info" by auto
  define d1 where "d1 = (on_route r (SetBestPath True) (on_route r (SetMultiPath True) (on_route r (setAction RouteActionAdd) ?d)))
      \<lparr>D_ecmpPaths := [(p, r)], D_LocRibPath := Some p, D_LocRibPathRoute := Some r\<rparr>"
  define s1 where "s1 = no_selection\<lparr>S_create := [p], S_added := [r], S_locRibAction := RouteActionAdd\<rparr>"
  have inst: "install_groups ph 0 [[p]] (?d, no_selection) = Inr
     ((on_route r (SetBestPath True) (on_route r (SetMultiPath True) (on_route r (setAction RouteActionAdd) ?d)))\<lparr>D_ecmpPaths := [(p, r)]\<rparr>, s1)"
    unfolding s1_def using d(3) r reach(2) info by (intro install_first [where nh = "RI_NextHop info"]) (simp_all add: reach_next_hop_def)
  have noadd: "no_selection\<lparr>S_addPathsUpdated := False\<rparr> = no_selection" by (simp add: no_selection_def)
  have idx: "index_r ys 0 = (Inr (hd ys) :: Path pres)" using \<open>ys \<noteq> []\<close> by (simp add: index_r_def hd_conv_nth)
  have "updateAddPaths [] ?d = (?d, False)" using d(4) by (simp add: updateAddPaths_def)
  moreover have "removeAndPrepend [] p = [[p]]" by (simp add: removeAndPrepend_def to_front_def)
  ultimately have ch: "choose_path rt g ph 0 E removed ?d = Inr (d1, s1)"
    using ys(1) idx inst by (simp add: choose_path_def Let_def p_def [symmetric] noadd d1_def del: install_groups.simps)
  define d2 where "d2 = on_route r (setAction RouteActionNone) d1"
  have rs: "remove_stale ph (D_ecmpPaths d1) (d1, s1) = Inr (d2, s1)"
    by (simp add: d1_def d2_def on_route_def setAction_def SetBestPath_def SetMultiPath_def)
  have flds: "D_protoFamily d2 = ?fam" "D_Prefix d2 = D_Prefix d" "D_log d2 = D_log d" "D_LocRibPath d2 = Some p" "D_ecmpPaths d2 = [(p, r)]"
    "R_BestPath (D_heap d2 r)"
    by (simp_all add: d2_def d1_def on_route_def setAction_def SetBestPath_def SetMultiPath_def)
  obtain mask where mask: "constructNetmaskFromLen (unat (Length (D_Prefix d))) (GetAddressLengthForFamily ?fam * 8) = Inr mask"
    using netmask_total [OF len] by blast
  obtain cfg where cfg: "ConstructRouteConfig (ph p) info (GetAddressLengthForFamily ?fam) d2 = Inr cfg"
    unfolding ConstructRouteConfig_def flds(2) mask bind_r_Inr by blast
  have cr: "create_routes ph (S_create s1) (d2, s1) = Inr (d2\<lparr>D_log := D_log d @ [CreateRoute cfg]\<rparr>, s1\<lparr>S_firstRoute := False\<rparr>)"
    by (simp add: s1_def no_selection_def call_rib_def flds info cfg)
  have ds: "SelectRouteForLocRib rt g ph 0 d = Inr (d2\<lparr>D_log := D_log d @ [CreateRoute cfg]\<rparr>, s1\<lparr>S_firstRoute := False\<rparr>)"
    using d(1) E(2) cand(1) ch rs cr by (simp add: SelectRouteForLocRib_def Let_def)
  have "dest_inv (d2\<lparr>D_log := D_log d @ [CreateRoute cfg]\<rparr>)" using SelectRouteForLocRib_same [OF ds] inv by (simp add: same_paths_def)
  moreover have "S_locRibAction (s1\<lparr>S_firstRoute := False\<rparr>) = RouteActionAdd" by (simp add: s1_def)
  ultimately show ?thesis using ds best r p(1) flds
    by (intro exI [of _ "d2\<lparr>D_log := D_log d @ [CreateRoute cfg]\<rparr>"] exI [of _ "s1\<lparr>S_firstRoute := False\<rparr>"] exI [of _ p] exI [of _ r]
        exI [of _ cfg]) (simp del: dest_inv_upd)
qed

section \<open>Where the selection goes wrong\<close>

text \<open>
  The best of two installed paths is gone and the other one, installed already, becomes the best: the selection reports no change,
  so nobody is told, and the path is not marked as the best one.
\<close>

lemma failover_is_silent:
  assumes d: "D_recalculate d" "D_LocRibPath d = None" "D_AddPaths d = []" "all_paths d = [b]" "D_ecmpPaths d = [(a, ra), (b, rb)]" "a \<noteq> b" "ra \<noteq> rb"
    and act: "R_action (D_heap d ra) = RouteActionNone"
    and b: "P_ref (ph b) = b" "P_routeType (ph b) = RouteTypeEGP" "eligible (D_protoFamily d) (ph b)"
    and a: "in_kernel (ph a)" "GetReachability (D_protoFamily d) (ph a) = Some info"
    and len: "unat (Length (D_Prefix d)) \<le> 8 * nat (GetAddressLengthForFamily (D_protoFamily d))" "GetAddressLengthForFamily (D_protoFamily d) > 0"
  shows "\<exists>d' s. SelectRouteForLocRib rt g ph 0 d = Inr (d', s) \<and> D_LocRibPath d' = Some b \<and> D_ecmpPaths d' = [(b, rb)] \<and>
    S_locRibAction s = RouteActionNone \<and> S_deleted s = [ra] \<and> R_BestPath (D_heap d' rb) = R_BestPath (D_heap d rb)"
proof -
  let ?d = "d\<lparr>D_recalculate := False\<rparr>" and ?fam = "D_protoFamily d"
  have cand: "candidates ph ?d = Inr ([ph b], [])"
    using d(2,4) b(2,3)
    by (simp add: candidates_def eligible_def all_paths_def getRouteSource_def RouteTypeToSource_def)
  have bp: "best_paths rt g ?fam 0 [ph b] [] = Inr ([ph b], [], [])" by (simp add: best_paths_def)
  have agg: "\<not> Path_IsAggregate (ph b)" using b(2) by (simp add: Path_IsAggregate_def)
  define s1 where "s1 = no_selection\<lparr>S_firstRoute := False, S_updated := [rb]\<rparr>"
  have noadd: "no_selection\<lparr>S_addPathsUpdated := False\<rparr> = no_selection" by (simp add: no_selection_def)
  have inst: "install_groups ph 0 [[b]] (?d, no_selection) = Inr (on_route rb (setAction RouteActionReplace) ?d, s1)"
    using d(5,6) agg by (simp add: install_group_def s1_def no_selection_def)
  define d1 where "d1 = (on_route rb (setAction RouteActionReplace) ?d)\<lparr>D_LocRibPath := Some b, D_LocRibPathRoute := Some rb\<rparr>"
  have upd: "updateAddPaths [] ?d = (?d, False)" using d(3) by (simp add: updateAddPaths_def)
  have grp: "removeAndPrepend [] b = [[b]]" by (simp add: removeAndPrepend_def to_front_def)
  have ch: "choose_path rt g ph 0 [ph b] [] ?d = Inr (d1, s1)"
    using bp upd grp inst b(1) d(5,6) by (simp add: choose_path_def noadd d1_def index_r_def on_route_def del: install_groups.simps)
  obtain mask where mask: "constructNetmaskFromLen (unat (Length (D_Prefix d))) (GetAddressLengthForFamily ?fam * 8) = Inr mask"
    using netmask_total [OF len] by blast
  have flds: "D_Prefix d1 = D_Prefix d" "D_protoFamily d1 = ?fam" "D_ecmpPaths d1 = [(a, ra), (b, rb)]" "R_action (D_heap d1 ra) = RouteActionNone"
    "R_action (D_heap d1 rb) = RouteActionReplace" "D_LocRibPath d1 = Some b" "R_BestPath (D_heap d1 rb) = R_BestPath (D_heap d rb)"
    using d(5,7) act by (simp_all add: d1_def on_route_def setAction_def)
  obtain cfg where cfg: "ConstructRouteConfig (ph a) info (GetAddressLengthForFamily ?fam) d1 = Inr cfg"
    unfolding ConstructRouteConfig_def flds(1) mask bind_r_Inr by blast
  define d2 where "d2 = on_route rb (setAction RouteActionNone)
    ((on_route ra (SetMultiPath False) (on_route ra (SetBestPath False) (d1\<lparr>D_log := D_log d1 @ [UpdateRoute cfg ''remove'']\<rparr>)))\<lparr>D_ecmpPaths := [(b, rb)]\<rparr>)"
  have rs: "remove_stale ph (D_ecmpPaths d1) (d1, s1) = Inr (d2, s1\<lparr>S_deleted := [ra]\<rparr>)"
    using flds d(6,7) a cfg
    by (simp add: d2_def call_rib_def on_route_def SetMultiPath_def SetBestPath_def s1_def no_selection_def)
  have ds: "SelectRouteForLocRib rt g ph 0 d = Inr (d2, s1\<lparr>S_deleted := [ra]\<rparr>)"
    using d(1) cand ch rs by (simp add: SelectRouteForLocRib_def Let_def s1_def no_selection_def)
  moreover have "D_LocRibPath d2 = Some b" "D_ecmpPaths d2 = [(b, rb)]" "R_BestPath (D_heap d2 rb) = R_BestPath (D_heap d rb)"
    using flds d(7) by (simp_all add: d2_def on_route_def setAction_def SetMultiPath_def SetBestPath_def)
  moreover have "S_locRibAction (s1\<lparr>S_deleted := [ra]\<rparr>) = RouteActionNone" "S_deleted (s1\<lparr>S_deleted := [ra]\<rparr>) = [ra]"
    by (simp_all add: s1_def no_selection_def)
  ultimately show ?thesis by blast
qed

text \<open>A path that became reachable is added again; being the same path, it does not make the selection run.\<close>

lemma same_path_is_ignored:
  assumes "getPathForIP peer pathId d = Some path" "\<not> D_recalculate d"
  shows "AddOrUpdatePath ph peer pathId path d = Inr (d, False)" "SelectRouteForLocRib rt g ph k d = Inr (d, no_selection)"
  using assms by (simp_all add: AddOrUpdatePath_def SelectRouteForLocRib_def)

text \<open>Replacing a path does not give its identifier back.\<close>

lemma update_leaks_the_id:
  assumes "dest_inv d" "getPathForIP peer pathId d = Some old" "path \<noteq> old" "D_pathIds d = []"
    and "AddOrUpdatePath ph peer pathId path d = Inr (d', added)"
  shows "D_pathIds d' = [] \<and> D_maxPathId d' = D_maxPathId d + 1"
proof -
  obtain d1 idx where d1: "drop_old_path old d = (d1, idx)" by (cases "drop_old_path old d")
  have old: "old \<in> live d" using assms(2) by (auto simp: live_def)
  have "D_pathIds d1 = []" "D_maxPathId d1 = D_maxPathId d" using drop_old_path_ok [OF assms(1) old d1] assms(4) by auto
  then show ?thesis
    using assms(2,3,5) d1
    by (cases idx) (auto simp: AddOrUpdatePath_def add_route_def Let_def getNextPathId_alt SetPath_def AppendPath_def on_route_def bind_r_eq_Inr split: if_splits)
qed

end
