(* ===== verification/RouteList.thy ===== *)
theory RouteList
  imports AfiSafi "HOL-Library.Multiset"
begin

text \<open>
  The list of all destinations of an address family that the management interface pages through (bgp/rib/rib.go): while a
  reader is active, a removed destination leaves a hole in the list, and the list is compacted when the reader is done.

  A destination is a number, nil is \<open>None\<close>; \<open>RL_idx\<close> holds the field \<open>routeListIdx\<close> of every destination. \<open>RL_list = None\<close> says that the family
  has no entry in the map \<open>routeList\<close> yet, and with it no timer.
\<close>

section \<open>State and operations\<close>

record route_list =
  RL_list :: "nat option list option"
  RL_idx :: "nat \<Rightarrow> int"
  RL_activeGet :: bool
  RL_dirty :: bool

definition NewRouteList :: route_list where
  "NewRouteList = \<lparr>RL_list = None, RL_idx = (\<lambda>_. -1), RL_activeGet = False, RL_dirty = False\<rparr>"

definition addRoutesToRouteList :: "nat \<Rightarrow> route_list \<Rightarrow> route_list" where
  "addRoutesToRouteList dest l =
     (let xs = (case RL_list l of Some xs \<Rightarrow> xs | None \<Rightarrow> [])
      in l\<lparr>RL_list := Some (xs @ [Some dest]), RL_idx := (RL_idx l)(dest := int (length xs))\<rparr>)"

text \<open>Indexing with a number that is not in the list, or following nil, panics.\<close>

definition index_int :: "'a list \<Rightarrow> int \<Rightarrow> nat pres" where
  "index_int xs i = (if 0 \<le> i \<and> i < int (length xs) then Inr (nat i) else Inl Panic)"

definition removeRoutesFromRouteList :: "nat \<Rightarrow> route_list \<Rightarrow> route_list pres" where
  "removeRoutesFromRouteList dest l =
     (case RL_list l of
        None \<Rightarrow> Inr l
      | Some xs \<Rightarrow>
          if RL_idx l dest = -1 then Inr l
          else bind_r (index_int xs (RL_idx l dest)) (\<lambda>idx.
            if \<not> RL_activeGet l then
              (case last xs of
                 None \<Rightarrow> Inl Panic
               | Some e \<Rightarrow> Inr (l\<lparr>RL_list := Some (butlast (xs[idx := Some e])), RL_idx := (RL_idx l)(e := int idx)\<rparr>))
            else Inr (l\<lparr>RL_list := Some (xs[idx := None]), RL_dirty := True\<rparr>)))"

text \<open>The inner loop of \<open>ResetRouteList\<close>: the last index above \<open>idx\<close> that is in use, or \<open>idx\<close>.\<close>

fun last_used :: "nat option list \<Rightarrow> nat \<Rightarrow> nat \<Rightarrow> nat" where
  "last_used xs idx 0 = 0"
| "last_used xs idx (Suc m) = (if Suc m > idx \<and> xs ! Suc m = None then last_used xs idx m else Suc m)"

function compact :: "nat \<Rightarrow> nat \<Rightarrow> nat option list \<Rightarrow> (nat \<Rightarrow> int) \<Rightarrow> nat option list \<times> (nat \<Rightarrow> int)" where
  "compact idx lastIdx xs pos =
     (if idx < length xs then
        (if xs ! idx = None then
           let m = last_used xs idx lastIdx in
           if m \<le> idx then (take idx xs, pos)
           else (case xs ! m of
                   None \<Rightarrow> (take idx xs, pos)
                 | Some e \<Rightarrow> compact (idx + 1) m (xs[idx := Some e, m := None]) (pos(e := int idx)))
         else compact (idx + 1) lastIdx xs pos)
      else (take idx xs, pos))"
  by pat_completeness auto

termination compact
  by (relation "measure (\<lambda>(idx, _, xs, _). length xs - idx)") auto

declare compact.simps [simp del]

definition ResetRouteList :: "route_list \<Rightarrow> route_list" where
  "ResetRouteList l =
     (let l = l\<lparr>RL_activeGet := False\<rparr> in
      if \<not> RL_dirty l then l
      else case RL_list l of
        None \<Rightarrow> l\<lparr>RL_dirty := False\<rparr>
      | Some xs \<Rightarrow> let (ys, pos) = compact 0 (length xs - 1) xs (RL_idx l)
                   in l\<lparr>RL_list := Some ys, RL_idx := pos, RL_dirty := False\<rparr>)"

text \<open>\<open>shown\<close> says which destinations have paths. The loop collects at most \<open>limit\<close> (the argument \<open>count\<close>) of them.\<close>

fun bulk_loop :: "(nat \<Rightarrow> bool) \<Rightarrow> nat \<Rightarrow> nat option list \<Rightarrow> nat \<Rightarrow> nat list \<Rightarrow> nat \<times> nat list" where
  "bulk_loop shown limit [] i acc = (i, acc)"
| "bulk_loop shown limit (x # xs) i acc =
     (if length acc < limit then
        bulk_loop shown limit xs (i + 1) (case x of Some d \<Rightarrow> if shown d then acc @ [d] else acc | None \<Rightarrow> acc)
      else (i, acc))"

definition BulkGetBGPRoutes :: "(nat \<Rightarrow> bool) \<Rightarrow> nat \<Rightarrow> nat \<Rightarrow> route_list \<Rightarrow> route_list \<times> nat \<times> nat list" where
  "BulkGetBGPRoutes shown index limit l =
     (case RL_list l of
        None \<Rightarrow> (l, 0, [])
      | Some _ \<Rightarrow>
          let l = (if index = 0 \<and> RL_activeGet l then ResetRouteList l else l)\<lparr>RL_activeGet := True\<rparr>;
              xs = the (RL_list l);
              (i, res) = bulk_loop shown limit (drop index xs) index []
          in (l, if i \<ge> length xs then 0 else i, res))"

section \<open>The invariant\<close>

text \<open>Every destination in the list knows its index; holes are there only while a reader is active, and are remembered.\<close>

definition rl_inv :: "route_list \<Rightarrow> bool" where
  "rl_inv l \<longleftrightarrow>
     (case RL_list l of
        None \<Rightarrow> \<not> RL_activeGet l \<and> \<not> RL_dirty l
      | Some xs \<Rightarrow>
          (\<forall>i < length xs. \<forall>d. xs ! i = Some d \<longrightarrow> RL_idx l d = int i) \<and>
          (\<not> RL_activeGet l \<longrightarrow> None \<notin> set xs) \<and> (\<not> RL_dirty l \<longrightarrow> None \<notin> set xs))"

definition dests :: "route_list \<Rightarrow> nat set" where
  "dests l = (case RL_list l of None \<Rightarrow> {} | Some xs \<Rightarrow> {d. Some d \<in> set xs})"

lemma NewRouteList_inv: "rl_inv NewRouteList" "dests NewRouteList = {}"
  by (simp_all add: rl_inv_def NewRouteList_def dests_def)

lemma add_inv:
  assumes "rl_inv l" "dest \<notin> dests l"
  shows "rl_inv (addRoutesToRouteList dest l)" "dests (addRoutesToRouteList dest l) = insert dest (dests l)"
  using assms
  by (auto simp: rl_inv_def addRoutesToRouteList_def dests_def nth_append less_Suc_eq Let_def split: option.splits if_splits dest: nth_mem)

lemma set_hole:
  assumes "i < length xs" "xs ! i = Some e" "\<And>j. j < length xs \<Longrightarrow> xs ! j = Some e \<Longrightarrow> j = i"
  shows "Some d \<in> set (xs[i := None]) \<longleftrightarrow> Some d \<in> set xs \<and> d \<noteq> e"
proof
  assume "Some d \<in> set (xs[i := None])"
  then obtain j where j: "j < length xs" "xs[i := None] ! j = Some d" by (auto simp: in_set_conv_nth)
  then have "j \<noteq> i" by auto
  with j show "Some d \<in> set xs \<and> d \<noteq> e" using assms(3) [of j] by (auto simp: in_set_conv_nth)
next
  assume d: "Some d \<in> set xs \<and> d \<noteq> e"
  then obtain j where j: "j < length xs" "xs ! j = Some d" unfolding in_set_conv_nth by blast
  moreover have "j \<noteq> i" using j d assms(2) by auto
  ultimately show "Some d \<in> set (xs[i := None])" by (metis length_list_update nth_list_update_neq nth_mem)
qed

lemma set_fill:
  assumes "i < length xs" "xs ! i = None"
  shows "Some d \<in> set (xs[i := Some e]) \<longleftrightarrow> d = e \<or> Some d \<in> set xs"
proof
  assume "Some d \<in> set (xs[i := Some e])"
  then show "d = e \<or> Some d \<in> set xs" using set_update_subset_insert [of xs i "Some e"] by auto
next
  assume "d = e \<or> Some d \<in> set xs"
  then show "Some d \<in> set (xs[i := Some e])"
  proof
    assume "Some d \<in> set xs"
    then obtain j where j: "j < length xs" "xs ! j = Some d" unfolding in_set_conv_nth by blast
    then have "j \<noteq> i" using assms(2) by auto
    with j show ?thesis by (metis length_list_update nth_list_update_neq nth_mem)
  qed (use assms(1) in \<open>simp add: set_update_memI\<close>)
qed

text \<open>Removing a destination: by a hole while a reader is active, else by the last destination.\<close>

lemma remove_active:
  assumes "rl_inv l" "RL_list l = Some xs" "i < length xs" "xs ! i = Some dest" "RL_activeGet l"
  shows "\<exists>l'. removeRoutesFromRouteList dest l = Inr l' \<and> rl_inv l' \<and> dests l' = dests l - {dest}"
proof -
  have pos: "\<And>j d. j < length xs \<Longrightarrow> xs ! j = Some d \<Longrightarrow> RL_idx l d = int j" using assms(1,2) by (simp add: rl_inv_def)
  have uniq: "j = i" if "j < length xs" "xs ! j = Some dest" for j using pos [OF that] pos [OF assms(3,4)] by simp
  show ?thesis
    using assms pos set_hole [OF assms(3,4) uniq]
    by (auto simp: removeRoutesFromRouteList_def index_int_def rl_inv_def dests_def nth_list_update)
qed

lemma remove_inactive:
  assumes "rl_inv l" "RL_list l = Some xs" "i < length xs" "xs ! i = Some dest" "\<not> RL_activeGet l"
  shows "\<exists>l'. removeRoutesFromRouteList dest l = Inr l' \<and> rl_inv l' \<and> dests l' = dests l - {dest}"
proof -
  have pos: "\<And>j d. j < length xs \<Longrightarrow> xs ! j = Some d \<Longrightarrow> RL_idx l d = int j" using assms(1,2) by (simp add: rl_inv_def)
  have hole: "None \<notin> set xs" using assms(1,2,5) by (simp add: rl_inv_def)
  have ne: "xs \<noteq> []" using assms(3) by auto
  obtain e where e: "last xs = Some e" using hole last_in_set [OF ne] by (cases "last xs") auto
  have dist: "distinct xs"
    unfolding distinct_conv_nth using pos hole by (metis not_None_eq nth_mem of_nat_eq_iff)
  define zs where "zs = butlast (xs[i := Some e])"
  have zs: "set zs = set xs - {Some dest}" using swap_remove_set [OF dist assms(3)] by (simp add: zs_def e assms(4))
  have nth: "zs ! j = (if j = i then Some e else xs ! j)" if "j < length zs" for j
    using butlast_update_nth [OF assms(3), of j] that by (simp add: zs_def e)
  have run: "removeRoutesFromRouteList dest l = Inr (l\<lparr>RL_list := Some zs, RL_idx := (RL_idx l)(e := int i)\<rparr>)"
    using assms pos [OF assms(3,4)] e by (simp add: removeRoutesFromRouteList_def index_int_def zs_def)
  have "((RL_idx l)(e := int i)) d = int j" if j: "j < length zs" "zs ! j = Some d" for j d
  proof (cases "j = i")
    case False
    then have d: "xs ! j = Some d" "j < length xs - 1" using nth [OF j(1)] j by (auto simp: zs_def)
    have "xs ! j \<noteq> xs ! (length xs - 1)" using d(2) dist ne by (simp add: nth_eq_iff_index_eq)
    then have "d \<noteq> e" using e d(1) ne by (auto simp: last_conv_nth)
    then show ?thesis using pos [of j d] d by simp
  qed (use nth [OF j(1)] j in simp)
  moreover have "None \<notin> set zs" using zs hole by simp
  ultimately have "rl_inv (l\<lparr>RL_list := Some zs, RL_idx := (RL_idx l)(e := int i)\<rparr>)" by (simp add: rl_inv_def)
  then show ?thesis using run assms(2) zs by (auto simp: dests_def)
qed

lemma remove_inv:
  assumes "rl_inv l" "dest \<in> dests l"
  shows "\<exists>l'. removeRoutesFromRouteList dest l = Inr l' \<and> rl_inv l' \<and> dests l' = dests l - {dest}"
proof -
  obtain xs i where "RL_list l = Some xs" "i < length xs" "xs ! i = Some dest"
    using assms(2) by (auto simp: dests_def in_set_conv_nth split: option.splits)
  then show ?thesis using remove_active remove_inactive assms(1) by (cases "RL_activeGet l") blast+
qed

section \<open>Compaction\<close>

lemma last_used_spec:
  assumes "m = last_used xs idx lastIdx" "idx \<le> lastIdx"
  shows "idx \<le> m \<and> m \<le> lastIdx \<and> (idx < m \<longrightarrow> xs ! m \<noteq> None) \<and> (\<forall>j. m < j \<and> j \<le> lastIdx \<longrightarrow> xs ! j = None)"
  using assms
proof (induction lastIdx arbitrary: m)
  case (Suc k)
  show ?case
  proof (cases "Suc k > idx \<and> xs ! Suc k = None")
    case True
    with Suc.IH [of m] Suc.prems show ?thesis by (auto simp: le_Suc_eq)
  next
    case False
    with Suc.prems show ?thesis by auto
  qed
qed auto

text \<open>
  Compacting: everything above \<open>lastIdx\<close> is unused. The result has no holes, holds the destinations that were there, and they know
  their new places.
\<close>

definition compact_inv :: "nat \<Rightarrow> nat \<Rightarrow> nat option list \<Rightarrow> (nat \<Rightarrow> int) \<Rightarrow> bool" where
  "compact_inv idx lastIdx xs pos \<longleftrightarrow>
     (\<forall>i < length xs. \<forall>d. xs ! i = Some d \<longrightarrow> pos d = int i) \<and> (\<forall>i < idx. i < length xs \<longrightarrow> xs ! i \<noteq> None) \<and>
     (\<forall>i < length xs. i > lastIdx \<longrightarrow> xs ! i = None) \<and> (xs \<noteq> [] \<longrightarrow> lastIdx < length xs)"

definition compacted :: "nat option list \<Rightarrow> nat option list \<Rightarrow> (nat \<Rightarrow> int) \<Rightarrow> bool" where
  "compacted xs ys pos \<longleftrightarrow>
     None \<notin> set ys \<and> {d. Some d \<in> set ys} = {d. Some d \<in> set xs} \<and> (\<forall>i < length ys. \<forall>d. ys ! i = Some d \<longrightarrow> pos d = int i)"

lemma compact_stop:
  assumes inv: "compact_inv idx lastIdx xs pos" and rest: "\<And>j. idx \<le> j \<Longrightarrow> j < length xs \<Longrightarrow> xs ! j = None"
  shows "compacted xs (take idx xs) pos"
proof -
  have "Some d \<in> set (take idx xs)" if in_xs: "Some d \<in> set xs" for d
  proof -
    obtain j where j: "j < length xs" "xs ! j = Some d" using in_xs unfolding in_set_conv_nth by blast
    then have "j < idx" using rest [of j] by (cases "idx \<le> j") auto
    then show ?thesis using j by (metis in_set_conv_nth length_take min_less_iff_conj nth_take)
  qed
  moreover have "None \<notin> set (take idx xs)" using inv by (auto simp: compact_inv_def in_set_conv_nth)
  moreover have "Some d \<in> set xs" if "Some d \<in> set (take idx xs)" for d using that by (rule in_set_takeD)
  ultimately show ?thesis using inv by (auto simp: compacted_def compact_inv_def)
qed

lemma compact_move:
  assumes inv: "compact_inv idx lastIdx xs pos" and idx: "idx < m" "xs ! idx = None"
    and m: "m < length xs" "xs ! m = Some e" "\<And>j. m < j \<Longrightarrow> j \<le> lastIdx \<Longrightarrow> xs ! j = None"
  defines "zs \<equiv> xs[idx := Some e, m := None]"
  shows "compact_inv (idx + 1) m zs (pos(e := int idx))" "{d. Some d \<in> set zs} = {d. Some d \<in> set xs}"
proof -
  have pos: "pos d = int j" if "j < length xs" "xs ! j = Some d" for j d using inv that by (simp add: compact_inv_def)
  have uniq: "j = m" if "j < length xs" "xs ! j = Some e" for j using pos [OF that] pos [OF m(1,2)] by simp
  have nth: "zs ! j = (if j = m then None else if j = idx then Some e else xs ! j)" if "j < length xs" for j
    using that idx by (simp add: zs_def nth_list_update)
  have len: "length zs = length xs" by (simp add: zs_def)
  have "(pos(e := int idx)) d = int j" if "j < length zs" "zs ! j = Some d" for j d
    using that nth [of j] pos [of j d] uniq [of j] len by (auto split: if_splits)
  moreover have "zs ! j \<noteq> None" if "j < idx + 1" "j < length zs" for j
    using that nth [of j] inv idx len by (auto simp: compact_inv_def split: if_splits)
  moreover have "zs ! j = None" if "j < length zs" "j > m" for j
    using that nth [of j] inv m(3) [of j] len idx by (cases "j \<le> lastIdx") (auto simp: compact_inv_def)
  ultimately show "compact_inv (idx + 1) m zs (pos(e := int idx))" using m(1) len by (simp add: compact_inv_def)
  have "zs = xs[m := None, idx := Some e]" using idx(1) by (simp add: zs_def list_update_swap)
  then show "{d. Some d \<in> set zs} = {d. Some d \<in> set xs}"
    using set_hole [OF m(1,2) uniq] set_fill [of idx "xs[m := None]"] idx m(1,2) nth_mem [OF m(1)] by auto
qed

lemma compact_spec:
  "compact_inv idx lastIdx xs pos \<Longrightarrow> compact idx lastIdx xs pos = (ys, pos') \<Longrightarrow> compacted xs ys pos'"
proof (induction idx lastIdx xs pos rule: compact.induct)
  case (1 idx lastIdx xs pos)
  note inv = "1.prems"(1)
  define m where "m = last_used xs idx lastIdx"
  consider (done_) "\<not> idx < length xs" | (used) "idx < length xs" "xs ! idx \<noteq> None"
    | (stop) "idx < length xs" "xs ! idx = None" "m \<le> idx" | (go) "idx < length xs" "xs ! idx = None" "\<not> m \<le> idx" by blast
  then show ?case
  proof cases
    case done_
    with "1.prems"(2) compact_stop [OF inv] show ?thesis by (simp add: compact.simps [of idx])
  next
    case used
    have "compact_inv (idx + 1) lastIdx xs pos" using inv used by (auto simp: compact_inv_def less_Suc_eq)
    then show ?thesis using "1.IH"(2) [OF used] "1.prems"(2) used by (simp add: compact.simps [of idx])
  next
    case stop
    have "xs ! j = None" if "idx \<le> j" "j < length xs" for j
    proof (cases "j \<le> lastIdx")
      case True
      with that last_used_spec [OF m_def] stop show ?thesis by (cases "j = idx") auto
    qed (use that inv in \<open>simp add: compact_inv_def\<close>)
    with compact_stop [OF inv] "1.prems"(2) stop show ?thesis by (simp add: compact.simps [of idx] m_def)
  next
    case go
    have "last_used xs idx lastIdx \<le> lastIdx" by (induction lastIdx) auto
    then have le: "idx \<le> lastIdx" using go(3) by (simp add: m_def)
    note sp = last_used_spec [OF m_def le]
    obtain e where e: "xs ! m = Some e" using sp go(3) by (cases "xs ! m") auto
    have mlt: "m < length xs" using sp inv go(1) by (auto simp: compact_inv_def)
    have step: "compact_inv (idx + 1) m (xs[idx := Some e, m := None]) (pos(e := int idx))"
      "{d. Some d \<in> set (xs[idx := Some e, m := None])} = {d. Some d \<in> set xs}"
      using compact_move [OF inv _ go(2) mlt e] sp go(3) by auto
    have "compacted (xs[idx := Some e, m := None]) ys pos'"
      using "1.IH"(1) [OF go(1,2) m_def go(3) e step(1)] "1.prems"(2) go e
      by (simp add: compact.simps [of idx] m_def [symmetric] fun_upd_def)
    then show ?thesis using step(2) by (simp add: compacted_def)
  qed
qed

lemma ResetRouteList_inv:
  assumes "rl_inv l"
  shows "rl_inv (ResetRouteList l)" "dests (ResetRouteList l) = dests l" "\<not> RL_activeGet (ResetRouteList l)"
proof -
  have "rl_inv (ResetRouteList l) \<and> dests (ResetRouteList l) = dests l \<and> \<not> RL_activeGet (ResetRouteList l)"
  proof (cases "RL_dirty l")
    case False
    with assms show ?thesis by (auto simp: ResetRouteList_def Let_def rl_inv_def dests_def split: option.splits)
  next
    case True
    show ?thesis
    proof (cases "RL_list l")
      case None
      with True assms show ?thesis by (simp add: rl_inv_def)
    next
      case (Some xs)
      obtain ys pos where c: "compact 0 (length xs - 1) xs (RL_idx l) = (ys, pos)" by (cases "compact 0 (length xs - 1) xs (RL_idx l)")
      have "compact_inv 0 (length xs - 1) xs (RL_idx l)" using assms Some by (auto simp: rl_inv_def compact_inv_def)
      from compact_spec [OF this c] True Some c show ?thesis
        by (simp add: ResetRouteList_def Let_def rl_inv_def dests_def compacted_def)
    qed
  qed
  then show "rl_inv (ResetRouteList l)" "dests (ResetRouteList l) = dests l" "\<not> RL_activeGet (ResetRouteList l)" by auto
qed

lemma BulkGetBGPRoutes_inv:
  assumes "rl_inv l" "BulkGetBGPRoutes shown index limit l = (l', i, res)"
  shows "rl_inv l'" "dests l' = dests l"
proof -
  have act: "rl_inv (k\<lparr>RL_activeGet := True\<rparr>)" "dests (k\<lparr>RL_activeGet := True\<rparr>) = dests k" if "rl_inv k" "RL_list k \<noteq> None" for k
    using that by (auto simp: rl_inv_def dests_def)
  have "RL_list (ResetRouteList l) \<noteq> None" if "RL_list l \<noteq> None"
    using that by (auto simp: ResetRouteList_def Let_def split: prod.splits)
  then show "rl_inv l'" "dests l' = dests l"
    using assms act [of l] act [of "ResetRouteList l"] ResetRouteList_inv [OF assms(1)]
    by (auto simp: BulkGetBGPRoutes_def Let_def split: option.splits prod.splits if_splits)
qed

section \<open>Paging\<close>

definition entries :: "(nat \<Rightarrow> bool) \<Rightarrow> nat option list \<Rightarrow> nat list" where
  "entries shown xs = [d. Some d \<leftarrow> xs, shown d]"

lemma entries_simps [simp]:
  "entries shown [] = []"
  "entries shown (x # xs) = (case x of Some d \<Rightarrow> if shown d then [d] else [] | None \<Rightarrow> []) @ entries shown xs"
  "entries shown (xs @ ys) = entries shown xs @ entries shown ys"
  by (simp_all add: entries_def split: option.split)

lemma bulk_loop_spec:
  assumes "bulk_loop shown limit xs i acc = (j, res)"
  shows "i \<le> j \<and> j \<le> i + length xs \<and> res = acc @ entries shown (take (j - i) xs) \<and> (length acc < limit \<and> xs \<noteq> [] \<longrightarrow> i < j)"
  using assms
proof (induction xs arbitrary: i acc)
  case (Cons x xs)
  show ?case
  proof (cases "length acc < limit")
    case True
    let ?acc = "case x of Some d \<Rightarrow> if shown d then acc @ [d] else acc | None \<Rightarrow> acc"
    have IH: "i + 1 \<le> j \<and> j \<le> i + 1 + length xs \<and> res = ?acc @ entries shown (take (j - (i + 1)) xs)"
      using Cons.IH [of "i + 1" ?acc] Cons.prems True by simp
    then obtain k where "j - i = Suc k" "j - (i + 1) = k" by (cases "j - i") auto
    with IH show ?thesis by (auto split: option.splits)
  qed (use Cons.prems in auto)
qed auto

text \<open>A reader that follows the returned indices until it gets 0, the list not changing meanwhile.\<close>

fun read_pages :: "nat \<Rightarrow> (nat \<Rightarrow> bool) \<Rightarrow> nat \<Rightarrow> nat \<Rightarrow> route_list \<Rightarrow> nat list option" where
  "read_pages 0 shown index limit l = None"
| "read_pages (Suc fuel) shown index limit l =
     (let (l, i, res) = BulkGetBGPRoutes shown index limit l in
      if i = 0 then Some res else map_option (\<lambda>rest. res @ rest) (read_pages fuel shown i limit l))"

lemma read_pages_from:
  assumes "RL_list l = Some xs" "RL_activeGet l" "limit > 0" "length xs - index < fuel" "index \<noteq> 0"
  shows "read_pages fuel shown index limit l = Some (entries shown (drop index xs))"
  using assms
proof (induction fuel arbitrary: index)
  case (Suc fuel)
  obtain j res where run: "bulk_loop shown limit (drop index xs) index [] = (j, res)" by (cases "bulk_loop shown limit (drop index xs) index []")
  note sp = bulk_loop_spec [OF run]
  have act: "l\<lparr>RL_activeGet := True\<rparr> = l" using Suc.prems(2) by (cases l) simp
  have bulk: "BulkGetBGPRoutes shown index limit l = (l, if j \<ge> length xs then 0 else j, res)"
    using Suc.prems run act by (simp add: BulkGetBGPRoutes_def Let_def)
  show ?case
  proof (cases "j \<ge> length xs")
    case True
    have "take (j - index) (drop index xs) = drop index xs" using True by simp
    with True bulk sp show ?thesis by simp
  next
    case False
    have "drop index xs \<noteq> []" using sp False by auto
    then have "index < j" using sp Suc.prems(3) by auto
    then have "read_pages fuel shown j limit l = Some (entries shown (drop j xs))"
      using Suc.IH [of j] Suc.prems False by simp
    moreover have "entries shown (drop index xs) = entries shown (take (j - index) (drop index xs)) @ entries shown (drop j xs)"
      using \<open>index < j\<close> by (simp flip: entries_simps(3) add: drop_drop [symmetric]) (metis append_take_drop_id drop_drop le_add_diff_inverse2 less_imp_le)
    ultimately show ?thesis using bulk False \<open>index < j\<close> sp by simp
  qed
qed simp


text \<open>Reading all pages from index 0 ends and gives every destination with paths exactly once.\<close>

lemma entries_distinct:
  assumes "\<And>i d. i < length xs \<Longrightarrow> xs ! i = Some d \<Longrightarrow> pos d = int i"
  shows "distinct (entries shown xs) \<and> set (entries shown xs) = {d. Some d \<in> set xs \<and> shown d}"
  using assms
proof (induction xs rule: rev_induct)
  case (snoc x xs)
  have IH: "distinct (entries shown xs)" "set (entries shown xs) = {d. Some d \<in> set xs \<and> shown d}"
    using snoc.IH snoc.prems by (auto simp: nth_append)
  have "x \<notin> set xs" if x: "x = Some d" for d
  proof
    assume "x \<in> set xs"
    then obtain i where i: "i < length xs" "xs ! i = Some d" using x by (auto simp: in_set_conv_nth)
    then have "pos d = int i" using snoc.prems [of i d] by (simp add: nth_append)
    moreover have "pos d = int (length xs)" using snoc.prems [of "length xs" d] x by simp
    ultimately show False using i(1) by simp
  qed
  with IH show ?case by (cases x) auto
qed simp

lemma read_pages_all:
  assumes inv: "rl_inv l" and "RL_list l \<noteq> None" "limit > 0"
  shows "\<exists>fuel res. read_pages fuel shown 0 limit l = Some res \<and> distinct res \<and> set res = {d \<in> dests l. shown d}"
proof -
  define l1 where "l1 = (if RL_activeGet l then ResetRouteList l else l)\<lparr>RL_activeGet := True\<rparr>"
  have "rl_inv (if RL_activeGet l then ResetRouteList l else l)" "dests l1 = dests l"
    using inv ResetRouteList_inv [OF inv] by (simp_all add: l1_def dests_def)
  moreover have "RL_list (ResetRouteList l) \<noteq> None" using assms(2) by (auto simp: ResetRouteList_def Let_def split: prod.splits)
  ultimately obtain xs where xs: "RL_list l1 = Some xs" "\<And>i d. i < length xs \<Longrightarrow> xs ! i = Some d \<Longrightarrow> RL_idx l1 d = int i" "dests l1 = dests l"
    using assms(2) by (cases "RL_list l1") (auto simp: l1_def rl_inv_def split: if_splits)
  have ent: "distinct (entries shown xs)" "set (entries shown xs) = {d \<in> dests l. shown d}"
    using entries_distinct [of xs "RL_idx l1" shown] xs by (auto simp: dests_def)
  obtain j res where run: "bulk_loop shown limit xs 0 [] = (j, res)" by (cases "bulk_loop shown limit xs 0 []")
  note sp = bulk_loop_spec [OF run]
  have bulk: "BulkGetBGPRoutes shown 0 limit l = (l1, if j \<ge> length xs then 0 else j, res)"
    using assms(2) run xs(1) by (auto simp: BulkGetBGPRoutes_def Let_def l1_def)
  have "read_pages (Suc (Suc (length xs))) shown 0 limit l = Some (entries shown xs)"
  proof (cases "j \<ge> length xs")
    case True
    with bulk sp show ?thesis by simp
  next
    case False
    then have "0 < j" using sp assms(3) by auto
    then have "read_pages (Suc (length xs)) shown j limit l1 = Some (entries shown (drop j xs))"
      using xs(1) assms(3) by (intro read_pages_from) (auto simp: l1_def)
    moreover have "entries shown xs = entries shown (take j xs) @ entries shown (drop j xs)" by (simp flip: entries_simps(3))
    ultimately show ?thesis using bulk False \<open>0 < j\<close> sp by simp
  qed
  with ent show ?thesis by blast
qed

end
