(* ===== verification/IpText.thy ===== *)
theory IpText
  imports Nlri
begin

text \<open>
  Addresses and prefixes as text: \<open>net.IP.String\<close> and \<open>strconv.Itoa\<close> of the Go library as far as the routing table uses them for the
  keys of its maps, and \<open>GetCIDR\<close> of bgp/packet/bgp.go. IPv4 prefixes with different addresses or lengths have different texts.
\<close>

section \<open>Numbers\<close>

fun decimal :: "nat \<Rightarrow> string" where
  "decimal n = (if n < 10 then [char_of (48 + n)] else decimal (n div 10) @ [char_of (48 + n mod 10)])"

declare decimal.simps [simp del]

definition hex_digit :: "nat \<Rightarrow> char" where
  "hex_digit n = (if n < 10 then char_of (48 + n) else char_of (87 + n))"

fun hexadecimal :: "nat \<Rightarrow> string" where
  "hexadecimal n = (if n < 16 then [hex_digit n] else hexadecimal (n div 16) @ [hex_digit (n mod 16)])"

declare hexadecimal.simps [simp del]

section \<open>Addresses\<close>

definition dotted :: "bytes \<Rightarrow> string" where
  "dotted ip = concat (map (\<lambda>b. decimal (unat b) @ ''.'') (butlast ip)) @ decimal (unat (last ip))"

fun groups16 :: "bytes \<Rightarrow> nat list" where
  "groups16 (a # b # ip) = (256 * unat a + unat b) # groups16 ip"
| "groups16 _ = []"

text \<open>The longest run of zero groups, the first one of several; an empty run when there is none.\<close>

function longest_run :: "nat list \<Rightarrow> nat \<Rightarrow> nat \<times> nat \<Rightarrow> nat \<times> nat" where
  "longest_run gs i (e0, e1) =
     (if i < length gs then
        let n = length (takeWhile (\<lambda>g. g = 0) (drop i gs)) in
        if n > 0 \<and> n > e1 - e0 then longest_run gs (Suc (i + n)) (i, i + n) else longest_run gs (Suc i) (e0, e1)
      else (e0, e1))"
  by pat_completeness auto

termination longest_run
  by (relation "measure (\<lambda>(gs, i, _). length gs - i)") auto

declare longest_run.simps [simp del]

fun colons :: "nat list \<Rightarrow> string" where
  "colons [] = ''''"
| "colons [g] = hexadecimal g"
| "colons (g # gs) = hexadecimal g @ '':'' @ colons gs"

definition ipv6_text :: "bytes \<Rightarrow> string" where
  "ipv6_text ip =
     (let gs = groups16 ip; (e0, e1) = longest_run gs 0 (0, 0)
      in if e1 - e0 \<le> 1 then colons gs else colons (take e0 gs) @ ''::'' @ colons (drop e1 gs))"

definition IP_String :: "bytes \<Rightarrow> string" where
  "IP_String ip =
     (if ip = [] then ''<nil>''
      else if length (To4 ip) = 4 then dotted (To4 ip)
      else if length ip \<noteq> 16 then ''?'' @ concat (map (\<lambda>b. [hex_digit (unat b div 16), hex_digit (unat b mod 16)]) ip)
      else ipv6_text ip)"

fun nlri_prefix :: "NLRI \<Rightarrow> IPPrefix" where
  "nlri_prefix (PlainNLRI ip) = ip"
| "nlri_prefix (PathNLRI n) = Ext_IPPrefix n"

definition GetCIDR :: "IPPrefix \<Rightarrow> string" where
  "GetCIDR ip = IP_String (Prefix ip) @ ''/'' @ decimal (unat (Length ip))"

lemma decimal_nonempty [simp]: "decimal n \<noteq> []"
  by (simp add: decimal.simps)

lemma hexadecimal_nonempty [simp]: "hexadecimal n \<noteq> []"
  by (simp add: hexadecimal.simps)

lemma colons_empty [simp]: "colons gs = [] \<longleftrightarrow> gs = []"
  by (cases gs rule: colons.cases) simp_all

lemma IP_String_nonempty: "IP_String ip \<noteq> []"
proof -
  have "groups16 ip \<noteq> []" if "length ip = 16" using that by (cases ip rule: groups16.cases) simp_all
  then show ?thesis by (auto simp: IP_String_def dotted_def ipv6_text_def Let_def split: prod.splits)
qed

section \<open>Different prefixes have different texts\<close>

fun undecimal :: "nat \<Rightarrow> string \<Rightarrow> nat" where
  "undecimal n [] = n"
| "undecimal n (c # cs) = undecimal (10 * n + (of_char c - 48)) cs"

lemma undecimal_append: "undecimal n (xs @ [c]) = 10 * undecimal n xs + (of_char c - 48)"
  by (induction xs arbitrary: n) auto

lemma undecimal_decimal: "undecimal 0 (decimal n) = n"
proof (induction n rule: decimal.induct)
  case (1 n)
  show ?case
  proof (cases "n < 10")
    case True
    then show ?thesis by (simp add: decimal.simps [of n])
  next
    case False
    with 1 show ?thesis by (simp add: decimal.simps [of n] undecimal_append)
  qed
qed

lemma decimal_inj: "decimal a = decimal b \<Longrightarrow> a = b"
  by (metis undecimal_decimal)

lemma decimal_digits: "c \<in> set (decimal n) \<Longrightarrow> 48 \<le> (of_char c :: nat) \<and> (of_char c :: nat) \<le> 57"
proof (induction n rule: decimal.induct)
  case (1 n)
  then show ?case by (cases "n < 10") (auto simp: decimal.simps [of n])
qed

lemma decimal_no_sep: "CHR ''.'' \<notin> set (decimal n)" "CHR ''/'' \<notin> set (decimal n)"
  using decimal_digits by fastforce+

lemma split_at_sep:
  assumes "xs @ s # ys = xs' @ s # ys'" "s \<notin> set xs" "s \<notin> set xs'"
  shows "xs = xs' \<and> ys = ys'"
  using assms
proof (induction xs arbitrary: xs')
  case Nil
  then show ?case by (cases xs') auto
next
  case (Cons x xs)
  then show ?case by (cases xs') auto
qed

lemma dotted_four: "dotted [a, b, c, d] =
    decimal (unat a) @ CHR ''.'' # decimal (unat b) @ CHR ''.'' # decimal (unat c) @ CHR ''.'' # decimal (unat d)"
  by (simp add: dotted_def)

theorem GetCIDR_inj:
  assumes "length (Prefix p) = 4" "length (Prefix q) = 4" "GetCIDR p = GetCIDR q"
  shows "Prefix p = Prefix q \<and> Length p = Length q"
proof -
  obtain a b c d where p: "Prefix p = [a, b, c, d]" using assms(1) by (auto simp: eval_nat_numeral length_Suc_conv)
  obtain a' b' c' d' where q: "Prefix q = [a', b', c', d']" using assms(2) by (auto simp: eval_nat_numeral length_Suc_conv)
  have cidr: "GetCIDR r = decimal (unat w) @ CHR ''.'' # decimal (unat x) @ CHR ''.'' # decimal (unat y) @ CHR ''.'' #
      decimal (unat z) @ CHR ''/'' # decimal (unat (Length r))" if "Prefix r = [w, x, y, z]" for r w x y z
    using that by (simp add: GetCIDR_def IP_String_def To4_def dotted_four)
  from assms(3) have "decimal (unat a) = decimal (unat a') \<and> decimal (unat b) = decimal (unat b') \<and> decimal (unat c) = decimal (unat c') \<and>
      decimal (unat d) = decimal (unat d') \<and> decimal (unat (Length p)) = decimal (unat (Length q))"
    unfolding cidr [OF p] cidr [OF q] using decimal_no_sep by (metis split_at_sep)
  then show ?thesis unfolding p q using decimal_inj by (metis unsigned_word_eqI)
qed

end
