(* ===== verification/LocRib.thy ===== *)
theory LocRib
  imports DestInv RouteList IpText
begin

text \<open>
  The local routing table (bgp/rib/rib.go): the destinations of every address family by their prefixes, the next hops known to
  be reachable, the paths that wait for their next hop, and the processing of announced and withdrawn routes.

  Pointers to destinations and paths are numbers into \<open>L_dests\<close> and \<open>L_paths\<close>; a path that only lends its neighbour, \<open>remPath\<close>, is passed by
  value. Maps that the code iterates over are association lists. Updates of the state database are a log. The prefix counter of a
  neighbour (bgp/baseobjects/neighbor.go) is kept under its address. The answer of the route daemon about a next hop is a parameter.
\<close>

section \<open>State\<close>

record prefix_count =
  PC_TotalPrefixes :: u32
  PC_MaxPrefixes :: u32

datatype db_op = AddObject nat | UpdateObject nat | DeleteObject nat

record rib_env =
  E_runtime :: runtime
  E_conf :: rib_conf
  E_GetNextHopInfo :: "string \<Rightarrow> ReachabilityInfo option"

record LocRib =
  L_destPathMap :: "(u32 \<times> (string \<times> nat) list) list"
  L_reachabilityMap :: "string \<rightharpoonup> ReachabilityInfo"
  L_unreachablePaths :: "(string \<times> (nat \<times> (nat \<times> u32 list) list) list) list"
  L_routesCount :: "u32 \<rightharpoonup> u32"
  L_routeList :: "u32 \<Rightarrow> route_list"
  L_dests :: "nat \<Rightarrow> Destination"
  L_next :: nat
  L_paths :: "nat \<Rightarrow> Path"
  L_prefixes :: "bytes \<Rightarrow> prefix_count"
  L_db :: "db_op list"

definition NewLocRib :: "(nat \<Rightarrow> Path) \<Rightarrow> (bytes \<Rightarrow> prefix_count) \<Rightarrow> LocRib" where
  "NewLocRib ph pc =
     \<lparr>L_destPathMap = [], L_reachabilityMap = Map.empty, L_unreachablePaths = [], L_routesCount = Map.empty,
      L_routeList = (\<lambda>_. NewRouteList), L_dests = (\<lambda>_. NewDestination \<lparr>Length = 0, Prefix = []\<rparr> 0), L_next = 0, L_paths = ph,
      L_prefixes = pc, L_db = []\<rparr>"

text \<open>What the server has to tell its peers.\<close>

record rib_out =
  RO_updated :: "(u32 \<times> (nat option \<times> nat list) list) list"
  RO_withdrawn :: "nat list"
  RO_updatedAddPaths :: "nat list"

definition no_out :: rib_out where
  "no_out = \<lparr>RO_updated = [], RO_withdrawn = [], RO_updatedAddPaths = []\<rparr>"

section \<open>Prefix counters\<close>

definition CanAcceptNewPrefix :: "prefix_count \<Rightarrow> bool" where
  "CanAcceptNewPrefix n \<longleftrightarrow> \<not> (PC_MaxPrefixes n > 0 \<and> PC_TotalPrefixes n \<ge> PC_MaxPrefixes n)"

definition IncrPrefixCount :: "prefix_count \<Rightarrow> prefix_count" where
  "IncrPrefixCount n = n\<lparr>PC_TotalPrefixes := PC_TotalPrefixes n + 1\<rparr>"

definition DecrPrefixCount :: "prefix_count \<Rightarrow> prefix_count" where
  "DecrPrefixCount n = n\<lparr>PC_TotalPrefixes := PC_TotalPrefixes n - 1\<rparr>"

definition SetPrefixCount :: "u32 \<Rightarrow> prefix_count \<Rightarrow> prefix_count" where
  "SetPrefixCount limit n = n\<lparr>PC_TotalPrefixes := 0\<rparr>"

definition on_neighbor :: "NeighborConf \<Rightarrow> (prefix_count \<Rightarrow> prefix_count) \<Rightarrow> LocRib \<Rightarrow> LocRib" where
  "on_neighbor n f l = l\<lparr>L_prefixes := (L_prefixes l)(N_NeighborAddress n := f (L_prefixes l (N_NeighborAddress n)))\<rparr>"

section \<open>Destinations\<close>

definition isIpInList :: "NLRI list \<Rightarrow> NLRI \<Rightarrow> bool" where
  "isIpInList prefixes ip \<longleftrightarrow>
     list_ex (\<lambda>nlri. GetPathId nlri = GetPathId ip \<and> IP_Equal (Prefix (nlri_prefix nlri)) (Prefix (nlri_prefix ip))) prefixes"

definition GetReachabilityInfo :: "rib_env \<Rightarrow> string \<Rightarrow> LocRib \<Rightarrow> LocRib \<times> ReachabilityInfo option" where
  "GetReachabilityInfo E ipStr l =
     (case L_reachabilityMap l ipStr of
        Some info \<Rightarrow> (l, Some info)
      | None \<Rightarrow> (case E_GetNextHopInfo E ipStr of
          None \<Rightarrow> (l, None)
        | Some r \<Rightarrow>
            let nextHop = (if RI_NextHop r = [] \<or> hd (RI_NextHop r) = CHR ''0'' \<or> RI_NextHop r = ''::'' then ipStr else RI_NextHop r);
                info = NewReachabilityInfo nextHop (RI_NextHopIfType r) (RI_NextHopIfIdx r) (RI_Metric r)
            in (l\<lparr>L_reachabilityMap := (L_reachabilityMap l)(ipStr \<mapsto> info)\<rparr>, Some info)))"

definition family_dests :: "u32 \<Rightarrow> LocRib \<Rightarrow> (string \<times> nat) list" where
  "family_dests fam l = (case map_of (L_destPathMap l) fam of Some m \<Rightarrow> m | None \<Rightarrow> [])"

definition GetDestFromIPAndLen :: "u32 \<Rightarrow> string \<Rightarrow> LocRib \<Rightarrow> nat option" where
  "GetDestFromIPAndLen protoFamily ip l =
     (case map_of (L_destPathMap l) protoFamily of Some m \<Rightarrow> map_of m ip | None \<Rightarrow> None)"

text \<open>A new destination enters the map, the list and the count of its family.\<close>

definition create_dest :: "IPPrefix \<Rightarrow> u32 \<Rightarrow> LocRib \<Rightarrow> LocRib \<times> nat" where
  "create_dest ip fam l =
     (let d = L_next l in
      (l\<lparr>L_dests := (L_dests l)(d := NewDestination ip fam), L_next := Suc d,
         L_destPathMap := AList.update fam (AList.update (GetCIDR ip) d (family_dests fam l)) (L_destPathMap l),
         L_routeList := (L_routeList l)(fam := addRoutesToRouteList d (L_routeList l fam)),
         L_routesCount := (L_routesCount l)(fam \<mapsto> (case L_routesCount l fam of Some n \<Rightarrow> n | None \<Rightarrow> 0) + 1)\<rparr>, d))"

definition GetDest :: "NLRI \<Rightarrow> u32 \<Rightarrow> bool \<Rightarrow> LocRib \<Rightarrow> LocRib \<times> nat option \<times> bool" where
  "GetDest nlri fam createIfNotExist l =
     (case map_of (family_dests fam l) (GetCIDR (nlri_prefix nlri)) of
        Some d \<Rightarrow> (l, Some d, True)
      | None \<Rightarrow> if createIfNotExist then let (l, d) = create_dest (nlri_prefix nlri) fam l in (l, Some d, False)
                else (l, None, False))"

definition remove_dest :: "u32 \<Rightarrow> string \<Rightarrow> nat \<Rightarrow> LocRib \<Rightarrow> LocRib pres" where
  "remove_dest fam key d l =
     bind_r (removeRoutesFromRouteList d (L_routeList l fam)) (\<lambda>rl.
     Inr (l\<lparr>L_routeList := (L_routeList l)(fam := rl),
            L_destPathMap := AList.update fam (AList.delete key (family_dests fam l)) (L_destPathMap l),
            L_routesCount := (L_routesCount l)(fam \<mapsto> (case L_routesCount l fam of Some n \<Rightarrow> n | None \<Rightarrow> 0) - 1)\<rparr>))"

definition set_dest :: "nat \<Rightarrow> Destination \<Rightarrow> LocRib \<Rightarrow> LocRib" where
  "set_dest d D l = l\<lparr>L_dests := (L_dests l)(d := D)\<rparr>"

definition log_db :: "db_op \<Rightarrow> LocRib \<Rightarrow> LocRib" where
  "log_db x l = l\<lparr>L_db := L_db l @ [x]\<rparr>"

definition updateRibOutInfo :: "selection \<Rightarrow> nat \<Rightarrow> Destination \<Rightarrow> rib_out \<Rightarrow> rib_out" where
  "updateRibOutInfo s dest D out =
     (if S_locRibAction s = RouteActionAdd \<or> S_locRibAction s = RouteActionReplace then
        let m = (case map_of (RO_updated out) (D_protoFamily D) of Some m \<Rightarrow> m | None \<Rightarrow> []);
            ds = (case map_of m (D_LocRibPath D) of Some ds \<Rightarrow> ds | None \<Rightarrow> [])
        in out\<lparr>RO_updated := AList.update (D_protoFamily D) (AList.update (D_LocRibPath D) (ds @ [dest]) m) (RO_updated out)\<rparr>
      else if S_locRibAction s = RouteActionDelete then out\<lparr>RO_withdrawn := RO_withdrawn out @ [dest]\<rparr>
      else if S_addPathsUpdated s then out\<lparr>RO_updatedAddPaths := RO_updatedAddPaths out @ [dest]\<rparr>
      else out)"

text \<open>The step shared by all operations: run the selection of a destination and collect what changed.\<close>

definition select_dest :: "rib_env \<Rightarrow> nat \<Rightarrow> nat \<Rightarrow> LocRib \<times> rib_out \<Rightarrow> (LocRib \<times> rib_out \<times> RouteAction) pres" where
  "select_dest E addPathCount d = (\<lambda>(l, out).
     bind_r (SelectRouteForLocRib (E_runtime E) (E_conf E) (L_paths l) addPathCount (L_dests l d)) (\<lambda>(D, s).
     Inr (set_dest d D l, updateRibOutInfo s d D out, S_locRibAction s)))"

text \<open>An empty destination whose route was deleted leaves the table.\<close>

definition settle_dest :: "u32 \<Rightarrow> string \<Rightarrow> nat \<Rightarrow> RouteAction \<Rightarrow> LocRib \<Rightarrow> LocRib pres" where
  "settle_dest fam key d action l =
     (if action = RouteActionDelete \<and> IsEmpty (L_dests l d)
      then bind_r (remove_dest fam key d l) (\<lambda>l. Inr (log_db (DeleteObject d) l))
      else Inr (log_db (UpdateObject d) l))"

section \<open>Paths whose next hop is not reachable\<close>

definition drop_path_id :: "u32 \<Rightarrow> u32 list \<Rightarrow> u32 list" where
  "drop_path_id i ids =
     (case find_index (\<lambda>x. x = i) ids of Some k \<Rightarrow> butlast (ids[k := last ids]) | None \<Rightarrow> ids)"

text \<open>Removes the key from a map, or gives it a new value that is not empty.\<close>

definition put_or_delete :: "'k \<Rightarrow> 'v list \<Rightarrow> ('k \<times> 'v list) list \<Rightarrow> ('k \<times> 'v list) list" where
  "put_or_delete k v m = (if v = [] then AList.delete k m else AList.update k v m)"

definition forget_unreachable ::
    "string \<Rightarrow> nat \<Rightarrow> nat \<Rightarrow> u32 \<Rightarrow> (string \<times> (nat \<times> (nat \<times> u32 list) list) list) list \<Rightarrow> (string \<times> (nat \<times> (nat \<times> u32 list) list) list) list" where
  "forget_unreachable nextHop path dest pathId m =
     (case map_of m nextHop of
        None \<Rightarrow> m
      | Some pm \<Rightarrow>
          put_or_delete nextHop
            (case map_of pm path of
               None \<Rightarrow> pm
             | Some dm \<Rightarrow>
                 put_or_delete path
                   (case map_of dm dest of None \<Rightarrow> dm | Some ids \<Rightarrow> put_or_delete dest (drop_path_id pathId ids) dm) pm) m)"

text \<open>Assigning to an entry of a map that was never made panics.\<close>

definition note_unreachable ::
    "string \<Rightarrow> nat \<Rightarrow> nat \<Rightarrow> u32 \<Rightarrow> (string \<times> (nat \<times> (nat \<times> u32 list) list) list) list \<Rightarrow>
     (string \<times> (nat \<times> (nat \<times> u32 list) list) list) list pres" where
  "note_unreachable nextHop path dest pathId m =
     (case map_of m nextHop of
        None \<Rightarrow> Inl Panic
      | Some pm \<Rightarrow> (case map_of pm path of
          None \<Rightarrow> Inl Panic
        | Some dm \<Rightarrow>
            let ids = (case map_of dm dest of Some ids \<Rightarrow> ids | None \<Rightarrow> [])
            in Inr (AList.update nextHop (AList.update path (AList.update dest (ids @ [pathId]) dm) pm) m)))"

definition make_unreachable ::
    "string \<Rightarrow> nat \<Rightarrow> (string \<times> (nat \<times> (nat \<times> u32 list) list) list) list \<Rightarrow> (string \<times> (nat \<times> (nat \<times> u32 list) list) list) list" where
  "make_unreachable nextHop path m =
     (let pm = (case map_of m nextHop of Some pm \<Rightarrow> pm | None \<Rightarrow> []);
          pm = (case map_of pm path of Some _ \<Rightarrow> pm | None \<Rightarrow> AList.update path [] pm)
      in AList.update nextHop pm m)"

section \<open>Processing an update\<close>

text \<open>One withdrawn prefix.\<close>

definition forget_old_path :: "NLRI \<Rightarrow> nat \<Rightarrow> nat option \<Rightarrow> LocRib \<Rightarrow> LocRib" where
  "forget_old_path nlri d oldPath l =
     (case oldPath of
        None \<Rightarrow> l
      | Some p \<Rightarrow>
          let fam = D_protoFamily (L_dests l d); nextHop = Path_GetNextHop fam (L_paths l p) in
          if \<not> IsReachable fam (L_paths l p) \<and> nextHop \<noteq> []
          then l\<lparr>L_unreachablePaths := forget_unreachable (IP_String nextHop) p d (GetPathId nlri) (L_unreachablePaths l)\<rparr>
          else l)"

definition count_withdrawn :: "Path option \<Rightarrow> nat option \<Rightarrow> LocRib \<Rightarrow> LocRib" where
  "count_withdrawn remPath oldPath l =
     (case (oldPath, remPath) of
        (Some _, Some p) \<Rightarrow> (case P_NeighborConf p of Some n \<Rightarrow> on_neighbor n DecrPrefixCount l | None \<Rightarrow> l)
      | _ \<Rightarrow> l)"

definition withdraw_route :: "rib_env \<Rightarrow> string \<Rightarrow> Path option \<Rightarrow> nat \<Rightarrow> u32 \<Rightarrow> NLRI \<Rightarrow> LocRib \<times> rib_out \<Rightarrow> (LocRib \<times> rib_out) pres" where
  "withdraw_route E peerIP remPath addPathCount fam nlri = (\<lambda>(l, out).
     case GetDest nlri fam False l of
       (l, Some d, True) \<Rightarrow>
         bind_r (RemovePath peerIP (GetPathId nlri) (L_dests l d)) (\<lambda>(D, oldPath).
         bind_r (select_dest E addPathCount d (forget_old_path nlri d oldPath (set_dest d D l), out)) (\<lambda>(l, out, action).
         bind_r (settle_dest fam (GetCIDR (nlri_prefix nlri)) d action (count_withdrawn remPath oldPath l)) (\<lambda>l. Inr (l, out))))
     | (l, _, _) \<Rightarrow> Inr (l, out))"

fun withdraw_routes ::
    "rib_env \<Rightarrow> string \<Rightarrow> Path option \<Rightarrow> nat \<Rightarrow> u32 \<Rightarrow> NLRI list \<Rightarrow> NLRI list \<Rightarrow> LocRib \<times> rib_out \<Rightarrow> (LocRib \<times> rib_out) pres" where
  "withdraw_routes E peerIP remPath k fam add [] st = Inr st"
| "withdraw_routes E peerIP remPath k fam add (nlri # rem) st =
     bind_r (if isIpInList add nlri then Inr st else withdraw_route E peerIP remPath k fam nlri st)
       (withdraw_routes E peerIP remPath k fam add rem)"

text \<open>One announced prefix. The flag becomes false when the limit of the neighbour is reached.\<close>

definition install_route ::
    "rib_env \<Rightarrow> string \<Rightarrow> nat \<Rightarrow> nat \<Rightarrow> u32 \<Rightarrow> string \<Rightarrow> NLRI \<Rightarrow> nat \<Rightarrow> db_op \<Rightarrow> LocRib \<times> rib_out \<Rightarrow> (LocRib \<times> rib_out) pres" where
  "install_route E peerIP addPath k fam nextHopStr nlri d done_op = (\<lambda>(l, out).
     bind_r (AddOrUpdatePath (L_paths l) peerIP (GetPathId nlri) addPath (L_dests l d)) (\<lambda>(D, _).
     let l = set_dest d D l in
     if \<not> IsReachable fam (L_paths l addPath) then
       bind_r (note_unreachable nextHopStr addPath d (GetPathId nlri) (L_unreachablePaths l)) (\<lambda>m.
       Inr (l\<lparr>L_unreachablePaths := m\<rparr>, out))
     else bind_r (select_dest E k d (l, out)) (\<lambda>(l, out, _). Inr (log_db done_op l, out))))"

definition announce_route ::
    "rib_env \<Rightarrow> string \<Rightarrow> nat \<Rightarrow> nat \<Rightarrow> u32 \<Rightarrow> string \<Rightarrow> NLRI \<Rightarrow> LocRib \<times> rib_out \<times> bool \<Rightarrow> (LocRib \<times> rib_out \<times> bool) pres" where
  "announce_route E peerIP addPath k fam nextHopStr nlri = (\<lambda>(l, out, all).
     if IP_String (Prefix (nlri_prefix nlri)) = ''0.0.0.0'' then Inr (l, out, all)
     else let (l, dest, alreadyCreated) = GetDest nlri fam True l;
              d = the dest;
              new = (if getPathForIP peerIP (GetPathId nlri) (L_dests l d) = None then P_NeighborConf (L_paths l addPath) else None)
       in case new of
            Some n \<Rightarrow>
              if \<not> CanAcceptNewPrefix (L_prefixes l (N_NeighborAddress n)) then Inr (l, out, False)
              else bind_r (install_route E peerIP addPath k fam nextHopStr nlri d (if alreadyCreated then UpdateObject d else AddObject d)
                     (on_neighbor n IncrPrefixCount l, out)) (\<lambda>(l, out). Inr (l, out, all))
          | None \<Rightarrow>
              bind_r (install_route E peerIP addPath k fam nextHopStr nlri d (if alreadyCreated then UpdateObject d else AddObject d) (l, out))
                (\<lambda>(l, out). Inr (l, out, all)))"

fun announce_routes ::
    "rib_env \<Rightarrow> string \<Rightarrow> nat \<Rightarrow> nat \<Rightarrow> u32 \<Rightarrow> string \<Rightarrow> NLRI list \<Rightarrow> LocRib \<times> rib_out \<times> bool \<Rightarrow> (LocRib \<times> rib_out \<times> bool) pres" where
  "announce_routes E peerIP addPath k fam nextHopStr [] st = Inr st"
| "announce_routes E peerIP addPath k fam nextHopStr (nlri # add) st =
     bind_r (announce_route E peerIP addPath k fam nextHopStr nlri st) (announce_routes E peerIP addPath k fam nextHopStr add)"

definition ProcessRoutes ::
    "rib_env \<Rightarrow> string \<Rightarrow> NLRI list \<Rightarrow> NLRI list \<Rightarrow> nat \<Rightarrow> Path option \<Rightarrow> nat \<Rightarrow> u32 \<Rightarrow> LocRib \<times> rib_out \<Rightarrow> (LocRib \<times> rib_out \<times> bool) pres" where
  "ProcessRoutes E peerIP add rem addPath remPath addPathCount fam st =
     bind_r (withdraw_routes E peerIP remPath addPathCount fam add rem st) (\<lambda>(l, out).
     announce_routes E peerIP addPath addPathCount fam (IP_String (Path_GetNextHop fam (L_paths l addPath))) add (l, out, True))"

section \<open>Next hops that become reachable\<close>

definition SetReachabilityForNextHop :: "string \<Rightarrow> ReachabilityInfo option \<Rightarrow> Path \<Rightarrow> Path" where
  "SetReachabilityForNextHop nextHop info p =
     p\<lparr>P_nhReachabilityInfo := map (\<lambda>(fam, i). (fam, if IP_String (NHR_nextHop i) = nextHop then i\<lparr>NHR_info := info\<rparr> else i)) (P_nhReachabilityInfo p)\<rparr>"

definition Path_GetPeerIP :: "Path \<Rightarrow> string" where
  "Path_GetPeerIP p = (case P_NeighborConf p of Some n \<Rightarrow> IP_String (N_NeighborAddress n) | None \<Rightarrow> '''')"

definition set_path :: "nat \<Rightarrow> (Path \<Rightarrow> Path) \<Rightarrow> LocRib \<Rightarrow> LocRib" where
  "set_path p f l = l\<lparr>L_paths := (L_paths l)(p := f (L_paths l p))\<rparr>"

fun add_path_ids :: "string \<Rightarrow> nat \<Rightarrow> nat \<Rightarrow> u32 list \<Rightarrow> LocRib \<Rightarrow> LocRib pres" where
  "add_path_ids peerIP path d [] l = Inr l"
| "add_path_ids peerIP path d (i # ids) l =
     bind_r (AddOrUpdatePath (L_paths l) peerIP i path (L_dests l d)) (\<lambda>(D, _). add_path_ids peerIP path d ids (set_dest d D l))"

fun revive_dests :: "rib_env \<Rightarrow> nat \<Rightarrow> string \<Rightarrow> nat \<Rightarrow> (nat \<times> u32 list) list \<Rightarrow> LocRib \<times> rib_out \<Rightarrow> (LocRib \<times> rib_out) pres" where
  "revive_dests E k peerIP path [] st = Inr st"
| "revive_dests E k peerIP path ((d, ids) # rest) (l, out) =
     bind_r (add_path_ids peerIP path d ids l) (\<lambda>l.
     bind_r (select_dest E k d (l, out)) (\<lambda>(l, out, _).
     revive_dests E k peerIP path rest (log_db (AddObject d) l, out)))"

fun revive_paths ::
    "rib_env \<Rightarrow> nat \<Rightarrow> string \<Rightarrow> ReachabilityInfo \<Rightarrow> (nat \<times> (nat \<times> u32 list) list) list \<Rightarrow> LocRib \<times> rib_out \<Rightarrow> (LocRib \<times> rib_out) pres" where
  "revive_paths E k nextHop info [] st = Inr st"
| "revive_paths E k nextHop info ((path, destinations) # rest) (l, out) =
     (let l = set_path path (SetReachabilityForNextHop nextHop (Some info)) l; peerIP = Path_GetPeerIP (L_paths l path) in
      if peerIP = '''' then revive_paths E k nextHop info rest (l, out)
      else bind_r (revive_dests E k peerIP path destinations (l, out)) (revive_paths E k nextHop info rest))"

definition ProcessRoutesForReachableRoutes :: "rib_env \<Rightarrow> string \<Rightarrow> ReachabilityInfo \<Rightarrow> nat \<Rightarrow> LocRib \<times> rib_out \<Rightarrow> (LocRib \<times> rib_out) pres" where
  "ProcessRoutesForReachableRoutes E nextHop info addPathCount = (\<lambda>(l, out).
     case map_of (L_unreachablePaths l) nextHop of
       None \<Rightarrow> Inr (l, out)
     | Some paths \<Rightarrow> revive_paths E addPathCount nextHop info paths (l, out))"

section \<open>Whole updates\<close>

text \<open>The checks before the routes of an update are processed: \<open>Inl\<close> says that the update is discarded.\<close>

definition test_next_hop :: "rib_env \<Rightarrow> u32 \<Rightarrow> nat \<Rightarrow> LocRib \<Rightarrow> (LocRib \<times> (unit + ReachabilityInfo option \<times> string)) pres" where
  "test_next_hop E fam addPath l =
     (let nextHop = Path_GetNextHop fam (L_paths l addPath) in
      if nextHop = [] then Inr (l, Inl ())
      else let nextHopStr = IP_String nextHop;
               (l, info) = GetReachabilityInfo E nextHopStr l;
               l = set_path addPath (SetReachabilityForFamily fam info) l
        in bind_r (Path_IsValid (L_paths l addPath)) (\<lambda>valid.
           if \<not> valid then Inr (l, Inl ())
           else Inr (if info = None then l\<lparr>L_unreachablePaths := make_unreachable nextHopStr addPath (L_unreachablePaths l)\<rparr> else l,
                     Inr (info, nextHopStr))))"

definition TestNHAndProcessRoutes ::
    "rib_env \<Rightarrow> string \<Rightarrow> NLRI list \<Rightarrow> NLRI list \<Rightarrow> nat \<Rightarrow> Path option \<Rightarrow> nat \<Rightarrow> u32 \<Rightarrow> LocRib \<times> rib_out \<Rightarrow> (LocRib \<times> rib_out \<times> bool) pres" where
  "TestNHAndProcessRoutes E peerIP add remove addPath remPath addPathCount fam = (\<lambda>(l, out).
     bind_r (if add \<noteq> [] then test_next_hop E fam addPath l else Inr (l, Inr (None, ''''))) (\<lambda>(l, checked).
     case checked of
       Inl _ \<Rightarrow> Inr (l, out, True)
     | Inr (info, nextHopStr) \<Rightarrow>
         bind_r (ProcessRoutes E peerIP add remove addPath remPath addPathCount fam (l, out)) (\<lambda>(l, out, addedAllPrefixes).
         bind_r (case info of Some i \<Rightarrow> ProcessRoutesForReachableRoutes E nextHopStr i addPathCount (l, out) | None \<Rightarrow> Inr (l, out)) (\<lambda>(l, out).
         Inr (l, out, addedAllPrefixes)))))"

definition ProcessUpdate ::
    "rib_env \<Rightarrow> NeighborConf \<Rightarrow> nat \<Rightarrow> NLRI list \<Rightarrow> NLRI list \<Rightarrow> u32 \<Rightarrow> nat \<Rightarrow> LocRib \<times> rib_out \<Rightarrow> (LocRib \<times> rib_out \<times> bool) pres" where
  "ProcessUpdate E neighborConf path add rem fam addPathCount = (\<lambda>(l, out).
     if add \<noteq> [] \<or> rem \<noteq> [] then
       TestNHAndProcessRoutes E (IP_String (N_NeighborAddress neighborConf)) add rem path (Some (L_paths l path)) addPathCount fam (l, out)
     else Inr (l, out, True))"

record FilteredRoutes =
  FR_Add :: "NLRI list"
  FR_Remove :: "NLRI list"

fun filtered_families ::
    "rib_env \<Rightarrow> string \<Rightarrow> nat \<Rightarrow> nat \<Rightarrow> (u32 \<times> FilteredRoutes) list \<Rightarrow> LocRib \<times> rib_out \<times> bool \<Rightarrow> (LocRib \<times> rib_out \<times> bool) pres" where
  "filtered_families E peerIP k path [] st = Inr st"
| "filtered_families E peerIP k path ((fam, routes) # rest) (l, out, _) =
     bind_r (TestNHAndProcessRoutes E peerIP (FR_Add routes) (FR_Remove routes) path (Some (L_paths l path)) k fam (l, out)) (\<lambda>(l, out, all).
     if all then filtered_families E peerIP k path rest (l, out, all) else Inr (l, out, all))"

fun filtered_paths ::
    "rib_env \<Rightarrow> string \<Rightarrow> nat \<Rightarrow> (nat \<times> (u32 \<times> FilteredRoutes) list) list \<Rightarrow> LocRib \<times> rib_out \<times> bool \<Rightarrow> (LocRib \<times> rib_out \<times> bool) pres" where
  "filtered_paths E peerIP k [] st = Inr st"
| "filtered_paths E peerIP k ((path, fams) # rest) st =
     bind_r (filtered_families E peerIP k path fams st) (\<lambda>(l, out, all).
     if all then filtered_paths E peerIP k rest (l, out, all) else Inr (l, out, all))"

definition ProcessFilteredRoutes ::
    "rib_env \<Rightarrow> NeighborConf \<Rightarrow> (nat \<times> (u32 \<times> FilteredRoutes) list) list \<Rightarrow> nat \<Rightarrow> LocRib \<Rightarrow> (LocRib \<times> rib_out \<times> bool) pres" where
  "ProcessFilteredRoutes E neighborConf filteredRoutes addPathCount l =
     filtered_paths E (IP_String (N_NeighborAddress neighborConf)) addPathCount filteredRoutes (l, no_out, True)"

text \<open>
  Routes of the router itself. The families with withdrawn prefixes are done first, together with what is announced for them, and
  are then dropped from the announced ones.
\<close>

fun connected_loop ::
    "rib_env \<Rightarrow> string \<Rightarrow> nat \<Rightarrow> nat \<Rightarrow> (u32 \<times> NLRI list \<times> NLRI list) list \<Rightarrow> LocRib \<times> rib_out \<Rightarrow> (LocRib \<times> rib_out) pres" where
  "connected_loop E src k path [] st = Inr st"
| "connected_loop E src k path ((fam, add, rem) # rest) (l, out) =
     bind_r (ProcessRoutes E src add rem path (Some (L_paths l path)) k fam (l, out)) (\<lambda>(l, out, _).
     connected_loop E src k path rest (l, out))"

definition ProcessConnectedRoutes ::
    "rib_env \<Rightarrow> string \<Rightarrow> nat \<Rightarrow> (u32 \<times> NLRI list) list \<Rightarrow> (u32 \<times> NLRI list) list \<Rightarrow> nat \<Rightarrow> LocRib \<Rightarrow> (LocRib \<times> rib_out) pres" where
  "ProcessConnectedRoutes E src path add remove addPathCount l =
     connected_loop E src addPathCount path
       (map (\<lambda>(fam, rem). (fam, case map_of add fam of Some a \<Rightarrow> a | None \<Rightarrow> [], rem)) remove @
        map (\<lambda>(fam, a). (fam, a, [])) (filter (\<lambda>(fam, _). fam \<notin> fst ` set remove) add)) (l, no_out)"

section \<open>A neighbour that goes away\<close>

text \<open>\<open>drop_paths\<close> removes paths of one destination.\<close>

definition drop_from_dest ::
    "rib_env \<Rightarrow> (LocRib \<Rightarrow> Destination \<Rightarrow> Destination pres) \<Rightarrow> nat \<Rightarrow> u32 \<times> string \<times> nat \<Rightarrow> LocRib \<times> rib_out \<Rightarrow> (LocRib \<times> rib_out) pres" where
  "drop_from_dest E drop_paths k = (\<lambda>(fam, destIP, d) (l, out).
     bind_r (drop_paths l (L_dests l d)) (\<lambda>D.
     bind_r (select_dest E k d (set_dest d D l, out)) (\<lambda>(l, out, action).
     bind_r (settle_dest fam destIP d action l) (\<lambda>l. Inr (l, out)))))"

fun drop_from_dests ::
    "rib_env \<Rightarrow> (LocRib \<Rightarrow> Destination \<Rightarrow> Destination pres) \<Rightarrow> nat \<Rightarrow> (u32 \<times> string \<times> nat) list \<Rightarrow> LocRib \<times> rib_out \<Rightarrow> (LocRib \<times> rib_out) pres" where
  "drop_from_dests E drop_paths k [] st = Inr st"
| "drop_from_dests E drop_paths k (x # xs) st = bind_r (drop_from_dest E drop_paths k x st) (drop_from_dests E drop_paths k xs)"

definition all_dests :: "LocRib \<Rightarrow> (u32 \<times> string \<times> nat) list" where
  "all_dests l = concat (map (\<lambda>(fam, m). map (\<lambda>(key, d). (fam, key, d)) m) (L_destPathMap l))"

definition RemoveUpdatesFromNeighbor :: "rib_env \<Rightarrow> string \<Rightarrow> NeighborConf option \<Rightarrow> nat \<Rightarrow> LocRib \<Rightarrow> (LocRib \<times> rib_out) pres" where
  "RemoveUpdatesFromNeighbor E peerIP neighborConf addPathCount l =
     bind_r (drop_from_dests E (\<lambda>_. RemoveAllPaths peerIP) addPathCount (all_dests l) (l, no_out)) (\<lambda>(l, out).
     Inr (case neighborConf of Some n \<Rightarrow> on_neighbor n (SetPrefixCount 0) l | None \<Rightarrow> l, out))"

definition RemoveUpdatesFromAllNeighbors :: "rib_env \<Rightarrow> nat \<Rightarrow> LocRib \<Rightarrow> LocRib pres" where
  "RemoveUpdatesFromAllNeighbors E addPathCount l =
     bind_r (drop_from_dests E (\<lambda>l D. Inr (RemoveAllNeighborPaths (L_paths l) D)) addPathCount (all_dests l) (l, no_out)) (\<lambda>(l, _). Inr l)"

text \<open>The chosen paths of all families with their destinations.\<close>

fun loc_rib_family :: "LocRib \<Rightarrow> (string \<times> nat) list \<Rightarrow> (nat \<times> nat list) list \<Rightarrow> (nat \<times> nat list) list" where
  "loc_rib_family l [] m = m"
| "loc_rib_family l ((_, d) # ds) m =
     loc_rib_family l ds
       (case D_LocRibPath (L_dests l d) of
          None \<Rightarrow> m
        | Some p \<Rightarrow> AList.update p ((case map_of m p of Some xs \<Rightarrow> xs | None \<Rightarrow> []) @ [d]) m)"

definition GetLocRib :: "LocRib \<Rightarrow> (u32 \<times> (nat \<times> nat list) list) list" where
  "GetLocRib l = map (\<lambda>(fam, m). (fam, loc_rib_family l m [])) (L_destPathMap l)"

end
