(* ===== verification/LocRibInv.thy ===== *)
theory LocRibInv
  imports Tables LocRib
begin

text \<open>
  The invariant of the local routing table, and the table as a map from family, prefix, neighbour and path identifier to a path: what
  an update and the loss of a neighbour do to it. The operations stop only where the selection of a path does.
\<close>

section \<open>Invariant and view\<close>

definition routes_count :: "LocRib \<Rightarrow> u32 \<Rightarrow> u32" where
  "routes_count l fam = (case L_routesCount l fam of Some n \<Rightarrow> n | None \<Rightarrow> 0)"

definition fam_inv :: "LocRib \<Rightarrow> u32 \<Rightarrow> bool" where
  "fam_inv l fam \<longleftrightarrow>
     distinct (map fst (family_dests fam l)) \<and> distinct (map snd (family_dests fam l)) \<and>
     (\<forall>(key, d) \<in> set (family_dests fam l). d < L_next l \<and> dest_inv (L_dests l d) \<and> D_protoFamily (L_dests l d) = fam \<and>
        GetCIDR (D_Prefix (L_dests l d)) = key) \<and>
     rl_inv (L_routeList l fam) \<and> dests (L_routeList l fam) = snd ` set (family_dests fam l) \<and>
     routes_count l fam = of_nat (length (family_dests fam l))"

definition rib_inv :: "LocRib \<Rightarrow> bool" where
  "rib_inv l \<longleftrightarrow> distinct (map fst (L_destPathMap l)) \<and> (\<forall>fam. fam_inv l fam)"

definition dest_of :: "LocRib \<Rightarrow> u32 \<Rightarrow> string \<Rightarrow> nat option" where
  "dest_of l fam key = map_of (family_dests fam l) key"

definition route_of :: "LocRib \<Rightarrow> u32 \<Rightarrow> string \<Rightarrow> string \<Rightarrow> u32 \<Rightarrow> nat option" where
  "route_of l fam key peer i = (case dest_of l fam key of Some d \<Rightarrow> getPathForIP peer i (L_dests l d) | None \<Rightarrow> None)"

text \<open>Fields that neither depend on.\<close>

lemma dest_of_upd [simp]:
  "dest_of (log_db x l) = dest_of l" "dest_of (on_neighbor n f l) = dest_of l" "dest_of (set_path p g l) = dest_of l"
  "dest_of (l\<lparr>L_unreachablePaths := m\<rparr>) = dest_of l" "dest_of (l\<lparr>L_reachabilityMap := rm\<rparr>) = dest_of l" "dest_of (set_dest d D l) = dest_of l"
  by (simp_all add: dest_of_def [abs_def] family_dests_def log_db_def on_neighbor_def set_path_def set_dest_def)

lemma rib_inv_upd [simp]:
  "rib_inv (log_db x l) = rib_inv l" "rib_inv (on_neighbor n f l) = rib_inv l" "rib_inv (set_path p g l) = rib_inv l"
  "rib_inv (l\<lparr>L_unreachablePaths := m\<rparr>) = rib_inv l" "rib_inv (l\<lparr>L_reachabilityMap := rm\<rparr>) = rib_inv l"
  by (simp_all add: rib_inv_def fam_inv_def family_dests_def routes_count_def log_db_def on_neighbor_def set_path_def)

lemma L_dests_upd [simp]:
  "L_dests (log_db x l) = L_dests l" "L_dests (on_neighbor n f l) = L_dests l" "L_dests (set_path p g l) = L_dests l"
  "L_dests (set_dest d D l) = (L_dests l)(d := D)"
  by (simp_all add: log_db_def on_neighbor_def set_path_def set_dest_def)

lemma L_paths_upd [simp]:
  "L_paths (log_db x l) = L_paths l" "L_paths (on_neighbor n f l) = L_paths l" "L_paths (set_dest d D l) = L_paths l"
  by (simp_all add: log_db_def on_neighbor_def set_dest_def)

lemma L_unreachable_upd [simp]:
  "L_unreachablePaths (log_db x l) = L_unreachablePaths l" "L_unreachablePaths (on_neighbor n f l) = L_unreachablePaths l"
  "L_unreachablePaths (set_dest d D l) = L_unreachablePaths l" "L_unreachablePaths (set_path p g l) = L_unreachablePaths l"
  by (simp_all add: log_db_def on_neighbor_def set_dest_def set_path_def)

lemma route_of_upd [simp]:
  "route_of (log_db x l) = route_of l" "route_of (on_neighbor n f l) = route_of l" "route_of (set_path p g l) = route_of l"
  "route_of (l\<lparr>L_unreachablePaths := m\<rparr>) = route_of l" "route_of (l\<lparr>L_reachabilityMap := rm\<rparr>) = route_of l"
  by (simp_all add: route_of_def [abs_def] cong: option.case_cong)

lemma NewLocRib_inv: "rib_inv (NewLocRib ph pc)" "dest_of (NewLocRib ph pc) fam key = None"
  by (simp_all add: rib_inv_def fam_inv_def family_dests_def NewLocRib_def routes_count_def NewRouteList_inv dest_of_def)

lemma dest_of_facts:
  assumes "rib_inv l" "dest_of l fam key = Some d"
  shows "dest_inv (L_dests l d)" "D_protoFamily (L_dests l d) = fam" "GetCIDR (D_Prefix (L_dests l d)) = key" "d < L_next l"
    "(key, d) \<in> set (family_dests fam l)"
proof -
  show m: "(key, d) \<in> set (family_dests fam l)" using assms(2) by (simp add: dest_of_def map_of_SomeD)
  have "fam_inv l fam" using assms(1) by (simp add: rib_inv_def)
  with m show "dest_inv (L_dests l d)" "D_protoFamily (L_dests l d) = fam" "GetCIDR (D_Prefix (L_dests l d)) = key" "d < L_next l"
    unfolding fam_inv_def by auto
qed

lemma dest_of_inj:
  assumes "rib_inv l" "dest_of l fam key = Some d" "dest_of l fam' key' = Some d"
  shows "fam' = fam \<and> key' = key"
  using dest_of_facts [OF assms(1,2)] dest_of_facts [OF assms(1,3)] by simp

section \<open>The elementary steps\<close>

lemma family_dests_update:
  "family_dests fam' (l\<lparr>L_destPathMap := AList.update fam m (L_destPathMap l)\<rparr>) = (if fam' = fam then m else family_dests fam' l)"
  by (simp add: family_dests_def update_conv')

lemma set_dest_inv:
  assumes inv: "rib_inv l" and d: "dest_of l fam key = Some d" and D: "dest_inv D"
    "D_protoFamily D = D_protoFamily (L_dests l d)" "D_Prefix D = D_Prefix (L_dests l d)"
  shows "rib_inv (set_dest d D l)"
    and "route_of (set_dest d D l) f k peer i = (if f = fam \<and> k = key then getPathForIP peer i D else route_of l f k peer i)"
proof -
  have "fam_inv (set_dest d D l) f" if "fam_inv l f" for f
    using that D by (auto simp: fam_inv_def set_dest_def family_dests_def routes_count_def)
  with inv show "rib_inv (set_dest d D l)" by (auto simp: rib_inv_def set_dest_def)
  have "dest_of l f k \<noteq> Some d" if "\<not> (f = fam \<and> k = key)" using dest_of_inj [OF inv d] that by blast
  then show "route_of (set_dest d D l) f k peer i = (if f = fam \<and> k = key then getPathForIP peer i D else route_of l f k peer i)"
    using d by (auto simp: route_of_def split: option.splits)
qed

lemma create_dest_inv:
  assumes inv: "rib_inv l" and new: "dest_of l fam (GetCIDR ip) = None" and c: "create_dest ip fam l = (l', d)"
  shows "rib_inv l'" "dest_of l' f k = (if f = fam \<and> k = GetCIDR ip then Some d else dest_of l f k)"
    "L_dests l' = (L_dests l)(d := NewDestination ip fam)" "dest_of l f k \<noteq> Some d"
proof -
  define key where "key = GetCIDR ip"
  have d: "d = L_next l" using c by (simp add: create_dest_def Let_def)
  have fresh: "key \<notin> fst ` set (family_dests fam l)" using new by (simp add: dest_of_def key_def map_of_eq_None_iff)
  have nx: "L_next l' = Suc d" "L_dests l' = (L_dests l)(d := NewDestination ip fam)" "L_routeList l' = (L_routeList l)(fam := addRoutesToRouteList d (L_routeList l fam))"
    "routes_count l' f = (if f = fam then routes_count l fam + 1 else routes_count l f)" for f
    using c by (auto simp: create_dest_def Let_def routes_count_def)
  have fams: "family_dests f l' = (if f = fam then family_dests fam l @ [(key, d)] else family_dests f l)" for f
    using c fresh by (auto simp: create_dest_def Let_def family_dests_def update_conv' key_def [symmetric] update_new)
  have old: "d \<notin> snd ` set (family_dests f l)" for f
    using inv by (fastforce simp: rib_inv_def fam_inv_def d)
  show "L_dests l' = (L_dests l)(d := NewDestination ip fam)" by (fact nx(2))
  show "dest_of l f k \<noteq> Some d" using old [of f] by (force simp: dest_of_def dest: map_of_SomeD)
  show "dest_of l' f k = (if f = fam \<and> k = GetCIDR ip then Some d else dest_of l f k)"
    using new by (auto simp: dest_of_def fams key_def map_add_def split: option.splits)
  have "fam_inv l' f" for f
  proof -
    have f: "fam_inv l f" using inv by (simp add: rib_inv_def)
    have entries: "\<forall>(k, e) \<in> set (family_dests f l). e < L_next l' \<and> dest_inv (L_dests l' e) \<and> D_protoFamily (L_dests l' e) = f \<and> GetCIDR (D_Prefix (L_dests l' e)) = k"
      using f old [of f] unfolding fam_inv_def nx d by (force simp: less_Suc_eq)
    show ?thesis
    proof (cases "f = fam")
      case True
      note rl = add_inv [of "L_routeList l fam" d]
      have new: "dest_inv (NewDestination ip fam)" "D_protoFamily (NewDestination ip fam) = fam" "GetCIDR (D_Prefix (NewDestination ip fam)) = key"
        by (simp_all add: NewDestination_inv) (simp_all add: NewDestination_def key_def)
      show ?thesis using f entries True fresh old [of fam] rl new by (auto simp: fam_inv_def fams nx)
    next
      case False
      then show ?thesis using f entries by (simp add: fam_inv_def fams nx)
    qed
  qed
  moreover have "distinct (map fst (L_destPathMap l'))"
    using inv c by (auto simp: rib_inv_def create_dest_def Let_def distinct_update)
  ultimately show "rib_inv l'" by (simp add: rib_inv_def)
qed

lemma remove_dest_inv:
  assumes inv: "rib_inv l" and d: "dest_of l fam key = Some d"
  shows "\<exists>l'. remove_dest fam key d l = Inr l' \<and> rib_inv l' \<and> L_dests l' = L_dests l \<and>
    (\<forall>f k. dest_of l' f k = (if f = fam \<and> k = key then None else dest_of l f k)) \<and>
    L_paths l' = L_paths l \<and> L_unreachablePaths l' = L_unreachablePaths l"
proof -
  have fi: "fam_inv l f" for f using inv by (simp add: rib_inv_def)
  note facts = dest_of_facts [OF inv d]
  have dist: "distinct (map fst (family_dests fam l))" "distinct (map snd (family_dests fam l))" using fi [of fam] by (simp_all add: fam_inv_def)
  obtain xs ys where m: "family_dests fam l = xs @ (key, d) # ys" "AList.delete key (family_dests fam l) = xs @ ys"
    by (rule delete_split [OF dist(1) d [unfolded dest_of_def]])
  have "d \<in> snd ` set (family_dests fam l)" using facts(5) by force
  then have "d \<in> dests (L_routeList l fam)" "rl_inv (L_routeList l fam)" using fi [of fam] by (simp_all add: fam_inv_def)
  from remove_inv [OF this(2,1)] obtain rl where rl: "removeRoutesFromRouteList d (L_routeList l fam) = Inr rl" "rl_inv rl" "dests rl = dests (L_routeList l fam) - {d}"
    by blast
  define l' where "l' = l\<lparr>L_routeList := (L_routeList l)(fam := rl), L_destPathMap := AList.update fam (xs @ ys) (L_destPathMap l),
    L_routesCount := (L_routesCount l)(fam \<mapsto> routes_count l fam - 1)\<rparr>"
  have r: "remove_dest fam key d l = Inr l'" by (simp add: remove_dest_def rl(1) m(2) l'_def routes_count_def)
  have fams: "family_dests f l' = (if f = fam then xs @ ys else family_dests f l)" for f
    by (simp add: family_dests_def l'_def update_conv')
  have "fam_inv l' f" for f
  proof (cases "f = fam")
    case True
    have c: "routes_count l' fam = routes_count l fam - 1" by (simp add: routes_count_def l'_def)
    have "d \<notin> snd ` set (xs @ ys)" using dist(2) m(1) by auto
    then have ds: "dests rl = snd ` set (xs @ ys)" using rl(3) fi [of fam] m(1) by (auto simp: fam_inv_def)
    have entries: "\<forall>(k, e) \<in> set (xs @ ys). e < L_next l' \<and> dest_inv (L_dests l' e) \<and> D_protoFamily (L_dests l' e) = fam \<and> GetCIDR (D_Prefix (L_dests l' e)) = k"
      using fi [of fam] unfolding fam_inv_def m(1) by (simp add: l'_def)
    have "routes_count l' fam = of_nat (length (xs @ ys))" using fi [of fam] by (simp add: c fam_inv_def m(1))
    moreover have "L_routeList l' fam = rl" by (simp add: l'_def)
    ultimately show ?thesis using dist rl(2) ds entries unfolding fam_inv_def True fams m(1) by simp
  next
    case False
    then show ?thesis using fi [of f] by (simp add: fam_inv_def fams) (simp add: l'_def routes_count_def)
  qed
  moreover have "distinct (map fst (L_destPathMap l'))" using inv by (simp add: rib_inv_def l'_def distinct_update)
  ultimately have "rib_inv l'" by (simp add: rib_inv_def)
  moreover have "dest_of l' f k = (if f = fam \<and> k = key then None else dest_of l f k)" for f k
    by (auto simp: dest_of_def fams m(2) [symmetric] delete_conv')
  ultimately show ?thesis using r by (auto simp: l'_def)
qed

section \<open>Operations stop only with the selection\<close>

definition stops :: "rib_env \<Rightarrow> nat \<Rightarrow> pkt_error go_error \<Rightarrow> bool" where
  "stops E k e \<longleftrightarrow> (\<exists>ph d. dest_inv d \<and> SelectRouteForLocRib (E_runtime E) (E_conf E) ph k d = Inl e)"

definition outcome :: "rib_env \<Rightarrow> nat \<Rightarrow> 'a pres \<Rightarrow> ('a \<Rightarrow> bool) \<Rightarrow> bool" where
  "outcome E k r P \<longleftrightarrow> (case r of Inr x \<Rightarrow> P x | Inl e \<Rightarrow> stops E k e)"

lemma outcome_Inr [simp]: "outcome E k (Inr x) P = P x"
  by (simp add: outcome_def)

lemma outcome_bind:
  assumes "outcome E k r P" "\<And>x. P x \<Longrightarrow> outcome E k (f x) Q"
  shows "outcome E k (bind_r r f) Q"
  using assms by (cases r) (auto simp: outcome_def)

lemma outcome_mono: "outcome E k r P \<Longrightarrow> (\<And>x. P x \<Longrightarrow> Q x) \<Longrightarrow> outcome E k r Q"
  by (cases r) (auto simp: outcome_def)

section \<open>Steps on one destination\<close>

lemma AddOrUpdatePath_fixed:
  assumes "AddOrUpdatePath ph peer i p d = Inr (d', b)"
  shows "D_protoFamily d' = D_protoFamily d" "D_Prefix d' = D_Prefix d"
proof -
  have "D_protoFamily d' = D_protoFamily d \<and> D_Prefix d' = D_Prefix d" if "add_route ph peer i p idx d = Inr d'" for idx d d'
    using that
    by (auto simp: add_route_def Let_def getNextPathId_def SetPath_def AppendPath_def on_route_def bind_r_eq_Inr split: if_splits option.splits prod.splits)
  then show "D_protoFamily d' = D_protoFamily d" "D_Prefix d' = D_Prefix d"
    using assms by (fastforce simp: AddOrUpdatePath_def drop_old_path_def Let_def bind_r_eq_Inr split: option.splits if_splits)+
qed

lemma releasePathId_room:
  assumes "i < D_maxPathId d" "pool_room d"
  shows "pool_room (releasePathId i d)"
proof -
  have "D_maxPathId d - 1 < 0xFFFFFFFF" if "i < D_maxPathId d" "D_maxPathId d < 0xFFFFFFFF"
    using that by unat_arith
  with assms show ?thesis by (auto simp: pool_room_def releasePathId_def)
qed

lemma fixed_fields [simp]:
  "D_protoFamily (releasePathId i d) = D_protoFamily d" "D_Prefix (releasePathId i d) = D_Prefix d"
  "D_protoFamily (on_route r f d) = D_protoFamily d" "D_Prefix (on_route r f d) = D_Prefix d" "pool_room (on_route r f d) = pool_room d"
  "D_protoFamily (RemovePathAndSetLast j d) = D_protoFamily d" "D_Prefix (RemovePathAndSetLast j d) = D_Prefix d"
  "pool_room (RemovePathAndSetLast j d) = pool_room d"
  by (simp_all add: releasePathId_def on_route_def RemovePathAndSetLast_def pool_room_def)

lemma pool_room_upd [simp]:
  "pool_room (d\<lparr>D_pathRouteMap := m\<rparr>) = pool_room d" "pool_room (d\<lparr>D_PathInfoRouteMap := s\<rparr>) = pool_room d"
  "pool_room (d\<lparr>D_peerPathMap := pm\<rparr>) = pool_room d"
  by (simp_all add: pool_room_def)

lemma drop_route_fixed:
  assumes "drop_route p d = Inr d'" "D_pathRouteMap d p = Some r"
  shows "D_protoFamily d' = D_protoFamily d \<and> D_Prefix d' = D_Prefix d \<and>
    pool_room d' = pool_room (releasePathId (R_OutPathId (D_heap d r)) d)"
  using assms by (auto simp: drop_route_def Let_def bind_r_eq_Inr split: option.splits if_splits)

lemma RemovePath_fixed:
  assumes inv: "dest_inv d" and r: "RemovePath peer i d = Inr (d', old)"
  shows "D_protoFamily d' = D_protoFamily d" "D_Prefix d' = D_Prefix d" "pool_room d \<Longrightarrow> pool_room d'"
proof -
  have "D_protoFamily d' = D_protoFamily d \<and> D_Prefix d' = D_Prefix d \<and> (pool_room d \<longrightarrow> pool_room d')"
  proof (cases "getPathForIP peer i d")
    case None
    with r show ?thesis by (auto simp: RemovePath_def)
  next
    case (Some p)
    define d0 where "d0 = (let d = (if p \<in> fst ` set (D_ecmpPaths d) then d\<lparr>D_recalculate := True\<rparr> else d)
      in if D_LocRibPath d = Some p then d\<lparr>D_recalculate := True, D_LocRibPath := None\<rparr> else d)"
    have p: "p \<in> live d" using Some by (auto simp: live_def)
    have same: "dest_inv d0 = dest_inv d" "live d0 = live d" "D_protoFamily d0 = D_protoFamily d" "D_Prefix d0 = D_Prefix d"
      "D_pathRouteMap d0 = D_pathRouteMap d" "D_heap d0 = D_heap d" "D_maxPathId d0 = D_maxPathId d" "D_pathIds d0 = D_pathIds d"
      by (simp_all add: d0_def Let_def live_def)
    obtain q where q: "D_pathRouteMap d p = Some q" using inv p by (auto simp: dest_inv_def route_inv_def)
    have "out_id d p < D_maxPathId d" using inv p by (auto simp: dest_inv_def ids.assigned_def pool_ok_def)
    then have id: "R_OutPathId (D_heap d q) < D_maxPathId d" by (simp add: out_id_def q)
    obtain d1 where d1: "drop_route p d0 = Inr d1" "D_protoFamily d' = D_protoFamily d1" "D_Prefix d' = D_Prefix d1" "pool_room d' = pool_room d1"
      using r Some by (auto simp: RemovePath_def Let_def bind_r_eq_Inr d0_def)
    have "pool_room (releasePathId (R_OutPathId (D_heap d q)) d0)" if "pool_room d"
      using releasePathId_room [of "R_OutPathId (D_heap d q)" d0] id that same by (simp add: pool_room_def)
    then show ?thesis using drop_route_fixed [OF d1(1), of q] d1 same q by auto
  qed
  then show "D_protoFamily d' = D_protoFamily d" "D_Prefix d' = D_Prefix d" "pool_room d \<Longrightarrow> pool_room d'" by auto
qed

lemma select_dest_ok:
  assumes inv: "rib_inv l" and d: "dest_of l fam key = Some d"
  shows "outcome E k (select_dest E k d (l, out)) (\<lambda>(l', out', a). \<exists>D. l' = set_dest d D l \<and> same_paths (L_dests l d) D \<and>
     rib_inv l' \<and> route_of l' = route_of l)"
proof (cases "SelectRouteForLocRib (E_runtime E) (E_conf E) (L_paths l) k (L_dests l d)")
  case (Inl e)
  then show ?thesis using dest_of_facts(1) [OF inv d] by (auto simp: select_dest_def outcome_def stops_def)
next
  case (Inr x)
  obtain D s where x: "x = (D, s)" by (cases x)
  have same: "same_paths (L_dests l d) D" using SelectRouteForLocRib_same Inr x by auto
  then have D: "dest_inv D" "D_protoFamily D = D_protoFamily (L_dests l d)" "D_Prefix D = D_Prefix (L_dests l d)"
    using dest_of_facts(1) [OF inv d] by (simp_all add: same_paths_def)
  have "route_of (set_dest d D l) = route_of l"
    using set_dest_inv(2) [OF inv d D] same_paths_lookup [OF same] d by (auto simp: fun_eq_iff route_of_def)
  then show ?thesis using set_dest_inv(1) [OF inv d D] same by (auto simp: select_dest_def Inr x)
qed

lemma outcome_select:
  assumes "rib_inv l" "dest_of l fam key = Some d"
    and "\<And>D out a. same_paths (L_dests l d) D \<Longrightarrow> rib_inv (set_dest d D l) \<Longrightarrow> route_of (set_dest d D l) = route_of l \<Longrightarrow>
      outcome E k (f (set_dest d D l, out, a)) Q"
  shows "outcome E k (bind_r (select_dest E k d (l, out)) f) Q"
  by (rule outcome_bind [OF select_dest_ok [OF assms(1,2)]]) (use assms(3) in \<open>clarsimp split: prod.splits\<close>)

section \<open>Withdrawing\<close>

text \<open>A path that is in no destination, while every destination has an identifier left.\<close>

definition fresh :: "LocRib \<Rightarrow> nat \<Rightarrow> bool" where
  "fresh l p \<longleftrightarrow> (\<forall>f k d. dest_of l f k = Some d \<longrightarrow> p \<notin> live (L_dests l d) \<and> pool_room (L_dests l d))"

definition noted :: "LocRib \<Rightarrow> string \<Rightarrow> nat \<Rightarrow> bool" where
  "noted l nh p \<longleftrightarrow> (\<exists>pm. map_of (L_unreachablePaths l) nh = Some pm \<and> map_of pm p \<noteq> None)"

text \<open>Processing withdrawn routes keeps the entry of the new path, and makes no entries for next hops that had none.\<close>

definition unr_ok :: "LocRib \<Rightarrow> LocRib \<Rightarrow> nat \<Rightarrow> bool" where
  "unr_ok l l' p \<longleftrightarrow> (\<forall>nh. noted l nh p \<longrightarrow> noted l' nh p) \<and>
     (\<forall>nh. map_of (L_unreachablePaths l) nh = None \<longrightarrow> map_of (L_unreachablePaths l') nh = None)"

lemma unr_ok_trans: "unr_ok l l1 p \<Longrightarrow> unr_ok l1 l2 p \<Longrightarrow> unr_ok l l2 p"
  by (simp add: unr_ok_def)

lemma unr_ok_same: "L_unreachablePaths l' = L_unreachablePaths l \<Longrightarrow> unr_ok l l' p"
  by (simp add: unr_ok_def noted_def)

lemma noted_upd [simp]:
  "noted (log_db x l) = noted l" "noted (on_neighbor n f l) = noted l" "noted (set_dest d D l) = noted l" "noted (set_path q g l) = noted l"
  by (simp_all add: noted_def [abs_def])

lemma fresh_upd [simp]:
  "fresh (log_db x l) = fresh l" "fresh (on_neighbor n f l) = fresh l" "fresh (l\<lparr>L_unreachablePaths := m\<rparr>) = fresh l"
  "fresh (set_path q g l) = fresh l" "fresh (l\<lparr>L_reachabilityMap := rm\<rparr>) = fresh l"
  by (simp_all add: fresh_def [abs_def])

lemma map_of_put_or_delete: "map_of (put_or_delete k v m) = (map_of m)(k := if v = [] then None else Some v)"
  by (simp add: put_or_delete_def update_conv' delete_conv')

lemma forget_keeps_noted:
  assumes "noted l nh p" "q \<noteq> p"
  shows "noted (l\<lparr>L_unreachablePaths := forget_unreachable nh' q d i (L_unreachablePaths l)\<rparr>) nh p"
proof -
  obtain pm where pm: "map_of (L_unreachablePaths l) nh = Some pm" "map_of pm p \<noteq> None" using assms(1) by (auto simp: noted_def)
  have "map_of (put_or_delete q v pm) p \<noteq> None" for v using pm(2) assms(2) by (simp add: map_of_put_or_delete)
  moreover from this have "put_or_delete q v pm \<noteq> []" for v by (metis map_of.simps(1))
  moreover have "pm \<noteq> []" using pm(2) by auto
  ultimately show ?thesis
    using pm assms(2) by (auto simp: noted_def forget_unreachable_def map_of_put_or_delete split: option.splits)
qed

lemma forget_unr_ok: "q \<noteq> p \<Longrightarrow> unr_ok l (l\<lparr>L_unreachablePaths := forget_unreachable nh q d i (L_unreachablePaths l)\<rparr>) p"
  by (auto simp: unr_ok_def forget_keeps_noted) (auto simp: forget_unreachable_def map_of_put_or_delete split: option.splits)

lemma forget_old_path_ok:
  assumes "old \<noteq> Some p"
  shows "rib_inv (forget_old_path n d old l) = rib_inv l" "route_of (forget_old_path n d old l) = route_of l"
    "dest_of (forget_old_path n d old l) = dest_of l" "L_dests (forget_old_path n d old l) = L_dests l"
    "L_paths (forget_old_path n d old l) = L_paths l" "unr_ok l (forget_old_path n d old l) p"
  using assms by (auto simp: forget_old_path_def Let_def unr_ok_same split: option.splits intro!: forget_unr_ok)

lemma count_withdrawn_upd [simp]:
  "rib_inv (count_withdrawn r old l) = rib_inv l" "route_of (count_withdrawn r old l) = route_of l"
  "dest_of (count_withdrawn r old l) = dest_of l" "L_dests (count_withdrawn r old l) = L_dests l"
  "L_paths (count_withdrawn r old l) = L_paths l" "L_unreachablePaths (count_withdrawn r old l) = L_unreachablePaths l"
  by (auto simp: count_withdrawn_def split: option.splits)

lemma empty_lookup: "IsEmpty D \<Longrightarrow> getPathForIP peer i D = None"
  by (simp add: IsEmpty_def getPathForIP_def peer_paths_def)

lemma settle_dest_ok:
  assumes inv: "rib_inv l" and d: "dest_of l fam key = Some d"
  shows "\<exists>l'. settle_dest fam key d a l = Inr l' \<and> rib_inv l' \<and> L_dests l' = L_dests l \<and> route_of l' = route_of l \<and>
    (\<forall>f k. (f, k) \<noteq> (fam, key) \<longrightarrow> dest_of l' f k = dest_of l f k) \<and>
    (\<forall>f k d. dest_of l' f k = Some d \<longrightarrow> dest_of l f k = Some d) \<and> L_paths l' = L_paths l \<and> L_unreachablePaths l' = L_unreachablePaths l"
proof (cases "a = RouteActionDelete \<and> IsEmpty (L_dests l d)")
  case True
  from remove_dest_inv [OF inv d] obtain l' where l': "remove_dest fam key d l = Inr l'" "rib_inv l'" "L_dests l' = L_dests l"
    "\<And>f k. dest_of l' f k = (if f = fam \<and> k = key then None else dest_of l f k)" "L_paths l' = L_paths l" "L_unreachablePaths l' = L_unreachablePaths l"
    by blast
  have "route_of l' = route_of l" using d True by (auto simp: fun_eq_iff route_of_def l'(3,4) empty_lookup split: option.splits)
  then show ?thesis using l' True by (auto simp: settle_dest_def)
next
  case False
  then show ?thesis using inv by (auto simp: settle_dest_def)
qed

lemma withdraw_route_ok:
  assumes inv: "rib_inv l" and fr: "fresh l p"
  shows "outcome E k (withdraw_route E peer rem k fam nlri (l, out)) (\<lambda>(l', out'). rib_inv l' \<and> fresh l' p \<and> L_paths l' = L_paths l \<and>
     unr_ok l l' p \<and>
     (\<forall>f key q i. route_of l' f key q i = (if f = fam \<and> key = GetCIDR (nlri_prefix nlri) \<and> q = peer \<and> i = 0 then None else route_of l f key q i)))"
    (is "outcome E k _ ?post")
proof (cases "dest_of l fam (GetCIDR (nlri_prefix nlri))")
  case None
  then show ?thesis using inv fr by (auto simp: withdraw_route_def GetDest_def dest_of_def [symmetric] route_of_def unr_ok_same)
next
  case (Some d)
  let ?key = "GetCIDR (nlri_prefix nlri)" and ?D = "L_dests l d"
  note facts = dest_of_facts [OF inv Some]
  from RemovePath_inv [OF facts(1), of peer 0] obtain D where D: "RemovePath peer 0 ?D = Inr (D, getPathForIP peer 0 ?D)" "dest_inv D"
    "\<And>q i. getPathForIP q i D = (if q = peer \<and> i = 0 then None else getPathForIP q i ?D)" by blast
  note fixed = RemovePath_fixed [OF facts(1) D(1)]
  have new: "getPathForIP peer 0 ?D \<noteq> Some p" using fr Some by (auto simp: fresh_def live_def)
  define l1 where "l1 = forget_old_path nlri d (getPathForIP peer 0 ?D) (set_dest d D l)"
  note s = set_dest_inv [OF inv Some D(2) fixed(1,2)]
  have l1: "rib_inv l1" "dest_of l1 = dest_of l" "L_dests l1 = (L_dests l)(d := D)" "L_paths l1 = L_paths l" "unr_ok l l1 p"
    "route_of l1 f key q i = (if f = fam \<and> key = ?key then getPathForIP q i D else route_of l f key q i)" for f key q i
    using s forget_old_path_ok [OF new] unr_ok_trans [OF unr_ok_same forget_old_path_ok(6) [OF new]] by (simp_all add: l1_def)
  have routes: "route_of l1 f key q i = (if f = fam \<and> key = ?key \<and> q = peer \<and> i = 0 then None else route_of l f key q i)" for f key q i
  proof -
    have "route_of l fam ?key q i = getPathForIP q i ?D" using Some by (simp add: route_of_def)
    then show ?thesis by (auto simp: l1(6) D(3))
  qed
  have live: "live D \<subseteq> live ?D" by (auto simp: live_def D(3) split: if_splits)
  have d1: "dest_of l1 fam ?key = Some d" using Some l1(2) by simp
  let ?old = "getPathForIP peer 0 ?D"
  let ?rest = "\<lambda>(l, out, a). bind_r (settle_dest fam ?key d a (count_withdrawn rem ?old l)) (\<lambda>l. Inr (l, out))"
  have step: "outcome E k (?rest (l2, out2, a)) ?post" if sel: "l2 = set_dest d D2 l1" "same_paths D D2" "rib_inv l2" "route_of l2 = route_of l1" for l2 out2 a D2
  proof -
    have same: "getPathForIP q i D2 = getPathForIP q i D" "pool_room D2 = pool_room D" for q i
      using same_paths_lookup [OF sel(2)] sel(2) by (auto simp: same_paths_def pool_room_def)
    then have live2: "live D2 = live D" by (simp add: live_def)
    have "dest_of (count_withdrawn rem ?old l2) fam ?key = Some d" "rib_inv (count_withdrawn rem ?old l2)" using d1 sel by simp_all
    from settle_dest_ok [OF this(2,1), of a] obtain l3 where l3: "settle_dest fam ?key d a (count_withdrawn rem ?old l2) = Inr l3" "rib_inv l3"
      "L_dests l3 = (L_dests l)(d := D2)" "route_of l3 = route_of l1" "\<And>f k e. dest_of l3 f k = Some e \<Longrightarrow> dest_of l f k = Some e"
      "L_paths l3 = L_paths l" "L_unreachablePaths l3 = L_unreachablePaths l1" using sel l1 by auto
    have "p \<notin> live (L_dests l3 e) \<and> pool_room (L_dests l3 e)" if "dest_of l3 f k = Some e" for f k e
      using l3(5) [OF that] fr Some live fixed(3) unfolding fresh_def l3(3) by (cases "e = d") (auto simp: live2 same)
    then have "fresh l3 p" by (simp add: fresh_def)
    moreover have "unr_ok l l3 p" by (rule unr_ok_trans [OF l1(5) unr_ok_same]) (fact l3(7))
    ultimately show ?thesis using l3 routes by simp
  qed
  have eq: "withdraw_route E peer rem k fam nlri (l, out) = bind_r (select_dest E k d (l1, out)) ?rest"
    using Some by (simp add: withdraw_route_def GetDest_def dest_of_def [symmetric] GetPathId_zero D(1) l1_def)
  have D1: "L_dests l1 d = D" by (simp add: l1(3))
  show ?thesis unfolding eq
    by (rule outcome_select [OF l1(1) d1], rule step) (simp_all add: D1)
qed

lemma withdraw_routes_ok:
  assumes "rib_inv l" "fresh l p"
  shows "outcome E k (withdraw_routes E peer rp k fam add rem (l, out)) (\<lambda>(l', out'). rib_inv l' \<and> fresh l' p \<and> L_paths l' = L_paths l \<and>
     unr_ok l l' p \<and>
     (\<forall>f key q i. route_of l' f key q i =
        (if f = fam \<and> q = peer \<and> i = 0 \<and> (\<exists>n \<in> set rem. \<not> isIpInList add n \<and> key = GetCIDR (nlri_prefix n)) then None else route_of l f key q i)))"
  using assms
proof (induction rem arbitrary: l out)
  case (Cons n rem)
  show ?case
  proof (cases "isIpInList add n")
    case True
    then show ?thesis using Cons.IH [OF Cons.prems] by simp
  next
    case False
    have "outcome E k (withdraw_routes E peer rp k fam add (n # rem) (l, out)) (\<lambda>(l', out'). rib_inv l' \<and> fresh l' p \<and> L_paths l' = L_paths l \<and>
     unr_ok l l' p \<and>
     (\<forall>f key q i. route_of l' f key q i =
        (if f = fam \<and> q = peer \<and> i = 0 \<and> (\<exists>n \<in> set rem. \<not> isIpInList add n \<and> key = GetCIDR (nlri_prefix n)) then None
         else if f = fam \<and> key = GetCIDR (nlri_prefix n) \<and> q = peer \<and> i = 0 then None else route_of l f key q i)))"
      using False
      by (auto intro!: outcome_bind [OF withdraw_route_ok [OF Cons.prems]] outcome_mono [OF Cons.IH] intro: unr_ok_trans)
    then show ?thesis by (rule outcome_mono) (use False in auto)
  qed
qed (auto simp: unr_ok_same)

section \<open>Announcing\<close>

text \<open>While an update is processed, its path is only in the slot of its neighbour.\<close>

definition batch :: "LocRib \<Rightarrow> string \<Rightarrow> nat \<Rightarrow> bool" where
  "batch l peer p \<longleftrightarrow> (\<forall>f k d. dest_of l f k = Some d \<longrightarrow>
     (if p \<in> live (L_dests l d) then getPathForIP peer 0 (L_dests l d) = Some p else pool_room (L_dests l d)))"

lemma batch_upd [simp]:
  "batch (log_db x l) = batch l" "batch (on_neighbor n f l) = batch l" "batch (l\<lparr>L_unreachablePaths := m\<rparr>) = batch l"
  by (simp_all add: batch_def [abs_def])

lemma fresh_batch: "fresh l p \<Longrightarrow> batch l peer p"
  by (auto simp: fresh_def batch_def)

lemma add_ok:
  assumes "dest_inv D" "if p \<in> live D then getPathForIP peer 0 D = Some p else pool_room D"
  shows "\<exists>D' b. AddOrUpdatePath ph peer 0 p D = Inr (D', b) \<and> dest_inv D' \<and> D_protoFamily D' = D_protoFamily D \<and> D_Prefix D' = D_Prefix D \<and>
    (\<forall>q i. getPathForIP q i D' = (if q = peer \<and> i = 0 then Some p else getPathForIP q i D))"
proof (cases "p \<in> live D")
  case True
  then have "getPathForIP peer 0 D = Some p" using assms(2) by simp
  then show ?thesis using assms(1) by (auto simp: AddOrUpdatePath_def)
next
  case False
  with AddOrUpdatePath_inv [of D p ph peer 0] assms obtain D' b where D': "AddOrUpdatePath ph peer 0 p D = Inr (D', b)" "dest_inv D'"
    "\<forall>q i. getPathForIP q i D' = (if q = peer \<and> i = 0 then Some p else getPathForIP q i D)" by auto
  then show ?thesis using AddOrUpdatePath_fixed [OF D'(1)] by blast
qed

lemma set_slot:
  assumes inv: "rib_inv l" and d: "dest_of l fam key = Some d" and b: "batch l peer p"
    and D: "dest_inv D" "D_protoFamily D = D_protoFamily (L_dests l d)" "D_Prefix D = D_Prefix (L_dests l d)"
      "\<And>q i. getPathForIP q i D = (if q = peer \<and> i = 0 then Some p else getPathForIP q i (L_dests l d))"
  shows "rib_inv (set_dest d D l)" "batch (set_dest d D l) peer p"
    "route_of (set_dest d D l) f key' q i = (if f = fam \<and> key' = key \<and> q = peer \<and> i = 0 then Some p else route_of l f key' q i)"
proof -
  note s = set_dest_inv [OF inv d D(1,2,3)]
  show "rib_inv (set_dest d D l)" by (fact s(1))
  have "route_of l fam key q i = getPathForIP q i (L_dests l d)" using d by (simp add: route_of_def)
  then show "route_of (set_dest d D l) f key' q i = (if f = fam \<and> key' = key \<and> q = peer \<and> i = 0 then Some p else route_of l f key' q i)"
    by (auto simp: s(2) D(4))
  have "getPathForIP peer 0 D = Some p" by (simp add: D(4))
  then have "p \<in> live D" by (auto simp: live_def)
  then show "batch (set_dest d D l) peer p" using b D(4) by (auto simp: batch_def)
qed

lemma note_unreachable_ok:
  assumes "noted l nh p"
  shows "\<exists>m. note_unreachable nh p d i (L_unreachablePaths l) = Inr m \<and> noted (l\<lparr>L_unreachablePaths := m\<rparr>) nh p"
  using assms by (auto simp: noted_def note_unreachable_def Let_def update_conv')

lemma install_route_ok:
  assumes inv: "rib_inv l" and d: "dest_of l fam key = Some d" and b: "batch l peer p" and r: "IsReachable fam (L_paths l p) \<or> noted l nh p"
  shows "outcome E k (install_route E peer p k fam nh nlri d op (l, out)) (\<lambda>(l', out'). rib_inv l' \<and> batch l' peer p \<and> L_paths l' = L_paths l \<and>
     (noted l nh p \<longrightarrow> noted l' nh p) \<and> (IsReachable fam (L_paths l p) \<longrightarrow> L_unreachablePaths l' = L_unreachablePaths l) \<and>
     (\<forall>f key' q i. route_of l' f key' q i = (if f = fam \<and> key' = key \<and> q = peer \<and> i = 0 then Some p else route_of l f key' q i)))"
proof -
  have "if p \<in> live (L_dests l d) then getPathForIP peer 0 (L_dests l d) = Some p else pool_room (L_dests l d)"
    using b d by (simp add: batch_def)
  from add_ok [OF dest_of_facts(1) [OF inv d] this, of "L_paths l"] obtain D c where D: "AddOrUpdatePath (L_paths l) peer 0 p (L_dests l d) = Inr (D, c)"
    "dest_inv D" "D_protoFamily D = D_protoFamily (L_dests l d)" "D_Prefix D = D_Prefix (L_dests l d)"
    "\<And>q i. getPathForIP q i D = (if q = peer \<and> i = 0 then Some p else getPathForIP q i (L_dests l d))" by blast
  let ?l = "set_dest d D l"
  note s = set_slot [OF inv d b D(2-5)]
  show ?thesis
  proof (cases "IsReachable fam (L_paths l p)")
    case False
    with r have n: "noted ?l nh p" by simp
    from note_unreachable_ok [OF n, of d 0] obtain m where "note_unreachable nh p d 0 (L_unreachablePaths l) = Inr m" "noted (?l\<lparr>L_unreachablePaths := m\<rparr>) nh p"
      by auto
    then show ?thesis using False s by (simp add: install_route_def GetPathId_zero D(1))
  next
    case True
    have d': "dest_of ?l fam key = Some d" using d by simp
    have eq: "install_route E peer p k fam nh nlri d op (l, out) = bind_r (select_dest E k d (?l, out)) (\<lambda>(l, out, _). Inr (log_db op l, out))"
      using True by (simp add: install_route_def GetPathId_zero D(1))
    show ?thesis unfolding eq
    proof (rule outcome_select [OF s(1) d'])
      fix D2 out2 a
      assume sel: "same_paths (L_dests ?l d) D2" "rib_inv (set_dest d D2 ?l)" "route_of (set_dest d D2 ?l) = route_of ?l"
      have D2: "getPathForIP q i D2 = getPathForIP q i D" for q i using same_paths_lookup [OF sel(1)] by simp
      have "getPathForIP peer 0 D2 = Some p" by (simp add: D2 D(5))
      then have "p \<in> live D2" by (auto simp: live_def)
      then have "batch (set_dest d D2 ?l) peer p" using b by (auto simp: batch_def D2 D(5))
      then show "outcome E k ((\<lambda>(l, out, _). Inr (log_db op l, out)) (set_dest d D2 ?l, out2, a)) (\<lambda>(l', out'). rib_inv l' \<and> batch l' peer p \<and>
          L_paths l' = L_paths l \<and> (noted l nh p \<longrightarrow> noted l' nh p) \<and> (IsReachable fam (L_paths l p) \<longrightarrow> L_unreachablePaths l' = L_unreachablePaths l) \<and>
         (\<forall>f key' q i. route_of l' f key' q i = (if f = fam \<and> key' = key \<and> q = peer \<and> i = 0 then Some p else route_of l f key' q i)))"
        using sel(2,3) s(3) by simp
    qed
  qed
qed

lemma GetDest_ok:
  assumes inv: "rib_inv l" and b: "batch l peer p" and g: "GetDest nlri fam True l = (l', dest, c)"
  shows "\<exists>d. dest = Some d \<and> rib_inv l' \<and> batch l' peer p \<and> dest_of l' fam (GetCIDR (nlri_prefix nlri)) = Some d \<and> route_of l' = route_of l \<and>
    L_paths l' = L_paths l \<and> L_unreachablePaths l' = L_unreachablePaths l"
proof (cases "dest_of l fam (GetCIDR (nlri_prefix nlri))")
  case (Some d)
  then have "l' = l" "dest = Some d" using g by (simp_all add: GetDest_def dest_of_def)
  then show ?thesis using inv b Some by simp
next
  case None
  let ?key = "GetCIDR (nlri_prefix nlri)"
  obtain d where c: "create_dest (nlri_prefix nlri) fam l = (l', d)" "dest = Some d"
    using None g by (auto simp: GetDest_def dest_of_def split: prod.splits)
  note cr = create_dest_inv [OF inv None c(1)]
  have fields: "L_paths l' = L_paths l" "L_unreachablePaths l' = L_unreachablePaths l" using c(1) by (auto simp: create_dest_def Let_def)
  have new: "getPathForIP q i (NewDestination ip fam) = None" for q i ip by (simp add: NewDestination_def getPathForIP_def peer_paths_def)
  have room: "pool_room (NewDestination ip fam)" for ip by (simp add: NewDestination_def pool_room_def)
  have "route_of l' f k q i = route_of l f k q i" for f k q i
  proof (cases "f = fam \<and> k = ?key")
    case True
    then show ?thesis using None by (simp add: route_of_def cr(2,3) new)
  next
    case False
    then show ?thesis using cr(4) [of f k] by (auto simp: route_of_def cr(2,3) split: option.splits)
  qed
  moreover have "batch l' peer p" unfolding batch_def
  proof (intro allI impI)
    fix f k e assume e: "dest_of l' f k = Some e"
    show "if p \<in> live (L_dests l' e) then getPathForIP peer 0 (L_dests l' e) = Some p else pool_room (L_dests l' e)"
    proof (cases "e = d")
      case True
      then show ?thesis using room by (simp add: cr(3) live_def new)
    next
      case False
      then have "dest_of l f k = Some e" using e by (auto simp: cr(2) split: if_splits)
      then show ?thesis using b False by (simp add: batch_def cr(3))
    qed
  qed
  ultimately show ?thesis using c(2) cr(1,2) fields by (auto simp: fun_eq_iff)
qed

definition default_route :: "NLRI \<Rightarrow> bool" where
  "default_route nlri \<longleftrightarrow> IP_String (Prefix (nlri_prefix nlri)) = ''0.0.0.0''"

text \<open>With every prefix accepted the route of an announced prefix is the new path; a refused one leaves all routes as they are.\<close>

lemma announce_route_ok:
  assumes inv: "rib_inv l" and b: "batch l peer p" and r: "IsReachable fam (L_paths l p) \<or> noted l nh p"
  shows "outcome E k (announce_route E peer p k fam nh nlri (l, out, all)) (\<lambda>(l', out', all'). rib_inv l' \<and> batch l' peer p \<and> L_paths l' = L_paths l \<and>
     (noted l nh p \<longrightarrow> noted l' nh p) \<and> (IsReachable fam (L_paths l p) \<longrightarrow> L_unreachablePaths l' = L_unreachablePaths l) \<and> (all' \<longrightarrow> all) \<and>
     (all' \<longrightarrow> (\<forall>f key q i. route_of l' f key q i =
        (if f = fam \<and> key = GetCIDR (nlri_prefix nlri) \<and> q = peer \<and> i = 0 \<and> \<not> default_route nlri then Some p else route_of l f key q i))))"
    (is "outcome E k _ ?post")
proof (cases "default_route nlri")
  case True
  then show ?thesis using inv b by (simp add: announce_route_def default_route_def)
next
  case False
  obtain l1 dest c where g: "GetDest nlri fam True l = (l1, dest, c)" by (cases "GetDest nlri fam True l")
  from GetDest_ok [OF inv b g] obtain d where d: "dest = Some d" "rib_inv l1" "batch l1 peer p" "dest_of l1 fam (GetCIDR (nlri_prefix nlri)) = Some d"
    "route_of l1 = route_of l" "L_paths l1 = L_paths l" "L_unreachablePaths l1 = L_unreachablePaths l" by blast
  have n: "noted l1 = noted l" by (simp add: noted_def [abs_def] d(7))
  let ?op = "if c then UpdateObject d else AddObject d"
  have inst: "outcome E k (bind_r (install_route E peer p k fam nh nlri d ?op (l2, out)) (\<lambda>(l, out). Inr (l, out, all))) ?post"
    if "l2 = l1 \<or> (\<exists>m. l2 = on_neighbor m IncrPrefixCount l1)" for l2
  proof -
    have l2: "rib_inv l2" "dest_of l2 fam (GetCIDR (nlri_prefix nlri)) = Some d" "batch l2 peer p" "L_paths l2 = L_paths l" "noted l2 = noted l" "route_of l2 = route_of l"
      "L_unreachablePaths l2 = L_unreachablePaths l" using that d n by auto
    have r2: "IsReachable fam (L_paths l2 p) \<or> noted l2 nh p" using r l2(4,5) by simp
    show ?thesis
      by (rule outcome_bind [OF install_route_ok [OF l2(1-3) r2]]) (use False l2(4-7) in auto)
  qed
  define new where "new = (if getPathForIP peer (GetPathId nlri) (L_dests l1 d) = None then P_NeighborConf (L_paths l1 p) else None)"
  have eq: "announce_route E peer p k fam nh nlri (l, out, all) = (case new of
      Some m \<Rightarrow> if \<not> CanAcceptNewPrefix (L_prefixes l1 (N_NeighborAddress m)) then Inr (l1, out, False)
        else bind_r (install_route E peer p k fam nh nlri d ?op (on_neighbor m IncrPrefixCount l1, out)) (\<lambda>(l, out). Inr (l, out, all))
    | None \<Rightarrow> bind_r (install_route E peer p k fam nh nlri d ?op (l1, out)) (\<lambda>(l, out). Inr (l, out, all)))"
    using False by (simp add: announce_route_def default_route_def g d(1) new_def)
  show ?thesis
  proof (cases new)
    case None
    then show ?thesis unfolding eq using inst [of l1] by (simp only: option.case) blast
  next
    case (Some m)
    have "outcome E k (Inr (l1, out, False)) ?post" using d(2,3,6,7) n by simp
    moreover have "outcome E k (bind_r (install_route E peer p k fam nh nlri d ?op (on_neighbor m IncrPrefixCount l1, out)) (\<lambda>(l, out). Inr (l, out, all))) ?post"
      by (rule inst) blast
    ultimately show ?thesis unfolding eq Some option.case by (cases "CanAcceptNewPrefix (L_prefixes l1 (N_NeighborAddress m))") (simp_all only: if_True if_False not_True_eq_False not_False_eq_True)
  qed
qed

lemma announce_routes_ok:
  assumes "rib_inv l" "batch l peer p" "IsReachable fam (L_paths l p) \<or> noted l nh p"
  shows "outcome E k (announce_routes E peer p k fam nh add (l, out, all)) (\<lambda>(l', out', all'). rib_inv l' \<and>
     (IsReachable fam (L_paths l p) \<longrightarrow> L_unreachablePaths l' = L_unreachablePaths l) \<and> (all' \<longrightarrow> all) \<and>
     (all' \<longrightarrow> (\<forall>f key q i. route_of l' f key q i =
        (if f = fam \<and> q = peer \<and> i = 0 \<and> (\<exists>n \<in> set add. \<not> default_route n \<and> key = GetCIDR (nlri_prefix n)) then Some p else route_of l f key q i))))"
  using assms
proof (induction add arbitrary: l out all)
  case (Cons n add)
  show ?case unfolding announce_routes.simps
  proof (rule outcome_bind [OF announce_route_ok [OF Cons.prems]])
    fix x :: "LocRib \<times> rib_out \<times> bool"
    assume "case x of (l', out', all') \<Rightarrow> rib_inv l' \<and> batch l' peer p \<and> L_paths l' = L_paths l \<and> (noted l nh p \<longrightarrow> noted l' nh p) \<and> (IsReachable fam (L_paths l p) \<longrightarrow> L_unreachablePaths l' = L_unreachablePaths l) \<and> (all' \<longrightarrow> all) \<and>
      (all' \<longrightarrow> (\<forall>f key q i. route_of l' f key q i =
        (if f = fam \<and> key = GetCIDR (nlri_prefix n) \<and> q = peer \<and> i = 0 \<and> \<not> default_route n then Some p else route_of l f key q i)))"
    moreover obtain l1 out1 all1 where x: "x = (l1, out1, all1)" by (cases x)
    ultimately have l1: "rib_inv l1" "batch l1 peer p" "IsReachable fam (L_paths l1 p) \<or> noted l1 nh p"
      "IsReachable fam (L_paths l p) \<Longrightarrow> IsReachable fam (L_paths l1 p) \<and> L_unreachablePaths l1 = L_unreachablePaths l" "all1 \<Longrightarrow> all"
      "all1 \<Longrightarrow> route_of l1 f key q i = (if f = fam \<and> key = GetCIDR (nlri_prefix n) \<and> q = peer \<and> i = 0 \<and> \<not> default_route n then Some p else route_of l f key q i)" for f key q i
      using Cons.prems(3) by auto
    show "outcome E k (announce_routes E peer p k fam nh add x) (\<lambda>(l', out', all'). rib_inv l' \<and>
     (IsReachable fam (L_paths l p) \<longrightarrow> L_unreachablePaths l' = L_unreachablePaths l) \<and> (all' \<longrightarrow> all) \<and>
     (all' \<longrightarrow> (\<forall>f key q i. route_of l' f key q i =
        (if f = fam \<and> q = peer \<and> i = 0 \<and> (\<exists>n \<in> set (n # add). \<not> default_route n \<and> key = GetCIDR (nlri_prefix n)) then Some p else route_of l f key q i))))"
      unfolding x by (rule outcome_mono [OF Cons.IH [OF l1(1-3)]]) (use l1(4-6) in auto)
  qed
qed auto

section \<open>Whole updates\<close>

text \<open>The table after an update: the new path for the announced prefixes, none for the withdrawn ones.\<close>

definition updated_routes ::
    "u32 \<Rightarrow> string \<Rightarrow> NLRI list \<Rightarrow> NLRI list \<Rightarrow> nat \<Rightarrow> (u32 \<Rightarrow> string \<Rightarrow> string \<Rightarrow> u32 \<Rightarrow> nat option) \<Rightarrow> u32 \<Rightarrow> string \<Rightarrow> string \<Rightarrow> u32 \<Rightarrow> nat option" where
  "updated_routes fam peer add rem p V f key q i =
     (if f = fam \<and> q = peer \<and> i = 0 then
        if \<exists>n \<in> set add. \<not> default_route n \<and> key = GetCIDR (nlri_prefix n) then Some p
        else if \<exists>n \<in> set rem. \<not> isIpInList add n \<and> key = GetCIDR (nlri_prefix n) then None
        else V f key q i
      else V f key q i)"

lemma ProcessRoutes_ok:
  assumes inv: "rib_inv l" and fr: "fresh l p" and r: "add = [] \<or> IsReachable fam (L_paths l p) \<or> noted l (IP_String (Path_GetNextHop fam (L_paths l p))) p"
  shows "outcome E k (ProcessRoutes E peer add rem p rp k fam (l, out)) (\<lambda>(l', out', all). rib_inv l' \<and>
     (IsReachable fam (L_paths l p) \<longrightarrow> (\<forall>nh. map_of (L_unreachablePaths l) nh = None \<longrightarrow> map_of (L_unreachablePaths l') nh = None)) \<and>
     (all \<longrightarrow> route_of l' = updated_routes fam peer add rem p (route_of l)))"
  unfolding ProcessRoutes_def
proof (rule outcome_bind [OF withdraw_routes_ok [OF inv fr]])
  fix x :: "LocRib \<times> rib_out"
  obtain l1 out1 where x: "x = (l1, out1)" by (cases x)
  assume "case x of (l', out') \<Rightarrow> rib_inv l' \<and> fresh l' p \<and> L_paths l' = L_paths l \<and> unr_ok l l' p \<and>
     (\<forall>f key q i. route_of l' f key q i =
        (if f = fam \<and> q = peer \<and> i = 0 \<and> (\<exists>n \<in> set rem. \<not> isIpInList add n \<and> key = GetCIDR (nlri_prefix n)) then None else route_of l f key q i))"
  then have l1: "rib_inv l1" "fresh l1 p" "L_paths l1 = L_paths l" "unr_ok l l1 p"
     "\<And>f key q i. route_of l1 f key q i =
        (if f = fam \<and> q = peer \<and> i = 0 \<and> (\<exists>n \<in> set rem. \<not> isIpInList add n \<and> key = GetCIDR (nlri_prefix n)) then None else route_of l f key q i)"
    by (auto simp: x)
  let ?nh = "IP_String (Path_GetNextHop fam (L_paths l p))"
  have r1: "IsReachable fam (L_paths l1 p) \<or> noted l1 ?nh p" if "add \<noteq> []" using that r l1(3,4) by (auto simp: unr_ok_def)
  have "outcome E k (announce_routes E peer p k fam ?nh add (l1, out1, True)) (\<lambda>(l', out', all). rib_inv l' \<and>
     (IsReachable fam (L_paths l p) \<longrightarrow> (\<forall>nh. map_of (L_unreachablePaths l) nh = None \<longrightarrow> map_of (L_unreachablePaths l') nh = None)) \<and>
     (all \<longrightarrow> route_of l' = updated_routes fam peer add rem p (route_of l)))"
  proof (cases "add = []")
    case True
    then show ?thesis using l1(1,4) by (auto simp: l1(5) fun_eq_iff updated_routes_def unr_ok_def)
  next
    case False
    show ?thesis
      by (rule outcome_mono [OF announce_routes_ok [OF l1(1) fresh_batch [OF l1(2)] r1 [OF False]]])
         (use l1(3,4) in \<open>auto simp: l1(5) fun_eq_iff updated_routes_def unr_ok_def\<close>)
  qed
  then show "outcome E k (case x of (l, out) \<Rightarrow> announce_routes E peer p k fam (IP_String (Path_GetNextHop fam (L_paths l p))) add (l, out, True))
     (\<lambda>(l', out', all). rib_inv l' \<and>
     (IsReachable fam (L_paths l p) \<longrightarrow> (\<forall>nh. map_of (L_unreachablePaths l) nh = None \<longrightarrow> map_of (L_unreachablePaths l') nh = None)) \<and>
     (all \<longrightarrow> route_of l' = updated_routes fam peer add rem p (route_of l)))"
    by (simp add: x l1(3))
qed

lemma SetReachability_keeps:
  "Path_GetNextHop fam (SetReachabilityForFamily f info p) = Path_GetNextHop fam p" "Path_IsValid (SetReachabilityForFamily f info p) = Path_IsValid p"
proof -
  have n: "neighbor_r (SetReachabilityForFamily f info p) = neighbor_r p" by (simp add: neighbor_r_def SetReachabilityForFamily_def split: option.splits)
  have *: "valid_loop (SetReachabilityForFamily f info p) attrs = valid_loop p attrs" for attrs
  proof (induction attrs)
    case (Cons a attrs)
    show ?case unfolding valid_loop.simps n Cons.IH by (rule refl)
  qed simp
  show "Path_GetNextHop fam (SetReachabilityForFamily f info p) = Path_GetNextHop fam p"
    by (auto simp: Path_GetNextHop_def SetReachabilityForFamily_def update_conv' split: option.splits)
  have "P_PathAttrs (SetReachabilityForFamily f info p) = P_PathAttrs p" by (simp add: SetReachabilityForFamily_def split: option.splits)
  then show "Path_IsValid (SetReachabilityForFamily f info p) = Path_IsValid p" by (simp add: Path_IsValid_def *)
qed

lemma test_next_hop_ok:
  assumes inv: "rib_inv l" and fr: "fresh l p" and nh: "Path_GetNextHop fam (L_paths l p) \<noteq> []" and v: "Path_IsValid (L_paths l p) = Inr True"
    and w: "map_of (L_unreachablePaths l) (IP_String (Path_GetNextHop fam (L_paths l p))) = None"
  shows "\<exists>l' info. test_next_hop E fam p l = Inr (l', Inr (info, IP_String (Path_GetNextHop fam (L_paths l p)))) \<and> rib_inv l' \<and> fresh l' p \<and>
    route_of l' = route_of l \<and> Path_GetNextHop fam (L_paths l' p) = Path_GetNextHop fam (L_paths l p) \<and>
    (if info = None then noted l' (IP_String (Path_GetNextHop fam (L_paths l p))) p
     else IsReachable fam (L_paths l' p) \<and> L_unreachablePaths l' = L_unreachablePaths l)"
proof -
  let ?nh = "IP_String (Path_GetNextHop fam (L_paths l p))"
  obtain l1 info where g: "GetReachabilityInfo E ?nh l = (l1, info)" by (cases "GetReachabilityInfo E ?nh l")
  have l1: "rib_inv l1" "fresh l1 p" "route_of l1 = route_of l" "L_paths l1 = L_paths l" "L_unreachablePaths l1 = L_unreachablePaths l"
    using g inv fr by (auto simp: GetReachabilityInfo_def Let_def split: option.splits)
  define l2 where "l2 = set_path p (SetReachabilityForFamily fam info) l1"
  have p2: "L_paths l2 p = SetReachabilityForFamily fam info (L_paths l p)" by (simp add: l2_def set_path_def l1(4))
  have l2: "rib_inv l2" "fresh l2 p" "route_of l2 = route_of l" "L_unreachablePaths l2 = L_unreachablePaths l" using l1 by (simp_all add: l2_def)
  have fam: "map_of (P_nhReachabilityInfo (L_paths l p)) fam \<noteq> None" using nh by (auto simp: Path_GetNextHop_def split: option.splits)
  have "GetReachability fam (L_paths l2 p) = info" unfolding p2 by (rule reach_after_set [OF fam])
  then have reach: "IsReachable fam (L_paths l2 p)" if "info \<noteq> None" using that by (simp add: IsReachable_unless_local)
  let ?l = "if info = None then l2\<lparr>L_unreachablePaths := make_unreachable ?nh p (L_unreachablePaths l2)\<rparr> else l2"
  have t: "test_next_hop E fam p l = Inr (?l, Inr (info, ?nh))"
    using nh v by (auto simp: test_next_hop_def Let_def g l2_def p2 [unfolded l2_def] SetReachability_keeps)
  have "noted ?l ?nh p" if "info = None"
    using that w l2(4) by (auto simp: noted_def make_unreachable_def Let_def update_conv')
  then show ?thesis using t l2 reach by (cases "info = None") (auto simp: p2 SetReachability_keeps)
qed

lemma ProcessUpdate_ok:
  assumes inv: "rib_inv l" and fr: "fresh l p"
    and "add \<noteq> [] \<longrightarrow> Path_GetNextHop fam (L_paths l p) \<noteq> [] \<and> Path_IsValid (L_paths l p) = Inr True \<and>
      map_of (L_unreachablePaths l) (IP_String (Path_GetNextHop fam (L_paths l p))) = None"
  shows "outcome E k (ProcessUpdate E n p add rem fam k (l, out)) (\<lambda>(l', out', all). rib_inv l' \<and>
    (all \<longrightarrow> route_of l' = updated_routes fam (IP_String (N_NeighborAddress n)) add rem p (route_of l)))"
proof (cases "add = []")
  case True
  let ?peer = "IP_String (N_NeighborAddress n)" and ?rp = "Some (L_paths l p)"
  have "outcome E k (ProcessRoutes E ?peer [] rem p ?rp k fam (l, out)) (\<lambda>(l', out', all). rib_inv l' \<and>
     (all \<longrightarrow> route_of l' = updated_routes fam ?peer [] rem p (route_of l)))"
    by (rule outcome_mono [OF ProcessRoutes_ok [OF inv fr]]) auto
  then show ?thesis
    using True inv
    by (auto simp: ProcessUpdate_def TestNHAndProcessRoutes_def fun_eq_iff updated_routes_def intro!: outcome_bind)
next
  case False
  let ?nh = "IP_String (Path_GetNextHop fam (L_paths l p))" and ?peer = "IP_String (N_NeighborAddress n)" and ?rp = "Some (L_paths l p)"
  from False assms(3) test_next_hop_ok [OF inv fr, of fam E] obtain l1 info where l1: "test_next_hop E fam p l = Inr (l1, Inr (info, ?nh))" "rib_inv l1" "fresh l1 p"
    "route_of l1 = route_of l" "Path_GetNextHop fam (L_paths l1 p) = Path_GetNextHop fam (L_paths l p)"
    "if info = None then noted l1 ?nh p else IsReachable fam (L_paths l1 p) \<and> L_unreachablePaths l1 = L_unreachablePaths l" by blast
  have r: "add = [] \<or> IsReachable fam (L_paths l1 p) \<or> noted l1 (IP_String (Path_GetNextHop fam (L_paths l1 p))) p"
    using l1(5,6) by (auto split: if_splits)
  let ?rest = "\<lambda>(l, out, all). bind_r (case info of Some i \<Rightarrow> ProcessRoutesForReachableRoutes E ?nh i k (l, out) | None \<Rightarrow> Inr (l, out)) (\<lambda>(l, out). Inr (l, out, all))"
  have eq: "ProcessUpdate E n p add rem fam k (l, out) = bind_r (ProcessRoutes E ?peer add rem p ?rp k fam (l1, out)) ?rest"
    using False by (simp add: ProcessUpdate_def TestNHAndProcessRoutes_def l1(1))
  show ?thesis unfolding eq
    by (rule outcome_bind [OF ProcessRoutes_ok [OF l1(2,3) r]])
       (use l1(4,6) assms(3) False in \<open>auto simp: ProcessRoutesForReachableRoutes_def split: option.splits if_splits\<close>)
qed

section \<open>A neighbour that goes away\<close>

lemma RemoveAllPaths_fixed:
  assumes "dest_inv d" "RemoveAllPaths peer d = Inr d'"
  shows "D_protoFamily d' = D_protoFamily d" "D_Prefix d' = D_Prefix d"
proof -
  have "remove_ids peer is d = Inr d' \<Longrightarrow> D_protoFamily d' = D_protoFamily d \<and> D_Prefix d' = D_Prefix d" if "dest_inv d" for "is" d
    using that
  proof (induction "is" arbitrary: d)
    case (Cons i "is")
    from RemovePath_inv [OF Cons.prems(2), of peer i] obtain d1 old where d1: "RemovePath peer i d = Inr (d1, old)" "dest_inv d1" by blast
    show ?case using Cons.IH [of d1] Cons.prems RemovePath_fixed [OF Cons.prems(2) d1(1)] d1 by simp
  qed simp
  with assms show "D_protoFamily d' = D_protoFamily d" "D_Prefix d' = D_Prefix d" by (auto simp: RemoveAllPaths_def split: option.splits)
qed

lemma drop_from_dest_ok:
  assumes inv: "rib_inv l" and d: "dest_of l fam key = Some d"
  shows "outcome E k (drop_from_dest E (\<lambda>_. RemoveAllPaths peer) k (fam, key, d) (l, out)) (\<lambda>(l', out'). rib_inv l' \<and>
    (\<forall>f k. (f, k) \<noteq> (fam, key) \<longrightarrow> dest_of l' f k = dest_of l f k) \<and>
    (\<forall>f key' q i. route_of l' f key' q i = (if f = fam \<and> key' = key \<and> q = peer then None else route_of l f key' q i)))"
    (is "outcome E k _ ?post")
proof -
  note facts = dest_of_facts [OF inv d]
  from RemoveAllPaths_inv [OF facts(1), of peer] obtain D where D: "RemoveAllPaths peer (L_dests l d) = Inr D" "dest_inv D"
    "\<And>q i. getPathForIP q i D = (if q = peer then None else getPathForIP q i (L_dests l d))" by blast
  let ?l = "set_dest d D l"
  note s = set_dest_inv [OF inv d D(2) RemoveAllPaths_fixed [OF facts(1) D(1)]]
  have "route_of l fam key q i = getPathForIP q i (L_dests l d)" for q i using d by (simp add: route_of_def)
  then have routes: "route_of ?l f key' q i = (if f = fam \<and> key' = key \<and> q = peer then None else route_of l f key' q i)" for f key' q i
    by (auto simp: s(2) D(3))
  have d1: "dest_of ?l fam key = Some d" using d by simp
  have step: "outcome E k (bind_r (settle_dest fam key d a l2) (\<lambda>l. Inr (l, out2))) ?post"
    if "rib_inv l2" "route_of l2 = route_of ?l" "dest_of l2 = dest_of l" for l2 out2 a
  proof -
    have "dest_of l2 fam key = Some d" using d that(3) by simp
    from settle_dest_ok [OF that(1) this, of a] obtain l3 where l3: "settle_dest fam key d a l2 = Inr l3" "rib_inv l3" "route_of l3 = route_of l2"
      "\<forall>f k. (f, k) \<noteq> (fam, key) \<longrightarrow> dest_of l3 f k = dest_of l2 f k" by blast
    show ?thesis using l3(2,4) by (simp add: l3(1,3) that(2,3) routes)
  qed
  have eq: "drop_from_dest E (\<lambda>_. RemoveAllPaths peer) k (fam, key, d) (l, out) =
      bind_r (select_dest E k d (?l, out)) (\<lambda>(l, out, a). bind_r (settle_dest fam key d a l) (\<lambda>l. Inr (l, out)))"
    by (simp add: drop_from_dest_def D(1))
  show ?thesis unfolding eq by (rule outcome_select [OF s(1) d1], unfold prod.case, rule step) simp_all
qed

lemma drop_from_dests_ok:
  assumes "rib_inv l" "\<forall>(f, k, d) \<in> set xs. dest_of l f k = Some d" "distinct (map (\<lambda>(f, k, d). (f, k)) xs)"
  shows "outcome E k (drop_from_dests E (\<lambda>_. RemoveAllPaths peer) k xs (l, out)) (\<lambda>(l', out'). rib_inv l' \<and>
    (\<forall>f key q i. route_of l' f key q i = (if q = peer \<and> (\<exists>d. (f, key, d) \<in> set xs) then None else route_of l f key q i)))"
  using assms
proof (induction xs arbitrary: l out)
  case (Cons x xs)
  obtain fam key d where x: "x = (fam, key, d)" by (cases x)
  have d: "dest_of l fam key = Some d" using Cons.prems(2) x by auto
  have "(fam, key) \<notin> (\<lambda>(f, k, d). (f, k)) ` set xs" using Cons.prems(3) by (simp add: x)
  then have other: "(f, k) \<noteq> (fam, key)" if "(f, k, e) \<in> set xs" for f k e using that by force
  show ?case unfolding drop_from_dests.simps x
  proof (rule outcome_bind [OF drop_from_dest_ok [OF Cons.prems(1) d]])
    fix y :: "LocRib \<times> rib_out"
    obtain l1 out1 where y: "y = (l1, out1)" by (cases y)
    assume "case y of (l', out') \<Rightarrow> rib_inv l' \<and> (\<forall>f k. (f, k) \<noteq> (fam, key) \<longrightarrow> dest_of l' f k = dest_of l f k) \<and>
      (\<forall>f key' q i. route_of l' f key' q i = (if f = fam \<and> key' = key \<and> q = peer then None else route_of l f key' q i))"
    then have l1: "rib_inv l1" "\<And>f k. (f, k) \<noteq> (fam, key) \<Longrightarrow> dest_of l1 f k = dest_of l f k"
      "\<And>f key' q i. route_of l1 f key' q i = (if f = fam \<and> key' = key \<and> q = peer then None else route_of l f key' q i)" by (auto simp: y)
    have "dest_of l1 f k = Some e" if "(f, k, e) \<in> set xs" for f k e
      using l1(2) [OF other [OF that]] bspec [OF Cons.prems(2), of "(f, k, e)"] that by simp
    then have "\<forall>(f, k, d) \<in> set xs. dest_of l1 f k = Some d" by blast
    moreover have "distinct (map (\<lambda>(f, k, d). (f, k)) xs)" using Cons.prems(3) by simp
    ultimately show "outcome E k (drop_from_dests E (\<lambda>_. RemoveAllPaths peer) k xs y) (\<lambda>(l', out'). rib_inv l' \<and>
      (\<forall>f key' q i. route_of l' f key' q i = (if q = peer \<and> (\<exists>e. (f, key', e) \<in> set ((fam, key, d) # xs)) then None else route_of l f key' q i)))"
      unfolding y by (rule outcome_mono [OF Cons.IH [OF l1(1)]]) (auto simp: l1(3))
  qed
qed auto

lemma tagged_disjoint:
  "(\<And>y. y \<in> A \<Longrightarrow> tag y = c) \<Longrightarrow> (\<And>y. y \<in> B \<Longrightarrow> tag y \<in> F) \<Longrightarrow> c \<notin> F \<Longrightarrow> A \<inter> B = {}"
  by blast

lemma all_dests_ok:
  assumes "rib_inv l"
  shows "\<forall>(f, k, d) \<in> set (all_dests l). dest_of l f k = Some d" "distinct (map (\<lambda>(f, k, d). (f, k)) (all_dests l))"
    "dest_of l f key = Some d \<Longrightarrow> (f, key, d) \<in> set (all_dests l)"
proof -
  have fams: "family_dests f l = m" if "(f, m) \<in> set (L_destPathMap l)" for f m
    using that assms by (simp add: family_dests_def rib_inv_def map_of_is_SomeI)
  have keys: "distinct (map fst (family_dests f l))" for f using assms by (simp add: rib_inv_def fam_inv_def)
  show "\<forall>(f, k, d) \<in> set (all_dests l). dest_of l f k = Some d"
    using keys fams by (auto simp: all_dests_def dest_of_def map_of_is_SomeI)
  show "(f, key, d) \<in> set (all_dests l)" if "dest_of l f key = Some d"
  proof -
    from that obtain m where "map_of (L_destPathMap l) f = Some m" "map_of m key = Some d"
      by (auto simp: dest_of_def family_dests_def split: option.splits)
    then show ?thesis by (force simp: all_dests_def dest: map_of_SomeD)
  qed
  have "distinct (map (\<lambda>(f, k, d). (f, k)) (concat (map (\<lambda>(f, m). map (\<lambda>(k, d). (f, k, d)) m) M)))"
    if "distinct (map fst M)" "\<And>f m. (f, m) \<in> set M \<Longrightarrow> distinct (map fst m)" for M :: "(u32 \<times> (string \<times> nat) list) list"
    using that
  proof (induction M)
    case (Cons x M)
    obtain f m where x: "x = (f, m)" by (cases x)
    let ?ps = "\<lambda>M :: (u32 \<times> (string \<times> nat) list) list. map (\<lambda>(f, k, d). (f, k)) (concat (map (\<lambda>(f, m). map (\<lambda>(k, d). (f, k, d)) m) M))"
    have head: "?ps (x # M) = map (\<lambda>k. (f, k)) (map fst m) @ ?ps M" by (simp add: x comp_def split_beta)
    have tail: "fst y \<in> fst ` set M" if "y \<in> set (?ps M)" for y using that by force
    have first: "fst y = f" if "y \<in> set (map (\<lambda>k. (f, k)) (map fst m))" for y using that by auto
    have "f \<notin> fst ` set M" using Cons.prems(1) by (simp add: x)
    with first tail have "set (map (\<lambda>k. (f, k)) (map fst m)) \<inter> set (?ps M) = {}" by (rule tagged_disjoint)
    moreover have "distinct (map (\<lambda>k. (f, k)) (map fst m))" using Cons.prems(2) [of f m] by (auto simp: x distinct_map inj_on_def)
    moreover have "distinct (?ps M)" by (rule Cons.IH) (use Cons.prems in auto)
    ultimately show ?case unfolding head distinct_append by blast
  qed simp
  moreover have "distinct (map fst m)" if "(f, m) \<in> set (L_destPathMap l)" for f m using keys [of f] fams [OF that] by simp
  ultimately show "distinct (map (\<lambda>(f, k, d). (f, k)) (all_dests l))"
    unfolding all_dests_def using assms by (simp add: rib_inv_def)
qed

lemma RemoveUpdatesFromNeighbor_ok:
  assumes "rib_inv l"
  shows "outcome E k (RemoveUpdatesFromNeighbor E peer nc k l) (\<lambda>(l', out'). rib_inv l' \<and>
    (\<forall>f key q i. route_of l' f key q i = (if q = peer then None else route_of l f key q i)))"
  unfolding RemoveUpdatesFromNeighbor_def
proof (rule outcome_bind [OF drop_from_dests_ok [OF assms all_dests_ok(1,2) [OF assms]]])
  have none: "route_of l f key q i = None" if "\<nexists>d. (f, key, d) \<in> set (all_dests l)" for f key q i
    using that all_dests_ok(3) [OF assms] by (auto simp: route_of_def split: option.splits)
  fix x :: "LocRib \<times> rib_out"
  assume "case x of (l', out') \<Rightarrow> rib_inv l' \<and>
    (\<forall>f key q i. route_of l' f key q i = (if q = peer \<and> (\<exists>d. (f, key, d) \<in> set (all_dests l)) then None else route_of l f key q i))"
  then show "outcome E k (case x of (l, out) \<Rightarrow> Inr (case nc of None \<Rightarrow> l | Some n \<Rightarrow> on_neighbor n (SetPrefixCount 0) l, out))
    (\<lambda>(l', out'). rib_inv l' \<and> (\<forall>f key q i. route_of l' f key q i = (if q = peer then None else route_of l f key q i)))"
    using none by (auto split: option.splits)
qed

section \<open>What the code leaves behind\<close>

text \<open>A prefix that is refused because of the limit still gets a destination, which stays empty.\<close>

lemma refused_prefix_creates_destination:
  assumes "rib_inv l" "\<not> default_route nlri" "dest_of l fam (GetCIDR (nlri_prefix nlri)) = None"
    and "P_NeighborConf (L_paths l p) = Some n" "\<not> CanAcceptNewPrefix (L_prefixes l (N_NeighborAddress n))"
  shows "\<exists>l' d. announce_route E peer p k fam nh nlri (l, out, True) = Inr (l', out, False) \<and>
    dest_of l' fam (GetCIDR (nlri_prefix nlri)) = Some d \<and> IsEmpty (L_dests l' d)"
proof -
  obtain l1 d where c: "create_dest (nlri_prefix nlri) fam l = (l1, d)" by (cases "create_dest (nlri_prefix nlri) fam l")
  note cr = create_dest_inv [OF assms(1,3) c]
  have same: "L_paths l1 = L_paths l" "L_prefixes l1 = L_prefixes l" using c by (auto simp: create_dest_def Let_def)
  have "announce_route E peer p k fam nh nlri (l, out, True) = Inr (l1, out, False)"
    using assms c
    by (auto simp: announce_route_def default_route_def GetDest_def dest_of_def [symmetric] cr(3) same NewDestination_def getPathForIP_def peer_paths_def)
  then show ?thesis using cr(2,3) by (simp add: IsEmpty_def NewDestination_def)
qed

text \<open>A path that once waited for its next hop is put back whenever that next hop is used again, also after it was withdrawn.\<close>

lemma stale_path_returns:
  assumes m: "map_of (L_unreachablePaths l) nh = Some [(p, [(d, [0])])]" and n: "P_NeighborConf (L_paths l p) = Some n"
    and D: "dest_inv (L_dests l d)" "pool_room (L_dests l d)" "p \<notin> live (L_dests l d)"
  shows "outcome E k (ProcessRoutesForReachableRoutes E nh info k (l, out))
    (\<lambda>(l', _). getPathForIP (IP_String (N_NeighborAddress n)) 0 (L_dests l' d) = Some p)"
proof -
  define l1 where "l1 = set_path p (SetReachabilityForNextHop nh (Some info)) l"
  let ?peer = "IP_String (N_NeighborAddress n)"
  have p1: "Path_GetPeerIP (L_paths l1 p) = ?peer" by (simp add: l1_def set_path_def Path_GetPeerIP_def SetReachabilityForNextHop_def n)
  from AddOrUpdatePath_inv [OF D, of "L_paths l1" ?peer 0] obtain D1 b where D1: "AddOrUpdatePath (L_paths l1) ?peer 0 p (L_dests l d) = Inr (D1, b)"
    "dest_inv D1" "getPathForIP ?peer 0 D1 = Some p" by auto
  have eq: "ProcessRoutesForReachableRoutes E nh info k (l, out) =
      bind_r (select_dest E k d (set_dest d D1 l1, out)) (\<lambda>(l, out, _). Inr (log_db (AddObject d) l, out))"
    using D1(1) by (auto simp: ProcessRoutesForReachableRoutes_def m l1_def [symmetric] p1 IP_String_nonempty Let_def) (auto simp: l1_def bind_r_def split: sum.splits)
  show ?thesis
  proof (cases "SelectRouteForLocRib (E_runtime E) (E_conf E) (L_paths l1) k D1")
    case (Inl e)
    then show ?thesis unfolding eq using D1(2) by (auto simp: select_dest_def outcome_def stops_def)
  next
    case (Inr y)
    then show ?thesis unfolding eq using D1(3) SelectRouteForLocRib_same [of _ _ _ _ D1] same_paths_lookup by (cases y) (fastforce simp: select_dest_def)
  qed
qed

end
