(* ===== verification/OpenMsg.thy ===== *)
theory OpenMsg
  imports AfiSafi
begin

text \<open>
  The OPEN message of bgp/packet/bgp.go: capabilities, optional parameters and the message body,
  with the helpers that read what the peer announced. Lengths keep the width the code gives them:
  \<open>BGPOptParamBase.TotalLen\<close> is a \<open>uint8\<close> that wraps, the cursor of \<open>BGPOpen.Decode\<close> too.
\<close>

section \<open>Capabilities\<close>

abbreviation (input) BGPCapTypeMPExt :: u8 where "BGPCapTypeMPExt \<equiv> 1"
abbreviation (input) BGPCapTypeAS4Path :: u8 where "BGPCapTypeAS4Path \<equiv> 65"
abbreviation (input) BGPCapTypeAddPath :: u8 where "BGPCapTypeAddPath \<equiv> 69"
abbreviation (input) BGPCapAddPathRx :: u8 where "BGPCapAddPathRx \<equiv> 1"
abbreviation (input) BGPCapAddPathTx :: u8 where "BGPCapAddPathTx \<equiv> 2"

record BGPCapabilityBase =
  Cap_Type :: u8
  Cap_Len :: u8

definition BGPCapabilityBase_TotalLen :: "BGPCapabilityBase \<Rightarrow> u16" where
  "BGPCapabilityBase_TotalLen b = ucast (Cap_Len b) + 2"

definition BGPCapabilityBase_Encode :: "BGPCapabilityBase \<Rightarrow> bytes pres" where
  "BGPCapabilityBase_Encode b =
     bind_r (set_r (replicate (unat (BGPCapabilityBase_TotalLen b)) 0) 0 (Cap_Type b)) (\<lambda>pkt.
     set_r pkt 1 (Cap_Len b))"

definition BGPCapabilityBase_Decode :: "bytes \<Rightarrow> BGPCapabilityBase pres" where
  "BGPCapabilityBase_Decode pkt =
     (if length pkt < 2 then msg_error BGPOpenMsgError BGPUnspecific []
      else bind_r (index_r pkt 0) (\<lambda>t. bind_r (index_r pkt 1) (\<lambda>l.
        let b = \<lparr>Cap_Type = t, Cap_Len = l\<rparr> in
        if length pkt < unat (BGPCapabilityBase_TotalLen b)
        then msg_error BGPUpdateMsgError BGPUnspecific [] else Inr b)))"

record BGPCapMPExt =
  MPExt_Base :: BGPCapabilityBase
  MPExt_AFI :: AFI
  MPExt_Reserved :: u8
  MPExt_SAFI :: SAFI

definition BGPCapMPExt_Encode :: "BGPCapMPExt \<Rightarrow> bytes pres" where
  "BGPCapMPExt_Encode mp =
     bind_r (BGPCapabilityBase_Encode (MPExt_Base mp)) (\<lambda>pkt.
     bind_r (put_r pkt 2 (be16 (MPExt_AFI mp))) (\<lambda>pkt.
     bind_r (set_r pkt 4 0) (\<lambda>pkt.
     set_r pkt 5 (MPExt_SAFI mp))))"

definition BGPCapMPExt_Decode :: "bytes \<Rightarrow> BGPCapMPExt pres" where
  "BGPCapMPExt_Decode pkt =
     bind_r (BGPCapabilityBase_Decode pkt) (\<lambda>b.
     bind_r (slice_from pkt 2) (\<lambda>s. bind_r (get16 s) (\<lambda>afi.
     bind_r (index_r pkt 5) (\<lambda>safi.
     Inr \<lparr>MPExt_Base = b, MPExt_AFI = afi, MPExt_Reserved = 0, MPExt_SAFI = safi\<rparr>))))"

definition NewBGPCapMPExt :: "AFI \<Rightarrow> SAFI \<Rightarrow> BGPCapMPExt" where
  "NewBGPCapMPExt afi safi =
     \<lparr>MPExt_Base = \<lparr>Cap_Type = BGPCapTypeMPExt, Cap_Len = 4\<rparr>, MPExt_AFI = afi,
      MPExt_Reserved = 0, MPExt_SAFI = safi\<rparr>"

record BGPCapAS4Path =
  AS4Cap_Base :: BGPCapabilityBase
  AS4Cap_Value :: u32

definition BGPCapAS4Path_Encode :: "BGPCapAS4Path \<Rightarrow> bytes pres" where
  "BGPCapAS4Path_Encode msg =
     bind_r (BGPCapabilityBase_Encode (AS4Cap_Base msg)) (\<lambda>pkt.
     put_r pkt 2 (be32 (AS4Cap_Value msg)))"

definition BGPCapAS4Path_Decode :: "bytes \<Rightarrow> BGPCapAS4Path pres" where
  "BGPCapAS4Path_Decode pkt =
     bind_r (BGPCapabilityBase_Decode pkt) (\<lambda>b.
     bind_r (slice_from pkt 2) (\<lambda>s. bind_r (get32 s) (\<lambda>v.
     Inr \<lparr>AS4Cap_Base = b, AS4Cap_Value = v\<rparr>)))"

definition NewBGPCap4ByteASPath :: "u32 \<Rightarrow> BGPCapAS4Path" where
  "NewBGPCap4ByteASPath as =
     \<lparr>AS4Cap_Base = \<lparr>Cap_Type = BGPCapTypeAS4Path, Cap_Len = 4\<rparr>, AS4Cap_Value = as\<rparr>"

record AddPathAFISAFI =
  AP_AFI :: AFI
  AP_SAFI :: SAFI
  AP_Flags :: u8

definition AddPathAFISAFI_Encode :: "AddPathAFISAFI \<Rightarrow> bytes \<Rightarrow> bytes pres" where
  "AddPathAFISAFI_Encode a pkt =
     bind_r (put_r pkt 0 (be16 (AP_AFI a))) (\<lambda>pkt.
     bind_r (set_r pkt 2 (AP_SAFI a)) (\<lambda>pkt.
     set_r pkt 3 (AP_Flags a)))"

definition AddPathAFISAFI_Decode :: "bytes \<Rightarrow> AddPathAFISAFI pres" where
  "AddPathAFISAFI_Decode pkt =
     (if length pkt < 4 then msg_error BGPOpenMsgError BGPUnspecific []
      else bind_r (get16 pkt) (\<lambda>afi. bind_r (index_r pkt 2) (\<lambda>safi. bind_r (index_r pkt 3) (\<lambda>flags.
        Inr \<lparr>AP_AFI = afi, AP_SAFI = safi, AP_Flags = flags\<rparr>))))"

definition AddPathAFISAFI_Len :: "AddPathAFISAFI \<Rightarrow> u8" where
  "AddPathAFISAFI_Len a = 4"

definition NewAddPathAFISAFI :: "AFI \<Rightarrow> SAFI \<Rightarrow> u8 \<Rightarrow> AddPathAFISAFI" where
  "NewAddPathAFISAFI afi safi flags = \<lparr>AP_AFI = afi, AP_SAFI = safi, AP_Flags = flags\<rparr>"

record BGPCapAddPath =
  AddPath_Base :: BGPCapabilityBase
  AddPath_Value :: "AddPathAFISAFI list"

fun addpath_encode_loop :: "AddPathAFISAFI list \<Rightarrow> u8 \<Rightarrow> bytes \<Rightarrow> bytes pres" where
  "addpath_encode_loop [] offset pkt = Inr pkt"
| "addpath_encode_loop (v # vs) offset pkt =
     bind_r (on_slice (AddPathAFISAFI_Encode v) pkt (unat offset)) (\<lambda>pkt.
     addpath_encode_loop vs (offset + AddPathAFISAFI_Len v) pkt)"

definition BGPCapAddPath_Encode :: "BGPCapAddPath \<Rightarrow> bytes pres" where
  "BGPCapAddPath_Encode msg =
     bind_r (BGPCapabilityBase_Encode (AddPath_Base msg)) (\<lambda>pkt.
     addpath_encode_loop (AddPath_Value msg) 2 pkt)"

function addpath_decode_loop ::
    "u8 \<Rightarrow> nat \<Rightarrow> bytes \<Rightarrow> AddPathAFISAFI list \<Rightarrow> (nat \<times> AddPathAFISAFI list) pres" where
  "addpath_decode_loop l offset pkt vs =
     (if offset < unat l then
        bind_r (slice_from pkt offset) (\<lambda>s. bind_r (AddPathAFISAFI_Decode s) (\<lambda>v.
        addpath_decode_loop l (offset + unat (AddPathAFISAFI_Len v)) pkt (vs @ [v])))
      else Inr (offset, vs))"
  by pat_completeness auto
termination
  by (relation "measure (\<lambda>(l, offset, pkt, vs). unat l - offset)") (auto simp: AddPathAFISAFI_Len_def)

declare addpath_decode_loop.simps [simp del]

definition BGPCapAddPath_Decode :: "bytes \<Rightarrow> BGPCapAddPath pres" where
  "BGPCapAddPath_Decode pkt =
     bind_r (BGPCapabilityBase_Decode pkt) (\<lambda>b.
     bind_r (addpath_decode_loop (Cap_Len b) 2 pkt []) (\<lambda>(offset, vs).
     if offset > unat (Cap_Len b + 2) then msg_error BGPOpenMsgError BGPUnspecific []
     else Inr \<lparr>AddPath_Base = b, AddPath_Value = vs\<rparr>))"

definition AddAddPathAFISAFI :: "BGPCapAddPath \<Rightarrow> AddPathAFISAFI \<Rightarrow> BGPCapAddPath" where
  "AddAddPathAFISAFI msg a =
     msg\<lparr>AddPath_Value := AddPath_Value msg @ [a],
         AddPath_Base := (AddPath_Base msg)\<lparr>Cap_Len := Cap_Len (AddPath_Base msg) + AddPathAFISAFI_Len a\<rparr>\<rparr>"

definition NewBGPCapAddPath :: BGPCapAddPath where
  "NewBGPCapAddPath = \<lparr>AddPath_Base = \<lparr>Cap_Type = BGPCapTypeAddPath, Cap_Len = 0\<rparr>, AddPath_Value = []\<rparr>"

record BGPCapUnknown =
  CapUnk_Base :: BGPCapabilityBase
  CapUnk_Value :: bytes

definition BGPCapUnknown_Encode :: "BGPCapUnknown \<Rightarrow> bytes pres" where
  "BGPCapUnknown_Encode msg =
     bind_r (BGPCapabilityBase_Encode (CapUnk_Base msg)) (\<lambda>pkt. copy_r pkt 2 (CapUnk_Value msg))"

text \<open>The value the bytes are copied into is the nil slice of the fresh struct: nothing is copied.\<close>

definition BGPCapUnknown_Decode :: "bytes \<Rightarrow> BGPCapUnknown pres" where
  "BGPCapUnknown_Decode pkt =
     bind_r (BGPCapabilityBase_Decode pkt) (\<lambda>b.
     bind_r (slice_r pkt 2 (unat (BGPCapabilityBase_TotalLen b))) (\<lambda>src.
     bind_r (copy_r [] 0 src) (\<lambda>v.
     Inr \<lparr>CapUnk_Base = b, CapUnk_Value = v\<rparr>)))"

datatype BGPCapability =
    CapMPExt BGPCapMPExt
  | CapAS4Path BGPCapAS4Path
  | CapAddPath BGPCapAddPath
  | CapUnknown BGPCapUnknown

fun BGPCapability_base :: "BGPCapability \<Rightarrow> BGPCapabilityBase" where
  "BGPCapability_base (CapMPExt c) = MPExt_Base c"
| "BGPCapability_base (CapAS4Path c) = AS4Cap_Base c"
| "BGPCapability_base (CapAddPath c) = AddPath_Base c"
| "BGPCapability_base (CapUnknown c) = CapUnk_Base c"

definition BGPCapability_TotalLen :: "BGPCapability \<Rightarrow> u16" where
  "BGPCapability_TotalLen c = BGPCapabilityBase_TotalLen (BGPCapability_base c)"

definition BGPCapability_GetCode :: "BGPCapability \<Rightarrow> u8" where
  "BGPCapability_GetCode c = Cap_Type (BGPCapability_base c)"

fun BGPCapability_Encode :: "BGPCapability \<Rightarrow> bytes pres" where
  "BGPCapability_Encode (CapMPExt c) = BGPCapMPExt_Encode c"
| "BGPCapability_Encode (CapAS4Path c) = BGPCapAS4Path_Encode c"
| "BGPCapability_Encode (CapAddPath c) = BGPCapAddPath_Encode c"
| "BGPCapability_Encode (CapUnknown c) = BGPCapUnknown_Encode c"

text \<open>\<open>GetCapParam\<close> picks the type by the first byte; the fresh value then decodes the same bytes.\<close>

definition GetCapParam_Decode :: "bytes \<Rightarrow> BGPCapability pres" where
  "GetCapParam_Decode pkt =
     bind_r (index_r pkt 0) (\<lambda>t.
       if t = BGPCapTypeMPExt then bind_r (BGPCapMPExt_Decode pkt) (\<lambda>c. Inr (CapMPExt c))
       else if t = BGPCapTypeAS4Path then bind_r (BGPCapAS4Path_Decode pkt) (\<lambda>c. Inr (CapAS4Path c))
       else if t = BGPCapTypeAddPath then bind_r (BGPCapAddPath_Decode pkt) (\<lambda>c. Inr (CapAddPath c))
       else bind_r (BGPCapUnknown_Decode pkt) (\<lambda>c. Inr (CapUnknown c)))"

section \<open>Optional parameters\<close>

abbreviation (input) BGPOptParamTypeCapability :: u8 where "BGPOptParamTypeCapability \<equiv> 2"

record BGPOptParamBase =
  Opt_Type :: u8
  Opt_Len :: u8

definition BGPOptParamBase_TotalLen :: "BGPOptParamBase \<Rightarrow> u8" where
  "BGPOptParamBase_TotalLen b = Opt_Len b + 2"

definition BGPOptParamBase_Encode :: "BGPOptParamBase \<Rightarrow> bytes pres" where
  "BGPOptParamBase_Encode b =
     bind_r (set_r (replicate 2 0) 0 (Opt_Type b)) (\<lambda>pkt. set_r pkt 1 (Opt_Len b))"

definition BGPOptParamBase_Decode :: "bytes \<Rightarrow> BGPOptParamBase pres" where
  "BGPOptParamBase_Decode pkt =
     (if length pkt < 2 then msg_error BGPOpenMsgError BGPUnspecific []
      else bind_r (index_r pkt 0) (\<lambda>t. bind_r (index_r pkt 1) (\<lambda>l.
        let b = \<lparr>Opt_Type = t, Opt_Len = l\<rparr> in
        if length pkt < unat (BGPOptParamBase_TotalLen b)
        then msg_error BGPUpdateMsgError BGPUnspecific [] else Inr b)))"

record BGPOptParamCapability =
  OptCap_Base :: BGPOptParamBase
  OptCap_Value :: "BGPCapability list"

definition BGPOptParamCapability_Encode :: "BGPOptParamCapability \<Rightarrow> bytes pres" where
  "BGPOptParamCapability_Encode msg =
     bind_r (BGPOptParamBase_Encode (OptCap_Base msg)) (\<lambda>pkt.
     bind_r (concat_r BGPCapability_Encode (OptCap_Value msg)) (\<lambda>bs. Inr (pkt @ bs)))"

definition BGPOptParamCapability_Decode :: "bytes \<Rightarrow> BGPOptParamCapability pres" where
  "BGPOptParamCapability_Decode pkt =
     bind_r (BGPOptParamBase_Decode pkt) (\<lambda>b.
     bind_r (decode_loop GetCapParam_Decode (\<lambda>c. unat (BGPCapability_TotalLen c))
               (int (unat (Opt_Len b))) pkt 2 []) (\<lambda>(v, paramsLen, offset).
     if paramsLen < 0 then msg_error BGPOpenMsgError BGPUnspecific []
     else Inr \<lparr>OptCap_Base = b, OptCap_Value = v\<rparr>))"

definition NewBGPOptParamCapability :: "BGPCapability list \<Rightarrow> BGPOptParamCapability" where
  "NewBGPOptParamCapability capabilities =
     (let paramsLen = sum_list (map BGPCapability_TotalLen capabilities) in
      \<lparr>OptCap_Base = \<lparr>Opt_Type = BGPOptParamTypeCapability, Opt_Len = ucast paramsLen\<rparr>,
       OptCap_Value = capabilities\<rparr>)"

record BGPOptParamUnknown =
  OptUnk_Base :: BGPOptParamBase
  OptUnk_Value :: bytes

definition BGPOptParamUnknown_Encode :: "BGPOptParamUnknown \<Rightarrow> bytes pres" where
  "BGPOptParamUnknown_Encode msg =
     bind_r (BGPOptParamBase_Encode (OptUnk_Base msg)) (\<lambda>pkt. copy_r pkt 2 (OptUnk_Value msg))"

definition BGPOptParamUnknown_Decode :: "bytes \<Rightarrow> BGPOptParamUnknown pres" where
  "BGPOptParamUnknown_Decode pkt =
     bind_r (BGPOptParamBase_Decode pkt) (\<lambda>b.
     bind_r (slice_from pkt 2) (\<lambda>src.
     bind_r (copy_r (replicate (unat (Opt_Len b)) 0) 0 src) (\<lambda>v.
     Inr \<lparr>OptUnk_Base = b, OptUnk_Value = v\<rparr>)))"

datatype BGPOptParam = OptCapability BGPOptParamCapability | OptUnknown BGPOptParamUnknown

fun BGPOptParam_base :: "BGPOptParam \<Rightarrow> BGPOptParamBase" where
  "BGPOptParam_base (OptCapability p) = OptCap_Base p"
| "BGPOptParam_base (OptUnknown p) = OptUnk_Base p"

definition BGPOptParam_TotalLen :: "BGPOptParam \<Rightarrow> u8" where
  "BGPOptParam_TotalLen p = BGPOptParamBase_TotalLen (BGPOptParam_base p)"

definition BGPOptParam_GetCode :: "BGPOptParam \<Rightarrow> u8" where
  "BGPOptParam_GetCode p = Opt_Type (BGPOptParam_base p)"

fun BGPOptParam_Encode :: "BGPOptParam \<Rightarrow> bytes pres" where
  "BGPOptParam_Encode (OptCapability p) = BGPOptParamCapability_Encode p"
| "BGPOptParam_Encode (OptUnknown p) = BGPOptParamUnknown_Encode p"

section \<open>The message body\<close>

record BGPOpen =
  Open_Version :: u8
  Open_MyAS :: u32
  Open_HoldTime :: u16
  Open_BGPId :: bytes
  Open_OptParamLen :: u8
  Open_OptParams :: "BGPOptParam list"

definition BGPOpen_Encode :: "BGPOpen \<Rightarrow> bytes pres" where
  "BGPOpen_Encode msg =
     bind_r (set_r (replicate 10 0) 0 (Open_Version msg)) (\<lambda>pkt.
     bind_r (put_r pkt 1 (be16 (ucast (Open_MyAS msg)))) (\<lambda>pkt.
     bind_r (put_r pkt 3 (be16 (Open_HoldTime msg))) (\<lambda>pkt.
     bind_r (copy_r pkt 5 (take 4 (To4 (Open_BGPId msg)))) (\<lambda>pkt.
     bind_r (concat_r BGPOptParam_Encode (Open_OptParams msg)) (\<lambda>bs.
     set_r (pkt @ bs) 9 (sum_list (map BGPOptParam_TotalLen (Open_OptParams msg))))))))"

definition GetOptParam_Decode :: "bytes \<Rightarrow> BGPOptParam pres" where
  "GetOptParam_Decode pkt =
     bind_r (index_r pkt 0) (\<lambda>t.
       if t = BGPOptParamTypeCapability
       then bind_r (BGPOptParamCapability_Decode pkt) (\<lambda>p. Inr (OptCapability p))
       else msg_error BGPOpenMsgError BGPUnsupportedOptionalParam [])"

text \<open>
  The parameter loop of \<open>BGPOpen.Decode\<close>. The cursor and the parameter length are \<open>uint8\<close>: the cursor
  wraps at 256, and a parameter whose length byte is 254 has a \<open>TotalLen\<close> of 0, so that the loop
  decodes it again and again.
\<close>

function open_params_loop :: "int \<Rightarrow> u8 \<Rightarrow> bytes \<Rightarrow> BGPOptParam list \<Rightarrow> (BGPOptParam list \<times> int) pres" where
  "open_params_loop paramsLen offset pkt ps =
     (if paramsLen \<le> 0 then Inr (ps, paramsLen)
      else bind_r (slice_from pkt (unat offset)) (\<lambda>s. bind_r (GetOptParam_Decode s) (\<lambda>p.
        if BGPOptParam_TotalLen p = 0 then Inl Diverges
        else open_params_loop (paramsLen - int (unat (BGPOptParam_TotalLen p)))
               (offset + BGPOptParam_TotalLen p) pkt (ps @ [p]))))"
  by pat_completeness auto
termination
  by (relation "measure (\<lambda>(paramsLen, offset, pkt, ps). nat paramsLen)")
     auto

declare open_params_loop.simps [simp del]

definition BGPOpen_Decode :: "bytes \<Rightarrow> BGPOpen pres" where
  "BGPOpen_Decode pkt =
     bind_r (index_r pkt 0) (\<lambda>version.
     bind_r (bind_r (slice_r pkt 1 3) get16) (\<lambda>myAS.
     bind_r (bind_r (slice_r pkt 3 5) get16) (\<lambda>holdTime.
     bind_r (slice_r pkt 5 9) (\<lambda>bgpId.
     bind_r (index_r pkt 9) (\<lambda>optLen.
     bind_r (open_params_loop (int (unat optLen)) 10 pkt []) (\<lambda>(ps, paramsLen).
     if paramsLen < 0 then msg_error BGPOpenMsgError BGPUnspecific []
     else Inr \<lparr>Open_Version = version, Open_MyAS = ucast myAS, Open_HoldTime = holdTime,
               Open_BGPId = To4 bgpId, Open_OptParamLen = optLen, Open_OptParams = ps\<rparr>))))))"

text \<open>\<open>NewBGPOpenMessage\<close>, the address already parsed into its bytes.\<close>

definition NewBGPOpen :: "u32 \<Rightarrow> u16 \<Rightarrow> bytes \<Rightarrow> BGPOptParam list \<Rightarrow> BGPOpen" where
  "NewBGPOpen myAS holdTime bgpId optParams =
     \<lparr>Open_Version = 4, Open_MyAS = (if myAS > 65535 then ucast BGPASTrans else myAS),
      Open_HoldTime = holdTime, Open_BGPId = bgpId,
      Open_OptParamLen = sum_list (map BGPOptParam_TotalLen optParams), Open_OptParams = optParams\<rparr>"

section \<open>What a peer announces\<close>

text \<open>
  \<open>ConstructOptParams\<close>: \<open>families\<close> is the order in which Go's map iteration happens to visit the
  configured families.
\<close>

definition ConstructOptParams :: "u32 \<Rightarrow> u32 list \<Rightarrow> bool \<Rightarrow> u8 \<Rightarrow> BGPOptParam list" where
  "ConstructOptParams as families addPathsRx addPathsMaxTx =
     (let flagsRx = (if addPathsRx then (0 OR BGPCapAddPathRx) else 0);
          addPathFlags = (if addPathsMaxTx > 0 then (flagsRx OR BGPCapAddPathTx) else flagsRx);
          mps = map (\<lambda>f. case GetAfiSafi f of (afi, safi) \<Rightarrow> CapMPExt (NewBGPCapMPExt afi safi)) families;
          capAddPaths = foldl (\<lambda>c f. case GetAfiSafi f of (afi, safi) \<Rightarrow>
                          AddAddPathAFISAFI c (NewAddPathAFISAFI afi safi addPathFlags)) NewBGPCapAddPath families;
          capParams = CapAS4Path (NewBGPCap4ByteASPath as) # mps
                      @ (if addPathFlags \<noteq> 0 then [CapAddPath capAddPaths] else [])
      in [OptCapability (NewBGPOptParamCapability capParams)])"

text \<open>
  The type assertion on a parameter that carries the capability code but is not one panics.
\<close>

fun GetASSize_params :: "BGPOptParam list \<Rightarrow> u8 pres" where
  "GetASSize_params [] = Inr 2"
| "GetASSize_params (OptCapability c # ps) =
     (if Opt_Type (OptCap_Base c) = BGPOptParamTypeCapability \<and>
         (\<exists>capa \<in> set (OptCap_Value c). BGPCapability_GetCode capa = BGPCapTypeAS4Path)
      then Inr 4 else GetASSize_params ps)"
| "GetASSize_params (OptUnknown u # ps) =
     (if Opt_Type (OptUnk_Base u) = BGPOptParamTypeCapability then Inl Panic else GetASSize_params ps)"

definition GetASSize :: "BGPOpen \<Rightarrow> u8 pres" where
  "GetASSize openMsg = GetASSize_params (Open_OptParams openMsg)"

text \<open>Entries of the first add-path capability; the first entry of a family counts.\<close>

fun add_path_entries :: "AddPathAFISAFI list \<Rightarrow> add_path_family \<Rightarrow> add_path_family" where
  "add_path_entries [] m = m"
| "add_path_entries (v # vs) m =
     add_path_entries vs
       (case map_of m (AP_AFI v, AP_SAFI v) of
          None \<Rightarrow> ((AP_AFI v, AP_SAFI v), AP_Flags v) # m
        | Some _ \<Rightarrow> m)"

fun first_add_path :: "BGPCapability list \<Rightarrow> BGPCapAddPath option" where
  "first_add_path [] = None"
| "first_add_path (CapAddPath c # cs) = Some c"
| "first_add_path (_ # cs) = first_add_path cs"

fun GetAddPathFamily_params :: "BGPOptParam list \<Rightarrow> add_path_family" where
  "GetAddPathFamily_params [] = []"
| "GetAddPathFamily_params (OptCapability c # ps) =
     (case first_add_path (OptCap_Value c) of
        Some ap \<Rightarrow> add_path_entries (AddPath_Value ap) []
      | None \<Rightarrow> GetAddPathFamily_params ps)"
| "GetAddPathFamily_params (OptUnknown u # ps) = GetAddPathFamily_params ps"

definition GetAddPathFamily :: "BGPOpen \<Rightarrow> add_path_family" where
  "GetAddPathFamily openMsg = GetAddPathFamily_params (Open_OptParams openMsg)"

definition IsAddPathsTxEnabledForIPv4 :: "add_path_family \<Rightarrow> bool" where
  "IsAddPathsTxEnabledForIPv4 addPathFamily = list_ex (\<lambda>(k, flags). flags AND BGPCapAddPathTx \<noteq> 0) addPathFamily"

fun mp_families :: "BGPCapability list \<Rightarrow> u32 list" where
  "mp_families [] = []"
| "mp_families (CapMPExt c # cs) = GetProtocolFamily (MPExt_AFI c) (MPExt_SAFI c) # mp_families cs"
| "mp_families (_ # cs) = mp_families cs"

fun param_families :: "BGPOptParam \<Rightarrow> u32 list" where
  "param_families (OptCapability c) = mp_families (OptCap_Value c)"
| "param_families (OptUnknown u) = []"

definition GetProtocolFromOpenMsg :: "BGPOpen \<Rightarrow> u32 set" where
  "GetProtocolFromOpenMsg openMsg = set (concat (map param_families (Open_OptParams openMsg)))"

section \<open>Encodings decode to what was encoded\<close>

lemma unat_CapTotalLen [simp]: "unat (BGPCapabilityBase_TotalLen b) = unat (Cap_Len b) + 2"
proof -
  have "unat (ucast (Cap_Len b) + 2 :: u16) = unat (ucast (Cap_Len b) :: u16) + unat (2 :: u16)"
    using u8_less [of "Cap_Len b"] by (intro unat_add_small) (simp del: u8_less)
  then show ?thesis by (simp add: BGPCapabilityBase_TotalLen_def)
qed

lemma BGPCapabilityBase_Encode_eq:
  "BGPCapabilityBase_Encode b = Inr (Cap_Type b # Cap_Len b # replicate (unat (Cap_Len b)) 0)"
  by (simp add: BGPCapabilityBase_Encode_def set_r_def)

lemma BGPCapabilityBase_Decode_ok:
  "unat (Cap_Len b) \<le> length rest \<Longrightarrow>
   BGPCapabilityBase_Decode (Cap_Type b # Cap_Len b # rest) = Inr b"
  by (simp add: BGPCapabilityBase_Decode_def Let_def)

fun wf_cap :: "BGPCapability \<Rightarrow> bool" where
  "wf_cap (CapMPExt c) \<longleftrightarrow>
     MPExt_Base c = \<lparr>Cap_Type = BGPCapTypeMPExt, Cap_Len = 4\<rparr> \<and> MPExt_Reserved c = 0"
| "wf_cap (CapAS4Path c) \<longleftrightarrow> AS4Cap_Base c = \<lparr>Cap_Type = BGPCapTypeAS4Path, Cap_Len = 4\<rparr>"
| "wf_cap (CapAddPath c) \<longleftrightarrow>
     Cap_Type (AddPath_Base c) = BGPCapTypeAddPath \<and>
     unat (Cap_Len (AddPath_Base c)) = 4 * length (AddPath_Value c)"
| "wf_cap (CapUnknown c) \<longleftrightarrow>
     Cap_Type (CapUnk_Base c) \<notin> {BGPCapTypeMPExt, BGPCapTypeAS4Path, BGPCapTypeAddPath} \<and>
     CapUnk_Value c = []"

lemma mpext_roundtrip:
  assumes "wf_cap (CapMPExt c)"
  shows "BGPCapMPExt_Encode c = Inr ([1, 4] @ be16 (MPExt_AFI c) @ [0, MPExt_SAFI c])"
    and "BGPCapMPExt_Decode (([1, 4] @ be16 (MPExt_AFI c) @ [0, MPExt_SAFI c]) @ rest) = Inr c"
proof -
  show "BGPCapMPExt_Encode c = Inr ([1, 4] @ be16 (MPExt_AFI c) @ [0, MPExt_SAFI c])"
    using assms by (simp add: BGPCapMPExt_Encode_def BGPCapabilityBase_Encode_eq put_r_def set_r_def be16_def)
  show "BGPCapMPExt_Decode (([1, 4] @ be16 (MPExt_AFI c) @ [0, MPExt_SAFI c]) @ rest) = Inr c"
    using assms BGPCapabilityBase_Decode_ok [of "MPExt_Base c" "be16 (MPExt_AFI c) @ [0, MPExt_SAFI c] @ rest"]
    by (simp add: BGPCapMPExt_Decode_def slice_from_def index_r_def nth_append)
qed

lemma as4cap_roundtrip:
  assumes "wf_cap (CapAS4Path c)"
  shows "BGPCapAS4Path_Encode c = Inr ([65, 4] @ be32 (AS4Cap_Value c))"
    and "BGPCapAS4Path_Decode (([65, 4] @ be32 (AS4Cap_Value c)) @ rest) = Inr c"
proof -
  show "BGPCapAS4Path_Encode c = Inr ([65, 4] @ be32 (AS4Cap_Value c))"
    using assms by (simp add: BGPCapAS4Path_Encode_def BGPCapabilityBase_Encode_eq put_r_def)
  show "BGPCapAS4Path_Decode (([65, 4] @ be32 (AS4Cap_Value c)) @ rest) = Inr c"
    using assms BGPCapabilityBase_Decode_ok [of "AS4Cap_Base c" "be32 (AS4Cap_Value c) @ rest"]
    by (simp add: BGPCapAS4Path_Decode_def slice_from_def)
qed

definition ap_bytes :: "AddPathAFISAFI \<Rightarrow> bytes" where
  "ap_bytes a = be16 (AP_AFI a) @ [AP_SAFI a, AP_Flags a]"

lemma length_ap_bytes [simp]: "length (ap_bytes a) = 4"
  by (simp add: ap_bytes_def)

lemma AddPathAFISAFI_Encode_eq:
  assumes "4 \<le> length pkt"
  shows "AddPathAFISAFI_Encode a pkt = Inr (ap_bytes a @ drop 4 pkt)"
proof -
  obtain w x y z r where "pkt = w # x # y # z # r"
    using assms by (metis Suc_le_length_iff numeral_eq_Suc pred_numeral_simps(2,3) BitM.simps semiring_norm(26,27,28) One_nat_def)
  then show ?thesis
    by (simp add: AddPathAFISAFI_Encode_def put_r_def set_r_def ap_bytes_def be16_def)
qed

lemma AddPathAFISAFI_Decode_eq: "AddPathAFISAFI_Decode (ap_bytes a @ rest) = Inr a"
  by (simp add: AddPathAFISAFI_Decode_def ap_bytes_def index_r_def nth_append)

lemma unat_AddPathLen [simp]: "unat (AddPathAFISAFI_Len a) = 4"
  by (simp add: AddPathAFISAFI_Len_def)

lemma addpath_encode_loop_eq:
  "length pre = unat offset \<Longrightarrow> length mid = 4 * length vs \<Longrightarrow> unat offset + 4 * length vs < 256 \<Longrightarrow>
   addpath_encode_loop vs offset (pre @ mid) = Inr (pre @ concat (map ap_bytes vs))"
proof (induction vs arbitrary: offset pre mid)
  case Nil
  then show ?case by simp
next
  case (Cons v vs)
  have enc: "AddPathAFISAFI_Encode v mid = Inr (ap_bytes v @ drop 4 mid)"
    using Cons.prems by (intro AddPathAFISAFI_Encode_eq) simp
  have off: "unat (offset + AddPathAFISAFI_Len v) = unat offset + 4"
    using Cons.prems by (subst unat_add_small) simp_all
  have "addpath_encode_loop vs (offset + AddPathAFISAFI_Len v) ((pre @ ap_bytes v) @ drop 4 mid)
      = Inr ((pre @ ap_bytes v) @ concat (map ap_bytes vs))"
    using Cons.prems off by (intro Cons.IH) simp_all
  moreover have "on_slice (AddPathAFISAFI_Encode v) (pre @ mid) (unat offset)
      = Inr (pre @ ap_bytes v @ drop 4 mid)"
    using on_slice_mid [of "AddPathAFISAFI_Encode v" mid _ pre, OF enc] Cons.prems(1) by simp
  ultimately show ?case by simp
qed

lemma addpath_decode_loop_eq:
  "unat l = 4 * (k + length vs) \<Longrightarrow> length pre = 2 + 4 * k \<Longrightarrow>
   addpath_decode_loop l (2 + 4 * k) (pre @ concat (map ap_bytes vs) @ rest) acc
     = Inr (2 + 4 * (k + length vs), acc @ vs)"
proof (induction vs arbitrary: k pre acc)
  case Nil
  then show ?case by (simp add: addpath_decode_loop.simps)
next
  case (Cons v vs)
  have dec: "AddPathAFISAFI_Decode (drop (2 + 4 * k) (pre @ concat (map ap_bytes (v # vs)) @ rest)) = Inr v"
    using Cons.prems AddPathAFISAFI_Decode_eq [of v "concat (map ap_bytes vs) @ rest"] by simp
  have "addpath_decode_loop l (2 + 4 * k) (pre @ concat (map ap_bytes (v # vs)) @ rest) acc
      = addpath_decode_loop l (2 + 4 * Suc k) ((pre @ ap_bytes v) @ concat (map ap_bytes vs) @ rest) (acc @ [v])"
    using Cons.prems dec
    by (subst addpath_decode_loop.simps) (simp add: slice_from_def)
  also have "\<dots> = Inr (2 + 4 * (Suc k + length vs), (acc @ [v]) @ vs)"
    using Cons.prems by (intro Cons.IH) simp_all
  finally show ?case by simp
qed

lemma addpath_roundtrip:
  assumes "wf_cap (CapAddPath c)"
  shows "BGPCapAddPath_Encode c = Inr ([69, Cap_Len (AddPath_Base c)] @ concat (map ap_bytes (AddPath_Value c)))"
    and "BGPCapAddPath_Decode (([69, Cap_Len (AddPath_Base c)] @ concat (map ap_bytes (AddPath_Value c))) @ rest) = Inr c"
proof -
  let ?vs = "AddPath_Value c" and ?b = "AddPath_Base c"
  have t: "Cap_Type ?b = 69" and l: "unat (Cap_Len ?b) = 4 * length ?vs"
    using assms by auto
  have len: "length (concat (map ap_bytes ?vs)) = 4 * length ?vs"
    by (induction ?vs) (simp_all add: length_concat comp_def sum_list_triv)
  have small: "4 * length ?vs < 256" using l u8_less [of "Cap_Len ?b"] by simp
  then have small': "2 + 4 * length ?vs < 256" by presburger
  show "BGPCapAddPath_Encode c = Inr ([69, Cap_Len ?b] @ concat (map ap_bytes ?vs))"
    using addpath_encode_loop_eq [of "[69, Cap_Len ?b]" 2 "replicate (unat (Cap_Len ?b)) 0" ?vs] small' t
    by (simp add: BGPCapAddPath_Encode_def BGPCapabilityBase_Encode_eq l)
  have d: "BGPCapabilityBase_Decode (([69, Cap_Len ?b] @ concat (map ap_bytes ?vs)) @ rest) = Inr ?b"
    using BGPCapabilityBase_Decode_ok [of ?b "concat (map ap_bytes ?vs) @ rest"] t l len by simp
  have loop: "addpath_decode_loop (Cap_Len ?b) 2 (([69, Cap_Len ?b] @ concat (map ap_bytes ?vs)) @ rest) []
      = Inr (2 + 4 * length ?vs, ?vs)"
    using addpath_decode_loop_eq [of "Cap_Len ?b" 0 ?vs "[69, Cap_Len ?b]" rest "[]"] l by simp
  have "unat (Cap_Len ?b + 2) = unat (Cap_Len ?b) + 2"
    using small' l by (subst unat_add_small) simp_all
  then show "BGPCapAddPath_Decode (([69, Cap_Len ?b] @ concat (map ap_bytes ?vs)) @ rest) = Inr c"
    using d loop l by (simp add: BGPCapAddPath_Decode_def)
qed

lemma unknown_cap_roundtrip:
  assumes "wf_cap (CapUnknown c)"
  shows "BGPCapUnknown_Encode c
      = Inr ([Cap_Type (CapUnk_Base c), Cap_Len (CapUnk_Base c)] @ replicate (unat (Cap_Len (CapUnk_Base c))) 0)"
    and "BGPCapUnknown_Decode (([Cap_Type (CapUnk_Base c), Cap_Len (CapUnk_Base c)]
      @ replicate (unat (Cap_Len (CapUnk_Base c))) 0) @ rest) = Inr c"
proof -
  let ?b = "CapUnk_Base c"
  show "BGPCapUnknown_Encode c = Inr ([Cap_Type ?b, Cap_Len ?b] @ replicate (unat (Cap_Len ?b)) 0)"
    using assms by (simp add: BGPCapUnknown_Encode_def BGPCapabilityBase_Encode_eq copy_r_def)
  show "BGPCapUnknown_Decode (([Cap_Type ?b, Cap_Len ?b] @ replicate (unat (Cap_Len ?b)) 0) @ rest) = Inr c"
    using assms BGPCapabilityBase_Decode_ok [of ?b "replicate (unat (Cap_Len ?b)) 0 @ rest"]
    by (simp add: BGPCapUnknown_Decode_def slice_r_def copy_r_def)
qed

interpretation cap_codec: tlv BGPCapability_Encode GetCapParam_Decode
  "\<lambda>c. unat (BGPCapability_TotalLen c)" wf_cap
proof unfold_locales
  fix c :: BGPCapability
  assume wf: "wf_cap c"
  have lap: "length (concat (map ap_bytes vs)) = 4 * length vs" for vs
    by (simp add: length_concat comp_def sum_list_triv)
  show "\<exists>bs. BGPCapability_Encode c = Inr bs \<and> length bs = unat (BGPCapability_TotalLen c)"
    using wf by (cases c)
      (simp_all add: mpext_roundtrip as4cap_roundtrip addpath_roundtrip unknown_cap_roundtrip
        BGPCapability_TotalLen_def lap)
  show "0 < unat (BGPCapability_TotalLen c)"
    by (simp add: BGPCapability_TotalLen_def del: unat_pos)
  fix bs rest
  assume e: "BGPCapability_Encode c = Inr bs"
  show "GetCapParam_Decode (bs @ rest) = Inr c"
  proof (cases c)
    case (CapMPExt x)
    with wf e mpext_roundtrip(1) [of x] mpext_roundtrip(2) [of x rest] show ?thesis by (auto simp: GetCapParam_Decode_def)
  next
    case (CapAS4Path x)
    with wf e as4cap_roundtrip(1) [of x] as4cap_roundtrip(2) [of x rest] show ?thesis by (auto simp: GetCapParam_Decode_def)
  next
    case (CapAddPath x)
    with wf e addpath_roundtrip(1) [of x] addpath_roundtrip(2) [of x rest] show ?thesis by (auto simp: GetCapParam_Decode_def)
  next
    case (CapUnknown x)
    with wf e unknown_cap_roundtrip(1) [of x] unknown_cap_roundtrip(2) [of x rest] show ?thesis by (auto simp: GetCapParam_Decode_def)
  qed
qed

fun wf_opt :: "BGPOptParam \<Rightarrow> bool" where
  "wf_opt (OptCapability p) \<longleftrightarrow>
     Opt_Type (OptCap_Base p) = BGPOptParamTypeCapability \<and> list_all wf_cap (OptCap_Value p) \<and>
     unat (Opt_Len (OptCap_Base p)) = sum_list (map (\<lambda>c. unat (BGPCapability_TotalLen c)) (OptCap_Value p)) \<and>
     unat (Opt_Len (OptCap_Base p)) < 254"
| "wf_opt (OptUnknown p) \<longleftrightarrow> False"

lemma unat_OptTotalLen: "unat (Opt_Len b) < 254 \<Longrightarrow> unat (BGPOptParamBase_TotalLen b) = unat (Opt_Len b) + 2"
  unfolding BGPOptParamBase_TotalLen_def by (subst unat_add_small) simp_all

lemma BGPOptParamBase_Encode_eq [simp]: "BGPOptParamBase_Encode b = Inr [Opt_Type b, Opt_Len b]"
  by (simp add: BGPOptParamBase_Encode_def set_r_def)

lemma opt_capability_decode:
  assumes "list_all wf_cap cs" "concat_r BGPCapability_Encode cs = Inr bs"
    and "length bs = unat (Opt_Len b)"
  shows "BGPOptParamCapability_Decode ([Opt_Type b, Opt_Len b] @ bs @ rest)
     = Inr \<lparr>OptCap_Base = b, OptCap_Value = cs\<rparr>"
proof -
  have "unat (BGPOptParamBase_TotalLen b) \<le> unat (Opt_Len b) + 2"
    unfolding BGPOptParamBase_TotalLen_def by (simp add: unat_word_ariths)
  then have base: "BGPOptParamBase_Decode ([Opt_Type b, Opt_Len b] @ bs @ rest) = Inr b"
    using assms(3) by (cases b) (simp add: BGPOptParamBase_Decode_def Let_def)
  show ?thesis
    using cap_codec.decode_loop_concat [OF assms(1,2), of "[Opt_Type b, Opt_Len b]" rest "[]"] base assms(3)
    by (simp add: BGPOptParamCapability_Decode_def numeral_2_eq_2)
qed

interpretation opt_codec: tlv BGPOptParam_Encode GetOptParam_Decode
  "\<lambda>p. unat (BGPOptParam_TotalLen p)" wf_opt
proof unfold_locales
  fix p :: BGPOptParam
  assume wf: "wf_opt p"
  then obtain c where p: "p = OptCapability c" by (cases p) auto
  let ?b = "OptCap_Base c"
  have cs: "list_all wf_cap (OptCap_Value c)" and t: "Opt_Type ?b = 2" and lt: "unat (Opt_Len ?b) < 254"
    and l: "unat (Opt_Len ?b) = sum_list (map (\<lambda>c. unat (BGPCapability_TotalLen c)) (OptCap_Value c))"
    using wf p by auto
  obtain cb where cb: "concat_r BGPCapability_Encode (OptCap_Value c) = Inr cb" "length cb = unat (Opt_Len ?b)"
    using cap_codec.concat_ok [OF cs] l by auto
  have enc: "BGPOptParam_Encode p = Inr ([Opt_Type ?b, Opt_Len ?b] @ cb)"
    by (simp add: p BGPOptParamCapability_Encode_def cb)
  have len: "unat (BGPOptParam_TotalLen p) = unat (Opt_Len ?b) + 2"
    by (simp add: p BGPOptParam_TotalLen_def unat_OptTotalLen [OF lt])
  show "\<exists>bs. BGPOptParam_Encode p = Inr bs \<and> length bs = unat (BGPOptParam_TotalLen p)"
    using enc len cb by simp
  show "0 < unat (BGPOptParam_TotalLen p)"
    using len by (simp del: unat_pos)
  fix bs rest
  assume "BGPOptParam_Encode p = Inr bs"
  then have "bs = [Opt_Type ?b, Opt_Len ?b] @ cb" using enc by simp
  then show "GetOptParam_Decode (bs @ rest) = Inr p"
    using opt_capability_decode [OF cs cb(1) cb(2), of rest] t by (simp add: GetOptParam_Decode_def p)
qed

text \<open>As long as the parameters end below byte 256 the wrapping cursor is the plain one.\<close>

lemma open_params_loop_eq:
  "int (unat off) + rem \<le> 255 \<Longrightarrow>
   open_params_loop rem off pkt ps =
     bind_r (decode_loop GetOptParam_Decode (\<lambda>p. unat (BGPOptParam_TotalLen p)) rem pkt (unat off) ps)
       (\<lambda>(v, r, _). Inr (v, r))"
proof (induction rem off pkt ps rule: open_params_loop.induct)
  case (1 rem off pkt ps)
  let ?len = "\<lambda>p. unat (BGPOptParam_TotalLen p)"
  show ?case
  proof (cases "rem \<le> 0 \<or> (\<exists>e. bind_r (slice_from pkt (unat off)) GetOptParam_Decode = Inl e)")
    case True
    then show ?thesis
      by (subst open_params_loop.simps, subst decode_loop.simps) (auto simp: bind_r_eq_Inl)
  next
    case False
    then obtain s p where step: "rem > 0" "(slice_from pkt (unat off) :: bytes pres) = Inr s" "GetOptParam_Decode s = Inr p"
      by (cases "bind_r (slice_from pkt (unat off)) GetOptParam_Decode") (auto simp: bind_r_eq_Inr)
    show ?thesis
    proof (cases "BGPOptParam_TotalLen p = 0")
      case True
      with step show ?thesis by (subst open_params_loop.simps, subst decode_loop.simps) simp
    next
      case nz: False
      let ?rem = "rem - int (?len p)" and ?off = "off + BGPOptParam_TotalLen p"
      have "open_params_loop ?rem ?off pkt (ps @ [p]) =
         bind_r (decode_loop GetOptParam_Decode ?len ?rem pkt (unat off + ?len p) (ps @ [p])) (\<lambda>(v, r, _). Inr (v, r))"
      proof (cases "?rem \<le> 0")
        case True
        then show ?thesis by (simp add: open_params_loop.simps)
      next
        case False
        then have "unat off + ?len p < 256" using "1.prems" by linarith
        then have off: "unat ?off = unat off + ?len p" by (simp add: unat_add_small)
        then have "int (unat ?off) + ?rem \<le> 255" using "1.prems" by simp
        then show ?thesis using "1.IH" [OF _ step(2,3) nz] step(1) off by auto
      qed
      then show ?thesis
        using step nz by (subst open_params_loop.simps, subst decode_loop.simps) simp
    qed
  qed
qed

definition params_len :: "BGPOpen \<Rightarrow> nat" where
  "params_len msg = sum_list (map (\<lambda>p. unat (BGPOptParam_TotalLen p)) (Open_OptParams msg))"

definition wf_open :: "BGPOpen \<Rightarrow> bool" where
  "wf_open msg \<longleftrightarrow>
     Open_MyAS msg \<le> 65535 \<and> To4 (Open_BGPId msg) \<noteq> [] \<and> list_all wf_opt (Open_OptParams msg) \<and>
     params_len msg \<le> 245 \<and> unat (Open_OptParamLen msg) = params_len msg"

lemma ucast_ucast_32_16: "w \<le> 65535 \<Longrightarrow> ucast (ucast w :: u16) = w" for w :: u32
  by (rule word_unat_eqI) (simp add: unsigned_ucast_eq unsigned_take_bit_eq take_bit_nat_eq_self_iff word_le_nat_alt)

lemma open_roundtrip:
  assumes "wf_open msg"
  shows "\<exists>bs. BGPOpen_Encode msg = Inr bs \<and> length bs = 10 + params_len msg \<and>
              (\<forall>rest. BGPOpen_Decode (bs @ rest) = Inr (msg\<lparr>Open_BGPId := To4 (Open_BGPId msg)\<rparr>))"
proof -
  let ?n = "params_len msg"
  let ?id = "To4 (Open_BGPId msg)"
  have id4: "length ?id = 4" and ps: "list_all wf_opt (Open_OptParams msg)"
    and n: "?n \<le> 245" "unat (Open_OptParamLen msg) = ?n" and as: "Open_MyAS msg \<le> 65535"
    using assms length_To4 [of "Open_BGPId msg"] by (auto simp: wf_open_def)
  obtain pb where pb: "concat_r BGPOptParam_Encode (Open_OptParams msg) = Inr pb" "length pb = ?n"
    using opt_codec.concat_ok [OF ps] by (auto simp: params_len_def)
  have total: "sum_list (map BGPOptParam_TotalLen (Open_OptParams msg)) = Open_OptParamLen msg"
    using n by (intro word_unat_eqI) (subst unat_sum_list, simp_all add: params_len_def)
  let ?h = "[Open_Version msg] @ be16 (ucast (Open_MyAS msg)) @ be16 (Open_HoldTime msg) @ ?id
            @ [Open_OptParamLen msg]"
  have enc: "BGPOpen_Encode msg = Inr (?h @ pb)"
    using id4 by (simp add: BGPOpen_Encode_def set_r_def put_r_def copy_r_def pb total be16_def list_update_append)
  have "BGPOpen_Decode ((?h @ pb) @ rest) = Inr (msg\<lparr>Open_BGPId := ?id\<rparr>)" for rest
  proof -
    let ?pkt = "(?h @ pb) @ rest"
    have "decode_loop GetOptParam_Decode (\<lambda>p. unat (BGPOptParam_TotalLen p)) (int ?n) ?pkt 10 []
        = Inr (Open_OptParams msg, 0, 10 + ?n)"
      using opt_codec.decode_loop_concat [OF ps pb(1), of ?h rest "[]"] pb(2) id4 by simp
    then have loop: "open_params_loop (int (unat (Open_OptParamLen msg))) 10 ?pkt [] = Inr (Open_OptParams msg, 0)"
      using n by (subst open_params_loop_eq) (simp_all only: n(2), simp_all)
    have "index_r ?pkt 0 = (Inr (Open_Version msg) :: u8 pres)" "slice_r ?pkt 1 3 = (Inr (be16 (ucast (Open_MyAS msg))) :: bytes pres)"
      "slice_r ?pkt 3 5 = (Inr (be16 (Open_HoldTime msg)) :: bytes pres)" "slice_r ?pkt 5 9 = (Inr ?id :: bytes pres)"
      "index_r ?pkt 9 = (Inr (Open_OptParamLen msg) :: u8 pres)"
      using id4 by (simp_all add: slice_r_def be16_def index_r_def nth_append)
    then show ?thesis
      using loop id4 by (simp add: BGPOpen_Decode_def ucast_ucast_32_16 [OF as])
  qed
  then show ?thesis using enc pb id4 by auto
qed

lemma open_len254_diverges:
  assumes "length hdr = 9" "optLen \<noteq> 0" "list_all wf_cap cs"
    and "concat_r BGPCapability_Encode cs = Inr bs" "length bs = 254"
  shows "BGPOpen_Decode (hdr @ [optLen] @ [2, 254] @ bs @ rest) = Inl Diverges"
proof -
  let ?b = "\<lparr>Opt_Type = 2, Opt_Len = 254\<rparr>" and ?pkt = "hdr @ [optLen] @ [2, 254] @ bs @ rest"
  have "GetOptParam_Decode (drop 10 ?pkt) = Inr (OptCapability \<lparr>OptCap_Base = ?b, OptCap_Value = cs\<rparr>)"
    using opt_capability_decode [of cs bs ?b rest] assms by (simp add: GetOptParam_Decode_def)
  then have "open_params_loop (int (unat optLen)) 10 ?pkt [] = Inl Diverges"
    using assms(1) uint_pos [of optLen] assms(2)
    by (subst open_params_loop.simps) (simp add: slice_from_def BGPOptParam_TotalLen_def BGPOptParamBase_TotalLen_def uint_0_iff)
  moreover have "slice_r ?pkt 1 3 = (Inr [hdr ! 1, hdr ! 2] :: bytes pres)" "slice_r ?pkt 3 5 = (Inr [hdr ! 3, hdr ! 4] :: bytes pres)"
    "slice_r ?pkt 5 9 = (Inr (drop 5 hdr) :: bytes pres)"
    using assms(1) by (simp_all add: slice_r_def list_eq_iff_nth_eq nth_Cons numeral_eq_Suc less_Suc_eq nth_append)
  ultimately show ?thesis
    using assms(1) by (simp add: BGPOpen_Decode_def index_r_def nth_append)
qed

lemma open_short_panics: "length pkt < 10 \<Longrightarrow> BGPOpen_Decode pkt = Inl Panic"
  by (auto simp: BGPOpen_Decode_def index_r_def slice_r_def bind_r_def get16_panic_iff split: sum.splits if_splits)

section \<open>What an OPEN built by this speaker tells its peer\<close>

lemma GetProtocolFamily_GetAfiSafi:
  assumes "f < 65536"
  shows "GetProtocolFamily (fst (GetAfiSafi f)) (snd (GetAfiSafi f)) = f"
proof -
  have "f < 2 ^ 16" using assms by simp
  then have "f = take_bit 16 f" by (simp add: less_mask_eq take_bit_eq_mask)
  then have hi: "bit f n \<Longrightarrow> n < 16" for n by (metis bit_take_bit_iff)
  have ff: "(0xFF :: u32) = mask 8" by (simp add: mask_eq_exp_minus_1)
  show ?thesis
    unfolding GetProtocolFamily_def GetAfiSafi_def ff
    by (rule bit_word_eqI) (auto simp: bit_simps dest: hi)
qed

abbreviation ap_entry :: "u8 \<Rightarrow> u32 \<Rightarrow> AddPathAFISAFI" where
  "ap_entry flags f \<equiv> NewAddPathAFISAFI (fst (GetAfiSafi f)) (snd (GetAfiSafi f)) flags"

lemma foldl_add_paths:
  "foldl (\<lambda>c f. AddAddPathAFISAFI c (ap_entry flags f)) c fs
   = \<lparr>AddPath_Base = (AddPath_Base c)\<lparr>Cap_Len := Cap_Len (AddPath_Base c) + of_nat (4 * length fs)\<rparr>,
      AddPath_Value = AddPath_Value c @ map (ap_entry flags) fs\<rparr>"
proof (induction fs arbitrary: c)
  case Nil
  then show ?case by (cases c) simp
next
  case (Cons f fs)
  then show ?case
    by (simp add: AddAddPathAFISAFI_def AddPathAFISAFI_Len_def algebra_simps)
qed

definition addPathFlags :: "bool \<Rightarrow> u8 \<Rightarrow> u8" where
  "addPathFlags rx tx = (if rx then BGPCapAddPathRx else 0) OR (if tx > 0 then BGPCapAddPathTx else 0)"

definition offered :: "u32 \<Rightarrow> u32 list \<Rightarrow> bool \<Rightarrow> u8 \<Rightarrow> BGPCapability list" where
  "offered as fs rx tx =
     CapAS4Path (NewBGPCap4ByteASPath as)
     # map (\<lambda>f. CapMPExt (NewBGPCapMPExt (fst (GetAfiSafi f)) (snd (GetAfiSafi f)))) fs
     @ (if addPathFlags rx tx \<noteq> 0
        then [CapAddPath \<lparr>AddPath_Base = \<lparr>Cap_Type = BGPCapTypeAddPath, Cap_Len = of_nat (4 * length fs)\<rparr>,
                          AddPath_Value = map (ap_entry (addPathFlags rx tx)) fs\<rparr>]
        else [])"

lemma ConstructOptParams_eq:
  "ConstructOptParams as fs rx tx = [OptCapability (NewBGPOptParamCapability (offered as fs rx tx))]"
  by (simp add: ConstructOptParams_def Let_def foldl_add_paths NewBGPCapAddPath_def offered_def
      addPathFlags_def case_prod_beta)

lemma unat_four_times: "n \<le> 63 \<Longrightarrow> unat (4 * word_of_nat n :: u8) = 4 * n"
proof -
  assume n: "n \<le> 63"
  have "4 * word_of_nat n = (word_of_nat (4 * n) :: u8)" by simp
  then show ?thesis using n by (simp only: unsigned_of_nat) (simp add: take_bit_nat_eq_self_iff)
qed

lemma offered_wf: "length fs \<le> 23 \<Longrightarrow> list_all wf_cap (offered as fs rx tx)"
  by (auto simp: offered_def list_all_iff NewBGPCap4ByteASPath_def NewBGPCapMPExt_def unat_four_times)

lemma offered_len:
  assumes "length fs \<le> 23"
  shows "sum_list (map (\<lambda>c. unat (BGPCapability_TotalLen c)) (offered as fs rx tx)) \<le> 8 + 10 * length fs"
proof -
  have "sum_list (map (\<lambda>f. unat (BGPCapability_TotalLen (CapMPExt (NewBGPCapMPExt (fst (GetAfiSafi f)) (snd (GetAfiSafi f)))))) fs)
     = 6 * length fs"
    by (simp add: BGPCapability_TotalLen_def NewBGPCapMPExt_def sum_list_triv)
  moreover have "unat (of_nat (4 * length fs) :: u8) = 4 * length fs"
    using assms by (simp add: unat_four_times)
  ultimately show ?thesis
    by (simp add: offered_def BGPCapability_TotalLen_def NewBGPCap4ByteASPath_def comp_def)
qed

lemma NewBGPOptParamCapability_wf:
  assumes "list_all wf_cap cs" "sum_list (map (\<lambda>c. unat (BGPCapability_TotalLen c)) cs) < 254"
  shows "wf_opt (OptCapability (NewBGPOptParamCapability cs))"
proof -
  let ?n = "sum_list (map (\<lambda>c. unat (BGPCapability_TotalLen c)) cs)"
  have "unat (sum_list (map BGPCapability_TotalLen cs)) = ?n"
    using assms(2) by (intro unat_sum_list) simp
  then have "unat (ucast (sum_list (map BGPCapability_TotalLen cs)) :: u8) = ?n"
    using assms(2) by (simp add: unsigned_ucast_eq take_bit_nat_eq_self_iff)
  then show ?thesis
    using assms by (simp add: NewBGPOptParamCapability_def Let_def)
qed

lemma open_sent_wf:
  assumes "length fs \<le> 23" "To4 rid \<noteq> []"
  shows "wf_open (NewBGPOpen as holdTime rid (ConstructOptParams as fs rx tx))"
proof -
  let ?p = "NewBGPOptParamCapability (offered as fs rx tx)"
  let ?n = "sum_list (map (\<lambda>c. unat (BGPCapability_TotalLen c)) (offered as fs rx tx))"
  have n: "?n \<le> 238" using offered_len [OF assms(1), of as rx tx] assms(1) by linarith
  then have wf: "wf_opt (OptCapability ?p)"
    by (intro NewBGPOptParamCapability_wf offered_wf assms) simp
  then have "unat (BGPOptParam_TotalLen (OptCapability ?p)) = ?n + 2"
    by (simp add: BGPOptParam_TotalLen_def unat_OptTotalLen NewBGPOptParamCapability_def Let_def)
  then show ?thesis
    using assms wf n
    by (auto simp: wf_open_def NewBGPOpen_def ConstructOptParams_eq params_len_def not_less)
qed

lemma mp_families_append: "mp_families (cs @ ds) = mp_families cs @ mp_families ds"
  by (induction cs rule: mp_families.induct) simp_all

lemma mp_families_map:
  "mp_families (map (\<lambda>f. CapMPExt (NewBGPCapMPExt (fst (GetAfiSafi f)) (snd (GetAfiSafi f)))) fs)
   = map (\<lambda>f. GetProtocolFamily (fst (GetAfiSafi f)) (snd (GetAfiSafi f))) fs"
  by (induction fs) (simp_all add: NewBGPCapMPExt_def)

lemma first_add_path_append:
  "first_add_path (cs @ ds) = (case first_add_path cs of None \<Rightarrow> first_add_path ds | Some c \<Rightarrow> Some c)"
  by (induction cs rule: first_add_path.induct) simp_all

lemma first_add_path_mp [simp]: "first_add_path (map (\<lambda>f. CapMPExt (g f)) fs) = None"
  by (induction fs) simp_all

lemma add_path_entries_const:
  "map_of (add_path_entries (map (ap_entry fl) fs) m) (afi, safi) =
     (case map_of m (afi, safi) of Some v \<Rightarrow> Some v
      | None \<Rightarrow> if (afi, safi) \<in> GetAfiSafi ` set fs then Some fl else None)"
proof (induction fs arbitrary: m)
  case Nil
  then show ?case by (simp split: option.split)
next
  case (Cons f fs)
  obtain a s where "GetAfiSafi f = (a, s)" by (cases "GetAfiSafi f")
  with Cons.IH show ?case by (auto simp: NewAddPathAFISAFI_def split: option.splits)
qed

lemma open_negotiation:
  assumes "length fs \<le> 23" "\<forall>f \<in> set fs. f < 65536" "To4 rid \<noteq> []"
  shows "\<exists>bs m. BGPOpen_Encode (NewBGPOpen as holdTime rid (ConstructOptParams as fs rx tx)) = Inr bs \<and>
           BGPOpen_Decode bs = Inr m \<and>
           GetASSize m = Inr 4 \<and>
           GetProtocolFromOpenMsg m = set fs \<and>
           Open_HoldTime m = holdTime \<and> Open_BGPId m = To4 rid \<and>
           map_of (GetAddPathFamily m) = (\<lambda>(afi, safi).
             if addPathFlags rx tx \<noteq> 0 \<and> (afi, safi) \<in> GetAfiSafi ` set fs
             then Some (addPathFlags rx tx) else None)"
proof -
  let ?msg = "NewBGPOpen as holdTime rid (ConstructOptParams as fs rx tx)"
  let ?m = "?msg\<lparr>Open_BGPId := To4 (Open_BGPId ?msg)\<rparr>"
  obtain bs where bs: "BGPOpen_Encode ?msg = Inr bs" "\<forall>rest. BGPOpen_Decode (bs @ rest) = Inr ?m"
    using open_roundtrip [OF open_sent_wf [OF assms(1,3)]] by blast
  then have dec: "BGPOpen_Decode bs = Inr ?m" by (metis append_Nil2)
  have "GetASSize ?m = Inr 4"
    by (simp add: GetASSize_def NewBGPOpen_def ConstructOptParams_eq NewBGPOptParamCapability_def Let_def
        offered_def BGPCapability_GetCode_def NewBGPCap4ByteASPath_def)
  moreover have "GetProtocolFromOpenMsg ?m = set fs"
    using assms(2)
    by (auto simp: GetProtocolFromOpenMsg_def NewBGPOpen_def ConstructOptParams_eq NewBGPOptParamCapability_def Let_def
        offered_def mp_families_append mp_families_map GetProtocolFamily_GetAfiSafi image_iff)
  moreover have "map_of (GetAddPathFamily ?m) = (\<lambda>(afi, safi).
             if addPathFlags rx tx \<noteq> 0 \<and> (afi, safi) \<in> GetAfiSafi ` set fs
             then Some (addPathFlags rx tx) else None)"
    by (auto simp: GetAddPathFamily_def NewBGPOpen_def ConstructOptParams_eq NewBGPOptParamCapability_def Let_def
        offered_def first_add_path_append add_path_entries_const fun_eq_iff)
  ultimately show ?thesis using bs(1) dec by (auto simp: NewBGPOpen_def)
qed

end
