(* ===== verification/Message.thy ===== *)
theory Message
  imports OpenMsg AttrHelpers
begin

text \<open>
  Whole messages (bgp/packet/bgp.go) and how a connection reads them from its byte stream
  (bgp/fsm/conn.go). The socket is a byte stream; a read that would wait for more bytes, or that fails, is
  outside the model: \<open>read_frame\<close> says what the bytes that are there amount to.
\<close>

section \<open>Bodies\<close>

record BGPNotification =
  Notif_ErrorCode :: u8
  Notif_ErrorSubcode :: u8
  Notif_Data :: bytes

definition BGPNotification_Encode :: "BGPNotification \<Rightarrow> bytes" where
  "BGPNotification_Encode msg = [Notif_ErrorCode msg, Notif_ErrorSubcode msg] @ Notif_Data msg"

definition BGPNotification_Decode :: "bytes \<Rightarrow> BGPNotification pres" where
  "BGPNotification_Decode pkt =
     bind_r (index_r pkt 0) (\<lambda>c. bind_r (index_r pkt 1) (\<lambda>s.
     Inr \<lparr>Notif_ErrorCode = c, Notif_ErrorSubcode = s, Notif_Data = (if length pkt > 2 then drop 2 pkt else [])\<rparr>))"

text \<open>\<open>BGPBody\<close> of the source is an interface; a message of unknown type has a nil body.\<close>

datatype BGPBody =
    Body_Open BGPOpen
  | Body_Update BGPUpdate
  | Body_Notification BGPNotification
  | Body_KeepAlive

abbreviation (input) BGPMsgTypeOpen :: u8 where "BGPMsgTypeOpen \<equiv> 1"
abbreviation (input) BGPMsgTypeUpdate :: u8 where "BGPMsgTypeUpdate \<equiv> 2"
abbreviation (input) BGPMsgTypeNotification :: u8 where "BGPMsgTypeNotification \<equiv> 3"
abbreviation (input) BGPMsgTypeKeepAlive :: u8 where "BGPMsgTypeKeepAlive \<equiv> 4"

fun BGPBody_Encode :: "BGPBody \<Rightarrow> bytes pres" where
  "BGPBody_Encode (Body_Open m) = BGPOpen_Encode m"
| "BGPBody_Encode (Body_Update m) = BGPUpdate_Encode m"
| "BGPBody_Encode (Body_Notification m) = Inr (BGPNotification_Encode m)"
| "BGPBody_Encode Body_KeepAlive = Inr []"

record BGPMessage =
  Msg_Header :: BGPHeader
  Msg_Body :: "BGPBody option"

definition NewBGPUpdateMessage :: "NLRI list \<Rightarrow> BGPPathAttr list \<Rightarrow> NLRI list \<Rightarrow> BGPMessage" where
  "NewBGPUpdateMessage wdRoutes pa nlri =
     \<lparr>Msg_Header = NewBGPHeader\<lparr>Hdr_Type := BGPMsgTypeUpdate\<rparr>, Msg_Body = Some (Body_Update (NewBGPUpdate wdRoutes pa nlri))\<rparr>"

definition NewBGPKeepAliveMessage :: BGPMessage where
  "NewBGPKeepAliveMessage =
     \<lparr>Msg_Header = NewBGPHeader\<lparr>Hdr_Length := 19, Hdr_Type := BGPMsgTypeKeepAlive\<rparr>, Msg_Body = Some Body_KeepAlive\<rparr>"

definition NewBGPNotificationMessage :: "u8 \<Rightarrow> u8 \<Rightarrow> bytes \<Rightarrow> BGPMessage" where
  "NewBGPNotificationMessage errorCode errorSubCode d =
     \<lparr>Msg_Header = NewBGPHeader\<lparr>Hdr_Length := 21 + of_nat (length d), Hdr_Type := BGPMsgTypeNotification\<rparr>,
      Msg_Body = Some (Body_Notification \<lparr>Notif_ErrorCode = errorCode, Notif_ErrorSubcode = errorSubCode, Notif_Data = d\<rparr>)\<rparr>"

text \<open>\<open>NewBGPOpenMessage\<close> parses the router id; the parsed address is an argument here.\<close>

definition NewBGPOpenMessage :: "u32 \<Rightarrow> u16 \<Rightarrow> bytes \<Rightarrow> BGPOptParam list \<Rightarrow> BGPMessage" where
  "NewBGPOpenMessage myAS holdTime bgpId optParams =
     \<lparr>Msg_Header = NewBGPHeader\<lparr>Hdr_Type := BGPMsgTypeOpen\<rparr>,
      Msg_Body = Some (Body_Open (NewBGPOpen myAS holdTime bgpId optParams))\<rparr>"

text \<open>\<open>Encode\<close> fills in a header length of 0 and returns the message with it.\<close>

definition BGPMessage_Encode :: "BGPMessage \<Rightarrow> (BGPMessage \<times> bytes) pres" where
  "BGPMessage_Encode msg =
     (case Msg_Body msg of
        None \<Rightarrow> Inl Panic
      | Some b \<Rightarrow>
          bind_r (BGPBody_Encode b) (\<lambda>body.
          if Hdr_Length (Msg_Header msg) = 0 then
            (if 19 + length body > 4096 then msg_error 0 0 []
             else let msg' = msg\<lparr>Msg_Header := (Msg_Header msg)\<lparr>Hdr_Length := 19 + of_nat (length body)\<rparr>\<rparr>
                  in Inr (msg', BGPHeader_Encode (Msg_Header msg') @ body))
          else Inr (msg, BGPHeader_Encode (Msg_Header msg) @ body)))"

definition BGPMessage_Decode :: "BGPHeader \<Rightarrow> bytes \<Rightarrow> BGPPeerAttrs \<Rightarrow> BGPMessage pres" where
  "BGPMessage_Decode header pkt peerAttrs =
     (if Hdr_Type header = BGPMsgTypeOpen then
        bind_r (BGPOpen_Decode pkt) (\<lambda>b. Inr \<lparr>Msg_Header = header, Msg_Body = Some (Body_Open b)\<rparr>)
      else if Hdr_Type header = BGPMsgTypeKeepAlive then
        Inr \<lparr>Msg_Header = header, Msg_Body = Some Body_KeepAlive\<rparr>
      else if Hdr_Type header = BGPMsgTypeUpdate then
        bind_r (BGPUpdate_Decode header pkt peerAttrs) (\<lambda>b.
        bind_r (NormalizeASPath b) (\<lambda>b. Inr \<lparr>Msg_Header = header, Msg_Body = Some (Body_Update b)\<rparr>))
      else if Hdr_Type header = BGPMsgTypeNotification then
        bind_r (BGPNotification_Decode pkt) (\<lambda>b. Inr \<lparr>Msg_Header = header, Msg_Body = Some (Body_Notification b)\<rparr>)
      else Inr \<lparr>Msg_Header = header, Msg_Body = None\<rparr>)"

section \<open>The connection\<close>

text \<open>
  \<open>ReadPkt\<close>: 19 bytes of header, then as many bytes as the header's length leaves, none when it is 19 or
  less. Nothing else of the header is checked. \<open>None\<close>: the stream does not hold the message yet.
\<close>

definition read_frame :: "bytes \<Rightarrow> (BGPHeader \<times> bytes \<times> bytes) option" where
  "read_frame stream =
     (if length stream < 19 then None
      else case BGPHeader_Decode NewBGPHeader (take 19 stream) of
        Inl _ \<Rightarrow> None
      | Inr header \<Rightarrow>
          let n = (if BGPHeader_Len header > 19 then unat (BGPHeader_Len header - 19) else 0) in
          if length stream < 19 + n then None
          else Some (header, take n (drop 19 stream), drop (19 + n) stream))"

record PeerConn =
  Conn_peerAttrs :: BGPPeerAttrs
  Conn_AddPathsRx :: bool

definition NewPeerConn :: "bool \<Rightarrow> PeerConn" where
  "NewPeerConn addPathsRx =
     \<lparr>Conn_peerAttrs = \<lparr>PeerASSize = 2, AddPathFamily = [], AddPathsRxActual = False\<rparr>, Conn_AddPathsRx = addPathsRx\<rparr>"

text \<open>What \<open>DecodeMessage\<close> returns: the message or the error to report, and whether to go on reading.\<close>

record decoded =
  Dec_Msg :: "BGPMessage option"
  Dec_Error :: "BGPMessageError option"
  Dec_Ok :: bool

definition learn_open :: "PeerConn \<Rightarrow> BGPOpen \<Rightarrow> PeerConn pres" where
  "learn_open p openMsg =
     bind_r (GetASSize openMsg) (\<lambda>asSize.
     let fam = GetAddPathFamily openMsg; a = Conn_peerAttrs p in
     Inr (p\<lparr>Conn_peerAttrs := a\<lparr>PeerASSize := asSize, AddPathFamily := fam,
              AddPathsRxActual := (if IsAddPathsTxEnabledForIPv4 fam \<and> Conn_AddPathsRx p then True
                                   else AddPathsRxActual a)\<rparr>\<rparr>))"

definition DecodeMessage :: "PeerConn \<Rightarrow> BGPHeader \<Rightarrow> bytes \<Rightarrow> (PeerConn \<times> decoded) pres" where
  "DecodeMessage p header buf =
     (let ok = (Hdr_Type header \<noteq> BGPMsgTypeNotification) in
      case BGPMessage_Decode header buf (Conn_peerAttrs p) of
        Inl (Error (MsgError e)) \<Rightarrow> Inr (p, \<lparr>Dec_Msg = None, Dec_Error = Some e, Dec_Ok = False\<rparr>)
      | Inl (Error PlainError) \<Rightarrow> Inl Panic
      | Inl f \<Rightarrow> Inl f
      | Inr msg \<Rightarrow>
          bind_r (case Msg_Body msg of
                    Some (Body_Open m) \<Rightarrow> learn_open p m
                  | _ \<Rightarrow> Inr p) (\<lambda>p'.
          Inr (p', \<lparr>Dec_Msg = Some msg, Dec_Error = None, Dec_Ok = ok\<rparr>)))"

text \<open>Reading one message off the stream.\<close>

definition read_message :: "PeerConn \<Rightarrow> bytes \<Rightarrow> (PeerConn \<times> decoded \<times> bytes) option pres" where
  "read_message p stream =
     (case read_frame stream of
        None \<Rightarrow> Inr None
      | Some (header, body, rest) \<Rightarrow> bind_r (DecodeMessage p header body) (\<lambda>(p', d). Inr (Some (p', d, rest))))"

section \<open>Framing\<close>

lemma length_BGPHeader_Encode [simp]: "length (BGPHeader_Encode h) = 19"
  by (simp add: BGPHeader_Encode_def)

lemma BGPHeader_roundtrip:
  "BGPHeader_Decode h0 (BGPHeader_Encode h) = Inr (h0\<lparr>Hdr_Length := Hdr_Length h, Hdr_Type := Hdr_Type h\<rparr>)"
  by (simp add: BGPHeader_Decode_def BGPHeader_Encode_def slice_r_def del: replicate_numeral)
     (simp add: index_r_def nth_append)

lemma read_frame_message:
  assumes "unat (Hdr_Length h) = 19 + length body"
  shows "read_frame (BGPHeader_Encode h @ body @ rest)
     = Some (NewBGPHeader\<lparr>Hdr_Length := Hdr_Length h, Hdr_Type := Hdr_Type h\<rparr>, body, rest)"
proof -
  let ?h = "NewBGPHeader\<lparr>Hdr_Length := Hdr_Length h, Hdr_Type := Hdr_Type h\<rparr>"
  have l: "unat (BGPHeader_Len ?h) = 19 + length body" using assms by (simp add: BGPHeader_Len_def)
  have "(if BGPHeader_Len ?h > 19 then unat (BGPHeader_Len ?h - 19) else 0) = length body"
    using l by (simp add: word_less_nat_alt unat_sub word_le_nat_alt)
  then show ?thesis
    by (simp add: read_frame_def BGPHeader_roundtrip Let_def)
qed

section \<open>Messages over the stream\<close>

text \<open>\<open>NewBGPUpdateMessage\<close> leaves the two length fields 0; the decoder fills them in.\<close>

definition with_lengths :: "BGPUpdate \<Rightarrow> BGPUpdate" where
  "with_lengths u = u\<lparr>WithdrawnRoutesLen := of_nat (nlri_total (WithdrawnRoutes u)),
                      TotalPathAttrLen := of_nat (attrs_total (PathAttributes u))\<rparr>"

definition update_size :: "BGPUpdate \<Rightarrow> nat" where
  "update_size u = 23 + nlri_total (WithdrawnRoutes u) + attrs_total (PathAttributes u) + nlri_total (Upd_NLRI u)"

definition wf_update_parts :: "BGPPeerAttrs \<Rightarrow> BGPUpdate \<Rightarrow> bool" where
  "wf_update_parts peer u \<longleftrightarrow>
     list_all (wf_nlri (AddPathsRxActual peer) AfiIP) (WithdrawnRoutes u) \<and>
     list_all (wf_attr peer) (PathAttributes u) \<and>
     list_all (wf_nlri (AddPathsRxActual peer) AfiIP) (Upd_NLRI u)"

lemma with_lengths_wf:
  assumes "wf_update_parts peer u" "update_size u < 65536"
  shows "wf_update peer (with_lengths u)"
proof -
  have "unat (of_nat (nlri_total (WithdrawnRoutes u)) :: u16) = nlri_total (WithdrawnRoutes u)"
    "unat (of_nat (attrs_total (PathAttributes u)) :: u16) = attrs_total (PathAttributes u)"
    using assms(2) by (auto intro!: u16_of_nat simp: update_size_def)
  then show ?thesis using assms
    by (simp add: wf_update_def with_lengths_def wf_update_parts_def update_size_def)
qed

lemma BGPUpdate_Encode_size:
  assumes "wf_update_parts peer u"
  shows "\<exists>pkt. BGPUpdate_Encode u = Inr pkt \<and> 19 + length pkt = update_size u"
proof -
  let ?rx = "AddPathsRxActual peer"
  have ws: "list_all (wf_nlri ?rx 1) (WithdrawnRoutes u)" and ps: "list_all (wf_attr peer) (PathAttributes u)"
    and ns: "list_all (wf_nlri ?rx 1) (Upd_NLRI u)" using assms by (auto simp: wf_update_parts_def)
  obtain wd where "concat_r (NLRI_Encode 1) (WithdrawnRoutes u) = Inr wd" "length wd = nlri_total (WithdrawnRoutes u)"
    using nlri_codec.concat_ok [OF ws] by (auto simp: nlri_total_def)
  moreover obtain pa where "concat_r PA_Encode (PathAttributes u) = Inr pa" "length pa = attrs_total (PathAttributes u)"
    using attr_codec.concat_ok [OF ps] by (auto simp: attrs_total_def)
  moreover obtain nl where "concat_r (NLRI_Encode 1) (Upd_NLRI u) = Inr nl" "length nl = nlri_total (Upd_NLRI u)"
    using nlri_codec.concat_ok [OF ns] by (auto simp: nlri_total_def)
  ultimately show ?thesis by (simp add: BGPUpdate_Encode_def update_size_def)
qed

lemma update_message_roundtrip:
  assumes wf: "wf_update_parts peer u" and size: "update_size u \<le> 4096"
    and u: "u = NewBGPUpdate wd pas ns"
  shows "\<exists>msg bs hdr body. BGPMessage_Encode (NewBGPUpdateMessage wd pas ns) = Inr (msg, bs) \<and>
           length bs = update_size u \<and>
           (\<forall>rest. read_frame (bs @ rest) = Some (hdr, body, rest)) \<and> Hdr_Type hdr = BGPMsgTypeUpdate \<and>
           BGPUpdate_Decode hdr body peer = Inr (with_lengths u)"
proof -
  obtain pkt where pkt: "BGPUpdate_Encode u = Inr pkt" "19 + length pkt = update_size u"
    using BGPUpdate_Encode_size [OF wf] by blast
  let ?h = "NewBGPHeader\<lparr>Hdr_Length := 19 + of_nat (length pkt), Hdr_Type := 2\<rparr>"
  have "unat (of_nat (19 + length pkt) :: u16) = 19 + length pkt"
    using pkt(2) size by (intro u16_of_nat) simp
  then have l: "unat (Hdr_Length ?h) = 19 + length pkt" by simp
  have e: "BGPMessage_Encode (NewBGPUpdateMessage wd pas ns)
      = Inr (\<lparr>Msg_Header = ?h, Msg_Body = Some (Body_Update u)\<rparr>, BGPHeader_Encode ?h @ pkt)"
    using pkt size by (simp add: BGPMessage_Encode_def NewBGPUpdateMessage_def u NewBGPHeader_def Let_def)
  have "BGPUpdate_Encode (with_lengths u) = Inr pkt"
    using pkt(1) by (simp add: BGPUpdate_Encode_def with_lengths_def)
  then have "BGPUpdate_Decode ?h pkt peer = Inr (with_lengths u)"
    using update_roundtrip [OF with_lengths_wf [OF wf] l] size by simp
  moreover have "read_frame ((BGPHeader_Encode ?h @ pkt) @ rest) = Some (?h, pkt, rest)" for rest
    using read_frame_message [OF l, of rest] by simp
  ultimately show ?thesis using e pkt(2) by (intro exI [of _ "\<lparr>Msg_Header = ?h, Msg_Body = Some (Body_Update u)\<rparr>"]
      exI [of _ "BGPHeader_Encode ?h @ pkt"] exI [of _ ?h] exI [of _ pkt]) simp
qed

lemma oversized_update_refused:
  assumes "wf_update_parts peer (NewBGPUpdate wd pas ns)" "update_size (NewBGPUpdate wd pas ns) > 4096"
  shows "BGPMessage_Encode (NewBGPUpdateMessage wd pas ns) = msg_error 0 0 []"
proof -
  obtain pkt where "BGPUpdate_Encode (NewBGPUpdate wd pas ns) = Inr pkt"
    "19 + length pkt = update_size (NewBGPUpdate wd pas ns)"
    using BGPUpdate_Encode_size [OF assms(1)] by blast
  then show ?thesis using assms(2)
    by (simp add: BGPMessage_Encode_def NewBGPUpdateMessage_def NewBGPHeader_def)
qed

lemma keepalive_read:
  "\<exists>bs msg. BGPMessage_Encode NewBGPKeepAliveMessage = Inr (NewBGPKeepAliveMessage, bs) \<and> length bs = 19 \<and>
     (\<forall>p rest. read_message p (bs @ rest) = Inr (Some (p, \<lparr>Dec_Msg = Some msg, Dec_Error = None, Dec_Ok = True\<rparr>, rest))) \<and>
     Msg_Body msg = Some Body_KeepAlive"
proof -
  let ?h = "NewBGPHeader\<lparr>Hdr_Length := 19, Hdr_Type := 4\<rparr>"
  have "read_frame (BGPHeader_Encode ?h @ [] @ rest) = Some (?h, [], rest)" for rest
    by (subst read_frame_message) simp_all
  then have "read_message p (BGPHeader_Encode ?h @ rest)
      = Inr (Some (p, \<lparr>Dec_Msg = Some \<lparr>Msg_Header = ?h, Msg_Body = Some Body_KeepAlive\<rparr>, Dec_Error = None, Dec_Ok = True\<rparr>, rest))"
    for p rest
    by (simp add: read_message_def DecodeMessage_def BGPMessage_Decode_def)
  moreover have "BGPMessage_Encode NewBGPKeepAliveMessage = Inr (NewBGPKeepAliveMessage, BGPHeader_Encode ?h)"
    by (simp add: BGPMessage_Encode_def NewBGPKeepAliveMessage_def)
  ultimately show ?thesis
    by (intro exI [of _ "BGPHeader_Encode ?h"] exI [of _ "\<lparr>Msg_Header = ?h, Msg_Body = Some Body_KeepAlive\<rparr>"]) simp
qed

lemma notification_read:
  assumes "length d < 65515"
  shows "\<exists>bs msg. BGPMessage_Encode (NewBGPNotificationMessage c s d) = Inr (NewBGPNotificationMessage c s d, bs) \<and>
     (\<forall>p rest. read_message p (bs @ rest) = Inr (Some (p, \<lparr>Dec_Msg = Some msg, Dec_Error = None, Dec_Ok = False\<rparr>, rest))) \<and>
     Msg_Body msg = Some (Body_Notification \<lparr>Notif_ErrorCode = c, Notif_ErrorSubcode = s, Notif_Data = d\<rparr>)"
proof -
  let ?n = "\<lparr>Notif_ErrorCode = c, Notif_ErrorSubcode = s, Notif_Data = d\<rparr>"
  let ?h = "NewBGPHeader\<lparr>Hdr_Length := 21 + of_nat (length d), Hdr_Type := 3\<rparr>"
  let ?m = "\<lparr>Msg_Header = ?h, Msg_Body = Some (Body_Notification ?n)\<rparr>"
  have "unat (of_nat (21 + length d) :: u16) = 21 + length d" using assms by (intro u16_of_nat) simp
  then have u: "unat (21 + of_nat (length d) :: u16) = 21 + length d" by simp
  then have "(21 + of_nat (length d) :: u16) \<noteq> 0" by (metis add_is_0 unsigned_0 zero_neq_numeral)
  then have e: "BGPMessage_Encode (NewBGPNotificationMessage c s d)
      = Inr (NewBGPNotificationMessage c s d, BGPHeader_Encode ?h @ BGPNotification_Encode ?n)"
    by (simp add: BGPMessage_Encode_def NewBGPNotificationMessage_def)
  have f: "read_frame (BGPHeader_Encode ?h @ BGPNotification_Encode ?n @ rest) = Some (?h, BGPNotification_Encode ?n, rest)" for rest
    by (subst read_frame_message) (simp_all add: u BGPNotification_Encode_def)
  have "BGPNotification_Decode (BGPNotification_Encode ?n) = Inr ?n"
    by (simp add: BGPNotification_Decode_def BGPNotification_Encode_def)
  then have "read_message p ((BGPHeader_Encode ?h @ BGPNotification_Encode ?n) @ rest)
      = Inr (Some (p, \<lparr>Dec_Msg = Some ?m, Dec_Error = None, Dec_Ok = False\<rparr>, rest))" for p rest
    using f [of rest] by (simp add: read_message_def DecodeMessage_def BGPMessage_Decode_def)
  then show ?thesis using e
    by (intro exI [of _ "BGPHeader_Encode ?h @ BGPNotification_Encode ?n"] exI [of _ ?m]) simp
qed

text \<open>
  A header that declares an UPDATE with fewer than two bytes of body, which nothing refuses, makes the
  decoder panic.
\<close>

lemma short_update_panics:
  assumes "Hdr_Type h = BGPMsgTypeUpdate" "unat (Hdr_Length h) \<le> 20" "2 \<le> length rest"
  shows "read_message p (BGPHeader_Encode h @ rest) = Inl Panic"
proof -
  let ?h = "NewBGPHeader\<lparr>Hdr_Length := Hdr_Length h, Hdr_Type := Hdr_Type h\<rparr>"
  let ?n = "if BGPHeader_Len ?h > 19 then unat (BGPHeader_Len ?h - 19) else 0"
  have n: "?n \<le> 1" using assms(2) by (auto simp: BGPHeader_Len_def word_less_nat_alt unat_sub word_le_nat_alt)
  have "read_frame (BGPHeader_Encode h @ rest) = Some (?h, take ?n rest, drop ?n rest)"
    using n assms(3) by (simp add: read_frame_def BGPHeader_roundtrip Let_def)
  moreover have "BGPUpdate_Decode ?h (take ?n rest) (Conn_peerAttrs p) = Inl Panic"
    using n by (intro update_short_panics) simp
  ultimately show ?thesis using assms(1)
    by (simp add: read_message_def DecodeMessage_def BGPMessage_Decode_def)
qed

text \<open>A message of an unknown type is accepted with no body.\<close>

lemma unknown_type_accepted:
  assumes "Hdr_Type h \<notin> {1, 2, 3, 4}" "unat (Hdr_Length h) = 19 + length body"
  shows "\<exists>msg. read_message p (BGPHeader_Encode h @ body @ rest)
     = Inr (Some (p, \<lparr>Dec_Msg = Some msg, Dec_Error = None, Dec_Ok = True\<rparr>, rest)) \<and> Msg_Body msg = None"
  using assms read_frame_message [OF assms(2), of rest]
  by (simp add: read_message_def DecodeMessage_def BGPMessage_Decode_def)

section \<open>The OPEN handshake\<close>

lemma add_path_entries_distinct:
  "distinct (map fst m) \<Longrightarrow> distinct (map fst (add_path_entries vs m))"
  by (induction vs arbitrary: m) (auto split: option.splits simp: map_of_eq_None_iff)

lemma GetAddPathFamily_distinct: "distinct (map fst (GetAddPathFamily m))"
proof -
  have "distinct (map fst (GetAddPathFamily_params ps))" for ps
    by (induction ps rule: GetAddPathFamily_params.induct) (auto simp: add_path_entries_distinct split: option.split)
  then show ?thesis by (simp add: GetAddPathFamily_def)
qed

lemma IsAddPathsTx_map_of:
  "distinct (map fst l) \<Longrightarrow>
   IsAddPathsTxEnabledForIPv4 l \<longleftrightarrow> (\<exists>k flags. map_of l k = Some flags \<and> flags AND BGPCapAddPathTx \<noteq> 0)"
  unfolding IsAddPathsTxEnabledForIPv4_def list_ex_iff
  by (auto intro: map_of_is_SomeI dest: map_of_SomeD)

lemma addPathFlags_tx: "addPathFlags rx tx AND BGPCapAddPathTx \<noteq> 0 \<longleftrightarrow> tx > 0"
  by (auto simp: addPathFlags_def)

text \<open>
  A speaker that reads the OPEN of another running this code learns: four-byte AS numbers, and that it may
  receive several paths per prefix exactly when the sender can send them for some family and it is itself
  configured to receive them (or the connection had agreed so already).
\<close>

lemma open_read:
  assumes "length fs \<le> 23" "\<forall>f \<in> set fs. f < 65536" "To4 rid \<noteq> []"
  shows "\<exists>msg bs p' d m. BGPMessage_Encode (NewBGPOpenMessage as holdTime rid (ConstructOptParams as fs rx tx)) = Inr (msg, bs) \<and>
     (\<forall>rest. read_message p (bs @ rest) = Inr (Some (p', d, rest))) \<and> Dec_Ok d \<and> Dec_Error d = None \<and>
     map_option Msg_Body (Dec_Msg d) = Some (Some (Body_Open m)) \<and>
     Open_HoldTime m = holdTime \<and> Open_BGPId m = To4 rid \<and> GetProtocolFromOpenMsg m = set fs \<and>
     PeerASSize (Conn_peerAttrs p') = 4 \<and>
     AddPathsRxActual (Conn_peerAttrs p') =
       (AddPathsRxActual (Conn_peerAttrs p) \<or> (Conn_AddPathsRx p \<and> tx > 0 \<and> fs \<noteq> []))"
proof -
  let ?o = "NewBGPOpen as holdTime rid (ConstructOptParams as fs rx tx)"
  obtain body m where enc: "BGPOpen_Encode ?o = Inr body" and dec: "BGPOpen_Decode body = Inr m"
    and m: "GetASSize m = Inr 4" "GetProtocolFromOpenMsg m = set fs" "Open_HoldTime m = holdTime" "Open_BGPId m = To4 rid"
    and fam: "map_of (GetAddPathFamily m) = (\<lambda>(afi, safi).
             if addPathFlags rx tx \<noteq> 0 \<and> (afi, safi) \<in> GetAfiSafi ` set fs then Some (addPathFlags rx tx) else None)"
    using open_negotiation [OF assms] by blast
  have len: "length body \<le> 255"
    using open_roundtrip [OF open_sent_wf [OF assms(1,3)], of as holdTime rx tx] open_sent_wf [OF assms(1,3)] enc
    by (fastforce simp: wf_open_def)
  let ?h = "NewBGPHeader\<lparr>Hdr_Length := 19 + of_nat (length body), Hdr_Type := 1\<rparr>"
  have "unat (of_nat (19 + length body) :: u16) = 19 + length body" using len by (intro u16_of_nat) simp
  then have l: "unat (Hdr_Length ?h) = 19 + length body" by simp
  have e: "BGPMessage_Encode (NewBGPOpenMessage as holdTime rid (ConstructOptParams as fs rx tx))
      = Inr (\<lparr>Msg_Header = ?h, Msg_Body = Some (Body_Open ?o)\<rparr>, BGPHeader_Encode ?h @ body)"
    using enc len by (simp add: BGPMessage_Encode_def NewBGPOpenMessage_def NewBGPHeader_def Let_def)
  have tx: "IsAddPathsTxEnabledForIPv4 (GetAddPathFamily m) \<longleftrightarrow> tx > 0 \<and> fs \<noteq> []"
  proof -
    have "IsAddPathsTxEnabledForIPv4 (GetAddPathFamily m) \<longleftrightarrow>
        (\<exists>a b. (a, b) \<in> GetAfiSafi ` set fs) \<and> addPathFlags rx tx \<noteq> 0 \<and> addPathFlags rx tx AND 2 \<noteq> 0"
      unfolding IsAddPathsTx_map_of [OF GetAddPathFamily_distinct] fam by (auto split: if_splits)
    moreover have "(\<exists>a b. (a, b) \<in> GetAfiSafi ` set fs) \<longleftrightarrow> fs \<noteq> []"
      by (cases fs) (auto, metis surj_pair)
    ultimately show ?thesis using addPathFlags_tx [of rx tx] by auto
  qed
  let ?p = "p\<lparr>Conn_peerAttrs := (Conn_peerAttrs p)\<lparr>PeerASSize := 4, AddPathFamily := GetAddPathFamily m,
      AddPathsRxActual := (if IsAddPathsTxEnabledForIPv4 (GetAddPathFamily m) \<and> Conn_AddPathsRx p then True
                           else AddPathsRxActual (Conn_peerAttrs p))\<rparr>\<rparr>"
  let ?d = "\<lparr>Dec_Msg = Some \<lparr>Msg_Header = ?h, Msg_Body = Some (Body_Open m)\<rparr>, Dec_Error = None, Dec_Ok = True\<rparr>"
  have "read_message p ((BGPHeader_Encode ?h @ body) @ rest) = Inr (Some (?p, ?d, rest))" for rest
    using read_frame_message [OF l, of rest] dec m(1)
    by (simp add: read_message_def DecodeMessage_def BGPMessage_Decode_def learn_open_def Let_def)
  then show ?thesis
    using e m tx
    by (intro exI [of _ "\<lparr>Msg_Header = ?h, Msg_Body = Some (Body_Open ?o)\<rparr>"] exI [of _ "BGPHeader_Encode ?h @ body"]
        exI [of _ ?p] exI [of _ ?d] exI [of _ m]) auto
qed

end
