(* ===== verification/Fsm.thy ===== *)
theory Fsm
  imports Message
begin

text \<open>
  The session state machine of one connection to a peer (bgp/fsm/fsm.go). The state is a record with the
  fields of \<open>FSM\<close>; a timer is the number of seconds it was last set to, or \<open>None\<close> when it is stopped; a
  connection is its direction and its id. What the machine does to the outside (messages on the socket,
  calls of its manager, connection attempts) is appended to a log in the order it is done. Dereferencing a
  connection that is nil panics, and so does a type assertion that fails.

  What comes from outside the machine is in the inputs of its loop: the random numbers \<open>SetPeerConn\<close> draws, the
  answer of \<open>FSMManager.receivedBGPOpenMessage\<close> to an OPEN, whether a write on the socket succeeds. The packets
  \<open>ConstructMaxSizedUpdatePackets\<close> makes of an outgoing message come with that message.
\<close>

section \<open>State\<close>

datatype BGPFSMState = BGPFSMIdle | BGPFSMConnect | BGPFSMActive | BGPFSMOpensent | BGPFSMOpenconfirm | BGPFSMEstablished

text \<open>The numbers of config/fsmState.go.\<close>

fun state_num :: "BGPFSMState \<Rightarrow> nat" where
  "state_num BGPFSMIdle = 1"
| "state_num BGPFSMConnect = 2"
| "state_num BGPFSMActive = 3"
| "state_num BGPFSMOpensent = 4"
| "state_num BGPFSMOpenconfirm = 5"
| "state_num BGPFSMEstablished = 6"

instantiation BGPFSMState :: linorder
begin

definition less_eq_BGPFSMState :: "BGPFSMState \<Rightarrow> BGPFSMState \<Rightarrow> bool" where
  "less_eq_BGPFSMState a b \<longleftrightarrow> state_num a \<le> state_num b"

definition less_BGPFSMState :: "BGPFSMState \<Rightarrow> BGPFSMState \<Rightarrow> bool" where
  "less_BGPFSMState a b \<longleftrightarrow> state_num a < state_num b"

instance
proof
  fix a b c :: BGPFSMState
  show "a \<le> b \<Longrightarrow> b \<le> a \<Longrightarrow> a = b"
    by (cases a; cases b) (simp_all add: less_eq_BGPFSMState_def)
qed (auto simp: less_eq_BGPFSMState_def less_BGPFSMState_def)

end

datatype ConnDir = ConnDirOut | ConnDirIn

text \<open>
  The parts of the neighbour's and the global configuration the machine reads. \<open>Conf_AfiSafiMap\<close> lists the
  configured families in the order Go's iteration visits them; \<open>Conf_BfdDown\<close> is the condition of
  \<open>ConnectState.enter\<close>; \<open>Conf_UnknownNeighbor\<close> says that the neighbour's address is the broadcast address.
\<close>

record fsm_conf =
  Conf_ConnectRetryTime :: u32
  Conf_HoldTime :: u32
  Conf_KeepaliveTime :: u32
  Conf_MaxPrefixesRestartTimer :: u8
  Conf_AfiSafiMap :: "u32 list"
  Conf_GlobalAS :: u32
  Conf_LocalAS :: u32
  Conf_RouterId :: bytes
  Conf_AddPathsRx :: bool
  Conf_AddPathsMaxTx :: u8
  Conf_BfdDown :: bool
  Conf_UnknownNeighbor :: bool

datatype fsm_action =
    Wrote BGPMessage bytes
  | ConnectStarted
  | ConnectStopped
  | ConnClosed
  | UnexpectedConnClosed
  | MgrAcceptPeerConn
  | MgrRejectPeerConn
  | MgrEstablished
  | MgrBroken
  | MgrStateChange BGPFSMState
  | MgrNewConn ConnDir
  | MgrTcpConnFail
  | ToServer BGPUpdate

record fsm =
  F_conf :: fsm_conf
  F_State :: BGPFSMState
  F_passive :: bool
  F_peerTypeInternal :: bool
  F_peerConn :: "(ConnDir \<times> u32) option"
  F_outTCPConn :: bool
  F_connId :: u32
  F_connectRetryCounter :: int
  F_connectRetryTimer :: "u32 option"
  F_holdTime :: u32
  F_holdTimer :: "u32 option"
  F_keepAliveTime :: u32
  F_keepAliveTimer :: "u32 option"
  F_restartTime :: u32
  F_restartTimer :: "u32 option"
  F_passiveTcpEst :: bool
  F_dampPeerOscl :: bool
  F_idleHoldTime :: u16
  F_idleHoldTimer :: "u16 option"
  F_afiSafiMap :: "u32 set"
  F_close :: bool
  F_log :: "fsm_action list"

text \<open>\<open>F_passive\<close> is the field of \<open>IdleState\<close>; a new idle state has it false.\<close>

abbreviation (input) BGPIdleHoldTimeDefault :: u16 where "BGPIdleHoldTimeDefault \<equiv> 5"
abbreviation (input) BGPRestartTimeDefault :: u32 where "BGPRestartTimeDefault \<equiv> 1"

definition NewFSM :: "fsm_conf \<Rightarrow> fsm" where
  "NewFSM c =
     \<lparr>F_conf = c, F_State = BGPFSMIdle, F_passive = False, F_peerTypeInternal = False, F_peerConn = None,
      F_outTCPConn = False, F_connId = 0, F_connectRetryCounter = 0, F_connectRetryTimer = None,
      F_holdTime = Conf_HoldTime c, F_holdTimer = None, F_keepAliveTime = Conf_KeepaliveTime c,
      F_keepAliveTimer = None, F_restartTime = BGPRestartTimeDefault, F_restartTimer = None,
      F_passiveTcpEst = False, F_dampPeerOscl = False, F_idleHoldTime = BGPIdleHoldTimeDefault,
      F_idleHoldTimer = None, F_afiSafiMap = {}, F_close = False, F_log = []\<rparr>"

definition IdleHoldTimeInterval :: "u16 \<Rightarrow> u16" where
  "IdleHoldTimeInterval t =
     (if t = 5 then 10 else if t = 10 then 30 else if t = 60 then 120 else if t = 120 then 180
      else if t = 180 then 300 else if t = 300 then 500 else 0)"

section \<open>Operations\<close>

type_synonym 'a fres = "(unit, 'a) result"
type_synonym fsm_op = "fsm \<Rightarrow> fsm fres"

text \<open>Statements in sequence.\<close>

definition log_op :: "fsm_action \<Rightarrow> fsm_op" where
  "log_op a f = Inr (f\<lparr>F_log := F_log f @ [a]\<rparr>)"

definition StartRestartTimer :: fsm_op where
  "StartRestartTimer f = Inr (f\<lparr>F_restartTimer := Some (F_restartTime f)\<rparr>)"

definition ApplyAutomaticStart :: fsm_op where
  "ApplyAutomaticStart = StartRestartTimer"

definition StartConnectRetryTimer :: fsm_op where
  "StartConnectRetryTimer f = Inr (f\<lparr>F_connectRetryTimer := Some (Conf_ConnectRetryTime (F_conf f))\<rparr>)"

definition StopConnectRetryTimer :: fsm_op where
  "StopConnectRetryTimer f = Inr (f\<lparr>F_connectRetryTimer := None\<rparr>)"

text \<open>\<open>holdTime < 0\<close> never holds of a \<open>uint32\<close>.\<close>

definition SetHoldTime :: "u32 \<Rightarrow> u32 \<Rightarrow> fsm_op" where
  "SetHoldTime holdTime keepaliveTime f =
     (if holdTime > 0 \<and> holdTime < 3 then Inr f
      else Inr (f\<lparr>F_holdTime := holdTime, F_keepAliveTime := keepaliveTime\<rparr>))"

definition StartHoldTimer :: fsm_op where
  "StartHoldTimer f = Inr (f\<lparr>F_holdTimer := (if F_holdTime f \<noteq> 0 then Some (F_holdTime f) else None)\<rparr>)"

definition StopHoldTimer :: fsm_op where
  "StopHoldTimer f = Inr (f\<lparr>F_holdTimer := None\<rparr>)"

definition StartKeepAliveTimer :: fsm_op where
  "StartKeepAliveTimer f = Inr (f\<lparr>F_keepAliveTimer := (if F_keepAliveTime f \<noteq> 0 then Some (F_keepAliveTime f) else None)\<rparr>)"

definition StopKeepAliveTimer :: fsm_op where
  "StopKeepAliveTimer f = Inr (f\<lparr>F_keepAliveTimer := None\<rparr>)"

definition SetConnectRetryCounter :: "int \<Rightarrow> fsm_op" where
  "SetConnectRetryCounter v f = Inr (f\<lparr>F_connectRetryCounter := v\<rparr>)"

definition IncrConnectRetryCounter :: fsm_op where
  "IncrConnectRetryCounter f = Inr (f\<lparr>F_connectRetryCounter := F_connectRetryCounter f + 1\<rparr>)"

definition SetIdleHoldTime :: "u16 \<Rightarrow> fsm_op" where
  "SetIdleHoldTime s f = Inr (f\<lparr>F_idleHoldTime := s\<rparr>)"

definition StartIdleHoldTimer :: fsm_op where
  "StartIdleHoldTimer f =
     Inr (f\<lparr>F_idleHoldTimer := (if F_idleHoldTime f > 0 \<and> F_idleHoldTime f \<le> 300 then Some (F_idleHoldTime f) else None)\<rparr>)"

definition StopIdleHoldTimer :: fsm_op where
  "StopIdleHoldTimer f = Inr (f\<lparr>F_idleHoldTimer := None\<rparr>)"

definition set_passive :: "bool \<Rightarrow> fsm_op" where
  "set_passive b f = Inr (f\<lparr>F_passive := b\<rparr>)"

text \<open>
  \<open>(*fsm.peerConn.conn).Write\<close>: a nil connection panics; an error of the write is only logged. The error of
  the message's \<open>Encode\<close> is ignored, and nothing is written then.
\<close>

definition need_conn :: fsm_op where
  "need_conn f = (if F_peerConn f = None then Inl Panic else Inr f)"

definition encode_ignoring_error :: "BGPMessage \<Rightarrow> bytes fres" where
  "encode_ignoring_error m =
     (case BGPMessage_Encode m of
        Inr (_, pkt) \<Rightarrow> Inr pkt
      | Inl (Error _) \<Rightarrow> Inr []
      | Inl Panic \<Rightarrow> Inl Panic
      | Inl Diverges \<Rightarrow> Inl Diverges)"

definition write_message :: "BGPMessage \<Rightarrow> fsm_op" where
  "write_message m f =
     bind_r (encode_ignoring_error m) (\<lambda>pkt. seq_ops [need_conn, log_op (Wrote m pkt)] f)"

definition open_message :: "fsm_conf \<Rightarrow> u32 \<Rightarrow> BGPMessage" where
  "open_message c holdTime =
     NewBGPOpenMessage (Conf_LocalAS c) (ucast holdTime) (Conf_RouterId c)
       (ConstructOptParams (Conf_LocalAS c) (Conf_AfiSafiMap c) (Conf_AddPathsRx c) (Conf_AddPathsMaxTx c))"

definition sendOpenMessage :: fsm_op where
  "sendOpenMessage f = write_message (open_message (F_conf f) (F_holdTime f)) f"

definition sendKeepAliveMessage :: fsm_op where
  "sendKeepAliveMessage = seq_ops [write_message NewBGPKeepAliveMessage, StartKeepAliveTimer]"

definition SendNotificationMessage :: "u8 \<Rightarrow> u8 \<Rightarrow> bytes \<Rightarrow> fsm_op" where
  "SendNotificationMessage code subCode d = write_message (NewBGPNotificationMessage code subCode d)"

text \<open>
  \<open>sendUpdateMessage\<close> over the packets \<open>updateMsgs\<close>, each with whether its write succeeds: a packet that
  does not encode is skipped, a failed write ends the loop.
\<close>

fun sendUpdateMessage :: "(BGPMessage \<times> bool) list \<Rightarrow> fsm_op" where
  "sendUpdateMessage [] f = Inr f"
| "sendUpdateMessage ((m, ok) # ms) f =
     (case BGPMessage_Encode m of
        Inl Panic \<Rightarrow> Inl Panic
      | Inl Diverges \<Rightarrow> Inl Diverges
      | Inl (Error _) \<Rightarrow> sendUpdateMessage ms f
      | Inr (_, pkt) \<Rightarrow>
          bind_r (need_conn f) (\<lambda>f.
          if ok then bind_r (seq_ops [log_op (Wrote m pkt), StartKeepAliveTimer] f) (sendUpdateMessage ms)
          else Inr f))"

record PeerConnDir =
  PCD_dir :: ConnDir
  PCD_r1 :: u32
  PCD_r2 :: u32

definition SetPeerConn :: "PeerConnDir \<Rightarrow> fsm_op" where
  "SetPeerConn d f =
     (if F_peerConn f \<noteq> None then Inr f
      else let i = (if PCD_r1 d = F_connId f then F_connId f + 1 else PCD_r2 d)
           in Inr (f\<lparr>F_connId := i, F_peerConn := Some (PCD_dir d, i)\<rparr>))"

definition ClearPeerConn :: fsm_op where
  "ClearPeerConn f =
     (if F_peerConn f = None then Inr f
      else seq_ops [StopKeepAliveTimer, StopHoldTimer, \<lambda>f. Inr (f\<lparr>F_connId := 0\<rparr>), log_op ConnClosed,
                    \<lambda>f. Inr (f\<lparr>F_peerConn := None\<rparr>)] f)"

definition InitiateConnToPeer :: fsm_op where
  "InitiateConnToPeer f =
     (if Conf_UnknownNeighbor (F_conf f) then Inr f
      else if F_outTCPConn f then Inr f
      else seq_ops [\<lambda>f. Inr (f\<lparr>F_outTCPConn := True\<rparr>), log_op ConnectStarted] f)"

definition StopConnToPeer :: fsm_op where
  "StopConnToPeer f =
     (if F_outTCPConn f then seq_ops [log_op ConnectStopped, \<lambda>f. Inr (f\<lparr>F_outTCPConn := False\<rparr>)] f else Inr f)"

definition HandleAnotherConnection :: "PeerConnDir \<Rightarrow> fsm_op" where
  "HandleAnotherConnection d = log_op (MgrNewConn (PCD_dir d))"

definition ConnEstablished :: fsm_op where
  "ConnEstablished = seq_ops [need_conn, log_op MgrEstablished]"

definition ConnBroken :: fsm_op where
  "ConnBroken = log_op MgrBroken"

section \<open>Changing state\<close>

fun leave :: "BGPFSMState \<Rightarrow> fsm_op" where
  "leave BGPFSMIdle f = StopIdleHoldTimer f"
| "leave BGPFSMOpenconfirm f = SetHoldTime (Conf_HoldTime (F_conf f)) (Conf_KeepaliveTime (F_conf f)) f"
| "leave BGPFSMEstablished f = SetHoldTime (Conf_HoldTime (F_conf f)) (Conf_KeepaliveTime (F_conf f)) f"
| "leave _ f = Inr f"

text \<open>\<open>enter\<close> of every state but Connect, which may itself change the state.\<close>

fun enter_plain :: "BGPFSMState \<Rightarrow> fsm_op" where
  "enter_plain BGPFSMIdle f =
     seq_ops [StopKeepAliveTimer, StopHoldTimer, log_op MgrRejectPeerConn, ApplyAutomaticStart] f"
| "enter_plain BGPFSMActive f = log_op MgrAcceptPeerConn f"
| "enter_plain BGPFSMEstablished f = SetIdleHoldTime BGPIdleHoldTimeDefault f"
| "enter_plain _ f = Inr f"

text \<open>\<open>ChangeState\<close>, with the \<open>enter\<close> of the new state as an argument.\<close>

definition change_state_with :: "(BGPFSMState \<Rightarrow> fsm_op) \<Rightarrow> BGPFSMState \<Rightarrow> fsm_op" where
  "change_state_with ent newState f =
     (if F_close f then Inr f
      else let oldState = F_State f in
        seq_ops [leave oldState,
                 \<lambda>f. Inr (f\<lparr>F_State := newState, F_passive := False\<rparr>),
                 ent newState,
                 \<lambda>f. if oldState = BGPFSMEstablished \<and> F_State f \<noteq> BGPFSMEstablished then ConnBroken f
                     else if oldState \<noteq> BGPFSMEstablished \<and> F_State f = BGPFSMEstablished then ConnEstablished f
                     else Inr f,
                 \<lambda>f. log_op (MgrStateChange (F_State f)) f] f)"

text \<open>The \<open>enter\<close> of Connect moves on to Active when BFD reports the neighbour down.\<close>

definition enter :: "BGPFSMState \<Rightarrow> fsm_op" where
  "enter s f =
     (if s = BGPFSMConnect then
        (if Conf_BfdDown (F_conf f) then change_state_with enter_plain BGPFSMActive f
         else seq_ops [log_op MgrAcceptPeerConn, InitiateConnToPeer] f)
      else enter_plain s f)"

definition ChangeState :: "BGPFSMState \<Rightarrow> fsm_op" where
  "ChangeState = change_state_with enter"

section \<open>Events\<close>

text \<open>\<open>BGPEventNone\<close> is the zero value, which \<open>ProcessPacket\<close> leaves when no case applies.\<close>

datatype BGPFSMEvent =
    BGPEventNone
  | BGPEventManualStart
  | BGPEventManualStop
  | BGPEventAutoStart
  | BGPEventManualStartPassTcpEst
  | BGPEventAutoStartPassTcpEst
  | BGPEventAutoStartDampPeerOscl
  | BGPEventAutoStartDampPeerOsclPassTcpEst
  | BGPEventAutoStop
  | BGPEventConnRetryTimerExp
  | BGPEventHoldTimerExp
  | BGPEventKeepAliveTimerExp
  | BGPEventDelayOpenTimerExp
  | BGPEventIdleHoldTimerExp
  | BGPEventTcpConnValid
  | BGPEventTcpCrInvalid
  | BGPEventTcpCrAcked
  | BGPEventTcpConnConfirmed
  | BGPEventTcpConnFails
  | BGPEventBGPOpen
  | BGPEventBGPOpenDelayOpenTimer
  | BGPEventHeaderErr
  | BGPEventOpenMsgErr
  | BGPEventOpenCollisionDump
  | BGPEventNotifMsgVerErr
  | BGPEventNotifMsg
  | BGPEventKeepAliveMsg
  | BGPEventUpdateMsg
  | BGPEventUpdateMsgErr

text \<open>
  The argument \<open>data interface{}\<close> of an event. A message comes with the answer the manager gives if it is an
  OPEN that the machine hands on to it.
\<close>

datatype event_data =
    NoData
  | DataConn PeerConnDir
  | DataConnErr u32
  | DataMsg BGPMessage bool
  | DataErr BGPMessageError

fun data_conn :: "event_data \<Rightarrow> PeerConnDir fres" where
  "data_conn (DataConn d) = Inr d"
| "data_conn _ = Inl Panic"

fun data_msg :: "event_data \<Rightarrow> (BGPMessage \<times> bool) fres" where
  "data_msg (DataMsg m b) = Inr (m, b)"
| "data_msg _ = Inl Panic"

fun data_err :: "event_data \<Rightarrow> BGPMessageError fres" where
  "data_err (DataErr e) = Inr e"
| "data_err _ = Inl Panic"

fun open_body :: "BGPBody option \<Rightarrow> BGPOpen fres" where
  "open_body (Some (Body_Open b)) = Inr b"
| "open_body _ = Inl Panic"

fun update_body :: "BGPBody option \<Rightarrow> BGPUpdate fres" where
  "update_body (Some (Body_Update b)) = Inr b"
| "update_body _ = Inl Panic"

text \<open>\<open>SetPeerConn\<close> looks at its argument only when there is no connection yet.\<close>

definition SetPeerConn_data :: "event_data \<Rightarrow> fsm_op" where
  "SetPeerConn_data d f =
     (if F_peerConn f \<noteq> None then Inr f else bind_r (data_conn d) (\<lambda>c. SetPeerConn c f))"

definition HandleAnotherConnection_data :: "event_data \<Rightarrow> fsm_op" where
  "HandleAnotherConnection_data d f = bind_r (data_conn d) (\<lambda>c. HandleAnotherConnection c f)"

definition notify_error :: "event_data \<Rightarrow> fsm_op" where
  "notify_error d f =
     bind_r (data_err d) (\<lambda>e. SendNotificationMessage (TypeCode e) (SubTypeCode e) (ErrData e) f)"

definition set_configured_hold_time :: fsm_op where
  "set_configured_hold_time f = SetHoldTime (Conf_HoldTime (F_conf f)) (Conf_KeepaliveTime (F_conf f)) f"

definition ProcessOpenMessage :: "BGPMessage \<Rightarrow> bool \<Rightarrow> fsm \<Rightarrow> (fsm \<times> bool) fres" where
  "ProcessOpenMessage pkt answer f =
     bind_r (open_body (Msg_Body pkt)) (\<lambda>body.
     bind_r (if ucast (Open_HoldTime body) < F_holdTime f
             then SetHoldTime (ucast (Open_HoldTime body)) (ucast (Open_HoldTime body div 3)) f
             else Inr f) (\<lambda>f.
     let f = f\<lparr>F_peerTypeInternal := (Open_MyAS body = Conf_GlobalAS (F_conf f)),
               F_afiSafiMap := F_afiSafiMap f \<union>
                 {p \<in> GetProtocolFromOpenMsg body. p \<in> set (Conf_AfiSafiMap (F_conf f))}\<rparr> in
     bind_r (need_conn f) (\<lambda>f. Inr (f, answer))))"

text \<open>\<open>ProcessUpdateMessage\<close>: the check of the families only logs a warning.\<close>

definition ProcessUpdateMessage :: "BGPMessage \<Rightarrow> fsm_op" where
  "ProcessUpdateMessage pkt f =
     bind_r (update_body (Msg_Body pkt)) (\<lambda>updateMsg. log_op (ToServer updateMsg) f)"

section \<open>Handlers of the states\<close>

definition Idle_processEvent :: "BGPFSMEvent \<Rightarrow> event_data \<Rightarrow> fsm_op" where
  "Idle_processEvent ev d f =
     (if ev \<in> {BGPEventManualStart, BGPEventAutoStart} then
       seq_ops [SetConnectRetryCounter 0, StartConnectRetryTimer, ChangeState BGPFSMConnect] f
      else if ev \<in> {BGPEventManualStartPassTcpEst, BGPEventAutoStartPassTcpEst} then
       seq_ops [SetConnectRetryCounter 0, StartConnectRetryTimer, ChangeState BGPFSMActive] f
      else if ev \<in> {BGPEventAutoStartDampPeerOscl, BGPEventAutoStartDampPeerOsclPassTcpEst} then
       seq_ops [\<lambda>f. SetIdleHoldTime (IdleHoldTimeInterval (F_idleHoldTime f)) f, StartIdleHoldTimer, 
         set_passive (ev = BGPEventAutoStartDampPeerOsclPassTcpEst)] f
      else if ev = BGPEventIdleHoldTimerExp then
       seq_ops [StartConnectRetryTimer, \<lambda>f. ChangeState (if F_passive f then BGPFSMActive else BGPFSMConnect) f] f
      else Inr f)"

definition Connect_processEvent :: "BGPFSMEvent \<Rightarrow> event_data \<Rightarrow> fsm_op" where
  "Connect_processEvent ev d f =
     (if ev = BGPEventManualStop then
       seq_ops [StopConnToPeer, SetConnectRetryCounter 0, StopConnectRetryTimer, ChangeState BGPFSMIdle] f
      else if ev = BGPEventConnRetryTimerExp then
       seq_ops [StopConnToPeer, StartConnectRetryTimer, InitiateConnToPeer] f
      else if ev \<in> {BGPEventTcpCrAcked, BGPEventTcpConnConfirmed} then
       seq_ops [StopConnectRetryTimer, SetPeerConn_data d, sendOpenMessage, set_configured_hold_time, StartHoldTimer, 
         ChangeState BGPFSMOpensent] f
      else if ev = BGPEventTcpConnFails then
       seq_ops [StopConnectRetryTimer, StopConnToPeer, ChangeState BGPFSMIdle] f
      else if ev \<in> {BGPEventHeaderErr, BGPEventOpenMsgErr} then
       seq_ops [StopConnectRetryTimer, StopConnToPeer, IncrConnectRetryCounter, ChangeState BGPFSMIdle] f
      else if ev = BGPEventNotifMsgVerErr then
       seq_ops [StopConnectRetryTimer, StopConnToPeer, IncrConnectRetryCounter, ChangeState BGPFSMIdle] f
      else if ev \<in> {BGPEventAutoStop, BGPEventHoldTimerExp, BGPEventKeepAliveTimerExp, BGPEventIdleHoldTimerExp, BGPEventBGPOpen, BGPEventOpenCollisionDump, BGPEventNotifMsg, BGPEventKeepAliveMsg, BGPEventUpdateMsg, BGPEventUpdateMsgErr} then
       seq_ops [StopConnectRetryTimer, StopConnToPeer, IncrConnectRetryCounter, ChangeState BGPFSMIdle] f
      else Inr f)"

definition Active_processEvent :: "BGPFSMEvent \<Rightarrow> event_data \<Rightarrow> fsm_op" where
  "Active_processEvent ev d f =
     (if ev = BGPEventManualStop then
       seq_ops [StopConnToPeer, SetConnectRetryCounter 0, StopConnectRetryTimer, ChangeState BGPFSMIdle] f
      else if ev = BGPEventConnRetryTimerExp then
       seq_ops [StartConnectRetryTimer, ChangeState BGPFSMConnect] f
      else if ev \<in> {BGPEventTcpCrAcked, BGPEventTcpConnConfirmed} then
       seq_ops [StopConnectRetryTimer, SetPeerConn_data d, sendOpenMessage, set_configured_hold_time, StartHoldTimer, 
         ChangeState BGPFSMOpensent] f
      else if ev = BGPEventTcpConnFails then
       seq_ops [StartConnectRetryTimer, StopConnToPeer, ClearPeerConn, IncrConnectRetryCounter, ChangeState BGPFSMIdle] f
      else if ev \<in> {BGPEventHeaderErr, BGPEventOpenMsgErr} then
       seq_ops [StopConnectRetryTimer, ClearPeerConn, StopConnToPeer, IncrConnectRetryCounter, ChangeState BGPFSMIdle] f
      else if ev = BGPEventNotifMsgVerErr then
       seq_ops [StopConnectRetryTimer, ClearPeerConn, StopConnToPeer, IncrConnectRetryCounter, ChangeState BGPFSMIdle] f
      else if ev \<in> {BGPEventAutoStop, BGPEventHoldTimerExp, BGPEventKeepAliveTimerExp, BGPEventIdleHoldTimerExp, BGPEventBGPOpen, BGPEventOpenCollisionDump, BGPEventNotifMsg, BGPEventKeepAliveMsg, BGPEventUpdateMsg, BGPEventUpdateMsgErr} then
       seq_ops [StopConnectRetryTimer, ClearPeerConn, StopConnToPeer, IncrConnectRetryCounter, ChangeState BGPFSMIdle] f
      else Inr f)"

definition OpenSent_processEvent :: "BGPFSMEvent \<Rightarrow> event_data \<Rightarrow> fsm_op" where
  "OpenSent_processEvent ev d f =
     (if ev = BGPEventManualStop then
       seq_ops [SendNotificationMessage BGPCease 0 [], StopConnectRetryTimer, ClearPeerConn, StopConnToPeer, SetConnectRetryCounter 0, ChangeState BGPFSMIdle] f
      else if ev = BGPEventAutoStop then
       seq_ops [SendNotificationMessage BGPCease 0 [], StopConnectRetryTimer, ClearPeerConn, StopConnToPeer, IncrConnectRetryCounter, ChangeState BGPFSMIdle] f
      else if ev = BGPEventHoldTimerExp then
       seq_ops [SendNotificationMessage BGPHoldTimerExpired 0 [], StopConnectRetryTimer, ClearPeerConn, StopConnToPeer, IncrConnectRetryCounter, ChangeState BGPFSMIdle] f
      else if ev \<in> {BGPEventTcpCrAcked, BGPEventTcpConnConfirmed} then
       HandleAnotherConnection_data d f
      else if ev = BGPEventTcpConnFails then
       seq_ops [ClearPeerConn, StopConnToPeer, StartConnectRetryTimer, ChangeState BGPFSMActive] f
      else if ev = BGPEventBGPOpen then
       bind_r (StopConnectRetryTimer f) (\<lambda>f.
       bind_r (data_msg d) (\<lambda>(bgpMsg, answer).
       bind_r (ProcessOpenMessage bgpMsg answer f) (\<lambda>(f, ok).
       if ok then seq_ops [sendKeepAliveMessage, StartHoldTimer, ChangeState BGPFSMOpenconfirm] f else Inr f)))
      else if ev \<in> {BGPEventHeaderErr, BGPEventOpenMsgErr} then
       seq_ops [notify_error d, StopConnectRetryTimer, ClearPeerConn, StopConnToPeer, IncrConnectRetryCounter, ChangeState BGPFSMIdle] f
      else if ev = BGPEventOpenCollisionDump then
       seq_ops [SendNotificationMessage BGPCease 0 [], StopConnectRetryTimer, ClearPeerConn, StopConnToPeer, IncrConnectRetryCounter, ChangeState BGPFSMIdle] f
      else if ev = BGPEventNotifMsgVerErr then
       seq_ops [StopConnectRetryTimer, ClearPeerConn, StopConnToPeer, ChangeState BGPFSMIdle] f
      else if ev \<in> {BGPEventConnRetryTimerExp, BGPEventKeepAliveTimerExp, BGPEventDelayOpenTimerExp, BGPEventIdleHoldTimerExp, BGPEventBGPOpenDelayOpenTimer, BGPEventNotifMsg, BGPEventKeepAliveMsg, BGPEventUpdateMsg, BGPEventUpdateMsgErr} then
       seq_ops [SendNotificationMessage BGPFSMError 0 [], StopConnectRetryTimer, ClearPeerConn, StopConnToPeer, IncrConnectRetryCounter, ChangeState BGPFSMIdle] f
      else Inr f)"

definition OpenConfirm_processEvent :: "BGPFSMEvent \<Rightarrow> event_data \<Rightarrow> fsm_op" where
  "OpenConfirm_processEvent ev d f =
     (if ev = BGPEventManualStop then
       seq_ops [SendNotificationMessage BGPCease 0 [], ClearPeerConn, StopConnToPeer, StopConnectRetryTimer, SetConnectRetryCounter 0, ChangeState BGPFSMIdle] f
      else if ev = BGPEventAutoStop then
       seq_ops [SendNotificationMessage BGPCease 0 [], StopConnectRetryTimer, ClearPeerConn, StopConnToPeer, IncrConnectRetryCounter, ChangeState BGPFSMIdle] f
      else if ev = BGPEventHoldTimerExp then
       seq_ops [SendNotificationMessage BGPHoldTimerExpired 0 [], StopConnectRetryTimer, ClearPeerConn, StopConnToPeer, IncrConnectRetryCounter, ChangeState BGPFSMIdle] f
      else if ev = BGPEventKeepAliveTimerExp then
       sendKeepAliveMessage f
      else if ev \<in> {BGPEventTcpCrAcked, BGPEventTcpConnConfirmed} then
       HandleAnotherConnection_data d f
      else if ev \<in> {BGPEventTcpConnFails, BGPEventNotifMsg} then
       seq_ops [StopConnectRetryTimer, ClearPeerConn, StopConnToPeer, IncrConnectRetryCounter, ChangeState BGPFSMIdle] f
      else if ev \<in> {BGPEventHeaderErr, BGPEventOpenMsgErr} then
       seq_ops [notify_error d, StopConnectRetryTimer, ClearPeerConn, StopConnToPeer, IncrConnectRetryCounter, ChangeState BGPFSMIdle] f
      else if ev = BGPEventOpenCollisionDump then
       seq_ops [SendNotificationMessage BGPCease 0 [], StopConnectRetryTimer, ClearPeerConn, StopConnToPeer, IncrConnectRetryCounter, ChangeState BGPFSMIdle] f
      else if ev = BGPEventNotifMsgVerErr then
       seq_ops [StopConnectRetryTimer, ClearPeerConn, StopConnToPeer, ChangeState BGPFSMIdle] f
      else if ev = BGPEventKeepAliveMsg then
       seq_ops [StartHoldTimer, ChangeState BGPFSMEstablished] f
      else if ev \<in> {BGPEventConnRetryTimerExp, BGPEventDelayOpenTimerExp, BGPEventIdleHoldTimerExp, BGPEventBGPOpenDelayOpenTimer, BGPEventUpdateMsg, BGPEventUpdateMsgErr} then
       seq_ops [SendNotificationMessage BGPCease 0 [], StopConnectRetryTimer, ClearPeerConn, StopConnToPeer, IncrConnectRetryCounter, ChangeState BGPFSMIdle] f
      else Inr f)"

definition Established_processEvent :: "BGPFSMEvent \<Rightarrow> event_data \<Rightarrow> fsm_op" where
  "Established_processEvent ev d f =
     (if ev = BGPEventManualStop then
       seq_ops [SendNotificationMessage BGPCease 0 [], StopConnectRetryTimer, ClearPeerConn, StopConnToPeer, SetConnectRetryCounter 0, ChangeState BGPFSMIdle] f
      else if ev = BGPEventAutoStop then
       seq_ops [SendNotificationMessage BGPCease 0 [], StopConnectRetryTimer, ClearPeerConn, StopConnToPeer, IncrConnectRetryCounter, ChangeState BGPFSMIdle] f
      else if ev = BGPEventHoldTimerExp then
       seq_ops [SendNotificationMessage BGPHoldTimerExpired 0 [], StopConnectRetryTimer, ClearPeerConn, StopConnToPeer, IncrConnectRetryCounter, ChangeState BGPFSMIdle] f
      else if ev = BGPEventKeepAliveTimerExp then
       sendKeepAliveMessage f
      else if ev \<in> {BGPEventTcpCrAcked, BGPEventTcpConnConfirmed} then
       HandleAnotherConnection_data d f
      else if ev \<in> {BGPEventTcpConnFails, BGPEventNotifMsgVerErr, BGPEventNotifMsg} then
       seq_ops [StopConnectRetryTimer, ClearPeerConn, StopConnToPeer, IncrConnectRetryCounter, ChangeState BGPFSMIdle] f
      else if ev = BGPEventOpenCollisionDump then
       seq_ops [SendNotificationMessage BGPCease 0 [], StopConnectRetryTimer, ClearPeerConn, StopConnToPeer, IncrConnectRetryCounter, ChangeState BGPFSMIdle] f
      else if ev = BGPEventKeepAliveMsg then
       StartHoldTimer f
      else if ev = BGPEventUpdateMsg then
       bind_r (StartHoldTimer f) (\<lambda>f.
       bind_r (data_msg d) (\<lambda>(bgpMsg, _). ProcessUpdateMessage bgpMsg f))
      else if ev = BGPEventUpdateMsgErr then
       seq_ops [notify_error d, StopConnectRetryTimer, ClearPeerConn, StopConnToPeer, IncrConnectRetryCounter, ChangeState BGPFSMIdle] f
      else if ev \<in> {BGPEventConnRetryTimerExp, BGPEventDelayOpenTimerExp, BGPEventIdleHoldTimerExp, BGPEventOpenMsgErr, BGPEventBGPOpenDelayOpenTimer, BGPEventHeaderErr} then
       seq_ops [SendNotificationMessage BGPFSMError 0 [], StopConnectRetryTimer, ClearPeerConn, StopConnToPeer, IncrConnectRetryCounter, ChangeState BGPFSMIdle] f
      else Inr f)"

definition ProcessEvent :: "BGPFSMEvent \<Rightarrow> event_data \<Rightarrow> fsm_op" where
  "ProcessEvent ev d f =
     (case F_State f of
        BGPFSMIdle \<Rightarrow> Idle_processEvent ev d f
      | BGPFSMConnect \<Rightarrow> Connect_processEvent ev d f
      | BGPFSMActive \<Rightarrow> Active_processEvent ev d f
      | BGPFSMOpensent \<Rightarrow> OpenSent_processEvent ev d f
      | BGPFSMOpenconfirm \<Rightarrow> OpenConfirm_processEvent ev d f
      | BGPFSMEstablished \<Rightarrow> Established_processEvent ev d f)"

text \<open>
  \<open>ProcessPacket\<close>: the event of a received message or error. The body of a NOTIFICATION is asserted to be
  one; its code is only logged.
\<close>

definition error_event :: "BGPMessageError \<Rightarrow> BGPFSMEvent" where
  "error_event e =
     (if TypeCode e = BGPMsgHeaderError then BGPEventHeaderErr
      else if TypeCode e = BGPOpenMsgError then BGPEventOpenMsgErr
      else if TypeCode e = BGPUpdateMsgError then BGPEventUpdateMsgErr
      else BGPEventNone)"

definition is_notification :: "BGPBody option \<Rightarrow> bool" where
  "is_notification b = (case b of Some (Body_Notification _) \<Rightarrow> True | _ \<Rightarrow> False)"

definition message_event :: "BGPMessage \<Rightarrow> BGPFSMEvent fres" where
  "message_event msg =
     (let t = Hdr_Type (Msg_Header msg) in
      if t = BGPMsgTypeOpen then Inr BGPEventBGPOpen
      else if t = BGPMsgTypeUpdate then Inr BGPEventUpdateMsg
      else if t = BGPMsgTypeNotification then
        (if is_notification (Msg_Body msg) then Inr BGPEventNotifMsg else Inl Panic)
      else if t = BGPMsgTypeKeepAlive then Inr BGPEventKeepAliveMsg
      else Inr BGPEventNone)"

definition ProcessPacket :: "BGPMessage option \<Rightarrow> BGPMessageError option \<Rightarrow> bool \<Rightarrow> fsm_op" where
  "ProcessPacket msg msgErr answer f =
     (case msgErr of
        Some e \<Rightarrow> ProcessEvent (error_event e) (DataErr e) f
      | None \<Rightarrow>
          (case msg of
             None \<Rightarrow> Inl Panic
           | Some m \<Rightarrow> bind_r (message_event m) (\<lambda>ev. ProcessEvent ev (DataMsg m answer) f)))"

definition sendAutoStartEvent :: fsm_op where
  "sendAutoStartEvent f =
     ProcessEvent (if F_passiveTcpEst f then
                     (if F_dampPeerOscl f then BGPEventAutoStartDampPeerOsclPassTcpEst else BGPEventAutoStartPassTcpEst)
                   else if F_dampPeerOscl f then BGPEventAutoStartDampPeerOscl
                   else BGPEventAutoStart) NoData f"

section \<open>The loop\<close>

text \<open>What the channels and the timers of \<open>StartFSM\<close> deliver.\<close>

datatype cmd_reason = BGPCmdReasonNone | BGPCmdReasonMaxPrefixExceeded

datatype fsm_input =
    In_outConn u32 u32
  | In_outConnErr u32
  | In_inConn u32 u32
  | In_close
  | In_passiveTcpEst bool
  | In_pktTx "(BGPMessage \<times> bool) list"
  | In_pktRx "BGPMessage option" "BGPMessageError option" bool
  | In_event BGPFSMEvent cmd_reason
  | In_bfdStatus bool
  | In_connectRetryTimer
  | In_holdTimer
  | In_keepAliveTimer
  | In_idleHoldTimer
  | In_restartTimer

text \<open>
  One round of the loop. A timer that was stopped after it fired may still deliver, so its input can come in
  every state.
\<close>

fun fsm_step :: "fsm_input \<Rightarrow> fsm_op" where
  "fsm_step (In_outConn r1 r2) f =
     (if \<not> F_outTCPConn f then log_op UnexpectedConnClosed f
      else seq_ops [StopConnToPeer,
                    ProcessEvent BGPEventTcpCrAcked (DataConn \<lparr>PCD_dir = ConnDirOut, PCD_r1 = r1, PCD_r2 = r2\<rparr>)] f)"
| "fsm_step (In_outConnErr i) f =
     bind_r (StopConnToPeer f) (\<lambda>f.
     if i \<noteq> 0 \<and> i \<noteq> F_connId f then Inr f
     else bind_r (ProcessEvent BGPEventTcpConnFails (DataConnErr i) f) (\<lambda>f.
          if \<not> F_close f then log_op MgrTcpConnFail f else Inr f))"
| "fsm_step (In_inConn r1 r2) f =
     ProcessEvent BGPEventTcpConnConfirmed (DataConn \<lparr>PCD_dir = ConnDirIn, PCD_r1 = r1, PCD_r2 = r2\<rparr>) f"
| "fsm_step In_close f = ProcessEvent BGPEventManualStop NoData (f\<lparr>F_close := True\<rparr>)"
| "fsm_step (In_passiveTcpEst b) f = Inr (f\<lparr>F_passiveTcpEst := b\<rparr>)"
| "fsm_step (In_pktTx ms) f = (if F_State f \<noteq> BGPFSMEstablished then Inr f else sendUpdateMessage ms f)"
| "fsm_step (In_pktRx msg err answer) f = ProcessPacket msg err answer f"
| "fsm_step (In_event ev reason) f =
     seq_ops [\<lambda>f. Inr (if reason = BGPCmdReasonMaxPrefixExceeded
                        then f\<lparr>F_restartTime := ucast (Conf_MaxPrefixesRestartTimer (F_conf f))\<rparr> else f),
              ProcessEvent ev NoData,
              \<lambda>f. Inr (f\<lparr>F_restartTime := BGPRestartTimeDefault\<rparr>),
              ProcessEvent BGPEventAutoStart NoData] f"
| "fsm_step (In_bfdStatus up) f =
     seq_ops [\<lambda>f. if \<not> up then ProcessEvent BGPEventAutoStop NoData f
                   else if F_State f < BGPFSMOpensent then ProcessEvent BGPEventAutoStop NoData f
                   else Inr f,
              ProcessEvent BGPEventAutoStart NoData] f"
| "fsm_step In_connectRetryTimer f = ProcessEvent BGPEventConnRetryTimerExp NoData f"
| "fsm_step In_holdTimer f = ProcessEvent BGPEventHoldTimerExp NoData f"
| "fsm_step In_keepAliveTimer f = ProcessEvent BGPEventKeepAliveTimerExp NoData f"
| "fsm_step In_idleHoldTimer f = ProcessEvent BGPEventIdleHoldTimerExp NoData f"
| "fsm_step In_restartTimer f = sendAutoStartEvent f"

text \<open>\<open>Init\<close> and what \<open>StartFSM\<close> does before its loop.\<close>

definition FSM_Init :: "fsm_conf \<Rightarrow> BGPFSMState \<Rightarrow> fsm" where
  "FSM_Init c s = (NewFSM c)\<lparr>F_State := s\<rparr>"

definition start_fsm :: fsm_op where
  "start_fsm f = seq_ops [\<lambda>f. enter (F_State f) f, ProcessEvent BGPEventAutoStart NoData] f"

fun run_fsm :: "fsm_input list \<Rightarrow> fsm_op" where
  "run_fsm [] f = Inr f"
| "run_fsm (i # is) f = (if F_close f then Inr f else bind_r (fsm_step i f) (run_fsm is))"

end
