(* ===== verification/FsmInv.thy ===== *)
theory FsmInv
  imports Fsm
begin

text \<open>
  What a session machine guarantees: an invariant of its state and of what the manager and the server see of it,
  kept by every round of its loop; the transition table of the protocol, which its handlers refine; that no
  input the rest of the program produces makes it panic; and that it is never left without a timer to wait for.
\<close>

section \<open>Well-formed sessions\<close>

text \<open>
  What the manager and the server may see of one session, as an automaton over the log whose state says whether
  the session is established: it is established and broken in turn, and only while it is established are routes
  handed to the server or UPDATEs written.
\<close>

definition is_update :: "BGPMessage \<Rightarrow> bool" where
  "is_update m \<longleftrightarrow> Hdr_Type (Msg_Header m) = BGPMsgTypeUpdate"

fun session_action :: "bool \<Rightarrow> fsm_action \<Rightarrow> bool option" where
  "session_action est MgrEstablished = (if est then None else Some True)"
| "session_action est MgrBroken = (if est then Some False else None)"
| "session_action est (ToServer _) = (if est then Some est else None)"
| "session_action est (Wrote m _) = (if is_update m \<and> \<not> est then None else Some est)"
| "session_action est _ = Some est"

fun session_from :: "bool \<Rightarrow> fsm_action list \<Rightarrow> bool option" where
  "session_from est [] = Some est"
| "session_from est (a # l) = (case session_action est a of None \<Rightarrow> None | Some e \<Rightarrow> session_from e l)"

lemma session_from_append [simp]:
  "session_from est (l @ m) = (case session_from est l of None \<Rightarrow> None | Some e \<Rightarrow> session_from e m)"
  by (induction l arbitrary: est) (simp_all split: option.split)

text \<open>
  The invariant: the log is a well-formed session that is established exactly in the state Established; until
  the machine is closed there is a connection exactly from OpenSent on, known by the current id, without
  one the hold and keepalive timers are stopped, and in Idle no outgoing connection is being tried.
\<close>

definition fsm_inv :: "fsm \<Rightarrow> bool" where
  "fsm_inv f \<longleftrightarrow>
     session_from False (F_log f) = Some (F_State f = BGPFSMEstablished) \<and>
     (\<not> F_close f \<longrightarrow>
        (F_peerConn f = None \<longleftrightarrow> F_State f < BGPFSMOpensent) \<and>
        (F_State f = BGPFSMIdle \<longrightarrow> \<not> F_outTCPConn f) \<and>
        (case F_peerConn f of
           None \<Rightarrow> F_connId f = 0 \<and> F_holdTimer f = None \<and> F_keepAliveTimer f = None
         | Some (_, i) \<Rightarrow> i = F_connId f))"

lemma state_less [simp]:
  "BGPFSMIdle < BGPFSMOpensent" "BGPFSMConnect < BGPFSMOpensent" "BGPFSMActive < BGPFSMOpensent"
  "\<not> BGPFSMOpensent < BGPFSMOpensent" "\<not> BGPFSMOpenconfirm < BGPFSMOpensent" "\<not> BGPFSMEstablished < BGPFSMOpensent"
  by (simp_all add: less_BGPFSMState_def)

named_theorems fsm_defs

declare log_op_def [fsm_defs] StartRestartTimer_def [fsm_defs] ApplyAutomaticStart_def [fsm_defs]
  StartConnectRetryTimer_def [fsm_defs] StopConnectRetryTimer_def [fsm_defs] SetHoldTime_def [fsm_defs]
  StartHoldTimer_def [fsm_defs] StopHoldTimer_def [fsm_defs] StartKeepAliveTimer_def [fsm_defs]
  StopKeepAliveTimer_def [fsm_defs] SetConnectRetryCounter_def [fsm_defs] IncrConnectRetryCounter_def [fsm_defs]
  SetIdleHoldTime_def [fsm_defs] StartIdleHoldTimer_def [fsm_defs] StopIdleHoldTimer_def [fsm_defs]
  set_passive_def [fsm_defs] need_conn_def [fsm_defs]
  sendOpenMessage_def [fsm_defs] sendKeepAliveMessage_def [fsm_defs] SendNotificationMessage_def [fsm_defs]
  SetPeerConn_def [fsm_defs] SetPeerConn_data_def [fsm_defs] ClearPeerConn_def [fsm_defs] InitiateConnToPeer_def [fsm_defs] StopConnToPeer_def [fsm_defs]
  HandleAnotherConnection_def [fsm_defs] HandleAnotherConnection_data_def [fsm_defs]
  ConnEstablished_def [fsm_defs] ConnBroken_def [fsm_defs]
  change_state_with_def [fsm_defs] enter_def [fsm_defs] ChangeState_def [fsm_defs]
  notify_error_def [fsm_defs] set_configured_hold_time_def [fsm_defs]

text \<open>Messages whose encoding does not panic, and the bytes that are written for them.\<close>

definition msg_bytes :: "BGPMessage \<Rightarrow> bytes" where
  "msg_bytes m = (case BGPMessage_Encode m of Inr (_, pkt) \<Rightarrow> pkt | Inl _ \<Rightarrow> [])"

definition encodable :: "BGPMessage \<Rightarrow> bool" where
  "encodable m \<longleftrightarrow> BGPMessage_Encode m \<noteq> Inl Panic \<and> BGPMessage_Encode m \<noteq> Inl Diverges"

lemma encodable_encode: "encodable m \<Longrightarrow> encode_ignoring_error m = Inr (msg_bytes m)"
  by (auto simp: encodable_def encode_ignoring_error_def msg_bytes_def split: sum.split go_error.split)

lemma write_message_eq [fsm_defs]:
  assumes "encodable m"
  shows "write_message m f
     = (if F_peerConn f = None then Inl Panic else Inr (f\<lparr>F_log := F_log f @ [Wrote m (msg_bytes m)]\<rparr>))"
  by (simp add: write_message_def encodable_encode [OF assms] need_conn_def log_op_def)

lemma encodable_keepalive [fsm_defs]: "encodable NewBGPKeepAliveMessage"
  by (simp add: encodable_def NewBGPKeepAliveMessage_def BGPMessage_Encode_def NewBGPHeader_def)

lemma encodable_notification [fsm_defs]: "encodable (NewBGPNotificationMessage c s d)"
  by (simp add: encodable_def NewBGPNotificationMessage_def BGPMessage_Encode_def NewBGPHeader_def Let_def)

definition wf_conf :: "fsm_conf \<Rightarrow> bool" where
  "wf_conf c \<longleftrightarrow> length (Conf_AfiSafiMap c) \<le> 23 \<and> To4 (Conf_RouterId c) \<noteq> []"

lemma encodable_open [fsm_defs]: "wf_conf c \<Longrightarrow> encodable (open_message c h)"
proof -
  assume "wf_conf c"
  then have "wf_open (NewBGPOpen (Conf_LocalAS c) (ucast h) (Conf_RouterId c)
       (ConstructOptParams (Conf_LocalAS c) (Conf_AfiSafiMap c) (Conf_AddPathsRx c) (Conf_AddPathsMaxTx c)))"
    by (intro open_sent_wf) (simp_all add: wf_conf_def)
  from open_roundtrip [OF this] show ?thesis
    by (auto simp: encodable_def open_message_def NewBGPOpenMessage_def BGPMessage_Encode_def NewBGPHeader_def Let_def
        split: if_splits)
qed

lemma not_update [fsm_defs]:
  "\<not> is_update NewBGPKeepAliveMessage" "\<not> is_update (NewBGPNotificationMessage c s d)"
  "\<not> is_update (open_message cf h)"
  by (simp_all add: is_update_def NewBGPKeepAliveMessage_def NewBGPNotificationMessage_def open_message_def
      NewBGPOpenMessage_def NewBGPHeader_def)

fun data_ok :: "BGPFSMEvent \<Rightarrow> event_data \<Rightarrow> bool" where
  "data_ok BGPEventTcpCrAcked d \<longleftrightarrow> (\<exists>c. d = DataConn c)"
| "data_ok BGPEventTcpConnConfirmed d \<longleftrightarrow> (\<exists>c. d = DataConn c)"
| "data_ok BGPEventBGPOpen d \<longleftrightarrow> (\<exists>m b a. d = DataMsg m a \<and> Msg_Body m = Some (Body_Open b))"
| "data_ok BGPEventUpdateMsg d \<longleftrightarrow> (\<exists>m b a. d = DataMsg m a \<and> Msg_Body m = Some (Body_Update b))"
| "data_ok BGPEventHeaderErr d \<longleftrightarrow> (\<exists>e. d = DataErr e)"
| "data_ok BGPEventOpenMsgErr d \<longleftrightarrow> (\<exists>e. d = DataErr e)"
| "data_ok BGPEventUpdateMsgErr d \<longleftrightarrow> (\<exists>e. d = DataErr e)"
| "data_ok _ d \<longleftrightarrow> True"

section \<open>The transition table\<close>

text \<open>
  The state the protocol prescribes after an event: \<open>bfd\<close> says that BFD reports the neighbour down, \<open>passive\<close>
  that the machine waits for the peer to connect, \<open>answer\<close> that the manager keeps the connection.
\<close>

definition start_state :: "bool \<Rightarrow> BGPFSMState" where
  "start_state bfd = (if bfd then BGPFSMActive else BGPFSMConnect)"

definition ignored_by_all :: "BGPFSMEvent set" where
  "ignored_by_all = {BGPEventNone, BGPEventTcpConnValid, BGPEventTcpCrInvalid}"

definition start_events :: "BGPFSMEvent set" where
  "start_events = {BGPEventManualStart, BGPEventAutoStart, BGPEventManualStartPassTcpEst, BGPEventAutoStartPassTcpEst,
     BGPEventAutoStartDampPeerOscl, BGPEventAutoStartDampPeerOsclPassTcpEst}"

definition conn_events :: "BGPFSMEvent set" where
  "conn_events = {BGPEventTcpCrAcked, BGPEventTcpConnConfirmed}"

fun next_state :: "bool \<Rightarrow> bool \<Rightarrow> bool \<Rightarrow> BGPFSMState \<Rightarrow> BGPFSMEvent \<Rightarrow> BGPFSMState" where
  "next_state bfd passive answer BGPFSMIdle ev =
     (if ev \<in> {BGPEventManualStart, BGPEventAutoStart} then start_state bfd
      else if ev \<in> {BGPEventManualStartPassTcpEst, BGPEventAutoStartPassTcpEst} then BGPFSMActive
      else if ev = BGPEventIdleHoldTimerExp then (if passive then BGPFSMActive else start_state bfd)
      else BGPFSMIdle)"
| "next_state bfd passive answer BGPFSMConnect ev =
     (if ev \<in> ignored_by_all \<union> start_events
        \<union> {BGPEventConnRetryTimerExp, BGPEventDelayOpenTimerExp, BGPEventBGPOpenDelayOpenTimer} then BGPFSMConnect
      else if ev \<in> conn_events then BGPFSMOpensent
      else BGPFSMIdle)"
| "next_state bfd passive answer BGPFSMActive ev =
     (if ev \<in> ignored_by_all \<union> start_events \<union> {BGPEventDelayOpenTimerExp, BGPEventBGPOpenDelayOpenTimer} then BGPFSMActive
      else if ev = BGPEventConnRetryTimerExp then start_state bfd
      else if ev \<in> conn_events then BGPFSMOpensent
      else BGPFSMIdle)"
| "next_state bfd passive answer BGPFSMOpensent ev =
     (if ev \<in> ignored_by_all \<union> start_events \<union> conn_events then BGPFSMOpensent
      else if ev = BGPEventTcpConnFails then BGPFSMActive
      else if ev = BGPEventBGPOpen then (if answer then BGPFSMOpenconfirm else BGPFSMOpensent)
      else BGPFSMIdle)"
| "next_state bfd passive answer BGPFSMOpenconfirm ev =
     (if ev \<in> ignored_by_all \<union> start_events \<union> conn_events \<union> {BGPEventKeepAliveTimerExp, BGPEventBGPOpen}
      then BGPFSMOpenconfirm
      else if ev = BGPEventKeepAliveMsg then BGPFSMEstablished
      else BGPFSMIdle)"
| "next_state bfd passive answer BGPFSMEstablished ev =
     (if ev \<in> ignored_by_all \<union> start_events \<union> conn_events
        \<union> {BGPEventKeepAliveTimerExp, BGPEventBGPOpen, BGPEventKeepAliveMsg, BGPEventUpdateMsg} then BGPFSMEstablished
      else BGPFSMIdle)"

lemmas table_defs = start_state_def ignored_by_all_def start_events_def conn_events_def

fun data_answer :: "event_data \<Rightarrow> bool" where
  "data_answer (DataMsg _ answer) = answer"
| "data_answer _ = False"

text \<open>
  A machine that is not closed waits in Idle for its restart timer, and in Connect and Active for its connect
  retry timer.
\<close>

definition armed :: "fsm \<Rightarrow> bool" where
  "armed f \<longleftrightarrow>
     \<not> F_dampPeerOscl f \<and>
     (F_State f = BGPFSMIdle \<longrightarrow> F_restartTimer f \<noteq> None) \<and>
     (F_State f \<in> {BGPFSMConnect, BGPFSMActive} \<longrightarrow> F_connectRetryTimer f \<noteq> None)"

text \<open>What one event does to a machine that is not closed.\<close>

definition good :: "BGPFSMEvent \<Rightarrow> event_data \<Rightarrow> fsm \<Rightarrow> fsm fres \<Rightarrow> bool" where
  "good ev d f r \<longleftrightarrow>
     (\<exists>f'. r = Inr f' \<and> fsm_inv f' \<and> F_conf f' = F_conf f \<and> \<not> F_close f' \<and>
       F_State f' = next_state (Conf_BfdDown (F_conf f)) (F_passive f) (data_answer d) (F_State f) ev \<and>
       (armed f \<longrightarrow> armed f'))"

lemmas good_simps = good_def fsm_inv_def armed_def table_defs fsm_defs Let_def

lemma Idle_good:
  assumes "fsm_inv f" "F_State f = BGPFSMIdle" "wf_conf (F_conf f)" "data_ok ev d" "\<not> F_close f"
  shows "good ev d f (Idle_processEvent ev d f)"
  using assms by (cases ev) (auto simp: Idle_processEvent_def good_simps)

lemma Connect_good:
  assumes "fsm_inv f" "F_State f = BGPFSMConnect" "wf_conf (F_conf f)" "data_ok ev d" "\<not> F_close f"
  shows "good ev d f (Connect_processEvent ev d f)"
  using assms by (cases ev) (auto simp: Connect_processEvent_def good_simps)

lemma Active_good:
  assumes "fsm_inv f" "F_State f = BGPFSMActive" "wf_conf (F_conf f)" "data_ok ev d" "\<not> F_close f"
  shows "good ev d f (Active_processEvent ev d f)"
  using assms by (cases ev) (auto simp: Active_processEvent_def good_simps)

lemma OpenSent_good:
  assumes "fsm_inv f" "F_State f = BGPFSMOpensent" "wf_conf (F_conf f)" "data_ok ev d" "\<not> F_close f"
  shows "good ev d f (OpenSent_processEvent ev d f)"
  using assms by (cases ev) (auto simp: OpenSent_processEvent_def ProcessOpenMessage_def good_simps)

lemma OpenConfirm_good:
  assumes "fsm_inv f" "F_State f = BGPFSMOpenconfirm" "wf_conf (F_conf f)" "data_ok ev d" "\<not> F_close f"
  shows "good ev d f (OpenConfirm_processEvent ev d f)"
  using assms by (cases ev) (auto simp: OpenConfirm_processEvent_def good_simps)

lemma Established_good:
  assumes "fsm_inv f" "F_State f = BGPFSMEstablished" "wf_conf (F_conf f)" "data_ok ev d" "\<not> F_close f"
  shows "good ev d f (Established_processEvent ev d f)"
  using assms by (cases ev) (auto simp: Established_processEvent_def ProcessUpdateMessage_def good_simps)

lemma seq_ops_single [simp]: "seq_ops [op] f = op f"
  by (simp add: bind_r_def split: sum.split)

lemma ProcessEvent_good:
  assumes "fsm_inv f" "wf_conf (F_conf f)" "data_ok ev d" "\<not> F_close f"
  shows "good ev d f (ProcessEvent ev d f)"
  using assms Idle_good Connect_good Active_good OpenSent_good OpenConfirm_good Established_good
  by (cases "F_State f") (simp_all add: ProcessEvent_def)

text \<open>The last event, when the machine is told to close, leaves the state and releases the connection.\<close>

lemma ProcessEvent_close:
  assumes "fsm_inv f" "wf_conf (F_conf f)" "\<not> F_close f"
  shows "\<exists>f'. ProcessEvent BGPEventManualStop NoData (f\<lparr>F_close := True\<rparr>) = Inr f' \<and> fsm_inv f' \<and> F_close f' \<and>
           F_conf f' = F_conf f \<and> F_State f' = F_State f \<and> F_peerConn f' = None \<and> \<not> F_outTCPConn f'"
  using assms by (cases "F_State f")
    (auto simp: ProcessEvent_def Idle_processEvent_def Connect_processEvent_def Active_processEvent_def OpenSent_processEvent_def
      OpenConfirm_processEvent_def Established_processEvent_def fsm_inv_def fsm_defs)

section \<open>Rounds of the loop\<close>

definition msg_consistent :: "BGPMessage \<Rightarrow> bool" where
  "msg_consistent m \<longleftrightarrow>
     (let t = Hdr_Type (Msg_Header m) in
      (t = BGPMsgTypeOpen \<longrightarrow> (case Msg_Body m of Some (Body_Open _) \<Rightarrow> True | _ \<Rightarrow> False)) \<and>
      (t = BGPMsgTypeUpdate \<longrightarrow> (case Msg_Body m of Some (Body_Update _) \<Rightarrow> True | _ \<Rightarrow> False)) \<and>
      (t = BGPMsgTypeNotification \<longrightarrow> is_notification (Msg_Body m)))"

text \<open>
  The inputs the rest of the program produces: the reader of the connection delivers a decoded message or an
  error, the manager forwards five events, outgoing messages encode without a panic.
\<close>

fun valid_input :: "fsm_input \<Rightarrow> bool" where
  "valid_input (In_pktRx msg err answer) \<longleftrightarrow> (err = None \<longrightarrow> (case msg of None \<Rightarrow> False | Some m \<Rightarrow> msg_consistent m))"
| "valid_input (In_event ev reason) \<longleftrightarrow>
     ev \<in> {BGPEventManualStart, BGPEventManualStop, BGPEventAutoStop, BGPEventManualStartPassTcpEst, BGPEventTcpConnFails}"
| "valid_input (In_pktTx ms) \<longleftrightarrow> list_all (\<lambda>m. encodable (fst m)) ms"
| "valid_input _ \<longleftrightarrow> True"

lemma BGPMessage_Decode_consistent:
  "BGPMessage_Decode h pkt attrs = Inr m \<Longrightarrow> msg_consistent m"
  by (auto simp: BGPMessage_Decode_def msg_consistent_def is_notification_def Let_def bind_r_eq_Inr split: if_splits)

lemma DecodeMessage_valid:
  "DecodeMessage p h buf = Inr (p', d) \<Longrightarrow> valid_input (In_pktRx (Dec_Msg d) (Dec_Error d) answer)"
  by (auto simp: DecodeMessage_def Let_def bind_r_eq_Inr BGPMessage_Decode_consistent
      split: sum.splits go_error.splits pkt_error.splits)

lemma message_event_ok:
  assumes "msg_consistent m"
  shows "\<exists>ev. message_event m = Inr ev \<and> data_ok ev (DataMsg m a)"
  using assms
  by (auto simp: message_event_def msg_consistent_def Let_def split: option.splits BGPBody.splits)

lemma error_event_ok: "data_ok (error_event e) (DataErr e)"
  by (simp add: error_event_def)

definition stays_good :: "fsm \<Rightarrow> fsm fres \<Rightarrow> bool" where
  "stays_good f r \<longleftrightarrow>
     (\<exists>f'. r = Inr f' \<and> fsm_inv f' \<and> F_conf f' = F_conf f \<and> \<not> F_close f' \<and> (armed f \<longrightarrow> armed f'))"

lemma stays_good_event:
  assumes "fsm_inv f" "wf_conf (F_conf f)" "data_ok ev d" "\<not> F_close f"
  shows "stays_good f (ProcessEvent ev d f)"
  using ProcessEvent_good [OF assms] by (auto simp: good_def stays_good_def)

lemma stays_good_bind:
  assumes "stays_good f r"
    and "\<And>f'. fsm_inv f' \<Longrightarrow> F_conf f' = F_conf f \<Longrightarrow> \<not> F_close f' \<Longrightarrow> stays_good f' (g f')"
  shows "stays_good f (bind_r r g)"
  using assms by (fastforce simp: stays_good_def)

lemma stays_good_Inr:
  "fsm_inv f' \<Longrightarrow> F_conf f' = F_conf f \<Longrightarrow> \<not> F_close f' \<Longrightarrow> (armed f \<longrightarrow> armed f') \<Longrightarrow> stays_good f (Inr f')"
  by (simp add: stays_good_def)

lemma sendUpdateMessage_good:
  assumes "fsm_inv f" "\<not> F_close f" "F_State f = BGPFSMEstablished" "list_all (\<lambda>m. encodable (fst m)) ms"
  shows "stays_good f (sendUpdateMessage ms f)"
  using assms
proof (induction ms arbitrary: f)
  case Nil
  then show ?case by (simp add: stays_good_def)
next
  case (Cons x ms)
  obtain m ok where x: "x = (m, ok)" by (cases x)
  let ?f = "f\<lparr>F_log := F_log f @ [Wrote m (msg_bytes m)],
              F_keepAliveTimer := (if F_keepAliveTime f \<noteq> 0 then Some (F_keepAliveTime f) else None)\<rparr>"
  have conn: "F_peerConn f \<noteq> None" using Cons.prems by (auto simp: fsm_inv_def)
  have "fsm_inv ?f" using Cons.prems conn by (auto simp: fsm_inv_def)
  with Cons.IH [of ?f] Cons.prems have "stays_good ?f (sendUpdateMessage ms ?f)" by simp
  then have rest: "stays_good f (sendUpdateMessage ms ?f)" by (simp add: stays_good_def armed_def)
  show ?case
    using Cons.prems Cons.IH [of f] rest conn
    by (auto simp: x encodable_def msg_bytes_def stays_good_def fsm_defs split: sum.split go_error.split)
qed

lemma stop_conn_good:
  assumes "fsm_inv f" "\<not> F_close f"
  shows "stays_good f (StopConnToPeer f)"
  using assms by (auto simp: stays_good_def StopConnToPeer_def fsm_inv_def armed_def log_op_def)

lemma log_good:
  assumes "fsm_inv f" "\<not> F_close f" "session_action (F_State f = BGPFSMEstablished) a = Some (F_State f = BGPFSMEstablished)"
  shows "stays_good f (log_op a f)"
  using assms by (auto simp: stays_good_def fsm_inv_def armed_def log_op_def)

lemma inv_restartTime [simp]:
  "fsm_inv (f\<lparr>F_restartTime := t\<rparr>) = fsm_inv f" "armed (f\<lparr>F_restartTime := t\<rparr>) = armed f"
  by (auto simp: fsm_inv_def armed_def split: option.splits)

lemma In_event_good:
  assumes "fsm_inv f" "wf_conf (F_conf f)" "\<not> F_close f" "valid_input (In_event ev reason)"
  shows "stays_good f (fsm_step (In_event ev reason) f)"
proof -
  let ?f = "if reason = BGPCmdReasonMaxPrefixExceeded
            then f\<lparr>F_restartTime := ucast (Conf_MaxPrefixesRestartTimer (F_conf f))\<rparr> else f"
  have 0: "fsm_inv ?f" "F_conf ?f = F_conf f" "\<not> F_close ?f" "armed ?f = armed f"
    using assms by simp_all
  have "stays_good ?f (ProcessEvent ev NoData ?f)"
    using assms 0 by (intro stays_good_event) auto
  then have 1: "stays_good f (ProcessEvent ev NoData ?f)"
    using 0 by (simp add: stays_good_def)
  have 2: "stays_good g (ProcessEvent BGPEventAutoStart NoData (g\<lparr>F_restartTime := BGPRestartTimeDefault\<rparr>))"
    if "fsm_inv g" "F_conf g = F_conf f" "\<not> F_close g" for g
  proof -
    let ?g = "g\<lparr>F_restartTime := BGPRestartTimeDefault\<rparr>"
    have "stays_good ?g (ProcessEvent BGPEventAutoStart NoData ?g)"
      using that assms(2) by (intro stays_good_event) simp_all
    then show ?thesis by (simp add: stays_good_def)
  qed
  have "fsm_step (In_event ev reason) f
      = bind_r (ProcessEvent ev NoData ?f)
          (\<lambda>g. ProcessEvent BGPEventAutoStart NoData (g\<lparr>F_restartTime := BGPRestartTimeDefault\<rparr>))"
    by (simp add: bind_r_def split: sum.split)
  with stays_good_bind [OF 1 2] show ?thesis by simp
qed

lemma ProcessPacket_good:
  assumes "fsm_inv f" "wf_conf (F_conf f)" "\<not> F_close f" "valid_input (In_pktRx msg err answer)"
  shows "stays_good f (ProcessPacket msg err answer f)"
proof (cases err)
  case None
  then obtain m where m: "msg = Some m" "msg_consistent m"
    using assms(4) by (auto split: option.splits)
  obtain ev where "message_event m = Inr ev" "data_ok ev (DataMsg m answer)"
    using message_event_ok [OF m(2)] by blast
  with None m show ?thesis using assms by (simp add: ProcessPacket_def stays_good_event)
next
  case (Some e)
  with assms show ?thesis by (simp add: ProcessPacket_def stays_good_event error_event_ok)
qed

text \<open>Every round but the closing one.\<close>

lemma fsm_step_good:
  assumes "fsm_inv f" "wf_conf (F_conf f)" "\<not> F_close f" "valid_input i" "i \<noteq> In_close"
  shows "stays_good f (fsm_step i f)"
proof (cases i)
  case (In_outConn r1 r2)
  then show ?thesis
    using assms by (auto intro!: stays_good_bind stop_conn_good stays_good_event log_good stays_good_Inr)
next
  case (In_outConnErr x)
  then show ?thesis
    using assms by (auto intro!: stays_good_bind stop_conn_good stays_good_event log_good stays_good_Inr)
next
  case (In_event ev reason)
  with assms show ?thesis using In_event_good by blast
next
  case (In_pktRx msg err answer)
  with assms show ?thesis by (simp add: ProcessPacket_good)
next
  case (In_bfdStatus up)
  then show ?thesis
    using assms by (auto intro!: stays_good_bind stays_good_event stays_good_Inr)
next
  case (In_pktTx ms)
  with assms show ?thesis by (auto simp: sendUpdateMessage_good intro!: stays_good_Inr)
next
  case (In_passiveTcpEst b)
  with assms show ?thesis by (auto intro!: stays_good_Inr simp: fsm_inv_def armed_def)
qed (use assms in \<open>auto intro!: stays_good_event simp: sendAutoStartEvent_def\<close>)

text \<open>The states a machine can reach from its start, over inputs the rest of the program produces.\<close>

inductive fsm_reach :: "fsm_conf \<Rightarrow> BGPFSMState \<Rightarrow> fsm \<Rightarrow> bool" for c s where
  start: "start_fsm (FSM_Init c s) = Inr f \<Longrightarrow> fsm_reach c s f"
| step: "fsm_reach c s f \<Longrightarrow> \<not> F_close f \<Longrightarrow> valid_input i \<Longrightarrow> fsm_step i f = Inr f' \<Longrightarrow> fsm_reach c s f'"

inductive_cases fsm_reachE: "fsm_reach c s f"

lemma start_fsm_good:
  assumes "wf_conf c" "s < BGPFSMOpensent"
  shows "\<exists>f. start_fsm (FSM_Init c s) = Inr f \<and> fsm_inv f \<and> F_conf f = c \<and> \<not> F_close f \<and>
           (s = BGPFSMIdle \<longrightarrow> armed f)"
  using assms by (cases s)
    (auto simp: start_fsm_def FSM_Init_def NewFSM_def ProcessEvent_def Idle_processEvent_def Connect_processEvent_def
      Active_processEvent_def fsm_inv_def armed_def fsm_defs)

lemma fsm_step_close:
  assumes "fsm_inv f" "wf_conf (F_conf f)" "\<not> F_close f"
  shows "\<exists>f'. fsm_step In_close f = Inr f' \<and> fsm_inv f' \<and> F_close f' \<and> F_conf f' = F_conf f \<and>
           F_State f' = F_State f \<and> F_peerConn f' = None \<and> \<not> F_outTCPConn f'"
  using ProcessEvent_close [OF assms] by simp

lemma fsm_reach_inv:
  assumes "fsm_reach c s f" "wf_conf c" "s < BGPFSMOpensent"
  shows "fsm_inv f \<and> F_conf f = c \<and> (F_close f \<longrightarrow> F_peerConn f = None) \<and> (s = BGPFSMIdle \<longrightarrow> \<not> F_close f \<longrightarrow> armed f)"
  using assms
proof (induction rule: fsm_reach.induct)
  case (start f)
  then show ?case using start_fsm_good by fastforce
next
  case (step f i f')
  then have f: "fsm_inv f" "wf_conf (F_conf f)" by auto
  show ?case
  proof (cases "i = In_close")
    case True
    with step f show ?thesis using fsm_step_close [of f] by auto
  next
    case False
    with step f show ?thesis using fsm_step_good [of f i] by (auto simp: stays_good_def)
  qed
qed

text \<open>No input the rest of the program produces makes a machine panic.\<close>

lemma fsm_progress:
  assumes "fsm_reach c s f" "wf_conf c" "s < BGPFSMOpensent" "\<not> F_close f" "valid_input i"
  shows "\<exists>f'. fsm_step i f = Inr f'"
proof -
  have "fsm_inv f" "wf_conf (F_conf f)" using fsm_reach_inv [OF assms(1-3)] assms(2) by auto
  with assms(4,5) show ?thesis
    using fsm_step_good [of f i] fsm_step_close [of f] by (cases "i = In_close") (auto simp: stays_good_def)
qed

lemma run_fsm_reach:
  "fsm_reach c s f \<Longrightarrow> list_all valid_input is \<Longrightarrow> run_fsm is f = Inr f' \<Longrightarrow> fsm_reach c s f'"
  by (induction "is" arbitrary: f) (auto simp: bind_r_eq_Inr intro: fsm_reach.step split: if_splits)

lemma run_fsm_total:
  assumes "wf_conf c" "s < BGPFSMOpensent" "fsm_reach c s f" "list_all valid_input is"
  shows "\<exists>f'. run_fsm is f = Inr f' \<and> fsm_reach c s f'"
  using assms(3,4)
proof (induction "is" arbitrary: f)
  case (Cons i "is")
  show ?case
  proof (cases "F_close f")
    case False
    with fsm_progress [OF Cons.prems(1) assms(1,2)] Cons.prems obtain f' where "fsm_step i f = Inr f'" by auto
    with Cons False show ?thesis by (auto intro: fsm_reach.step)
  qed (use Cons in auto)
qed auto

section \<open>The hold time\<close>

text \<open>The hold time and keepalive interval the two sides agree on, as the code computes them.\<close>

definition usable_hold_time :: "u32 \<Rightarrow> bool" where
  "usable_hold_time h \<longleftrightarrow> h = 0 \<or> h \<ge> 3"

lemma usable_hold_time_iff: "usable_hold_time h \<longleftrightarrow> \<not> (h > 0 \<and> h < 3)"
  by (auto simp: usable_hold_time_def not_less word_gt_0)

definition timer_of :: "u32 \<Rightarrow> u32 option" where
  "timer_of t = (if t \<noteq> 0 then Some t else None)"

text \<open>An OPEN the manager accepts: the smaller hold time is taken over, unless it is 1 or 2.\<close>

lemma open_hold_time:
  assumes "fsm_inv f" "\<not> F_close f" "F_State f = BGPFSMOpensent" "Msg_Body m = Some (Body_Open b)"
  shows "\<exists>f'. ProcessEvent BGPEventBGPOpen (DataMsg m True) f = Inr f' \<and> F_State f' = BGPFSMOpenconfirm \<and>
     F_holdTime f' = (if ucast (Open_HoldTime b) < F_holdTime f \<and> usable_hold_time (ucast (Open_HoldTime b))
                      then ucast (Open_HoldTime b) else F_holdTime f) \<and>
     F_keepAliveTime f' = (if ucast (Open_HoldTime b) < F_holdTime f \<and> usable_hold_time (ucast (Open_HoldTime b))
                      then ucast (Open_HoldTime b div 3) else F_keepAliveTime f) \<and>
     F_holdTimer f' = timer_of (F_holdTime f') \<and> F_keepAliveTimer f' = timer_of (F_keepAliveTime f') \<and>
     F_afiSafiMap f' = F_afiSafiMap f \<union> (GetProtocolFromOpenMsg b \<inter> set (Conf_AfiSafiMap (F_conf f)))"
  using assms
  by (auto simp: ProcessEvent_def OpenSent_processEvent_def ProcessOpenMessage_def fsm_inv_def fsm_defs Let_def
      usable_hold_time_iff timer_of_def)

text \<open>
  In Established the agreed hold time is forgotten: the timer that runs when the session comes up has it, every
  later one the configured time.
\<close>

lemma established_hold_time:
  assumes "fsm_inv f" "\<not> F_close f" "F_State f = BGPFSMOpenconfirm" "usable_hold_time (Conf_HoldTime (F_conf f))"
  shows "\<exists>f' f''. ProcessEvent BGPEventKeepAliveMsg d f = Inr f' \<and> F_State f' = BGPFSMEstablished \<and>
     F_holdTimer f' = timer_of (F_holdTime f) \<and>
     ProcessEvent BGPEventKeepAliveMsg d f' = Inr f'' \<and> F_State f'' = BGPFSMEstablished \<and>
     F_holdTimer f'' = timer_of (Conf_HoldTime (F_conf f))"
  using assms
  by (auto simp: ProcessEvent_def OpenConfirm_processEvent_def Established_processEvent_def fsm_inv_def fsm_defs Let_def
      usable_hold_time_iff timer_of_def)

lemma established_keepalive_time:
  assumes "fsm_inv f" "\<not> F_close f" "F_State f = BGPFSMOpenconfirm" "usable_hold_time (Conf_HoldTime (F_conf f))"
  shows "\<exists>f' f''. ProcessEvent BGPEventKeepAliveMsg d f = Inr f' \<and> F_keepAliveTimer f' = F_keepAliveTimer f \<and>
     ProcessEvent BGPEventKeepAliveTimerExp d' f' = Inr f'' \<and>
     F_keepAliveTimer f'' = timer_of (Conf_KeepaliveTime (F_conf f))"
  using assms
  by (auto simp: ProcessEvent_def OpenConfirm_processEvent_def Established_processEvent_def fsm_inv_def fsm_defs Let_def
      usable_hold_time_iff timer_of_def)

section \<open>Losing and regaining a session\<close>

text \<open>The peer is silent for the hold time: it is told so, and the session is dropped.\<close>

lemma hold_timer_expiry:
  assumes "fsm_inv f" "\<not> F_close f" "F_State f \<ge> BGPFSMOpensent"
  shows "\<exists>f' l. fsm_step In_holdTimer f = Inr f' \<and> F_State f' = BGPFSMIdle \<and> F_peerConn f' = None \<and>
     F_holdTimer f' = None \<and> F_keepAliveTimer f' = None \<and> F_restartTimer f' = Some (F_restartTime f) \<and>
     F_connectRetryCounter f' = F_connectRetryCounter f + 1 \<and>
     F_log f' = F_log f @ Wrote (NewBGPNotificationMessage BGPHoldTimerExpired 0 [])
                            (msg_bytes (NewBGPNotificationMessage BGPHoldTimerExpired 0 [])) # ConnClosed # l \<and>
     (MgrBroken \<in> set l \<longleftrightarrow> F_State f = BGPFSMEstablished)"
  using assms
  by (cases "F_State f")
     (auto simp: less_eq_BGPFSMState_def ProcessEvent_def OpenSent_processEvent_def OpenConfirm_processEvent_def
       Established_processEvent_def fsm_inv_def fsm_defs Let_def)

lemma restart_timer_expiry:
  assumes "fsm_inv f" "\<not> F_close f" "F_State f = BGPFSMIdle" "armed f"
  shows "\<exists>f'. fsm_step In_restartTimer f = Inr f' \<and> F_State f' \<in> {BGPFSMConnect, BGPFSMActive} \<and>
     F_connectRetryTimer f' = Some (Conf_ConnectRetryTime (F_conf f))"
  using assms
  by (auto simp: sendAutoStartEvent_def ProcessEvent_def Idle_processEvent_def fsm_inv_def armed_def fsm_defs Let_def)

lemma connect_retry_expiry:
  assumes "fsm_inv f" "\<not> F_close f" "F_State f \<in> {BGPFSMConnect, BGPFSMActive}"
    "\<not> Conf_BfdDown (F_conf f)" "\<not> Conf_UnknownNeighbor (F_conf f)"
  shows "\<exists>f'. fsm_step In_connectRetryTimer f = Inr f' \<and> F_State f' = BGPFSMConnect \<and> F_outTCPConn f' \<and>
     F_connectRetryTimer f' = Some (Conf_ConnectRetryTime (F_conf f))"
  using assms
  by (auto simp: ProcessEvent_def Connect_processEvent_def Active_processEvent_def fsm_inv_def fsm_defs Let_def)

text \<open>From its start to an established session, and what is written on the way.\<close>

definition writes :: "fsm_action list \<Rightarrow> BGPMessage list" where
  "writes l = List.map_filter (\<lambda>a. case a of Wrote m _ \<Rightarrow> Some m | _ \<Rightarrow> None) l"

lemma session_comes_up_lemma:
  assumes "wf_conf c" "\<not> Conf_BfdDown c" "\<not> Conf_UnknownNeighbor c"
    and "Hdr_Type (Msg_Header m) = BGPMsgTypeOpen" "Msg_Body m = Some (Body_Open b)"
    and "Hdr_Type (Msg_Header k) = BGPMsgTypeKeepAlive"
  shows "\<exists>f. bind_r (start_fsm (FSM_Init c BGPFSMIdle))
                 (run_fsm [In_outConn r1 r2, In_pktRx (Some m) None True, In_pktRx (Some k) None a]) = Inr f \<and>
     F_State f = BGPFSMEstablished \<and> MgrEstablished \<in> set (F_log f) \<and>
     writes (F_log f) = [open_message c (Conf_HoldTime c), NewBGPKeepAliveMessage]"
  using assms
  by (simp add: start_fsm_def FSM_Init_def NewFSM_def ProcessEvent_def Idle_processEvent_def Connect_processEvent_def
      OpenSent_processEvent_def OpenConfirm_processEvent_def ProcessOpenMessage_def ProcessPacket_def message_event_def
      Let_def fsm_defs writes_def map_filter_simps)

end
