(* ===== verification/FsmManager.thy ===== *)
theory FsmManager
  imports FsmInv
begin

text \<open>
  The manager of the session machines of one neighbour (bgp/fsm/fsm_manager.go): it owns the map from ids to
  machines, hands connections, commands and BFD changes to them, resolves connection collisions, and tells the
  server when the session comes up or breaks.

  The map \<open>fsms\<close> is an association list with distinct keys, in the order in which Go's iteration visits it, which is
  arbitrary; an entry that is deleted while a loop runs is not visited any more. \<open>ConnDirInvalid\<close>, which is 2, is the
  id of no machine. The mutex \<open>fsmMutex\<close> is not reentrant: locking it while the same call chain holds it blocks
  for ever, which is \<open>Diverges\<close>. What is sent on channels is appended to a log.
\<close>

section \<open>State\<close>

abbreviation (input) ConnDirInvalid :: u8 where "ConnDirInvalid \<equiv> 2"

datatype mgr_action =
    SendConn u8 ConnDir
  | SendClose u8
  | SendEvent u8 BGPFSMEvent cmd_reason
  | SendBfd u8 bool
  | SendPassive u8
  | SendUpdate u8 BGPMessage
  | StartedFSM u8
  | InConnClosed
  | ServerEstablished
  | ServerBroken
  | NeighborState BGPFSMState
  | NeighborAttrs bytes u8 u32 u32 add_path_family

record FSMManager =
  M_conf :: fsm_conf
  M_fsms :: "(u8 \<times> fsm) list"
  M_acceptConn :: bool
  M_activeFSM :: u8
  M_locked :: bool
  M_log :: "mgr_action list"

type_synonym 'a mres = "(unit, 'a) result"
type_synonym mgr_op = "FSMManager \<Rightarrow> FSMManager mres"

definition NewFSMManager :: "fsm_conf \<Rightarrow> FSMManager" where
  "NewFSMManager c =
     \<lparr>M_conf = c, M_fsms = [], M_acceptConn = False, M_activeFSM = ConnDirInvalid, M_locked = False, M_log = []\<rparr>"

definition mlog :: "mgr_action \<Rightarrow> FSMManager \<Rightarrow> FSMManager" where
  "mlog a m = m\<lparr>M_log := M_log m @ [a]\<rparr>"

definition locked :: "(FSMManager \<Rightarrow> (FSMManager \<times> 'a) mres) \<Rightarrow> FSMManager \<Rightarrow> (FSMManager \<times> 'a) mres" where
  "locked body m =
     (if M_locked m then Inl Diverges
      else bind_r (body (m\<lparr>M_locked := True\<rparr>)) (\<lambda>(m, x). Inr (m\<lparr>M_locked := False\<rparr>, x)))"

definition locked_op :: "mgr_op \<Rightarrow> mgr_op" where
  "locked_op body m = bind_r (locked (\<lambda>m. bind_r (body m) (\<lambda>m. Inr (m, ()))) m) (\<lambda>(m, _). Inr m)"

definition get_fsm :: "FSMManager \<Rightarrow> u8 \<Rightarrow> fsm option" where
  "get_fsm m i = map_of (M_fsms m) i"

section \<open>Operations\<close>

definition AcceptPeerConn :: "FSMManager \<Rightarrow> FSMManager" where
  "AcceptPeerConn m = m\<lparr>M_acceptConn := True\<rparr>"

definition RejectPeerConn :: "FSMManager \<Rightarrow> FSMManager" where
  "RejectPeerConn m = m\<lparr>M_acceptConn := False\<rparr>"

definition fsmEstablished :: "u8 \<Rightarrow> FSMManager \<Rightarrow> FSMManager" where
  "fsmEstablished i m =
     (if get_fsm m i \<noteq> None then mlog ServerEstablished (m\<lparr>M_activeFSM := i\<rparr>) else m)"

definition fsmBroken :: "u8 \<Rightarrow> FSMManager \<Rightarrow> FSMManager" where
  "fsmBroken i m =
     (if M_activeFSM m = i then mlog ServerBroken (m\<lparr>M_activeFSM := ConnDirInvalid\<rparr>) else m)"

definition delete_fsm :: "u8 \<Rightarrow> FSMManager \<Rightarrow> FSMManager" where
  "delete_fsm i m = m\<lparr>M_fsms := filter (\<lambda>p. fst p \<noteq> i) (M_fsms m)\<rparr>"

definition fsmClose :: "u8 \<Rightarrow> FSMManager \<Rightarrow> FSMManager" where
  "fsmClose i m =
     (if get_fsm m i \<noteq> None then delete_fsm i (fsmBroken i (mlog (SendClose i) m)) else m)"

definition fsmTcpConnFailed :: "u8 \<Rightarrow> mgr_op" where
  "fsmTcpConnFailed i =
     locked_op (\<lambda>m. Inr (if length (M_fsms m) \<noteq> 1 \<and> M_activeFSM m \<noteq> i then fsmClose i m else m))"

definition fsmStateChange :: "u8 \<Rightarrow> BGPFSMState \<Rightarrow> mgr_op" where
  "fsmStateChange i s =
     locked_op (\<lambda>m. Inr (if M_activeFSM m = i \<or> M_activeFSM m = ConnDirInvalid then mlog (NeighborState s) m else m))"

text \<open>\<open>SendUpdateMsg\<close>: indexing the map with an id that is not there gives nil, and using its channel panics.\<close>

definition SendUpdateMsg :: "BGPMessage \<Rightarrow> mgr_op" where
  "SendUpdateMsg msg =
     locked_op (\<lambda>m. if M_activeFSM m = ConnDirInvalid then Inr m
                     else if get_fsm m (M_activeFSM m) = None then Inl Panic
                     else Inr (mlog (SendUpdate (M_activeFSM m) msg) m))"

text \<open>The loops over the machines; the ids are those in the map when the loop starts.\<close>

fun for_fsms :: "(u8 \<Rightarrow> mgr_op) \<Rightarrow> u8 list \<Rightarrow> mgr_op" where
  "for_fsms body [] m = Inr m"
| "for_fsms body (i # is) m =
     (if get_fsm m i = None then for_fsms body is m else bind_r (body i m) (for_fsms body is))"

definition fsm_ids :: "FSMManager \<Rightarrow> u8 list" where
  "fsm_ids m = map fst (M_fsms m)"

definition Cleanup :: mgr_op where
  "Cleanup = locked_op (\<lambda>m. for_fsms (\<lambda>i m.
     bind_r (fsmStateChange i BGPFSMIdle (fsmBroken i (mlog (SendClose i) m))) (\<lambda>m. Inr (delete_fsm i m))) (fsm_ids m) m)"

definition StopFSM :: mgr_op where
  "StopFSM = locked_op (\<lambda>m. for_fsms (\<lambda>i m.
     Inr (fsmBroken i (mlog (SendEvent i BGPEventTcpConnFails BGPCmdReasonNone) m))) (fsm_ids m) m)"

definition handleBfdStatusChange :: "bool \<Rightarrow> mgr_op" where
  "handleBfdStatusChange status =
     locked_op (\<lambda>m. for_fsms (\<lambda>i m. Inr (mlog (SendBfd i status) m)) (fsm_ids m) m)"

definition getNewId :: "u8 \<Rightarrow> u8" where
  "getNewId i = (i + 1) mod 2"

definition createFSMForNewConnection :: "u8 \<Rightarrow> ConnDir \<Rightarrow> FSMManager \<Rightarrow> (FSMManager \<times> bool) mres" where
  "createFSMForNewConnection i dir =
     locked (\<lambda>m. if get_fsm m i \<noteq> None then Inr (m, False)
                  else Inr (m\<lparr>M_fsms := M_fsms m @
                         [(i, FSM_Init (M_conf m) (if dir = ConnDirOut then BGPFSMConnect else BGPFSMActive))]\<rparr>, True))"

definition handleAnotherConnection :: "u8 \<Rightarrow> ConnDir \<Rightarrow> mgr_op" where
  "handleAnotherConnection i dir m =
     bind_r (createFSMForNewConnection i dir m) (\<lambda>(m, created).
     Inr (if created then mlog (SendConn i dir) (mlog (SendPassive i) (mlog (StartedFSM i) m)) else m))"

definition fsm_dir :: "fsm \<Rightarrow> ConnDir option" where
  "fsm_dir f = map_option fst (F_peerConn f)"

definition getFSMIdByDir :: "FSMManager \<Rightarrow> ConnDir \<Rightarrow> u8" where
  "getFSMIdByDir m dir =
     (case find (\<lambda>p. fsm_dir (snd p) = Some dir) (M_fsms m) of Some p \<Rightarrow> fst p | None \<Rightarrow> ConnDirInvalid)"

text \<open>
  \<open>receivedBGPOpenMessage\<close>. The loop's \<open>closeFSMId\<close> is a new variable; the outer one keeps \<open>ConnDirInvalid\<close>, so the
  condition after the loop always holds. \<open>None\<close> is the direction \<open>ConnDirInvalid\<close>.
\<close>

definition close_dir :: "ConnDir \<Rightarrow> u32 \<Rightarrow> u32 \<Rightarrow> BGPFSMState \<Rightarrow> ConnDir" where
  "close_dir connDir localBGPId bgpIdInt other =
     (if other = BGPFSMEstablished then connDir else if localBGPId > bgpIdInt then ConnDirIn else ConnDirOut)"

fun open_loop :: "u8 \<Rightarrow> ConnDir \<Rightarrow> u32 \<Rightarrow> u32 \<Rightarrow> u8 list \<Rightarrow> FSMManager \<Rightarrow> ConnDir option \<Rightarrow> FSMManager \<times> ConnDir option" where
  "open_loop i connDir localBGPId bgpIdInt [] m closeConnDir = (m, closeConnDir)"
| "open_loop i connDir localBGPId bgpIdInt (fsmId # is) m closeConnDir =
     (case get_fsm m fsmId of
        None \<Rightarrow> open_loop i connDir localBGPId bgpIdInt is m closeConnDir
      | Some f \<Rightarrow>
          if fsmId \<noteq> i \<and> F_State f \<ge> BGPFSMOpensent then
            let dir = close_dir connDir localBGPId bgpIdInt (F_State f) in
            open_loop i connDir localBGPId bgpIdInt is (fsmClose (getFSMIdByDir m dir) m) (Some dir)
          else open_loop i connDir localBGPId bgpIdInt is m closeConnDir)"

definition set_peer_attrs :: "u8 \<Rightarrow> BGPOpen \<Rightarrow> mgr_op" where
  "set_peer_attrs i openMsg m =
     (case GetASSize openMsg of
        Inl _ \<Rightarrow> Inl Panic
      | Inr asSize \<Rightarrow>
          (case get_fsm m i of
             None \<Rightarrow> Inr m
           | Some f \<Rightarrow> Inr (mlog (NeighborAttrs (Open_BGPId openMsg) asSize (F_holdTime f) (F_keepAliveTime f)
                                   (GetAddPathFamily openMsg)) m)))"

definition id_of :: "bytes \<Rightarrow> u32 mres" where
  "id_of ip = (case ConvertIPBytesToUint (To4 ip) of Inr v \<Rightarrow> Inr v | Inl _ \<Rightarrow> Inl Panic)"

definition receivedBGPOpenMessage :: "u8 \<Rightarrow> ConnDir \<Rightarrow> BGPOpen \<Rightarrow> FSMManager \<Rightarrow> (FSMManager \<times> bool) mres" where
  "receivedBGPOpenMessage i connDir openMsg =
     locked (\<lambda>m.
       bind_r (id_of (Conf_RouterId (M_conf m))) (\<lambda>localBGPId.
       bind_r (id_of (Open_BGPId openMsg)) (\<lambda>bgpIdInt.
       let (m, closeConnDir) = open_loop i connDir localBGPId bgpIdInt (fsm_ids m) m None in
       bind_r (set_peer_attrs i openMsg m) (\<lambda>m. Inr (m, closeConnDir \<noteq> Some connDir)))))"

section \<open>The loop\<close>

datatype mgr_input =
    MIn_accept
  | MIn_tcpConnFail u8
  | MIn_newConn u8 ConnDir
  | MIn_stopFSM
  | MIn_close
  | MIn_command BGPFSMEvent cmd_reason
  | MIn_bfdStatus bool

text \<open>What \<open>Init\<close> does before its loop.\<close>

definition mgr_init :: "FSMManager \<Rightarrow> FSMManager" where
  "mgr_init m = mlog (SendPassive 0) ((mlog (StartedFSM 0) m)\<lparr>M_fsms := [(0, FSM_Init (M_conf m) BGPFSMIdle)]\<rparr>)"

fun mgr_step :: "mgr_input \<Rightarrow> mgr_op" where
  "mgr_step MIn_accept m =
     Inr (if \<not> M_acceptConn m then mlog InConnClosed m
          else if list_ex (\<lambda>p. fsm_dir (snd p) = Some ConnDirIn) (M_fsms m) then mlog InConnClosed m
          else case M_fsms m of [] \<Rightarrow> m | p # _ \<Rightarrow> mlog (SendConn (fst p) ConnDirIn) m)"
| "mgr_step (MIn_tcpConnFail i) m = fsmTcpConnFailed i m"
| "mgr_step (MIn_newConn i dir) m = handleAnotherConnection (getNewId i) dir m"
| "mgr_step MIn_stopFSM m = StopFSM m"
| "mgr_step MIn_close m = Cleanup m"
| "mgr_step (MIn_command ev reason) m =
     (if ev \<in> {BGPEventManualStart, BGPEventManualStop, BGPEventAutoStop, BGPEventManualStartPassTcpEst}
      then for_fsms (\<lambda>i m. Inr (mlog (SendEvent i ev reason) m)) (fsm_ids m) m
      else Inr m)"
| "mgr_step (MIn_bfdStatus up) m = handleBfdStatusChange up m"

section \<open>The invariant\<close>

text \<open>
  There are at most the machines 0 and 1, the active one is one of them, and between calls the mutex is free.
\<close>

definition mgr_inv :: "FSMManager \<Rightarrow> bool" where
  "mgr_inv m \<longleftrightarrow>
     distinct (fsm_ids m) \<and> set (fsm_ids m) \<subseteq> {0, 1} \<and>
     (M_activeFSM m = ConnDirInvalid \<or> M_activeFSM m \<in> set (fsm_ids m)) \<and> \<not> M_locked m"

text \<open>The same while the mutex is held.\<close>

definition mgr_inv_l :: "FSMManager \<Rightarrow> bool" where
  "mgr_inv_l m \<longleftrightarrow> mgr_inv (m\<lparr>M_locked := False\<rparr>) \<and> M_locked m"

lemma get_fsm_iff: "get_fsm m i \<noteq> None \<longleftrightarrow> i \<in> set (fsm_ids m)"
  by (simp add: get_fsm_def fsm_ids_def map_of_eq_None_iff)

lemma mlog_simps [simp]:
  "fsm_ids (mlog a m) = fsm_ids m" "M_activeFSM (mlog a m) = M_activeFSM m" "M_locked (mlog a m) = M_locked m"
  "M_fsms (mlog a m) = M_fsms m" "get_fsm (mlog a m) i = get_fsm m i" "M_conf (mlog a m) = M_conf m"
  by (simp_all add: mlog_def fsm_ids_def get_fsm_def)

lemma upd_simps [simp]:
  "fsm_ids (m\<lparr>M_activeFSM := x\<rparr>) = fsm_ids m" "fsm_ids (m\<lparr>M_locked := b\<rparr>) = fsm_ids m" "fsm_ids (m\<lparr>M_acceptConn := b\<rparr>) = fsm_ids m"
  "get_fsm (m\<lparr>M_activeFSM := x\<rparr>) i = get_fsm m i" "get_fsm (m\<lparr>M_locked := b\<rparr>) i = get_fsm m i"
  by (simp_all add: fsm_ids_def get_fsm_def)

lemma broken_simps [simp]:
  "fsm_ids (fsmBroken i m) = fsm_ids m" "M_locked (fsmBroken i m) = M_locked m"
  "M_activeFSM (fsmBroken i m) = (if M_activeFSM m = i then ConnDirInvalid else M_activeFSM m)"
  "get_fsm (fsmBroken i m) j = get_fsm m j" "M_fsms (fsmBroken i m) = M_fsms m" "M_conf (fsmBroken i m) = M_conf m"
  by (simp_all add: fsmBroken_def)

lemma delete_simps [simp]:
  "fsm_ids (delete_fsm i m) = filter (\<lambda>j. j \<noteq> i) (fsm_ids m)" "M_locked (delete_fsm i m) = M_locked m"
  "M_activeFSM (delete_fsm i m) = M_activeFSM m" "M_conf (delete_fsm i m) = M_conf m"
  by (simp_all add: delete_fsm_def fsm_ids_def filter_map comp_def)

lemma get_delete [simp]: "get_fsm (delete_fsm i m) j = (if j = i then None else get_fsm m j)"
proof -
  have "map_of (filter (\<lambda>p. fst p \<noteq> i) xs) j = (if j = i then None else map_of xs j)" for xs :: "(u8 \<times> fsm) list"
    by (induction xs) auto
  then show ?thesis by (simp add: get_fsm_def delete_fsm_def)
qed

lemma close_simps [simp]:
  "fsm_ids (fsmClose i m) = filter (\<lambda>j. j \<noteq> i) (fsm_ids m)" "M_locked (fsmClose i m) = M_locked m"
  "M_conf (fsmClose i m) = M_conf m"
  "get_fsm (fsmClose i m) j = (if j = i then None else get_fsm m j)"
  using get_fsm_iff [of m i] by (auto simp: fsmClose_def intro!: filter_True [symmetric])

lemma fsmClose_inv: "mgr_inv m \<Longrightarrow> mgr_inv (fsmClose i m)"
  by (auto simp: mgr_inv_def fsmClose_def)

lemma fsmClose_inv_l: "mgr_inv_l m \<Longrightarrow> mgr_inv_l (fsmClose i m)"
  by (auto simp: mgr_inv_l_def mgr_inv_def fsmClose_def)

lemma fsmBroken_inv: "mgr_inv m \<Longrightarrow> mgr_inv (fsmBroken i m)" "mgr_inv_l m \<Longrightarrow> mgr_inv_l (fsmBroken i m)"
  by (auto simp: mgr_inv_def mgr_inv_l_def)

lemma mlog_inv [simp]: "mgr_inv (mlog a m) = mgr_inv m" "mgr_inv_l (mlog a m) = mgr_inv_l m"
  by (simp_all add: mgr_inv_def mgr_inv_l_def)

text \<open>An operation that keeps the invariant and returns.\<close>

definition mgr_ok :: "FSMManager mres \<Rightarrow> bool" where
  "mgr_ok r \<longleftrightarrow> (\<exists>m'. r = Inr m' \<and> mgr_inv m')"

lemma locked_op_ok:
  assumes "mgr_inv m" "\<And>m. mgr_inv_l m \<Longrightarrow> \<exists>m'. body m = Inr m' \<and> mgr_inv_l m'"
  shows "mgr_ok (locked_op body m)"
proof -
  have "mgr_inv_l (m\<lparr>M_locked := True\<rparr>)" using assms(1) by (simp add: mgr_inv_l_def mgr_inv_def)
  from assms(2) [OF this] assms(1) show ?thesis
    by (auto simp: mgr_ok_def locked_op_def locked_def mgr_inv_def mgr_inv_l_def)
qed

lemma for_fsms_inv_l:
  assumes "\<And>i m. mgr_inv_l m \<Longrightarrow> \<exists>m'. body i m = Inr m' \<and> mgr_inv_l m'"
  shows "mgr_inv_l m \<Longrightarrow> \<exists>m'. for_fsms body is m = Inr m' \<and> mgr_inv_l m'"
proof (induction "is" arbitrary: m)
  case (Cons i "is")
  show ?case
  proof (cases "get_fsm m i = None")
    case False
    obtain m1 where "body i m = Inr m1" "mgr_inv_l m1" using assms [OF Cons.prems] by blast
    with Cons.IH False show ?thesis by auto
  qed (use Cons in simp)
qed simp

lemma for_fsms_log: "mgr_inv m \<Longrightarrow> mgr_ok (for_fsms (\<lambda>i m. Inr (mlog (a i) m)) is m)"
  by (induction "is" arbitrary: m) (auto simp: mgr_ok_def)

lemma createFSM_inv:
  assumes "mgr_inv m" "i \<in> {0, 1}"
  shows "mgr_ok (handleAnotherConnection i dir m)"
proof (cases "get_fsm m i")
  case None
  let ?f = "FSM_Init (M_conf m) (if dir = ConnDirOut then BGPFSMConnect else BGPFSMActive)"
  have "i \<notin> set (fsm_ids m)" using None get_fsm_iff [of m i] by auto
  then show ?thesis
    using None assms
    by (auto simp: handleAnotherConnection_def createFSMForNewConnection_def locked_def mgr_ok_def mgr_inv_def fsm_ids_def)
next
  case (Some f)
  then show ?thesis
    using assms by (auto simp: handleAnotherConnection_def createFSMForNewConnection_def locked_def mgr_ok_def mgr_inv_def)
qed

lemma getNewId_01: "getNewId i \<in> {0, 1}"
proof -
  have "unat (getNewId i) < 2" by (simp add: getNewId_def unat_mod)
  then have "unat (getNewId i) = 0 \<or> unat (getNewId i) = 1" by linarith
  then show ?thesis using of_nat_unat [of "getNewId i" 0] of_nat_unat [of "getNewId i" 1] by auto
qed

lemma mgr_step_ok:
  assumes "mgr_inv m" "inp \<noteq> MIn_close"
  shows "mgr_ok (mgr_step inp m)"
proof (cases inp)
  case MIn_accept
  with assms show ?thesis by (auto simp: mgr_ok_def split: list.split)
next
  case (MIn_tcpConnFail i)
  with assms show ?thesis
    by (auto simp: fsmTcpConnFailed_def fsmClose_inv_l intro!: locked_op_ok)
next
  case (MIn_newConn i dir)
  with assms show ?thesis by (simp add: createFSM_inv getNewId_01 del: insert_iff)
next
  case MIn_stopFSM
  with assms show ?thesis
    by (auto simp: StopFSM_def fsmBroken_inv intro!: locked_op_ok for_fsms_inv_l)
next
  case (MIn_command ev reason)
  with assms show ?thesis by (auto simp: for_fsms_log) (simp add: mgr_ok_def)
next
  case (MIn_bfdStatus up)
  with assms show ?thesis
    by (auto simp: handleBfdStatusChange_def intro!: locked_op_ok for_fsms_inv_l)
qed (use assms in simp)

text \<open>The calls a machine makes keep the invariant too.\<close>

lemma fsmEstablished_inv: "mgr_inv m \<Longrightarrow> mgr_inv (fsmEstablished i m)"
  using get_fsm_iff [of m i] by (auto simp: fsmEstablished_def mgr_inv_def)

lemma fsmStateChange_ok: "mgr_inv m \<Longrightarrow> mgr_ok (fsmStateChange i s m)"
  by (auto simp: fsmStateChange_def intro!: locked_op_ok)

lemma open_loop_inv_l: "mgr_inv_l m \<Longrightarrow> mgr_inv_l (fst (open_loop i d a b is m c))"
  by (induction "is" arbitrary: m c) (auto simp: Let_def fsmClose_inv_l split: option.split)

lemma set_peer_attrs_inv_l: "set_peer_attrs i openMsg m = Inr m' \<Longrightarrow> mgr_inv_l m \<Longrightarrow> mgr_inv_l m'"
  by (auto simp: set_peer_attrs_def split: sum.splits option.splits)

lemma receivedBGPOpenMessage_inv:
  assumes "mgr_inv m" "receivedBGPOpenMessage i d openMsg m = Inr (m', answer)"
  shows "mgr_inv m'"
proof -
  have l: "mgr_inv_l (m\<lparr>M_locked := True\<rparr>)" using assms(1) by (simp add: mgr_inv_l_def mgr_inv_def)
  from assms obtain a b m1 where
    "set_peer_attrs i openMsg (fst (open_loop i d a b (fsm_ids m) (m\<lparr>M_locked := True\<rparr>) None)) = Inr m1"
    "m' = m1\<lparr>M_locked := False\<rparr>"
    by (auto simp: receivedBGPOpenMessage_def locked_def bind_r_eq_Inr Let_def case_prod_beta split: if_splits)
  with set_peer_attrs_inv_l open_loop_inv_l [OF l] have "mgr_inv_l m1" by blast
  with \<open>m' = _\<close> show ?thesis by (simp add: mgr_inv_l_def)
qed

text \<open>The states a manager can reach, its machines running beside it.\<close>

definition set_fsm :: "u8 \<Rightarrow> fsm \<Rightarrow> FSMManager \<Rightarrow> FSMManager" where
  "set_fsm i f m = m\<lparr>M_fsms := map (\<lambda>p. if fst p = i then (i, f) else p) (M_fsms m)\<rparr>"

inductive mgr_reach :: "fsm_conf \<Rightarrow> FSMManager \<Rightarrow> bool" for c where
  init: "mgr_reach c (mgr_init (NewFSMManager c))"
| step: "mgr_reach c m \<Longrightarrow> inp \<noteq> MIn_close \<Longrightarrow> mgr_step inp m = Inr m' \<Longrightarrow> mgr_reach c m'"
| runs: "mgr_reach c m \<Longrightarrow> mgr_reach c (set_fsm i f m)"
| accept: "mgr_reach c m \<Longrightarrow> mgr_reach c (AcceptPeerConn m)"
| reject: "mgr_reach c m \<Longrightarrow> mgr_reach c (RejectPeerConn m)"
| established: "mgr_reach c m \<Longrightarrow> mgr_reach c (fsmEstablished i m)"
| broken: "mgr_reach c m \<Longrightarrow> mgr_reach c (fsmBroken i m)"
| changed: "mgr_reach c m \<Longrightarrow> fsmStateChange i s m = Inr m' \<Longrightarrow> mgr_reach c m'"
| opened: "mgr_reach c m \<Longrightarrow> receivedBGPOpenMessage i d openMsg m = Inr (m', answer) \<Longrightarrow> mgr_reach c m'"

lemma set_fsm_ids [simp]: "fsm_ids (set_fsm i f m) = fsm_ids m"
  by (auto simp: fsm_ids_def set_fsm_def)

lemma mgr_reach_inv: "mgr_reach c m \<Longrightarrow> mgr_inv m"
proof (induction rule: mgr_reach.induct)
  case init
  show ?case by (simp add: mgr_init_def NewFSMManager_def mgr_inv_def mlog_def fsm_ids_def)
next
  case (runs m i f)
  then show ?case by (simp add: mgr_inv_def) (simp add: set_fsm_def)
next
  case (step m inp m')
  then show ?case using mgr_step_ok [of m inp] by (simp add: mgr_ok_def)
next
  case (changed m i s m')
  then show ?case using fsmStateChange_ok [of m i s] by (simp add: mgr_ok_def)
qed (simp_all add: fsmEstablished_inv fsmBroken_inv receivedBGPOpenMessage_inv,
     simp_all add: mgr_inv_def AcceptPeerConn_def RejectPeerConn_def)

text \<open>Updates go to the active machine, which exists.\<close>

lemma SendUpdateMsg_delivers:
  assumes "mgr_inv m"
  shows "SendUpdateMsg msg m =
     Inr (if M_activeFSM m = ConnDirInvalid then m else mlog (SendUpdate (M_activeFSM m) msg) m)"
proof -
  have "M_activeFSM m \<noteq> ConnDirInvalid \<Longrightarrow> get_fsm m (M_activeFSM m) \<noteq> None"
    using assms get_fsm_iff [of m "M_activeFSM m"] by (simp add: mgr_inv_def)
  then show ?thesis
    using assms by (auto simp: SendUpdateMsg_def locked_op_def locked_def mgr_inv_def mlog_def)
qed

text \<open>Closing the manager while it has a machine locks the mutex twice.\<close>

lemma Cleanup_deadlocks:
  assumes "mgr_inv m" "M_fsms m \<noteq> []"
  shows "Cleanup m = Inl Diverges"
proof -
  obtain i f r where "M_fsms m = (i, f) # r" using assms(2) by (cases "M_fsms m") auto
  then show ?thesis
    using assms(1)
    by (simp add: Cleanup_def locked_op_def locked_def fsm_ids_def get_fsm_def fsmStateChange_def mgr_inv_def
        fsmBroken_def mlog_def)
qed

section \<open>Collisions\<close>

lemma getFSMIdByDir_two:
  assumes "fsm_dir f = Some d" "fsm_dir g = Some e" "d \<noteq> e" "i \<noteq> j" "M_fsms m = [(i, f), (j, g)] \<or> M_fsms m = [(j, g), (i, f)]"
  shows "getFSMIdByDir m d = i" "getFSMIdByDir m e = j"
  using assms by (auto simp: getFSMIdByDir_def)

text \<open>
  Two connections with a peer, one in each direction, neither established: the OPEN on one of them closes the
  machine of the connection whose direction loses, and exactly the other one stays.
\<close>

lemma collision_closes_one:
  assumes inv: "mgr_inv m" and two: "M_fsms m = [(i, f), (j, g)] \<or> M_fsms m = [(j, g), (i, f)]" and ij: "i \<noteq> j"
    and f: "fsm_dir f = Some d" and g: "fsm_dir g = Some e" "d \<noteq> e" "F_State g \<in> {BGPFSMOpensent, BGPFSMOpenconfirm}"
    and ids: "id_of (Conf_RouterId (M_conf m)) = Inr a" "id_of (Open_BGPId openMsg) = Inr b"
    and as: "GetASSize openMsg = Inr n"
  shows "\<exists>m'. receivedBGPOpenMessage i d openMsg m = Inr (m', (d = (if a > b then ConnDirOut else ConnDirIn))) \<and>
     fsm_ids m' = [if d = (if a > b then ConnDirOut else ConnDirIn) then i else j] \<and>
     SendClose (if d = (if a > b then ConnDirOut else ConnDirIn) then j else i) \<in> set (M_log m') \<and> \<not> M_locked m'"
proof -
  let ?m = "m\<lparr>M_locked := True\<rparr>"
  let ?dir = "if a > b then ConnDirIn else ConnDirOut"
  let ?c = "getFSMIdByDir ?m ?dir"
  have two': "M_fsms ?m = [(i, f), (j, g)] \<or> M_fsms ?m = [(j, g), (i, f)]" using two by simp
  have dirs: "getFSMIdByDir ?m d = i" "getFSMIdByDir ?m e = j"
    using getFSMIdByDir_two [OF f g(1) g(2) ij two'] by auto
  have c: "?c = (if d = (if a > b then ConnDirOut else ConnDirIn) then j else i)"
    using dirs g(2) by (cases d; cases e) auto
  have st: "F_State g \<ge> BGPFSMOpensent" "F_State g \<noteq> BGPFSMEstablished"
    using g(3) by (auto simp: less_eq_BGPFSMState_def)
  have look: "get_fsm ?m i = Some f" "get_fsm ?m j = Some g" using two ij by (auto simp: get_fsm_def)
  have ids2: "fsm_ids ?m = [i, j] \<or> fsm_ids ?m = [j, i]" using two by (auto simp: fsm_ids_def)
  have loop: "open_loop i d a b (fsm_ids m) ?m None = (fsmClose ?c ?m, Some ?dir)"
    using ids2 look ij st c by (auto simp: close_dir_def Let_def)
  let ?m1 = "fsmClose ?c ?m"
  obtain m2 where m2: "set_peer_attrs i openMsg ?m1 = Inr m2" "M_fsms m2 = M_fsms ?m1" "set (M_log ?m1) \<subseteq> set (M_log m2)"
    using as by (cases "get_fsm ?m1 i") (auto simp: set_peer_attrs_def mlog_def)
  have "SendClose ?c \<in> set (M_log ?m1)"
    using look c by (auto simp: fsmClose_def delete_fsm_def fsmBroken_def mlog_def)
  moreover have "fsm_ids ?m1 = [if d = (if a > b then ConnDirOut else ConnDirIn) then i else j]"
    using ids2 ij c by auto
  moreover have "(Some ?dir \<noteq> Some d) = (d = (if a > b then ConnDirOut else ConnDirIn))" by (cases d) auto
  ultimately show ?thesis
    using inv m2 loop ids c
    by (auto simp: receivedBGPOpenMessage_def locked_def mgr_inv_def fsm_ids_def)
qed

text \<open>A new connection beside an established session is refused, and the session stays.\<close>

lemma collision_established:
  assumes inv: "mgr_inv m" and two: "M_fsms m = [(i, f), (j, g)] \<or> M_fsms m = [(j, g), (i, f)]" and ij: "i \<noteq> j"
    and f: "fsm_dir f = Some d" and g: "fsm_dir g = Some e" "d \<noteq> e" "F_State g = BGPFSMEstablished" "M_activeFSM m = j"
    and ids: "id_of (Conf_RouterId (M_conf m)) = Inr a" "id_of (Open_BGPId openMsg) = Inr b"
    and as: "GetASSize openMsg = Inr n"
  shows "\<exists>m'. receivedBGPOpenMessage i d openMsg m = Inr (m', False) \<and> M_fsms m' = [(j, g)] \<and> M_activeFSM m' = j"
proof -
  let ?m = "m\<lparr>M_locked := True\<rparr>"
  have two': "M_fsms ?m = [(i, f), (j, g)] \<or> M_fsms ?m = [(j, g), (i, f)]" using two by simp
  have dir: "getFSMIdByDir ?m d = i" using getFSMIdByDir_two [OF f g(1) g(2) ij two'] by simp
  have ids2: "fsm_ids ?m = [i, j] \<or> fsm_ids ?m = [j, i]" using two by (auto simp: fsm_ids_def)
  have look: "get_fsm ?m i = Some f" "get_fsm ?m j = Some g" using two ij by (auto simp: get_fsm_def)
  have st: "F_State g \<ge> BGPFSMOpensent" using g(3) by (simp add: less_eq_BGPFSMState_def)
  have loop: "open_loop i d a b (fsm_ids m) ?m None = (fsmClose i ?m, Some d)"
    using ids2 look ij st dir g(3) by (auto simp: close_dir_def Let_def)
  have "M_fsms (fsmClose i ?m) = [(j, g)]" "M_activeFSM (fsmClose i ?m) = j"
    using look two ij g(4) by (auto simp: fsmClose_def delete_fsm_def fsmBroken_def mlog_def)
  then show ?thesis
    using inv loop ids as
    by (auto simp: receivedBGPOpenMessage_def locked_def mgr_inv_def set_peer_attrs_def)
qed

text \<open>
  Each end closes the losing direction. When the ids compare as different, the ends keep the same connection; when
  they compare as equal, both close the connection they opened themselves, and none is left.
\<close>

definition keeps :: "u32 \<Rightarrow> u32 \<Rightarrow> ConnDir \<Rightarrow> bool" where
  "keeps a b d \<longleftrightarrow> d = (if a > b then ConnDirOut else ConnDirIn)"

lemma collision_agreement:
  "a \<noteq> b \<Longrightarrow> keeps a b ConnDirOut = keeps b a ConnDirIn \<and> keeps a b ConnDirIn = keeps b a ConnDirOut"
  by (auto simp: keeps_def)

lemma id_of_bytes: "id_of [x, y, z, w] = Inr (push_bit 24 (ucast x) OR ucast w)"
  by (simp add: id_of_def To4_def ConvertIPBytesToUint_spec)

end
