(* ===== verification/Samples.thy ===== *)
theory Samples
  imports FsmManager
begin

text \<open>
  Concrete values on which the properties are instantiated: two peers, a prefix, the attributes of a small
  UPDATE, and the configuration and messages of a session.
\<close>

definition peer4 :: BGPPeerAttrs where
  "peer4 = \<lparr>PeerASSize = 4, AddPathFamily = [], AddPathsRxActual = False\<rparr>"

definition peer2 :: BGPPeerAttrs where
  "peer2 = \<lparr>PeerASSize = 2, AddPathFamily = [], AddPathsRxActual = False\<rparr>"

definition net10 :: NLRI where
  "net10 = PlainNLRI \<lparr>Length = 20, Prefix = [10, 1, 32, 0]\<rparr>"

definition origin0 :: BGPPathAttr where
  "origin0 = PA_Origin \<lparr>Origin_Base = \<lparr>Flags = 64, Code = 1, Attr_Length = 1, BGPPathAttrLen = 3\<rparr>, Origin_Value = 0\<rparr>"

definition seg_seq :: BGPAS4PathSegment where
  "seg_seq = \<lparr>AS4_Base = \<lparr>Seg_Type = 2, Seg_Length = 2, Seg_Len = 10\<rparr>, AS4_AS = [65001, 70000]\<rparr>"

definition path4 :: BGPPathAttrASPath where
  "path4 = \<lparr>ASPath_Base = \<lparr>Flags = 64, Code = 2, Attr_Length = 10, BGPPathAttrLen = 3\<rparr>,
            ASPath_Value = [Seg4 seg_seq], ASPath_ASSize = 4\<rparr>"

definition seg2_seq :: BGPAS2PathSegment where
  "seg2_seq = \<lparr>AS2_Base = \<lparr>Seg_Type = 2, Seg_Length = 2, Seg_Len = 6\<rparr>, AS2_AS = [65001, 65002]\<rparr>"

definition path2 :: BGPPathAttrASPath where
  "path2 = \<lparr>ASPath_Base = \<lparr>Flags = 64, Code = 2, Attr_Length = 6, BGPPathAttrLen = 3\<rparr>,
            ASPath_Value = [Seg2 seg2_seq], ASPath_ASSize = 2\<rparr>"

definition nexthop1 :: BGPPathAttr where
  "nexthop1 = PA_NextHop \<lparr>NextHop_Base = \<lparr>Flags = 64, Code = 3, Attr_Length = 4, BGPPathAttrLen = 3\<rparr>,
                         NextHop_Value = [192, 168, 0, 1]\<rparr>"

definition attrs4 :: "BGPPathAttr list" where
  "attrs4 = [origin0, PA_ASPath path4, nexthop1]"

definition attrs2 :: "BGPPathAttr list" where
  "attrs2 = [origin0, PA_ASPath path2, nexthop1]"

lemma net10_wf: "wf_nlri False 1 net10"
  by code_simp

lemmas hdr_eval = wf_attr_hdr_def hdr_wf_def ext_len_def hdr_accepted_def hdr_no_overflow_def BGPPathAttrTypeFlagsMap_def
  BGPPathAttrTypeLenMap_def

lemma attrs4_wf: "list_all (wf_attr peer4) attrs4"
  by (simp add: attrs4_def peer4_def origin0_def path4_def nexthop1_def seg_seq_def hdr_eval seg_width_ok_def
      wf_seg4_def seg4_bytes_def)

definition update4 :: BGPUpdate where
  "update4 = with_lengths (NewBGPUpdate [] attrs4 [net10])"

definition update2 :: BGPUpdate where
  "update2 = with_lengths (NewBGPUpdate [] attrs2 [net10])"

definition conf0 :: fsm_conf where
  "conf0 = \<lparr>Conf_ConnectRetryTime = 120, Conf_HoldTime = 180, Conf_KeepaliveTime = 60, Conf_MaxPrefixesRestartTimer = 5,
     Conf_AfiSafiMap = [257], Conf_GlobalAS = 65001, Conf_LocalAS = 65001, Conf_RouterId = [10, 0, 0, 1],
     Conf_AddPathsRx = False, Conf_AddPathsMaxTx = 0, Conf_BfdDown = False, Conf_UnknownNeighbor = False\<rparr>"

lemma conf0_wf: "wf_conf conf0"
  by code_simp

definition peer_open :: BGPOpen where
  "peer_open = NewBGPOpen 65002 9 [10, 0, 0, 2] (ConstructOptParams 65002 [257] False 0)"

definition peer_open_msg :: BGPMessage where
  "peer_open_msg = NewBGPOpenMessage 65002 9 [10, 0, 0, 2] (ConstructOptParams 65002 [257] False 0)"

text \<open>The session of \<open>conf0\<close> in OpenSent, in OpenConfirm and in Established, on the outgoing connection 7.\<close>

definition in_state :: "BGPFSMState \<Rightarrow> fsm" where
  "in_state s = (NewFSM conf0)\<lparr>F_State := s, F_peerConn := Some (ConnDirOut, 7), F_connId := 7,
     F_log := (if s = BGPFSMEstablished then [MgrEstablished] else [])\<rparr>"

lemma in_state_inv: "fsm_inv (in_state BGPFSMOpensent)" "fsm_inv (in_state BGPFSMOpenconfirm)" "fsm_inv (in_state BGPFSMEstablished)"
  by (simp_all add: in_state_def NewFSM_def fsm_inv_def)

lemmas attr_samples = attrs4_def attrs2_def origin0_def path4_def path2_def nexthop1_def seg_seq_def seg2_seq_def

lemma sample_update_wf: "wf_update_parts peer4 (NewBGPUpdate [] attrs4 [net10])"
  using attrs4_wf net10_wf by (simp add: wf_update_parts_def NewBGPUpdate_def peer4_def)

lemma sample_update_size: "update_size (NewBGPUpdate [] attrs4 [net10]) = 51"
  by (simp add: update_size_def NewBGPUpdate_def nlri_total_def attrs_total_def attr_samples net10_def
      PA_TotalLen_def BGPPathAttrBase_TotalLen_def IPPrefix_Len_def prefix_bytes_def)

lemma update4_wf: "wf_update peer4 update4"
  unfolding update4_def by (rule with_lengths_wf) (simp_all add: sample_update_wf sample_update_size)

lemma update4_bytes: "\<exists>pkt. BGPUpdate_Encode update4 = Inr pkt \<and> length pkt = 32"
  using BGPUpdate_Encode_size [of peer4 update4] update4_wf sample_update_wf sample_update_size
  by (simp add: update4_def update_size_def with_lengths_def wf_update_parts_def)

lemma conf0_start: "\<exists>f. start_fsm (FSM_Init conf0 BGPFSMIdle) = Inr f \<and> fsm_reach conf0 BGPFSMIdle f \<and> \<not> F_close f"
  using start_fsm_good [OF conf0_wf, of BGPFSMIdle] by (auto intro: fsm_reach.start)

text \<open>A manager whose two machines have connections in both directions.\<close>

definition colliding :: "fsm_conf \<Rightarrow> FSMManager" where
  "colliding c = (NewFSMManager c)\<lparr>M_fsms := [(0, in_state BGPFSMOpensent),
     (1, (in_state BGPFSMOpensent)\<lparr>F_peerConn := Some (ConnDirIn, 8)\<rparr>)]\<rparr>"

lemma peer_open_id: "Open_BGPId peer_open = [10, 0, 0, 2]"
  by (simp add: peer_open_def NewBGPOpen_def)

lemma peer_open_as: "GetASSize peer_open = Inr 4" "GetASSize (peer_open\<lparr>Open_BGPId := x\<rparr>) = Inr 4"
  by (simp_all add: GetASSize_def peer_open_def NewBGPOpen_def ConstructOptParams_eq NewBGPOptParamCapability_def Let_def
      offered_def BGPCapability_GetCode_def NewBGPCap4ByteASPath_def)

end
