(* ===== verification/RibSamples.thy ===== *)
theory RibSamples
  imports Samples DestInv RouteList
begin

text \<open>Concrete values for the properties of the routing table: neighbours, their paths to one prefix, a destination, a runtime.\<close>

definition nbr :: "u8 \<Rightarrow> u32 \<Rightarrow> NeighborConf" where
  "nbr k as = \<lparr>N_NeighborAddress = [10, 0, 0, k], N_BGPId = [10, 0, 0, k], N_LocalAS = 65000, N_PeerAS = as,
     N_RouterId = [10, 0, 0, 200], N_ClusterId = 0\<rparr>"

definition origin_attr :: "u8 \<Rightarrow> BGPPathAttr" where
  "origin_attr v = PA_Origin \<lparr>Origin_Base = \<lparr>Flags = 64, Code = 1, Attr_Length = 1, BGPPathAttrLen = 3\<rparr>, Origin_Value = v\<rparr>"

definition hop :: "u8 \<Rightarrow> ReachabilityInfo" where
  "hop k = NewReachabilityInfo (if k = 1 then ''10.0.0.1'' else ''10.0.0.2'') 0 0 0"

definition fam4 :: u32 where "fam4 = 257"

text \<open>The path of neighbour \<open>k\<close>, whose AS is \<open>as\<close>, with the given origin.\<close>

definition rpath :: "nat \<Rightarrow> u8 \<Rightarrow> u32 \<Rightarrow> u8 \<Rightarrow> Path" where
  "rpath ref k as v = \<lparr>P_ref = ref, P_NeighborConf = Some (nbr k as), P_PathAttrs = [origin_attr v], P_Pref = 100,
     P_nhReachabilityInfo = [(fam4, \<lparr>NHR_nextHop = [10, 0, 0, k], NHR_info = Some (hop k)\<rparr>)], P_routeType = RouteTypeEGP, P_MED = 0, P_LocalPref = 0\<rparr>"

text \<open>A route of the router itself.\<close>

definition local_path :: "nat \<Rightarrow> Path" where
  "local_path ref = \<lparr>P_ref = ref, P_NeighborConf = None, P_PathAttrs = [origin_attr 0], P_Pref = 100, P_nhReachabilityInfo = [],
     P_routeType = RouteTypeStatic, P_MED = 0, P_LocalPref = 0\<rparr>"

definition rt0 :: runtime where
  "rt0 = \<lparr>RT_map_order = (\<lambda>m. m), RT_path_order = (\<lambda>m. m), RT_sort = (\<lambda>_ xs. Inr xs)\<rparr>"

definition g0 :: rib_conf where
  "g0 = \<lparr>G_UseMultiplePaths = False, G_EBGPMaxPaths = 1, G_IBGPMaxPaths = 1\<rparr>"

lemma rt0_fair: "fair_runtime rt0"
  by (simp add: fair_runtime_def rt0_def)

lemma rpath_scores [simp]:
  "Path_GetNumASes (rpath ref k as v) = Inr 0" "Path_GetOrigin (rpath ref k as v) = Inr v" "Path_GetNumClusters (rpath ref k as v) = Inr 0"
  "P_Pref (rpath ref k as v) = 100" "P_ref (rpath ref k as v) = ref" "P_routeType (rpath ref k as v) = RouteTypeEGP"
  "Path_IsInternal (rpath ref k as v) = (as = 65000)" "address (rpath ref k as v) = [10, 0, 0, k]"
  "GetReachability fam4 (rpath ref k as v) = Some (hop k)" "Path_HasASLoop (rpath ref k as v) = Inr False"
  by (simp_all add: Path_GetNumASes_def GetNumASes_def Path_GetOrigin_def GetOrigin_def Path_GetNumClusters_def GetNumClusters_def rpath_def
      origin_attr_def PA_GetCode_def Path_IsInternal_def NeighborConf_IsInternal_def nbr_def address_def GetReachability_def Path_HasASLoop_def HasASLoop_def)

lemma rpath_id: "Path_GetBGPId (rpath ref 1 as v) = Inr 0x0A000001" "Path_GetBGPId (rpath ref 2 as v) = Inr 0x0A000002"
  by (simp_all add: Path_GetBGPId_def rpath_def origin_attr_def PA_GetCode_def neighbor_r_def nbr_def)

lemma rpath_rankable: "v \<le> 3 \<Longrightarrow> rankable 4 (rpath ref k as v)"
  by (auto simp: rankable_def rpath_def origin_attr_def PA_GetCode_def Path_GetBGPId_def neighbor_r_def nbr_def
      Path_GetNumASes_def GetNumASes_def Path_GetOrigin_def GetOrigin_def Path_GetNumClusters_def GetNumClusters_def address_def)

lemma rpath_eligible: "eligible fam4 (rpath ref k as v)"
  by (simp add: eligible_def IsReachable_unless_local)

text \<open>A destination with the paths of two neighbours.\<close>

definition ph0 :: "nat \<Rightarrow> Path" where
  "ph0 r = rpath r (if r = 1 then 1 else 2) 65001 0"

definition dest0 :: Destination where
  "dest0 = NewDestination \<lparr>Length = 24, Prefix = [192, 0, 2, 0]\<rparr> fam4"

lemma fam4_length: "GetAddressLengthForFamily fam4 = 4"
  by code_simp

definition dest1 :: Destination where
  "dest1 = fst (projr (AddOrUpdatePath ph0 ''10.0.0.2'' 0 2 dest0))"

definition dest2 :: Destination where
  "dest2 = fst (projr (AddOrUpdatePath ph0 ''10.0.0.1'' 0 1 dest1))"

lemma beats_new: "D_LocRibPath d = None \<Longrightarrow> beats_loc_rib ph p d"
  by (simp add: beats_loc_rib_def)

lemmas add_eval = AddOrUpdatePath_def add_route_def getPathForIP_def peer_paths_def Let_def getNextPathId_def AppendPath_def on_route_def setIdx_def

lemma dest1_inv: "dest_inv dest1" "getPathForIP ''10.0.0.2'' 0 dest1 = Some 2" "live dest1 = {2}"
proof -
  have "pool_room dest0" "live dest0 = {}" "dest_inv dest0"
    by (simp_all add: pool_room_def live_def dest0_def NewDestination_inv) (simp_all add: NewDestination_def getPathForIP_def peer_paths_def)
  with AddOrUpdatePath_inv [of dest0 2 ph0 "''10.0.0.2''" 0] show "dest_inv dest1" "getPathForIP ''10.0.0.2'' 0 dest1 = Some 2" "live dest1 = {2}"
    by (auto simp: dest1_def)
qed

lemma dest1_eval:
  "D_peerPathMap dest1 = [(''10.0.0.2'', [(0, 2)])]" "D_LocRibPath dest1 = None" "D_ecmpPaths dest1 = []" "D_AddPaths dest1 = []"
  "D_recalculate dest1" "D_pathIds dest1 = []" "D_maxPathId dest1 = 2" "D_Prefix dest1 = \<lparr>Length = 24, Prefix = [192, 0, 2, 0]\<rparr>" "D_protoFamily dest1 = fam4"
  by (simp_all add: dest1_def dest0_def NewDestination_def add_eval beats_new)

lemma dest2_inv: "dest_inv dest2" "live dest2 = {1, 2}"
proof -
  have room: "pool_room dest1" by (simp add: pool_room_def dest1_eval)
  have new: "getPathForIP ''10.0.0.1'' 0 dest1 = None" by (simp add: getPathForIP_def peer_paths_def dest1_eval)
  from AddOrUpdatePath_inv [OF dest1_inv(1) room, of 1 ph0 "''10.0.0.1''" 0] dest1_inv(3) new
  show "dest_inv dest2" "live dest2 = {1, 2}" by (auto simp: dest2_def)
qed

lemma dest2_eval:
  "all_paths dest2 = [2, 1]" "D_LocRibPath dest2 = None" "D_ecmpPaths dest2 = []" "D_AddPaths dest2 = []"
  "D_recalculate dest2" "D_Prefix dest2 = \<lparr>Length = 24, Prefix = [192, 0, 2, 0]\<rparr>" "D_protoFamily dest2 = fam4" "D_pathIds dest2 = []" "D_maxPathId dest2 = 3"
  by (simp_all add: dest2_def dest1_eval add_eval beats_new all_paths_def)

text \<open>Two installed paths, of which the first has just been removed.\<close>

definition dest_failed :: Destination where
  "dest_failed = dest0\<lparr>D_peerPathMap := [(''10.0.0.2'', [(0, 2)])], D_ecmpPaths := [(1, 0), (2, 1)], D_recalculate := True\<rparr>"

end
