(* ===== verification/LocRibSamples.thy ===== *)
theory LocRibSamples
  imports LocRibInv RibSamples
begin

text \<open>Concrete values for the properties of the local routing table: prefixes, paths through one next hop, and a run of four updates.\<close>

definition pfx :: "u8 \<Rightarrow> u8 \<Rightarrow> NLRI" where
  "pfx k n = PlainNLRI \<lparr>Length = n, Prefix = [192, 0, k, 0]\<rparr>"

text \<open>The route daemon knows the way to the next hop, or does not.\<close>

definition env :: "bool \<Rightarrow> rib_env" where
  "env up = \<lparr>E_runtime = rt0, E_conf = g0, E_GetNextHopInfo = (\<lambda>_. if up then Some (NewReachabilityInfo ''10.0.0.9'' 0 0 0) else None)\<rparr>"

definition wpath :: "nat \<Rightarrow> Path" where
  "wpath r = (rpath r 1 65001 0)\<lparr>P_nhReachabilityInfo := [(fam4, \<lparr>NHR_nextHop = [10, 0, 0, 9], NHR_info = None\<rparr>)]\<rparr>"

definition rib0 :: LocRib where
  "rib0 = NewLocRib wpath (\<lambda>_. \<lparr>PC_TotalPrefixes = 0, PC_MaxPrefixes = 0\<rparr>)"

lemma rib0_ok: "rib_inv rib0" "fresh rib0 p"
  by (simp_all add: rib0_def NewLocRib_inv fresh_def)

lemma wpath_ok: "Path_GetNextHop fam4 (L_paths rib0 p) \<noteq> []" "Path_IsValid (L_paths rib0 p) = Inr True"
  "map_of (L_unreachablePaths rib0) nh = None"
  by (simp_all add: rib0_def NewLocRib_def wpath_def rpath_def origin_attr_def Path_GetNextHop_def Path_IsValid_def PA_GetCode_def)

text \<open>One update of the neighbour.\<close>

definition peer_update :: "bool \<Rightarrow> nat \<Rightarrow> NLRI list \<Rightarrow> NLRI list \<Rightarrow> LocRib \<Rightarrow> LocRib pres" where
  "peer_update up p add rem l = bind_r (ProcessUpdate (env up) (nbr 1 65001) p add rem fam4 0 (l, no_out)) (\<lambda>(l, _, _). Inr l)"

text \<open>
  The neighbour announces a prefix while the next hop is unknown, announces another one when it is known, withdraws the
  first one, and announces a third one.
\<close>

definition four_updates :: "LocRib pres" where
  "four_updates =
     bind_r (peer_update False 1 [pfx 1 24] [] rib0) (\<lambda>l.
     bind_r (peer_update True 2 [pfx 2 24] [] l) (\<lambda>l.
     bind_r (peer_update True 3 [] [pfx 1 24] l) (peer_update True 4 [pfx 3 24] [])))"

end
