(* ===== verification/BgpFacts.thy ===== *)
theory BgpFacts
  imports LocRibSamples
begin

text \<open>Further facts about the BGP daemon, each with a concrete instance.\<close>

section \<open>The session state machine and its manager\<close>

text \<open>
  Closing a machine always succeeds and leaves it with no connection and no connection attempt.
\<close>

theorem fsm_close_releases_connections:
  assumes "fsm_reach c s f" "wf_conf c" "s < BGPFSMOpensent" "\<not> F_close f"
  shows "\<exists>f'. fsm_step In_close f = Inr f' \<and> F_close f' \<and> F_peerConn f' = None \<and> \<not> F_outTCPConn f'"
  using fsm_reach_inv [OF assms(1-3)] fsm_step_close [of f] assms(2,4) by auto

theorem fsm_close_releases_connections_witness:
  "\<exists>f. start_fsm (FSM_Init conf0 BGPFSMIdle) = Inr f \<and>
     (\<exists>f'. fsm_step In_close f = Inr f' \<and> F_close f' \<and> F_peerConn f' = None \<and> \<not> F_outTCPConn f')"
proof -
  obtain f where f: "start_fsm (FSM_Init conf0 BGPFSMIdle) = Inr f" "fsm_reach conf0 BGPFSMIdle f" "\<not> F_close f"
    using conf0_start by blast
  with fsm_close_releases_connections [OF f(2) conf0_wf _ f(3)] show ?thesis by auto
qed

text \<open>
  When the hold timer expires in OpenSent, OpenConfirm or Established, the peer is sent a NOTIFICATION with the code
  Hold Timer Expired, the connection is closed after it, both session timers stop, the restart timer runs, and the
  manager hears that the session broke exactly if it was established.
\<close>

theorem hold_timer_drops_the_session:
  assumes "fsm_inv f" "\<not> F_close f" "F_State f \<ge> BGPFSMOpensent"
  shows "\<exists>f' l. fsm_step In_holdTimer f = Inr f' \<and> F_State f' = BGPFSMIdle \<and> F_peerConn f' = None \<and>
     F_holdTimer f' = None \<and> F_keepAliveTimer f' = None \<and> F_restartTimer f' = Some (F_restartTime f) \<and>
     F_connectRetryCounter f' = F_connectRetryCounter f + 1 \<and>
     F_log f' = F_log f @ Wrote (NewBGPNotificationMessage BGPHoldTimerExpired 0 [])
                            (msg_bytes (NewBGPNotificationMessage BGPHoldTimerExpired 0 [])) # ConnClosed # l \<and>
     (MgrBroken \<in> set l \<longleftrightarrow> F_State f = BGPFSMEstablished)"
  using assms by (rule hold_timer_expiry)

theorem hold_timer_drops_the_session_witness:
  "\<exists>f'. fsm_step In_holdTimer (in_state BGPFSMEstablished) = Inr f' \<and> F_State f' = BGPFSMIdle \<and> F_peerConn f' = None"
  using hold_timer_drops_the_session [OF in_state_inv(3)] by (auto simp: in_state_def NewFSM_def less_eq_BGPFSMState_def)

text \<open>
  Router ids are compared by their first and last bytes only. Between two routers whose ids agree there, each end of a
  collision closes the machine of the connection it opened itself, so both connections are lost.
\<close>

theorem similar_router_ids_lose_both_connections:
  assumes "mgr_inv m" "M_fsms m = [(i, f), (j, g)] \<or> M_fsms m = [(j, g), (i, f)]" "i \<noteq> j"
    and "fsm_dir f = Some ConnDirOut" "fsm_dir g = Some ConnDirIn" "F_State g \<in> {BGPFSMOpensent, BGPFSMOpenconfirm}"
    and "Conf_RouterId (M_conf m) = [x, y, z, w]" "Open_BGPId openMsg = [x, y', z', w]"
    and "GetASSize openMsg = Inr n"
  shows "\<exists>m'. receivedBGPOpenMessage i ConnDirOut openMsg m = Inr (m', False) \<and> fsm_ids m' = [j] \<and>
     SendClose i \<in> set (M_log m')"
  using collision_closes_one [OF assms(1-5) _ assms(6), of "push_bit 24 (ucast x) OR ucast w" openMsg _ n] assms(7-9)
  by (auto simp: id_of_bytes)

theorem similar_router_ids_lose_both_connections_witness:
  "\<exists>m'. receivedBGPOpenMessage 0 ConnDirOut (peer_open\<lparr>Open_BGPId := [10, 7, 9, 1]\<rparr>) (colliding conf0) = Inr (m', False) \<and>
     fsm_ids m' = [1] \<and> SendClose 0 \<in> set (M_log m')"
  using similar_router_ids_lose_both_connections
    [of "colliding conf0" 0 "in_state BGPFSMOpensent" 1 "(in_state BGPFSMOpensent)\<lparr>F_peerConn := Some (ConnDirIn, 8)\<rparr>"
        10 0 0 1 "peer_open\<lparr>Open_BGPId := [10, 7, 9, 1]\<rparr>" 7 9 4]
  by (simp add: colliding_def NewFSMManager_def mgr_inv_def fsm_ids_def fsm_dir_def in_state_def NewFSM_def conf0_def peer_open_as)

section \<open>Messages\<close>

text \<open>
  Any well-formed UPDATE whose encoding has the length the header announces is decoded back to itself.
\<close>

theorem update_decodes_to_itself:
  assumes "wf_update peer u" "unat (Hdr_Length hdr) = 19 + length pkt" "BGPUpdate_Encode u = Inr pkt"
  shows "BGPUpdate_Decode hdr pkt peer = Inr u"
  using assms by (rule update_roundtrip)

theorem update_decodes_to_itself_witness:
  "\<exists>pkt. BGPUpdate_Encode update4 = Inr pkt \<and>
     BGPUpdate_Decode \<lparr>Marker = replicate 16 0, Hdr_Length = 51, Hdr_Type = 2\<rparr> pkt peer4 = Inr update4"
proof -
  obtain pkt where "BGPUpdate_Encode update4 = Inr pkt" "length pkt = 32"
    using update4_bytes by blast
  with update_decodes_to_itself [OF update4_wf, of "\<lparr>Marker = replicate 16 0, Hdr_Length = 51, Hdr_Type = 2\<rparr>"]
  show ?thesis by simp
qed

text \<open>
  A list of well-formed prefixes (with path ids exactly when additional paths were negotiated), encoded and handed
  to \<open>decodeNLRI\<close> with its length, is decoded to the same list and consumes exactly its bytes.
\<close>

theorem nlri_list_roundtrip:
  assumes "list_all (wf_nlri (AddPathsRxActual pa) afi) ns" "sum_list (map (\<lambda>n. unat (NLRI_Len n)) ns) < 2 ^ 32"
  shows "\<exists>bs. concat_r (NLRI_Encode afi) ns = Inr bs \<and>
           (\<forall>rest. decodeNLRI (bs @ rest) (of_nat (length bs)) afi safi pa = Inr (ns, length bs))"
  using assms by (rule decodeNLRI_roundtrip)

theorem nlri_list_roundtrip_witness:
  "\<exists>bs. concat_r (NLRI_Encode 1) [net10, net10] = Inr bs \<and>
     (\<forall>rest. decodeNLRI (bs @ rest) (of_nat (length bs)) 1 1 peer4 = Inr ([net10, net10], length bs))"
  by (rule nlri_list_roundtrip)
     (use net10_wf in \<open>simp_all add: peer4_def net10_def IPPrefix_Len_def prefix_bytes_def\<close>)

text \<open>
  What \<open>decodeNLRI\<close> accepts for IPv4 and IPv6 is canonical: every prefix has at most the address length, its host
  bits are cleared, and the decoder consumed exactly the announced bytes, which are the prefixes' own lengths.
\<close>

theorem nlri_decoding_is_canonical:
  assumes "known_afi afi" "decodeNLRI pkt len afi safi pa = Inr (ns, n)"
  shows "list_all (wf_nlri (AddPathsRxActual pa) afi) ns \<and> n = unat len \<and>
         n = sum_list (map (\<lambda>x. unat (NLRI_Len x)) ns)"
  using assms by (rule decodeNLRI_canonical)


theorem nlri_decoding_is_canonical_witness:
  "decodeNLRI [20, 10, 1, 47] 4 1 1 peer4 = Inr ([net10], 4) \<and> wf_nlri False 1 net10"
proof -
  have d: "decodeNLRI [20, 10, 1, 47] 4 1 1 peer4 = Inr ([net10], 4)"
    by code_simp
  with nlri_decoding_is_canonical [OF _ d] show ?thesis by (simp add: peer4_def known_afi_def)
qed

text \<open>
  A KEEPALIVE is 19 bytes, and a peer reads it off its stream as a KEEPALIVE, leaving its connection as it was.
\<close>

theorem keepalive_is_understood:
  "\<exists>bs msg. BGPMessage_Encode NewBGPKeepAliveMessage = Inr (NewBGPKeepAliveMessage, bs) \<and> length bs = 19 \<and>
     (\<forall>p rest. read_message p (bs @ rest) = Inr (Some (p, \<lparr>Dec_Msg = Some msg, Dec_Error = None, Dec_Ok = True\<rparr>, rest))) \<and>
     Msg_Body msg = Some Body_KeepAlive"
  by (rule keepalive_read)

text \<open>
  A NOTIFICATION reaches the peer with its code, subcode and data, and the peer stops reading after it.
\<close>

theorem notification_is_understood:
  assumes "length d < 65515"
  shows "\<exists>bs msg. BGPMessage_Encode (NewBGPNotificationMessage c s d) = Inr (NewBGPNotificationMessage c s d, bs) \<and>
     (\<forall>p rest. read_message p (bs @ rest) = Inr (Some (p, \<lparr>Dec_Msg = Some msg, Dec_Error = None, Dec_Ok = False\<rparr>, rest))) \<and>
     Msg_Body msg = Some (Body_Notification \<lparr>Notif_ErrorCode = c, Notif_ErrorSubcode = s, Notif_Data = d\<rparr>)"
  using assms by (rule notification_read)

theorem notification_is_understood_witness:
  "\<exists>bs msg. BGPMessage_Encode (NewBGPNotificationMessage 6 2 [1, 2]) = Inr (NewBGPNotificationMessage 6 2 [1, 2], bs) \<and>
     (\<forall>p rest. read_message p (bs @ rest) = Inr (Some (p, \<lparr>Dec_Msg = Some msg, Dec_Error = None, Dec_Ok = False\<rparr>, rest))) \<and>
     Msg_Body msg = Some (Body_Notification \<lparr>Notif_ErrorCode = 6, Notif_ErrorSubcode = 2, Notif_Data = [1, 2]\<rparr>)"
  by (rule notification_is_understood) simp

text \<open>
  An UPDATE that would be longer than the 4096 bytes of a BGP message is refused by \<open>Encode\<close>, not truncated.
\<close>

theorem oversized_update_is_refused:
  assumes "wf_update_parts peer (NewBGPUpdate wd pas ns)" "update_size (NewBGPUpdate wd pas ns) > 4096"
  shows "BGPMessage_Encode (NewBGPUpdateMessage wd pas ns) = msg_error 0 0 []"
  using assms by (rule oversized_update_refused)

theorem oversized_update_is_refused_witness:
  "BGPMessage_Encode (NewBGPUpdateMessage [] [] (replicate 1100 net10)) = msg_error 0 0 []"
  by (rule oversized_update_is_refused [of peer4])
     (use net10_wf in \<open>simp_all add: wf_update_parts_def NewBGPUpdate_def peer4_def list_all_iff update_size_def
       nlri_total_def attrs_total_def sum_list_replicate net10_def IPPrefix_Len_def prefix_bytes_def
       del: replicate_numeral\<close>)

text \<open>
  \<open>checkPathAttributes\<close> accepts a list of attributes exactly when no type occurs twice and ORIGIN, AS_PATH and
  NEXT_HOP are there.
\<close>

theorem checkPathAttributes_correct:
  "checkPathAttributes pas = Inr () \<longleftrightarrow>
     distinct (map PA_GetCode pas) \<and> {1, 2, 3} \<subseteq> set (map PA_GetCode pas)"
  by (rule checkPathAttributes_spec)

text \<open>
  But \<open>Decode\<close> does not call it: an UPDATE that announces a prefix with no attribute at all is accepted, although
  the check would refuse it for the missing ORIGIN.
\<close>

theorem announcement_without_attributes_is_accepted:
  assumes "wf_nlri (AddPathsRxActual peer) AfiIP n" "nlri_total [n] \<le> 1000"
  shows "\<exists>pkt u. BGPUpdate_Encode (NewBGPUpdate [] [] [n]) = Inr pkt \<and>
           BGPUpdate_Decode \<lparr>Marker = m, Hdr_Length = of_nat (19 + length pkt), Hdr_Type = 2\<rparr> pkt peer = Inr u \<and>
           Upd_NLRI u = [n] \<and> checkPathAttributes (PathAttributes u) = msg_error BGPUpdateMsgError BGPMissingWellKnownAttr [1]"
  using assms by (rule update_without_attributes_accepted)

theorem announcement_without_attributes_is_accepted_witness:
  "\<exists>pkt u. BGPUpdate_Encode (NewBGPUpdate [] [] [net10]) = Inr pkt \<and>
     BGPUpdate_Decode \<lparr>Marker = [], Hdr_Length = of_nat (19 + length pkt), Hdr_Type = 2\<rparr> pkt peer4 = Inr u \<and>
     Upd_NLRI u = [net10] \<and> checkPathAttributes (PathAttributes u) = msg_error BGPUpdateMsgError BGPMissingWellKnownAttr [1]"
  by (rule announcement_without_attributes_is_accepted)
     (use net10_wf in \<open>simp_all add: peer4_def nlri_total_def net10_def IPPrefix_Len_def prefix_bytes_def\<close>)

text \<open>
  An UPDATE with fewer than two bytes after its header makes the reader of the connection panic: neither the
  header's length nor the body's is checked before the body is decoded.
\<close>

theorem short_update_crashes_the_reader:
  assumes "Hdr_Type h = BGPMsgTypeUpdate" "unat (Hdr_Length h) \<le> 20" "2 \<le> length rest"
  shows "read_message p (BGPHeader_Encode h @ rest) = Inl Panic"
  using assms by (rule short_update_panics)

theorem short_update_crashes_the_reader_witness:
  "read_message (NewPeerConn False) (BGPHeader_Encode \<lparr>Marker = [], Hdr_Length = 20, Hdr_Type = 2\<rparr> @ [0, 0]) = Inl Panic"
  by (rule short_update_crashes_the_reader) simp_all

text \<open>
  A two-byte AS_PATH segment of 127 numbers makes the decoder loop forever: the segment's length wraps around to
  zero in a byte.
\<close>

theorem aspath_127_loops:
  assumes "PeerASSize peer \<noteq> 4" "wf_attr_hdr b" "length body = unat (Attr_Length b)"
    and "body = t # 127 # r" "254 \<le> length r"
  shows "BGPPathAttrASPath_Decode (hdr_bytes b @ body @ rest) peer = Inl Diverges"
  using assms by (rule aspath_two_byte_127_diverges)

theorem aspath_127_loops_witness:
  "BGPPathAttrASPath_Decode (hdr_bytes \<lparr>Flags = 80, Code = 2, Attr_Length = 256, BGPPathAttrLen = 4\<rparr>
     @ (2 # 127 # replicate 254 0) @ []) peer2 = Inl Diverges"
  by (rule aspath_127_loops [where t = 2 and r = "replicate 254 0"])
     (simp_all add: peer2_def hdr_eval del: replicate_numeral)

section \<open>Path attributes\<close>

text \<open>
  From a peer with two-byte AS numbers and no AS4_PATH, normalising replaces the AS_PATH by one with four-byte
  segments that has the same AS numbers in the same order, and leaves every other attribute in its place.
\<close>

theorem normalize_two_byte_path:
  assumes "list_all code_matches (PathAttributes u)" "distinct (map PA_GetCode (PathAttributes u))"
    and "getTypeFromPathAttrs (PathAttributes u) BGPPathAttrTypeASPath = Some (PA_ASPath a)"
    and "ASPath_ASSize a = 2" "TotalPathAttrLen u \<noteq> 0"
    and "ASPath_Value a = map Seg2 ss" "list_all (\<lambda>s. seg_consistent (Seg2 s)) ss"
    and "BGPPathAttrTypeAS4Path \<notin> set (map PA_GetCode (PathAttributes u))"
      "BGPPathAttrTypeAS4Aggregator \<notin> set (map PA_GetCode (PathAttributes u))"
  shows "\<exists>a' ss'. NormalizeASPath u = Inr (u\<lparr>PathAttributes :=
             map (\<lambda>pa. if PA_GetCode pa = BGPPathAttrTypeASPath then PA_ASPath a' else pa) (PathAttributes u)\<rparr>) \<and>
           ASPath_Value a' = map Seg4 ss' \<and> length ss' = length ss \<and>
           list_all seg_consistent (ASPath_Value a') \<and> path_ases a' = path_ases a \<and>
           Code (ASPath_Base a') = BGPPathAttrTypeASPath \<and> ASPath_ASSize a' = 0"
  using assms by (rule NormalizeASPath_two_byte)

theorem normalize_two_byte_path_witness:
  "\<exists>a'. NormalizeASPath update2 = Inr (update2\<lparr>PathAttributes := [origin0, PA_ASPath a', nexthop1]\<rparr>) \<and>
     path_ases a' = [65001, 65002]"
  using normalize_two_byte_path [of update2 path2 "[seg2_seq]"]
  by (auto simp: update2_def with_lengths_def NewBGPUpdate_def attr_samples PA_GetCode_def attrs_total_def PA_TotalLen_def
      BGPPathAttrBase_TotalLen_def path_ases_def)

text \<open>
  The path that normalising makes from a two-byte one records no AS size, so the loop check the session runs on it
  next takes its segments for two-byte ones and panics.
\<close>

theorem loop_check_after_normalizing_panics:
  assumes "list_all code_matches (PathAttributes u)" "distinct (map PA_GetCode (PathAttributes u))"
    and "getTypeFromPathAttrs (PathAttributes u) BGPPathAttrTypeASPath = Some (PA_ASPath a)"
    and "ASPath_ASSize a = 2" "TotalPathAttrLen u \<noteq> 0"
    and "ASPath_Value a = map Seg2 ss" "list_all (\<lambda>s. seg_consistent (Seg2 s)) ss" "ss \<noteq> []"
    and "BGPPathAttrTypeAS4Path \<notin> set (map PA_GetCode (PathAttributes u))"
      "BGPPathAttrTypeAS4Aggregator \<notin> set (map PA_GetCode (PathAttributes u))"
  shows "\<exists>u'. NormalizeASPath u = Inr u' \<and> HasASLoop (PathAttributes u') localAS = Inl Panic"
  using assms by (rule NormalizeASPath_then_HasASLoop_panics)

theorem loop_check_after_normalizing_panics_witness:
  "\<exists>u'. NormalizeASPath update2 = Inr u' \<and> HasASLoop (PathAttributes u') 65003 = Inl Panic"
  by (rule loop_check_after_normalizing_panics [of update2 path2 "[seg2_seq]"])
     (simp_all add: update2_def with_lengths_def NewBGPUpdate_def attr_samples PA_GetCode_def attrs_total_def PA_TotalLen_def
      BGPPathAttrBase_TotalLen_def)

text \<open>
  Normalising the AS path of an UPDATE from a peer with four-byte AS numbers removes AS4_PATH and AS4_AGGREGATOR
  and changes nothing else.
\<close>

theorem normalize_four_byte_path:
  assumes "list_all code_matches (PathAttributes u)" "distinct (map PA_GetCode (PathAttributes u))"
    and "getTypeFromPathAttrs (PathAttributes u) BGPPathAttrTypeASPath = Some (PA_ASPath a)"
    and "ASPath_ASSize a = 4" "TotalPathAttrLen u \<noteq> 0"
  shows "NormalizeASPath u =
     Inr (u\<lparr>PathAttributes := filter (\<lambda>pa. PA_GetCode pa \<noteq> BGPPathAttrTypeAS4Path \<and>
                                            PA_GetCode pa \<noteq> BGPPathAttrTypeAS4Aggregator) (PathAttributes u)\<rparr>)"
  using assms by (rule NormalizeASPath_four_byte)

theorem normalize_four_byte_path_witness: "NormalizeASPath update4 = Inr update4"
  using normalize_four_byte_path [of update4 path4]
  by (simp add: update4_def with_lengths_def NewBGPUpdate_def attr_samples PA_GetCode_def attrs_total_def PA_TotalLen_def
      BGPPathAttrBase_TotalLen_def)

text \<open>
  Prepending an AS to the four-byte path of an UPDATE puts it in front of the path, keeps the segments' lengths
  consistent, changes no other attribute, and the loop check of that AS then finds it.
\<close>

theorem PrependAS_prepends:
  assumes "distinct (map PA_GetCode (PathAttributes u))"
    and "BGPPathAttrTypeAS4Path \<notin> set (map PA_GetCode (PathAttributes u))"
    and "getTypeFromPathAttrs (PathAttributes u) BGPPathAttrTypeASPath = Some (PA_ASPath a)"
    and "path_len_ok a" "ASPath_Value a = map Seg4 ss" "ASPath_ASSize a = 4" "Code (ASPath_Base a) = BGPPathAttrTypeASPath"
  shows "\<exists>a' u'. PrependAS u as 4 = Inr u' \<and>
           PathAttributes u' = map (\<lambda>pa. if PA_GetCode pa = BGPPathAttrTypeASPath then PA_ASPath a' else pa) (PathAttributes u) \<and>
           path_ases a' = as # path_ases a \<and> path_len_ok a' \<and> HasASLoop (PathAttributes u') as = Inr True"
  using assms by (rule PrependAS_four_byte)

theorem PrependAS_prepends_witness:
  "\<exists>a' u'. PrependAS update4 65000 4 = Inr u' \<and> PathAttributes u' = [origin0, PA_ASPath a', nexthop1] \<and>
     path_ases a' = [65000, 65001, 70000]"
  using PrependAS_prepends [of update4 path4 "[seg_seq]" 65000]
  by (auto simp: update4_def with_lengths_def NewBGPUpdate_def attr_samples PA_GetCode_def path_ases_def path_len_ok_def Seg_TotalLen_def)

text \<open>
  \<open>removePathAttr\<close> removes the attribute of the given type and returns it, and keeps all others in order.
\<close>

theorem removePathAttr_correct:
  assumes "distinct (map PA_GetCode (PathAttributes u))"
  shows "removePathAttr u c = (u\<lparr>PathAttributes := filter (\<lambda>pa. PA_GetCode pa \<noteq> c) (PathAttributes u)\<rparr>, getPathAttr u c)"
  using assms by (rule removePathAttr_filter)

theorem removePathAttr_correct_witness:
  "removePathAttr update4 3 = (update4\<lparr>PathAttributes := [origin0, PA_ASPath path4]\<rparr>, Some nexthop1)"
  using removePathAttr_correct [of update4 3]
  by (simp add: update4_def with_lengths_def NewBGPUpdate_def attr_samples PA_GetCode_def getPathAttr_def)

text \<open>
  Adding an ORIGINATOR_ID to an UPDATE that has an attribute with a greater type code loses that attribute and all
  that follow it.
\<close>

theorem AddOriginatorId_loses_attributes:
  assumes "\<not> list_ex (\<lambda>pa. PA_GetCode pa = BGPPathAttrTypeOriginatorId) (PathAttributes body)"
    and "PathAttributes body = pre @ pa # post" "BGPPathAttrTypeOriginatorId < PA_GetCode pa"
    and "list_all (\<lambda>pa. PA_GetCode pa \<le> BGPPathAttrTypeOriginatorId) pre"
  shows "AddOriginatorId body ident =
     (body\<lparr>PathAttributes := pre @ [PA_OriginatorId (NewBGPPathAttrOriginatorId ident)]\<rparr>, True)"
  using assms by (rule AddOriginatorId_drops)

theorem AddOriginatorId_loses_attributes_witness:
  "AddOriginatorId (NewBGPUpdate [] [origin0, PA_ClusterList NewBGPPathAttrClusterList] []) [10, 0, 0, 9] =
     (NewBGPUpdate [] [origin0, PA_OriginatorId (NewBGPPathAttrOriginatorId [10, 0, 0, 9])] [], True)"
  using AddOriginatorId_loses_attributes
    [of "NewBGPUpdate [] [origin0, PA_ClusterList NewBGPPathAttrClusterList] []" "[origin0]"
        "PA_ClusterList NewBGPPathAttrClusterList" "[]" "[10, 0, 0, 9]"]
  by (simp add: NewBGPUpdate_def origin0_def PA_GetCode_def NewBGPPathAttrClusterList_def)

section \<open>The routing table\<close>

text \<open>
  The equal-cost groups partition the paths by their next hops: one non-empty group per next hop, and every path in one group.
\<close>

theorem equal_cost_groups_partition:
  assumes "fair_runtime rt" "getECMPPaths rt fam paths = Inr groups"
  shows "\<exists>hops. length hops = length groups \<and> distinct hops \<and> mset (concat groups) = mset paths \<and>
    (\<forall>i < length groups. groups ! i \<noteq> [] \<and> (\<forall>p \<in> set (groups ! i). reach_next_hop fam p = Inr (hops ! i)))"
  using assms by (rule getECMPPaths_groups)

theorem equal_cost_groups_partition_witness:
  "\<exists>hops. length hops = 2 \<and> distinct hops \<and>
    (\<forall>i < 2. \<forall>p \<in> set ([[rpath 0 1 65001 0], [rpath 1 2 65001 0, rpath 2 3 65001 0]] ! i). reach_next_hop fam4 p = Inr (hops ! i))"
proof -
  have "getECMPPaths rt0 fam4 [rpath 0 1 65001 0, rpath 1 2 65001 0, rpath 2 3 65001 0] =
      Inr [[rpath 0 1 65001 0], [rpath 1 2 65001 0, rpath 2 3 65001 0]]"
    by (simp add: getECMPPaths_def rt0_def reach_next_hop_def hop_def NewReachabilityInfo_def)
  from equal_cost_groups_partition [OF rt0_fair this] show ?thesis by (auto simp: numeral_2_eq_2)
qed

text \<open>
  In \<open>getRoutesWithLowestOrigin\<close> a path that beats earlier ones does not reset the index, so a beaten path stays a candidate: of three
  paths that agree otherwise, with the last one of the lowest origin, the second one is chosen if its router id is lower.
\<close>

theorem worse_origin_is_chosen:
  assumes "P_Pref p = v" "P_Pref q = v" "P_Pref r = v"
    and "Path_GetNumASes p = Inr k" "Path_GetNumASes q = Inr k" "Path_GetNumASes r = Inr k" "k \<le> 4096"
    and "Path_GetOrigin p = Inr a" "Path_GetOrigin q = Inr a" "Path_GetOrigin r = Inr b" "b < a" "a < BGPPathAttrOriginMax"
    and "Path_IsInternal q" "Path_IsInternal r" "Path_GetBGPId q = Inr c" "Path_GetBGPId r = Inr d" "c < d"
  shows "calculateBestPath rt fam [p, q, r] [] False False 0 = Inr ([q], [], [])"
  using assms by (rule worse_origin_wins)

theorem worse_origin_is_chosen_witness:
  "calculateBestPath rt0 fam4 [rpath 0 1 65000 2, rpath 1 1 65000 2, rpath 2 2 65000 0] [] False False 0 = Inr ([rpath 1 1 65000 2], [], [])"
  by (rule worse_origin_is_chosen [where v = 100 and k = 0 and a = 2 and b = 0 and c = "0x0A000001" and d = "0x0A000002"])
     (simp_all add: rpath_id)

text \<open>
  Two routes of the router itself that tie have no router id to compare, and choosing between them panics.
\<close>

theorem tie_of_local_routes_panics:
  assumes "P_NeighborConf p = None" "P_NeighborConf q = None" "P_Pref p = P_Pref q"
    and "Path_GetNumASes p = Inr 0" "Path_GetNumASes q = Inr 0" "Path_GetOrigin p = Inr a" "Path_GetOrigin q = Inr a" "a \<le> BGPPathAttrOriginMax"
    and "getTypeFromPathAttrs (P_PathAttrs p) BGPPathAttrTypeOriginatorId = None"
  shows "calculateBestPath rt fam [p, q] [] False False k = Inl Panic"
  using assms by (rule local_tie_panics)

theorem tie_of_local_routes_panics_witness: "calculateBestPath rt0 fam4 [local_path 0, local_path 1] [] False False 0 = Inl Panic"
  by (rule tie_of_local_routes_panics [where a = 0])
     (simp_all add: local_path_def Path_GetNumASes_def GetNumASes_def Path_GetOrigin_def GetOrigin_def origin_attr_def PA_GetCode_def)

text \<open>
  Withdrawn prefixes are compared with the announced ones by address only: when an update withdraws a prefix and announces another
  one with the same address and a different length, the withdrawal is ignored and the old route stays.
\<close>

theorem withdrawal_beside_announcement_is_lost:
  assumes "rib_inv l" "fresh l p" "GetCIDR (nlri_prefix n2) \<noteq> GetCIDR (nlri_prefix n1)" "Prefix (nlri_prefix n2) = Prefix (nlri_prefix n1)"
    and "Path_GetNextHop fam (L_paths l p) \<noteq> []" "Path_IsValid (L_paths l p) = Inr True"
      "map_of (L_unreachablePaths l) (IP_String (Path_GetNextHop fam (L_paths l p))) = None"
    and "ProcessUpdate E n p [n2] [n1] fam k (l, out) = Inr (l', out', True)"
  shows "route_of l' fam (GetCIDR (nlri_prefix n1)) peer i = route_of l fam (GetCIDR (nlri_prefix n1)) peer i"
proof -
  have "isIpInList [n2] n1" using assms(4) by (simp add: isIpInList_def GetPathId_zero IP_Equal_def)
  moreover have "route_of l' = updated_routes fam (IP_String (N_NeighborAddress n)) [n2] [n1] p (route_of l)"
    using ProcessUpdate_ok [OF assms(1,2), of "[n2]" fam E k n "[n1]" out] assms(5-8) by (simp add: outcome_def)
  ultimately show ?thesis using assms(3) by (auto simp: updated_routes_def)
qed

theorem withdrawal_beside_announcement_is_lost_witness:
  "\<exists>l' out'. ProcessUpdate (env True) (nbr 1 65001) 1 [pfx 1 24] [pfx 1 16] fam4 0 (rib0, no_out) = Inr (l', out', True) \<and>
     route_of l' fam4 (GetCIDR (nlri_prefix (pfx 1 16))) ''10.0.0.1'' 0 = route_of rib0 fam4 (GetCIDR (nlri_prefix (pfx 1 16))) ''10.0.0.1'' 0"
proof -
  have "case ProcessUpdate (env True) (nbr 1 65001) 1 [pfx 1 24] [pfx 1 16] fam4 0 (rib0, no_out) of Inr (_, _, all) \<Rightarrow> all | Inl _ \<Rightarrow> False"
    by code_simp
  then obtain l' out' where r: "ProcessUpdate (env True) (nbr 1 65001) 1 [pfx 1 24] [pfx 1 16] fam4 0 (rib0, no_out) = Inr (l', out', True)"
    by (auto split: sum.splits)
  have "GetCIDR (nlri_prefix (pfx 1 24)) \<noteq> GetCIDR (nlri_prefix (pfx 1 16))" by code_simp
  from withdrawal_beside_announcement_is_lost [OF rib0_ok this _ wpath_ok r] r show ?thesis by (auto simp: pfx_def)
qed

section \<open>Hold times, closing, attributes and reading\<close>

text \<open>
  When an OPEN is accepted, the smaller of the two hold times is taken, with a third of the peer's as keepalive
  interval, unless the peer's is 1 or 2, which is ignored; the timers are started with the result, and the families in
  use are those both sides have.
\<close>

theorem open_negotiates_the_hold_time:
  assumes "fsm_inv f" "\<not> F_close f" "F_State f = BGPFSMOpensent" "Msg_Body m = Some (Body_Open b)"
  shows "\<exists>f'. ProcessEvent BGPEventBGPOpen (DataMsg m True) f = Inr f' \<and> F_State f' = BGPFSMOpenconfirm \<and>
     F_holdTime f' = (if ucast (Open_HoldTime b) < F_holdTime f \<and> usable_hold_time (ucast (Open_HoldTime b))
                      then ucast (Open_HoldTime b) else F_holdTime f) \<and>
     F_keepAliveTime f' = (if ucast (Open_HoldTime b) < F_holdTime f \<and> usable_hold_time (ucast (Open_HoldTime b))
                      then ucast (Open_HoldTime b div 3) else F_keepAliveTime f) \<and>
     F_holdTimer f' = timer_of (F_holdTime f') \<and> F_keepAliveTimer f' = timer_of (F_keepAliveTime f') \<and>
     F_afiSafiMap f' = F_afiSafiMap f \<union> (GetProtocolFromOpenMsg b \<inter> set (Conf_AfiSafiMap (F_conf f)))"
  using assms by (rule open_hold_time)

theorem open_negotiates_the_hold_time_witness:
  "\<exists>f'. ProcessEvent BGPEventBGPOpen (DataMsg peer_open_msg True) (in_state BGPFSMOpensent) = Inr f' \<and>
     F_holdTime f' = 9 \<and> F_holdTimer f' = Some 9 \<and> F_keepAliveTimer f' = Some 3"
  using open_negotiates_the_hold_time [OF in_state_inv(1), of peer_open_msg peer_open]
  by (auto simp: in_state_def NewFSM_def conf0_def peer_open_msg_def peer_open_def NewBGPOpenMessage_def NewBGPOpen_def
      usable_hold_time_def timer_of_def)

text \<open>
  The negotiated hold time does not survive: entering Established starts the hold timer with it, but leaving
  OpenConfirm resets the machine to the configured times, so the next KEEPALIVE restarts the hold timer with the configured
  hold time.
\<close>

theorem negotiated_hold_time_is_forgotten:
  assumes "fsm_inv f" "\<not> F_close f" "F_State f = BGPFSMOpenconfirm" "usable_hold_time (Conf_HoldTime (F_conf f))"
  shows "\<exists>f' f''. ProcessEvent BGPEventKeepAliveMsg d f = Inr f' \<and> F_State f' = BGPFSMEstablished \<and>
     F_holdTimer f' = timer_of (F_holdTime f) \<and>
     ProcessEvent BGPEventKeepAliveMsg d f' = Inr f'' \<and> F_State f'' = BGPFSMEstablished \<and>
     F_holdTimer f'' = timer_of (Conf_HoldTime (F_conf f))"
  using assms by (rule established_hold_time)

theorem negotiated_hold_time_is_forgotten_witness:
  "\<exists>f' f''. ProcessEvent BGPEventKeepAliveMsg NoData ((in_state BGPFSMOpenconfirm)\<lparr>F_holdTime := 9\<rparr>) = Inr f' \<and>
     F_holdTimer f' = Some 9 \<and> ProcessEvent BGPEventKeepAliveMsg NoData f' = Inr f'' \<and> F_holdTimer f'' = Some 180"
  using negotiated_hold_time_is_forgotten [of "(in_state BGPFSMOpenconfirm)\<lparr>F_holdTime := 9\<rparr>" NoData] in_state_inv(2)
  by (auto simp: fsm_inv_def in_state_def NewFSM_def conf0_def usable_hold_time_def timer_of_def)

text \<open>
  Closing a neighbour deadlocks: \<open>Cleanup\<close> holds the mutex and calls \<open>fsmStateChange\<close>, which locks it again, for the
  first machine it visits.
\<close>

theorem cleanup_deadlocks:
  assumes "mgr_inv m" "M_fsms m \<noteq> []"
  shows "mgr_step MIn_close m = Inl Diverges"
  using Cleanup_deadlocks [OF assms] by simp

theorem cleanup_deadlocks_witness: "mgr_step MIn_close (mgr_init (NewFSMManager conf0)) = Inl Diverges"
  by (rule cleanup_deadlocks) (simp_all add: mgr_init_def NewFSMManager_def mgr_inv_def mlog_def fsm_ids_def)

text \<open>
  On a four-byte path \<open>HasASLoop\<close> says exactly whether the local AS occurs in it.
\<close>

theorem HasASLoop_finds_the_local_as:
  assumes "getTypeFromPathAttrs pas BGPPathAttrTypeASPath = Some (PA_ASPath a)" "ASPath_ASSize a = 4"
    and "ASPath_Value a = map Seg4 ss"
  shows "HasASLoop pas localAS = Inr (localAS \<in> set (path_ases a))"
  using assms by (rule HasASLoop_four_byte)

theorem HasASLoop_finds_the_local_as_witness:
  "HasASLoop attrs4 70000 = Inr True \<and> HasASLoop attrs4 70001 = Inr False"
  using HasASLoop_finds_the_local_as [of attrs4 path4 "[seg_seq]"]
  by (simp add: attr_samples PA_GetCode_def path_ases_def)

text \<open>
  \<open>SetLocalPref\<close> on sorted attributes leaves them sorted, with exactly the given LOCAL_PREF and every other attribute
  as it was.
\<close>

theorem SetLocalPref_correct:
  assumes "list_all code_matches (PathAttributes body)" "codes_sorted (PathAttributes body)" "PathAttributes body \<noteq> []"
  shows "\<exists>body'. SetLocalPref body pref = Inr body' \<and> codes_sorted (PathAttributes body') \<and>
           filter (\<lambda>pa. PA_GetCode pa \<noteq> 5) (PathAttributes body') = filter (\<lambda>pa. PA_GetCode pa \<noteq> 5) (PathAttributes body) \<and>
           (\<exists>l. getTypeFromPathAttrs (PathAttributes body') 5 = Some (PA_LocalPref l) \<and> LocalPref_Value l = pref)"
  using assms by (rule SetLocalPref_spec)

theorem SetLocalPref_correct_witness:
  "\<exists>body'. SetLocalPref update4 200 = Inr body' \<and> codes_sorted (PathAttributes body') \<and>
     filter (\<lambda>pa. PA_GetCode pa \<noteq> 5) (PathAttributes body') = filter (\<lambda>pa. PA_GetCode pa \<noteq> 5) (PathAttributes update4) \<and>
     (\<exists>l. getTypeFromPathAttrs (PathAttributes body') 5 = Some (PA_LocalPref l) \<and> LocalPref_Value l = 200)"
  by (rule SetLocalPref_correct)
     (simp_all add: update4_def with_lengths_def NewBGPUpdate_def attr_samples PA_GetCode_def codes_sorted_def)

text \<open>
  When the best of two installed paths is gone and the other one, which is installed already, becomes the best, the selection
  reports no change: the new path is not announced, and its route is not marked as the best.
\<close>

theorem failover_between_equal_paths_is_silent:
  assumes "D_recalculate d" "D_LocRibPath d = None" "D_AddPaths d = []" "all_paths d = [b]" "D_ecmpPaths d = [(a, ra), (b, rb)]" "a \<noteq> b" "ra \<noteq> rb"
    and "R_action (D_heap d ra) = RouteActionNone"
    and "P_ref (ph b) = b" "P_routeType (ph b) = RouteTypeEGP" "eligible (D_protoFamily d) (ph b)"
    and "in_kernel (ph a)" "GetReachability (D_protoFamily d) (ph a) = Some info"
    and "unat (Length (D_Prefix d)) \<le> 8 * nat (GetAddressLengthForFamily (D_protoFamily d))" "GetAddressLengthForFamily (D_protoFamily d) > 0"
  shows "\<exists>d' s. SelectRouteForLocRib rt g ph 0 d = Inr (d', s) \<and> D_LocRibPath d' = Some b \<and> D_ecmpPaths d' = [(b, rb)] \<and>
    S_locRibAction s = RouteActionNone \<and> S_deleted s = [ra] \<and> R_BestPath (D_heap d' rb) = R_BestPath (D_heap d rb)"
  using assms by (rule failover_is_silent)

theorem failover_between_equal_paths_is_silent_witness:
  "\<exists>d' s. SelectRouteForLocRib rt0 g0 ph0 0 dest_failed = Inr (d', s) \<and> D_LocRibPath d' = Some 2 \<and> S_locRibAction s = RouteActionNone"
proof -
  have "in_kernel (ph0 1)" by (simp add: in_kernel_def ph0_def Path_IsLocal_def getRouteSource_def RouteTypeToSource_def)
  with failover_between_equal_paths_is_silent [of dest_failed 2 1 0 1 ph0 "hop 1" rt0 g0] show ?thesis
    by (auto simp: dest_failed_def dest0_def NewDestination_def no_route_def all_paths_def ph0_def rpath_eligible fam4_length)
qed

text \<open>
  A reader that asks for pages of the list, starting at index 0 and following the returned indices, comes to an end and gets every
  destination that has paths exactly once.
\<close>

theorem paging_reads_every_destination_once:
  assumes "rl_inv l" "RL_list l \<noteq> None" "limit > 0"
  shows "\<exists>fuel res. read_pages fuel shown 0 limit l = Some res \<and> distinct res \<and> set res = {d \<in> dests l. shown d}"
  using assms by (rule read_pages_all)

theorem paging_reads_every_destination_once_witness:
  "\<exists>fuel res. read_pages fuel (\<lambda>_. True) 0 1 (addRoutesToRouteList 5 NewRouteList) = Some res \<and> distinct res \<and> set res = {5}"
proof -
  have listed: "RL_list (addRoutesToRouteList 5 NewRouteList) \<noteq> None" by (simp add: addRoutesToRouteList_def Let_def)
  have "rl_inv (addRoutesToRouteList 5 NewRouteList)" "dests (addRoutesToRouteList 5 NewRouteList) = {5}"
    using add_inv [OF NewRouteList_inv(1), of 5] by (simp_all add: NewRouteList_inv(2))
  then show ?thesis
    using paging_reads_every_destination_once [of "addRoutesToRouteList 5 NewRouteList" 1 "\<lambda>_. True"] listed by simp
qed

end
