(* ===== verification/BfdPacket.thy ===== *)
theory BfdPacket
  imports Prelude
begin

text \<open>
  Control packets of the BFD daemon (bfd/server/bfdControl.go, bfdAuth.go): encoding, decoding, and the authentication section.

  MD5 and SHA-1 are parameters. A duration is the 64-bit integer of Go; the packet holds its lower half. Errors are their texts.
\<close>

unbundle bit_operations_syntax

section \<open>Data\<close>

type_synonym 'a bres = "(string, 'a) result"
type_synonym duration = "64 word"

datatype BfdSessionState = STATE_ADMIN_DOWN | STATE_DOWN | STATE_INIT | STATE_UP

fun state_code :: "BfdSessionState \<Rightarrow> u8" where
  "state_code STATE_ADMIN_DOWN = 0"
| "state_code STATE_DOWN = 1"
| "state_code STATE_INIT = 2"
| "state_code STATE_UP = 3"

text \<open>The decoder shifts the state to the lowest two bits, so no other values occur.\<close>

definition state_of :: "u8 \<Rightarrow> BfdSessionState" where
  "state_of b = (if b = 0 then STATE_ADMIN_DOWN else if b = 1 then STATE_DOWN else if b = 2 then STATE_INIT else STATE_UP)"

abbreviation (input) BFD_AUTH_TYPE_SIMPLE :: u8 where "BFD_AUTH_TYPE_SIMPLE \<equiv> 1"
abbreviation (input) BFD_AUTH_TYPE_KEYED_MD5 :: u8 where "BFD_AUTH_TYPE_KEYED_MD5 \<equiv> 2"
abbreviation (input) BFD_AUTH_TYPE_METICULOUS_MD5 :: u8 where "BFD_AUTH_TYPE_METICULOUS_MD5 \<equiv> 3"
abbreviation (input) BFD_AUTH_TYPE_KEYED_SHA1 :: u8 where "BFD_AUTH_TYPE_KEYED_SHA1 \<equiv> 4"
abbreviation (input) BFD_AUTH_TYPE_METICULOUS_SHA1 :: u8 where "BFD_AUTH_TYPE_METICULOUS_SHA1 \<equiv> 5"

record BfdAuthHeader =
  BA_Type :: u8
  BA_AuthKeyID :: u8
  BA_SequenceNumber :: u32
  BA_AuthData :: bytes

record BfdControlPacket =
  CP_Version :: u8
  CP_Diagnostic :: int
  CP_State :: BfdSessionState
  CP_Poll :: bool
  CP_Final :: bool
  CP_ControlPlaneIndependent :: bool
  CP_AuthPresent :: bool
  CP_Demand :: bool
  CP_Multipoint :: bool
  CP_DetectMult :: u8
  CP_MyDiscriminator :: u32
  CP_YourDiscriminator :: u32
  CP_DesiredMinTxInterval :: duration
  CP_RequiredMinRxInterval :: duration
  CP_RequiredMinEchoRxInterval :: duration
  CP_AuthHeader :: "BfdAuthHeader option"

abbreviation (input) DEFAULT_CONTROL_PACKET_LEN :: nat where "DEFAULT_CONTROL_PACKET_LEN \<equiv> 24"

section \<open>Names\<close>

fun ConvertBfdSessionStateValToStr :: "BfdSessionState \<Rightarrow> string" where
  "ConvertBfdSessionStateValToStr STATE_ADMIN_DOWN = ''admin_down''"
| "ConvertBfdSessionStateValToStr STATE_DOWN = ''down''"
| "ConvertBfdSessionStateValToStr STATE_INIT = ''init''"
| "ConvertBfdSessionStateValToStr STATE_UP = ''up''"

text \<open>A code without a name gives the empty string, and an unknown name the code 0.\<close>

definition ConvertBfdSessionDiagValToStr :: "int \<Rightarrow> string" where
  "ConvertBfdSessionDiagValToStr diag =
     (let names = [''None'', ''Control detection timer expired'', ''Echo function failed'', ''Neighbor signaled session down'',
        ''Forwarding plane reset'', ''Path down'', ''Concatanated path down'', ''Administratively down'', ''Reverse concatenated path down'']
      in if 0 \<le> diag \<and> diag \<le> 8 then names ! nat diag else [])"

definition ConvertBfdAuthTypeStrToVal :: "string \<Rightarrow> u8" where
  "ConvertBfdAuthTypeStrToVal authType =
     (if authType = ''simple'' then BFD_AUTH_TYPE_SIMPLE
      else if authType = ''keyedmd5'' then BFD_AUTH_TYPE_KEYED_MD5
      else if authType = ''metmd5'' then BFD_AUTH_TYPE_METICULOUS_MD5
      else if authType = ''keyedsha1'' then BFD_AUTH_TYPE_KEYED_SHA1
      else if authType = ''metsha1'' then BFD_AUTH_TYPE_METICULOUS_SHA1
      else 0)"

definition ConvertBfdAuthTypeValToStr :: "u8 \<Rightarrow> string" where
  "ConvertBfdAuthTypeValToStr authType =
     (if authType = BFD_AUTH_TYPE_SIMPLE then ''simple''
      else if authType = BFD_AUTH_TYPE_KEYED_MD5 then ''keyedmd5''
      else if authType = BFD_AUTH_TYPE_METICULOUS_MD5 then ''metmd5''
      else if authType = BFD_AUTH_TYPE_KEYED_SHA1 then ''keyedsha1''
      else if authType = BFD_AUTH_TYPE_METICULOUS_SHA1 then ''metsha1''
      else [])"

lemma auth_type_names: "t \<in> {1, 2, 3, 4, 5} \<Longrightarrow> ConvertBfdAuthTypeStrToVal (ConvertBfdAuthTypeValToStr t) = t"
  by (auto simp: ConvertBfdAuthTypeStrToVal_def ConvertBfdAuthTypeValToStr_def)

section \<open>Encoding\<close>

definition is_md5 :: "u8 \<Rightarrow> bool" where
  "is_md5 t \<longleftrightarrow> t = BFD_AUTH_TYPE_KEYED_MD5 \<or> t = BFD_AUTH_TYPE_METICULOUS_MD5"

definition is_sha1 :: "u8 \<Rightarrow> bool" where
  "is_sha1 t \<longleftrightarrow> t = BFD_AUTH_TYPE_KEYED_SHA1 \<or> t = BFD_AUTH_TYPE_METICULOUS_SHA1"

definition getBfdAuthenticationLength :: "BfdAuthHeader \<Rightarrow> u8" where
  "getBfdAuthenticationLength h =
     (if BA_Type h = BFD_AUTH_TYPE_SIMPLE then of_nat (length (BA_AuthData h) + 3)
      else if is_md5 (BA_Type h) then 24
      else if is_sha1 (BA_Type h) then 28
      else 0)"

definition flag :: "bool \<Rightarrow> u8 \<Rightarrow> u8" where
  "flag b v = (if b then v else 0)"

definition packet_flags :: "BfdControlPacket \<Rightarrow> u8" where
  "packet_flags p =
     flag (CP_Poll p) 0x20 OR flag (CP_Final p) 0x10 OR flag (CP_ControlPlaneIndependent p) 0x08 OR
     flag (CP_AuthPresent p \<and> CP_AuthHeader p \<noteq> None) 0x04 OR flag (CP_Demand p) 0x02 OR flag (CP_Multipoint p) 0x01"

definition auth_length :: "BfdControlPacket \<Rightarrow> u8" where
  "auth_length p =
     (case CP_AuthHeader p of Some h \<Rightarrow> if CP_AuthPresent p then getBfdAuthenticationLength h else 0 | None \<Rightarrow> 0)"

definition packet_head :: "BfdControlPacket \<Rightarrow> bytes" where
  "packet_head p =
     [push_bit 5 (CP_Version p) OR (word_of_int (CP_Diagnostic p) AND 0x1F), push_bit 6 (state_code (CP_State p)) OR packet_flags p,
      CP_DetectMult p, 24 + auth_length p] @
     be32 (CP_MyDiscriminator p) @ be32 (CP_YourDiscriminator p) @ be32 (ucast (CP_DesiredMinTxInterval p)) @
     be32 (ucast (CP_RequiredMinRxInterval p)) @ be32 (ucast (CP_RequiredMinEchoRxInterval p))"

definition auth_head :: "u8 \<Rightarrow> BfdAuthHeader \<Rightarrow> bytes" where
  "auth_head len h =
     [BA_Type h, len, BA_AuthKeyID h] @ (if BA_Type h \<noteq> BFD_AUTH_TYPE_SIMPLE then 0 # be32 (BA_SequenceNumber h) else [])"

definition CreateBfdControlPacket :: "(bytes \<Rightarrow> bytes) \<Rightarrow> (bytes \<Rightarrow> bytes) \<Rightarrow> BfdControlPacket \<Rightarrow> bytes" where
  "CreateBfdControlPacket md5 sha1 p =
     (case CP_AuthHeader p of
        Some h \<Rightarrow>
          if auth_length p > 0 then
            let buf = packet_head p @ auth_head (auth_length p) h in
            buf @ (if BA_Type h = BFD_AUTH_TYPE_SIMPLE then BA_AuthData h
                   else if is_md5 (BA_Type h) then md5 (buf @ BA_AuthData h)
                   else if is_sha1 (BA_Type h) then sha1 (buf @ BA_AuthData h)
                   else [])
          else packet_head p
      | None \<Rightarrow> packet_head p)"

text \<open>\<open>createBfdAuthHeader\<close>, which the code above replaces.\<close>

definition createBfdAuthHeader :: "BfdAuthHeader \<Rightarrow> bytes" where
  "createBfdAuthHeader h =
     auth_head (of_nat (length (BA_AuthData h) + (if BA_Type h \<noteq> BFD_AUTH_TYPE_SIMPLE then 8 else 3))) h @ BA_AuthData h"

section \<open>Decoding\<close>

definition digest_header :: "BfdAuthHeader \<Rightarrow> bytes \<Rightarrow> nat \<Rightarrow> string \<Rightarrow> BfdAuthHeader bres" where
  "digest_header h data len err =
     bind_r (slice_r data 4 8) (\<lambda>s. bind_r (get32 s) (\<lambda>sequence_no.
     bind_r (slice_from data 8) (\<lambda>d.
     if length d \<noteq> len then Inl (Error err)
     else Inr (h\<lparr>BA_SequenceNumber := sequence_no, BA_AuthData := d\<rparr>))))"

definition decodeBfdAuthHeader :: "bytes \<Rightarrow> BfdAuthHeader bres" where
  "decodeBfdAuthHeader data =
     bind_r (index_r data 0) (\<lambda>t.
     bind_r (index_r data 1) (\<lambda>len.
     let h = \<lparr>BA_Type = t, BA_AuthKeyID = 0, BA_SequenceNumber = 0, BA_AuthData = []\<rparr> in
     if len > 0 then
       bind_r (index_r data 2) (\<lambda>k.
       let h = h\<lparr>BA_AuthKeyID := k\<rparr> in
       if t = BFD_AUTH_TYPE_SIMPLE then bind_r (slice_from data 3) (\<lambda>d. Inr (h\<lparr>BA_AuthData := d\<rparr>))
       else if is_md5 t then digest_header h data 16 ''Invalid MD5 Auth Key/Digest length!''
       else if is_sha1 t then digest_header h data 20 ''Invalid SHA1 Auth Key/Hash length!''
       else Inl (Error ''Unsupported Authentication type!''))
     else Inr h))"

definition field32 :: "bytes \<Rightarrow> nat \<Rightarrow> u32 bres" where
  "field32 data i = bind_r (slice_r data i (i + 4)) get32"

text \<open>The first four bytes; the length is compared in one byte.\<close>

definition decode_flags :: "bytes \<Rightarrow> BfdControlPacket bres" where
  "decode_flags data =
     bind_r (index_r data 0) (\<lambda>b0. bind_r (index_r data 1) (\<lambda>b1. bind_r (index_r data 2) (\<lambda>mult. bind_r (index_r data 3) (\<lambda>len.
     if of_nat (length data) \<noteq> len then Inl (Error ''Packet length mis-match!'')
     else Inr \<lparr>CP_Version = drop_bit 5 (b0 AND 0xE0), CP_Diagnostic = uint (b0 AND 0x1F), CP_State = state_of (drop_bit 6 (b1 AND 0xD0)),
       CP_Poll = (b1 AND 0x20 \<noteq> 0), CP_Final = (b1 AND 0x10 \<noteq> 0), CP_ControlPlaneIndependent = (b1 AND 0x08 \<noteq> 0),
       CP_AuthPresent = (b1 AND 0x04 \<noteq> 0), CP_Demand = (b1 AND 0x02 \<noteq> 0), CP_Multipoint = (b1 AND 0x01 \<noteq> 0), CP_DetectMult = mult,
       CP_MyDiscriminator = 0, CP_YourDiscriminator = 0, CP_DesiredMinTxInterval = 0, CP_RequiredMinRxInterval = 0,
       CP_RequiredMinEchoRxInterval = 0, CP_AuthHeader = None\<rparr>))))"

definition DecodeBfdControlPacket :: "bytes \<Rightarrow> BfdControlPacket bres" where
  "DecodeBfdControlPacket data =
     bind_r (decode_flags data) (\<lambda>p.
     bind_r (field32 data 4) (\<lambda>my. bind_r (field32 data 8) (\<lambda>your. bind_r (field32 data 12) (\<lambda>tx. bind_r (field32 data 16) (\<lambda>rx.
     bind_r (field32 data 20) (\<lambda>echo.
     let p = p\<lparr>CP_MyDiscriminator := my, CP_YourDiscriminator := your, CP_DesiredMinTxInterval := ucast tx,
               CP_RequiredMinRxInterval := ucast rx, CP_RequiredMinEchoRxInterval := ucast echo\<rparr> in
     if CP_AuthPresent p then
       if length data > 24 then bind_r (slice_from data 24) (\<lambda>d. bind_r (decodeBfdAuthHeader d) (\<lambda>h. Inr (p\<lparr>CP_AuthHeader := Some h\<rparr>)))
       else Inl (Error ''Header flag set, but packet too short!'')
     else Inr p))))))"

section \<open>Round trip\<close>

definition wf_auth :: "BfdAuthHeader \<Rightarrow> bool" where
  "wf_auth h \<longleftrightarrow>
     BA_Type h = BFD_AUTH_TYPE_SIMPLE \<and> BA_SequenceNumber h = 0 \<and> length (BA_AuthData h) \<le> 228 \<or> is_md5 (BA_Type h) \<or> is_sha1 (BA_Type h)"

definition wf_packet :: "BfdControlPacket \<Rightarrow> bool" where
  "wf_packet p \<longleftrightarrow>
     CP_Version p < 8 \<and> 0 \<le> CP_Diagnostic p \<and> CP_Diagnostic p < 32 \<and>
     CP_DesiredMinTxInterval p < 0x100000000 \<and> CP_RequiredMinRxInterval p < 0x100000000 \<and> CP_RequiredMinEchoRxInterval p < 0x100000000 \<and>
     (case CP_AuthHeader p of Some h \<Rightarrow> CP_AuthPresent p \<and> wf_auth h | None \<Rightarrow> \<not> CP_AuthPresent p)"

text \<open>What arrives: the keys of the digest types are replaced by the digest.\<close>

definition auth_digest :: "(bytes \<Rightarrow> bytes) \<Rightarrow> (bytes \<Rightarrow> bytes) \<Rightarrow> BfdControlPacket \<Rightarrow> BfdAuthHeader \<Rightarrow> bytes" where
  "auth_digest md5 sha1 p h =
     (let buf = packet_head p @ auth_head (auth_length p) h @ BA_AuthData h in
      if is_md5 (BA_Type h) then md5 buf else if is_sha1 (BA_Type h) then sha1 buf else BA_AuthData h)"

definition wire_packet :: "(bytes \<Rightarrow> bytes) \<Rightarrow> (bytes \<Rightarrow> bytes) \<Rightarrow> BfdControlPacket \<Rightarrow> BfdControlPacket" where
  "wire_packet md5 sha1 p =
     p\<lparr>CP_AuthHeader := map_option (\<lambda>h. h\<lparr>BA_AuthData := auth_digest md5 sha1 p h\<rparr>) (CP_AuthHeader p)\<rparr>"

lemma flag_bits:
  fixes a b c d e f :: bool
  shows "let x = push_bit 6 (state_code s) OR (flag a 0x20 OR flag b 0x10 OR flag c 0x08 OR flag d 0x04 OR flag e 0x02 OR flag f 0x01) in
     state_of (drop_bit 6 (x AND 0xD0)) = s \<and> (x AND 0x20 \<noteq> 0) = a \<and> (x AND 0x10 \<noteq> 0) = b \<and> (x AND 0x08 \<noteq> 0) = c \<and>
     (x AND 0x04 \<noteq> 0) = d \<and> (x AND 0x02 \<noteq> 0) = e \<and> (x AND 0x01 \<noteq> 0) = f"
  by (cases s; cases a; cases b; cases c; cases d; cases e; cases f; simp add: flag_def state_of_def Let_def)

lemma version_bits:
  assumes "(v::u8) < 8" "0 \<le> d" "d < 32"
  shows "drop_bit 5 ((push_bit 5 v OR (word_of_int d AND 0x1F)) AND 0xE0) = v"
    and "uint ((push_bit 5 v OR (word_of_int d AND 0x1F)) AND (0x1F :: u8)) = d"
proof -
  have "\<forall>v\<in>set (map word_of_nat [0..<8]). \<forall>w\<in>set (map word_of_nat [0..<32]).
      drop_bit 5 ((push_bit 5 v OR (w AND 0x1F)) AND 0xE0) = v \<and> (push_bit 5 v OR (w AND 0x1F)) AND (0x1F :: u8) = w"
    by code_simp
  moreover have "v \<in> set (map word_of_nat [0..<8])"
    using assms(1) by (auto simp: image_iff word_less_nat_alt intro!: bexI [of _ "unat v"])
  moreover have "word_of_int d \<in> set (map (word_of_nat :: nat \<Rightarrow> u8) [0..<32])"
    using assms(2,3) by (auto simp: image_iff intro!: bexI [of _ "nat d"])
  ultimately have "drop_bit 5 ((push_bit 5 v OR (word_of_int d AND 0x1F)) AND 0xE0) = v \<and>
      (push_bit 5 v OR (word_of_int d AND 0x1F)) AND (0x1F :: u8) = word_of_int d"
    by blast
  then show "drop_bit 5 ((push_bit 5 v OR (word_of_int d AND 0x1F)) AND 0xE0) = v"
    and "uint ((push_bit 5 v OR (word_of_int d AND 0x1F)) AND (0x1F :: u8)) = d"
    using assms(2,3) by (simp_all only: uint_word_of_int_eq) (simp add: take_bit_int_eq_self)
qed

lemma field32_be32:
  "length xs = i \<Longrightarrow> field32 (xs @ be32 w @ ys) i = Inr w"
  by (simp add: field32_def slice_r_def)

lemma length_packet_head [simp]: "length (packet_head p) = 24"
  by (simp add: packet_head_def)

lemma ucast_small_64: "(w :: duration) < 0x100000000 \<Longrightarrow> ucast (ucast w :: u32) = w"
  by (rule word_unat_eqI) (simp add: unsigned_ucast_eq unsigned_take_bit_eq take_bit_nat_eq_self word_less_nat_alt)

lemma decode_flags_head:
  assumes "wf_packet p" and len: "of_nat (24 + length rest) = 24 + auth_length p"
  shows "decode_flags (packet_head p @ rest) =
    Inr (p\<lparr>CP_MyDiscriminator := 0, CP_YourDiscriminator := 0, CP_DesiredMinTxInterval := 0, CP_RequiredMinRxInterval := 0,
      CP_RequiredMinEchoRxInterval := 0, CP_AuthHeader := None\<rparr>)"
proof -
  have f: "CP_AuthPresent p \<and> CP_AuthHeader p \<noteq> None \<longleftrightarrow> CP_AuthPresent p"
    using assms(1) by (auto simp: wf_packet_def split: option.splits)
  have "length (packet_head p @ rest) = 24 + length rest" by simp
  then show ?thesis
    using version_bits [of "CP_Version p" "CP_Diagnostic p"] assms
      flag_bits [of "CP_State p" "CP_Poll p" "CP_Final p" "CP_ControlPlaneIndependent p" "CP_AuthPresent p" "CP_Demand p" "CP_Multipoint p"]
    unfolding decode_flags_def packet_head_def packet_flags_def f
    by (simp only: append_Cons index_r_Cons_0 index_r_Cons_Suc index_r_Cons_numeral bind_r_Inr Let_def)
      (simp add: wf_packet_def)
qed

lemma head_fields:
  "field32 (packet_head p @ rest) 4 = Inr (CP_MyDiscriminator p)"
  "field32 (packet_head p @ rest) 8 = Inr (CP_YourDiscriminator p)"
  "field32 (packet_head p @ rest) 12 = Inr (ucast (CP_DesiredMinTxInterval p))"
  "field32 (packet_head p @ rest) 16 = Inr (ucast (CP_RequiredMinRxInterval p))"
  "field32 (packet_head p @ rest) 20 = Inr (ucast (CP_RequiredMinEchoRxInterval p))"
  by (simp_all add: field32_def slice_r_def packet_head_def be32_def get32_be32_only [unfolded be32_def, simplified])

text \<open>Decoding a head followed by an authentication section.\<close>

lemma decode_packet_head:
  assumes wf: "wf_packet p" and len: "of_nat (24 + length rest) = 24 + auth_length p"
  shows "DecodeBfdControlPacket (packet_head p @ rest) =
    (if CP_AuthPresent p then
       if rest \<noteq> [] then bind_r (decodeBfdAuthHeader rest) (\<lambda>h. Inr (p\<lparr>CP_AuthHeader := Some h\<rparr>))
       else Inl (Error ''Header flag set, but packet too short!'')
     else Inr (p\<lparr>CP_AuthHeader := None\<rparr>))"
proof -
  have "slice_from (packet_head p @ rest) 24 = (Inr rest :: bytes bres)"
    using slice_from_append [of "packet_head p" rest] by simp
  with wf show ?thesis
    by (simp add: DecodeBfdControlPacket_def decode_flags_head [OF wf len] head_fields Let_def ucast_small_64 wf_packet_def)
qed

lemma digest_header_bytes:
  "length d = n \<Longrightarrow>
   digest_header h (t # len # k # 0 # be32 q @ d) n err = Inr (h\<lparr>BA_SequenceNumber := q, BA_AuthData := d\<rparr>)"
  by (simp add: digest_header_def slice_r_def slice_from_def be32_def get32_be32_only [unfolded be32_def, simplified])

lemma auth_header_roundtrip:
  assumes "wf_auth h" "\<And>b. length (md5 b) = 16" "\<And>b. length (sha1 b) = 20" "len > 0"
  shows "decodeBfdAuthHeader (auth_head len h @ auth_digest md5 sha1 p h) = Inr (h\<lparr>BA_AuthData := auth_digest md5 sha1 p h\<rparr>)"
  using assms
  by (cases h) (auto simp: wf_auth_def decodeBfdAuthHeader_def auth_head_def auth_digest_def Let_def digest_header_bytes is_md5_def
      is_sha1_def slice_from_def)

lemma unat_simple_length: "n \<le> 228 \<Longrightarrow> unat (of_nat n + 3 :: u8) = n + 3"
  using unat_of_nat [of "n + 3", where 'a = 8] by simp

lemma auth_length_spec:
  assumes "wf_auth h" "CP_AuthHeader p = Some h" "CP_AuthPresent p" "\<And>b. length (md5 b) = 16" "\<And>b. length (sha1 b) = 20"
  shows "unat (auth_length p) = length (auth_head (auth_length p) h @ auth_digest md5 sha1 p h)" "auth_length p > 0"
proof -
  have *: "unat (auth_length p) = length (auth_head (auth_length p) h @ auth_digest md5 sha1 p h)"
    using assms by (auto simp: wf_auth_def auth_length_def getBfdAuthenticationLength_def is_md5_def is_sha1_def auth_head_def auth_digest_def
        Let_def unat_simple_length)
  then show "unat (auth_length p) = length (auth_head (auth_length p) h @ auth_digest md5 sha1 p h)" .
  show "auth_length p > 0" using * by (auto simp: word_gt_0 unat_eq_0 [symmetric] auth_head_def)
qed

text \<open>A well-formed packet is decoded to itself, but for the digest in place of the key.\<close>

lemma CreateBfdControlPacket_roundtrip:
  assumes wf: "wf_packet p" and l: "\<And>b. length (md5 b) = 16" "\<And>b. length (sha1 b) = 20"
  shows "DecodeBfdControlPacket (CreateBfdControlPacket md5 sha1 p) = Inr (wire_packet md5 sha1 p)"
proof (cases "CP_AuthHeader p")
  case None
  with wf decode_packet_head [OF wf, of "[]"] show ?thesis
    by (simp add: CreateBfdControlPacket_def wf_packet_def wire_packet_def auth_length_def)
next
  case (Some h)
  let ?r = "auth_head (auth_length p) h @ auth_digest md5 sha1 p h"
  from wf Some have a: "wf_auth h" "CP_AuthPresent p" by (auto simp: wf_packet_def)
  note L = auth_length_spec [OF a(1) Some a(2) l]
  have "CreateBfdControlPacket md5 sha1 p = packet_head p @ ?r"
    using a(1) L(2) Some by (auto simp: CreateBfdControlPacket_def auth_digest_def Let_def wf_auth_def is_md5_def is_sha1_def)
  moreover have "of_nat (24 + length ?r) = 24 + auth_length p"
    unfolding L(1) [symmetric] by simp
  ultimately show ?thesis
    using a(2) Some auth_header_roundtrip [OF a(1) l L(2), where p = p] by (simp add: decode_packet_head [OF wf] wire_packet_def auth_head_def)
qed

section \<open>Which packets are safe\<close>

text \<open>The receiver passes on packets of at least 24 bytes. Without the authentication bit they are decoded or refused.\<close>

lemma field32_total: "i + 4 \<le> length data \<Longrightarrow> \<exists>w. field32 data i = Inr w"
  using get32_total [of "take 4 (drop i data)"] by (simp add: field32_def slice_r_def)

lemma DecodeBfdControlPacket_total:
  assumes "24 \<le> length data" "data ! 1 AND 0x04 = 0"
  shows "DecodeBfdControlPacket data \<noteq> Inl Panic \<and> DecodeBfdControlPacket data \<noteq> Inl Diverges"
proof -
  obtain a b c d e where f: "field32 data 4 = Inr a" "field32 data 8 = Inr b" "field32 data 12 = Inr c" "field32 data 16 = Inr d"
      "field32 data 20 = Inr e"
    using field32_total [of 4 data] field32_total [of 8 data] field32_total [of 12 data] field32_total [of 16 data]
      field32_total [of 20 data] assms(1) by auto
  show ?thesis
    using assms by (auto simp: DecodeBfdControlPacket_def decode_flags_def index_r_def f Let_def)
qed

text \<open>With the bit set, an authentication section that is cut short makes the receiver panic.\<close>

lemma auth_section_cut_panics:
  assumes "data ! 1 AND 0x04 \<noteq> 0" "of_nat (length data) = data ! 3" "24 < length data" "length data < 32"
    and "length data = 25 \<or> data ! 25 \<noteq> 0"
    and "length data = 25 \<or> length data = 26 \<or> is_md5 (data ! 24) \<or> is_sha1 (data ! 24)"
  shows "DecodeBfdControlPacket data = Inl Panic"
proof -
  obtain a b c d e where f: "field32 data 4 = Inr a" "field32 data 8 = Inr b" "field32 data 12 = Inr c" "field32 data 16 = Inr d"
      "field32 data 20 = Inr e"
    using field32_total [of 4 data] field32_total [of 8 data] field32_total [of 12 data] field32_total [of 16 data]
      field32_total [of 20 data] assms(3) by auto
  have "decodeBfdAuthHeader (drop 24 data) = Inl Panic"
    using assms(3-) by (auto simp: decodeBfdAuthHeader_def index_r_def Let_def digest_header_def slice_r_def is_md5_def is_sha1_def word_gt_0)
  then show ?thesis
    using assms(1-4) by (simp add: DecodeBfdControlPacket_def decode_flags_def index_r_def f Let_def slice_from_def)
qed

end
