(* ===== verification/Float32.thy ===== *)
theory Float32
  imports Prelude "HOL-Library.Log_Nat"
begin

text \<open>
  Go's 32-bit floating-point numbers, as far as the BFD daemon uses them (bfd/server/bfdSession.go, ApplyTxJitter): every operation is
  exact and then rounded to the nearest number with 24 significant bits. Numbers too small or too big for the format do not occur.
\<close>

section \<open>Rounding\<close>

text \<open>Rounding of a rational to a 32-bit float: 24 significant bits, halfway cases to even.\<close>

definition round_even :: "rat \<Rightarrow> int" where
  "round_even q =
     (let n = \<lfloor>q\<rfloor>; r = q - of_int n in if r < 1/2 then n else if r > 1/2 then n + 1 else if even n then n else n + 1)"

text \<open>The exponent of the last significant bit of a positive number.\<close>

definition ulp_exp :: "rat \<Rightarrow> int" where
  "ulp_exp q = (let (a, b) = quotient_of q; e = bitlen a - bitlen b in if q \<ge> 2 powi e then e - 23 else e - 24)"

definition float32 :: "rat \<Rightarrow> rat" where
  "float32 q =
     (if q = 0 then 0
      else let u = 2 powi ulp_exp \<bar>q\<bar> in sgn q * (of_int (round_even (\<bar>q\<bar> / u)) * u))"

text \<open>
  The conversion back to an integer drops the fraction. A number outside the range of \<open>int32\<close> would give a result that Go leaves
  open; intervals are at most \<open>2 ^ 31 / 1000\<close>, so this does not occur.
\<close>

definition truncate32 :: "rat \<Rightarrow> i32" where
  "truncate32 q = word_of_int (if q < 0 then \<lceil>q\<rceil> else \<lfloor>q\<rfloor>)"

definition jitter_factor :: "i32 \<Rightarrow> rat" where
  "jitter_factor j = float32 (1 - float32 (float32 (of_int (sint j)) / 100))"

definition jittered :: "i32 \<Rightarrow> i32 \<Rightarrow> i32" where
  "jittered x j = truncate32 (float32 (float32 (of_int (sint x)) * jitter_factor j))"

section \<open>Bounds\<close>

lemma round_even_bounds: "\<bar>of_int (round_even q) - q\<bar> \<le> 1/2"
proof -
  have "of_int \<lfloor>q\<rfloor> \<le> q" "q < of_int \<lfloor>q\<rfloor> + 1" by linarith+
  then show ?thesis by (auto simp: round_even_def Let_def abs_le_iff)
qed

lemma bitlen_pos: "0 < x \<Longrightarrow> 1 \<le> bitlen x"
  using bitlen_eq_zero_iff [of x] bitlen_nonneg [of x] by linarith

lemma powi_of_nat_power: "1 \<le> n \<Longrightarrow> (2::rat) powi (n - 1) = of_int (2 ^ nat (n - 1))" "1 \<le> n \<Longrightarrow> (2::rat) powi n = of_int (2 ^ nat n)"
  by (simp_all add: power_int_def)

lemma bitlen_rat:
  assumes "0 < (x::int)"
  shows "(2::rat) powi (bitlen x - 1) \<le> of_int x" "(of_int x :: rat) < 2 powi bitlen x"
  unfolding powi_of_nat_power [OF bitlen_pos [OF assms]] of_int_le_iff of_int_less_iff
  using bitlen_bounds [OF assms] by simp_all

lemma ulp_exp_bound:
  assumes "q > 0"
  shows "2 powi ulp_exp q * 2 ^ 23 \<le> q"
proof -
  obtain a b where ab: "quotient_of q = (a, b)" by force
  then have q: "q = of_int a / of_int b" and b: "b > 0" by (simp_all add: quotient_of_div quotient_of_denom_pos)
  with assms have a: "a > 0" by (simp add: zero_less_divide_iff)
  let ?e = "bitlen a - bitlen b"
  have "2 powi (bitlen a - 1) / 2 powi bitlen b \<le> q"
    unfolding q using bitlen_rat [OF a] bitlen_rat [OF b] a b by (intro frac_le) auto
  moreover have "2 powi (?e - 1) = (2 powi (bitlen a - 1) / 2 powi bitlen b :: rat)"
    by (simp add: power_int_diff)
  ultimately have 1: "2 powi (?e - 1) \<le> q" by simp
  have 2: "2 powi (k - 24) * 2 ^ 23 = (2 powi (k - 1) :: rat)" "2 powi (k - 23) * 2 ^ 23 = (2 powi k :: rat)" for k :: int
    by (simp_all add: power_int_diff)
  show ?thesis using 1 by (simp add: ulp_exp_def ab Let_def 2 del: power_numeral)
qed

lemma float32_error: "q \<ge> 0 \<Longrightarrow> \<bar>float32 q - q\<bar> \<le> q / 2 ^ 24"
proof (cases "q = 0")
  case False
  assume "q \<ge> 0"
  with False have q: "q > 0" by simp
  let ?u = "2 powi ulp_exp q :: rat"
  have u: "?u > 0" "?u * 2 ^ 23 \<le> q" using ulp_exp_bound [OF q] by auto
  have "float32 q - q = (of_int (round_even (q / ?u)) - q / ?u) * ?u"
    using q u(1) by (simp add: float32_def Let_def field_simps)
  then have "\<bar>float32 q - q\<bar> = \<bar>of_int (round_even (q / ?u)) - q / ?u\<bar> * ?u" using u(1) by (simp add: abs_mult)
  also have "\<dots> \<le> 1/2 * ?u" using u(1) by (intro mult_right_mono round_even_bounds) auto
  finally show ?thesis using u(2) by simp
qed (simp add: float32_def)

lemma float32_int:
  assumes "0 \<le> n" "n < 2 ^ 24"
  shows "float32 (of_int n) = of_int n"
proof (cases "n = 0")
  case False
  with assms have n: "n > 0" by simp
  have b: "bitlen n \<le> 24" using bitlen_le_iff_power [of n 24] assms(2) by simp
  have "2 powi (bitlen n - 1) \<le> (of_int n :: rat)" using bitlen_rat [OF n] by simp
  then have e: "ulp_exp (of_int n) = bitlen n - 24" by (simp add: ulp_exp_def Let_def bitlen_def floorlog_def)
  define k where "k = nat (24 - bitlen n)"
  have u: "2 powi (bitlen n - 24) = inverse (2 ^ k :: rat)" using b by (simp add: k_def power_int_def power_one_over inverse_eq_divide)
  have "round_even (of_int n * 2 ^ k) = n * 2 ^ k"
    using floor_of_int [of "n * 2 ^ k", where 'a = rat] by (simp add: round_even_def Let_def)
  then show ?thesis using n by (simp add: float32_def e u Let_def divide_inverse)
qed (simp add: float32_def)
lemma jitter_factors:
  "map jitter_factor [0, 1, 2, 3, 4, 5, 6, 7, 8, 9] =
   [1, 4152361 / 4194304, 2055209 / 2097152, 4068475 / 4194304, 16106127 / 16777216, 15938355 / 16777216, 15770583 / 16777216,
    15602811 / 16777216, 15435039 / 16777216, 7633633 / 8388608]"
  by code_simp

lemma jitter_factor_bounds:
  assumes "unat j < 10"
  shows "jitter_factor j = 1 \<or> 909/1000 \<le> jitter_factor j \<and> jitter_factor j \<le> 991/1000"
proof -
  have "j \<in> of_nat ` {..<10}" using assms by (auto simp: image_iff intro!: bexI [of _ "unat j"])
  then have "j \<in> {0, 1, 2, 3, 4, 5, 6, 7, 8, 9}" by (simp add: lessThan_nat_numeral lessThan_Suc) blast
  with jitter_factors show ?thesis by auto
qed

lemma jittered_bounds:
  assumes "0 \<le> x" "x < 2 ^ 24" "unat j < 10"
  defines "y \<equiv> float32 (float32 (of_int x) * jitter_factor j)"
  shows "y \<le> of_int x" "9/10 * of_int x \<le> y"
proof -
  let ?c = "jitter_factor j" and ?x = "of_int x :: rat"
  have c: "?c = 1 \<or> ?c \<le> 991/1000" "909/1000 \<le> ?c" using jitter_factor_bounds [OF assms(3)] by auto
  have x: "0 \<le> ?x" "y = float32 (?x * ?c)" using assms(1,2) by (simp_all add: y_def float32_int)
  have e: "\<bar>y - ?x * ?c\<bar> \<le> ?x * ?c / 2 ^ 24" unfolding x(2) using x(1) c(2) by (intro float32_error mult_nonneg_nonneg) linarith+
  obtain z where z: "z = ?x * ?c" by simp
  have e': "y - z \<le> z / 16777216" "z - y \<le> z / 16777216"
    using abs_le_D1 [OF e] abs_le_D2 [OF e] unfolding z [symmetric] by simp_all
  have lo: "909/1000 * ?x \<le> z" unfolding z using mult_left_mono [OF c(2) x(1)] by (simp add: mult.commute)
  then show "9/10 * ?x \<le> y" using e'(2) x(1) by linarith
  show "y \<le> ?x"
  proof (cases "?c = 1")
    case True
    then show ?thesis using assms(1,2) by (simp add: y_def float32_int)
  next
    case False
    then have "z \<le> 991/1000 * ?x" unfolding z using mult_left_mono [OF _ x(1), of ?c "991/1000"] c(1) by (simp add: mult.commute)
    then show ?thesis using e'(1) x(1) by linarith
  qed
qed

text \<open>An interval with jitter is at most ten per cent (and a unit) shorter.\<close>

lemma jittered_range:
  assumes "unat j < 10" "0 \<le> sint w" "sint w < 2 ^ 24"
  shows "sint (jittered w j) \<le> sint w \<and> 9 * sint w < 10 * (sint (jittered w j) + 1)"
proof -
  obtain x where x: "x = sint w" by simp
  define y where "y = float32 (float32 (of_int x) * jitter_factor j)"
  note b = jittered_bounds [OF assms(2,3,1), folded x, folded y_def]
  have "0 \<le> x" "x < 2 ^ 24" using assms x by simp_all
  then have x0: "0 \<le> (of_int x :: rat)" "0 \<le> x" "x < 2 ^ 24" by simp_all
  have y: "0 \<le> y" using b(2) x0(1) by linarith
  have f: "0 \<le> \<lfloor>y\<rfloor>" "\<lfloor>y\<rfloor> \<le> x" using y b(1) by (simp_all add: floor_le_iff)
  have "jittered w j = word_of_int \<lfloor>y\<rfloor>" using y by (simp add: jittered_def truncate32_def y_def x)
  moreover have "y < 2 ^ 31" using b(1) x0(3) of_int_less_iff [of x "2 ^ 24", where 'a = rat] by simp
  ultimately have t: "sint (jittered w j) = \<lfloor>y\<rfloor>"
    using signed_take_bit_int_eq_self [of 31 "\<lfloor>y\<rfloor>"] f x0(3) by (simp only: signed_of_int) simp
  have "9/10 * of_int x < (of_int (\<lfloor>y\<rfloor> + 1) :: rat)" using b(2) by linarith
  then have "of_int (9 * x) < (of_int (10 * (\<lfloor>y\<rfloor> + 1)) :: rat)" by simp
  then show ?thesis using f(2) unfolding t x [symmetric] of_int_less_iff by simp
qed

end
