(* ===== verification/BfdSession.thy ===== *)
theory BfdSession
  imports BfdPacket Float32 "HOL-Library.Signed_Division"
begin

text \<open>
  A session of the BFD daemon (bfd/server/bfdSession.go, the structs of server.go and bfdConfig.go).

  An operation maps a session to a session or stops; the only way to stop is the use of a timer or an authentication header that does
  not exist. Notifications to the clients and the packets written are logs in the session. Timers are set in milliseconds. The time
  a session came up (UpTime) and the log messages are left out; whether a write on the socket succeeds is an argument.
\<close>

section \<open>Data\<close>

text \<open>Division of 32-bit integers rounds towards zero.\<close>

definition div32 :: "i32 \<Rightarrow> int \<Rightarrow> i32" where
  "div32 x k = word_of_int (sint x sdiv k)"

datatype Timer = NoTimer | Stopped | Armed int

datatype BfdSessionEvent = REMOTE_DOWN | REMOTE_INIT | REMOTE_UP | TIMEOUT | ADMIN_DOWN | ADMIN_UP | REMOTE_ADMIN_DOWN

abbreviation (input) DIAG_NONE :: int where "DIAG_NONE \<equiv> 0"
abbreviation (input) DIAG_TIME_EXPIRED :: int where "DIAG_TIME_EXPIRED \<equiv> 1"
abbreviation (input) DIAG_NEIGHBOR_SIGNAL_DOWN :: int where "DIAG_NEIGHBOR_SIGNAL_DOWN \<equiv> 3"
abbreviation (input) DIAG_ADMIN_DOWN :: int where "DIAG_ADMIN_DOWN \<equiv> 7"

abbreviation (input) DEFAULT_BFD_VERSION :: u8 where "DEFAULT_BFD_VERSION \<equiv> 1"
abbreviation (input) DEFAULT_DETECT_MULTI :: u8 where "DEFAULT_DETECT_MULTI \<equiv> 3"
abbreviation (input) DEFAULT_DESIRED_MIN_TX_INTERVAL :: "'a::len word" where "DEFAULT_DESIRED_MIN_TX_INTERVAL \<equiv> 250000"
abbreviation (input) DEFAULT_REQUIRED_MIN_RX_INTERVAL :: "'a::len word" where "DEFAULT_REQUIRED_MIN_RX_INTERVAL \<equiv> 250000"
abbreviation (input) STARTUP_TX_INTERVAL :: "'a::len word" where "STARTUP_TX_INTERVAL \<equiv> 2000000"
abbreviation (input) STARTUP_RX_INTERVAL :: "'a::len word" where "STARTUP_RX_INTERVAL \<equiv> 2000000"

record SessionState =
  IpAddr :: string
  LocalAddr :: string
  SessionId :: i32
  ParamName :: string
  Interface :: string
  InterfaceSpecific :: bool
  PerLinkSession :: bool
  LocalMacAddr :: bytes
  RemoteMacAddr :: bytes
  RegisteredProtocols :: "bool list"
  LocalState :: BfdSessionState
  RemoteSessionState :: BfdSessionState
  LocalDiscriminator :: u32
  RemoteDiscriminator :: u32
  LocalDiagType :: int
  DesiredMinTxInterval :: i32
  RequiredMinRxInterval :: i32
  RemoteMinRxInterval :: i32
  DetectionMultiplier :: i32
  RemoteDetectionMultiplier :: i32
  DemandMode :: bool
  RemoteDemandMode :: bool
  ReceivedAuthSeq :: u32
  NumTxPackets :: u32
  NumRxPackets :: u32
  ToDownCount :: u32
  ToUpCount :: u32

record BfdSession =
  B_state :: SessionState
  B_rxInterval :: i32
  B_sessionTimer :: Timer
  B_txInterval :: i32
  B_txTimer :: Timer
  B_txJitter :: i32
  B_bfdPacket :: BfdControlPacket
  B_bfdPacketBuf :: bytes
  B_ReceivedPacketCh :: "BfdControlPacket list"
  B_pollSequence :: bool
  B_pollSequenceFinal :: bool
  B_pollChanged :: bool
  B_authEnabled :: bool
  B_authType :: u8
  B_authSeqNum :: u32
  B_authKeyId :: u32
  B_authData :: bytes
  B_useDedicatedMac :: bool
  B_paramChanged :: bool
  B_remoteParamChanged :: bool
  B_stateChanged :: bool
  B_isClientActive :: bool
  B_movedToDownState :: bool
  B_notifiedState :: bool
  B_notifications :: "(string \<times> bool) list"
  B_sent :: "bytes list"

type_synonym session_op = "BfdSession \<Rightarrow> BfdSession bres"

abbreviation session_state :: "BfdSession \<Rightarrow> BfdSessionState" where
  "session_state s \<equiv> LocalState (B_state s)"

abbreviation remote_state :: "BfdSession \<Rightarrow> BfdSessionState" where
  "remote_state s \<equiv> RemoteSessionState (B_state s)"

definition on_state :: "(SessionState \<Rightarrow> SessionState) \<Rightarrow> BfdSession \<Rightarrow> BfdSession" where
  "on_state f s = s\<lparr>B_state := f (B_state s)\<rparr>"

definition upd :: "(BfdSession \<Rightarrow> BfdSession) \<Rightarrow> session_op" where
  "upd f s = Inr (f s)"

text \<open>A method of a timer that was never made dereferences nil.\<close>

definition timer_set :: "Timer \<Rightarrow> Timer \<Rightarrow> Timer bres" where
  "timer_set t new = (case t of NoTimer \<Rightarrow> Inl Panic | _ \<Rightarrow> Inr new)"

definition session_timer :: "(BfdSession \<Rightarrow> Timer) \<Rightarrow> session_op" where
  "session_timer new s = bind_r (timer_set (B_sessionTimer s) (new s)) (\<lambda>t. Inr (s\<lparr>B_sessionTimer := t\<rparr>))"

definition tx_timer :: "(BfdSession \<Rightarrow> Timer) \<Rightarrow> session_op" where
  "tx_timer new s = bind_r (timer_set (B_txTimer s) (new s)) (\<lambda>t. Inr (s\<lparr>B_txTimer := t\<rparr>))"

definition rx_ms :: "BfdSession \<Rightarrow> Timer" where
  "rx_ms s = Armed (sint (B_rxInterval s))"

definition ApplyTxJitter :: "BfdSession \<Rightarrow> i32" where
  "ApplyTxJitter s = jittered (B_txInterval s) (B_txJitter s)"

section \<open>State changes\<close>

definition IsSessionActive :: "BfdSession \<Rightarrow> bool" where
  "IsSessionActive s \<longleftrightarrow> B_isClientActive s"

definition GetBfdSessionNotification :: "BfdSession \<Rightarrow> bool" where
  "GetBfdSessionNotification s \<longleftrightarrow>
     session_state s = STATE_UP \<or> session_state s = STATE_ADMIN_DOWN \<or> remote_state s = STATE_ADMIN_DOWN"

definition SendBfdNotification :: "BfdSession \<Rightarrow> BfdSession" where
  "SendBfdNotification s =
     (let bfdState = GetBfdSessionNotification s in
      if bfdState \<noteq> B_notifiedState s
      then s\<lparr>B_notifiedState := bfdState, B_notifications := B_notifications s @ [(IpAddr (B_state s), bfdState)]\<rparr>
      else s)"

definition set_rx_startup :: "BfdSession \<Rightarrow> BfdSession" where
  "set_rx_startup s = s\<lparr>B_rxInterval := div32 (STARTUP_RX_INTERVAL * DetectionMultiplier (B_state s)) 1000\<rparr>"

definition set_tx_startup :: "BfdSession \<Rightarrow> BfdSession" where
  "set_tx_startup s = s\<lparr>B_txInterval := 2000\<rparr>"

definition LocalAdminDown :: session_op where
  "LocalAdminDown =
     seq_ops [upd (on_state (\<lambda>t. t\<lparr>LocalState := STATE_ADMIN_DOWN, LocalDiagType := DIAG_ADMIN_DOWN\<rparr>)),
       upd (\<lambda>s. s\<lparr>B_stateChanged := True\<rparr>), upd SendBfdNotification, upd set_tx_startup, tx_timer (\<lambda>_. Armed 0),
       upd set_rx_startup, session_timer (\<lambda>_. Stopped)]"

definition RemoteAdminDown :: session_op where
  "RemoteAdminDown =
     seq_ops [upd (on_state (\<lambda>t. t\<lparr>RemoteSessionState := STATE_ADMIN_DOWN, LocalDiagType := DIAG_NEIGHBOR_SIGNAL_DOWN\<rparr>)),
       upd SendBfdNotification, upd set_tx_startup, tx_timer (\<lambda>_. Armed 0), upd set_rx_startup, session_timer (\<lambda>_. Stopped)]"

definition count_keyed :: "BfdSession \<Rightarrow> BfdSession" where
  "count_keyed s =
     (if B_authType s = BFD_AUTH_TYPE_KEYED_MD5 \<or> B_authType s = BFD_AUTH_TYPE_KEYED_SHA1 then s\<lparr>B_authSeqNum := B_authSeqNum s + 1\<rparr> else s)"

definition MoveToDownState :: session_op where
  "MoveToDownState =
     seq_ops [upd (on_state (\<lambda>t. t\<lparr>LocalState := STATE_DOWN, ToDownCount := ToDownCount t + 1\<rparr>)),
       upd (\<lambda>s. s\<lparr>B_movedToDownState := True, B_useDedicatedMac := True, B_stateChanged := True\<rparr>), upd count_keyed,
       upd SendBfdNotification, upd set_tx_startup, tx_timer (\<lambda>s. Armed (sint (B_txInterval s))), upd set_rx_startup,
       session_timer rx_ms]"

definition MoveToInitState :: session_op where
  "MoveToInitState =
     seq_ops [upd (on_state (\<lambda>t. t\<lparr>LocalState := STATE_INIT\<rparr>)),
       upd (\<lambda>s. s\<lparr>B_stateChanged := True, B_useDedicatedMac := True, B_movedToDownState := False\<rparr>)]"

definition MoveToUpState :: session_op where
  "MoveToUpState =
     seq_ops [upd (on_state (\<lambda>t. t\<lparr>LocalState := STATE_UP, ToUpCount := ToUpCount t + 1\<rparr>)),
       upd (\<lambda>s. s\<lparr>B_stateChanged := True, B_movedToDownState := False\<rparr>),
       upd (on_state (\<lambda>t. t\<lparr>LocalDiagType := DIAG_NONE\<rparr>)), upd SendBfdNotification]"

text \<open>The reaction to an event, when the session is active.\<close>

fun handle_event :: "BfdSessionState \<Rightarrow> BfdSessionEvent \<Rightarrow> session_op" where
  "handle_event STATE_ADMIN_DOWN _ = Inr"
| "handle_event STATE_DOWN REMOTE_DOWN = MoveToInitState"
| "handle_event STATE_DOWN REMOTE_INIT = MoveToUpState"
| "handle_event STATE_DOWN ADMIN_UP = MoveToDownState"
| "handle_event STATE_DOWN ADMIN_DOWN = LocalAdminDown"
| "handle_event STATE_DOWN REMOTE_ADMIN_DOWN = RemoteAdminDown"
| "handle_event STATE_DOWN TIMEOUT = Inr"
| "handle_event STATE_DOWN REMOTE_UP = Inr"
| "handle_event STATE_INIT REMOTE_INIT = MoveToUpState"
| "handle_event STATE_INIT REMOTE_UP = MoveToUpState"
| "handle_event STATE_INIT TIMEOUT = MoveToDownState"
| "handle_event STATE_INIT ADMIN_DOWN = LocalAdminDown"
| "handle_event STATE_INIT REMOTE_ADMIN_DOWN = RemoteAdminDown"
| "handle_event STATE_INIT REMOTE_DOWN = Inr"
| "handle_event STATE_INIT ADMIN_UP = Inr"
| "handle_event STATE_UP REMOTE_DOWN = MoveToDownState"
| "handle_event STATE_UP TIMEOUT = MoveToDownState"
| "handle_event STATE_UP ADMIN_DOWN = LocalAdminDown"
| "handle_event STATE_UP REMOTE_ADMIN_DOWN = RemoteAdminDown"
| "handle_event STATE_UP REMOTE_INIT = Inr"
| "handle_event STATE_UP REMOTE_UP = Inr"
| "handle_event STATE_UP ADMIN_UP = Inr"

text \<open>The error returned for an inactive session is ignored by all callers.\<close>

definition EventHandler :: "BfdSessionEvent \<Rightarrow> session_op" where
  "EventHandler event s = (if \<not> IsSessionActive s then Inr s else handle_event (session_state s) event s)"

section \<open>Received packets\<close>

definition CanProcessBfdControlPacket :: "BfdControlPacket \<Rightarrow> bool" where
  "CanProcessBfdControlPacket p \<longleftrightarrow>
     CP_Version p = DEFAULT_BFD_VERSION \<and> CP_DetectMult p \<noteq> 0 \<and> \<not> CP_Multipoint p \<and> CP_MyDiscriminator p \<noteq> 0"

text \<open>
  \<open>binary.Write\<close> refuses a struct with fields of no fixed size, such as the diagnostic code of type \<open>int\<close>, and writes nothing; the
  error is ignored.
\<close>

definition written_packet :: "BfdControlPacket \<Rightarrow> bytes" where
  "written_packet p = []"

definition AuthenticateReceivedControlPacket :: "(bytes \<Rightarrow> bytes) \<Rightarrow> (bytes \<Rightarrow> bytes) \<Rightarrow> BfdControlPacket \<Rightarrow> BfdSession \<Rightarrow> bool bres" where
  "AuthenticateReceivedControlPacket md5 sha1 p s =
     (if \<not> CP_AuthPresent p then Inr True
      else case CP_AuthHeader p of
        None \<Rightarrow> Inl Panic
      | Some h \<Rightarrow>
          Inr (if BA_Type h = B_authType s then
                 if BA_Type h = BFD_AUTH_TYPE_SIMPLE then ucast (BA_AuthKeyID h) = B_authKeyId s \<and> BA_AuthData h = B_authData s
                 else if BA_SequenceNumber h \<ge> ReceivedAuthSeq (B_state s) \<and> ucast (BA_AuthKeyID h) = B_authKeyId s then
                   let buf = written_packet (p\<lparr>CP_AuthHeader := Some (h\<lparr>BA_AuthData := B_authData s\<rparr>)\<rparr>) in
                   if is_md5 (BA_Type h) then BA_AuthData h = md5 buf
                   else if is_sha1 (BA_Type h) then BA_AuthData h = sha1 buf
                   else False
                 else False
               else False))"

definition CheckAnyRemoteParamChanged :: "BfdControlPacket \<Rightarrow> BfdSession \<Rightarrow> BfdSession" where
  "CheckAnyRemoteParamChanged p s =
     (let t = B_state s;
          changed = (RemoteSessionState t \<noteq> CP_State p \<or> RemoteDiscriminator t \<noteq> CP_MyDiscriminator p \<or>
                     RemoteMinRxInterval t \<noteq> ucast (CP_RequiredMinRxInterval p))
      in on_state (\<lambda>t. t\<lparr>RemoteSessionState := CP_State p, RemoteDiscriminator := CP_MyDiscriminator p,
           RemoteMinRxInterval := ucast (CP_RequiredMinRxInterval p), RemoteDetectionMultiplier := ucast (CP_DetectMult p)\<rparr>)
         (if changed then s\<lparr>B_remoteParamChanged := True\<rparr> else s))"

definition RemoteChangedDemandMode :: "BfdControlPacket \<Rightarrow> session_op" where
  "RemoteChangedDemandMode p s =
     (let was = RemoteDemandMode (B_state s); s = on_state (\<lambda>t. t\<lparr>RemoteDemandMode := CP_Demand p\<rparr>) s in
      if CP_Demand p then tx_timer (\<lambda>_. Stopped) s
      else if was then tx_timer (\<lambda>s. Armed (sint (ApplyTxJitter s))) s
      else Inr s)"

definition InitiatePollSequence :: "BfdSession \<Rightarrow> BfdSession" where
  "InitiatePollSequence s = (if \<not> B_pollSequence s then s\<lparr>B_pollSequence := True, B_pollChanged := True\<rparr> else s)"

definition ProcessPollSequence :: "BfdControlPacket \<Rightarrow> BfdSession \<Rightarrow> BfdSession" where
  "ProcessPollSequence p s =
     (if session_state s \<noteq> STATE_ADMIN_DOWN then
        let s = (if CP_Poll p then s\<lparr>B_pollSequenceFinal := True, B_pollChanged := True\<rparr> else s)
        in if CP_Final p then s\<lparr>B_pollSequence := False, B_pollChanged := True\<rparr> else s
      else s)"

definition set_rx_interval :: "BfdControlPacket \<Rightarrow> BfdSession \<Rightarrow> BfdSession" where
  "set_rx_interval p s =
     s\<lparr>B_rxInterval :=
         (if session_state s = STATE_UP \<and> remote_state s = STATE_UP
          then div32 (ucast (CP_DesiredMinTxInterval p) * ucast (CP_DetectMult p)) 1000
          else div32 (STARTUP_RX_INTERVAL * ucast (CP_DetectMult p)) 1000)\<rparr>"

definition stop_if_idle :: session_op where
  "stop_if_idle s =
     (if B_rxInterval s = 0 \<or> session_state s = STATE_ADMIN_DOWN \<or> remote_state s = STATE_ADMIN_DOWN
      then session_timer (\<lambda>_. Stopped) s else Inr s)"

text \<open>What the state of the peer means, and what is adapted before the event is handled.\<close>

fun remote_event :: "BfdSessionState \<Rightarrow> BfdSessionEvent" where
  "remote_event STATE_DOWN = REMOTE_DOWN"
| "remote_event STATE_INIT = REMOTE_INIT"
| "remote_event STATE_UP = REMOTE_UP"
| "remote_event STATE_ADMIN_DOWN = REMOTE_ADMIN_DOWN"

definition adapt_to_remote :: session_op where
  "adapt_to_remote s =
     (case remote_state s of
        STATE_DOWN \<Rightarrow> Inr (if session_state s \<noteq> STATE_DOWN then on_state (\<lambda>t. t\<lparr>LocalDiagType := DIAG_NEIGHBOR_SIGNAL_DOWN\<rparr>) s else s)
      | STATE_UP \<Rightarrow>
          let tx = div32 (DesiredMinTxInterval (B_state s)) 1000 in
          if session_state s = STATE_UP \<and> B_txInterval s \<noteq> tx then tx_timer (\<lambda>_. Armed 0) (s\<lparr>B_txInterval := tx\<rparr>)
          else Inr s
      | _ \<Rightarrow> Inr s)"

definition handle_remote :: session_op where
  "handle_remote s = EventHandler (remote_event (remote_state s)) s"

definition accept_packet :: "BfdControlPacket \<Rightarrow> session_op" where
  "accept_packet p =
     seq_ops [upd (set_rx_interval p), upd (CheckAnyRemoteParamChanged p), RemoteChangedDemandMode p, upd (ProcessPollSequence p),
       stop_if_idle, adapt_to_remote, handle_remote]"

definition ProcessBfdPacket :: "(bytes \<Rightarrow> bytes) \<Rightarrow> (bytes \<Rightarrow> bytes) \<Rightarrow> BfdControlPacket \<Rightarrow> session_op" where
  "ProcessBfdPacket md5 sha1 p s =
     bind_r (AuthenticateReceivedControlPacket md5 sha1 p s) (\<lambda>authenticated.
     if \<not> authenticated \<or> \<not> CanProcessBfdControlPacket p then Inr s else accept_packet p s)"

section \<open>Sending\<close>

definition demand_timer :: "bool \<Rightarrow> session_op" where
  "demand_timer was s =
     (if \<not> was \<and> CP_Demand (B_bfdPacket s) then session_timer (\<lambda>_. Stopped) s
      else if was \<and> \<not> CP_Demand (B_bfdPacket s) then session_timer rx_ms s
      else Inr s)"

definition up_intervals :: session_op where
  "up_intervals s =
     (let p = B_bfdPacket s; t = B_state s;
          s = (if CP_DesiredMinTxInterval p = STARTUP_TX_INTERVAL \<or> CP_RequiredMinRxInterval p = STARTUP_RX_INTERVAL
               then InitiatePollSequence (s\<lparr>B_bfdPacket := p\<lparr>CP_DesiredMinTxInterval := scast (DesiredMinTxInterval t),
                      CP_RequiredMinRxInterval := scast (RequiredMinRxInterval t)\<rparr>\<rparr>)
               else s);
          was = CP_Demand (B_bfdPacket s)
      in demand_timer was (s\<lparr>B_bfdPacket := (B_bfdPacket s)\<lparr>CP_Demand := DemandMode (B_state s)\<rparr>\<rparr>))"

definition startup_intervals :: "BfdSession \<Rightarrow> BfdSession" where
  "startup_intervals s =
     s\<lparr>B_bfdPacket := (B_bfdPacket s)\<lparr>CP_DesiredMinTxInterval := STARTUP_TX_INTERVAL, CP_RequiredMinRxInterval := STARTUP_RX_INTERVAL\<rparr>\<rparr>"

text \<open>The header of the authentication section is never made, so its fields are set through a nil pointer.\<close>

definition fill_auth :: session_op where
  "fill_auth s =
     (let p = B_bfdPacket s; t = B_authType s in
      if B_authEnabled s then
        (case CP_AuthHeader p of
           None \<Rightarrow> Inl Panic
         | Some h \<Rightarrow>
             let h = h\<lparr>BA_Type := t\<rparr>;
                 h = (if t \<noteq> BFD_AUTH_TYPE_SIMPLE then h\<lparr>BA_SequenceNumber := B_authSeqNum s\<rparr> else h);
                 s = (if t = BFD_AUTH_TYPE_METICULOUS_MD5 \<or> t = BFD_AUTH_TYPE_METICULOUS_SHA1 then s\<lparr>B_authSeqNum := B_authSeqNum s + 1\<rparr> else s);
                 h = h\<lparr>BA_AuthKeyID := ucast (B_authKeyId s), BA_AuthData := B_authData s\<rparr>
             in Inr (s\<lparr>B_bfdPacket := p\<lparr>CP_AuthPresent := True, CP_AuthHeader := Some h\<rparr>\<rparr>))
      else Inr (s\<lparr>B_bfdPacket := p\<lparr>CP_AuthPresent := False\<rparr>\<rparr>))"

definition copy_state :: "BfdSession \<Rightarrow> BfdSession" where
  "copy_state s =
     (let t = B_state s in
      s\<lparr>B_bfdPacket := (B_bfdPacket s)\<lparr>CP_Diagnostic := LocalDiagType t, CP_State := LocalState t,
          CP_DetectMult := ucast (DetectionMultiplier t), CP_MyDiscriminator := LocalDiscriminator t,
          CP_YourDiscriminator := RemoteDiscriminator t\<rparr>\<rparr>)"

definition copy_poll :: "BfdSession \<Rightarrow> BfdSession" where
  "copy_poll s =
     s\<lparr>B_bfdPacket := (B_bfdPacket s)\<lparr>CP_Poll := B_pollSequence s, CP_Final := B_pollSequenceFinal s\<rparr>,
       B_pollSequence := False, B_pollSequenceFinal := False\<rparr>"

definition UpdateBfdSessionControlPacket :: session_op where
  "UpdateBfdSessionControlPacket =
     seq_ops [upd copy_state,
       (\<lambda>s. if session_state s = STATE_UP \<and> remote_state s = STATE_UP then up_intervals s else Inr (startup_intervals s)),
       upd copy_poll, fill_auth,
       upd (\<lambda>s. s\<lparr>B_pollChanged := False, B_paramChanged := False, B_stateChanged := False, B_remoteParamChanged := False\<rparr>)]"

definition NeedBfdPacketUpdate :: "BfdSession \<Rightarrow> bool" where
  "NeedBfdPacketUpdate s \<longleftrightarrow> B_paramChanged s \<or> B_remoteParamChanged s \<or> B_pollChanged s \<or> B_stateChanged s"

definition renew_packet :: "(bytes \<Rightarrow> bytes) \<Rightarrow> (bytes \<Rightarrow> bytes) \<Rightarrow> session_op" where
  "renew_packet md5 sha1 =
     seq_ops [UpdateBfdSessionControlPacket, upd (\<lambda>s. s\<lparr>B_bfdPacketBuf := CreateBfdControlPacket md5 sha1 (B_bfdPacket s)\<rparr>)]"

definition write_packet :: "bool \<Rightarrow> BfdSession \<Rightarrow> BfdSession" where
  "write_packet ok s =
     (if ok then on_state (\<lambda>t. t\<lparr>NumTxPackets := NumTxPackets t + 1\<rparr>) (s\<lparr>B_sent := B_sent s @ [B_bfdPacketBuf s]\<rparr>) else s)"

definition set_tx_interval :: "BfdSession \<Rightarrow> BfdSession" where
  "set_tx_interval s =
     (if session_state s = STATE_UP \<or> remote_state s = STATE_UP
      then s\<lparr>B_txInterval := div32 (DesiredMinTxInterval (B_state s)) 1000\<rparr> else s)"

definition SendPeriodicControlPackets :: "(bytes \<Rightarrow> bytes) \<Rightarrow> (bytes \<Rightarrow> bytes) \<Rightarrow> bool \<Rightarrow> session_op" where
  "SendPeriodicControlPackets md5 sha1 ok s =
     (let packetUpdated = NeedBfdPacketUpdate s; renew = (if packetUpdated then renew_packet md5 sha1 else Inr) in
      seq_ops [renew, upd (write_packet ok), renew,
        upd set_tx_interval,
        tx_timer (\<lambda>s. Armed (sint (ApplyTxJitter s)))] s)"

section \<open>Timeouts and administration\<close>

definition ResetRemoteSessionParams :: "BfdSession \<Rightarrow> BfdSession" where
  "ResetRemoteSessionParams s =
     on_state (\<lambda>t. t\<lparr>RemoteDiscriminator := 0, RemoteSessionState := STATE_DOWN\<rparr>) (s\<lparr>B_remoteParamChanged := True\<rparr>)"

definition HandleSessionTimeout :: session_op where
  "HandleSessionTimeout =
     seq_ops [upd (\<lambda>s. if B_movedToDownState s then (ResetRemoteSessionParams s)\<lparr>B_movedToDownState := False\<rparr> else s),
       upd (on_state (\<lambda>t. t\<lparr>LocalDiagType := DIAG_TIME_EXPIRED\<rparr>)), EventHandler TIMEOUT, session_timer rx_ms]"

definition StopBfdSession :: session_op where
  "StopBfdSession = seq_ops [EventHandler ADMIN_DOWN, upd (on_state (\<lambda>t. t\<lparr>LocalDiagType := DIAG_ADMIN_DOWN\<rparr>))]"

definition StartBfdSession :: session_op where
  "StartBfdSession =
     seq_ops [session_timer rx_ms, tx_timer (\<lambda>s. Armed (sint (ApplyTxJitter s))),
       upd (on_state (\<lambda>t. t\<lparr>LocalState := STATE_DOWN\<rparr>)), EventHandler ADMIN_UP]"

definition ResetLocalSessionParams :: "BfdSession \<Rightarrow> BfdSession" where
  "ResetLocalSessionParams =
     on_state (\<lambda>t. t\<lparr>LocalState := STATE_DOWN, NumRxPackets := 0, NumTxPackets := 0, ToUpCount := 0, ToDownCount := 0\<rparr>)"

text \<open>The protocols are numbered from 1 to 4.\<close>

definition CheckIfAnyProtocolRegistered :: "BfdSession \<Rightarrow> bool" where
  "CheckIfAnyProtocolRegistered s \<longleftrightarrow> list_ex (\<lambda>i. RegisteredProtocols (B_state s) ! i) [1..<5]"

text \<open>The client of a session, when the socket could be opened, makes both timers.\<close>

definition StartSessionClient :: "BfdSession \<Rightarrow> BfdSession" where
  "StartSessionClient s =
     s\<lparr>B_txTimer := Armed (sint (B_txInterval s)), B_sessionTimer := rx_ms s, B_isClientActive := True\<rparr>"

text \<open>
  The receiver resets the session timer and puts the packet into the queue of the session, unless the session is not active or its
  interval is 0. The server of the session takes the packets from the queue.
\<close>

definition dispatch_to_session :: "BfdControlPacket \<Rightarrow> BfdSession \<Rightarrow> BfdSession" where
  "dispatch_to_session p s =
     (if IsSessionActive s \<and> B_rxInterval s \<noteq> 0 \<and> B_sessionTimer s \<noteq> NoTimer
      then s\<lparr>B_sessionTimer := rx_ms s, B_ReceivedPacketCh := B_ReceivedPacketCh s @ [p]\<rparr> else s)"

definition StartSessionServer :: "(bytes \<Rightarrow> bytes) \<Rightarrow> (bytes \<Rightarrow> bytes) \<Rightarrow> session_op" where
  "StartSessionServer md5 sha1 s =
     (case B_ReceivedPacketCh s of
        [] \<Rightarrow> Inr s
      | p # q \<Rightarrow>
          seq_ops [upd (\<lambda>s. s\<lparr>B_ReceivedPacketCh := q\<rparr>), upd (on_state (\<lambda>t. t\<lparr>NumRxPackets := NumRxPackets t + 1\<rparr>)),
            ProcessBfdPacket md5 sha1 p] s)"

section \<open>Parameters\<close>

record SessionParamState =
  SP_Name :: string
  SP_NumSessions :: i32
  SP_LocalMultiplier :: i32
  SP_DesiredMinTxInterval :: i32
  SP_RequiredMinRxInterval :: i32
  SP_RequiredMinEchoRxInterval :: i32
  SP_DemandEnabled :: bool
  SP_AuthenticationEnabled :: bool
  SP_AuthenticationType :: u8
  SP_AuthenticationKeyId :: i32
  SP_AuthenticationData :: bytes

text \<open>What \<open>UpdateBfdSessionsUsingParam\<close> does to one session: the parameters changed, or they are gone.\<close>

definition take_param :: "SessionParamState \<Rightarrow> BfdSession \<Rightarrow> BfdSession" where
  "take_param q s =
     (on_state (\<lambda>t. t\<lparr>DesiredMinTxInterval := SP_DesiredMinTxInterval q, RequiredMinRxInterval := SP_RequiredMinRxInterval q,
        DetectionMultiplier := SP_LocalMultiplier q, DemandMode := SP_DemandEnabled q\<rparr>) s)
     \<lparr>B_authEnabled := SP_AuthenticationEnabled q, B_authType := SP_AuthenticationType q, B_authKeyId := SP_AuthenticationKeyId q,
      B_authData := SP_AuthenticationData q\<rparr>"

definition default_param :: "BfdSession \<Rightarrow> BfdSession" where
  "default_param s =
     (on_state (\<lambda>t. t\<lparr>DesiredMinTxInterval := DEFAULT_DESIRED_MIN_TX_INTERVAL, RequiredMinRxInterval := DEFAULT_REQUIRED_MIN_RX_INTERVAL,
        DetectionMultiplier := ucast DEFAULT_DETECT_MULTI, DemandMode := False\<rparr>) s)\<lparr>B_authEnabled := False\<rparr>"

definition use_param :: "SessionParamState option \<Rightarrow> BfdSession \<Rightarrow> BfdSession" where
  "use_param q s =
     InitiatePollSequence ((case q of Some q \<Rightarrow> take_param q s | None \<Rightarrow> default_param s)\<lparr>B_paramChanged := True\<rparr>)"

definition NewBfdControlPacketDefault :: BfdControlPacket where
  "NewBfdControlPacketDefault =
     \<lparr>CP_Version = DEFAULT_BFD_VERSION, CP_Diagnostic = DIAG_NONE, CP_State = STATE_DOWN, CP_Poll = False, CP_Final = False,
      CP_ControlPlaneIndependent = False, CP_AuthPresent = False, CP_Demand = False, CP_Multipoint = False,
      CP_DetectMult = DEFAULT_DETECT_MULTI, CP_MyDiscriminator = 0, CP_YourDiscriminator = 0,
      CP_DesiredMinTxInterval = DEFAULT_DESIRED_MIN_TX_INTERVAL, CP_RequiredMinRxInterval = DEFAULT_REQUIRED_MIN_RX_INTERVAL,
      CP_RequiredMinEchoRxInterval = 0, CP_AuthHeader = None\<rparr>"

text \<open>The session that \<open>NewNormalBfdSession\<close> makes, with the addresses of the interface (\<open>mac\<close>) and of the group (\<open>group_mac\<close>).\<close>

definition new_session ::
    "i32 \<Rightarrow> string \<Rightarrow> string \<Rightarrow> string \<Rightarrow> bool \<Rightarrow> bytes \<Rightarrow> bytes \<Rightarrow> bool list \<Rightarrow> i32 \<Rightarrow> string \<Rightarrow> SessionParamState \<Rightarrow> BfdSession" where
  "new_session sid DestIp LocalIp intf PerLink mac group_mac protocols jitter name q =
     \<lparr>B_state = \<lparr>IpAddr = DestIp, LocalAddr = LocalIp, SessionId = sid, ParamName = name, Interface = intf, InterfaceSpecific = False,
        PerLinkSession = PerLink, LocalMacAddr = (if PerLink then mac else []), RemoteMacAddr = (if PerLink then group_mac else []),
        RegisteredProtocols = protocols, LocalState = STATE_DOWN, RemoteSessionState = STATE_DOWN, LocalDiscriminator = sid,
        RemoteDiscriminator = 0, LocalDiagType = DIAG_NONE, DesiredMinTxInterval = SP_DesiredMinTxInterval q,
        RequiredMinRxInterval = SP_RequiredMinRxInterval q, RemoteMinRxInterval = 0, DetectionMultiplier = SP_LocalMultiplier q,
        RemoteDetectionMultiplier = 0, DemandMode = SP_DemandEnabled q, RemoteDemandMode = False, ReceivedAuthSeq = 0,
        NumTxPackets = 0, NumRxPackets = 0, ToDownCount = 0, ToUpCount = 0\<rparr>,
      B_rxInterval = div32 (STARTUP_RX_INTERVAL * SP_LocalMultiplier q) 1000, B_sessionTimer = NoTimer, B_txInterval = 2000,
      B_txTimer = NoTimer, B_txJitter = jitter, B_bfdPacket = NewBfdControlPacketDefault, B_bfdPacketBuf = [], B_ReceivedPacketCh = [],
      B_pollSequence = False, B_pollSequenceFinal = False, B_pollChanged = False, B_authEnabled = SP_AuthenticationEnabled q,
      B_authType = SP_AuthenticationType q, B_authSeqNum = 1, B_authKeyId = SP_AuthenticationKeyId q,
      B_authData = SP_AuthenticationData q, B_useDedicatedMac = PerLink, B_paramChanged = True, B_remoteParamChanged = False,
      B_stateChanged = False, B_isClientActive = False, B_movedToDownState = False, B_notifiedState = False, B_notifications = [],
      B_sent = []\<rparr>"

section \<open>Runs of a session\<close>

text \<open>
  A session reacts to a datagram (\<open>Arrive\<close>), to a packet in its queue (\<open>Serve\<close>), to its two timers while they run, and to the commands of
  the server. Each reaction is one step; the locking of the code does not always enforce this.
\<close>

datatype session_input =
    Arrive bytes
  | Serve
  | Tx bool
  | Expire
  | Start
  | Stop
  | Params "SessionParamState option"

definition session_step :: "(bytes \<Rightarrow> bytes) \<Rightarrow> (bytes \<Rightarrow> bytes) \<Rightarrow> session_input \<Rightarrow> session_op" where
  "session_step md5 sha1 i s =
     (case i of
        Arrive data \<Rightarrow>
          if length data \<ge> DEFAULT_CONTROL_PACKET_LEN
          then (case DecodeBfdControlPacket data of Inr p \<Rightarrow> Inr (dispatch_to_session p s) | Inl (Error _) \<Rightarrow> Inr s | Inl e \<Rightarrow> Inl e)
          else Inr s
      | Serve \<Rightarrow> StartSessionServer md5 sha1 s
      | Tx ok \<Rightarrow> (case B_txTimer s of Armed _ \<Rightarrow> SendPeriodicControlPackets md5 sha1 ok s | _ \<Rightarrow> Inr s)
      | Expire \<Rightarrow> (case B_sessionTimer s of Armed _ \<Rightarrow> HandleSessionTimeout s | _ \<Rightarrow> Inr s)
      | Start \<Rightarrow> StartBfdSession s
      | Stop \<Rightarrow> StopBfdSession s
      | Params q \<Rightarrow> Inr (use_param q s))"

end
