(* ===== verification/BfdInv.thy ===== *)
theory BfdInv
  imports BfdSession
begin

text \<open>
  The invariant of a BFD session, the diagram of its states that it refines, and the exchange that brings two sessions up.
\<close>

section \<open>Invariant\<close>

definition holds :: "('s \<Rightarrow> bool) \<Rightarrow> ('e, 's) result \<Rightarrow> bool" where
  "holds P r \<longleftrightarrow> (case r of Inr s \<Rightarrow> P s | Inl _ \<Rightarrow> False)"

lemma holds_simps [simp]: "holds P (Inr s) = P s" "holds P (Inl e) = False"
  by (simp_all add: holds_def)

lemma holds_bind: "holds Q r \<Longrightarrow> (\<And>s. Q s \<Longrightarrow> holds P (f s)) \<Longrightarrow> holds P (bind_r r f)"
  by (cases r) auto

lemma holds_mono: "holds Q r \<Longrightarrow> (\<And>s. Q s \<Longrightarrow> P s) \<Longrightarrow> holds P r"
  by (cases r) auto

text \<open>What the clients were told last; they start with a session that is down.\<close>

definition told :: "BfdSession \<Rightarrow> bool" where
  "told s \<longleftrightarrow> B_notifications s \<noteq> [] \<and> snd (last (B_notifications s))"

fun alternating :: "bool \<Rightarrow> bool list \<Rightarrow> bool" where
  "alternating b [] \<longleftrightarrow> True"
| "alternating b (x # xs) \<longleftrightarrow> x \<noteq> b \<and> alternating x xs"

lemma alternating_append: "alternating b (xs @ [x]) \<longleftrightarrow> alternating b xs \<and> x \<noteq> last (b # xs)"
  by (induction xs arbitrary: b) auto

lemma alternating_snoc:
  "alternating False (map snd ns @ [x]) \<longleftrightarrow> alternating False (map snd ns) \<and> x \<noteq> (ns \<noteq> [] \<and> snd (last ns))"
  by (simp add: alternating_append last_map)

text \<open>The packet in a session carries no authentication section and fits its fields.\<close>

definition plain_packet :: "BfdControlPacket \<Rightarrow> bool" where
  "plain_packet p \<longleftrightarrow> wf_packet p \<and> CP_Version p = 1 \<and> \<not> CP_Multipoint p \<and> CP_AuthHeader p = None"

definition packet_current :: "BfdSession \<Rightarrow> bool" where
  "packet_current s \<longleftrightarrow>
     CP_State (B_bfdPacket s) = session_state s \<and> CP_MyDiscriminator (B_bfdPacket s) = LocalDiscriminator (B_state s) \<and>
     CP_YourDiscriminator (B_bfdPacket s) = RemoteDiscriminator (B_state s) \<and>
     CP_DetectMult (B_bfdPacket s) = ucast (DetectionMultiplier (B_state s))"

definition param_ok :: "SessionParamState option \<Rightarrow> bool" where
  "param_ok q \<longleftrightarrow>
     (case q of Some q \<Rightarrow> \<not> SP_AuthenticationEnabled q \<and> 0 \<le> sint (SP_DesiredMinTxInterval q) \<and> 0 \<le> sint (SP_RequiredMinRxInterval q)
      | None \<Rightarrow> True)"

definition running :: "BfdSession \<Rightarrow> bool" where
  "running s \<longleftrightarrow> B_isClientActive s \<and> B_sessionTimer s \<noteq> NoTimer \<and> B_txTimer s \<noteq> NoTimer \<and> \<not> B_authEnabled s"

definition consistent :: "BfdSession \<Rightarrow> bool" where
  "consistent s \<longleftrightarrow>
     B_notifiedState s = told s \<and> alternating False (map snd (B_notifications s)) \<and>
     (\<forall>n\<in>set (B_notifications s). fst n = IpAddr (B_state s))"

definition reported :: "BfdSession \<Rightarrow> bool" where
  "reported s \<longleftrightarrow> consistent s \<and> (GetBfdSessionNotification s \<longrightarrow> told s)"

definition packets_ok :: "(bytes \<Rightarrow> bytes) \<Rightarrow> (bytes \<Rightarrow> bytes) \<Rightarrow> BfdSession \<Rightarrow> bool" where
  "packets_ok md5 sha1 s \<longleftrightarrow>
     plain_packet (B_bfdPacket s) \<and> 0 \<le> LocalDiagType (B_state s) \<and> LocalDiagType (B_state s) < 32 \<and>
     0 \<le> sint (DesiredMinTxInterval (B_state s)) \<and> 0 \<le> sint (RequiredMinRxInterval (B_state s)) \<and>
     (\<not> NeedBfdPacketUpdate s \<longrightarrow> B_bfdPacketBuf s = CreateBfdControlPacket md5 sha1 (B_bfdPacket s) \<and> packet_current s) \<and>
     (\<forall>b\<in>set (B_sent s). \<exists>p. plain_packet p \<and> b = CreateBfdControlPacket md5 sha1 p \<and>
        CP_MyDiscriminator p = LocalDiscriminator (B_state s)) \<and>
     (\<forall>p\<in>set (B_ReceivedPacketCh s). CP_AuthPresent p \<longrightarrow> CP_AuthHeader p \<noteq> None)"

definition session_inv :: "(bytes \<Rightarrow> bytes) \<Rightarrow> (bytes \<Rightarrow> bytes) \<Rightarrow> BfdSession \<Rightarrow> bool" where
  "session_inv md5 sha1 s \<longleftrightarrow> running s \<and> reported s \<and> packets_ok md5 sha1 s"

section \<open>State changes\<close>

lemma timer_ops:
  "B_sessionTimer s \<noteq> NoTimer \<Longrightarrow> session_timer new s = Inr (s\<lparr>B_sessionTimer := new s\<rparr>)"
  "B_txTimer s \<noteq> NoTimer \<Longrightarrow> tx_timer new s = Inr (s\<lparr>B_txTimer := new s\<rparr>)"
  by (cases "B_sessionTimer s"; simp add: session_timer_def timer_set_def)
    (cases "B_txTimer s"; simp add: tx_timer_def timer_set_def)

lemma notification_fields [simp]:
  "B_state (SendBfdNotification s) = B_state s" "B_sessionTimer (SendBfdNotification s) = B_sessionTimer s"
  "B_txTimer (SendBfdNotification s) = B_txTimer s" "B_isClientActive (SendBfdNotification s) = B_isClientActive s"
  "B_authEnabled (SendBfdNotification s) = B_authEnabled s" "B_bfdPacket (SendBfdNotification s) = B_bfdPacket s"
  "B_bfdPacketBuf (SendBfdNotification s) = B_bfdPacketBuf s" "B_sent (SendBfdNotification s) = B_sent s"
  "B_ReceivedPacketCh (SendBfdNotification s) = B_ReceivedPacketCh s" "B_stateChanged (SendBfdNotification s) = B_stateChanged s"
  "B_remoteParamChanged (SendBfdNotification s) = B_remoteParamChanged s" "B_paramChanged (SendBfdNotification s) = B_paramChanged s"
  "B_pollChanged (SendBfdNotification s) = B_pollChanged s" "B_txInterval (SendBfdNotification s) = B_txInterval s"
  "B_rxInterval (SendBfdNotification s) = B_rxInterval s" "B_movedToDownState (SendBfdNotification s) = B_movedToDownState s"
  by (simp_all add: SendBfdNotification_def Let_def)

lemma SendBfdNotification_told:
  assumes "consistent s"
  shows "consistent (SendBfdNotification s)" "told (SendBfdNotification s) = GetBfdSessionNotification s"
  using assms by (auto simp: SendBfdNotification_def consistent_def told_def Let_def alternating_snoc)

lemma consistent_cong:
  "B_notifiedState s' = B_notifiedState s \<Longrightarrow> B_notifications s' = B_notifications s \<Longrightarrow> IpAddr (B_state s') = IpAddr (B_state s) \<Longrightarrow>
   consistent s' = consistent s \<and> told s' = told s"
  by (simp add: consistent_def told_def)

lemma count_keyed_fields [simp]:
  "B_state (count_keyed s) = B_state s" "B_sessionTimer (count_keyed s) = B_sessionTimer s"
  "B_txTimer (count_keyed s) = B_txTimer s" "B_isClientActive (count_keyed s) = B_isClientActive s"
  "B_authEnabled (count_keyed s) = B_authEnabled s" "B_bfdPacket (count_keyed s) = B_bfdPacket s"
  "B_bfdPacketBuf (count_keyed s) = B_bfdPacketBuf s" "B_sent (count_keyed s) = B_sent s"
  "B_ReceivedPacketCh (count_keyed s) = B_ReceivedPacketCh s" "B_stateChanged (count_keyed s) = B_stateChanged s"
  "B_notifiedState (count_keyed s) = B_notifiedState s" "B_notifications (count_keyed s) = B_notifications s"
  "B_movedToDownState (count_keyed s) = B_movedToDownState s"
  by (simp_all add: count_keyed_def)

text \<open>A change of the state that keeps the rest: the packet is marked for renewal, or nothing it carries has changed.\<close>

definition frame :: "BfdSession \<Rightarrow> BfdSession \<Rightarrow> bool" where
  "frame s s' \<longleftrightarrow>
     B_bfdPacket s' = B_bfdPacket s \<and> B_bfdPacketBuf s' = B_bfdPacketBuf s \<and> B_sent s' = B_sent s \<and>
     B_ReceivedPacketCh s' = B_ReceivedPacketCh s \<and> LocalDiscriminator (B_state s') = LocalDiscriminator (B_state s) \<and>
     DesiredMinTxInterval (B_state s') = DesiredMinTxInterval (B_state s) \<and>
     RequiredMinRxInterval (B_state s') = RequiredMinRxInterval (B_state s) \<and>
     DetectionMultiplier (B_state s') = DetectionMultiplier (B_state s)"

definition marked :: "BfdSession \<Rightarrow> BfdSession \<Rightarrow> bool" where
  "marked s s' \<longleftrightarrow>
     NeedBfdPacketUpdate s' \<or> \<not> NeedBfdPacketUpdate s \<and> session_state s' = session_state s \<and>
       RemoteDiscriminator (B_state s') = RemoteDiscriminator (B_state s)"

definition goes_on :: "BfdSession \<Rightarrow> BfdSession \<Rightarrow> bool" where
  "goes_on s s' \<longleftrightarrow>
     running s' \<and> consistent s' \<and> frame s s' \<and> marked s s' \<and>
     (LocalDiagType (B_state s') = LocalDiagType (B_state s) \<or> LocalDiagType (B_state s') \<in> {0, 1, 3, 7})"

lemma keeps_packets: "packets_ok md5 sha1 s \<Longrightarrow> goes_on s s' \<Longrightarrow> packets_ok md5 sha1 s'"
  by (auto simp: packets_ok_def goes_on_def packet_current_def frame_def marked_def)

lemma keeps_inv:
  "session_inv md5 sha1 s \<Longrightarrow> goes_on s s' \<Longrightarrow> (GetBfdSessionNotification s' \<Longrightarrow> told s') \<Longrightarrow> session_inv md5 sha1 s'"
  using keeps_packets by (auto simp: session_inv_def reported_def goes_on_def)

lemma keeps_refl: "running s \<Longrightarrow> consistent s \<Longrightarrow> goes_on s s"
  by (simp add: goes_on_def frame_def marked_def)

lemma keeps_trans: "goes_on s s' \<Longrightarrow> goes_on s' s'' \<Longrightarrow> goes_on s s''"
  unfolding goes_on_def frame_def marked_def by auto

text \<open>The last step of a state change tells the clients.\<close>

definition settled :: "BfdSession \<Rightarrow> BfdSessionState \<Rightarrow> BfdSession \<Rightarrow> bool" where
  "settled s st s' \<longleftrightarrow> goes_on s s' \<and> session_state s' = st \<and> remote_state s' = remote_state s \<and> told s' = GetBfdSessionNotification s'"

lemmas change_defs = upd_def on_state_def timer_ops set_rx_startup_def set_tx_startup_def

lemma MoveToUpState_ok:
  assumes "running s" "consistent s"
  shows "holds (settled s STATE_UP) (MoveToUpState s)"
proof -
  define s' where "s' = s\<lparr>B_stateChanged := True, B_movedToDownState := False,
    B_state := (B_state s)\<lparr>LocalState := STATE_UP, ToUpCount := ToUpCount (B_state s) + 1, LocalDiagType := DIAG_NONE\<rparr>\<rparr>"
  have "consistent s'" using assms(2) consistent_cong [of s' s] by (simp add: s'_def)
  note n = SendBfdNotification_told [OF this]
  have "MoveToUpState s = Inr (SendBfdNotification s')"
    by (simp add: MoveToUpState_def change_defs s'_def)
  then show ?thesis using n assms
    by (simp add: settled_def goes_on_def frame_def marked_def running_def NeedBfdPacketUpdate_def GetBfdSessionNotification_def)
      (simp add: s'_def)
qed

lemma MoveToInitState_ok:
  assumes "running s" "consistent s" "session_state s = STATE_DOWN"
  shows "holds (\<lambda>s'. goes_on s s' \<and> session_state s' = STATE_INIT \<and> remote_state s' = remote_state s \<and> told s' = told s) (MoveToInitState s)"
  using assms
  by (simp add: MoveToInitState_def change_defs goes_on_def frame_def marked_def running_def NeedBfdPacketUpdate_def consistent_def told_def)

text \<open>The common end of the other state changes: tell the clients, set the intervals and the timers.\<close>

definition report_and_reset :: "(BfdSession \<Rightarrow> Timer) \<Rightarrow> (BfdSession \<Rightarrow> Timer) \<Rightarrow> session_op" where
  "report_and_reset f g = seq_ops [upd SendBfdNotification, upd set_tx_startup, tx_timer f, upd set_rx_startup, session_timer g]"

lemma report_and_reset_ok:
  assumes "running s" "consistent s" "\<And>x. f x \<noteq> NoTimer" "\<And>x. g x \<noteq> NoTimer"
  shows "holds (\<lambda>s'. running s' \<and> consistent s' \<and> frame s s' \<and> B_state s' = B_state s \<and> NeedBfdPacketUpdate s' = NeedBfdPacketUpdate s \<and>
    told s' = GetBfdSessionNotification s \<and> B_movedToDownState s' = B_movedToDownState s) (report_and_reset f g s)"
proof -
  let ?n = "SendBfdNotification s"
  note n = SendBfdNotification_told [OF assms(2)]
  let ?t = "?n\<lparr>B_txInterval := 2000, B_txTimer := f (?n\<lparr>B_txInterval := 2000\<rparr>),
    B_rxInterval := div32 (STARTUP_RX_INTERVAL * DetectionMultiplier (B_state s)) 1000\<rparr>"
  have "report_and_reset f g s = Inr (?t\<lparr>B_sessionTimer := g ?t\<rparr>)"
    using assms(1) by (simp add: report_and_reset_def change_defs running_def)
  moreover have "consistent (?t\<lparr>B_sessionTimer := g ?t\<rparr>)" "told (?t\<lparr>B_sessionTimer := g ?t\<rparr>) = GetBfdSessionNotification s"
    using n consistent_cong [of "?t\<lparr>B_sessionTimer := g ?t\<rparr>" ?n] by simp_all
  ultimately show ?thesis
    using assms(1,3,4) by (simp add: running_def frame_def NeedBfdPacketUpdate_def)
qed

lemma frame_trans: "frame s s' \<Longrightarrow> frame s' s'' \<Longrightarrow> frame s s''"
  by (simp add: frame_def)

text \<open>A change of the state alone, followed by that end.\<close>

lemma report_settled:
  assumes "running s'" "consistent s'" "frame s s'" "marked s s'" "LocalDiagType (B_state s') = LocalDiagType (B_state s) \<or> LocalDiagType (B_state s') \<in> {0, 1, 3, 7}"
    and "\<And>x. f x \<noteq> NoTimer" "\<And>x. g x \<noteq> NoTimer"
  shows "holds (\<lambda>s''. goes_on s s'' \<and> B_state s'' = B_state s' \<and> told s'' = GetBfdSessionNotification s'' \<and> B_movedToDownState s'' = B_movedToDownState s' \<and>
      NeedBfdPacketUpdate s'' = NeedBfdPacketUpdate s') (report_and_reset f g s')"
proof (rule holds_mono [OF report_and_reset_ok [OF assms(1,2,6,7)]], elim conjE, intro conjI)
  fix t
  assume t: "running t" "consistent t" "frame s' t" "B_state t = B_state s'" "NeedBfdPacketUpdate t = NeedBfdPacketUpdate s'"
    "told t = GetBfdSessionNotification s'"
  show "goes_on s t"
    using assms(4,5) t(1,2,4,5) frame_trans [OF assms(3) t(3)] by (simp add: goes_on_def marked_def)
  show "told t = GetBfdSessionNotification t" using t(4,6) by (simp add: GetBfdSessionNotification_def)
qed

lemma MoveToDownState_eq:
  "MoveToDownState s = report_and_reset (\<lambda>s. Armed (sint (B_txInterval s))) rx_ms
     (count_keyed (s\<lparr>B_state := (B_state s)\<lparr>LocalState := STATE_DOWN, ToDownCount := ToDownCount (B_state s) + 1\<rparr>,
        B_movedToDownState := True, B_useDedicatedMac := True, B_stateChanged := True\<rparr>))"
  by (simp add: MoveToDownState_def report_and_reset_def upd_def on_state_def)

lemma LocalAdminDown_eq:
  "LocalAdminDown s = report_and_reset (\<lambda>_. Armed 0) (\<lambda>_. Stopped)
     (s\<lparr>B_state := (B_state s)\<lparr>LocalState := STATE_ADMIN_DOWN, LocalDiagType := DIAG_ADMIN_DOWN\<rparr>, B_stateChanged := True\<rparr>)"
  by (simp add: LocalAdminDown_def report_and_reset_def upd_def on_state_def)

lemma RemoteAdminDown_eq:
  "RemoteAdminDown s = report_and_reset (\<lambda>_. Armed 0) (\<lambda>_. Stopped)
     (s\<lparr>B_state := (B_state s)\<lparr>RemoteSessionState := STATE_ADMIN_DOWN, LocalDiagType := DIAG_NEIGHBOR_SIGNAL_DOWN\<rparr>\<rparr>)"
  by (simp add: RemoteAdminDown_def report_and_reset_def upd_def on_state_def)

lemmas change_simps = settled_def running_def consistent_def told_def frame_def marked_def NeedBfdPacketUpdate_def rx_ms_def

lemma MoveToDownState_ok:
  assumes "running s" "consistent s"
  shows "holds (\<lambda>s'. settled s STATE_DOWN s' \<and> B_movedToDownState s' \<and> NeedBfdPacketUpdate s') (MoveToDownState s)"
  unfolding MoveToDownState_eq
  by (rule holds_mono, rule report_settled [of _ s]) (use assms in \<open>simp_all add: change_simps\<close>)

lemma LocalAdminDown_ok:
  assumes "running s" "consistent s"
  shows "holds (settled s STATE_ADMIN_DOWN) (LocalAdminDown s)"
  unfolding LocalAdminDown_eq
  by (rule holds_mono, rule report_settled [of _ s]) (use assms in \<open>simp_all add: change_simps\<close>)

lemma RemoteAdminDown_ok:
  assumes "running s" "consistent s" "remote_state s = STATE_ADMIN_DOWN"
  shows "holds (settled s (session_state s)) (RemoteAdminDown s)"
  unfolding RemoteAdminDown_eq
  by (rule holds_mono, rule report_settled [of _ s]) (use assms in \<open>auto simp: change_simps\<close>)

section \<open>The state diagram\<close>

text \<open>The diagram in the comment of the source, with the administrative events.\<close>

fun diagram :: "BfdSessionState \<Rightarrow> BfdSessionEvent \<Rightarrow> BfdSessionState" where
  "diagram STATE_DOWN REMOTE_DOWN = STATE_INIT"
| "diagram STATE_DOWN REMOTE_INIT = STATE_UP"
| "diagram STATE_INIT REMOTE_INIT = STATE_UP"
| "diagram STATE_INIT REMOTE_UP = STATE_UP"
| "diagram STATE_INIT TIMEOUT = STATE_DOWN"
| "diagram STATE_UP REMOTE_DOWN = STATE_DOWN"
| "diagram STATE_UP TIMEOUT = STATE_DOWN"
| "diagram st ADMIN_DOWN = STATE_ADMIN_DOWN"
| "diagram st ev = st"

definition may_handle :: "BfdSessionEvent \<Rightarrow> BfdSession \<Rightarrow> bool" where
  "may_handle ev s \<longleftrightarrow>
     running s \<and> consistent s \<and> (session_state s \<in> {STATE_UP, STATE_ADMIN_DOWN} \<longrightarrow> told s) \<and>
     (remote_state s = STATE_ADMIN_DOWN \<longrightarrow> told s \<or> ev = REMOTE_ADMIN_DOWN) \<and>
     (ev = REMOTE_ADMIN_DOWN \<longrightarrow> remote_state s = STATE_ADMIN_DOWN)"

definition handled :: "BfdSession \<Rightarrow> BfdSessionState \<Rightarrow> BfdSession \<Rightarrow> bool" where
  "handled s st s' \<longleftrightarrow>
     goes_on s s' \<and> session_state s' = st \<and> remote_state s' = remote_state s \<and> (GetBfdSessionNotification s' \<longrightarrow> told s')"

lemma settled_handled: "settled s st s' \<Longrightarrow> handled s st s'"
  by (simp add: settled_def handled_def)

lemma handled_refl:
  "may_handle ev s \<Longrightarrow> ev \<noteq> REMOTE_ADMIN_DOWN \<or> session_state s = STATE_ADMIN_DOWN \<Longrightarrow> handled s (session_state s) s"
  by (auto simp: may_handle_def handled_def keeps_refl GetBfdSessionNotification_def)

lemma EventHandler_ok:
  assumes m: "may_handle ev s"
  shows "holds (handled s (diagram (session_state s) ev)) (EventHandler ev s)"
proof -
  have lc: "running s" "consistent s" using m by (simp_all add: may_handle_def)
  then have e: "EventHandler ev s = handle_event (session_state s) ev s" by (simp add: EventHandler_def IsSessionActive_def running_def)
  have up: "holds (handled s STATE_UP) (MoveToUpState s)" using MoveToUpState_ok [OF lc] by (rule holds_mono) (rule settled_handled)
  have down: "holds (handled s STATE_DOWN) (MoveToDownState s)"
    using MoveToDownState_ok [OF lc] by (rule holds_mono) (simp add: settled_handled)
  have adm: "holds (handled s STATE_ADMIN_DOWN) (LocalAdminDown s)" using LocalAdminDown_ok [OF lc] by (rule holds_mono) (rule settled_handled)
  have init: "holds (handled s STATE_INIT) (MoveToInitState s)" if "session_state s = STATE_DOWN" "ev = REMOTE_DOWN"
    using MoveToInitState_ok [OF lc that(1)] m that(2)
    by (auto elim!: holds_mono simp: handled_def may_handle_def GetBfdSessionNotification_def)
  have rem: "holds (handled s (session_state s)) (RemoteAdminDown s)" if "ev = REMOTE_ADMIN_DOWN"
    using RemoteAdminDown_ok [OF lc] m that by (auto elim!: holds_mono intro: settled_handled simp: may_handle_def)
  note r = handled_refl [OF m]
  show ?thesis
    unfolding e by (cases "session_state s"; cases ev) (use up down adm init rem r in simp_all)
qed

section \<open>Received packets\<close>

text \<open>The steps before the event keep the session and what its clients know.\<close>

definition quiet :: "BfdSession \<Rightarrow> BfdSession \<Rightarrow> bool" where
  "quiet s s' \<longleftrightarrow> goes_on s s' \<and> session_state s' = session_state s \<and> told s' = told s"

lemma quiet_trans: "quiet s s' \<Longrightarrow> quiet s' s'' \<Longrightarrow> quiet s s''"
  using keeps_trans by (auto simp: quiet_def)

lemma quietI:
  assumes "running s" "consistent s" "running s'" "frame s s'" "marked s s'" "session_state s' = session_state s"
    "LocalDiagType (B_state s') = LocalDiagType (B_state s) \<or> LocalDiagType (B_state s') \<in> {0, 1, 3, 7}"
    "B_notifiedState s' = B_notifiedState s" "B_notifications s' = B_notifications s" "IpAddr (B_state s') = IpAddr (B_state s)"
  shows "quiet s s'"
  using assms consistent_cong [of s' s] by (simp add: quiet_def goes_on_def)

lemmas quiet_simps = running_def frame_def marked_def NeedBfdPacketUpdate_def on_state_def

lemma quiet_live: "quiet s s' \<Longrightarrow> running s' \<and> consistent s'"
  by (simp add: quiet_def goes_on_def)

text \<open>The remote state is set by the second step and kept by all others.\<close>

definition adapts :: "BfdSessionState \<Rightarrow> BfdSession \<Rightarrow> BfdSession \<Rightarrow> bool" where
  "adapts rs s s' \<longleftrightarrow> quiet s s' \<and> remote_state s' = rs"

lemma adapts_bind:
  assumes "holds (adapts rs s) r" "\<And>s'. adapts rs s s' \<Longrightarrow> running s' \<Longrightarrow> consistent s' \<Longrightarrow> holds (adapts rs' s') (f s')"
  shows "holds (adapts rs' s) (bind_r r f)"
  by (rule holds_bind [OF assms(1)], rule holds_mono, rule assms(2))
    (auto simp: adapts_def quiet_live intro: quiet_trans)

lemma set_rx_interval_ok: "running s \<Longrightarrow> consistent s \<Longrightarrow> adapts (remote_state s) s (set_rx_interval p s)"
  unfolding adapts_def by (rule conjI, rule quietI) (auto simp: set_rx_interval_def quiet_simps)

lemma CheckAnyRemoteParamChanged_ok:
  "running s \<Longrightarrow> consistent s \<Longrightarrow> adapts (CP_State p) s (CheckAnyRemoteParamChanged p s)"
  unfolding adapts_def by (rule conjI, rule quietI) (auto simp: CheckAnyRemoteParamChanged_def quiet_simps Let_def)

lemma RemoteChangedDemandMode_ok:
  "running s \<Longrightarrow> consistent s \<Longrightarrow> holds (adapts (remote_state s) s) (RemoteChangedDemandMode p s)"
  unfolding RemoteChangedDemandMode_def Let_def
  by (auto simp: timer_ops quiet_simps adapts_def intro!: quietI)

lemma ProcessPollSequence_ok: "running s \<Longrightarrow> consistent s \<Longrightarrow> adapts (remote_state s) s (ProcessPollSequence p s)"
  unfolding adapts_def by (rule conjI, rule quietI) (auto simp: ProcessPollSequence_def quiet_simps Let_def)

lemma stop_if_idle_ok: "running s \<Longrightarrow> consistent s \<Longrightarrow> holds (adapts (remote_state s) s) (stop_if_idle s)"
  by (auto simp: stop_if_idle_def timer_ops quiet_simps adapts_def intro!: quietI)

lemma adapt_to_remote_ok: "running s \<Longrightarrow> consistent s \<Longrightarrow> holds (adapts (remote_state s) s) (adapt_to_remote s)"
  by (cases "remote_state s")
    (auto simp: adapt_to_remote_def timer_ops quiet_simps adapts_def Let_def intro!: quietI)

lemma seq_ops_append: "seq_ops (xs @ ys) s = bind_r (seq_ops xs s) (seq_ops ys)"
proof (induction xs arbitrary: s)
  case (Cons op xs)
  then show ?case by (cases "op s") simp_all
qed simp

lemma adapts_refl: "running s \<Longrightarrow> consistent s \<Longrightarrow> adapts (remote_state s) s s"
  by (simp add: adapts_def quiet_def keeps_refl)

lemma adapts_remote: "adapts rs s s' \<Longrightarrow> remote_state s' = rs"
  by (simp add: adapts_def)

lemma prepare_ok:
  assumes "running s" "consistent s"
  shows "holds (adapts (CP_State p) s)
    (seq_ops [upd (set_rx_interval p), upd (CheckAnyRemoteParamChanged p), RemoteChangedDemandMode p, upd (ProcessPollSequence p),
       stop_if_idle, adapt_to_remote] s)"
  unfolding seq_ops.simps upd_def
  by (rule adapts_bind [where rs = "remote_state s"], simp add: set_rx_interval_ok assms,
      rule adapts_bind [where rs = "CP_State p"], simp add: CheckAnyRemoteParamChanged_ok,
      rule adapts_bind [where rs = "CP_State p"], metis RemoteChangedDemandMode_ok adapts_remote,
      rule adapts_bind [where rs = "CP_State p"], metis ProcessPollSequence_ok adapts_remote holds_simps(1),
      rule adapts_bind [where rs = "CP_State p"], metis stop_if_idle_ok adapts_remote,
      rule adapts_bind [where rs = "CP_State p"], metis adapt_to_remote_ok adapts_remote)
    (metis adapts_refl adapts_remote holds_simps(1))

text \<open>A session after an accepted packet: the state of the diagram, the remote state of the packet.\<close>

lemma accept_packet_ok:
  assumes inv: "session_inv md5 sha1 s"
  shows "holds (\<lambda>s'. session_inv md5 sha1 s' \<and> session_state s' = diagram (session_state s) (remote_event (CP_State p)) \<and>
      remote_state s' = CP_State p) (accept_packet p s)"
proof -
  have lc: "running s" "consistent s" and t: "GetBfdSessionNotification s \<longrightarrow> told s"
    using inv by (simp_all add: session_inv_def reported_def)
  have e: "accept_packet p s = bind_r (seq_ops [upd (set_rx_interval p), upd (CheckAnyRemoteParamChanged p), RemoteChangedDemandMode p,
      upd (ProcessPollSequence p), stop_if_idle, adapt_to_remote] s) (seq_ops [handle_remote])"
    unfolding accept_packet_def seq_ops_append [symmetric] by simp
  show ?thesis
    unfolding e
  proof (rule holds_bind [OF prepare_ok [OF lc]])
    fix s1 assume a: "adapts (CP_State p) s s1"
    then have q: "goes_on s s1" "session_state s1 = session_state s" "told s1 = told s" "remote_state s1 = CP_State p"
      by (simp_all add: adapts_def quiet_def)
    have "remote_event (CP_State p) = REMOTE_ADMIN_DOWN \<longleftrightarrow> CP_State p = STATE_ADMIN_DOWN" by (cases "CP_State p") simp_all
    then have "may_handle (remote_event (CP_State p)) s1"
      using q t by (auto simp: may_handle_def goes_on_def GetBfdSessionNotification_def)
    from EventHandler_ok [OF this]
    have "holds (handled s1 (diagram (session_state s) (remote_event (CP_State p)))) (handle_remote s1)"
      by (simp add: handle_remote_def q(2,4))
    then have "holds (\<lambda>s'. session_inv md5 sha1 s' \<and> session_state s' = diagram (session_state s) (remote_event (CP_State p)) \<and>
      remote_state s' = CP_State p) (handle_remote s1)"
      by (rule holds_mono) (use q keeps_trans [OF q(1)] in \<open>auto simp: handled_def intro: keeps_inv [OF inv]\<close>)
    then show "holds (\<lambda>s'. session_inv md5 sha1 s' \<and> session_state s' = diagram (session_state s) (remote_event (CP_State p)) \<and>
      remote_state s' = CP_State p) (seq_ops [handle_remote] s1)"
      by (cases "handle_remote s1") simp_all
  qed
qed

definition accepts :: "(bytes \<Rightarrow> bytes) \<Rightarrow> (bytes \<Rightarrow> bytes) \<Rightarrow> BfdControlPacket \<Rightarrow> BfdSession \<Rightarrow> bool" where
  "accepts md5 sha1 p s \<longleftrightarrow> AuthenticateReceivedControlPacket md5 sha1 p s = Inr True \<and> CanProcessBfdControlPacket p"

lemma Authenticate_total:
  "CP_AuthPresent p \<longrightarrow> CP_AuthHeader p \<noteq> None \<Longrightarrow> \<exists>b. AuthenticateReceivedControlPacket md5 sha1 p s = Inr b"
  by (cases "CP_AuthPresent p"; cases "CP_AuthHeader p") (auto simp: AuthenticateReceivedControlPacket_def)

lemma ProcessBfdPacket_ok:
  assumes "session_inv md5 sha1 s" "CP_AuthPresent p \<longrightarrow> CP_AuthHeader p \<noteq> None"
  shows "holds (\<lambda>s'. session_inv md5 sha1 s' \<and>
    session_state s' = (if accepts md5 sha1 p s then diagram (session_state s) (remote_event (CP_State p)) else session_state s) \<and>
    remote_state s' = (if accepts md5 sha1 p s then CP_State p else remote_state s)) (ProcessBfdPacket md5 sha1 p s)"
proof -
  obtain b where "AuthenticateReceivedControlPacket md5 sha1 p s = Inr b"
    using Authenticate_total [OF assms(2)] by blast
  then show ?thesis using assms(1) accept_packet_ok [OF assms(1), of p]
    by (auto simp: ProcessBfdPacket_def accepts_def)
qed

section \<open>Sending\<close>

lemma scast_nonneg_less:
  assumes "0 \<le> sint (x :: i32)"
  shows "(scast x :: duration) < 0x100000000"
proof -
  have "sint x < 2 ^ 31" using sint_less [of x] by simp
  then have "uint (word_of_int (sint x) :: duration) = sint x"
    using assms by (simp only: uint_word_of_int_eq) (simp add: take_bit_int_eq_self)
  then show ?thesis using \<open>sint x < 2 ^ 31\<close> by (simp only: word_less_def scast_eq) simp
qed

text \<open>A renewed packet carries the state of the session.\<close>

abbreviation both_up :: "BfdSession \<Rightarrow> bool" where
  "both_up s \<equiv> session_state s = STATE_UP \<and> remote_state s = STATE_UP"

definition renewed :: "BfdSession \<Rightarrow> BfdSession \<Rightarrow> bool" where
  "renewed s s' \<longleftrightarrow>
     B_state s' = B_state s \<and> running s' \<and> B_notifiedState s' = B_notifiedState s \<and> B_notifications s' = B_notifications s \<and>
     B_sent s' = B_sent s \<and> B_ReceivedPacketCh s' = B_ReceivedPacketCh s \<and> plain_packet (B_bfdPacket s') \<and> B_rxInterval s' = B_rxInterval s \<and>
     (both_up s \<or> CP_Demand (B_bfdPacket s') = CP_Demand (B_bfdPacket s))"

lemmas packet_simps = plain_packet_def wf_packet_def

lemma demand_timer_ok: "running s \<Longrightarrow> holds (\<lambda>s'. \<exists>t. t \<noteq> NoTimer \<and> s' = s\<lparr>B_sessionTimer := t\<rparr>) (demand_timer was s)"
proof -
  assume "running s"
  then have t: "B_sessionTimer s \<noteq> NoTimer" by (simp add: running_def)
  have "s = s\<lparr>B_sessionTimer := B_sessionTimer s\<rparr>" by simp
  with t have "\<exists>t. t \<noteq> NoTimer \<and> s = s\<lparr>B_sessionTimer := t\<rparr>" by metis
  with t show ?thesis by (auto simp: demand_timer_def timer_ops rx_ms_def)
qed

lemma plain_packet_intervals:
  "plain_packet p \<Longrightarrow> tx < 0x100000000 \<Longrightarrow> rx < 0x100000000 \<Longrightarrow>
   plain_packet (p\<lparr>CP_DesiredMinTxInterval := tx, CP_RequiredMinRxInterval := rx\<rparr>)"
  by (auto simp: plain_packet_def wf_packet_def)

lemma plain_packet_flags:
  "plain_packet p \<Longrightarrow> plain_packet (p\<lparr>CP_Demand := d\<rparr>)"
  "plain_packet p \<Longrightarrow> plain_packet (p\<lparr>CP_Poll := a, CP_Final := b\<rparr>)"
  "plain_packet p \<Longrightarrow> plain_packet (p\<lparr>CP_AuthPresent := False\<rparr>)"
  by (auto simp: plain_packet_def wf_packet_def)

definition negotiated :: "BfdSession \<Rightarrow> BfdSession" where
  "negotiated s =
     (let p = B_bfdPacket s; t = B_state s in
      if CP_DesiredMinTxInterval p = STARTUP_TX_INTERVAL \<or> CP_RequiredMinRxInterval p = STARTUP_RX_INTERVAL
      then InitiatePollSequence (s\<lparr>B_bfdPacket := p\<lparr>CP_DesiredMinTxInterval := scast (DesiredMinTxInterval t),
             CP_RequiredMinRxInterval := scast (RequiredMinRxInterval t)\<rparr>\<rparr>)
      else s)"

lemma negotiated_ok:
  assumes "running s" "plain_packet (B_bfdPacket s)" "0 \<le> sint (DesiredMinTxInterval (B_state s))" "0 \<le> sint (RequiredMinRxInterval (B_state s))"
  shows "renewed s (negotiated s)" "packet_current (negotiated s) = packet_current s"
  using assms by (auto simp: negotiated_def InitiatePollSequence_def renewed_def running_def packet_current_def Let_def
      plain_packet_intervals scast_nonneg_less)

lemma up_intervals_ok:
  assumes "running s" "plain_packet (B_bfdPacket s)" "0 \<le> sint (DesiredMinTxInterval (B_state s))" "0 \<le> sint (RequiredMinRxInterval (B_state s))"
    and up: "both_up s"
  shows "holds (\<lambda>s'. renewed s s' \<and> packet_current s' = packet_current s) (up_intervals s)"
proof -
  let ?n = "negotiated s"
  let ?d = "?n\<lparr>B_bfdPacket := (B_bfdPacket ?n)\<lparr>CP_Demand := DemandMode (B_state ?n)\<rparr>\<rparr>"
  note n = negotiated_ok [OF assms(1-4)]
  have "running ?d" using n(1) by (simp add: renewed_def running_def)
  then have "holds (\<lambda>s'. \<exists>t. t \<noteq> NoTimer \<and> s' = ?d\<lparr>B_sessionTimer := t\<rparr>) (demand_timer (CP_Demand (B_bfdPacket ?n)) ?d)"
    by (rule demand_timer_ok)
  moreover have "up_intervals s = demand_timer (CP_Demand (B_bfdPacket ?n)) ?d"
    unfolding up_intervals_def negotiated_def Let_def by simp
  moreover have "renewed s (?d\<lparr>B_sessionTimer := t\<rparr>) \<and> packet_current (?d\<lparr>B_sessionTimer := t\<rparr>) = packet_current s" if "t \<noteq> NoTimer" for t
    using n that up by (simp add: renewed_def running_def packet_current_def plain_packet_flags)
  ultimately show ?thesis by (auto elim!: holds_mono)
qed

lemma startup_intervals_ok:
  assumes "running s" "plain_packet (B_bfdPacket s)"
  shows "renewed s (startup_intervals s) \<and> packet_current (startup_intervals s) = packet_current s"
  using assms by (simp add: startup_intervals_def renewed_def running_def plain_packet_intervals packet_current_def)

definition sendable :: "BfdSession \<Rightarrow> bool" where
  "sendable s \<longleftrightarrow>
     running s \<and> plain_packet (B_bfdPacket s) \<and> 0 \<le> LocalDiagType (B_state s) \<and> LocalDiagType (B_state s) < 32 \<and>
     0 \<le> sint (DesiredMinTxInterval (B_state s)) \<and> 0 \<le> sint (RequiredMinRxInterval (B_state s))"

lemma renewed_trans: "renewed s s' \<Longrightarrow> renewed s' s'' \<Longrightarrow> renewed s s''"
  by (auto simp: renewed_def)

lemma renewed_sendable: "sendable s \<Longrightarrow> renewed s s' \<Longrightarrow> sendable s'"
  by (simp add: renewed_def sendable_def)

lemma copy_state_ok: "sendable s \<Longrightarrow> renewed s (copy_state s) \<and> packet_current (copy_state s)"
  by (auto simp: sendable_def copy_state_def renewed_def running_def packet_current_def plain_packet_def wf_packet_def Let_def)

lemma choose_intervals_ok:
  "sendable s \<Longrightarrow> packet_current s \<Longrightarrow>
   holds (\<lambda>s'. renewed s s' \<and> packet_current s')
     (if session_state s = STATE_UP \<and> remote_state s = STATE_UP then up_intervals s else Inr (startup_intervals s))"
  using up_intervals_ok [of s] startup_intervals_ok [of s] by (auto simp: sendable_def elim: holds_mono)

lemma copy_poll_ok: "sendable s \<Longrightarrow> packet_current s \<Longrightarrow> renewed s (copy_poll s) \<and> packet_current (copy_poll s)"
  by (simp add: sendable_def copy_poll_def renewed_def running_def packet_current_def plain_packet_flags)

lemma fill_auth_ok: "sendable s \<Longrightarrow> packet_current s \<Longrightarrow> holds (\<lambda>s'. renewed s s' \<and> packet_current s') (fill_auth s)"
  by (simp add: sendable_def fill_auth_def renewed_def running_def packet_current_def plain_packet_flags Let_def)

lemma renewed_bind:
  assumes "holds (\<lambda>s'. renewed s s' \<and> packet_current s') r" "sendable s"
    "\<And>s'. sendable s' \<Longrightarrow> packet_current s' \<Longrightarrow> holds (\<lambda>s''. renewed s' s'' \<and> Q s'') (f s')"
  shows "holds (\<lambda>s'. renewed s s' \<and> Q s') (bind_r r f)"
  using assms(1)
proof (rule holds_bind)
  fix s' assume "renewed s s' \<and> packet_current s'"
  then show "holds (\<lambda>s'. renewed s s' \<and> Q s') (f s')"
    using assms(3) [of s'] renewed_sendable [OF assms(2)] by (auto elim!: holds_mono intro: renewed_trans)
qed

lemma UpdateBfdSessionControlPacket_ok:
  assumes "sendable s"
  shows "holds (\<lambda>s'. renewed s s' \<and> packet_current s' \<and> \<not> NeedBfdPacketUpdate s') (UpdateBfdSessionControlPacket s)"
  unfolding UpdateBfdSessionControlPacket_def seq_ops.simps upd_def
  by (rule renewed_bind, simp add: copy_state_ok assms, rule assms, rule renewed_bind, erule (1) choose_intervals_ok, assumption,
      rule renewed_bind, simp add: copy_poll_ok, assumption, rule renewed_bind, erule (1) fill_auth_ok, assumption)
    (simp add: sendable_def renewed_def running_def packet_current_def NeedBfdPacketUpdate_def)

definition in_sync :: "(bytes \<Rightarrow> bytes) \<Rightarrow> (bytes \<Rightarrow> bytes) \<Rightarrow> BfdSession \<Rightarrow> bool" where
  "in_sync md5 sha1 s \<longleftrightarrow>
     packet_current s \<and> \<not> NeedBfdPacketUpdate s \<and> B_bfdPacketBuf s = CreateBfdControlPacket md5 sha1 (B_bfdPacket s)"

lemma renew_packet_ok:
  assumes "sendable s"
  shows "holds (\<lambda>s'. renewed s s' \<and> in_sync md5 sha1 s') (renew_packet md5 sha1 s)"
  unfolding renew_packet_def seq_ops.simps upd_def
  by (rule holds_bind, rule UpdateBfdSessionControlPacket_ok [OF assms])
    (simp add: renewed_def running_def packet_current_def NeedBfdPacketUpdate_def in_sync_def)

lemma inv_sendable: "session_inv md5 sha1 s \<Longrightarrow> sendable s"
  by (simp add: session_inv_def packets_ok_def sendable_def)

lemma renewed_inv:
  assumes "session_inv md5 sha1 s" "renewed s s'" "in_sync md5 sha1 s'"
  shows "session_inv md5 sha1 s'"
  using assms consistent_cong [of s' s]
  by (simp add: session_inv_def packets_ok_def renewed_def in_sync_def reported_def GetBfdSessionNotification_def)

text \<open>The packet that goes out carries the current state of the session.\<close>

definition sends :: "(bytes \<Rightarrow> bytes) \<Rightarrow> (bytes \<Rightarrow> bytes) \<Rightarrow> BfdSession \<Rightarrow> bytes \<Rightarrow> bool" where
  "sends md5 sha1 s b \<longleftrightarrow>
     (\<exists>p. plain_packet p \<and> b = CreateBfdControlPacket md5 sha1 p \<and> CP_State p = session_state s \<and>
        CP_MyDiscriminator p = LocalDiscriminator (B_state s) \<and> CP_YourDiscriminator p = RemoteDiscriminator (B_state s) \<and>
        CP_DetectMult p = ucast (DetectionMultiplier (B_state s)) \<and> (both_up s \<or> CP_Demand p = CP_Demand (B_bfdPacket s)))"

lemma write_packet_ok:
  assumes "session_inv md5 sha1 s" "in_sync md5 sha1 s"
  shows "session_inv md5 sha1 (write_packet ok s)"
    "B_sent (write_packet ok s) = (if ok then B_sent s @ [B_bfdPacketBuf s] else B_sent s)" "sends md5 sha1 s (B_bfdPacketBuf s)"
    "told (write_packet ok s) = told s"
proof -
  have p: "plain_packet (B_bfdPacket s)" using assms(1) by (simp add: session_inv_def packets_ok_def)
  show "session_inv md5 sha1 (write_packet ok s)"
    using assms p consistent_cong [of "write_packet ok s" s]
    by (auto simp: write_packet_def on_state_def session_inv_def packets_ok_def in_sync_def reported_def running_def
        GetBfdSessionNotification_def NeedBfdPacketUpdate_def packet_current_def)
  show "sends md5 sha1 s (B_bfdPacketBuf s)"
    unfolding sends_def using assms(2) p by (intro exI [of _ "B_bfdPacket s"]) (simp add: in_sync_def packet_current_def)
qed (simp_all add: write_packet_def on_state_def told_def)

lemma renew_inv:
  assumes "session_inv md5 sha1 s"
  shows "holds (\<lambda>s'. session_inv md5 sha1 s' \<and> renewed s s' \<and> in_sync md5 sha1 s') (if NeedBfdPacketUpdate s then renew_packet md5 sha1 s else Inr s)"
proof (cases "NeedBfdPacketUpdate s")
  case True
  then show ?thesis
    using renew_packet_ok [OF inv_sendable [OF assms], of md5 sha1] by (auto elim!: holds_mono intro: renewed_inv [OF assms])
next
  case False
  then show ?thesis using assms by (simp add: renewed_def session_inv_def packets_ok_def in_sync_def)
qed

definition sent_by :: "(bytes \<Rightarrow> bytes) \<Rightarrow> (bytes \<Rightarrow> bytes) \<Rightarrow> bool \<Rightarrow> BfdSession \<Rightarrow> BfdSession \<Rightarrow> bool" where
  "sent_by md5 sha1 ok s s' \<longleftrightarrow>
     session_inv md5 sha1 s' \<and> (\<exists>b. sends md5 sha1 s b \<and> B_sent s' = B_sent s @ (if ok then [b] else [])) \<and>
     (\<exists>n. B_state s' = (B_state s)\<lparr>NumTxPackets := n\<rparr>) \<and> told s' = told s \<and> B_ReceivedPacketCh s' = B_ReceivedPacketCh s \<and>
     (\<exists>n. B_txTimer s' = Armed n) \<and> B_rxInterval s' = B_rxInterval s \<and> (both_up s \<or> CP_Demand (B_bfdPacket s') = CP_Demand (B_bfdPacket s))"

lemma told_renewed: "renewed s s' \<Longrightarrow> told s' = told s"
  by (simp add: renewed_def told_def)

lemma sends_renewed: "renewed s s' \<Longrightarrow> sends md5 sha1 s' b \<Longrightarrow> sends md5 sha1 s b"
proof -
  assume r: "renewed s s'" and "sends md5 sha1 s' b"
  then obtain p where p: "plain_packet p" "b = CreateBfdControlPacket md5 sha1 p" "CP_State p = session_state s'"
      "CP_MyDiscriminator p = LocalDiscriminator (B_state s')" "CP_YourDiscriminator p = RemoteDiscriminator (B_state s')"
      "CP_DetectMult p = ucast (DetectionMultiplier (B_state s'))" "both_up s' \<or> CP_Demand p = CP_Demand (B_bfdPacket s')"
    by (auto simp: sends_def)
  from r have e: "B_state s' = B_state s" "both_up s \<or> CP_Demand (B_bfdPacket s') = CP_Demand (B_bfdPacket s)"
    by (simp_all add: renewed_def)
  have "both_up s \<or> CP_Demand p = CP_Demand (B_bfdPacket s)" using p(7) e by auto
  with p(1-6) show ?thesis unfolding sends_def e(1) by blast
qed

lemma finish_tx:
  assumes "session_inv md5 sha1 s"
  shows "holds (\<lambda>s'. session_inv md5 sha1 s' \<and> B_sent s' = B_sent s \<and> B_state s' = B_state s \<and> told s' = told s \<and>
      B_ReceivedPacketCh s' = B_ReceivedPacketCh s \<and> (\<exists>n. B_txTimer s' = Armed n) \<and> B_rxInterval s' = B_rxInterval s \<and>
      B_bfdPacket s' = B_bfdPacket s)
    (seq_ops [upd set_tx_interval, tx_timer (\<lambda>s. Armed (sint (ApplyTxJitter s)))] s)"
proof -
  have *: "session_inv md5 sha1 (s\<lparr>B_txInterval := x, B_txTimer := Armed y\<rparr>)" "session_inv md5 sha1 (s\<lparr>B_txTimer := Armed y\<rparr>)" for x y
    using assms by (simp_all add: session_inv_def packets_ok_def running_def reported_def consistent_def told_def packet_current_def
        NeedBfdPacketUpdate_def GetBfdSessionNotification_def)
  have "B_txTimer s \<noteq> NoTimer" using assms by (simp add: session_inv_def running_def)
  then show ?thesis using * by (simp add: upd_def timer_ops told_def set_tx_interval_def)
qed

lemma SendPeriodicControlPackets_eq:
  "SendPeriodicControlPackets md5 sha1 ok s =
     (let r = (if NeedBfdPacketUpdate s then renew_packet md5 sha1 else Inr) in
      bind_r (r s) (\<lambda>s1. bind_r (r (write_packet ok s1)) (seq_ops [upd set_tx_interval, tx_timer (\<lambda>s. Armed (sint (ApplyTxJitter s)))])))"
  unfolding SendPeriodicControlPackets_def Let_def seq_ops.simps upd_def bind_r_Inr ..

lemma SendPeriodicControlPackets_ok:
  assumes inv: "session_inv md5 sha1 s"
  shows "holds (sent_by md5 sha1 ok s) (SendPeriodicControlPackets md5 sha1 ok s)"
proof -
  let ?n = "NeedBfdPacketUpdate s" and ?r = "if NeedBfdPacketUpdate s then renew_packet md5 sha1 else Inr"
  let ?tail = "seq_ops [upd set_tx_interval, tx_timer (\<lambda>s. Armed (sint (ApplyTxJitter s)))]"
  have "holds (\<lambda>s'. session_inv md5 sha1 s' \<and> renewed s s' \<and> in_sync md5 sha1 s') (?r s)"
    using renew_inv [OF inv] by (cases ?n) simp_all
  then have "holds (sent_by md5 sha1 ok s) (bind_r (?r s) (\<lambda>s1. bind_r (?r (write_packet ok s1)) ?tail))"
  proof (rule holds_bind)
    fix s1 assume "session_inv md5 sha1 s1 \<and> renewed s s1 \<and> in_sync md5 sha1 s1"
    then have i1: "session_inv md5 sha1 s1" and r1: "renewed s s1" and y1: "in_sync md5 sha1 s1" by auto
    let ?w = "write_packet ok s1"
    note w = write_packet_ok(1,2,4) [OF i1 y1, where ok = ok] write_packet_ok(3) [OF i1 y1]
    have st: "B_state s1 = B_state s" using r1 by (simp add: renewed_def)
    have wd: "B_bfdPacket ?w = B_bfdPacket s1" "B_rxInterval ?w = B_rxInterval s1" "both_up ?w = both_up s"
      using st by (simp_all add: write_packet_def on_state_def)
    have rd: "both_up s \<or> CP_Demand (B_bfdPacket s1) = CP_Demand (B_bfdPacket s)" "B_rxInterval s1 = B_rxInterval s"
      using r1 by (simp_all add: renewed_def)
    have ws: "B_state ?w = (B_state s)\<lparr>NumTxPackets := NumTxPackets (B_state ?w)\<rparr>" "B_ReceivedPacketCh ?w = B_ReceivedPacketCh s"
      "told ?w = told s" "sends md5 sha1 s (B_bfdPacketBuf s1)" "B_sent ?w = B_sent s @ (if ok then [B_bfdPacketBuf s1] else [])"
      subgoal using st by (simp add: write_packet_def on_state_def)
      subgoal using r1 by (simp add: renewed_def write_packet_def on_state_def)
      subgoal using w(3) told_renewed [OF r1] by simp
      subgoal using w(4) by (rule sends_renewed [OF r1])
      subgoal using r1 w(2) by (simp add: renewed_def)
      done
    have "holds (\<lambda>s2. session_inv md5 sha1 s2 \<and> renewed ?w s2) (?r ?w)"
    proof (cases ?n)
      case True
      then show ?thesis using renew_packet_ok [OF inv_sendable [OF w(1)], of md5 sha1] by (auto elim!: holds_mono intro: renewed_inv [OF w(1)])
    next
      case False
      then show ?thesis using w(1) by (simp add: renewed_def session_inv_def packets_ok_def)
    qed
    then show "holds (sent_by md5 sha1 ok s) (bind_r (?r ?w) ?tail)"
    proof (rule holds_bind)
      fix s2 assume "session_inv md5 sha1 s2 \<and> renewed ?w s2"
      then have i2: "session_inv md5 sha1 s2" and r2: "renewed ?w s2" by auto
      show "holds (sent_by md5 sha1 ok s) (?tail s2)"
      proof (rule holds_mono [OF finish_tx [OF i2]], elim conjE)
        fix s3 assume a: "session_inv md5 sha1 s3" "B_sent s3 = B_sent s2" "B_state s3 = B_state s2" "told s3 = told s2"
          "B_ReceivedPacketCh s3 = B_ReceivedPacketCh s2" "\<exists>n. B_txTimer s3 = Armed n" "B_rxInterval s3 = B_rxInterval s2"
          "B_bfdPacket s3 = B_bfdPacket s2"
        have e: "B_state s3 = B_state ?w" "B_sent s3 = B_sent ?w" "B_ReceivedPacketCh s3 = B_ReceivedPacketCh ?w"
          using a r2 by (simp_all add: renewed_def)
        have "\<exists>b. sends md5 sha1 s b \<and> B_sent s3 = B_sent s @ (if ok then [b] else [])"
          by (rule exI [of _ "B_bfdPacketBuf s1"]) (simp only: e ws(4,5) simp_thms)
        moreover have "\<exists>n. B_state s3 = (B_state s)\<lparr>NumTxPackets := n\<rparr>"
          unfolding e(1) using ws(1) by (rule exI)
        moreover have "B_rxInterval s3 = B_rxInterval s" using a(7) r2 wd rd by (simp add: renewed_def)
        moreover have "both_up s \<or> CP_Demand (B_bfdPacket s3) = CP_Demand (B_bfdPacket s)"
        proof -
          have "both_up s \<or> CP_Demand (B_bfdPacket s2) = CP_Demand (B_bfdPacket s1)" using r2 wd by (simp add: renewed_def)
          then show ?thesis using a(8) rd(1) by auto
        qed
        ultimately show "sent_by md5 sha1 ok s s3"
          unfolding sent_by_def using a(1,4,6) told_renewed [OF r2] ws(2,3) e(3) by simp
      qed
    qed
  qed
  then show ?thesis
    unfolding SendPeriodicControlPackets_eq Let_def .
qed

section \<open>Timeouts, commands and parameters\<close>

lemma inv_parts:
  assumes "session_inv md5 sha1 s"
  shows "running s" "consistent s" "GetBfdSessionNotification s \<Longrightarrow> told s"
  using assms by (simp_all add: session_inv_def reported_def)

lemma handled_inv: "session_inv md5 sha1 s \<Longrightarrow> goes_on s s1 \<Longrightarrow> handled s1 st s' \<Longrightarrow> session_inv md5 sha1 s' \<and> session_state s' = st"
  using keeps_trans [of s s1 s'] by (auto simp: handled_def intro: keeps_inv)

lemma session_timer_inv:
  "session_inv md5 sha1 s \<Longrightarrow> new s \<noteq> NoTimer \<Longrightarrow>
   session_timer new s = Inr (s\<lparr>B_sessionTimer := new s\<rparr>) \<and> session_inv md5 sha1 (s\<lparr>B_sessionTimer := new s\<rparr>)"
  by (simp add: timer_ops session_inv_def packets_ok_def running_def reported_def consistent_def told_def packet_current_def
      NeedBfdPacketUpdate_def GetBfdSessionNotification_def)

definition expiring :: "BfdSession \<Rightarrow> BfdSession" where
  "expiring s =
     on_state (\<lambda>t. t\<lparr>LocalDiagType := DIAG_TIME_EXPIRED\<rparr>)
       (if B_movedToDownState s then (ResetRemoteSessionParams s)\<lparr>B_movedToDownState := False\<rparr> else s)"

lemma expiring_quiet:
  "running s \<Longrightarrow> consistent s \<Longrightarrow> quiet s (expiring s) \<and> remote_state (expiring s) \<in> {remote_state s, STATE_DOWN}"
  by (rule conjI, rule quietI) (auto simp: expiring_def ResetRemoteSessionParams_def quiet_simps)

lemma HandleSessionTimeout_ok:
  assumes inv: "session_inv md5 sha1 s"
  shows "holds (\<lambda>s'. session_inv md5 sha1 s' \<and> session_state s' = diagram (session_state s) TIMEOUT \<and> B_sessionTimer s' = rx_ms s')
    (HandleSessionTimeout s)"
proof -
  note p = inv_parts [OF inv]
  have q: "goes_on s (expiring s)" "session_state (expiring s) = session_state s" "told (expiring s) = told s"
    using expiring_quiet [OF p(1,2)] by (simp_all add: quiet_def)
  have "may_handle TIMEOUT (expiring s)"
    using q p(3) expiring_quiet [OF p(1,2)] by (auto simp: may_handle_def goes_on_def GetBfdSessionNotification_def)
  from EventHandler_ok [OF this] have "holds (\<lambda>s'. session_inv md5 sha1 s' \<and> session_state s' = diagram (session_state s) TIMEOUT) (EventHandler TIMEOUT (expiring s))"
    unfolding q(2) by (rule holds_mono) (rule handled_inv [OF inv q(1)])
  then have "holds (\<lambda>s'. session_inv md5 sha1 s' \<and> session_state s' = diagram (session_state s) TIMEOUT \<and> B_sessionTimer s' = rx_ms s')
      (bind_r (EventHandler TIMEOUT (expiring s)) (session_timer rx_ms))"
    by (rule holds_bind) (use session_timer_inv [of md5 sha1 _ rx_ms] in \<open>simp add: rx_ms_def\<close>)
  moreover have "HandleSessionTimeout s = bind_r (EventHandler TIMEOUT (expiring s)) (session_timer rx_ms)"
    unfolding HandleSessionTimeout_def expiring_def seq_ops.simps upd_def bind_r_Inr
    by (cases "EventHandler TIMEOUT (expiring s)") (auto simp: expiring_def bind_r_def split: sum.splits)
  ultimately show ?thesis by simp
qed

lemma StopBfdSession_ok:
  assumes inv: "session_inv md5 sha1 s"
  shows "holds (\<lambda>s'. session_inv md5 sha1 s' \<and> session_state s' = STATE_ADMIN_DOWN) (StopBfdSession s)"
proof -
  note p = inv_parts [OF inv]
  have "may_handle ADMIN_DOWN s" using p by (auto simp: may_handle_def GetBfdSessionNotification_def)
  from EventHandler_ok [OF this] have "holds (\<lambda>s'. session_inv md5 sha1 s' \<and> session_state s' = STATE_ADMIN_DOWN) (EventHandler ADMIN_DOWN s)"
    by (rule holds_mono) (use handled_inv [OF inv keeps_refl [OF p(1,2)]] in \<open>cases "session_state s"; simp\<close>)
  then show ?thesis
    unfolding StopBfdSession_def seq_ops.simps
    by (rule holds_bind)
      (simp add: upd_def on_state_def session_inv_def packets_ok_def running_def reported_def consistent_def told_def packet_current_def
        NeedBfdPacketUpdate_def GetBfdSessionNotification_def)
qed

lemma StartBfdSession_ok:
  assumes inv: "session_inv md5 sha1 s"
  shows "holds (\<lambda>s'. session_inv md5 sha1 s' \<and> session_state s' = STATE_DOWN) (StartBfdSession s)"
proof -
  note p = inv_parts [OF inv]
  define s1 where "s1 = s\<lparr>B_sessionTimer := rx_ms s, B_txTimer := Armed (sint (ApplyTxJitter (s\<lparr>B_sessionTimer := rx_ms s\<rparr>))),
    B_state := (B_state s)\<lparr>LocalState := STATE_DOWN\<rparr>\<rparr>"
  have 1: "running s1" "consistent s1" "frame s s1" "LocalDiagType (B_state s1) = LocalDiagType (B_state s)"
    using p(1,2) by (simp_all add: s1_def running_def consistent_def told_def frame_def rx_ms_def)
  have "StartBfdSession s = MoveToDownState s1"
    using p(1) by (cases "MoveToDownState s1")
      (simp_all add: StartBfdSession_def timer_ops upd_def on_state_def running_def EventHandler_def IsSessionActive_def s1_def rx_ms_def)
  moreover have "holds (\<lambda>s'. session_inv md5 sha1 s' \<and> session_state s' = STATE_DOWN) (MoveToDownState s1)"
  proof (rule holds_mono [OF MoveToDownState_ok [OF 1(1,2)]], elim conjE)
    fix s' assume a: "settled s1 STATE_DOWN s'" "NeedBfdPacketUpdate s'"
    then have "goes_on s s'" using 1 frame_trans [OF 1(3)] by (auto simp: settled_def goes_on_def marked_def)
    then show "session_inv md5 sha1 s' \<and> session_state s' = STATE_DOWN"
      using a by (auto simp: settled_def intro: keeps_inv [OF inv])
  qed
  ultimately show ?thesis by simp
qed

lemma use_param_ok:
  assumes "session_inv md5 sha1 s" "param_ok q"
  shows "session_inv md5 sha1 (use_param q s) \<and> session_state (use_param q s) = session_state s"
  using assms
  by (auto simp: use_param_def take_param_def default_param_def InitiatePollSequence_def param_ok_def on_state_def session_inv_def packets_ok_def
      running_def reported_def consistent_def told_def NeedBfdPacketUpdate_def GetBfdSessionNotification_def split: option.splits)

end
