(* ===== verification/BfdRuns.thy ===== *)
theory BfdRuns
  imports BfdInv
begin

text \<open>
  Runs of BFD sessions: every step keeps the invariant and follows the diagram; two sessions that exchange packets come up; a session
  whose peer falls silent goes down; and the cases in which this fails.
\<close>

section \<open>Steps\<close>

definition input_ok :: "session_input \<Rightarrow> bool" where
  "input_ok i \<longleftrightarrow>
     (case i of
        Arrive data \<Rightarrow> length data \<ge> 24 \<longrightarrow> DecodeBfdControlPacket data \<noteq> Inl Panic \<and> DecodeBfdControlPacket data \<noteq> Inl Diverges
      | Params q \<Rightarrow> param_ok q
      | _ \<Rightarrow> True)"

text \<open>The state that the diagram gives for an input.\<close>

definition next_session_state :: "(bytes \<Rightarrow> bytes) \<Rightarrow> (bytes \<Rightarrow> bytes) \<Rightarrow> session_input \<Rightarrow> BfdSession \<Rightarrow> BfdSessionState" where
  "next_session_state md5 sha1 i s =
     (case i of
        Serve \<Rightarrow> (case B_ReceivedPacketCh s of
            p # _ \<Rightarrow> if accepts md5 sha1 p s then diagram (session_state s) (remote_event (CP_State p)) else session_state s
          | [] \<Rightarrow> session_state s)
      | Expire \<Rightarrow> (case B_sessionTimer s of Armed _ \<Rightarrow> diagram (session_state s) TIMEOUT | _ \<Rightarrow> session_state s)
      | Start \<Rightarrow> STATE_DOWN
      | Stop \<Rightarrow> STATE_ADMIN_DOWN
      | _ \<Rightarrow> session_state s)"

lemma decoded_auth: "DecodeBfdControlPacket data = Inr p \<Longrightarrow> CP_AuthPresent p \<longrightarrow> CP_AuthHeader p \<noteq> None"
proof (rule impI)
  assume d: "DecodeBfdControlPacket data = Inr p" and a: "CP_AuthPresent p"
  obtain p0 my your tx rx echo where f: "decode_flags data = Inr p0" "field32 data 4 = Inr my" "field32 data 8 = Inr your"
      "field32 data 12 = Inr tx" "field32 data 16 = Inr rx" "field32 data 20 = Inr echo"
    using d unfolding DecodeBfdControlPacket_def bind_r_eq_Inr by blast
  show "CP_AuthHeader p \<noteq> None"
  proof (cases "CP_AuthPresent p0")
    case True
    then show ?thesis using d by (simp add: DecodeBfdControlPacket_def f Let_def bind_r_eq_Inr split: if_splits) auto
  next
    case False
    then show ?thesis using d a by (simp add: DecodeBfdControlPacket_def f Let_def) auto
  qed
qed

lemma dispatch_ok:
  "session_inv md5 sha1 s \<Longrightarrow> CP_AuthPresent p \<longrightarrow> CP_AuthHeader p \<noteq> None \<Longrightarrow> session_inv md5 sha1 (dispatch_to_session p s)"
  by (auto simp: dispatch_to_session_def session_inv_def packets_ok_def running_def reported_def consistent_def told_def
      packet_current_def NeedBfdPacketUpdate_def GetBfdSessionNotification_def rx_ms_def)

lemma accepts_cong:
  "B_authType s' = B_authType s \<Longrightarrow> B_authKeyId s' = B_authKeyId s \<Longrightarrow> B_authData s' = B_authData s \<Longrightarrow>
   ReceivedAuthSeq (B_state s') = ReceivedAuthSeq (B_state s) \<Longrightarrow> accepts md5 sha1 p s' = accepts md5 sha1 p s"
  by (cases "CP_AuthHeader p") (simp_all add: accepts_def AuthenticateReceivedControlPacket_def)

lemma take_packet_ok:
  assumes "session_inv md5 sha1 s" "B_ReceivedPacketCh s = p # q"
  defines "s' \<equiv> on_state (\<lambda>t. t\<lparr>NumRxPackets := NumRxPackets t + 1\<rparr>) (s\<lparr>B_ReceivedPacketCh := q\<rparr>)"
  shows "session_inv md5 sha1 s'" "accepts md5 sha1 p s' = accepts md5 sha1 p s" "CP_AuthPresent p \<longrightarrow> CP_AuthHeader p \<noteq> None"
    "session_state s' = session_state s"
proof -
  show "accepts md5 sha1 p s' = accepts md5 sha1 p s" by (rule accepts_cong) (simp_all add: s'_def on_state_def)
qed (use assms(1,2) in \<open>simp_all add: s'_def on_state_def session_inv_def packets_ok_def running_def reported_def consistent_def told_def
      packet_current_def NeedBfdPacketUpdate_def GetBfdSessionNotification_def\<close>)

lemma StartSessionServer_eq:
  "B_ReceivedPacketCh s = p # q \<Longrightarrow>
   StartSessionServer md5 sha1 s =
     ProcessBfdPacket md5 sha1 p (on_state (\<lambda>t. t\<lparr>NumRxPackets := NumRxPackets t + 1\<rparr>) (s\<lparr>B_ReceivedPacketCh := q\<rparr>))"
  by (simp add: StartSessionServer_def upd_def bind_r_def split: sum.splits)

lemma StartSessionServer_ok:
  assumes "session_inv md5 sha1 s"
  shows "holds (\<lambda>s'. session_inv md5 sha1 s' \<and> session_state s' = next_session_state md5 sha1 Serve s) (StartSessionServer md5 sha1 s)"
proof (cases "B_ReceivedPacketCh s")
  case Nil
  then show ?thesis using assms by (simp add: StartSessionServer_def next_session_state_def)
next
  case (Cons p q)
  note t = take_packet_ok [OF assms Cons]
  show ?thesis
    unfolding StartSessionServer_eq [OF Cons]
    by (rule holds_mono [OF ProcessBfdPacket_ok [OF t(1,3)]]) (simp add: next_session_state_def Cons t(2,4))
qed

lemma session_step_ok:
  assumes inv: "session_inv md5 sha1 s" and i: "input_ok i"
  shows "holds (\<lambda>s'. session_inv md5 sha1 s' \<and> session_state s' = next_session_state md5 sha1 i s) (session_step md5 sha1 i s)"
proof (cases i)
  case (Arrive data)
  have "session_state (dispatch_to_session p s) = session_state s" for p by (simp add: dispatch_to_session_def)
  then show ?thesis
    using i Arrive inv dispatch_ok [OF inv decoded_auth]
    by (auto simp: session_step_def next_session_state_def input_ok_def split: sum.splits go_error.splits)
next
  case Serve
  then show ?thesis using StartSessionServer_ok [OF inv] by (simp add: session_step_def)
next
  case (Tx ok)
  then show ?thesis
    using inv SendPeriodicControlPackets_ok [OF inv, of ok]
    by (auto simp: session_step_def next_session_state_def sent_by_def split: Timer.splits elim!: holds_mono)
next
  case Expire
  then show ?thesis
    using inv HandleSessionTimeout_ok [OF inv]
    by (auto simp: session_step_def next_session_state_def split: Timer.splits elim!: holds_mono)
next
  case Start
  then show ?thesis using StartBfdSession_ok [OF inv] by (simp add: session_step_def next_session_state_def)
next
  case Stop
  then show ?thesis using StopBfdSession_ok [OF inv] by (simp add: session_step_def next_session_state_def)
next
  case (Params q)
  then show ?thesis using use_param_ok [OF inv] i by (simp add: session_step_def next_session_state_def input_ok_def)
qed

section \<open>Reachable states\<close>

inductive session_reach :: "(bytes \<Rightarrow> bytes) \<Rightarrow> (bytes \<Rightarrow> bytes) \<Rightarrow> BfdSession \<Rightarrow> bool" for md5 sha1 where
  started: "param_ok (Some q) \<Longrightarrow>
    session_reach md5 sha1 (StartSessionClient (new_session sid dest loc intf link mac gmac prots jit name q))"
| stepped: "session_reach md5 sha1 s \<Longrightarrow> input_ok i \<Longrightarrow> session_step md5 sha1 i s = Inr s' \<Longrightarrow> session_reach md5 sha1 s'"

lemma new_session_inv:
  "param_ok (Some q) \<Longrightarrow> session_inv md5 sha1 (StartSessionClient (new_session sid dest loc intf link mac gmac prots jit name q))"
  by (simp add: StartSessionClient_def new_session_def session_inv_def running_def reported_def consistent_def told_def packets_ok_def
      param_ok_def NeedBfdPacketUpdate_def GetBfdSessionNotification_def rx_ms_def plain_packet_def wf_packet_def NewBfdControlPacketDefault_def)

lemma session_reach_inv: "session_reach md5 sha1 s \<Longrightarrow> session_inv md5 sha1 s"
proof (induction rule: session_reach.induct)
  case (stepped s i s')
  then show ?case using session_step_ok [of md5 sha1 s i] by simp
qed (rule new_session_inv)

text \<open>Every packet a session wrote is understood by the receiver of its peer.\<close>

lemma plain_wire: "plain_packet p \<Longrightarrow> wire_packet md5 sha1 p = p"
  by (simp add: plain_packet_def wire_packet_def)

lemma plain_decodes:
  "plain_packet p \<Longrightarrow> DecodeBfdControlPacket (CreateBfdControlPacket md5 sha1 p) = Inr p"
proof -
  assume p: "plain_packet p"
  have "CreateBfdControlPacket md5 sha1 p = CreateBfdControlPacket (\<lambda>_. replicate 16 0) (\<lambda>_. replicate 20 0) p"
    using p by (simp add: CreateBfdControlPacket_def plain_packet_def)
  moreover have "DecodeBfdControlPacket (CreateBfdControlPacket (\<lambda>_. replicate 16 0) (\<lambda>_. replicate 20 0) p) = Inr p"
    using CreateBfdControlPacket_roundtrip [of p "\<lambda>_. replicate 16 0" "\<lambda>_. replicate 20 0"] p plain_wire [OF p]
    by (simp add: plain_packet_def)
  ultimately show ?thesis by simp
qed

lemma plain_length: "plain_packet p \<Longrightarrow> length (CreateBfdControlPacket md5 sha1 p) = 24"
  by (simp add: CreateBfdControlPacket_def plain_packet_def)

section \<open>Two sessions come up\<close>

text \<open>One end sends a packet, the other receives and processes it.\<close>

definition deliver :: "(bytes \<Rightarrow> bytes) \<Rightarrow> (bytes \<Rightarrow> bytes) \<Rightarrow> BfdSession \<Rightarrow> BfdSession \<Rightarrow> (BfdSession \<times> BfdSession) bres" where
  "deliver md5 sha1 a b =
     bind_r (session_step md5 sha1 (Tx True) a) (\<lambda>a.
     bind_r (session_step md5 sha1 (Arrive (last (B_sent a))) b) (\<lambda>b.
     bind_r (session_step md5 sha1 Serve b) (\<lambda>b. Inr (a, b))))"

text \<open>A session that can send and receive.\<close>

definition fit :: "BfdSession \<Rightarrow> bool" where
  "fit s \<longleftrightarrow> (\<exists>n. B_txTimer s = Armed n) \<and> B_rxInterval s \<noteq> 0"

definition ready :: "(bytes \<Rightarrow> bytes) \<Rightarrow> (bytes \<Rightarrow> bytes) \<Rightarrow> BfdSession \<Rightarrow> bool" where
  "ready md5 sha1 s \<longleftrightarrow>
     session_inv md5 sha1 s \<and> fit s \<and> B_ReceivedPacketCh s = [] \<and> \<not> CP_Demand (B_bfdPacket s) \<and>
     LocalDiscriminator (B_state s) \<noteq> 0 \<and> (ucast (DetectionMultiplier (B_state s)) :: u8) \<noteq> 0"

lemma startup_interval_pos:
  assumes "(m :: u8) \<noteq> 0"
  shows "div32 (STARTUP_RX_INTERVAL * ucast m) 1000 \<noteq> 0"
proof -
  obtain k where k: "k = uint m" by simp
  have "uint m \<noteq> 0" using assms by (metis word_of_int_uint of_int_0)
  then have "1 \<le> k" "k < 256" using uint_ge_0 [of m] uint_lt2p [of m] unfolding k by (linarith, simp)
  have m: "(ucast m :: i32) = word_of_int k" by (simp add: k)
  have "2000000 * (ucast m :: i32) = word_of_int (2000000 * k)" unfolding m by simp
  then have "sint (2000000 * (ucast m :: i32)) = 2000000 * k"
    using \<open>1 \<le> k\<close> \<open>k < 256\<close> signed_take_bit_int_eq_self [of 31 "2000000 * k"] by (simp only: signed_of_int) simp
  then have "div32 (STARTUP_RX_INTERVAL * ucast m) 1000 = word_of_int (2000 * k)"
    using \<open>1 \<le> k\<close> by (simp add: div32_def signed_divide_int_def)
  moreover have "uint (word_of_int (2000 * k) :: i32) = 2000 * k"
    using \<open>1 \<le> k\<close> \<open>k < 256\<close> by (simp only: uint_word_of_int_eq) (simp add: take_bit_int_eq_self)
  ultimately show ?thesis using \<open>1 \<le> k\<close> by (metis unsigned_0 mult_eq_0_iff not_one_le_zero zero_neq_numeral)
qed

lemma holds_conj: "holds P r \<Longrightarrow> holds Q r \<Longrightarrow> holds (\<lambda>s. P s \<and> Q s) r"
  by (cases r) auto

lemma fit_prepare:
  assumes "running s" "fit s" "\<not> CP_Demand p" "CP_DetectMult p \<noteq> 0" "session_state s \<noteq> STATE_UP"
  shows "holds fit
    (seq_ops [upd (set_rx_interval p), upd (CheckAnyRemoteParamChanged p), RemoteChangedDemandMode p, upd (ProcessPollSequence p),
       stop_if_idle, adapt_to_remote] s)"
proof -
  let ?P = "\<lambda>s. running s \<and> fit s \<and> session_state s \<noteq> STATE_UP"
  have 1: "?P (set_rx_interval p s)"
    using assms startup_interval_pos [of "CP_DetectMult p"] by (simp add: set_rx_interval_def fit_def running_def)
  have 2: "?P (CheckAnyRemoteParamChanged p s)" if "?P s" for s
    using that by (simp add: CheckAnyRemoteParamChanged_def Let_def on_state_def fit_def running_def)
  have 3: "holds ?P (RemoteChangedDemandMode p s)" if "?P s" for s
    using that assms(3) by (simp add: RemoteChangedDemandMode_def Let_def on_state_def fit_def running_def timer_ops)
  have 4: "?P (ProcessPollSequence p s)" if "?P s" for s
    using that by (simp add: ProcessPollSequence_def Let_def fit_def running_def)
  have 5: "holds ?P (stop_if_idle s)" if "?P s" for s
    using that by (simp add: stop_if_idle_def fit_def running_def timer_ops)
  have 6: "holds fit (adapt_to_remote s)" if "?P s" for s
    using that by (cases "remote_state s") (simp_all add: adapt_to_remote_def Let_def fit_def running_def on_state_def)
  show ?thesis
    unfolding seq_ops.simps upd_def bind_r_Inr
    by (rule holds_bind [OF 3 [OF 2 [OF 1]]], rule holds_bind [OF 5 [OF 4]], assumption, rule holds_bind [OF 6], assumption) simp
qed

lemma fit_event:
  assumes "running s" "fit s" "session_state s \<in> {STATE_DOWN, STATE_INIT}" "remote_state s \<noteq> STATE_ADMIN_DOWN"
  shows "holds fit (handle_remote s)"
  using assms
  by (cases "remote_state s"; cases "session_state s")
    (simp_all add: handle_remote_def EventHandler_def IsSessionActive_def running_def fit_def MoveToInitState_def MoveToUpState_def upd_def on_state_def)

text \<open>A fit session that is not up stays fit when it receives a packet of a session that is not stopped.\<close>

lemma receive_ok:
  assumes r: "ready md5 sha1 b" and st: "session_state b \<in> {STATE_DOWN, STATE_INIT}"
    and p: "plain_packet p" "\<not> CP_Demand p" "CP_DetectMult p \<noteq> 0" "CP_MyDiscriminator p \<noteq> 0" "CP_State p \<noteq> STATE_ADMIN_DOWN"
  shows "holds (\<lambda>b'. ready md5 sha1 b' \<and> session_state b' = diagram (session_state b) (remote_event (CP_State p)) \<and>
      remote_state b' = CP_State p) (accept_packet p b)"
proof -
  have inv: "session_inv md5 sha1 b" and f: "fit b" using r by (simp_all add: ready_def)
  note lc = inv_parts(1,2) [OF inv]
  have e: "accept_packet p b = bind_r (seq_ops [upd (set_rx_interval p), upd (CheckAnyRemoteParamChanged p), RemoteChangedDemandMode p,
      upd (ProcessPollSequence p), stop_if_idle, adapt_to_remote] b) (seq_ops [handle_remote])"
    unfolding accept_packet_def seq_ops_append [symmetric] by simp
  have u: "session_state b \<noteq> STATE_UP" using st by auto
  have "holds (\<lambda>b'. fit b' \<and> frame b b') (accept_packet p b)"
    unfolding e
  proof (rule holds_bind [OF holds_conj [OF fit_prepare [OF lc(1) f p(2,3) u] prepare_ok [OF lc]]], elim conjE)
    fix s1 assume s1: "fit s1" "adapts (CP_State p) b s1"
    then have q: "goes_on b s1" "session_state s1 = session_state b" "told s1 = told b" "remote_state s1 = CP_State p" "running s1" "consistent s1"
      by (simp_all add: adapts_def quiet_def goes_on_def)
    have "may_handle (remote_event (CP_State p)) s1"
      using q(2-6) st p(5) by (cases "CP_State p") (auto simp: may_handle_def)
    from EventHandler_ok [OF this] have "holds (\<lambda>s'. frame b s') (handle_remote s1)"
      unfolding handle_remote_def q(4) by (rule holds_mono) (use q(1) frame_trans in \<open>auto simp: handled_def goes_on_def\<close>)
    moreover have "holds fit (handle_remote s1)" using q s1(1) st p(5) by (intro fit_event) simp_all
    ultimately show "holds (\<lambda>b'. fit b' \<and> frame b b') (seq_ops [handle_remote] s1)"
      by (cases "handle_remote s1") simp_all
  qed
  from holds_conj [OF this accept_packet_ok [OF inv, of p]] show ?thesis
    by (rule holds_mono) (use r in \<open>auto simp: ready_def frame_def\<close>)
qed

text \<open>What a delivered packet carries, and that it is accepted.\<close>

definition offers :: "(bytes \<Rightarrow> bytes) \<Rightarrow> (bytes \<Rightarrow> bytes) \<Rightarrow> BfdSession \<Rightarrow> BfdSession \<Rightarrow> BfdSession \<Rightarrow> BfdControlPacket \<Rightarrow> BfdSession \<Rightarrow> bool" where
  "offers md5 sha1 a b a' p t \<longleftrightarrow>
     sent_by md5 sha1 True a a' \<and> plain_packet p \<and> CP_State p = session_state a \<and> CP_MyDiscriminator p \<noteq> 0 \<and> CP_DetectMult p \<noteq> 0 \<and>
     (both_up a \<or> CP_Demand p = CP_Demand (B_bfdPacket a)) \<and> session_inv md5 sha1 t \<and> B_ReceivedPacketCh t = [] \<and>
     (\<exists>m. B_state t = (B_state b)\<lparr>NumRxPackets := m\<rparr>) \<and> B_txTimer t = B_txTimer b \<and> B_rxInterval t = B_rxInterval b \<and>
     B_bfdPacket t = B_bfdPacket b"

lemma deliver_accepts:
  assumes inv: "session_inv md5 sha1 a" "session_inv md5 sha1 b" and n: "B_txTimer a = Armed n" and b: "B_rxInterval b \<noteq> 0" "B_ReceivedPacketCh b = []"
    and a: "LocalDiscriminator (B_state a) \<noteq> 0" "(ucast (DetectionMultiplier (B_state a)) :: u8) \<noteq> 0"
  shows "\<exists>a' p t. deliver md5 sha1 a b = bind_r (accept_packet p t) (\<lambda>b'. Inr (a', b')) \<and> offers md5 sha1 a b a' p t"
proof -
  obtain a' where a': "session_step md5 sha1 (Tx True) a = Inr a'" "sent_by md5 sha1 True a a'"
    using SendPeriodicControlPackets_ok [OF inv(1), of True] n
    by (cases "SendPeriodicControlPackets md5 sha1 True a") (simp_all add: session_step_def)
  then obtain x where x: "sends md5 sha1 a x" "last (B_sent a') = x" by (auto simp: sent_by_def)
  then obtain p where p: "plain_packet p" "x = CreateBfdControlPacket md5 sha1 p" "CP_State p = session_state a"
      "CP_MyDiscriminator p = LocalDiscriminator (B_state a)" "CP_DetectMult p = ucast (DetectionMultiplier (B_state a))"
      "both_up a \<or> CP_Demand p = CP_Demand (B_bfdPacket a)"
    by (auto simp: sends_def)
  let ?d = "dispatch_to_session p b"
  have arr: "session_step md5 sha1 (Arrive (last (B_sent a'))) b = Inr ?d"
    unfolding x(2) p(2) by (simp add: session_step_def plain_length [OF p(1)] plain_decodes [OF p(1)])
  have d: "?d = b\<lparr>B_sessionTimer := rx_ms b, B_ReceivedPacketCh := [p]\<rparr>"
    using b inv_parts(1) [OF inv(2)] by (simp add: dispatch_to_session_def running_def IsSessionActive_def)
  let ?t = "on_state (\<lambda>t. t\<lparr>NumRxPackets := NumRxPackets t + 1\<rparr>) (?d\<lparr>B_ReceivedPacketCh := []\<rparr>)"
  have q: "B_ReceivedPacketCh ?d = [p]" by (simp add: d)
  have ap: "CP_AuthPresent p = False" using p(1) by (auto simp: plain_packet_def wf_packet_def)
  have id: "session_inv md5 sha1 ?d" by (rule dispatch_ok [OF inv(2)]) (simp add: ap)
  have "accepts md5 sha1 p ?t" using p a
    by (simp add: accepts_def AuthenticateReceivedControlPacket_def ap CanProcessBfdControlPacket_def plain_packet_def)
  then have "session_step md5 sha1 Serve ?d = accept_packet p ?t"
    by (simp add: session_step_def StartSessionServer_eq [OF q] ProcessBfdPacket_def accepts_def)
  then have "deliver md5 sha1 a b = bind_r (accept_packet p ?t) (\<lambda>b'. Inr (a', b'))" by (simp add: deliver_def a'(1) arr)
  moreover have "offers md5 sha1 a b a' p ?t"
    unfolding offers_def using a'(2) p(1,3-6) a take_packet_ok(1) [OF id q] by (simp add: d on_state_def) blast
  ultimately show ?thesis by blast
qed

lemma deliver_ok:
  assumes a: "ready md5 sha1 a" "session_state a \<noteq> STATE_ADMIN_DOWN" "\<not> both_up a"
    and b: "ready md5 sha1 b" "session_state b \<in> {STATE_DOWN, STATE_INIT}"
  shows "\<exists>a' b'. deliver md5 sha1 a b = Inr (a', b') \<and> ready md5 sha1 a' \<and> ready md5 sha1 b' \<and>
    session_state a' = session_state a \<and> remote_state a' = remote_state a \<and> told a' = told a \<and>
    session_state b' = diagram (session_state b) (remote_event (session_state a)) \<and> remote_state b' = session_state a"
proof -
  obtain n where n: "B_txTimer a = Armed n" using a(1) by (auto simp: ready_def fit_def)
  have "\<exists>a' p t. deliver md5 sha1 a b = bind_r (accept_packet p t) (\<lambda>b'. Inr (a', b')) \<and> offers md5 sha1 a b a' p t"
    using a(1) b(1) by (intro deliver_accepts [OF _ _ n]) (simp_all add: ready_def fit_def)
  then obtain a' p t where d1: "deliver md5 sha1 a b = bind_r (accept_packet p t) (\<lambda>b'. Inr (a', b'))" and d: "offers md5 sha1 a b a' p t"
    by blast
  have ra: "ready md5 sha1 a'" "session_state a' = session_state a" "remote_state a' = remote_state a" "told a' = told a"
    using a(1,3) d by (auto simp: ready_def fit_def sent_by_def offers_def)
  have rt: "ready md5 sha1 t" "session_state t = session_state b" using b(1) d by (auto simp: ready_def fit_def offers_def)
  have p: "CP_State p = session_state a" using d by (simp add: offers_def)
  have "holds (\<lambda>b'. ready md5 sha1 b' \<and> session_state b' = diagram (session_state t) (remote_event (CP_State p)) \<and> remote_state b' = CP_State p)
      (accept_packet p t)"
    using d a b(2) by (intro receive_ok [OF rt(1)]) (auto simp: rt(2) ready_def offers_def)
  then obtain b' where "accept_packet p t = Inr b'" "ready md5 sha1 b'"
      "session_state b' = diagram (session_state b) (remote_event (session_state a))" "remote_state b' = session_state a"
    unfolding rt(2) p by (cases "accept_packet p t") simp_all
  then show ?thesis using d1 ra by simp
qed

text \<open>Three packets bring two sessions up.\<close>

definition handshake :: "(bytes \<Rightarrow> bytes) \<Rightarrow> (bytes \<Rightarrow> bytes) \<Rightarrow> BfdSession \<Rightarrow> BfdSession \<Rightarrow> (BfdSession \<times> BfdSession) bres" where
  "handshake md5 sha1 a b =
     bind_r (deliver md5 sha1 a b) (\<lambda>(a, b). bind_r (deliver md5 sha1 b a) (\<lambda>(b, a). deliver md5 sha1 a b))"

lemma ready_told: "ready md5 sha1 s \<Longrightarrow> session_state s = STATE_UP \<Longrightarrow> told s"
  using inv_parts(3) [of md5 sha1 s] by (simp add: ready_def GetBfdSessionNotification_def)

lemma handshake_ok:
  assumes "ready md5 sha1 a" "ready md5 sha1 b" "session_state a = STATE_DOWN" "session_state b = STATE_DOWN"
  shows "\<exists>a' b'. handshake md5 sha1 a b = Inr (a', b') \<and> session_state a' = STATE_UP \<and> session_state b' = STATE_UP \<and> told a' \<and> told b' \<and>
    ready md5 sha1 a' \<and> ready md5 sha1 b'"
proof -
  obtain a1 b1 where 1: "deliver md5 sha1 a b = Inr (a1, b1)" "ready md5 sha1 a1" "ready md5 sha1 b1" "session_state a1 = STATE_DOWN"
      "session_state b1 = STATE_INIT"
    using deliver_ok [of md5 sha1 a b] assms by auto
  obtain b2 a2 where 2: "deliver md5 sha1 b1 a1 = Inr (b2, a2)" "ready md5 sha1 b2" "ready md5 sha1 a2" "session_state b2 = STATE_INIT"
      "session_state a2 = STATE_UP" "remote_state a2 = STATE_INIT"
    using deliver_ok [of md5 sha1 b1 a1] 1 by auto
  obtain a3 b3 where 3: "deliver md5 sha1 a2 b2 = Inr (a3, b3)" "ready md5 sha1 a3" "ready md5 sha1 b3" "session_state a3 = STATE_UP"
      "session_state b3 = STATE_UP"
    using deliver_ok [of md5 sha1 a2 b2] 2 by auto
  have "handshake md5 sha1 a b = Inr (a3, b3)" by (simp add: handshake_def 1(1) 2(1) 3(1))
  then show ?thesis using 3(2-5) ready_told by blast
qed

section \<open>Detection of a failure\<close>

lemma failure_is_detected:
  assumes inv: "session_inv md5 sha1 s" and up: "session_state s = STATE_UP" "remote_state s \<noteq> STATE_ADMIN_DOWN" and t: "B_sessionTimer s = Armed n"
  shows "\<exists>s' s'' p. session_step md5 sha1 Expire s = Inr s' \<and> session_state s' = STATE_DOWN \<and> \<not> told s' \<and> session_inv md5 sha1 s' \<and>
    session_step md5 sha1 (Tx True) s' = Inr s'' \<and> DecodeBfdControlPacket (last (B_sent s'')) = Inr p \<and> CP_State p = STATE_DOWN"
proof -
  note p = inv_parts [OF inv]
  have q: "quiet s (expiring s)" "remote_state (expiring s) \<in> {remote_state s, STATE_DOWN}" using expiring_quiet [OF p(1,2)] by auto
  then have l: "running (expiring s)" "consistent (expiring s)" "session_state (expiring s) = STATE_UP"
    using quiet_live [OF q(1)] up(1) by (auto simp: quiet_def)
  obtain s1 where s1: "MoveToDownState (expiring s) = Inr s1" "settled (expiring s) STATE_DOWN s1"
    using MoveToDownState_ok [OF l(1,2)] by (cases "MoveToDownState (expiring s)") auto
  have tx: "\<exists>n. B_txTimer s1 = Armed n"
    using s1(1) l(1) by (auto simp: MoveToDownState_eq report_and_reset_def change_defs running_def)
  have "\<not> told s1" using s1(2) q(2) up(2) by (auto simp: settled_def GetBfdSessionNotification_def)
  moreover have "HandleSessionTimeout s = Inr (s1\<lparr>B_sessionTimer := rx_ms s1\<rparr>)"
  proof -
    have "B_sessionTimer s1 \<noteq> NoTimer" using s1(2) by (simp add: settled_def goes_on_def running_def)
    then show ?thesis
      using s1(1) l(1,3) by (simp add: HandleSessionTimeout_def upd_def expiring_def [symmetric] EventHandler_def IsSessionActive_def running_def timer_ops)
  qed
  moreover obtain s' where s': "s' = s1\<lparr>B_sessionTimer := rx_ms s1\<rparr>" by simp
  ultimately have e: "HandleSessionTimeout s = Inr s'" "\<not> told s'" by (simp_all add: told_def)
  have i: "session_inv md5 sha1 s'" "session_state s' = STATE_DOWN"
    using HandleSessionTimeout_ok [OF inv] up(1) by (simp_all add: e(1))
  obtain s'' where s'': "SendPeriodicControlPackets md5 sha1 True s' = Inr s''" "sent_by md5 sha1 True s' s''"
    using SendPeriodicControlPackets_ok [OF i(1), of True] by (cases "SendPeriodicControlPackets md5 sha1 True s'") auto
  then obtain b where b: "sends md5 sha1 s' b" "last (B_sent s'') = b" by (auto simp: sent_by_def)
  then obtain pk where "plain_packet pk" "b = CreateBfdControlPacket md5 sha1 pk" "CP_State pk = STATE_DOWN"
    using i(2) by (auto simp: sends_def)
  then have "DecodeBfdControlPacket (last (B_sent s'')) = Inr pk" "CP_State pk = STATE_DOWN"
    using plain_decodes b(2) by simp_all
  moreover have "session_step md5 sha1 Expire s = Inr s'" using t by (simp add: session_step_def e(1))
  moreover have "session_step md5 sha1 (Tx True) s' = Inr s''" using tx s''(1) by (auto simp: session_step_def s')
  ultimately show ?thesis using e(2) i by blast
qed

section \<open>Where detection fails\<close>

text \<open>
  A peer that announces an interval below a millisecond, counted with the multiplier, makes the session compute the interval 0. The timer
  is stopped, and from then on no packet is accepted, so the session stays up whatever happens, until it is stopped by a command.
\<close>

definition blind :: "BfdSession \<Rightarrow> bool" where
  "blind s \<longleftrightarrow>
     running s \<and> session_state s = STATE_UP \<and> B_rxInterval s = 0 \<and> B_sessionTimer s = Stopped \<and> B_ReceivedPacketCh s = [] \<and>
     \<not> CP_Demand (B_bfdPacket s) \<and> \<not> DemandMode (B_state s)"

lemmas blind_simps = blind_def running_def on_state_def upd_def

lemma blind_update:
  assumes "blind s"
  shows "holds blind (UpdateBfdSessionControlPacket s)"
proof -
  have 1: "blind (copy_state s)" using assms by (simp add: blind_simps copy_state_def Let_def)
  have 2: "holds blind (if both_up s then up_intervals s else Inr (startup_intervals s))" if "blind s" for s
    using that by (simp add: blind_simps up_intervals_def demand_timer_def startup_intervals_def InitiatePollSequence_def Let_def)
  have 3: "blind (copy_poll s)" if "blind s" for s
    using that by (simp add: blind_simps copy_poll_def)
  have 4: "holds blind (fill_auth s)" if "blind s" for s
    using that by (simp add: blind_simps fill_auth_def Let_def)
  have 5: "holds blind (Inr (s\<lparr>B_pollChanged := False, B_paramChanged := False, B_stateChanged := False, B_remoteParamChanged := False\<rparr>))"
    if "blind s" for s using that by (simp add: blind_simps)
  show ?thesis
    unfolding UpdateBfdSessionControlPacket_def seq_ops.simps upd_def bind_r_Inr
    by (rule holds_bind [OF 2 [OF 1]], rule holds_bind [OF 4 [OF 3]], assumption) (use 5 in simp)
qed

lemma blind_renew: "blind s \<Longrightarrow> holds blind (renew_packet md5 sha1 s)"
  unfolding renew_packet_def seq_ops.simps upd_def
  by (rule holds_bind, erule blind_update) (simp add: blind_simps)

lemma blind_send:
  assumes "blind s"
  shows "holds blind (SendPeriodicControlPackets md5 sha1 ok s)"
proof -
  let ?r = "if NeedBfdPacketUpdate s then renew_packet md5 sha1 else Inr"
  have r: "holds blind (?r t)" if "blind t" for t using blind_renew [OF that] that by simp
  have w: "blind (write_packet ok t)" if "blind t" for t using that by (simp add: blind_simps write_packet_def)
  have e: "holds blind (seq_ops [upd set_tx_interval, tx_timer (\<lambda>s. Armed (sint (ApplyTxJitter s)))] t)" if "blind t" for t
    using that by (simp add: blind_simps set_tx_interval_def timer_ops)
  show ?thesis
    unfolding SendPeriodicControlPackets_eq Let_def
    by (rule holds_bind [OF r [OF assms]], rule holds_bind [OF r [OF w]], assumption) (erule e)
qed

lemma blind_forever:
  assumes "blind s" "\<forall>i\<in>set inputs. input_ok i \<and> (case i of Arrive _ \<Rightarrow> True | Serve \<Rightarrow> True | Tx _ \<Rightarrow> True | Expire \<Rightarrow> True | _ \<Rightarrow> False)"
  shows "holds blind (seq_ops (map (session_step md5 sha1) inputs) s)"
  using assms
proof (induction inputs arbitrary: s)
  case (Cons i inputs)
  have "holds blind (session_step md5 sha1 i s)"
  proof (cases i)
    case (Arrive data)
    have "dispatch_to_session p s = s" for p using Cons.prems(1) by (simp add: dispatch_to_session_def blind_def)
    then show ?thesis using Cons.prems Arrive
      by (auto simp: session_step_def input_ok_def split: sum.splits go_error.splits)
  next
    case (Tx ok)
    then show ?thesis using blind_send [OF Cons.prems(1)] Cons.prems(1) by (simp add: session_step_def split: Timer.splits)
  qed (use Cons.prems in \<open>auto simp: session_step_def StartSessionServer_def blind_def\<close>)
  then show ?case using Cons by (auto intro: holds_bind)
qed simp

lemma tiny_interval_blinds:
  assumes inv: "session_inv md5 sha1 s" and up: "both_up s" and q: "B_ReceivedPacketCh s = []"
    and d: "\<not> CP_Demand (B_bfdPacket s)" "\<not> DemandMode (B_state s)"
    and p: "CP_State p = STATE_UP" "div32 (ucast (CP_DesiredMinTxInterval p) * ucast (CP_DetectMult p)) 1000 = 0"
  shows "holds blind (accept_packet p s)"
proof -
  let ?P = "\<lambda>s. running s \<and> both_up s \<and> B_rxInterval s = 0 \<and> B_ReceivedPacketCh s = [] \<and> \<not> CP_Demand (B_bfdPacket s) \<and> \<not> DemandMode (B_state s)"
  have 1: "?P (set_rx_interval p s)"
    using inv up q d p(2) by (simp add: set_rx_interval_def session_inv_def running_def)
  have 2: "?P (CheckAnyRemoteParamChanged p s)" if "?P s" for s
    using that p(1) by (simp add: CheckAnyRemoteParamChanged_def Let_def on_state_def running_def)
  have 3: "holds ?P (RemoteChangedDemandMode p s)" if "?P s" for s
    using that by (simp add: RemoteChangedDemandMode_def Let_def on_state_def running_def timer_ops)
  have 4: "?P (ProcessPollSequence p s)" if "?P s" for s
    using that by (simp add: ProcessPollSequence_def Let_def running_def)
  have 5: "holds (\<lambda>s. ?P s \<and> B_sessionTimer s = Stopped) (stop_if_idle s)" if "?P s" for s
    using that by (simp add: stop_if_idle_def running_def timer_ops)
  have 6: "holds (\<lambda>s. ?P s \<and> B_sessionTimer s = Stopped) (adapt_to_remote s)" if "?P s \<and> B_sessionTimer s = Stopped" for s
    using that by (simp add: adapt_to_remote_def Let_def running_def timer_ops)
  have 7: "holds blind (handle_remote s)" if "?P s \<and> B_sessionTimer s = Stopped" for s
    using that by (simp add: handle_remote_def EventHandler_def blind_def running_def)
  have r: "bind_r r Inr = r" for r :: "BfdSession bres" by (cases r) simp_all
  show ?thesis
    unfolding accept_packet_def seq_ops.simps upd_def bind_r_Inr r
    by (rule holds_bind [OF 3 [OF 2 [OF 1]]], rule holds_bind [OF 5 [OF 4]], assumption, rule holds_bind [OF 6], assumption) (erule 7)
qed

section \<open>Authentication\<close>

text \<open>The first packet of a session with authentication is never sent: the header it should be put into does not exist.\<close>

lemma authenticated_session_panics:
  "SP_AuthenticationEnabled q \<Longrightarrow>
   session_step md5 sha1 (Tx ok) (StartSessionClient (new_session sid dest loc intf link mac gmac prots jit name q)) = Inl Panic"
  by (simp add: session_step_def StartSessionClient_def new_session_def SendPeriodicControlPackets_def NeedBfdPacketUpdate_def renew_packet_def
      UpdateBfdSessionControlPacket_def upd_def copy_state_def startup_intervals_def copy_poll_def fill_auth_def
      NewBfdControlPacketDefault_def Let_def)

text \<open>
  A packet without an authentication section is accepted by every session, and one with the digest of the empty message by every
  session of its digest type, whatever the key.
\<close>

lemma forged_packet_accepted:
  assumes "CanProcessBfdControlPacket p"
    and "\<not> CP_AuthPresent p \<or>
      (\<exists>h. CP_AuthHeader p = Some h \<and> BA_Type h = B_authType s \<and> ucast (BA_AuthKeyID h) = B_authKeyId s \<and>
        BA_SequenceNumber h \<ge> ReceivedAuthSeq (B_state s) \<and>
        (is_md5 (BA_Type h) \<and> BA_AuthData h = md5 [] \<or> is_sha1 (BA_Type h) \<and> BA_AuthData h = sha1 []))"
  shows "accepts md5 sha1 p s"
  using assms
  by (auto simp: accepts_def AuthenticateReceivedControlPacket_def written_packet_def is_md5_def is_sha1_def Let_def)

section \<open>A demand bit that stays\<close>

text \<open>
  The demand bit of the packet is changed only while both ends are up. When a session leaves that state with the bit set, the packets it
  sends to come up again carry the bit, and the peer stops sending: it waits in the state INIT, and the session never comes up.
\<close>

definition stalled :: "(bytes \<Rightarrow> bytes) \<Rightarrow> (bytes \<Rightarrow> bytes) \<Rightarrow> BfdSession \<Rightarrow> BfdSession \<Rightarrow> bool" where
  "stalled md5 sha1 a b \<longleftrightarrow>
     session_inv md5 sha1 a \<and> session_inv md5 sha1 b \<and> (\<exists>n. B_txTimer a = Armed n) \<and> session_state a = STATE_DOWN \<and>
     CP_Demand (B_bfdPacket a) \<and> LocalDiscriminator (B_state a) \<noteq> 0 \<and> (ucast (DetectionMultiplier (B_state a)) :: u8) \<noteq> 0 \<and>
     session_state b \<in> {STATE_DOWN, STATE_INIT} \<and> B_rxInterval b \<noteq> 0 \<and> B_ReceivedPacketCh b = []"

lemma demand_stops_sending:
  assumes inv: "session_inv md5 sha1 s" and s: "session_state s \<in> {STATE_DOWN, STATE_INIT}" "B_ReceivedPacketCh s = []"
    and p: "CP_Demand p" "CP_State p = STATE_DOWN" "CP_DetectMult p \<noteq> 0"
  shows "holds (\<lambda>s'. B_txTimer s' = Stopped \<and> B_rxInterval s' \<noteq> 0 \<and> B_ReceivedPacketCh s' = []) (accept_packet p s)"
proof -
  let ?P = "\<lambda>s. running s \<and> session_state s \<in> {STATE_DOWN, STATE_INIT} \<and> B_rxInterval s \<noteq> 0 \<and> B_ReceivedPacketCh s = []"
  let ?Q = "\<lambda>s. ?P s \<and> remote_state s = STATE_DOWN \<and> B_txTimer s = Stopped"
  have 1: "?P (set_rx_interval p s)"
    using inv s startup_interval_pos [OF p(3)] by (auto simp: set_rx_interval_def session_inv_def running_def)
  have 2: "?P (CheckAnyRemoteParamChanged p s) \<and> remote_state (CheckAnyRemoteParamChanged p s) = STATE_DOWN" if "?P s" for s
    using that p(2) by (simp add: CheckAnyRemoteParamChanged_def Let_def on_state_def running_def)
  have 3: "holds ?Q (RemoteChangedDemandMode p s)" if "?P s \<and> remote_state s = STATE_DOWN" for s
    using that p(1) by (simp add: RemoteChangedDemandMode_def Let_def on_state_def running_def timer_ops)
  have 4: "?Q (ProcessPollSequence p s)" if "?Q s" for s
    using that by (auto simp: ProcessPollSequence_def Let_def running_def)
  have 5: "holds ?Q (stop_if_idle s)" if "?Q s" for s
    using that by (auto simp: stop_if_idle_def running_def timer_ops)
  have 6: "holds ?Q (adapt_to_remote s)" if "?Q s" for s
    using that by (auto simp: adapt_to_remote_def on_state_def running_def)
  have 7: "holds (\<lambda>s'. B_txTimer s' = Stopped \<and> B_rxInterval s' \<noteq> 0 \<and> B_ReceivedPacketCh s' = []) (handle_remote s)" if "?Q s" for s
    using that by (auto simp: handle_remote_def EventHandler_def IsSessionActive_def MoveToInitState_def upd_def on_state_def running_def)
  have r: "bind_r r Inr = r" for r :: "BfdSession bres" by (cases r) simp_all
  show ?thesis
    unfolding accept_packet_def seq_ops.simps upd_def bind_r_Inr r
    by (rule holds_bind [OF 3 [OF 2 [OF 1]]], rule holds_bind [OF 5 [OF 4]], assumption, rule holds_bind [OF 6], assumption) (erule 7)
qed

lemma stale_demand_stalls:
  assumes "stalled md5 sha1 a b"
  shows "\<exists>a' b'. deliver md5 sha1 a b = Inr (a', b') \<and> stalled md5 sha1 a' b' \<and> session_state b' = STATE_INIT \<and>
    (\<forall>ok. session_step md5 sha1 (Tx ok) b' = Inr b')"
proof -
  from assms obtain n where n: "B_txTimer a = Armed n" by (auto simp: stalled_def)
  have "\<exists>a' p t. deliver md5 sha1 a b = bind_r (accept_packet p t) (\<lambda>b'. Inr (a', b')) \<and> offers md5 sha1 a b a' p t"
    using assms by (intro deliver_accepts [OF _ _ n]) (simp_all add: stalled_def)
  then obtain a' p t where d1: "deliver md5 sha1 a b = bind_r (accept_packet p t) (\<lambda>b'. Inr (a', b'))" and d: "offers md5 sha1 a b a' p t"
    by blast
  have t: "session_inv md5 sha1 t" "session_state t \<in> {STATE_DOWN, STATE_INIT}" "B_ReceivedPacketCh t = []"
    using assms d by (auto simp: stalled_def offers_def)
  have p: "CP_Demand p" "CP_State p = STATE_DOWN" "CP_DetectMult p \<noteq> 0" using assms d by (auto simp: stalled_def offers_def)
  obtain b' where b': "accept_packet p t = Inr b'" "session_inv md5 sha1 b'" "session_state b' = STATE_INIT" "B_txTimer b' = Stopped"
      "B_rxInterval b' \<noteq> 0" "B_ReceivedPacketCh b' = []"
    using holds_conj [OF demand_stops_sending [OF t p] accept_packet_ok [OF t(1), of p]] t(2) p(2)
    by (cases "accept_packet p t") auto
  have "sent_by md5 sha1 True a a'" using d by (simp add: offers_def)
  then have "stalled md5 sha1 a' b'" using assms b' unfolding stalled_def sent_by_def by auto
  then show ?thesis using d1 b' by (simp add: session_step_def)
qed

end
