(* ===== verification/BfdLag.thy ===== *)
theory BfdLag
  imports BfdRuns
begin

text \<open>
  Sessions on the links of an aggregation group (bfd/server/bfdLag.go). Their client sends frames, and their server filters the frames
  of the link; the frames around the packets are left out.

  The client of a link never marks its session as active, so all events are refused, and the session never comes up.
\<close>

section \<open>Model\<close>

definition perlink_timeout :: "BfdSession \<Rightarrow> Timer" where
  "perlink_timeout s = Armed (sint (div32 (RequiredMinRxInterval (B_state s) * DetectionMultiplier (B_state s)) 1000))"

definition perlink_tx :: "BfdSession \<Rightarrow> Timer" where
  "perlink_tx s = Armed (sint (div32 (DesiredMinTxInterval (B_state s)) 1000))"

definition StartPerLinkSessionClient :: "BfdSession \<Rightarrow> BfdSession" where
  "StartPerLinkSessionClient s = s\<lparr>B_sessionTimer := perlink_timeout s, B_txTimer := perlink_tx s\<rparr>"

definition count_written :: "(bytes \<Rightarrow> bytes) \<Rightarrow> (bytes \<Rightarrow> bytes) \<Rightarrow> BfdSession \<Rightarrow> BfdSession" where
  "count_written md5 sha1 s =
     on_state (\<lambda>t. t\<lparr>NumTxPackets := NumTxPackets t + 1\<rparr>)
       (s\<lparr>B_useDedicatedMac := (B_useDedicatedMac s \<and> session_state s \<noteq> STATE_UP),
          B_sent := B_sent s @ [CreateBfdControlPacket md5 sha1 (B_bfdPacket s)]\<rparr>)"

definition send_on_link :: "(bytes \<Rightarrow> bytes) \<Rightarrow> (bytes \<Rightarrow> bytes) \<Rightarrow> bool \<Rightarrow> session_op" where
  "send_on_link md5 sha1 ok =
     seq_ops (UpdateBfdSessionControlPacket # (if ok then [upd (count_written md5 sha1), tx_timer perlink_tx] else []))"

definition expire_on_link :: session_op where
  "expire_on_link =
     seq_ops [upd (on_state (\<lambda>t. t\<lparr>LocalDiagType := DIAG_TIME_EXPIRED\<rparr>)), EventHandler TIMEOUT, session_timer perlink_timeout]"

text \<open>When the sender is not the known one, the destination of the frame is stored as its address.\<close>

definition receive_on_link :: "(bytes \<Rightarrow> bytes) \<Rightarrow> (bytes \<Rightarrow> bytes) \<Rightarrow> bytes \<Rightarrow> bytes \<Rightarrow> BfdControlPacket \<Rightarrow> session_op" where
  "receive_on_link md5 sha1 src dst p =
     seq_ops [upd (on_state (\<lambda>t. if RemoteMacAddr t = src then t else t\<lparr>RemoteMacAddr := dst\<rparr>)),
       upd (on_state (\<lambda>t. t\<lparr>NumRxPackets := NumRxPackets t + 1\<rparr>)), ProcessBfdPacket md5 sha1 p]"

datatype link_input = Link_tx bool | Link_expire | Link_receive bytes bytes BfdControlPacket

definition link_step :: "(bytes \<Rightarrow> bytes) \<Rightarrow> (bytes \<Rightarrow> bytes) \<Rightarrow> link_input \<Rightarrow> session_op" where
  "link_step md5 sha1 i =
     (case i of
        Link_tx ok \<Rightarrow> send_on_link md5 sha1 ok
      | Link_expire \<Rightarrow> expire_on_link
      | Link_receive src dst p \<Rightarrow> receive_on_link md5 sha1 src dst p)"

section \<open>A session on a link stays down\<close>

text \<open>The timers exist, but the session is not active.\<close>

definition idle :: "(string \<times> bool) list \<Rightarrow> BfdSession \<Rightarrow> bool" where
  "idle ns s \<longleftrightarrow>
     \<not> B_isClientActive s \<and> session_state s = STATE_DOWN \<and> B_notifications s = ns \<and> B_sessionTimer s \<noteq> NoTimer \<and> B_txTimer s \<noteq> NoTimer \<and>
     \<not> B_authEnabled s"

definition stays_idle :: "(string \<times> bool) list \<Rightarrow> session_op \<Rightarrow> bool" where
  "stays_idle ns f \<longleftrightarrow> (\<forall>s. idle ns s \<longrightarrow> holds (idle ns) (f s))"

lemma stays_idle_seq: "list_all (stays_idle ns) fs \<Longrightarrow> stays_idle ns (seq_ops fs)"
  by (induction fs) (auto simp: stays_idle_def intro: holds_bind)

lemma stays_idle_ops [simp]:
  "stays_idle ns Inr" "(\<And>s. f s \<noteq> NoTimer) \<Longrightarrow> stays_idle ns (session_timer f)" "(\<And>s. f s \<noteq> NoTimer) \<Longrightarrow> stays_idle ns (tx_timer f)"
  "stays_idle ns (EventHandler ev)"
  by (auto simp: stays_idle_def timer_ops idle_def EventHandler_def IsSessionActive_def)

lemma stays_idle_upd: "stays_idle ns (upd f) \<longleftrightarrow> (\<forall>s. idle ns s \<longrightarrow> idle ns (f s))"
  by (simp add: stays_idle_def upd_def)

lemmas idle_simps = stays_idle_upd idle_def on_state_def rx_ms_def perlink_timeout_def perlink_tx_def

lemma stays_idle_update: "stays_idle ns UpdateBfdSessionControlPacket"
proof -
  have "stays_idle ns (\<lambda>s. if session_state s = STATE_UP \<and> remote_state s = STATE_UP then up_intervals s else Inr (startup_intervals s))"
    "stays_idle ns fill_auth"
    by (simp_all add: stays_idle_def idle_def startup_intervals_def fill_auth_def Let_def)
  moreover have "stays_idle ns (upd copy_state)" "stays_idle ns (upd copy_poll)"
    by (simp_all add: idle_simps copy_state_def copy_poll_def Let_def)
  ultimately show ?thesis
    unfolding UpdateBfdSessionControlPacket_def by (intro stays_idle_seq) (simp add: idle_simps)
qed

lemma stays_idle_accept: "stays_idle ns (accept_packet p)"
proof -
  have "stays_idle ns (RemoteChangedDemandMode p)" "stays_idle ns stop_if_idle"
    by (auto simp: stays_idle_def idle_def RemoteChangedDemandMode_def stop_if_idle_def timer_ops on_state_def Let_def)
  moreover have "stays_idle ns adapt_to_remote"
    unfolding stays_idle_def
  proof (intro allI impI)
    fix s assume "idle ns s"
    then show "holds (idle ns) (adapt_to_remote s)"
      by (cases "remote_state s") (simp_all add: adapt_to_remote_def idle_def on_state_def Let_def)
  qed
  moreover have "stays_idle ns handle_remote"
    by (auto simp: stays_idle_def handle_remote_def EventHandler_def IsSessionActive_def idle_def)
  moreover have "stays_idle ns (upd (set_rx_interval p))" "stays_idle ns (upd (CheckAnyRemoteParamChanged p))" "stays_idle ns (upd (ProcessPollSequence p))"
    by (simp_all add: idle_simps set_rx_interval_def CheckAnyRemoteParamChanged_def ProcessPollSequence_def Let_def)
  ultimately show ?thesis unfolding accept_packet_def by (intro stays_idle_seq) simp
qed

lemma stays_idle_process: "CP_AuthPresent p \<longrightarrow> CP_AuthHeader p \<noteq> None \<Longrightarrow> stays_idle ns (ProcessBfdPacket md5 sha1 p)"
  using stays_idle_accept [of ns p]
  by (auto simp: stays_idle_def ProcessBfdPacket_def AuthenticateReceivedControlPacket_def split: option.splits)

lemma link_step_idle:
  assumes "\<And>src dst p. i = Link_receive src dst p \<Longrightarrow> CP_AuthPresent p \<longrightarrow> CP_AuthHeader p \<noteq> None"
  shows "stays_idle ns (link_step md5 sha1 i)"
proof (cases i)
  case (Link_tx ok)
  have "stays_idle ns (upd (count_written md5 sha1))"
    by (simp add: idle_simps count_written_def)
  then show ?thesis
    unfolding Link_tx link_step_def send_on_link_def
    by (simp, intro conjI impI stays_idle_seq) (simp_all add: stays_idle_update perlink_tx_def)
next
  case Link_expire
  then show ?thesis
    unfolding link_step_def expire_on_link_def by (simp, intro stays_idle_seq) (simp add: idle_simps)
next
  case (Link_receive src dst p)
  then show ?thesis
    unfolding link_step_def receive_on_link_def
    by (simp, intro stays_idle_seq) (use assms stays_idle_process in \<open>simp add: idle_simps\<close>)
qed

text \<open>Whatever happens on the link, and whatever the peer sends, the session stays down, and no client is told anything.\<close>

lemma perlink_stays_down:
  assumes q: "\<not> SP_AuthenticationEnabled q"
    and i: "\<forall>i\<in>set inputs. case i of Link_receive _ _ p \<Rightarrow> CP_AuthPresent p \<longrightarrow> CP_AuthHeader p \<noteq> None | _ \<Rightarrow> True"
  shows "\<exists>s. seq_ops (map (link_step md5 sha1) inputs)
      (StartPerLinkSessionClient (new_session sid dest loc intf True mac gmac prots jit name q)) = Inr s \<and>
    session_state s = STATE_DOWN \<and> B_notifications s = []"
proof -
  have "list_all (stays_idle []) (map (link_step md5 sha1) inputs)"
    using i by (auto simp: list_all_iff intro!: link_step_idle split: link_input.splits)
  then have "stays_idle [] (seq_ops (map (link_step md5 sha1) inputs))" by (rule stays_idle_seq)
  moreover have "idle [] (StartPerLinkSessionClient (new_session sid dest loc intf True mac gmac prots jit name q))"
    using q by (simp add: idle_def StartPerLinkSessionClient_def new_session_def perlink_timeout_def perlink_tx_def)
  ultimately have "holds (idle []) (seq_ops (map (link_step md5 sha1) inputs)
      (StartPerLinkSessionClient (new_session sid dest loc intf True mac gmac prots jit name q)))"
    by (simp add: stays_idle_def)
  then show ?thesis by (auto simp: holds_def idle_def split: sum.splits)
qed

end
