(* ===== verification/BfdServer.thy ===== *)
theory BfdServer
  imports BfdLag Tables
begin

text \<open>
  The session table of the BFD daemon (bfd/server/bfdSessionServer.go, bfdSessionParam.go, bfdGlobalConf.go, bfdSessionGetBulk.go,
  bfdInfra.go): creating and deleting sessions, commands to sessions, parameters, and the readers.

  A session is kept under its identifier; the second table, by address, holds identifiers. The channels that start and stop the
  goroutines of a session, and the sockets, are not modelled: a new session waits for its client to start. The environment gives the
  random numbers, the orders of iteration over maps, the answers of the route daemon and of the operating system.
\<close>

section \<open>Data\<close>

record BfdSessionMgmt =
  M_DestIp :: string
  M_ParamName :: string
  M_Interface :: string
  M_Protocol :: nat
  M_PerLink :: bool
  M_ForceDel :: bool

record BFDServer =
  G_Vrf :: string
  G_Enabled :: bool
  G_NumSessions :: u32
  G_Sessions :: "(i32 \<times> BfdSession) list"
  G_SessionsIdSlice :: "i32 list"
  G_SessionsByIp :: "string \<Rightarrow> i32 option"
  G_InactiveSessionsIdSlice :: "i32 list"
  G_NumSessionParams :: u32
  G_SessionParams :: "(string \<times> SessionParamState) list"
  G_NumUpSessions :: u32
  G_NumDownSessions :: u32
  G_NumAdminDownSessions :: u32
  G_portName :: "i32 \<Rightarrow> string"
  G_vlanName :: "i32 \<Rightarrow> string"
  G_lagPropertyMap :: "i32 \<Rightarrow> i32 list option"
  G_tobeCreatedSessions :: "(string \<times> BfdSessionMgmt) list"
  G_tracked :: "(string \<times> bool) list"

text \<open>The kinds of interface that the code tells apart.\<close>

datatype if_type = IfTypeVlan | IfTypePort | IfTypeLag | IfTypeOther

record bfd_env =
  E_random :: "nat \<Rightarrow> i32"
  E_jitter :: i32
  E_order :: "(i32 \<times> BfdSession) list \<Rightarrow> (i32 \<times> BfdSession) list"
  E_keys :: "string list \<Rightarrow> string list"
  E_reachable :: "string \<Rightarrow> (i32 \<times> string) option"
  E_GetIntfTypeFromIfIndex :: "i32 \<Rightarrow> if_type"
  E_macOf :: "string \<Rightarrow> bytes"
  E_linkLocal6 :: "string \<Rightarrow> bool"

abbreviation (input) bfdDedicatedMac :: bytes where "bfdDedicatedMac \<equiv> [0x01, 0x00, 0x5E, 0x90, 0x00, 0x01]"

text \<open>The maps of an empty interface name: a missing entry is the empty string.\<close>

definition NewBFDServer :: BFDServer where
  "NewBFDServer =
     \<lparr>G_Vrf = [], G_Enabled = False, G_NumSessions = 0, G_Sessions = [], G_SessionsIdSlice = [], G_SessionsByIp = Map.empty,
      G_InactiveSessionsIdSlice = [], G_NumSessionParams = 0, G_SessionParams = [], G_NumUpSessions = 0, G_NumDownSessions = 0,
      G_NumAdminDownSessions = 0, G_portName = (\<lambda>_. []), G_vlanName = (\<lambda>_. []), G_lagPropertyMap = Map.empty,
      G_tobeCreatedSessions = [], G_tracked = []\<rparr>"

section \<open>Interfaces\<close>

definition getLinuxIntfName :: "bfd_env \<Rightarrow> BFDServer \<Rightarrow> i32 \<Rightarrow> string option" where
  "getLinuxIntfName E g ifIndex =
     (case E_GetIntfTypeFromIfIndex E ifIndex of
        IfTypeVlan \<Rightarrow> Some (G_vlanName g ifIndex)
      | IfTypePort \<Rightarrow> Some (G_portName g ifIndex)
      | _ \<Rightarrow> None)"

definition updateLagPropertyMap :: "bool \<Rightarrow> i32 \<Rightarrow> i32 list \<Rightarrow> BFDServer \<Rightarrow> BFDServer" where
  "updateLagPropertyMap create ifIndex links g =
     (if create then if G_lagPropertyMap g ifIndex \<noteq> None then g else g\<lparr>G_lagPropertyMap := (G_lagPropertyMap g)(ifIndex \<mapsto> links)\<rparr>
      else g\<lparr>G_lagPropertyMap := (G_lagPropertyMap g)(ifIndex := None)\<rparr>)"

text \<open>A deleted VLAN has no entry, so its name is empty.\<close>

definition updateVlanPropertyMap :: "bool \<Rightarrow> i32 \<Rightarrow> string \<Rightarrow> BFDServer \<Rightarrow> BFDServer" where
  "updateVlanPropertyMap create vlanId name g = g\<lparr>G_vlanName := (G_vlanName g)(vlanId := (if create then name else []))\<rparr>"

section \<open>Sessions\<close>

definition find_session :: "(BfdSession \<Rightarrow> bool) \<Rightarrow> bfd_env \<Rightarrow> BFDServer \<Rightarrow> i32 option" where
  "find_session P E g = map_option fst (find (\<lambda>(_, s). P s) (E_order E (G_Sessions g)))"

definition FindBfdSession :: "bfd_env \<Rightarrow> string \<Rightarrow> BFDServer \<Rightarrow> i32 option" where
  "FindBfdSession E DestIp = find_session (\<lambda>s. IpAddr (B_state s) = DestIp) E"

definition FindBfdSessionContainingAddr :: "bfd_env \<Rightarrow> string \<Rightarrow> BFDServer \<Rightarrow> i32 option" where
  "FindBfdSessionContainingAddr E DestIp = find_session (\<lambda>s. take (length DestIp) (IpAddr (B_state s)) = DestIp) E"

text \<open>The loop that draws identifiers until one is free; it does not return when none is.\<close>

partial_function (option) draw_id :: "(nat \<Rightarrow> i32) \<Rightarrow> (i32 \<Rightarrow> bool) \<Rightarrow> nat \<Rightarrow> i32 option" where
  "draw_id r used k = (if used (r k) \<or> r k = 0 then draw_id r used (Suc k) else Some (r k))"

definition session_at :: "i32 \<Rightarrow> BFDServer \<Rightarrow> BfdSession option" where
  "session_at sid g = map_of (G_Sessions g) sid"

abbreviation (input) MAX_NUM_SESSIONS :: u32 where "MAX_NUM_SESSIONS \<equiv> 1024"

definition GetNewSessionId :: "bfd_env \<Rightarrow> BFDServer \<Rightarrow> i32 bres" where
  "GetNewSessionId E g =
     (if G_NumSessions g < MAX_NUM_SESSIONS
      then (case draw_id (E_random E) (\<lambda>sid. session_at sid g \<noteq> None) 0 of Some sid \<Rightarrow> Inr sid | None \<Rightarrow> Inl Diverges)
      else Inr 0)"

definition set_session :: "i32 \<Rightarrow> BfdSession \<Rightarrow> BFDServer \<Rightarrow> BFDServer" where
  "set_session sid s g = g\<lparr>G_Sessions := AList.update sid s (G_Sessions g)\<rparr>"

definition set_param :: "string \<Rightarrow> SessionParamState \<Rightarrow> BFDServer \<Rightarrow> BFDServer" where
  "set_param name q g = g\<lparr>G_SessionParams := AList.update name q (G_SessionParams g)\<rparr>"

text \<open>The parameters of a new session: the named ones, else the default ones, else a nil pointer.\<close>

definition param_for :: "string \<Rightarrow> BFDServer \<Rightarrow> (string \<times> SessionParamState) bres" where
  "param_for name g =
     (case map_of (G_SessionParams g) name of
        Some q \<Rightarrow> Inr (name, q)
      | None \<Rightarrow> (case map_of (G_SessionParams g) ''default'' of Some q \<Rightarrow> Inr (''default'', q) | None \<Rightarrow> Inl Panic))"

definition insert_session :: "i32 \<Rightarrow> string \<Rightarrow> BfdSession \<Rightarrow> BFDServer \<Rightarrow> BFDServer" where
  "insert_session sid DestIp s g =
     (set_session sid s g)\<lparr>G_SessionsByIp := (G_SessionsByIp g)(DestIp \<mapsto> sid), G_NumSessions := G_NumSessions g + 1,
        G_SessionsIdSlice := G_SessionsIdSlice g @ [sid]\<rparr>"

definition NewNormalBfdSession ::
    "bfd_env \<Rightarrow> string \<Rightarrow> string \<Rightarrow> string \<Rightarrow> string \<Rightarrow> bool \<Rightarrow> nat \<Rightarrow> BFDServer \<Rightarrow> (BFDServer \<times> i32 option) bres" where
  "NewNormalBfdSession E intf LocalIp DestIp name PerLink Protocol g =
     bind_r (GetNewSessionId E g) (\<lambda>sid.
     if sid = 0 then Inr (g, None)
     else
       bind_r (set_r (replicate 5 False) Protocol True) (\<lambda>protocols.
       bind_r (param_for name g) (\<lambda>(name, q).
       let q = q\<lparr>SP_NumSessions := SP_NumSessions q + 1\<rparr>;
           s = new_session sid DestIp LocalIp intf PerLink (E_macOf E intf) bfdDedicatedMac protocols (E_jitter E) name q
       in Inr (insert_session sid DestIp s (set_param name q g), Some sid))))"

text \<open>One session per link. The name is looked up for the group and not for the link, and a group has none.\<close>

fun new_link_sessions ::
    "bfd_env \<Rightarrow> i32 \<Rightarrow> string \<Rightarrow> string \<Rightarrow> string \<Rightarrow> nat \<Rightarrow> i32 list \<Rightarrow> BFDServer \<Rightarrow> BFDServer bres" where
  "new_link_sessions E ifIndex LocalIp DestIp name Protocol [] g = Inr g"
| "new_link_sessions E ifIndex LocalIp DestIp name Protocol (link # links) g =
     bind_r (NewNormalBfdSession E (case getLinuxIntfName E g ifIndex of Some n \<Rightarrow> n | None \<Rightarrow> []) LocalIp DestIp name True Protocol g)
       (\<lambda>(g, _). new_link_sessions E ifIndex LocalIp DestIp name Protocol links g)"

definition NewPerLinkBfdSessions :: "bfd_env \<Rightarrow> i32 \<Rightarrow> string \<Rightarrow> string \<Rightarrow> string \<Rightarrow> nat \<Rightarrow> BFDServer \<Rightarrow> BFDServer bres" where
  "NewPerLinkBfdSessions E ifIndex LocalIp DestIp name Protocol g =
     (case G_lagPropertyMap g ifIndex of
        Some links \<Rightarrow> new_link_sessions E ifIndex LocalIp DestIp name Protocol links g
      | None \<Rightarrow> Inr g)"

definition GetIfIndexFromDestIp :: "bfd_env \<Rightarrow> string \<Rightarrow> BFDServer \<Rightarrow> BFDServer \<times> (i32 \<times> string) option" where
  "GetIfIndexFromDestIp E DestIp g = (g\<lparr>G_tracked := G_tracked g @ [(DestIp, True)]\<rparr>, E_reachable E DestIp)"

text \<open>A session that could not be made is used through a nil pointer.\<close>

definition mark_specific :: "bool \<Rightarrow> BFDServer \<times> i32 option \<Rightarrow> (BFDServer \<times> i32 option) bres" where
  "mark_specific specific = (\<lambda>(g, sid).
     case sid of
       None \<Rightarrow> Inl Panic
     | Some i \<Rightarrow> (case session_at i g of
         None \<Rightarrow> Inl Panic
       | Some s \<Rightarrow> Inr (set_session i (on_state (\<lambda>t. t\<lparr>InterfaceSpecific := specific\<rparr>) s) g, sid)))"

definition NewBfdSession ::
    "bfd_env \<Rightarrow> string \<Rightarrow> string \<Rightarrow> string \<Rightarrow> nat \<Rightarrow> bool \<Rightarrow> BFDServer \<Rightarrow> (BFDServer \<times> i32 option) bres" where
  "NewBfdSession E DestIp name intf Protocol PerLink g =
     (case GetIfIndexFromDestIp E DestIp g of
        (g, None) \<Rightarrow> Inr (g, None)
      | (g, Some (ifIndex, localIp)) \<Rightarrow>
          if intf \<noteq> [] \<and> (case getLinuxIntfName E g ifIndex of Some n \<Rightarrow> n \<noteq> intf | None \<Rightarrow> False) then Inr (g, None)
          else if E_GetIntfTypeFromIfIndex E ifIndex = IfTypeLag \<and> PerLink
          then bind_r (NewPerLinkBfdSessions E ifIndex localIp DestIp name Protocol g) (\<lambda>g. Inr (g, None))
          else bind_r (NewNormalBfdSession E intf localIp DestIp name False Protocol g) (mark_specific (intf \<noteq> [])))"

text \<open>The address of a link-local peer is extended by the interface.\<close>

definition sessionIp :: "bfd_env \<Rightarrow> BfdSessionMgmt \<Rightarrow> string" where
  "sessionIp E m =
     (if M_Interface m \<noteq> [] \<and> E_linkLocal6 E (M_DestIp m) then M_DestIp m @ ''%'' @ M_Interface m else M_DestIp m)"

text \<open>The second result says whether there is an error.\<close>

definition CreateBfdSession :: "bfd_env \<Rightarrow> BfdSessionMgmt \<Rightarrow> BFDServer \<Rightarrow> (BFDServer \<times> bool) bres" where
  "CreateBfdSession E m g =
     (let ip = sessionIp E m in
      case FindBfdSession E ip g of
        None \<Rightarrow>
          bind_r (NewBfdSession E ip (M_ParamName m) (M_Interface m) (M_Protocol m) (M_PerLink m) g) (\<lambda>(g, sid).
          case sid of
            Some _ \<Rightarrow> Inr (g, False)
          | None \<Rightarrow>
              Inr (if map_of (G_tobeCreatedSessions g) ip = None
                   then g\<lparr>G_tobeCreatedSessions := AList.update ip m (G_tobeCreatedSessions g)\<rparr> else g, True))
      | Some sid \<Rightarrow> (case session_at sid g of
          None \<Rightarrow> Inl Panic
        | Some s \<Rightarrow>
            bind_r (set_r (RegisteredProtocols (B_state s)) (M_Protocol m) True) (\<lambda>ps.
            Inr (set_session sid (on_state (\<lambda>t. t\<lparr>RegisteredProtocols := ps\<rparr>) s) g, False))))"

section \<open>Deleting\<close>

text \<open>The index of the identifier in the slice; when it is missing, the slice expression behind it panics.\<close>

definition remove_id :: "i32 \<Rightarrow> i32 list \<Rightarrow> i32 list bres" where
  "remove_id sid ids = (if sid \<in> set ids then Inr (remove1 sid ids) else Inl Panic)"

definition drop_session :: "i32 \<Rightarrow> BfdSession \<Rightarrow> BFDServer \<Rightarrow> BFDServer bres" where
  "drop_session sid s g =
     (case map_of (G_SessionParams g) (ParamName (B_state s)) of
        None \<Rightarrow> Inl Panic
      | Some q \<Rightarrow>
          bind_r (remove_id sid (G_SessionsIdSlice g)) (\<lambda>ids.
          Inr ((set_param (ParamName (B_state s)) (q\<lparr>SP_NumSessions := SP_NumSessions q - 1\<rparr>) g)
            \<lparr>G_NumSessions := G_NumSessions g - 1, G_Sessions := AList.delete sid (G_Sessions g),
             G_SessionsByIp := (G_SessionsByIp g)(IpAddr (B_state s) := None), G_SessionsIdSlice := ids\<rparr>)))"

definition SessionDeleteHandler :: "i32 \<Rightarrow> nat \<Rightarrow> bool \<Rightarrow> BFDServer \<Rightarrow> BFDServer bres" where
  "SessionDeleteHandler sid Protocol ForceDel g =
     (case session_at sid g of
        None \<Rightarrow> Inl Panic
      | Some s \<Rightarrow>
          bind_r (set_r (RegisteredProtocols (B_state s)) Protocol False) (\<lambda>ps.
          let s = on_state (\<lambda>t. t\<lparr>RegisteredProtocols := ps\<rparr>) s; g = set_session sid s g in
          if ForceDel \<or> \<not> CheckIfAnyProtocolRegistered s then drop_session sid s g else Inr g))"

text \<open>The sessions to an address, in the order of the iteration.\<close>

definition sessions_to :: "bfd_env \<Rightarrow> string \<Rightarrow> BFDServer \<Rightarrow> i32 list" where
  "sessions_to E DestIp g = map fst (filter (\<lambda>(_, s). IpAddr (B_state s) = DestIp) (E_order E (G_Sessions g)))"

definition DeletePerLinkSessions :: "bfd_env \<Rightarrow> string \<Rightarrow> nat \<Rightarrow> bool \<Rightarrow> BFDServer \<Rightarrow> BFDServer bres" where
  "DeletePerLinkSessions E DestIp Protocol ForceDel g =
     seq_ops (map (\<lambda>sid. SessionDeleteHandler sid Protocol ForceDel) (sessions_to E DestIp g)) g"

definition DeleteBfdSession :: "bfd_env \<Rightarrow> BfdSessionMgmt \<Rightarrow> BFDServer \<Rightarrow> BFDServer bres" where
  "DeleteBfdSession E m g =
     (case FindBfdSession E (sessionIp E m) g of
        None \<Rightarrow> Inr g
      | Some sid \<Rightarrow> (case session_at sid g of
          None \<Rightarrow> Inl Panic
        | Some s \<Rightarrow>
            bind_r (if PerLinkSession (B_state s) then DeletePerLinkSessions E (sessionIp E m) (M_Protocol m) (M_ForceDel m) g
                    else SessionDeleteHandler sid (M_Protocol m) (M_ForceDel m) g)
              (\<lambda>g. Inr (g\<lparr>G_tracked := G_tracked g @ [(M_DestIp m, False)]\<rparr>))))"

section \<open>Commands\<close>

definition on_session :: "session_op \<Rightarrow> i32 \<Rightarrow> BFDServer \<Rightarrow> BFDServer bres" where
  "on_session f sid g =
     (case session_at sid g of None \<Rightarrow> Inl Panic | Some s \<Rightarrow> bind_r (f s) (\<lambda>s. Inr (set_session sid s g)))"

text \<open>The session is stopped and its client started again, if the socket can be opened.\<close>

definition ResetBfdSession :: "bool \<Rightarrow> i32 \<Rightarrow> BFDServer \<Rightarrow> BFDServer bres" where
  "ResetBfdSession opened =
     on_session (\<lambda>s.
       let s = (if IsSessionActive s then s\<lparr>B_txTimer := Stopped, B_sessionTimer := Stopped\<rparr> else s);
           s = (ResetLocalSessionParams s)\<lparr>B_isClientActive := False\<rparr>
       in Inr (if opened then StartSessionClient s else s))"

definition to_sessions :: "session_op \<Rightarrow> bfd_env \<Rightarrow> string \<Rightarrow> BFDServer \<Rightarrow> BFDServer bres" where
  "to_sessions f E DestIp g =
     (case FindBfdSession E DestIp g of
        None \<Rightarrow> Inr g
      | Some sid \<Rightarrow> (case session_at sid g of
          None \<Rightarrow> Inl Panic
        | Some s \<Rightarrow>
            if PerLinkSession (B_state s) then seq_ops (map (on_session f) (sessions_to E DestIp g)) g else on_session f sid g))"

definition AdminUpBfdSession :: "bfd_env \<Rightarrow> BfdSessionMgmt \<Rightarrow> BFDServer \<Rightarrow> BFDServer bres" where
  "AdminUpBfdSession E m = to_sessions StartBfdSession E (M_DestIp m)"

definition AdminDownBfdSession :: "bfd_env \<Rightarrow> BfdSessionMgmt \<Rightarrow> BFDServer \<Rightarrow> BFDServer bres" where
  "AdminDownBfdSession E m = to_sessions StopBfdSession E (M_DestIp m)"

definition processGlobalConfig :: "string \<Rightarrow> bool \<Rightarrow> BFDServer \<Rightarrow> BFDServer bres" where
  "processGlobalConfig vrf enable g =
     (let was = G_Enabled g; g = g\<lparr>G_Vrf := vrf, G_Enabled := enable\<rparr> in
      if \<not> was \<and> enable then seq_ops (map (on_session StartBfdSession) (G_SessionsIdSlice g)) g
      else if was \<and> \<not> enable then seq_ops (map (on_session StopBfdSession) (G_SessionsIdSlice g)) g
      else Inr g)"

datatype BfdSessionOperation = CREATE | DELETE | ADMINUP | ADMINDOWN

definition processSessionConfig :: "bfd_env \<Rightarrow> BfdSessionOperation \<Rightarrow> BfdSessionMgmt \<Rightarrow> BFDServer \<Rightarrow> BFDServer bres" where
  "processSessionConfig E oper m g =
     (let m = m\<lparr>M_ForceDel := False\<rparr> in
      case oper of
        CREATE \<Rightarrow> bind_r (CreateBfdSession E m g) (\<lambda>(g, _). Inr g)
      | DELETE \<Rightarrow> DeleteBfdSession E m g
      | ADMINUP \<Rightarrow> AdminUpBfdSession E m g
      | ADMINDOWN \<Rightarrow> AdminDownBfdSession E m g)"

text \<open>
  When a destination becomes reachable, the sessions that wait are tried again. The entry is deleted under the plain address, which may
  be the key of another entry; the iteration leaves out an entry that was deleted before it was reached.
\<close>

fun retry_sessions :: "bfd_env \<Rightarrow> string list \<Rightarrow> BFDServer \<Rightarrow> BFDServer bres" where
  "retry_sessions E [] g = Inr g"
| "retry_sessions E (ip # ips) g =
     (case map_of (G_tobeCreatedSessions g) ip of
        None \<Rightarrow> retry_sessions E ips g
      | Some m \<Rightarrow>
          bind_r (CreateBfdSession E m g) (\<lambda>(g, failed).
          retry_sessions E ips
            (if failed then g else g\<lparr>G_tobeCreatedSessions := AList.delete (M_DestIp m) (G_tobeCreatedSessions g)\<rparr>)))"

definition HandleNextHopChange :: "bfd_env \<Rightarrow> bool \<Rightarrow> BFDServer \<Rightarrow> BFDServer bres" where
  "HandleNextHopChange E Reachable g =
     (if Reachable then retry_sessions E (E_keys E (map fst (G_tobeCreatedSessions g))) g else Inr g)"

definition SendAdminUpToAllNeighbors :: "bfd_env \<Rightarrow> BFDServer \<Rightarrow> BFDServer bres" where
  "SendAdminUpToAllNeighbors E g = seq_ops (map (\<lambda>(i, _). on_session StartBfdSession i) (E_order E (G_Sessions g))) g"

definition SendAdminDownToAllNeighbors :: "bfd_env \<Rightarrow> BFDServer \<Rightarrow> BFDServer bres" where
  "SendAdminDownToAllNeighbors E g = seq_ops (map (\<lambda>(i, _). on_session StopBfdSession i) (E_order E (G_Sessions g))) g"

section \<open>Clients of sessions\<close>

text \<open>
  A created session gets its queue and its client; a client that cannot open its socket is noted as inactive. Every five seconds the
  clients of the inactive sessions are started again, and a session that was looked at is cut out of the slice, which moves the next one
  to its place, while the index goes on.
\<close>

definition start_client :: "BfdSession \<Rightarrow> BfdSession" where
  "start_client s = (if PerLinkSession (B_state s) then StartPerLinkSessionClient s else StartSessionClient s)"

definition client_failed :: "i32 \<Rightarrow> BFDServer \<Rightarrow> BFDServer" where
  "client_failed sid g =
     (if session_at sid g \<noteq> None then g\<lparr>G_InactiveSessionsIdSlice := G_InactiveSessionsIdSlice g @ [sid]\<rparr> else g)"

definition StartBfdSessionRxTx :: "bool \<Rightarrow> i32 \<Rightarrow> BFDServer \<Rightarrow> BFDServer" where
  "StartBfdSessionRxTx opened sid g =
     (case session_at sid g of
        None \<Rightarrow> g
      | Some s \<Rightarrow>
          let s = s\<lparr>B_ReceivedPacketCh := [], B_isClientActive := False\<rparr> in
          if opened then set_session sid (start_client s) g else client_failed sid (set_session sid s g))"

fun retry_pass :: "(i32 \<Rightarrow> bool) \<Rightarrow> i32 list \<Rightarrow> BFDServer \<Rightarrow> i32 list \<times> BFDServer" where
  "retry_pass opened [] g = ([], g)"
| "retry_pass opened (sid # ids) g =
     (case session_at sid g of
        None \<Rightarrow> (let (ids, g) = retry_pass opened ids g in (sid # ids, g))
      | Some s \<Rightarrow>
          let g = (if \<not> B_isClientActive s \<and> opened sid then set_session sid (start_client s) g else g) in
          (case ids of
             [] \<Rightarrow> ([], g)
           | skipped # ids \<Rightarrow> let (ids, g) = retry_pass opened ids g in (skipped # ids, g)))"

text \<open>The clients that fail again are noted after the pass.\<close>

definition StartSessionRetryHandler :: "(i32 \<Rightarrow> bool) \<Rightarrow> BFDServer \<Rightarrow> BFDServer" where
  "StartSessionRetryHandler opened g =
     (let (ids, g) = retry_pass opened (G_InactiveSessionsIdSlice g) g in g\<lparr>G_InactiveSessionsIdSlice := ids\<rparr>)"

section \<open>Received packets\<close>

definition DispatchReceivedBfdPacket :: "string \<Rightarrow> BfdControlPacket \<Rightarrow> BFDServer \<Rightarrow> BFDServer" where
  "DispatchReceivedBfdPacket ipAddr p g =
     (let sid = (case session_at (CP_YourDiscriminator p) g of Some _ \<Rightarrow> Some (CP_YourDiscriminator p) | None \<Rightarrow> G_SessionsByIp g ipAddr) in
      case sid of
        None \<Rightarrow> g
      | Some i \<Rightarrow> (case session_at i g of None \<Rightarrow> g | Some s \<Rightarrow> set_session i (dispatch_to_session p s) g))"

text \<open>
  The server of a session on a link takes the frames of the link (sender, destination, and the datagram), until its session is deleted.
  The session that a packet names is used without a check that it exists.
\<close>

definition StartPerLinkSessionServer ::
    "(bytes \<Rightarrow> bytes) \<Rightarrow> (bytes \<Rightarrow> bytes) \<Rightarrow> bytes \<Rightarrow> i32 \<Rightarrow> bytes \<times> bytes \<times> bytes \<Rightarrow> BFDServer \<Rightarrow> BFDServer bres" where
  "StartPerLinkSessionServer md5 sha1 myMac sid = (\<lambda>(src, dst, buf) g.
     if session_at sid g = None \<or> src = myMac \<or> length buf < DEFAULT_CONTROL_PACKET_LEN then Inr g
     else case DecodeBfdControlPacket buf of
       Inr p \<Rightarrow> if CP_YourDiscriminator p = 0 then Inr g else on_session (receive_on_link md5 sha1 src dst p) (CP_YourDiscriminator p) g
     | Inl (Error _) \<Rightarrow> Inr g
     | Inl e \<Rightarrow> Inl e)"

section \<open>Parameters\<close>

definition UpdateBfdSessionsUsingParam :: "string \<Rightarrow> BFDServer \<Rightarrow> BFDServer" where
  "UpdateBfdSessionsUsingParam name g =
     g\<lparr>G_Sessions := map (\<lambda>(i, s). (i, if ParamName (B_state s) = name then use_param (map_of (G_SessionParams g) name) s else s)) (G_Sessions g)\<rparr>"

definition createDefaultSessionParam :: "BFDServer \<Rightarrow> BFDServer" where
  "createDefaultSessionParam g =
     (if map_of (G_SessionParams g) ''default'' = None then
        UpdateBfdSessionsUsingParam ''default''
          ((set_param ''default''
             \<lparr>SP_Name = ''default'', SP_NumSessions = 0, SP_LocalMultiplier = ucast DEFAULT_DETECT_MULTI,
              SP_DesiredMinTxInterval = DEFAULT_DESIRED_MIN_TX_INTERVAL, SP_RequiredMinRxInterval = DEFAULT_REQUIRED_MIN_RX_INTERVAL,
              SP_RequiredMinEchoRxInterval = 0, SP_DemandEnabled = False, SP_AuthenticationEnabled = False, SP_AuthenticationType = 0,
              SP_AuthenticationKeyId = 0, SP_AuthenticationData = []\<rparr> g)\<lparr>G_NumSessionParams := G_NumSessionParams g + 1\<rparr>)
      else g)"

text \<open>The intervals of a configuration are in milliseconds and multiplied in 32 bits.\<close>

definition processSessionParamConfig :: "SessionParamState \<Rightarrow> BFDServer \<Rightarrow> BFDServer" where
  "processSessionParamConfig conf g =
     (let old = map_of (G_SessionParams g) (SP_Name conf);
          q = conf\<lparr>SP_NumSessions := (case old of Some q \<Rightarrow> SP_NumSessions q | None \<Rightarrow> 0),
                   SP_DesiredMinTxInterval := SP_DesiredMinTxInterval conf * 1000,
                   SP_RequiredMinRxInterval := SP_RequiredMinRxInterval conf * 1000,
                   SP_RequiredMinEchoRxInterval := SP_RequiredMinEchoRxInterval conf * 1000\<rparr>;
          g = set_param (SP_Name conf) q g;
          g = (if old = None then g\<lparr>G_NumSessionParams := G_NumSessionParams g + 1\<rparr> else g)
      in UpdateBfdSessionsUsingParam (SP_Name conf) g)"

definition processSessionParamDelete :: "string \<Rightarrow> BFDServer \<Rightarrow> BFDServer" where
  "processSessionParamDelete name g =
     (if map_of (G_SessionParams g) name \<noteq> None then
        UpdateBfdSessionsUsingParam name
          (g\<lparr>G_SessionParams := AList.delete name (G_SessionParams g), G_NumSessionParams := G_NumSessionParams g - 1\<rparr>)
      else g)"

definition initBfdGlobalConfDefault :: "BFDServer \<Rightarrow> BFDServer" where
  "initBfdGlobalConfDefault g = g\<lparr>G_Enabled := True\<rparr>"

text \<open>The names of the ports are what the hardware daemon answers.\<close>

definition InitServer :: "(i32 \<Rightarrow> string) \<Rightarrow> BFDServer \<Rightarrow> BFDServer" where
  "InitServer ports g = createDefaultSessionParam ((initBfdGlobalConfDefault g)\<lparr>G_portName := ports\<rparr>)"

section \<open>Readers\<close>

text \<open>
  A page of sessions. The variable that counts the entries is set only for the last page; entries are written at the index of the
  session, not at the index in the page. An entry that is not written is \<open>None\<close> (the zero value in the code). All parameters are
  written, whatever the size of the page. The local address of a session is not shown.
\<close>

record GlobalState =
  GS_Vrf :: string
  GS_Enable :: bool
  GS_NumSessions :: u32
  GS_NumUpSessions :: u32
  GS_NumDownSessions :: u32
  GS_NumAdminDownSessions :: u32

definition GetBfdGlobalState :: "BFDServer \<Rightarrow> GlobalState" where
  "GetBfdGlobalState g =
     \<lparr>GS_Vrf = G_Vrf g, GS_Enable = G_Enabled g, GS_NumSessions = G_NumSessions g, GS_NumUpSessions = G_NumUpSessions g,
      GS_NumDownSessions = G_NumDownSessions g, GS_NumAdminDownSessions = G_NumAdminDownSessions g\<rparr>"

definition public_state :: "BfdSession \<Rightarrow> SessionState" where
  "public_state s = (B_state s)\<lparr>IpAddr := takeWhile (\<lambda>c. c \<noteq> CHR ''%'') (IpAddr (B_state s)), LocalAddr := []\<rparr>"

definition bulk_states :: "nat \<Rightarrow> nat \<Rightarrow> BFDServer \<Rightarrow> SessionState option list bres" where
  "bulk_states idx cnt g =
     fold (\<lambda>i r. bind_r r (\<lambda>xs. bind_r (index_r (G_SessionsIdSlice g) i) (\<lambda>sid.
         case session_at sid g of None \<Rightarrow> Inl Panic | Some s \<Rightarrow> set_r xs i (Some (public_state s))))) [idx..<cnt] (Inr (replicate cnt None))"

definition GetBulkBfdSessionStates :: "nat \<Rightarrow> nat \<Rightarrow> BFDServer \<Rightarrow> (nat \<times> nat \<times> SessionState option list) bres" where
  "GetBulkBfdSessionStates idx cnt g =
     (let len = length (G_SessionsIdSlice g);
          cnt' = (if idx + cnt \<ge> len then int len - int idx else 0);
          nextIdx = (if idx + cnt \<ge> len then 0 else idx + 1)
      in if cnt' < 0 then Inl Panic
         else bind_r (bulk_states idx (nat cnt') g) (\<lambda>xs. Inr (nextIdx, nat cnt', xs)))"

definition GetBfdSessionState :: "bfd_env \<Rightarrow> string \<Rightarrow> BFDServer \<Rightarrow> SessionState option bres" where
  "GetBfdSessionState E ipAddr g =
     (case FindBfdSessionContainingAddr E ipAddr g of
        None \<Rightarrow> Inr None
      | Some sid \<Rightarrow> (case session_at sid g of
          None \<Rightarrow> Inl Panic
        | Some s \<Rightarrow> Inr (Some (public_state s))))"

definition GetBulkBfdSessionParamStates :: "nat \<Rightarrow> BFDServer \<Rightarrow> (nat \<times> SessionParamState option list) bres" where
  "GetBulkBfdSessionParamStates cnt g =
     (let ps = map snd (G_SessionParams g) in
      if length ps > cnt then Inl Panic else Inr (length ps, map Some ps @ replicate (cnt - length ps) None))"

definition GetBfdSessionParamState :: "string \<Rightarrow> BFDServer \<Rightarrow> SessionParamState option" where
  "GetBfdSessionParamState name g = map_of (G_SessionParams g) name"

section \<open>All steps\<close>

text \<open>
  Everything that reaches the daemon: configuration, notifications of the other daemons, packets, and the timers and queues of the
  sessions. A timer or a queue belongs to a session of the table.
\<close>

datatype server_input =
    Session_config BfdSessionOperation BfdSessionMgmt
  | Global_config string bool
  | Param_config SessionParamState
  | Param_delete string
  | Reset bool i32
  | Next_hop bool
  | Packet string BfdControlPacket
  | Vlan bool i32 string
  | Lag bool i32 "i32 list"
  | Client bool i32
  | Retry "i32 \<Rightarrow> bool"
  | Serve_queue i32
  | Tx_timer bool i32
  | Session_timer i32
  | Link_client link_input i32
  | Link_frame bytes i32 "bytes \<times> bytes \<times> bytes"

definition server_step :: "(bytes \<Rightarrow> bytes) \<Rightarrow> (bytes \<Rightarrow> bytes) \<Rightarrow> bfd_env \<Rightarrow> server_input \<Rightarrow> BFDServer \<Rightarrow> BFDServer bres" where
  "server_step md5 sha1 E i g =
     (case i of
        Session_config oper m \<Rightarrow> processSessionConfig E oper m g
      | Global_config vrf enable \<Rightarrow> processGlobalConfig vrf enable g
      | Param_config q \<Rightarrow> Inr (processSessionParamConfig q g)
      | Param_delete name \<Rightarrow> Inr (processSessionParamDelete name g)
      | Reset opened sid \<Rightarrow> ResetBfdSession opened sid g
      | Next_hop reachable \<Rightarrow> HandleNextHopChange E reachable g
      | Packet ip p \<Rightarrow> Inr (DispatchReceivedBfdPacket ip p g)
      | Vlan create vlan name \<Rightarrow> Inr (updateVlanPropertyMap create vlan name g)
      | Lag create ifIndex links \<Rightarrow> Inr (updateLagPropertyMap create ifIndex links g)
      | Client opened sid \<Rightarrow> Inr (StartBfdSessionRxTx opened sid g)
      | Retry opened \<Rightarrow> Inr (StartSessionRetryHandler opened g)
      | Serve_queue sid \<Rightarrow> on_session (StartSessionServer md5 sha1) sid g
      | Tx_timer ok sid \<Rightarrow> on_session (SendPeriodicControlPackets md5 sha1 ok) sid g
      | Session_timer sid \<Rightarrow> on_session HandleSessionTimeout sid g
      | Link_client i sid \<Rightarrow> on_session (link_step md5 sha1 i) sid g
      | Link_frame mac sid fr \<Rightarrow> StartPerLinkSessionServer md5 sha1 mac sid fr g)"

end
