(* ===== verification/BfdTable.thy ===== *)
theory BfdTable
  imports BfdServer
begin

text \<open>
  The invariant of the session table of the BFD daemon, the search for a free identifier, and where creating, deleting and reading
  sessions fail.
\<close>

section \<open>Identifiers\<close>

lemma draw_id_found:
  "\<not> used (r j) \<Longrightarrow> r j \<noteq> 0 \<Longrightarrow> k \<le> j \<Longrightarrow> \<exists>sid. draw_id r used k = Some sid \<and> \<not> used sid \<and> sid \<noteq> 0 \<and> sid \<in> range r"
proof (induction "j - k" arbitrary: k)
  case 0
  then have "k = j" by simp
  then show ?case using 0 by (simp add: draw_id.simps [of r used j])
next
  case (Suc n)
  show ?case
  proof (cases "used (r k) \<or> r k = 0")
    case True
    then have "Suc k \<le> j" using Suc.prems Suc.hyps(2) by simp
    then show ?thesis using Suc True by (simp add: draw_id.simps [of r used k])
  qed (simp add: draw_id.simps [of r used k])
qed

lemma draw_id_sound: "draw_id r used k = Some sid \<Longrightarrow> \<not> used sid \<and> sid \<noteq> 0 \<and> sid \<in> range r"
  by (rule draw_id.raw_induct [of "\<lambda>r used k sid. \<not> used sid \<and> sid \<noteq> 0 \<and> sid \<in> range r"]) (auto split: if_splits)

text \<open>The search returns exactly if a free identifier is drawn at some time.\<close>

lemma draw_id_returns: "(\<exists>sid. draw_id r used 0 = Some sid) \<longleftrightarrow> (\<exists>j. \<not> used (r j) \<and> r j \<noteq> 0)"
  using draw_id_found [of used r _ 0] draw_id_sound [of r used 0] by (metis le0 rangeE)

section \<open>Invariant\<close>

definition env_ok :: "bfd_env \<Rightarrow> bool" where
  "env_ok E \<longleftrightarrow> (\<forall>k. E_random E k < 1024) \<and> (\<forall>l. set (E_order E l) = set l)"

definition session_ok :: "i32 \<Rightarrow> BfdSession \<Rightarrow> bool" where
  "session_ok i s \<longleftrightarrow>
     i \<noteq> 0 \<and> i < 1024 \<and> SessionId (B_state s) = i \<and> LocalDiscriminator (B_state s) = i \<and> length (RegisteredProtocols (B_state s)) = 5"

definition table_inv :: "BFDServer \<Rightarrow> bool" where
  "table_inv g \<longleftrightarrow>
     distinct (map fst (G_Sessions g)) \<and> distinct (G_SessionsIdSlice g) \<and> set (G_SessionsIdSlice g) = fst ` set (G_Sessions g) \<and>
     G_NumSessions g = of_nat (length (G_Sessions g)) \<and> (\<forall>(i, s)\<in>set (G_Sessions g). session_ok i s) \<and>
     (\<forall>ip i. G_SessionsByIp g ip = Some i \<longrightarrow> (\<exists>s. session_at i g = Some s \<and> IpAddr (B_state s) = ip))"

lemma NewBFDServer_inv: "table_inv NewBFDServer"
  by (simp add: table_inv_def NewBFDServer_def)

lemma session_at_set: "table_inv g \<Longrightarrow> session_at i g = Some s \<longleftrightarrow> (i, s) \<in> set (G_Sessions g)"
  by (simp add: table_inv_def session_at_def)

lemma session_at_ok: "table_inv g \<Longrightarrow> session_at i g = Some s \<Longrightarrow> session_ok i s"
  by (auto simp: session_at_set table_inv_def)

lemma by_ip: "table_inv g \<Longrightarrow> G_SessionsByIp g ip = Some i \<Longrightarrow> \<exists>s. session_at i g = Some s \<and> IpAddr (B_state s) = ip"
  by (simp add: table_inv_def)

text \<open>There are at most 1023 sessions.\<close>

lemma table_size: "table_inv g \<Longrightarrow> length (G_Sessions g) \<le> 1023"
proof -
  assume inv: "table_inv g"
  have "fst ` set (G_Sessions g) \<subseteq> word_of_nat ` {1..<1024}"
  proof
    fix i assume "i \<in> fst ` set (G_Sessions g)"
    then have "i \<noteq> 0" "i < 1024" using inv by (auto simp: table_inv_def session_ok_def)
    then show "i \<in> word_of_nat ` {1..<1024}"
      by (intro image_eqI [of _ _ "unat i"]) (simp_all add: word_less_nat_alt Suc_leI unat_gt_0)
  qed
  then have "card (fst ` set (G_Sessions g)) \<le> card (word_of_nat ` {1..<1024::nat} :: i32 set)" by (intro card_mono) simp_all
  also have "\<dots> \<le> 1023" using card_image_le [of "{1..<1024::nat}" "word_of_nat :: nat \<Rightarrow> i32"] by simp
  finally show ?thesis using inv by (simp add: table_inv_def distinct_card flip: set_map)
qed

lemma num_sessions_small: "table_inv g \<Longrightarrow> G_NumSessions g < 1024"
  using table_size [of g] by (simp add: table_inv_def word_less_nat_alt unat_of_nat)

lemma GetNewSessionId_ok:
  assumes "table_inv g" "env_ok E" "GetNewSessionId E g = Inr sid"
  shows "sid \<noteq> 0 \<and> sid < 1024 \<and> session_at sid g = None"
  using assms num_sessions_small [OF assms(1)] draw_id_sound [of "E_random E" "\<lambda>sid. session_at sid g \<noteq> None" 0 sid]
  by (auto simp: GetNewSessionId_def env_ok_def split: option.splits)

section \<open>Commands to sessions\<close>

text \<open>What no command to a session changes.\<close>

definition ident :: "BfdSession \<Rightarrow> i32 \<times> u32 \<times> string \<times> bool list" where
  "ident s = (SessionId (B_state s), LocalDiscriminator (B_state s), IpAddr (B_state s), RegisteredProtocols (B_state s))"

lemma set_session_inv:
  assumes inv: "table_inv g" and at: "session_at i g = Some s" and s': "session_ok i s'" "IpAddr (B_state s') = IpAddr (B_state s)"
  shows "table_inv (set_session i s' g)"
proof -
  have "(i, s) \<in> set (G_Sessions g)" using at session_at_set [OF inv] by simp
  then have "i \<in> fst ` set (G_Sessions g)" by force
  then have keys: "map fst (AList.update i s' (G_Sessions g)) = map fst (G_Sessions g)" by (simp add: update_keys)
  have k: "length (AList.update i s' (G_Sessions g)) = length (G_Sessions g)" using keys by (metis length_map)
  have e: "set (AList.update i s' (G_Sessions g)) \<subseteq> insert (i, s') (set (G_Sessions g))" by (rule set_update_subset)
  have "session_at j (set_session i s' g) = (if j = i then Some s' else session_at j g)" for j
    by (simp add: session_at_def set_session_def update_conv)
  moreover have "fst ` set (AList.update i s' (G_Sessions g)) = fst ` set (G_Sessions g)" using keys by (metis set_map)
  moreover have "\<exists>t. session_at j (set_session i s' g) = Some t \<and> IpAddr (B_state t) = ip" if "G_SessionsByIp g ip = Some j" for ip j
  proof -
    from by_ip [OF inv that] obtain t where "session_at j g = Some t" "IpAddr (B_state t) = ip" by blast
    then show ?thesis using calculation(1) at s'(2) by (cases "j = i") auto
  qed
  ultimately show ?thesis
    using inv e s'(1) keys k by (auto simp: table_inv_def set_session_def)
qed

locale session_command =
  fixes f :: session_op
  assumes keeps_ident: "f s = Inr s' \<Longrightarrow> ident s' = ident s"
begin

lemma on_session_inv: "table_inv g \<Longrightarrow> on_session f sid g = Inr g' \<Longrightarrow> table_inv g'"
  using session_at_ok [of g sid] keeps_ident
  by (auto simp: on_session_def bind_r_eq_Inr ident_def session_ok_def split: option.splits intro!: set_session_inv)

lemma all_inv: "table_inv g \<Longrightarrow> seq_ops (map (on_session f) ids) g = Inr g' \<Longrightarrow> table_inv g'"
  by (induction ids arbitrary: g) (auto simp: bind_r_eq_Inr dest: on_session_inv)

lemma to_sessions_inv: "table_inv g \<Longrightarrow> to_sessions f E ip g = Inr g' \<Longrightarrow> table_inv g'"
  by (auto simp: to_sessions_def split: option.splits if_splits intro: on_session_inv all_inv)

end

text \<open>The operations of a session keep what identifies it.\<close>

definition keeps_id :: "session_op \<Rightarrow> bool" where
  "keeps_id f \<longleftrightarrow> (\<forall>s s'. f s = Inr s' \<longrightarrow> ident s' = ident s)"

lemma keeps_id_seq: "list_all keeps_id fs \<Longrightarrow> keeps_id (seq_ops fs)"
proof (induction fs)
  case (Cons f fs)
  then have "keeps_id f" "keeps_id (seq_ops fs)" by simp_all
  then show ?case unfolding keeps_id_def seq_ops.simps bind_r_eq_Inr by metis
qed (simp add: keeps_id_def)

lemma keeps_id_upd: "(\<And>s. ident (f s) = ident s) \<Longrightarrow> keeps_id (upd f)"
  by (auto simp: keeps_id_def upd_def)

lemma keeps_id_timers [simp]: "keeps_id (session_timer f)" "keeps_id (tx_timer f)"
  by (auto simp: keeps_id_def session_timer_def tx_timer_def bind_r_eq_Inr ident_def)

lemma keeps_id_Inr [simp]: "keeps_id Inr"
  by (simp add: keeps_id_def)

lemmas ident_simps = keeps_id_upd ident_def on_state_def set_tx_startup_def set_rx_startup_def count_keyed_def

lemma keeps_id_moves [simp]:
  "keeps_id MoveToDownState" "keeps_id MoveToInitState" "keeps_id MoveToUpState" "keeps_id LocalAdminDown" "keeps_id RemoteAdminDown"
  unfolding MoveToDownState_def MoveToInitState_def MoveToUpState_def LocalAdminDown_def RemoteAdminDown_def
  by (rule keeps_id_seq, simp add: ident_simps)+

lemma keeps_id_EventHandler [simp]: "keeps_id (EventHandler ev)"
proof -
  have "keeps_id (handle_event st ev)" for st by (cases st; cases ev) simp_all
  then show ?thesis by (simp add: keeps_id_def EventHandler_def)
qed

lemma keeps_id_update: "keeps_id UpdateBfdSessionControlPacket"
proof -
  have "keeps_id fill_auth" "keeps_id (demand_timer was)" for was
    by (auto simp: keeps_id_def fill_auth_def demand_timer_def session_timer_def bind_r_eq_Inr ident_def Let_def split: if_splits option.splits)
  moreover from this have "keeps_id (\<lambda>s. if session_state s = STATE_UP \<and> remote_state s = STATE_UP then up_intervals s else Inr (startup_intervals s))"
    by (auto simp: keeps_id_def up_intervals_def startup_intervals_def InitiatePollSequence_def ident_def Let_def split: if_splits)
  ultimately show ?thesis
    unfolding UpdateBfdSessionControlPacket_def
    by (intro keeps_id_seq) (simp add: ident_simps copy_state_def copy_poll_def Let_def)
qed

lemma keeps_id_send: "keeps_id (SendPeriodicControlPackets md5 sha1 ok)"
proof -
  have "keeps_id (renew_packet md5 sha1)"
    unfolding renew_packet_def by (intro keeps_id_seq) (simp add: keeps_id_update ident_simps)
  moreover have "keeps_id (upd (write_packet ok))" "keeps_id (upd set_tx_interval)"
    by (simp_all add: ident_simps write_packet_def set_tx_interval_def)
  ultimately have s: "keeps_id (seq_ops [r, upd (write_packet ok), r, upd set_tx_interval, tx_timer (\<lambda>s. Armed (sint (ApplyTxJitter s)))])"
    if "r \<in> {renew_packet md5 sha1, Inr}" for r using that by (intro keeps_id_seq) auto
  show ?thesis
    using s [of "renew_packet md5 sha1"] s [of Inr] by (simp add: keeps_id_def SendPeriodicControlPackets_def Let_def del: seq_ops.simps)
qed

lemma keeps_id_accept: "keeps_id (accept_packet p)"
proof -
  have "keeps_id (RemoteChangedDemandMode p)" "keeps_id stop_if_idle" "keeps_id adapt_to_remote"
    by (auto simp: keeps_id_def RemoteChangedDemandMode_def stop_if_idle_def adapt_to_remote_def session_timer_def tx_timer_def bind_r_eq_Inr
        ident_def on_state_def Let_def split: if_splits BfdSessionState.splits)
  moreover have "keeps_id handle_remote" using keeps_id_EventHandler by (simp add: keeps_id_def handle_remote_def)
  moreover have "keeps_id (upd (set_rx_interval p))" "keeps_id (upd (CheckAnyRemoteParamChanged p))" "keeps_id (upd (ProcessPollSequence p))"
    by (simp_all add: ident_simps set_rx_interval_def CheckAnyRemoteParamChanged_def ProcessPollSequence_def Let_def)
  ultimately show ?thesis unfolding accept_packet_def by (intro keeps_id_seq) simp
qed

lemma keeps_id_process: "keeps_id (ProcessBfdPacket md5 sha1 p)"
  using keeps_id_accept [of p] by (auto simp: keeps_id_def ProcessBfdPacket_def bind_r_eq_Inr split: if_splits)

lemma keeps_id_serve: "keeps_id (StartSessionServer md5 sha1)"
proof -
  have "keeps_id (seq_ops [upd (\<lambda>s. s\<lparr>B_ReceivedPacketCh := q\<rparr>), upd (on_state (\<lambda>t. t\<lparr>NumRxPackets := NumRxPackets t + 1\<rparr>)), ProcessBfdPacket md5 sha1 p])"
    for p q by (intro keeps_id_seq) (simp add: ident_simps keeps_id_process)
  then show ?thesis by (simp add: keeps_id_def StartSessionServer_def del: seq_ops.simps split: list.splits)
qed

lemma keeps_id_expire: "keeps_id HandleSessionTimeout"
  unfolding HandleSessionTimeout_def by (intro keeps_id_seq) (simp add: ident_simps ResetRemoteSessionParams_def)

lemma keeps_id_link: "keeps_id (link_step md5 sha1 i)"
proof (cases i)
  case (Link_tx ok)
  have "keeps_id (upd (count_written md5 sha1))" by (simp add: ident_simps count_written_def)
  then show ?thesis
    unfolding Link_tx link_step_def send_on_link_def by (simp, intro conjI impI keeps_id_seq) (simp_all add: keeps_id_update)
next
  case Link_expire
  then show ?thesis
    unfolding Link_expire link_step_def expire_on_link_def by (simp, intro keeps_id_seq) (simp add: ident_simps)
next
  case (Link_receive src dst p)
  then show ?thesis
    unfolding Link_receive link_step_def receive_on_link_def by (simp, intro keeps_id_seq) (simp add: ident_simps keeps_id_process)
qed

lemma keeps_id_commands: "keeps_id StartBfdSession" "keeps_id StopBfdSession"
  unfolding StartBfdSession_def StopBfdSession_def by (rule keeps_id_seq, simp add: ident_simps)+

interpretation up_cmd: session_command StartBfdSession
  by unfold_locales (use keeps_id_commands in \<open>simp add: keeps_id_def\<close>)

interpretation down_cmd: session_command StopBfdSession
  by unfold_locales (use keeps_id_commands in \<open>simp add: keeps_id_def\<close>)

interpretation serve_cmd: session_command "StartSessionServer md5 sha1" for md5 sha1
  by unfold_locales (use keeps_id_serve in \<open>simp add: keeps_id_def\<close>)

interpretation send_cmd: session_command "SendPeriodicControlPackets md5 sha1 ok" for md5 sha1 ok
  by unfold_locales (use keeps_id_send in \<open>simp add: keeps_id_def\<close>)

interpretation expire_cmd: session_command HandleSessionTimeout
  by unfold_locales (use keeps_id_expire in \<open>simp add: keeps_id_def\<close>)

interpretation link_cmd: session_command "link_step md5 sha1 i" for md5 sha1 i
  by unfold_locales (use keeps_id_link in \<open>simp add: keeps_id_def\<close>)

interpretation reset_cmd: session_command
  "\<lambda>s. let s = (if IsSessionActive s then s\<lparr>B_txTimer := Stopped, B_sessionTimer := Stopped\<rparr> else s);
           s = (ResetLocalSessionParams s)\<lparr>B_isClientActive := False\<rparr>
       in Inr (if opened then StartSessionClient s else s)" for opened
  by unfold_locales (auto simp: Let_def ResetLocalSessionParams_def StartSessionClient_def ident_def on_state_def split: if_splits)

section \<open>Creating and deleting\<close>

lemma session_at_upd [simp]:
  "session_at i (g\<lparr>G_SessionParams := a\<rparr>) = session_at i g" "session_at i (g\<lparr>G_tracked := b\<rparr>) = session_at i g"
  "session_at i (g\<lparr>G_tobeCreatedSessions := c\<rparr>) = session_at i g" "session_at i (g\<lparr>G_NumSessionParams := d\<rparr>) = session_at i g"
  "session_at i (g\<lparr>G_Vrf := e\<rparr>) = session_at i g" "session_at i (g\<lparr>G_Enabled := f\<rparr>) = session_at i g"
  "session_at i (g\<lparr>G_InactiveSessionsIdSlice := h\<rparr>) = session_at i g" "session_at i (g\<lparr>G_vlanName := j\<rparr>) = session_at i g"
  "session_at i (g\<lparr>G_lagPropertyMap := k\<rparr>) = session_at i g"
  by (simp_all add: session_at_def)

lemma table_inv_upd [simp]:
  "table_inv (g\<lparr>G_SessionParams := a\<rparr>) = table_inv g" "table_inv (g\<lparr>G_tracked := b\<rparr>) = table_inv g"
  "table_inv (g\<lparr>G_tobeCreatedSessions := c\<rparr>) = table_inv g" "table_inv (g\<lparr>G_NumSessionParams := d\<rparr>) = table_inv g"
  "table_inv (g\<lparr>G_Vrf := e\<rparr>) = table_inv g" "table_inv (g\<lparr>G_Enabled := f\<rparr>) = table_inv g"
  "table_inv (g\<lparr>G_InactiveSessionsIdSlice := h\<rparr>) = table_inv g" "table_inv (g\<lparr>G_vlanName := j\<rparr>) = table_inv g"
  "table_inv (g\<lparr>G_lagPropertyMap := k\<rparr>) = table_inv g"
  by (simp_all add: table_inv_def)

lemma table_inv_param [simp]: "table_inv (set_param n q g) = table_inv g"
  by (simp add: set_param_def)

lemma insert_session_inv:
  assumes inv: "table_inv g" and new: "session_at sid g = None" and ok: "session_ok sid s" "IpAddr (B_state s) = ip"
  shows "table_inv (insert_session sid ip s g)"
proof -
  have k: "sid \<notin> fst ` set (G_Sessions g)" using new by (simp add: session_at_def map_of_eq_None_iff)
  have u: "AList.update sid s (G_Sessions g) = G_Sessions g @ [(sid, s)]" using update_new [OF k] .
  have at: "session_at i (insert_session sid ip s g) = (if i = sid then Some s else session_at i g)" for i
    by (simp add: insert_session_def set_session_def session_at_def update_conv)
  have "\<exists>t. session_at i (insert_session sid ip s g) = Some t \<and> IpAddr (B_state t) = x"
    if "G_SessionsByIp (insert_session sid ip s g) x = Some i" for i x
  proof (cases "x = ip")
    case True
    then show ?thesis using that ok(2) by (simp add: at) (simp add: insert_session_def)
  next
    case False
    then have "G_SessionsByIp g x = Some i" using that by (simp add: insert_session_def)
    from by_ip [OF inv this] obtain t where "session_at i g = Some t" "IpAddr (B_state t) = x" by blast
    then show ?thesis using new by (auto simp: at)
  qed
  then show ?thesis
    using inv k ok(1) unfolding table_inv_def by (auto simp: insert_session_def set_session_def u)
qed

lemma new_session_ok:
  "sid \<noteq> 0 \<Longrightarrow> sid < 1024 \<Longrightarrow> length prots = 5 \<Longrightarrow> session_ok sid (new_session sid dest loc intf link mac gmac prots jit name q)"
  "IpAddr (B_state (new_session sid dest loc intf link mac gmac prots jit name q)) = dest"
  by (simp_all add: session_ok_def new_session_def)

lemma NewNormalBfdSession_inv:
  assumes inv: "table_inv g" and E: "env_ok E" and r: "NewNormalBfdSession E intf loc dest name link prot g = Inr (g', sid)"
  shows "table_inv g'" "sid = Some i \<Longrightarrow> \<exists>s. session_at i g' = Some s \<and> IpAddr (B_state s) = dest"
proof -
  obtain i where i: "GetNewSessionId E g = Inr i" using r by (auto simp: NewNormalBfdSession_def bind_r_eq_Inr)
  note new = GetNewSessionId_ok [OF inv E i]
  then obtain ps n q where ps: "set_r (replicate 5 False) prot True = (Inr ps :: bool list bres)" "param_for name g = Inr (n, q)"
      "g' = insert_session i dest (new_session i dest loc intf link (E_macOf E intf) bfdDedicatedMac ps (E_jitter E) n
        (q\<lparr>SP_NumSessions := SP_NumSessions q + 1\<rparr>)) (set_param n (q\<lparr>SP_NumSessions := SP_NumSessions q + 1\<rparr>) g)" "sid = Some i"
    using r i by (auto simp: NewNormalBfdSession_def bind_r_eq_Inr Let_def)
  have l: "length ps = 5" using set_r_length [OF ps(1)] by simp
  show "table_inv g'" unfolding ps(3)
    by (rule insert_session_inv) (use inv new l in \<open>simp_all add: new_session_ok set_param_def\<close>)
  show "\<exists>s. session_at i g' = Some s \<and> IpAddr (B_state s) = dest" if "sid = Some i" for i
    using that ps(3,4) by (simp add: insert_session_def set_session_def session_at_def update_conv new_session_ok)
qed

lemma new_link_sessions_inv:
  "table_inv g \<Longrightarrow> env_ok E \<Longrightarrow> new_link_sessions E ifi loc dest name prot links g = Inr g' \<Longrightarrow> table_inv g'"
  by (induction links arbitrary: g) (auto simp: bind_r_eq_Inr dest: NewNormalBfdSession_inv(1))

lemma on_state_ident:
  "session_ok i s \<Longrightarrow> session_ok i (on_state (\<lambda>t. t\<lparr>InterfaceSpecific := b\<rparr>) s)"
  "session_ok i s \<Longrightarrow> length ps = 5 \<Longrightarrow> session_ok i (on_state (\<lambda>t. t\<lparr>RegisteredProtocols := ps\<rparr>) s)"
  "IpAddr (B_state (on_state (\<lambda>t. t\<lparr>InterfaceSpecific := b\<rparr>) s)) = IpAddr (B_state s)"
  "IpAddr (B_state (on_state (\<lambda>t. t\<lparr>RegisteredProtocols := ps\<rparr>) s)) = IpAddr (B_state s)"
  by (simp_all add: session_ok_def on_state_def)

lemma mark_specific_inv: "table_inv g \<Longrightarrow> mark_specific b (g, sid) = Inr (g', sid') \<Longrightarrow> table_inv g'"
  using session_at_ok [of g "the sid"]
  by (auto simp: mark_specific_def split: option.splits intro!: set_session_inv simp: on_state_ident)

lemma register_inv:
  assumes inv: "table_inv g" and s: "session_at i g = Some s" "set_r (RegisteredProtocols (B_state s)) p b = (Inr ps :: bool list bres)"
  shows "table_inv (set_session i (on_state (\<lambda>t. t\<lparr>RegisteredProtocols := ps\<rparr>) s) g)"
proof -
  have ok: "session_ok i s" by (rule session_at_ok [OF inv s(1)])
  then have "length ps = 5" using set_r_length [OF s(2)] by (simp add: session_ok_def)
  with ok show ?thesis by (intro set_session_inv [OF inv s(1)] on_state_ident)
qed

lemma NewBfdSession_inv:
  assumes inv: "table_inv g" and E: "env_ok E" and r: "NewBfdSession E dest name intf prot link g = Inr (g', sid)"
  shows "table_inv g'"
proof (cases "E_reachable E dest")
  case None
  then show ?thesis using inv r by (auto simp: NewBfdSession_def GetIfIndexFromDestIp_def)
next
  case (Some a)
  obtain ifi loc where a: "a = (ifi, loc)" by force
  let ?g = "g\<lparr>G_tracked := G_tracked g @ [(dest, True)]\<rparr>"
  have ig: "table_inv ?g" using inv by simp
  consider "g' = ?g" | "NewPerLinkBfdSessions E ifi loc dest name prot ?g = Inr g'"
    | g1 sid1 where "NewNormalBfdSession E intf loc dest name False prot ?g = Inr (g1, sid1)" "mark_specific (intf \<noteq> []) (g1, sid1) = Inr (g', sid)"
    using r unfolding NewBfdSession_def GetIfIndexFromDestIp_def Some a
    by (simp add: bind_r_eq_Inr split: if_splits) blast+
  then show ?thesis
  proof cases
    case 1
    then show ?thesis using ig by simp
  next
    case 2
    then show ?thesis using ig new_link_sessions_inv [OF ig E] by (auto simp: NewPerLinkBfdSessions_def split: option.splits)
  next
    case 3
    then show ?thesis using NewNormalBfdSession_inv(1) [OF ig E] mark_specific_inv by blast
  qed
qed

lemma CreateBfdSession_inv:
  assumes inv: "table_inv g" and E: "env_ok E" and r: "CreateBfdSession E m g = Inr (g', failed)"
  shows "table_inv g'"
proof (cases "FindBfdSession E (sessionIp E m) g")
  case None
  then obtain g1 sid where g1: "NewBfdSession E (sessionIp E m) (M_ParamName m) (M_Interface m) (M_Protocol m) (M_PerLink m) g = Inr (g1, sid)"
      and "table_inv g' = table_inv g1"
    using r by (auto simp: CreateBfdSession_def Let_def bind_r_eq_Inr split: option.splits if_splits)
  then show ?thesis using NewBfdSession_inv [OF inv E g1] by simp
next
  case (Some sid)
  then obtain s ps where s: "session_at sid g = Some s" "set_r (RegisteredProtocols (B_state s)) (M_Protocol m) True = (Inr ps :: bool list bres)"
      "g' = set_session sid (on_state (\<lambda>t. t\<lparr>RegisteredProtocols := ps\<rparr>) s) g"
    using r by (auto simp: CreateBfdSession_def Let_def bind_r_eq_Inr split: option.splits)
  then show ?thesis using register_inv [OF inv] by simp
qed

lemma drop_session_inv:
  assumes inv: "table_inv g" and s: "session_at i g = Some s" and r: "drop_session i s g = Inr g'"
  shows "table_inv g'" "session_at j g' = (if j = i then None else session_at j g)"
proof -
  obtain q ids where q: "map_of (G_SessionParams g) (ParamName (B_state s)) = Some q" "remove_id i (G_SessionsIdSlice g) = Inr ids"
      "g' = (set_param (ParamName (B_state s)) (q\<lparr>SP_NumSessions := SP_NumSessions q - 1\<rparr>) g)
            \<lparr>G_NumSessions := G_NumSessions g - 1, G_Sessions := AList.delete i (G_Sessions g),
             G_SessionsByIp := (G_SessionsByIp g)(IpAddr (B_state s) := None), G_SessionsIdSlice := ids\<rparr>"
    using r by (auto simp: drop_session_def bind_r_eq_Inr split: option.splits)
  have ids: "ids = remove1 i (G_SessionsIdSlice g)" using q(2) by (auto simp: remove_id_def split: if_splits)
  show at: "session_at j g' = (if j = i then None else session_at j g)" for j
    by (simp add: q(3) session_at_def delete_conv)
  have d: "distinct (map fst (G_Sessions g))" using inv by (simp add: table_inv_def)
  obtain xs ys where m: "G_Sessions g = xs @ (i, s) # ys" "AList.delete i (G_Sessions g) = xs @ ys"
    using delete_split [OF d s [unfolded session_at_def]] .
  have "\<exists>t. session_at k g' = Some t \<and> IpAddr (B_state t) = ip" if "G_SessionsByIp g' ip = Some k" for ip k
  proof -
    from that have ip: "ip \<noteq> IpAddr (B_state s)" "G_SessionsByIp g ip = Some k" by (auto simp: q(3) split: if_splits)
    from by_ip [OF inv ip(2)] obtain t where "session_at k g = Some t" "IpAddr (B_state t) = ip" by blast
    then show ?thesis using ip(1) s by (auto simp: at)
  qed
  moreover have "set ids = fst ` set (xs @ ys)" "distinct ids" using inv d unfolding ids by (auto simp: table_inv_def m(1))
  moreover have "G_Sessions g' = xs @ ys" "G_SessionsIdSlice g' = ids" by (simp_all add: q(3) m(2))
  moreover have "G_NumSessions g' = of_nat (length (xs @ ys))" using inv by (simp add: q(3) table_inv_def m(1))
  moreover have "distinct (map fst (xs @ ys))" "\<forall>(i, s)\<in>set (xs @ ys). session_ok i s" using inv d by (auto simp: m(1) table_inv_def)
  ultimately show "table_inv g'" unfolding table_inv_def by simp
qed

lemma SessionDeleteHandler_inv:
  assumes inv: "table_inv g" and r: "SessionDeleteHandler i prot force g = Inr g'"
  shows "table_inv g'"
proof -
  obtain s ps where s: "session_at i g = Some s" "set_r (RegisteredProtocols (B_state s)) prot False = (Inr ps :: bool list bres)"
    using r by (auto simp: SessionDeleteHandler_def bind_r_eq_Inr split: option.splits)
  let ?s = "on_state (\<lambda>t. t\<lparr>RegisteredProtocols := ps\<rparr>) s"
  have 1: "table_inv (set_session i ?s g)" by (rule register_inv [OF inv s])
  moreover have "session_at i (set_session i ?s g) = Some ?s" by (simp add: session_at_def set_session_def update_conv)
  ultimately show ?thesis
    using r drop_session_inv(1) [of "set_session i ?s g" i ?s] by (auto simp: SessionDeleteHandler_def s Let_def split: if_splits)
qed

lemma delete_all_inv:
  "table_inv g \<Longrightarrow> seq_ops (map (\<lambda>i. SessionDeleteHandler i prot force) ids) g = Inr g' \<Longrightarrow> table_inv g'"
  by (induction ids arbitrary: g) (auto simp: bind_r_eq_Inr dest: SessionDeleteHandler_inv)

lemma DeleteBfdSession_inv: "table_inv g \<Longrightarrow> DeleteBfdSession E m g = Inr g' \<Longrightarrow> table_inv g'"
  by (auto simp: DeleteBfdSession_def DeletePerLinkSessions_def bind_r_eq_Inr split: option.splits if_splits
      dest: delete_all_inv SessionDeleteHandler_inv)

section \<open>All commands\<close>

lemma dispatch_table_inv: "table_inv g \<Longrightarrow> table_inv (DispatchReceivedBfdPacket ip p g)"
  using session_at_ok [of g]
  by (auto simp: DispatchReceivedBfdPacket_def Let_def dispatch_to_session_def session_ok_def split: option.splits intro!: set_session_inv)

text \<open>A change of all sessions that keeps what identifies them.\<close>

lemma map_sessions_inv:
  assumes "table_inv g" "\<And>s. ident (f s) = ident s"
  shows "table_inv (g\<lparr>G_Sessions := map (\<lambda>(i, s). (i, f s)) (G_Sessions g)\<rparr>)"
proof -
  have k: "fst \<circ> (\<lambda>(i, s). (i, f s)) = fst" by (auto simp: fun_eq_iff)
  have at: "session_at i (g\<lparr>G_Sessions := map (\<lambda>(i, s). (i, f s)) (G_Sessions g)\<rparr>) = map_option f (session_at i g)" for i
    by (simp add: session_at_def map_of_map)
  have ok: "session_ok i s \<Longrightarrow> session_ok i (f s)" "IpAddr (B_state (f s)) = IpAddr (B_state s)" for i s
    using assms(2) [of s] by (simp_all add: ident_def session_ok_def)
  have "\<exists>t. map_option f (session_at i g) = Some t \<and> IpAddr (B_state t) = ip" if "G_SessionsByIp g ip = Some i" for i ip
    using by_ip [OF assms(1) that] ok(2) by auto
  moreover have "fst ` set (map (\<lambda>(i, s). (i, f s)) (G_Sessions g)) = fst ` set (G_Sessions g)" by (simp add: image_comp k)
  moreover have "\<forall>(i, s)\<in>set (map (\<lambda>(i, s). (i, f s)) (G_Sessions g)). session_ok i s"
    using assms(1) ok(1) by (auto simp: table_inv_def)
  ultimately show ?thesis using assms(1) unfolding table_inv_def at by (simp add: k)
qed

lemma use_param_ident: "ident (use_param q s) = ident s"
  by (simp add: use_param_def take_param_def default_param_def InitiatePollSequence_def on_state_def ident_def split: option.splits)

lemma UpdateBfdSessionsUsingParam_inv: "table_inv g \<Longrightarrow> table_inv (UpdateBfdSessionsUsingParam name g)"
  unfolding UpdateBfdSessionsUsingParam_def by (rule map_sessions_inv) (simp_all add: use_param_ident)

lemma params_inv:
  "table_inv g \<Longrightarrow> table_inv (processSessionParamConfig q g)" "table_inv g \<Longrightarrow> table_inv (processSessionParamDelete name g)"
  "table_inv g \<Longrightarrow> table_inv (createDefaultSessionParam g)"
  by (auto simp: processSessionParamConfig_def processSessionParamDelete_def createDefaultSessionParam_def Let_def
      intro!: UpdateBfdSessionsUsingParam_inv)

lemma retry_inv: "table_inv g \<Longrightarrow> env_ok E \<Longrightarrow> retry_sessions E ips g = Inr g' \<Longrightarrow> table_inv g'"
proof (induction ips arbitrary: g)
  case (Cons ip ips)
  show ?case
  proof (cases "map_of (G_tobeCreatedSessions g) ip")
    case (Some m)
    with Cons.prems(3) obtain g1 failed where g1: "CreateBfdSession E m g = Inr (g1, failed)"
        and r: "retry_sessions E ips (if failed then g1 else g1\<lparr>G_tobeCreatedSessions := AList.delete (M_DestIp m) (G_tobeCreatedSessions g1)\<rparr>) = Inr g'"
      by (auto simp: bind_r_eq_Inr)
    have "table_inv g1" by (rule CreateBfdSession_inv [OF Cons.prems(1,2) g1])
    then show ?thesis using Cons.IH [OF _ Cons.prems(2) r] by (cases failed) simp_all
  qed (use Cons in simp)
qed simp

text \<open>Clients that start, and the pass over the inactive sessions.\<close>

lemma start_client_ident: "ident (start_client s) = ident s"
  by (simp add: start_client_def StartPerLinkSessionClient_def StartSessionClient_def ident_def)

lemma set_session_ident_inv:
  "table_inv g \<Longrightarrow> session_at i g = Some s \<Longrightarrow> ident s' = ident s \<Longrightarrow> table_inv (set_session i s' g)"
  using session_at_ok [of g i s] by (auto simp: ident_def session_ok_def intro!: set_session_inv)

lemma StartBfdSessionRxTx_inv: "table_inv g \<Longrightarrow> table_inv (StartBfdSessionRxTx opened sid g)"
proof (cases "session_at sid g")
  case (Some s)
  let ?s = "s\<lparr>B_ReceivedPacketCh := [], B_isClientActive := False\<rparr>"
  have i: "ident ?s = ident s" by (simp add: ident_def)
  assume g: "table_inv g"
  have "table_inv (set_session sid ?s g)" "table_inv (set_session sid (start_client ?s) g)"
    using set_session_ident_inv [OF g Some] i start_client_ident [of ?s] by simp_all
  then show ?thesis by (simp add: StartBfdSessionRxTx_def Some Let_def client_failed_def)
qed (simp add: StartBfdSessionRxTx_def)

lemma retry_pass_inv: "table_inv g \<Longrightarrow> table_inv (snd (retry_pass opened ids g))"
proof (induction opened ids g rule: retry_pass.induct)
  case (2 opened sid ids g)
  show ?case
  proof (cases "session_at sid g")
    case None
    then show ?thesis using 2 by (simp add: case_prod_beta)
  next
    case (Some s)
    let ?g = "if \<not> B_isClientActive s \<and> opened sid then set_session sid (start_client s) g else g"
    have g: "table_inv ?g" using 2(3) set_session_ident_inv [OF 2(3) Some start_client_ident] by simp
    show ?thesis
    proof (cases ids)
      case Nil
      then show ?thesis using g Some by (simp add: Let_def)
    next
      case (Cons skipped rest)
      have "table_inv (snd (retry_pass opened rest ?g))" by (rule 2(2) [OF Some refl Cons g])
      then show ?thesis using Some Cons by (simp add: Let_def case_prod_beta)
    qed
  qed
qed simp

lemma StartSessionRetryHandler_inv: "table_inv g \<Longrightarrow> table_inv (StartSessionRetryHandler opened g)"
  using retry_pass_inv [of g opened "G_InactiveSessionsIdSlice g"]
  by (simp add: StartSessionRetryHandler_def case_prod_beta)

lemma processSessionConfig_inv:
  assumes inv: "table_inv g" and E: "env_ok E" and r: "processSessionConfig E oper m g = Inr g'"
  shows "table_inv g'"
proof (cases oper)
  case CREATE
  then obtain failed where "CreateBfdSession E (m\<lparr>M_ForceDel := False\<rparr>) g = Inr (g', failed)"
    using r by (auto simp: processSessionConfig_def bind_r_eq_Inr)
  then show ?thesis by (rule CreateBfdSession_inv [OF inv E])
next
  case DELETE
  then show ?thesis using r by (intro DeleteBfdSession_inv [OF inv]) (simp add: processSessionConfig_def)
next
  case ADMINUP
  then show ?thesis using r by (intro up_cmd.to_sessions_inv [OF inv]) (simp add: processSessionConfig_def AdminUpBfdSession_def)
next
  case ADMINDOWN
  then show ?thesis using r by (intro down_cmd.to_sessions_inv [OF inv]) (simp add: processSessionConfig_def AdminDownBfdSession_def)
qed

lemma processGlobalConfig_inv:
  assumes "table_inv g" "processGlobalConfig vrf enable g = Inr g'"
  shows "table_inv g'"
proof -
  have ig: "table_inv (g\<lparr>G_Vrf := vrf, G_Enabled := enable\<rparr>)" using assms(1) by simp
  show ?thesis
    using assms(2) up_cmd.all_inv [OF ig] down_cmd.all_inv [OF ig] ig
    unfolding processGlobalConfig_def Let_def by (metis sum.inject(2))
qed

lemma Link_frame_inv:
  assumes inv: "table_inv g" and r: "StartPerLinkSessionServer md5 sha1 mac sid fr g = Inr g'"
  shows "table_inv g'"
proof -
  obtain src dst buf where f: "fr = (src, dst, buf)" by (cases fr)
  have "receive_on_link md5 sha1 src dst p = link_step md5 sha1 (Link_receive src dst p)" for p by (simp add: link_step_def)
  then have "table_inv g'" if "on_session (receive_on_link md5 sha1 src dst p) i g = Inr g'" for p i
    using link_cmd.on_session_inv [OF inv] that by simp
  then show ?thesis using r inv by (auto simp: StartPerLinkSessionServer_def f split: if_splits sum.splits go_error.splits)
qed

lemma notify_inv:
  "table_inv g \<Longrightarrow> table_inv (updateVlanPropertyMap create vlan name g)" "table_inv g \<Longrightarrow> table_inv (updateLagPropertyMap create ifIndex links g)"
  by (simp_all add: updateVlanPropertyMap_def updateLagPropertyMap_def)

lemma server_step_inv:
  assumes inv: "table_inv g" and E: "env_ok E" and r: "server_step md5 sha1 E i g = Inr g'"
  shows "table_inv g'"
proof (cases i)
  case (Session_config oper m)
  then show ?thesis using r by (intro processSessionConfig_inv [OF inv E]) (simp add: server_step_def)
next
  case (Global_config vrf enable)
  then show ?thesis using r by (intro processGlobalConfig_inv [OF inv]) (simp add: server_step_def)
next
  case (Reset opened sid)
  then show ?thesis using r by (intro reset_cmd.on_session_inv [OF inv]) (simp add: server_step_def ResetBfdSession_def)
next
  case (Next_hop reachable)
  then show ?thesis
    using inv r retry_inv [OF inv E] by (cases reachable) (simp_all add: server_step_def HandleNextHopChange_def)
next
  case (Packet ip p)
  then have "g' = DispatchReceivedBfdPacket ip p g" using r by (simp add: server_step_def)
  then show ?thesis using dispatch_table_inv [OF inv] by simp
next
  case (Serve_queue sid)
  then show ?thesis using r by (intro serve_cmd.on_session_inv [OF inv]) (simp add: server_step_def)
next
  case (Tx_timer ok sid)
  then show ?thesis using r by (intro send_cmd.on_session_inv [OF inv]) (simp add: server_step_def)
next
  case (Session_timer sid)
  then show ?thesis using r by (intro expire_cmd.on_session_inv [OF inv]) (simp add: server_step_def)
next
  case (Link_client j sid)
  then show ?thesis using r by (intro link_cmd.on_session_inv [OF inv]) (simp add: server_step_def)
next
  case (Link_frame mac sid fr)
  then show ?thesis using r by (intro Link_frame_inv [OF inv]) (simp add: server_step_def)
qed (use inv r params_inv notify_inv StartBfdSessionRxTx_inv StartSessionRetryHandler_inv in \<open>auto simp: server_step_def\<close>)

section \<open>Reachable states\<close>

inductive server_reach :: "(bytes \<Rightarrow> bytes) \<Rightarrow> (bytes \<Rightarrow> bytes) \<Rightarrow> BFDServer \<Rightarrow> bool" for md5 sha1 where
  initial: "server_reach md5 sha1 (InitServer ports NewBFDServer)"
| reacts: "server_reach md5 sha1 g \<Longrightarrow> env_ok E \<Longrightarrow> server_step md5 sha1 E i g = Inr g' \<Longrightarrow> server_reach md5 sha1 g'"

lemma InitServer_inv: "table_inv (InitServer ports NewBFDServer)"
proof -
  have "table_inv ((initBfdGlobalConfDefault NewBFDServer)\<lparr>G_portName := ports\<rparr>)"
    by (simp add: initBfdGlobalConfDefault_def NewBFDServer_def table_inv_def)
  then show ?thesis unfolding InitServer_def by (rule params_inv)
qed

lemma server_reach_inv: "server_reach md5 sha1 g \<Longrightarrow> table_inv g"
  by (induction rule: server_reach.induct) (auto intro: InitServer_inv server_step_inv)

section \<open>Creation undone\<close>

text \<open>A session that is created and deleted leaves the table as it was.\<close>

lemma find_session_None: "env_ok E \<Longrightarrow> find_session P E g = None \<longleftrightarrow> (\<forall>(i, s)\<in>set (G_Sessions g). \<not> P s)"
  by (auto simp: find_session_def env_ok_def find_None_iff)

lemma find_session_Some: "env_ok E \<Longrightarrow> find_session P E g = Some i \<Longrightarrow> \<exists>s. (i, s) \<in> set (G_Sessions g) \<and> P s"
  by (auto simp: find_session_def env_ok_def find_Some_iff) (metis nth_mem)

definition created :: "bfd_env \<Rightarrow> BfdSessionMgmt \<Rightarrow> BFDServer \<Rightarrow> i32 \<Rightarrow> string \<Rightarrow> SessionParamState \<Rightarrow> BfdSession \<Rightarrow> BFDServer \<Rightarrow> bool" where
  "created E m g sid n q s g1 \<longleftrightarrow>
     session_at sid g = None \<and> map_of (G_SessionParams g) n = Some q \<and> session_ok sid s \<and> IpAddr (B_state s) = sessionIp E m \<and>
     ParamName (B_state s) = n \<and> \<not> PerLinkSession (B_state s) \<and> M_Protocol m < 5 \<and>
     RegisteredProtocols (B_state s) = (replicate 5 False)[M_Protocol m := True] \<and>
     g1 = g\<lparr>G_tracked := G_tracked g @ [(sessionIp E m, True)],
        G_SessionParams := AList.update n (q\<lparr>SP_NumSessions := SP_NumSessions q + 1\<rparr>) (G_SessionParams g),
        G_Sessions := G_Sessions g @ [(sid, s)], G_SessionsByIp := (G_SessionsByIp g)(sessionIp E m \<mapsto> sid),
        G_NumSessions := G_NumSessions g + 1, G_SessionsIdSlice := G_SessionsIdSlice g @ [sid]\<rparr>"

lemma update_last: "k \<notin> fst ` set al \<Longrightarrow> AList.update k v' (al @ [(k, v)]) = al @ [(k, v')]"
  by (induction al) auto

lemma delete_last: "k \<notin> fst ` set al \<Longrightarrow> AList.delete k (al @ [(k, v)]) = al"
  by (induction al) auto

lemma set_r_back: "p < length xs \<Longrightarrow> set_r (xs[p := v]) p (xs ! p) = Inr xs"
  by (simp add: set_r_def)

lemma param_for_Some: "param_for name g = Inr (n, q) \<Longrightarrow> map_of (G_SessionParams g) n = Some q"
  by (auto simp: param_for_def split: option.splits)

lemma CreateBfdSession_created:
  assumes inv: "table_inv g" and E: "env_ok E" and new: "FindBfdSession E (sessionIp E m) g = None"
    and r: "CreateBfdSession E m g = Inr (g1, False)"
  shows "\<exists>sid n q s. created E m g sid n q s g1"
proof -
  let ?ip = "sessionIp E m" and ?g = "g\<lparr>G_tracked := G_tracked g @ [(sessionIp E m, True)]\<rparr>"
  obtain sid where b: "NewBfdSession E ?ip (M_ParamName m) (M_Interface m) (M_Protocol m) (M_PerLink m) g = Inr (g1, Some sid)"
    using r new by (auto simp: CreateBfdSession_def bind_r_eq_Inr Let_def split: option.splits if_splits)
  then obtain ifIndex localIp g2 sid2 where n: "NewNormalBfdSession E (M_Interface m) localIp ?ip (M_ParamName m) False (M_Protocol m) ?g = Inr (g2, sid2)"
      and sp: "mark_specific (M_Interface m \<noteq> []) (g2, sid2) = Inr (g1, Some sid)"
    by (auto simp: NewBfdSession_def GetIfIndexFromDestIp_def bind_r_eq_Inr split: option.splits if_splits)
  obtain i where i: "GetNewSessionId E ?g = Inr i" using n by (auto simp: NewNormalBfdSession_def bind_r_eq_Inr)
  have ig: "table_inv ?g" using inv by simp
  note fresh = GetNewSessionId_ok [OF ig E i]
  then obtain ps pn q where ps: "set_r (replicate 5 False) (M_Protocol m) True = (Inr ps :: bool list bres)" "param_for (M_ParamName m) ?g = Inr (pn, q)"
      "g2 = insert_session i ?ip (new_session i ?ip localIp (M_Interface m) False (E_macOf E (M_Interface m)) bfdDedicatedMac ps (E_jitter E) pn
        (q\<lparr>SP_NumSessions := SP_NumSessions q + 1\<rparr>)) (set_param pn (q\<lparr>SP_NumSessions := SP_NumSessions q + 1\<rparr>) ?g)" "sid2 = Some i"
    using n i by (auto simp: NewNormalBfdSession_def bind_r_eq_Inr Let_def)
  let ?made = "new_session i ?ip localIp (M_Interface m) False (E_macOf E (M_Interface m)) bfdDedicatedMac ps (E_jitter E) pn
        (q\<lparr>SP_NumSessions := SP_NumSessions q + 1\<rparr>)"
  let ?s = "on_state (\<lambda>t. t\<lparr>InterfaceSpecific := (M_Interface m \<noteq> [])\<rparr>) ?made"
  have p: "ps = (replicate 5 False)[M_Protocol m := True]" "M_Protocol m < 5" using ps(1) by (auto simp: set_r_def split: if_splits)
  have k: "i \<notin> fst ` set (G_Sessions g)" using fresh by (simp add: session_at_def map_of_eq_None_iff)
  have at: "session_at i g2 = Some ?made" by (simp add: ps(3) insert_session_def set_session_def session_at_def update_conv)
  have u: "AList.update i ?s (AList.update i ?made (G_Sessions g)) = G_Sessions g @ [(i, ?s)]"
    unfolding update_new [OF k] by (rule update_last [OF k])
  have "g1 = set_session i ?s g2" using sp by (auto simp: mark_specific_def ps(4) at)
  moreover have "session_ok i ?s" using fresh p by (intro on_state_ident(1) new_session_ok) (simp_all del: replicate_numeral)
  moreover have "map_of (G_SessionParams g) pn = Some q" using param_for_Some [OF ps(2)] by simp
  moreover have "session_at i g = None" using fresh by simp
  ultimately have "created E m g i pn q ?s g1"
    using p u by (simp add: created_def ps(3) insert_session_def set_session_def set_param_def) (simp add: on_state_def new_session_def)
  then show ?thesis by blast
qed

lemma find_created:
  assumes inv: "table_inv g" and E: "env_ok E" and new: "FindBfdSession E (sessionIp E m) g = None" and c: "created E m g sid n q s g1"
  shows "FindBfdSession E (sessionIp E m) g1 = Some sid" "session_at sid g1 = Some s"
proof -
  have ss: "G_Sessions g1 = G_Sessions g @ [(sid, s)]" and ip: "IpAddr (B_state s) = sessionIp E m" and f: "session_at sid g = None"
    using c by (simp_all add: created_def)
  have "find_session (\<lambda>s. IpAddr (B_state s) = sessionIp E m) E g1 \<noteq> None"
    using find_session_None [OF E, of _ g1] ss ip by auto
  then obtain j where j: "FindBfdSession E (sessionIp E m) g1 = Some j" by (auto simp: FindBfdSession_def)
  then obtain t where "(j, t) \<in> set (G_Sessions g1)" "IpAddr (B_state t) = sessionIp E m"
    using find_session_Some [OF E] unfolding FindBfdSession_def by blast
  moreover have "\<forall>(i, s)\<in>set (G_Sessions g). IpAddr (B_state s) \<noteq> sessionIp E m"
    using new find_session_None [OF E, of _ g] by (simp add: FindBfdSession_def)
  ultimately show "FindBfdSession E (sessionIp E m) g1 = Some sid" using ss j by auto
  show "session_at sid g1 = Some s" using f by (simp add: session_at_def ss map_add_def)
qed

lemma create_then_delete:
  assumes inv: "table_inv g" and E: "env_ok E" and new: "FindBfdSession E (sessionIp E m) g = None"
    and r: "CreateBfdSession E m g = Inr (g1, False)"
  shows "DeleteBfdSession E m g1 = Inr (g\<lparr>G_tracked := G_tracked g @ [(sessionIp E m, True), (M_DestIp m, False)]\<rparr>)"
proof -
  obtain sid n q s where c: "created E m g sid n q s g1" using CreateBfdSession_created [OF assms] by blast
  note f = find_created [OF inv E new c]
  let ?s = "on_state (\<lambda>t. t\<lparr>RegisteredProtocols := replicate 5 False\<rparr>) s"
  have reg: "set_r (RegisteredProtocols (B_state s)) (M_Protocol m) False = (Inr (replicate 5 False) :: bool list bres)"
    using c set_r_back [of "M_Protocol m" "replicate 5 False" True] by (simp add: created_def del: replicate_numeral)
  have any: "\<not> CheckIfAnyProtocolRegistered ?s" by (simp add: CheckIfAnyProtocolRegistered_def on_state_def list_ex_iff del: replicate_numeral)
  have k: "sid \<notin> fst ` set (G_Sessions g)" using c by (simp add: created_def session_at_def map_of_eq_None_iff)
  then have ids: "sid \<notin> set (G_SessionsIdSlice g)" using inv by (simp add: table_inv_def)
  have no_ip: "G_SessionsByIp g (sessionIp E m) = None"
  proof (rule ccontr)
    assume "G_SessionsByIp g (sessionIp E m) \<noteq> None"
    then obtain j t where "session_at j g = Some t" "IpAddr (B_state t) = sessionIp E m" using by_ip [OF inv] by blast
    then show False using new find_session_None [OF E, of _ g] session_at_set [OF inv] by (auto simp: FindBfdSession_def)
  qed
  have "SessionDeleteHandler sid (M_Protocol m) (M_ForceDel m) g1 = Inr (g\<lparr>G_tracked := G_tracked g @ [(sessionIp E m, True)]\<rparr>)"
    using f(2) reg any c k ids no_ip
    by (simp add: SessionDeleteHandler_def Let_def drop_session_def remove_id_def created_def set_session_def update_last update_conv set_param_def
        delete_last on_state_def remove1_append update_triv fun_upd_idem)
  then show ?thesis using f c by (simp add: DeleteBfdSession_def created_def)
qed

end
