(* ===== verification/BfdFaults.thy ===== *)
theory BfdFaults
  imports BfdTable
begin

text \<open>
  Where the session table of the BFD daemon fails: no identifier is left, a session is started before its client, parameters that are in
  use are deleted, a reset session sends its old state, a packet names a session that does not exist, and pages show no sessions.
\<close>

section \<open>Identifiers\<close>

text \<open>With 1023 sessions every identifier is taken, but the guard lets the search begin, and it never ends.\<close>

lemma full_table_ids:
  assumes inv: "table_inv g" and full: "length (G_Sessions g) = 1023" and i: "i \<noteq> 0" "i < 1024"
  shows "session_at i g \<noteq> None"
proof -
  let ?K = "fst ` set (G_Sessions g)" and ?A = "word_of_nat ` {1..<1024::nat} :: i32 set"
  have "?K \<subseteq> ?A"
  proof
    fix j assume "j \<in> ?K"
    then have "j \<noteq> 0" "j < 1024" using inv by (auto simp: table_inv_def session_ok_def)
    then show "j \<in> ?A" by (intro image_eqI [of _ _ "unat j"]) (simp_all add: word_less_nat_alt Suc_leI unat_gt_0)
  qed
  moreover have "card ?A \<le> card ?K"
  proof -
    have "card ?A \<le> 1023" using card_image_le [of "{1..<1024::nat}" "word_of_nat :: nat \<Rightarrow> i32"] by simp
    moreover have "card ?K = 1023" using inv full by (simp add: table_inv_def distinct_card flip: set_map)
    ultimately show ?thesis by simp
  qed
  ultimately have "?K = ?A" by (intro card_seteq) simp_all
  moreover have "i \<in> ?A" using i by (intro image_eqI [of _ _ "unat i"]) (simp_all add: word_less_nat_alt Suc_leI unat_gt_0)
  ultimately show ?thesis by (simp add: session_at_def map_of_eq_None_iff)
qed

lemma GetNewSessionId_returns:
  assumes "table_inv g"
  shows "(\<exists>sid. GetNewSessionId E g = Inr sid) \<longleftrightarrow> (\<exists>k. E_random E k \<noteq> 0 \<and> session_at (E_random E k) g = None)"
  using draw_id_returns [of "E_random E" "\<lambda>sid. session_at sid g \<noteq> None"] num_sessions_small [OF assms]
  by (auto simp: GetNewSessionId_def split: option.splits)

lemma full_table_diverges:
  assumes "table_inv g" "env_ok E" "length (G_Sessions g) = 1023"
  shows "GetNewSessionId E g = Inl Diverges"
proof -
  have "\<nexists>sid. GetNewSessionId E g = Inr sid"
    unfolding GetNewSessionId_returns [OF assms(1)] using full_table_ids [OF assms(1,3)] assms(2) by (auto simp: env_ok_def)
  then show ?thesis using num_sessions_small [OF assms(1)] by (auto simp: GetNewSessionId_def split: option.splits)
qed

section \<open>Commands\<close>

text \<open>Starting a session whose client has not opened its socket uses a timer that does not exist.\<close>

definition only_panics :: "('s \<Rightarrow> ('e, 's) result) \<Rightarrow> bool" where
  "only_panics f \<longleftrightarrow> (\<forall>s e. f s = Inl e \<longrightarrow> e = Panic)"

lemma only_panics_seq: "list_all only_panics fs \<Longrightarrow> only_panics (seq_ops fs)"
proof (induction fs)
  case (Cons f fs)
  then have "only_panics f" "only_panics (seq_ops fs)" by simp_all
  then show ?case unfolding only_panics_def seq_ops.simps bind_r_eq_Inl by metis
qed (simp add: only_panics_def)

lemma only_panics_ops [simp]: "only_panics (upd f)" "only_panics (session_timer h)" "only_panics (tx_timer h)" "only_panics (Inr :: session_op)"
  by (auto simp: only_panics_def upd_def session_timer_def tx_timer_def timer_set_def bind_r_eq_Inl split: Timer.splits)

lemma only_panics_moves [simp]:
  "only_panics MoveToDownState" "only_panics MoveToInitState" "only_panics MoveToUpState" "only_panics LocalAdminDown" "only_panics RemoteAdminDown"
  unfolding MoveToDownState_def MoveToInitState_def MoveToUpState_def LocalAdminDown_def RemoteAdminDown_def
  by (rule only_panics_seq, simp)+

lemma only_panics_EventHandler [simp]: "only_panics (EventHandler ev)"
proof -
  have "only_panics (handle_event st ev)" for st by (cases st; cases ev) simp_all
  then show ?thesis by (simp add: only_panics_def EventHandler_def)
qed

lemma only_panics_Start: "only_panics StartBfdSession"
  unfolding StartBfdSession_def by (rule only_panics_seq) simp

lemma on_session_at:
  "on_session f i g = Inr g' \<Longrightarrow> j \<noteq> i \<Longrightarrow> session_at j g' = session_at j g"
  by (auto simp: on_session_def bind_r_eq_Inr session_at_def set_session_def update_conv split: option.splits)

lemma start_all_panics:
  "sid \<in> set ids \<Longrightarrow> distinct ids \<Longrightarrow> session_at sid g = Some s \<Longrightarrow> B_sessionTimer s = NoTimer \<Longrightarrow>
   seq_ops (map (on_session StartBfdSession) ids) g = Inl Panic"
proof (induction ids arbitrary: g)
  case (Cons i ids)
  show ?case
  proof (cases "on_session StartBfdSession i g")
    case (Inl e)
    then have "e = Panic"
      using only_panics_Start by (auto simp: on_session_def only_panics_def bind_r_eq_Inl split: option.splits)
    then show ?thesis using Inl by simp
  next
    case (Inr g')
    have "i \<noteq> sid"
    proof
      assume "i = sid"
      then have "on_session StartBfdSession i g = Inl Panic"
        using Cons.prems(3,4) by (simp add: on_session_def StartBfdSession_def session_timer_def timer_set_def)
      then show False using Inr by simp
    qed
    then show ?thesis using Cons on_session_at [OF Inr, of sid] Inr by simp
  qed
qed simp

lemma enabling_panics:
  assumes "table_inv g" "\<not> G_Enabled g" "session_at sid g = Some s" "B_sessionTimer s = NoTimer"
  shows "processGlobalConfig vrf True g = Inl Panic"
proof -
  have "(sid, s) \<in> set (G_Sessions g)" using assms(1,3) by (simp add: session_at_set)
  then have "sid \<in> fst ` set (G_Sessions g)" by force
  then have "sid \<in> set (G_SessionsIdSlice g)" "distinct (G_SessionsIdSlice g)" using assms(1) by (auto simp: table_inv_def)
  then show ?thesis
    using start_all_panics [of sid "G_SessionsIdSlice g" "g\<lparr>G_Vrf := vrf, G_Enabled := True\<rparr>" s] assms(2-4)
    by (simp add: processGlobalConfig_def Let_def)
qed

text \<open>Parameters that are in use can be deleted; deleting a session that uses them then dereferences nil.\<close>

lemma deleted_param_panics:
  assumes "map_of (G_SessionParams g) (ParamName (B_state s)) \<noteq> None" "session_at sid g = Some s" "prot < length (RegisteredProtocols (B_state s))"
  shows "SessionDeleteHandler sid prot True (processSessionParamDelete (ParamName (B_state s)) g) = Inl Panic"
proof -
  have "ParamName (B_state (use_param q t)) = ParamName (B_state t)" "RegisteredProtocols (B_state (use_param q t)) = RegisteredProtocols (B_state t)" for q t
    by (simp_all add: use_param_def take_param_def default_param_def InitiatePollSequence_def on_state_def split: option.splits)
  then show ?thesis
    using assms
    by (simp add: SessionDeleteHandler_def processSessionParamDelete_def UpdateBfdSessionsUsingParam_def session_at_def map_of_map drop_session_def
        set_session_def on_state_def set_r_def Let_def delete_conv)
qed

section \<open>A reset session\<close>

text \<open>The reset puts the session into the state DOWN but does not renew its packet, which still says UP.\<close>

lemma reset_sends_stale_state:
  assumes inv: "session_inv md5 sha1 s" and up: "session_state s = STATE_UP" and n: "\<not> NeedBfdPacketUpdate s" and at: "session_at sid g = Some s"
  shows "\<exists>g' s' s'' p. ResetBfdSession True sid g = Inr g' \<and> session_at sid g' = Some s' \<and> session_state s' = STATE_DOWN \<and>
    session_step md5 sha1 (Tx True) s' = Inr s'' \<and> DecodeBfdControlPacket (last (B_sent s'')) = Inr p \<and> CP_State p = STATE_UP"
proof -
  define s' where "s' = StartSessionClient ((ResetLocalSessionParams
    (if IsSessionActive s then s\<lparr>B_txTimer := Stopped, B_sessionTimer := Stopped\<rparr> else s))\<lparr>B_isClientActive := False\<rparr>)"
  have r: "ResetBfdSession True sid g = Inr (set_session sid s' g)" by (simp add: ResetBfdSession_def on_session_def at s'_def Let_def)
  have p: "plain_packet (B_bfdPacket s)" "B_bfdPacketBuf s = CreateBfdControlPacket md5 sha1 (B_bfdPacket s)" "CP_State (B_bfdPacket s) = STATE_UP"
    using inv n up by (simp_all add: session_inv_def packets_ok_def packet_current_def)
  have s': "\<not> NeedBfdPacketUpdate s'" "B_bfdPacketBuf s' = B_bfdPacketBuf s" "session_state s' = STATE_DOWN" "B_txTimer s' = Armed (sint (B_txInterval s))"
    using n by (simp_all add: s'_def StartSessionClient_def ResetLocalSessionParams_def on_state_def NeedBfdPacketUpdate_def)
  have w: "B_sent (write_packet True s') = B_sent s' @ [B_bfdPacketBuf s]" "B_txTimer (write_packet True s') \<noteq> NoTimer"
    using s' by (simp_all add: write_packet_def on_state_def)
  define s'' where "s'' = (let t = set_tx_interval (write_packet True s') in t\<lparr>B_txTimer := Armed (sint (ApplyTxJitter t))\<rparr>)"
  have "SendPeriodicControlPackets md5 sha1 True s' = Inr s''"
    using w(2) s'(1) by (simp add: SendPeriodicControlPackets_def upd_def timer_ops s''_def Let_def set_tx_interval_def)
  then have "session_step md5 sha1 (Tx True) s' = Inr s''" using s'(4) by (simp add: session_step_def)
  moreover have "last (B_sent s'') = B_bfdPacketBuf s" by (simp add: s''_def Let_def set_tx_interval_def w(1))
  then have "DecodeBfdControlPacket (last (B_sent s'')) = Inr (B_bfdPacket s)" using plain_decodes [OF p(1)] p(2) by simp
  moreover have "session_at sid (set_session sid s' g) = Some s'" by (simp add: session_at_def set_session_def update_conv)
  ultimately show ?thesis using r s'(3) p(3) by blast
qed

section \<open>Links\<close>

text \<open>A packet on a link that names a session that does not exist stops the daemon.\<close>

lemma unknown_discriminator_panics:
  assumes "session_at sid g \<noteq> None" "src \<noteq> mac" "plain_packet p" "CP_YourDiscriminator p \<noteq> 0" "session_at (CP_YourDiscriminator p) g = None"
  shows "StartPerLinkSessionServer md5 sha1 mac sid (src, dst, CreateBfdControlPacket md5 sha1 p) g = Inl Panic"
  using assms by (simp add: StartPerLinkSessionServer_def plain_length plain_decodes on_session_def)

text \<open>Of the sessions whose clients failed, a pass leaves every other one out.\<close>

fun every_other :: "'a list \<Rightarrow> 'a list" where
  "every_other (_ # y # r) = y # every_other r"
| "every_other _ = []"

lemma session_at_set_session: "session_at i (set_session j s g) = (if i = j then Some s else session_at i g)"
  by (simp add: session_at_def set_session_def update_conv)

lemma retry_pass_skips: "\<forall>i\<in>set ids. session_at i g \<noteq> None \<Longrightarrow> fst (retry_pass opened ids g) = every_other ids"
proof (induction opened ids g rule: retry_pass.induct)
  case (2 opened sid ids g)
  then obtain s where s: "session_at sid g = Some s" by auto
  let ?g = "if \<not> B_isClientActive s \<and> opened sid then set_session sid (start_client s) g else g"
  show ?case
  proof (cases ids)
    case (Cons skipped rest)
    have "fst (retry_pass opened rest ?g) = every_other rest"
      by (rule 2(2) [OF s refl Cons]) (use 2(3) Cons in \<open>simp add: session_at_set_session\<close>)
    then show ?thesis using s Cons by (simp add: Let_def case_prod_beta)
  qed (simp add: s Let_def)
qed simp

section \<open>Pages\<close>

text \<open>A page that is not the last is empty, and the next index is the next session, not the next page.\<close>

lemma page_not_last: "idx + cnt < length (G_SessionsIdSlice g) \<Longrightarrow> GetBulkBfdSessionStates idx cnt g = Inr (idx + 1, 0, [])"
  by (simp add: GetBulkBfdSessionStates_def bulk_states_def)

lemma small_pages_are_empty:
  assumes "2 * cnt \<le> length (G_SessionsIdSlice g)" "idx \<le> length (G_SessionsIdSlice g)"
  shows "\<exists>nextIdx n. GetBulkBfdSessionStates idx cnt g = Inr (nextIdx, n, replicate n None)"
proof (cases "idx + cnt < length (G_SessionsIdSlice g)")
  case False
  then have "length (G_SessionsIdSlice g) - idx \<le> idx" using assms by simp
  then have "bulk_states idx (length (G_SessionsIdSlice g) - idx) g = Inr (replicate (length (G_SessionsIdSlice g) - idx) None)"
    by (simp add: bulk_states_def)
  then show ?thesis
    using False assms(2) by (simp add: GetBulkBfdSessionStates_def nat_diff_distrib Let_def)
qed (simp add: page_not_last)

text \<open>Only a page for all sessions shows them.\<close>

definition show_session :: "BFDServer \<Rightarrow> i32 \<Rightarrow> SessionState option" where
  "show_session g sid = map_option public_state (session_at sid g)"

lemma bulk_prefix:
  assumes "table_inv g" "k \<le> length (G_SessionsIdSlice g)"
  defines "ids \<equiv> G_SessionsIdSlice g"
  shows "fold (\<lambda>i r. bind_r r (\<lambda>xs. bind_r (index_r ids i) (\<lambda>sid.
      case session_at sid g of None \<Rightarrow> Inl Panic | Some s \<Rightarrow> set_r xs i (Some (public_state s))))) [0..<k] (Inr (replicate (length ids) None))
    = (Inr (map (show_session g) (take k ids) @ replicate (length ids - k) None) :: SessionState option list bres)"
  using assms(2)
proof (induction k)
  case (Suc k)
  then have k: "k < length ids" by (simp add: ids_def)
  have "ids ! k \<in> fst ` set (G_Sessions g)" using assms(1) k nth_mem by (fastforce simp: table_inv_def ids_def)
  then obtain s where s: "session_at (ids ! k) g = Some s" unfolding session_at_def by (metis map_of_eq_None_iff not_None_eq)
  let ?xs = "map (show_session g) (take k ids)"
  have "replicate (length ids - k) (None :: SessionState option) = None # replicate (length ids - Suc k) None"
    using k by (metis Suc_diff_Suc replicate_Suc)
  then have "(?xs @ replicate (length ids - k) None)[k := Some (public_state s)] = ?xs @ Some (public_state s) # replicate (length ids - Suc k) None"
    using k by (simp add: list_update_append)
  moreover have "map (show_session g) (take (Suc k) ids) = ?xs @ [Some (public_state s)]"
    using k s by (simp add: take_Suc_conv_app_nth show_session_def)
  ultimately show ?case using Suc k s by (simp add: ids_def index_r_def set_r_def)
qed (simp add: ids_def)

lemma full_page:
  assumes "table_inv g" "length (G_SessionsIdSlice g) \<le> cnt"
  shows "GetBulkBfdSessionStates 0 cnt g =
    Inr (0, length (G_SessionsIdSlice g), map (show_session g) (G_SessionsIdSlice g))"
  using bulk_prefix [OF assms(1) order_refl] assms(2) by (simp add: GetBulkBfdSessionStates_def bulk_states_def)

lemma too_many_params_panic: "cnt < length (G_SessionParams g) \<Longrightarrow> GetBulkBfdSessionParamStates cnt g = Inl Panic"
  by (simp add: GetBulkBfdSessionParamStates_def)

end
