(* ===== verification/BfdSamples.thy ===== *)
theory BfdSamples
  imports BfdFaults
begin

text \<open>Concrete values for the properties of the BFD daemon: parameters, sessions, packets, digests of the right length, a server.\<close>

definition digest16 :: "bytes \<Rightarrow> bytes" where
  "digest16 b = replicate 16 0"

definition digest20 :: "bytes \<Rightarrow> bytes" where
  "digest20 b = replicate 20 0"

definition param0 :: SessionParamState where
  "param0 = \<lparr>SP_Name = ''fast'', SP_NumSessions = 0, SP_LocalMultiplier = 3, SP_DesiredMinTxInterval = 250000, SP_RequiredMinRxInterval = 250000,
     SP_RequiredMinEchoRxInterval = 0, SP_DemandEnabled = False, SP_AuthenticationEnabled = False, SP_AuthenticationType = 0,
     SP_AuthenticationKeyId = 0, SP_AuthenticationData = []\<rparr>"

definition made :: "i32 \<Rightarrow> BfdSession" where
  "made sid = new_session sid ''10.0.0.2'' ''10.0.0.1'' ''eth0'' False [] [] [False, True, False, False, False] 5 ''fast'' param0"

lemma param0_ok: "param_ok (Some param0)"
  by (simp add: param_ok_def param0_def)

lemma made_reach: "session_reach md5 sha1 (StartSessionClient (made sid))"
  unfolding made_def by (rule session_reach.started [OF param0_ok])

lemma made_inv: "session_inv md5 sha1 (StartSessionClient (made sid))"
  unfolding made_def by (rule new_session_inv [OF param0_ok])

lemma made_ready: "sid \<noteq> 0 \<Longrightarrow> ready md5 sha1 (StartSessionClient (made sid)) \<and> session_state (StartSessionClient (made sid)) = STATE_DOWN"
  using made_inv [of md5 sha1 sid] startup_interval_pos [of 3]
  by (simp add: ready_def fit_def) (simp add: made_def new_session_def StartSessionClient_def NewBfdControlPacketDefault_def param0_def)

text \<open>A session that is up at both ends.\<close>

definition up_session :: BfdSession where
  "up_session = (on_state (\<lambda>t. t\<lparr>LocalState := STATE_UP, RemoteSessionState := STATE_UP, RemoteDiscriminator := 9\<rparr>) (StartSessionClient (made 1)))
     \<lparr>B_notifiedState := True, B_notifications := [(''10.0.0.2'', True)]\<rparr>"

lemma up_inv: "session_inv md5 sha1 up_session"
  using made_inv [of md5 sha1 1]
  by (simp add: up_session_def on_state_def session_inv_def running_def reported_def consistent_def told_def packets_ok_def
      NeedBfdPacketUpdate_def GetBfdSessionNotification_def) (simp add: made_def new_session_def StartSessionClient_def)

definition packet0 :: BfdControlPacket where
  "packet0 = NewBfdControlPacketDefault\<lparr>CP_MyDiscriminator := 9, CP_YourDiscriminator := 1, CP_State := STATE_UP, CP_DesiredMinTxInterval := 100\<rparr>"

lemma packet0_ok: "wf_packet packet0" "plain_packet packet0"
  by (simp_all add: packet0_def NewBfdControlPacketDefault_def wf_packet_def plain_packet_def)

text \<open>A server with the default parameters; the identifiers are drawn in their order.\<close>

definition bfd0 :: BFDServer where
  "bfd0 = InitServer (\<lambda>_. ''eth0'') NewBFDServer"

definition benv :: bfd_env where
  "benv = \<lparr>E_random = (\<lambda>k. of_nat (k mod 1024)), E_jitter = 3, E_order = (\<lambda>l. l), E_keys = (\<lambda>l. l),
     E_reachable = (\<lambda>_. Some (5, ''10.0.0.1'')), E_GetIntfTypeFromIfIndex = (\<lambda>_. IfTypePort), E_macOf = (\<lambda>_. []), E_linkLocal6 = (\<lambda>_. False)\<rparr>"

definition mgmt :: BfdSessionMgmt where
  "mgmt = \<lparr>M_DestIp = ''10.0.0.2'', M_ParamName = ''fast'', M_Interface = ''eth0'', M_Protocol = 1, M_PerLink = False, M_ForceDel = False\<rparr>"

lemma benv_ok: "env_ok benv"
proof -
  have "(word_of_nat (k mod 1024) :: i32) < 1024" for k
    using mod_less_divisor [of 1024 k] by (simp add: word_less_nat_alt unat_of_nat)
  then show ?thesis by (simp add: env_ok_def benv_def)
qed

lemma bfd0_reach: "server_reach md5 sha1 bfd0"
  unfolding bfd0_def by (rule server_reach.initial)

lemma bfd0_empty: "G_Sessions bfd0 = []" "map_of (G_SessionParams bfd0) ''default'' \<noteq> None"
  by (simp_all add: bfd0_def InitServer_def createDefaultSessionParam_def initBfdGlobalConfDefault_def NewBFDServer_def set_param_def
      UpdateBfdSessionsUsingParam_def)

lemma id_drawn: "GetNewSessionId benv (bfd0\<lparr>G_tracked := t\<rparr>) = Inr 1"
proof -
  have "G_NumSessions bfd0 = 0"
    by (simp add: bfd0_def InitServer_def createDefaultSessionParam_def initBfdGlobalConfDefault_def NewBFDServer_def set_param_def
        UpdateBfdSessionsUsingParam_def)
  then show ?thesis
    by (simp add: GetNewSessionId_def benv_def session_at_def bfd0_empty draw_id.simps [of _ _ 0] draw_id.simps [of _ _ "Suc 0"])
qed

lemma sample_created: "\<exists>g. CreateBfdSession benv mgmt bfd0 = Inr (g, False)"
proof -
  obtain q where q: "param_for ''fast'' (bfd0\<lparr>G_tracked := t\<rparr>) = Inr (''default'', q)" for t
    by (simp add: param_for_def bfd0_def InitServer_def createDefaultSessionParam_def initBfdGlobalConfDefault_def NewBFDServer_def set_param_def
        UpdateBfdSessionsUsingParam_def)
  have p: "G_portName bfd0 5 = ''eth0''"
    by (simp add: bfd0_def InitServer_def createDefaultSessionParam_def initBfdGlobalConfDefault_def NewBFDServer_def set_param_def
        UpdateBfdSessionsUsingParam_def)
  have b: "E_reachable benv ip = Some (5, ''10.0.0.1'')" "E_GetIntfTypeFromIfIndex benv i = IfTypePort" for ip i by (simp_all add: benv_def)
  have f: "FindBfdSession benv ip bfd0 = None" for ip by (simp add: FindBfdSession_def find_session_def benv_def bfd0_empty)
  have n: "\<exists>g. NewBfdSession benv ''10.0.0.2'' ''fast'' ''eth0'' 1 False bfd0 = Inr (g, Some 1)"
    using id_drawn q p
    by (simp add: NewBfdSession_def GetIfIndexFromDestIp_def getLinuxIntfName_def NewNormalBfdSession_def set_r_def Let_def mark_specific_def
        insert_session_def set_session_def session_at_def update_conv b)
  have m: "M_ParamName mgmt = ''fast''" "M_Interface mgmt = ''eth0''" "M_Protocol mgmt = 1" "M_PerLink mgmt = False" "sessionIp benv mgmt = ''10.0.0.2''"
    by (simp_all add: mgmt_def sessionIp_def benv_def)
  show ?thesis using n by (auto simp: CreateBfdSession_def f m Let_def)
qed

end
