(* ===== verification/BfdFacts.thy ===== *)
theory BfdFacts
  imports BfdSamples
begin

text \<open>Where a peer or an attacker can disturb a BFD session, each with a concrete instance.\<close>

text \<open>
  The detection interval is the product of the announced interval and the multiplier, computed in 32 bits and divided by 1000. When a
  peer announces values for which this is 0, as 100 microseconds three times, the session is up for ever: the timer is stopped, no
  further packet is accepted, and no sequence of datagrams, timers and queued packets changes the state.
\<close>

theorem bfd_tiny_interval_blinds:
  assumes "session_inv md5 sha1 s" "session_state s = STATE_UP" "remote_state s = STATE_UP" "B_ReceivedPacketCh s = []"
    and "\<not> CP_Demand (B_bfdPacket s)" "\<not> DemandMode (B_state s)"
    and "CanProcessBfdControlPacket p" "\<not> CP_AuthPresent p" "CP_State p = STATE_UP"
    and "div32 (ucast (CP_DesiredMinTxInterval p) * ucast (CP_DetectMult p)) 1000 = 0"
    and "\<forall>i\<in>set inputs. input_ok i \<and> (case i of Arrive _ \<Rightarrow> True | Serve \<Rightarrow> True | Tx _ \<Rightarrow> True | Expire \<Rightarrow> True | _ \<Rightarrow> False)"
  shows "\<exists>s1 s'. ProcessBfdPacket md5 sha1 p s = Inr s1 \<and> seq_ops (map (session_step md5 sha1) inputs) s1 = Inr s' \<and>
    session_state s' = STATE_UP \<and> B_sessionTimer s' = Stopped"
proof -
  have e: "ProcessBfdPacket md5 sha1 p s = accept_packet p s"
    using assms(7,8) by (simp add: ProcessBfdPacket_def AuthenticateReceivedControlPacket_def)
  have "holds blind (accept_packet p s)" by (rule tiny_interval_blinds) (use assms in simp_all)
  then obtain s1 where s1: "accept_packet p s = Inr s1" "blind s1" by (auto simp: holds_def split: sum.splits)
  show ?thesis using e s1(1) blind_forever [OF s1(2) assms(11), of md5 sha1] by (auto simp: holds_def blind_def split: sum.splits)
qed

theorem bfd_tiny_interval_blinds_witness:
  "\<exists>s1 s'. ProcessBfdPacket digest16 digest20 packet0 up_session = Inr s1 \<and>
     seq_ops (map (session_step digest16 digest20) [Expire, Tx True, Serve, Expire]) s1 = Inr s' \<and>
     session_state s' = STATE_UP \<and> B_sessionTimer s' = Stopped"
  by (rule bfd_tiny_interval_blinds [OF up_inv])
    (simp_all add: up_session_def made_def new_session_def StartSessionClient_def on_state_def NewBfdControlPacketDefault_def param0_def
      CanProcessBfdControlPacket_def packet0_def div32_def signed_divide_int_def input_ok_def)

text \<open>
  Authentication protects nothing: a packet without an authentication section is processed by every session, and so is one with the
  digest of the empty message for its digest type and key number, since the digest is computed over a message that was never written.
\<close>

theorem bfd_forged_packet_is_processed:
  assumes "CanProcessBfdControlPacket p"
    and "\<not> CP_AuthPresent p \<or>
      (\<exists>h. CP_AuthHeader p = Some h \<and> BA_Type h = B_authType s \<and> ucast (BA_AuthKeyID h) = B_authKeyId s \<and>
        BA_SequenceNumber h \<ge> ReceivedAuthSeq (B_state s) \<and>
        (is_md5 (BA_Type h) \<and> BA_AuthData h = md5 [] \<or> is_sha1 (BA_Type h) \<and> BA_AuthData h = sha1 []))"
  shows "ProcessBfdPacket md5 sha1 p s = accept_packet p s"
  using forged_packet_accepted [of p s md5 sha1] assms by (simp add: accepts_def ProcessBfdPacket_def)

theorem bfd_forged_packet_is_processed_witness:
  "ProcessBfdPacket digest16 digest20 packet0 (up_session\<lparr>B_authEnabled := True, B_authType := 4, B_authData := [1, 2, 3]\<rparr>) =
   accept_packet packet0 (up_session\<lparr>B_authEnabled := True, B_authType := 4, B_authData := [1, 2, 3]\<rparr>)"
  by (rule bfd_forged_packet_is_processed)
    (simp_all add: CanProcessBfdControlPacket_def packet0_def NewBfdControlPacketDefault_def)

text \<open>
  The demand bit of the packet is changed only while both ends are up. A session that went down with the bit set sends it in every
  packet; the peer answers none of them: it waits in the state INIT with its timer stopped, and the same situation holds again, so the
  session never comes up.
\<close>

theorem bfd_stale_demand_stalls:
  assumes "stalled md5 sha1 a b"
  shows "\<exists>a' b'. deliver md5 sha1 a b = Inr (a', b') \<and> stalled md5 sha1 a' b' \<and> session_state b' = STATE_INIT \<and>
    (\<forall>ok. session_step md5 sha1 (Tx ok) b' = Inr b')"
  by (rule stale_demand_stalls [OF assms])

theorem bfd_stale_demand_stalls_witness:
  "\<exists>a' b'. deliver digest16 digest20 ((StartSessionClient (made 1))\<lparr>B_bfdPacket := NewBfdControlPacketDefault\<lparr>CP_Demand := True\<rparr>\<rparr>)
       (StartSessionClient (made 2)) = Inr (a', b') \<and>
     stalled digest16 digest20 a' b' \<and> session_state b' = STATE_INIT \<and> (\<forall>ok. session_step digest16 digest20 (Tx ok) b' = Inr b')"
  by (rule bfd_stale_demand_stalls)
    (simp add: stalled_def made_def new_session_def StartSessionClient_def session_inv_def running_def reported_def consistent_def told_def
      packets_ok_def NeedBfdPacketUpdate_def GetBfdSessionNotification_def rx_ms_def plain_packet_def wf_packet_def
      NewBfdControlPacketDefault_def param0_def div32_def signed_divide_int_def)

end
