(* ===== verification/VrrpPacket.thy ===== *)
theory VrrpPacket
  imports IpText
begin

text \<open>
  Advertisements of the VRRP daemon (vrrp/server/vrrpdProtocolRx.go, vrrpdProtocolTx.go): the header, its checksum and its checks.

  The payload of a received frame is a slice of the capture buffer; what follows it there is \<open>spare\<close>, since Go checks the bounds of
  the address slices against the capacity. Errors are their texts.
\<close>

unbundle bit_operations_syntax

section \<open>Data\<close>

type_synonym 'a vres = "(string, 'a) result"

record VrrpPktHeader =
  VH_Version :: u8
  VH_Type :: u8
  VH_VirtualRtrId :: u8
  VH_Priority :: u8
  VH_CountIPv4Addr :: u8
  VH_Rsvd :: u8
  VH_MaxAdverInt :: u16
  VH_CheckSum :: u16
  VH_IPv4Addr :: "bytes list"

abbreviation (input) VRRP_VERSION2 :: u8 where "VRRP_VERSION2 \<equiv> 2"
abbreviation (input) VRRP_VERSION3 :: u8 where "VRRP_VERSION3 \<equiv> 3"
abbreviation (input) VRRP_PKT_TYPE_ADVERTISEMENT :: u8 where "VRRP_PKT_TYPE_ADVERTISEMENT \<equiv> 1"
abbreviation (input) VRRP_HEADER_MIN_SIZE :: u8 where "VRRP_HEADER_MIN_SIZE \<equiv> 20"

section \<open>Decoding\<close>

fun decode_addrs :: "bytes \<Rightarrow> nat \<Rightarrow> nat \<Rightarrow> bytes list vres" where
  "decode_addrs buf base 0 = Inr []"
| "decode_addrs buf base (Suc n) =
     bind_r (slice_r buf base (base + 4)) (\<lambda>a. bind_r (decode_addrs buf (base + 4) n) (\<lambda>as. Inr (a # as)))"

definition VrrpDecodeHeader :: "bytes \<Rightarrow> bytes \<Rightarrow> VrrpPktHeader vres" where
  "VrrpDecodeHeader data spare =
     bind_r (index_r data 0) (\<lambda>b0. bind_r (index_r data 1) (\<lambda>vrid. bind_r (index_r data 2) (\<lambda>prio. bind_r (index_r data 3) (\<lambda>cnt.
     bind_r (slice_r (data @ spare) 4 6) (\<lambda>a. bind_r (get16 a) (\<lambda>rsvdAdver.
     bind_r (slice_r (data @ spare) 6 8) (\<lambda>c. bind_r (get16 c) (\<lambda>checkSum.
     bind_r (decode_addrs (data @ spare) 8 (unat cnt)) (\<lambda>addrs.
     Inr \<lparr>VH_Version = drop_bit 4 b0, VH_Type = b0 AND 0x0F, VH_VirtualRtrId = vrid, VH_Priority = prio, VH_CountIPv4Addr = cnt,
          VH_Rsvd = ucast (drop_bit 13 rsvdAdver), VH_MaxAdverInt = rsvdAdver AND 0x1FFF, VH_CheckSum = checkSum, VH_IPv4Addr = addrs\<rparr>)))))))))"

section \<open>Checksum\<close>

text \<open>The sum of the 16-bit words; a last single byte is read with its missing neighbour, which panics.\<close>

fun sum16 :: "u32 \<Rightarrow> bytes \<Rightarrow> u32 vres" where
  "sum16 csum [] = Inr csum"
| "sum16 csum [b] = Inl Panic"
| "sum16 csum (b # c # content) = sum16 (csum + push_bit 8 (ucast b) + ucast c) content"

definition VrrpComputeChecksum :: "u8 \<Rightarrow> bytes \<Rightarrow> u16 vres" where
  "VrrpComputeChecksum version content =
     (if version = VRRP_VERSION2 then bind_r (sum16 0 content) (\<lambda>csum. Inr (NOT (ucast (drop_bit 16 csum + csum)))) else Inr 0)"

section \<open>Encoding\<close>

text \<open>The length is computed in one byte.\<close>

definition header_len :: "VrrpPktHeader \<Rightarrow> u8" where
  "header_len hdr = max VRRP_HEADER_MIN_SIZE (8 + VH_CountIPv4Addr hdr * 4)"

text \<open>The bounds of the destination are checked, and \<open>copy\<close> copies nothing for an address that is not an IPv4 one.\<close>

fun encode_addrs :: "bytes list \<Rightarrow> nat \<Rightarrow> nat \<Rightarrow> bytes \<Rightarrow> bytes vres" where
  "encode_addrs as base 0 buf = Inr buf"
| "encode_addrs as base (Suc n) buf =
     (case as of
        [] \<Rightarrow> Inl Panic
      | a # as \<Rightarrow>
          bind_r (slice_r buf base (base + 4)) (\<lambda>_. bind_r (copy_r buf base (To4 a)) (encode_addrs as (base + 4) n)))"

definition VrrpEncodeHeader :: "VrrpPktHeader \<Rightarrow> (bytes \<times> u16) vres" where
  "VrrpEncodeHeader hdr =
     (let pktLen = header_len hdr;
          buf = [push_bit 4 (VH_Version hdr) OR VH_Type hdr, VH_VirtualRtrId hdr, VH_Priority hdr, VH_CountIPv4Addr hdr] @
            be16 (push_bit 13 (ucast (VH_Rsvd hdr)) OR VH_MaxAdverInt hdr) @ be16 (VH_CheckSum hdr) @ replicate (unat pktLen - 8) 0
      in bind_r (encode_addrs (VH_IPv4Addr hdr) 8 (unat (VH_CountIPv4Addr hdr)) buf) (\<lambda>buf.
         bind_r (VrrpComputeChecksum (VH_Version hdr) buf) (\<lambda>c.
         bind_r (put_r buf 6 (be16 c)) (\<lambda>buf. Inr (buf, ucast pktLen)))))"

section \<open>Checks\<close>

text \<open>
  What the checks use of the configuration: the virtual address, the address of the interface (with its mask), and the identifier. The
  checksum field of the payload is cleared first.
\<close>

definition VrrpCheckHeader :: "string \<Rightarrow> string \<Rightarrow> i32 \<Rightarrow> VrrpPktHeader \<Rightarrow> bytes \<Rightarrow> bytes \<Rightarrow> unit vres" where
  "VrrpCheckHeader vip ipAddr vrid hdr layerContent spare =
     (if VH_Version hdr \<noteq> VRRP_VERSION2 \<and> VH_Version hdr \<noteq> VRRP_VERSION3
      then Inl (Error ''Version is not correct for received VRRP Packet'')
      else
        bind_r (put_r (layerContent @ spare) 6 (be16 0)) (\<lambda>content.
        bind_r (VrrpComputeChecksum (VH_Version hdr) (take (length layerContent) content)) (\<lambda>chksum.
        if chksum \<noteq> VH_CheckSum hdr then Inl (Error ''VRRP checksum failure'')
        else if VH_CountIPv4Addr hdr = 0 \<or> VH_MaxAdverInt hdr = 0 \<or> VH_Type hdr = 0
        then Inl (Error ''Field like type/count ip addr/Advertisement Interval are not valid'')
        else if vip = [] \<and> list_ex (\<lambda>a. ipAddr = IP_String a) (take (unat (VH_CountIPv4Addr hdr)) (VH_IPv4Addr hdr))
        then Inl (Error ''Local Router should not be same as the VRRP Ip Address'')
        else if vrid = 0 then Inl (Error ''VRID is not configured on interface'')
        else Inr ())))"

section \<open>Round trip\<close>

definition wf_header :: "VrrpPktHeader \<Rightarrow> bool" where
  "wf_header h \<longleftrightarrow>
     VH_Version h < 16 \<and> VH_Type h < 16 \<and> VH_Rsvd h < 8 \<and> VH_MaxAdverInt h < 0x2000 \<and> VH_CheckSum h = 0 \<and>
     length (VH_IPv4Addr h) = unat (VH_CountIPv4Addr h) \<and> VH_CountIPv4Addr h \<le> 61 \<and> (\<forall>a\<in>set (VH_IPv4Addr h). length a = 4)"

lemma encode_addrs_ok:
  "\<forall>a\<in>set as. length a = 4 \<Longrightarrow> length tail \<ge> 4 * length as \<Longrightarrow>
   encode_addrs as (length pre) (length as) (pre @ tail) = Inr (pre @ concat as @ drop (4 * length as) tail)"
proof (induction as arbitrary: pre tail)
  case (Cons a as)
  obtain t u where tu: "tail = t @ u" "length t = 4"
    using Cons.prems(2) by (intro that [of "take 4 tail" "drop 4 tail"]) simp_all
  have a: "length a = 4" using Cons.prems(1) by simp
  have c: "copy_r (pre @ tail) (length pre) (To4 a) = (Inr ((pre @ a) @ u) :: bytes vres)"
    using copy_r_mid [of t a pre u] tu a by simp
  have "encode_addrs as (length (pre @ a)) (length as) ((pre @ a) @ u) = Inr ((pre @ a) @ concat as @ drop (4 * length as) u)"
    by (rule Cons.IH) (use Cons.prems tu in simp_all)
  then show ?case using a c tu by (simp add: slice_r_def)
qed simp

lemma decode_addrs_ok:
  "\<forall>a\<in>set as. length a = 4 \<Longrightarrow> decode_addrs (pre @ concat as @ post) (length pre) (length as) = Inr as"
proof (induction as arbitrary: pre)
  case (Cons a as)
  have a: "length a = 4" using Cons.prems by simp
  have "decode_addrs ((pre @ a) @ concat as @ post) (length (pre @ a)) (length as) = Inr as"
    by (rule Cons.IH) (use Cons.prems in simp)
  then show ?case using a by (simp add: slice_r_def)
qed simp

lemma concat_length4: "\<forall>a\<in>set as. length a = 4 \<Longrightarrow> length (concat as) = 4 * length as"
  by (induction as) auto

lemma small_take_bit: "unat x < 2 ^ n \<Longrightarrow> x = take_bit n (x :: 'a::len word)"
  by (rule word_unat_eqI) (simp add: unsigned_take_bit_eq take_bit_nat_eq_self)

lemma version_type_bits:
  assumes "(v :: u8) < 16" "t < 16"
  shows "drop_bit 4 (push_bit 4 v OR t) = v" "(push_bit 4 v OR t) AND 0x0F = t"
proof -
  have m: "(15 :: u8) = mask 4" by (simp add: mask_eq_exp_minus_1)
  have lt: "x = take_bit 4 x" if "x < 16" for x :: u8
    by (rule small_take_bit) (use that in \<open>simp add: word_less_nat_alt\<close>)
  note t = lt [OF assms(2)] lt [OF assms(1)]
  show "(push_bit 4 v OR t) AND 0x0F = t"
    unfolding m by (subst t(1)) (rule bit_word_eqI, auto simp: bit_simps)
  have "drop_bit 4 (push_bit 4 (take_bit 4 v) OR take_bit 4 t) = take_bit 4 v"
    by (rule bit_word_eqI) (auto simp: bit_simps)
  then show "drop_bit 4 (push_bit 4 v OR t) = v" unfolding t [symmetric] .
qed

lemma interval_bits:
  assumes "(r :: u8) < 8" "(m :: u16) < 0x2000"
  shows "ucast (drop_bit 13 (push_bit 13 (ucast r) OR m)) = r" "(push_bit 13 (ucast r) OR m) AND 0x1FFF = m"
proof -
  have k: "(0x1FFF :: u16) = mask 13" by (simp add: mask_eq_exp_minus_1)
  have r: "r = take_bit 3 r" by (rule small_take_bit) (use assms(1) in \<open>simp add: word_less_nat_alt\<close>)
  have m: "m = take_bit 13 m" by (rule small_take_bit) (use assms(2) in \<open>simp add: word_less_nat_alt\<close>)
  have "(push_bit 13 (ucast (take_bit 3 r)) OR take_bit 13 m) AND mask 13 = take_bit 13 m"
    by (rule bit_word_eqI) (auto simp: bit_simps)
  then show "(push_bit 13 (ucast r) OR m) AND 0x1FFF = m" unfolding k r [symmetric] m [symmetric] .
  have "ucast (drop_bit 13 (push_bit 13 (ucast (take_bit 3 r)) OR take_bit 13 m)) = take_bit 3 r"
    by (rule bit_word_eqI) (auto simp: bit_simps)
  then show "ucast (drop_bit 13 (push_bit 13 (ucast r) OR m)) = r" unfolding r [symmetric] m [symmetric] .
qed

text \<open>The sum over the words, from any start.\<close>

lemma sum16_total: "even (length bs) \<Longrightarrow> \<exists>c. sum16 s bs = Inr c"
  by (induction s bs rule: sum16.induct) auto

lemma checksum_total: "even (length bs) \<Longrightarrow> \<exists>c. VrrpComputeChecksum v bs = Inr c"
  using sum16_total [of bs 0] by (auto simp: VrrpComputeChecksum_def)

text \<open>The octets before the checksum is put in: the eight of the header, the addresses, and the padding to the minimal size.\<close>

definition encoded :: "VrrpPktHeader \<Rightarrow> u16 \<Rightarrow> bytes" where
  "encoded h c =
     [push_bit 4 (VH_Version h) OR VH_Type h, VH_VirtualRtrId h, VH_Priority h, VH_CountIPv4Addr h] @
     be16 (push_bit 13 (ucast (VH_Rsvd h)) OR VH_MaxAdverInt h) @ be16 c @ concat (VH_IPv4Addr h) @
     replicate (unat (header_len h) - 8 - 4 * unat (VH_CountIPv4Addr h)) 0"

lemma header_len_ok:
  assumes "VH_CountIPv4Addr h \<le> 61"
  shows "unat (header_len h) = max 20 (8 + 4 * unat (VH_CountIPv4Addr h))"
proof -
  have n: "unat (VH_CountIPv4Addr h) \<le> 61" using assms by (simp add: word_le_nat_alt)
  then have "unat (8 + VH_CountIPv4Addr h * 4) = 8 + 4 * unat (VH_CountIPv4Addr h)"
    by (simp add: unat_word_ariths)
  then show ?thesis by (simp add: header_len_def max_def word_le_nat_alt)
qed

lemma wf_header_addrs:
  assumes "wf_header h"
  shows "\<forall>a\<in>set (VH_IPv4Addr h). length a = 4" "length (VH_IPv4Addr h) = unat (VH_CountIPv4Addr h)"
    "unat (header_len h) = max 20 (8 + 4 * unat (VH_CountIPv4Addr h))"
  using assms header_len_ok [of h] by (simp_all add: wf_header_def)

lemma length_encoded: "wf_header h \<Longrightarrow> length (encoded h c) = unat (header_len h)"
  using wf_header_addrs [of h] by (simp add: encoded_def concat_length4)

lemma even_encoded: "wf_header h \<Longrightarrow> even (length (encoded h c))"
  unfolding length_encoded wf_header_addrs(3) by (simp add: max_def)

lemma put_checksum: "put_r (encoded h c @ spare) 6 (be16 d) = Inr (encoded h d @ spare)"
  by (simp add: encoded_def put_r_def be16_def)

lemma encode_encoded:
  assumes "wf_header h" "VrrpComputeChecksum (VH_Version h) (encoded h 0) = Inr c"
  shows "VrrpEncodeHeader h = Inr (encoded h c, ucast (header_len h))"
proof -
  define head where "head = [push_bit 4 (VH_Version h) OR VH_Type h, VH_VirtualRtrId h, VH_Priority h, VH_CountIPv4Addr h] @
    be16 (push_bit 13 (ucast (VH_Rsvd h)) OR VH_MaxAdverInt h) @ be16 0"
  have len: "length head = 8" by (simp add: head_def)
  note w = wf_header_addrs [OF assms(1)]
  have "encode_addrs (VH_IPv4Addr h) (length head) (length (VH_IPv4Addr h)) (head @ replicate (unat (header_len h) - 8) 0) =
      Inr (head @ concat (VH_IPv4Addr h) @ drop (4 * length (VH_IPv4Addr h)) (replicate (unat (header_len h) - 8) 0))"
    by (rule encode_addrs_ok) (use w in simp_all)
  then have "encode_addrs (VH_IPv4Addr h) 8 (unat (VH_CountIPv4Addr h)) (head @ replicate (unat (header_len h) - 8) 0) = Inr (encoded h 0)"
    using w len by (simp add: encoded_def head_def)
  then show ?thesis
    using assms by (simp add: VrrpEncodeHeader_def Let_def head_def wf_header_def put_checksum [where spare = "[]", simplified])
qed

lemma decode_encoded:
  assumes "wf_header h"
  shows "VrrpDecodeHeader (encoded h c) spare = Inr (h\<lparr>VH_CheckSum := c\<rparr>)"
proof -
  note w = wf_header_addrs [OF assms]
  define b0 where "b0 = push_bit 4 (VH_Version h) OR VH_Type h"
  define ra where "ra = push_bit 13 (ucast (VH_Rsvd h)) OR VH_MaxAdverInt h"
  define tail where "tail = replicate (unat (header_len h) - 8 - 4 * unat (VH_CountIPv4Addr h)) (0::u8) @ spare"
  define pre where "pre = b0 # VH_VirtualRtrId h # VH_Priority h # VH_CountIPv4Addr h # be16 ra @ be16 c"
  have e: "encoded h c @ spare = pre @ concat (VH_IPv4Addr h) @ tail"
    by (simp add: encoded_def pre_def b0_def ra_def tail_def)
  have i: "index_r (encoded h c) 0 = (Inr b0 :: u8 vres)" "index_r (encoded h c) 1 = (Inr (VH_VirtualRtrId h) :: u8 vres)"
      "index_r (encoded h c) 2 = (Inr (VH_Priority h) :: u8 vres)" "index_r (encoded h c) 3 = (Inr (VH_CountIPv4Addr h) :: u8 vres)"
    by (simp_all add: encoded_def b0_def)
  have s: "slice_r (encoded h c @ spare) 4 6 = (Inr (be16 ra) :: bytes vres)" "slice_r (encoded h c @ spare) 6 8 = (Inr (be16 c) :: bytes vres)"
    unfolding e by (simp_all add: pre_def slice_r_def be16_def)
  have a: "decode_addrs (encoded h c @ spare) 8 (unat (VH_CountIPv4Addr h)) = Inr (VH_IPv4Addr h)"
    using decode_addrs_ok [OF w(1), of pre tail] w(2) unfolding e by (simp add: pre_def)
  have v: "drop_bit 4 b0 = VH_Version h" "b0 AND 0x0F = VH_Type h"
    using version_type_bits [of "VH_Version h" "VH_Type h"] assms by (simp_all add: b0_def wf_header_def)
  have r: "ucast (drop_bit 13 ra) = VH_Rsvd h" "ra AND 0x1FFF = VH_MaxAdverInt h"
    using interval_bits [of "VH_Rsvd h" "VH_MaxAdverInt h"] assms by (simp_all add: ra_def wf_header_def)
  show ?thesis unfolding VrrpDecodeHeader_def i s a bind_r_Inr get16_be16_only v r by simp
qed

lemma check_encoded:
  assumes "wf_header h" "VrrpComputeChecksum (VH_Version h) (encoded h 0) = Inr c"
    "VH_Version h \<in> {2, 3}" "VH_CountIPv4Addr h \<noteq> 0" "VH_MaxAdverInt h \<noteq> 0" "VH_Type h \<noteq> 0" "vip \<noteq> []" "vrid \<noteq> 0"
  shows "VrrpCheckHeader vip ipAddr vrid (h\<lparr>VH_CheckSum := c\<rparr>) (encoded h c) spare = Inr ()"
  using assms length_encoded [OF assms(1), of 0] length_encoded [OF assms(1), of c]
  by (auto simp: VrrpCheckHeader_def put_checksum)

section \<open>The Internet checksum\<close>

text \<open>RFC 1071: the one's complement sum of the words, all carries added back.\<close>

fun word_sum :: "bytes \<Rightarrow> nat" where
  "word_sum (b # c # content) = 256 * unat b + unat c + word_sum content"
| "word_sum _ = 0"

function fold_carries :: "nat \<Rightarrow> nat" where
  "fold_carries n = (if n < 65536 then n else fold_carries (n div 65536 + n mod 65536))"
  by pat_completeness auto

termination fold_carries
proof (relation "measure id")
  fix n :: nat
  assume "\<not> n < 65536"
  then have "n div 65536 + n mod 65536 < n"
    using mult_div_mod_eq [of 65536 n] by linarith
  then show "(n div 65536 + n mod 65536, n) \<in> measure id" by simp
qed simp

declare fold_carries.simps [simp del]

definition internet_checksum :: "bytes \<Rightarrow> u16" where
  "internet_checksum content = NOT (word_of_nat (fold_carries (word_sum content)))"

lemma word_sum_le: "word_sum content \<le> 65535 * (length content div 2)"
proof (induction content rule: word_sum.induct)
  case (1 b c content)
  have "unat b < 256" "unat c < 256" using unsigned_less [of b, where 'a = nat] unsigned_less [of c, where 'a = nat] by simp_all
  then have "256 * unat b + unat c \<le> 65535" by linarith
  then show ?case using 1 by simp
qed simp_all

lemma sum16_nat:
  "even (length content) \<Longrightarrow> sum16 (word_of_nat n) content = Inr (word_of_nat (n + word_sum content))"
proof (induction content arbitrary: n rule: word_sum.induct)
  case (1 b c content)
  have "word_of_nat n + push_bit 8 (ucast b) + ucast c = (word_of_nat (n + (256 * unat b + unat c)) :: u32)"
    by (simp add: push_bit_eq_mult mult.commute add.assoc)
  moreover have "sum16 (word_of_nat (n + (256 * unat b + unat c))) content =
      Inr (word_of_nat (n + (256 * unat b + unat c) + word_sum content))"
    by (rule 1) (use 1 in simp)
  ultimately show ?case by (simp only: sum16.simps word_sum.simps add.assoc)
qed simp_all

lemma checksum_nat:
  assumes "even (length content)" "length content \<le> 65536"
  shows "VrrpComputeChecksum 2 content =
    Inr (NOT (word_of_nat (word_sum content div 65536 + word_sum content mod 65536)))"
proof -
  define n where "n = word_sum content"
  have n: "n < 2 ^ 32" using word_sum_le [of content] assms(2) unfolding n_def by simp
  have u: "unat (word_of_nat n :: u32) = n" using n by (simp add: unat_of_nat take_bit_nat_eq_self)
  have "drop_bit 16 (word_of_nat n :: u32) = word_of_nat (n div 65536)"
  proof (rule word_unat_eqI)
    have "unat (drop_bit 16 (word_of_nat n :: u32)) = n div 65536" by (simp add: drop_bit_eq_div unat_div_distrib u)
    moreover have "unat (word_of_nat (n div 65536) :: u32) = n div 65536" using n by (simp add: unat_of_nat)
    ultimately show "unat (drop_bit 16 (word_of_nat n :: u32)) = unat (word_of_nat (n div 65536) :: u32)" by simp
  qed
  then have "ucast (drop_bit 16 (word_of_nat n) + (word_of_nat n :: u32)) = (ucast (word_of_nat (n div 65536 + n) :: u32) :: u16)"
    by (simp only: of_nat_add)
  also have "\<dots> = word_of_nat (n div 65536 + n)"
    by (simp only: unsigned_of_nat word_of_nat_eq_iff) simp
  finally have "ucast (drop_bit 16 (word_of_nat n) + (word_of_nat n :: u32)) = (word_of_nat (n div 65536 + n) :: u16)" .
  moreover have "(word_of_nat (n div 65536 + n) :: u16) = word_of_nat (n div 65536 + n mod 65536)"
    by (simp only: word_of_nat_eq_iff take_bit_eq_mod) (simp add: mod_simps)
  ultimately show ?thesis using sum16_nat [OF assms(1), of 0] by (simp add: VrrpComputeChecksum_def n_def)
qed

text \<open>One addition of the carries is enough unless it carries again.\<close>

lemma checksum_internet:
  assumes "even (length content)" "length content \<le> 65536"
  shows "VrrpComputeChecksum 2 content = Inr (internet_checksum content) \<longleftrightarrow>
    word_sum content div 65536 + word_sum content mod 65536 < 65536"
proof -
  define n where "n = word_sum content"
  define k where "k = n div 65536 + n mod 65536"
  have n: "n < 65536 * 65536" using word_sum_le [of content] assms(2) unfolding n_def by simp
  have d: "n div 65536 < 65536" using n by (simp add: less_mult_imp_div_less)
  have k: "k \<le> 131070" using d mod_less_divisor [of 65536 n] unfolding k_def by linarith
  have f: "fold_carries n = (if k < 65536 then k else k - 65535)"
  proof (cases "n < 65536")
    case False
    then have nk: "fold_carries n = fold_carries k" by (simp add: fold_carries.simps [of n] k_def)
    show ?thesis
    proof (cases "k < 65536")
      case k2: False
      then have "k div 65536 = 1" "k mod 65536 = k - 65536" using k by (simp_all add: div_nat_eqI le_mod_geq)
      then have "k div 65536 + k mod 65536 = k - 65535" using k2 by linarith
      then have "fold_carries k = fold_carries (k - 65535)" using k2 by (simp add: fold_carries.simps [of k])
      moreover have "k - 65535 < 65536" using k by linarith
      ultimately show ?thesis using nk k2 by (simp add: fold_carries.simps [of "k - 65535"])
    qed (simp add: nk fold_carries.simps [of k])
  qed (simp add: fold_carries.simps [of n] k_def)
  have "(word_of_nat k :: u16) = word_of_nat (fold_carries n) \<longleftrightarrow> k mod 65536 = fold_carries n mod 65536"
    by (simp add: word_of_nat_eq_iff take_bit_eq_mod)
  also have "\<dots> \<longleftrightarrow> k < 65536" unfolding f using k by (auto simp: le_mod_geq)
  finally show ?thesis
    unfolding checksum_nat [OF assms] internet_checksum_def n_def [symmetric] k_def [symmetric] by simp
qed

end
