(* ===== verification/VrrpText.thy ===== *)
theory VrrpText
  imports VrrpPacket
begin

text \<open>
  The texts of the VRRP daemon: keys of its table (\<open>IfIndex_VRID\<close>), addresses and MAC addresses. The functions of the Go library the
  daemon calls on them are \<open>strconv.Itoa\<close>, \<open>strconv.Atoi\<close>, \<open>net.ParseIP\<close>, \<open>net.ParseCIDR\<close>, \<open>net.ParseMAC\<close>,
  \<open>HardwareAddr.String\<close> and \<open>bytes.Compare\<close>. The parser of IPv6 texts is an argument.
\<close>

section \<open>Numbers and keys\<close>

definition itoa :: "int \<Rightarrow> string" where
  "itoa n = (if n < 0 then CHR ''-'' # decimal (nat (- n)) else decimal (nat n))"

definition is_digit :: "char \<Rightarrow> bool" where
  "is_digit c \<longleftrightarrow> 48 \<le> (of_char c :: nat) \<and> (of_char c :: nat) \<le> 57"

text \<open>The value where the text is not a number is 0.\<close>

fun atoi :: "string \<Rightarrow> int" where
  "atoi [] = 0"
| "atoi (c # cs) =
     (let ds = (if c = CHR ''-'' \<or> c = CHR ''+'' then cs else c # cs)
      in if ds = [] \<or> \<not> list_all is_digit ds then 0
         else if c = CHR ''-'' then - int (undecimal 0 ds) else int (undecimal 0 ds))"

definition vrrp_key :: "i32 \<Rightarrow> i32 \<Rightarrow> string" where
  "vrrp_key ifIndex vrid = itoa (sint ifIndex) @ ''_'' @ itoa (sint vrid)"

text \<open>The interface a key names: the part before the first underscore, as a number.\<close>

definition key_ifindex :: "string \<Rightarrow> i32" where
  "key_ifindex key = word_of_int (atoi (takeWhile (\<lambda>c. c \<noteq> CHR ''_'') key))"

lemma decimal_all_digits: "list_all is_digit (decimal n)"
  using decimal_digits by (auto simp: list_all_iff is_digit_def)

lemma atoi_itoa [simp]: "atoi (itoa n) = n"
proof (cases "n < 0")
  case False
  obtain c cs where d: "decimal (nat n) = c # cs" by (cases "decimal (nat n)") simp_all
  have "is_digit c" using decimal_all_digits [of "nat n"] d by simp
  then have "c \<noteq> CHR ''-''" "c \<noteq> CHR ''+''" by (auto simp: is_digit_def)
  then have "atoi (c # cs) = int (undecimal 0 (c # cs))"
    using decimal_all_digits [of "nat n"] d by simp
  then show ?thesis using False undecimal_decimal [of "nat n"] d by (simp add: itoa_def)
qed (simp add: itoa_def decimal_all_digits undecimal_decimal)

lemma itoa_inj: "itoa m = itoa n \<Longrightarrow> m = n"
  by (metis atoi_itoa)

lemma itoa_no_underscore: "CHR ''_'' \<notin> set (itoa n)"
  using decimal_all_digits [of "nat n"] decimal_all_digits [of "nat (- n)"]
  by (auto simp: itoa_def list_all_iff is_digit_def)

lemma key_ifindex_key [simp]: "key_ifindex (vrrp_key i v) = i"
proof -
  have "takeWhile (\<lambda>c. c \<noteq> CHR ''_'') (itoa (sint i) @ CHR ''_'' # itoa (sint v)) = itoa (sint i)"
    using itoa_no_underscore [of "sint i"] by (subst takeWhile_append2) auto
  then show ?thesis by (simp add: key_ifindex_def vrrp_key_def)
qed

lemma vrrp_key_inj: "vrrp_key i v = vrrp_key j w \<Longrightarrow> i = j \<and> v = w"
  using split_at_sep [of "itoa (sint i)" "CHR ''_''" "itoa (sint v)" "itoa (sint j)" "itoa (sint w)"] itoa_no_underscore
  by (auto simp: vrrp_key_def signed_word_eqI dest!: itoa_inj)

section \<open>Addresses\<close>

text \<open>\<open>dtoi\<close>: the leading digits, and the rest; nothing where there are none or the number is too big.\<close>

definition dtoi :: "string \<Rightarrow> (nat \<times> string) option" where
  "dtoi s =
     (let ds = takeWhile is_digit s in if ds = [] \<or> undecimal 0 ds \<ge> 0xFFFFFF then None else Some (undecimal 0 ds, dropWhile is_digit s))"

fun parse_octets :: "nat \<Rightarrow> string \<Rightarrow> bytes option" where
  "parse_octets 0 s = (if s = [] then Some [] else None)"
| "parse_octets (Suc n) s =
     (case dtoi s of
        None \<Rightarrow> None
      | Some (k, rest) \<Rightarrow>
          if k > 255 then None
          else if n = 0 then map_option (Cons (word_of_nat k)) (parse_octets 0 rest)
          else (case rest of
                  [] \<Rightarrow> None
                | c # rest \<Rightarrow> if c = CHR ''.'' then map_option (Cons (word_of_nat k)) (parse_octets n rest) else None))"

text \<open>Addresses have 16 bytes, IPv4 ones with the prefix of the mapped addresses; \<open>nil\<close> is the empty list.\<close>

definition v4_mapped :: bytes where
  "v4_mapped = replicate 10 0 @ [0xFF, 0xFF]"

definition parseIPv4 :: "string \<Rightarrow> bytes" where
  "parseIPv4 s = (case parse_octets 4 s of None \<Rightarrow> [] | Some ip \<Rightarrow> v4_mapped @ ip)"

definition ParseIP :: "(string \<Rightarrow> bytes) \<Rightarrow> string \<Rightarrow> bytes" where
  "ParseIP parseIPv6 s =
     (case dropWhile (\<lambda>c. c \<noteq> CHR ''.'' \<and> c \<noteq> CHR '':'') s of
        [] \<Rightarrow> []
      | c # _ \<Rightarrow> if c = CHR ''.'' then parseIPv4 s else parseIPv6 s)"

definition ParseCIDR :: "(string \<Rightarrow> bytes) \<Rightarrow> string \<Rightarrow> bytes" where
  "ParseCIDR parseIPv6 s =
     (case dropWhile (\<lambda>c. c \<noteq> CHR ''/'') s of
        [] \<Rightarrow> []
      | _ # bits \<Rightarrow>
          let addr = takeWhile (\<lambda>c. c \<noteq> CHR ''/'') s;
              v4 = parseIPv4 addr;
              iplen = (if v4 = [] then 16 else 4);
              ip = (if v4 = [] then parseIPv6 addr else v4)
          in (case dtoi bits of
                None \<Rightarrow> []
              | Some (n, rest) \<Rightarrow> if rest \<noteq> [] \<or> n > 8 * iplen then [] else ip))"

text \<open>\<open>bytes.Compare(a, b) > 0\<close>.\<close>

fun bytes_greater :: "bytes \<Rightarrow> bytes \<Rightarrow> bool" where
  "bytes_greater [] _ = False"
| "bytes_greater (a # as) [] = True"
| "bytes_greater (a # as) (b # bs) = (a > b \<or> a = b \<and> bytes_greater as bs)"

lemma dtoi_split: "dtoi s = Some (k, rest) \<Longrightarrow> s = takeWhile is_digit s @ rest"
  by (auto simp: dtoi_def Let_def split: if_splits)

lemma parse_octets_digits: "parse_octets n s = Some ip \<Longrightarrow> c \<in> set s \<Longrightarrow> is_digit c \<or> c = CHR ''.''"
proof (induction n arbitrary: s ip)
  case (Suc n)
  obtain k rest where d: "dtoi s = Some (k, rest)" using Suc.prems(1) by (auto split: option.splits)
  have "c \<in> set (takeWhile is_digit s) \<or> c \<in> set rest"
    using Suc.prems(2) dtoi_split [OF d] by (metis Un_iff set_append)
  moreover have "is_digit c \<or> c = CHR ''.''" if "c \<in> set rest"
  proof (cases n)
    case 0
    then show ?thesis using Suc.prems(1) d that by (auto split: if_splits)
  next
    case (Suc m)
    then show ?thesis using Suc.prems(1) d that Suc.IH by (auto split: if_splits list.splits)
  qed
  ultimately show ?case by (auto dest: set_takeWhileD)
qed (simp split: if_splits)

text \<open>A text with a mask is not an address.\<close>

lemma ParseIP_mask:
  assumes "CHR ''/'' \<in> set s" "CHR '':'' \<notin> set s"
  shows "ParseIP v6 s = []"
proof -
  have p: "parseIPv4 s = []"
    using parse_octets_digits [of 4 s _ "CHR ''/''"] assms(1)
    by (cases "parse_octets 4 s") (auto simp: is_digit_def parseIPv4_def simp del: parse_octets.simps)
  show ?thesis
  proof (cases "dropWhile (\<lambda>c. c \<noteq> CHR ''.'' \<and> c \<noteq> CHR '':'') s")
    case (Cons c cs)
    then have "c \<in> set s" by (metis list.set_intros(1) set_dropWhileD)
    moreover have "c = CHR ''.'' \<or> c = CHR '':''" using Cons hd_dropWhile [of "\<lambda>c. c \<noteq> CHR ''.'' \<and> c \<noteq> CHR '':''" s] by auto
    ultimately show ?thesis using assms(2) Cons p by (auto simp: ParseIP_def)
  qed (simp only: ParseIP_def list.case)
qed

section \<open>MAC addresses\<close>

definition hex_value :: "char \<Rightarrow> nat option" where
  "hex_value c =
     (let n = of_char c :: nat
      in if 48 \<le> n \<and> n \<le> 57 then Some (n - 48) else if 97 \<le> n \<and> n \<le> 102 then Some (n - 87)
         else if 65 \<le> n \<and> n \<le> 70 then Some (n - 55) else None)"

fun parse_pairs :: "char \<Rightarrow> nat \<Rightarrow> string \<Rightarrow> bytes option" where
  "parse_pairs e 0 s = Some []"
| "parse_pairs e (Suc n) (a # b # s) =
     (case (hex_value a, hex_value b) of
        (Some x, Some y) \<Rightarrow>
          (case s of
             [] \<Rightarrow> map_option (Cons (word_of_nat (16 * x + y))) (parse_pairs e n [])
           | c # s \<Rightarrow> if c = e then map_option (Cons (word_of_nat (16 * x + y))) (parse_pairs e n s) else None)
      | _ \<Rightarrow> None)"
| "parse_pairs e (Suc n) _ = None"

text \<open>The form with a separator after each byte; the dotted form does not occur in the daemon. \<open>nil\<close> is the empty list.\<close>

definition ParseMAC :: "string \<Rightarrow> bytes" where
  "ParseMAC s =
     (if length s < 14 \<or> s ! 2 \<notin> {CHR '':'', CHR ''-''} then []
      else if (length s + 1) mod 3 \<noteq> 0 \<or> (length s + 1) div 3 \<notin> {6, 8, 20} then []
      else (case parse_pairs (s ! 2) ((length s + 1) div 3) s of None \<Rightarrow> [] | Some hw \<Rightarrow> hw))"

fun mac_string :: "bytes \<Rightarrow> string" where
  "mac_string [] = []"
| "mac_string [b] = [hex_digit (unat b div 16), hex_digit (unat b mod 16)]"
| "mac_string (b # bs) = hex_digit (unat b div 16) # hex_digit (unat b mod 16) # CHR '':'' # mac_string bs"

abbreviation (input) VRRP_IEEE_MAC_ADDR :: string where "VRRP_IEEE_MAC_ADDR \<equiv> ''00-00-5E-00-01-''"
abbreviation (input) VRRP_PROTOCOL_MAC :: string where "VRRP_PROTOCOL_MAC \<equiv> ''01:00:5e:00:00:12''"
abbreviation (input) VRRP_GROUP_IP :: string where "VRRP_GROUP_IP \<equiv> ''224.0.0.18''"

definition virtual_mac :: "i32 \<Rightarrow> string" where
  "virtual_mac vrid = (if sint vrid < 10 then VRRP_IEEE_MAC_ADDR @ ''0'' @ itoa (sint vrid) else VRRP_IEEE_MAC_ADDR @ itoa (sint vrid))"

lemma mac_string_not_virtual: "mac_string m \<noteq> virtual_mac v"
  by (cases m rule: mac_string.cases) (simp_all add: virtual_mac_def)

lemma sint_small: "v < 256 \<Longrightarrow> sint (word_of_nat v :: i32) = int v"
  by (simp add: signed_of_nat signed_take_bit_int_eq_self)

lemma hex_value_digit: "d < 10 \<Longrightarrow> hex_value (char_of (48 + d)) = Some d"
  by (simp add: hex_value_def)

lemma virtual_mac_digits:
  assumes "v < 100"
  shows "virtual_mac (word_of_nat v) = VRRP_IEEE_MAC_ADDR @ [char_of (48 + v div 10), char_of (48 + v mod 10)]"
proof (cases "v < 10")
  case True
  moreover have "CHR ''0'' = char_of (48 :: nat)" by code_simp
  ultimately show ?thesis by (simp add: virtual_mac_def sint_small itoa_def decimal.simps [of v])
next
  case False
  then have "v div 10 < 10" using assms by simp
  with False assms show ?thesis
    by (simp add: virtual_mac_def sint_small itoa_def decimal.simps [of v] decimal.simps [of "v div 10"])
qed

lemma parse_pairs_last: "hex_value a = Some x \<Longrightarrow> hex_value b = Some y \<Longrightarrow> parse_pairs e (Suc 0) [a, b] = Some [word_of_nat (16 * x + y)]"
  by simp

lemma parse_pairs_sep:
  "hex_value a = Some x \<Longrightarrow> hex_value b = Some y \<Longrightarrow> parse_pairs e n s = Some hw \<Longrightarrow>
   parse_pairs e (Suc n) (a # b # e # s) = Some (word_of_nat (16 * x + y) # hw)"
  by simp

lemma virtual_mac_bytes:
  assumes "v < 100"
  shows "ParseMAC (virtual_mac (word_of_nat v)) = [0, 0, 0x5E, 0, 1, word_of_nat (16 * (v div 10) + v mod 10)]"
proof -
  define a where "a = char_of (48 + v div 10)"
  define b where "b = char_of (48 + v mod 10)"
  have ab: "hex_value a = Some (v div 10)" "hex_value b = Some (v mod 10)"
    using assms unfolding a_def b_def by (intro hex_value_digit; simp)+
  have h: "hex_value CHR ''0'' = Some 0" "hex_value CHR ''1'' = Some 1" "hex_value CHR ''5'' = Some 5" "hex_value CHR ''E'' = Some 14"
    by (simp_all add: hex_value_def)
  have s: "virtual_mac (word_of_nat v) = VRRP_IEEE_MAC_ADDR @ [a, b]" unfolding a_def b_def by (rule virtual_mac_digits [OF assms])
  have six: "6 = Suc (Suc (Suc (Suc (Suc (Suc 0)))))" by simp
  have w: "word_of_nat (16 * 0 + 0) = (0 :: u8)" "word_of_nat (16 * 5 + 14) = (0x5E :: u8)" "word_of_nat (16 * 0 + 1) = (1 :: u8)"
    by simp_all
  have "parse_pairs CHR ''-'' (Suc (Suc (Suc (Suc (Suc (Suc 0)))))) (virtual_mac (word_of_nat v)) =
      Some [word_of_nat (16 * 0 + 0), word_of_nat (16 * 0 + 0), word_of_nat (16 * 5 + 14), word_of_nat (16 * 0 + 0), word_of_nat (16 * 0 + 1),
        word_of_nat (16 * (v div 10) + v mod 10)]"
    unfolding s append.simps by (intro parse_pairs_sep parse_pairs_last h ab)
  then have "parse_pairs CHR ''-'' 6 (virtual_mac (word_of_nat v)) =
      Some [0, 0, 0x5E, 0, 1, word_of_nat (16 * (v div 10) + v mod 10)]"
    unfolding six w .
  moreover have "virtual_mac (word_of_nat v) ! 2 = CHR ''-''" "length (virtual_mac (word_of_nat v)) = 17" unfolding s by simp_all
  ultimately show ?thesis unfolding ParseMAC_def by simp
qed

lemma virtual_mac_none:
  assumes "100 \<le> v" "v < 256"
  shows "ParseMAC (virtual_mac (word_of_nat v)) = []"
proof -
  have "\<not> v < 10" "\<not> v div 10 < 10" "v div 10 div 10 < 10" using assms by simp_all
  then have "length (decimal v) = 3"
    by (simp add: decimal.simps [of v] decimal.simps [of "v div 10"] decimal.simps [of "v div 10 div 10"])
  then show ?thesis using assms by (simp add: ParseMAC_def virtual_mac_def sint_small itoa_def)
qed

end
