(* ===== verification/VrrpDaemon.thy ===== *)
theory VrrpDaemon
  imports VrrpText "HOL-Library.Signed_Division"
begin

text \<open>
  The VRRP daemon (vrrp/server): the table of virtual routers, the state machine, timers, the packets sent and received, the
  configuration calls and the notifications of the interface manager.

  The main loop (\<open>VrrpChannelHanlder\<close>) is one goroutine; timer callbacks and the subscriber of the interface manager are others. A
  handler runs as a whole. It may wait on a channel: a wait that no goroutine can end is an error value with the state it leaves.
  \<open>vrrpPktSend\<close> is sent to by the main loop alone, so the main loop waits for ever where it asks for an advertisement itself, and another
  goroutine waits for ever where the main loop drops the request. \<open>vrrpFsmCh\<close> holds one event and is read by the main loop alone.

  Timers are references into a list, since a timer that is replaced or whose entry is deleted keeps running; their times are seconds. The four
  locks of an entry are allocated together. Calls of the switch and frames written are a log. The environment gives the answers of the
  packet capture library, the switch, the operating system and the packet library.
\<close>

section \<open>Data\<close>

record VrrpIntf =
  C_IfIndex :: i32
  C_VRID :: i32
  C_Priority :: i32
  C_VirtualIPv4Addr :: string
  C_AdvertisementInterval :: i32
  C_PreemptMode :: bool
  C_AcceptMode :: bool

text \<open>The names of the states; the first is the empty text.\<close>

datatype VrrpStateName =
  NoStateName | VRRP_UNINTIALIZE_STATE | VRRP_INITIALIZE_STATE | VRRP_BACKUP_STATE | VRRP_MASTER_STATE

record VrrpGlobalStateInfo =
  SI_AdverRx :: u32
  SI_AdverTx :: u32
  SI_MasterIp :: string
  SI_LastAdverRx :: string
  SI_LastAdverTx :: string
  SI_PreviousFsmState :: VrrpStateName
  SI_CurrentFsmState :: VrrpStateName
  SI_ReasonForTransition :: string

record VrrpGlobalInfo =
  GI_IntfConfig :: VrrpIntf
  GI_VirtualRouterMACAddress :: string
  GI_MasterAdverInterval :: i32
  GI_SkewTime :: i32
  GI_MasterDownValue :: i32
  GI_MasterDownTimer :: "nat option"
  GI_AdverTimer :: "nat option"
  GI_IpAddr :: string
  GI_pHandle :: "nat option"
  GI_Locks :: bool
  GI_StateName :: VrrpStateName
  GI_StateInfo :: VrrpGlobalStateInfo

text \<open>What the daemon reads of a received frame: its layers, and what follows the payload in the buffer.\<close>

record vrrp_ipv4 =
  IP_TTL :: u8
  IP_SrcIP :: bytes
  IP_DstIP :: bytes
  IP_Payload :: "bytes option"
  IP_Spare :: bytes

record vrrp_frame =
  PK_DstMAC :: "bytes option"
  PK_IPv4 :: "vrrp_ipv4 option"

record VrrpFsm =
  F_key :: string
  F_vrrpHdr :: "VrrpPktHeader option"
  F_inPkt :: "vrrp_frame option"

datatype vrrp_callback = MasterDown string | Adver string

record vrrp_timer =
  VT_callback :: vrrp_callback
  VT_after :: "int option"

datatype vrrp_event =
  UpdateSubIPv4Intf string string bool string "bool list"
| RsvdProtocolMac bool
| WritePacketData nat bytes
| ClosePcap nat

record VrrpServer =
  V_vrrpGblInfo :: "string \<rightharpoonup> VrrpGlobalInfo"
  V_vrrpIntfStateSlice :: "string list option"
  V_vrrpLinuxIfIndex2AsicdIfIndex :: "i32 \<rightharpoonup> string"
  V_vrrpIfIndexIpAddr :: "i32 \<rightharpoonup> string"
  V_vrrpVlanId2Name :: "int \<rightharpoonup> string"
  V_vrrpFsmCh :: "VrrpFsm list"
  V_vrrpMacConfigAdded :: bool
  V_timers :: "vrrp_timer list"
  V_log :: "vrrp_event list"

datatype vrrp_wait = WaitPktSend | WaitFsmCh

type_synonym 'a vrun = "(vrrp_wait \<times> VrrpServer, 'a) result"

datatype vrrp_goroutine = MainLoop | OtherGoroutine

text \<open>The layers given to the packet library: source and destination of the frame; length, source and destination of the datagram.\<close>

record vrrp_env =
  E_OpenLive :: "string \<Rightarrow> nat option"
  E_PacketReception :: "bool \<Rightarrow> bool"
  E_InterfaceByName :: "string \<Rightarrow> string option"
  E_IntfId :: "i32 \<Rightarrow> int"
  E_SubInterface :: "i32 \<Rightarrow> bool"
  E_Now :: string
  E_parseIPv6 :: "string \<Rightarrow> bytes"
  E_SerializeLayers :: "bytes \<times> bytes \<Rightarrow> u16 \<times> bytes \<times> bytes \<Rightarrow> bytes \<Rightarrow> bytes"

definition zero_intf :: VrrpIntf where
  "zero_intf = \<lparr>C_IfIndex = 0, C_VRID = 0, C_Priority = 0, C_VirtualIPv4Addr = [], C_AdvertisementInterval = 0, C_PreemptMode = False,
     C_AcceptMode = False\<rparr>"

definition zero_gbl :: VrrpGlobalInfo where
  "zero_gbl = \<lparr>GI_IntfConfig = zero_intf, GI_VirtualRouterMACAddress = [], GI_MasterAdverInterval = 0, GI_SkewTime = 0, GI_MasterDownValue = 0,
     GI_MasterDownTimer = None, GI_AdverTimer = None, GI_IpAddr = [], GI_pHandle = None, GI_Locks = False, GI_StateName = NoStateName,
     GI_StateInfo = \<lparr>SI_AdverRx = 0, SI_AdverTx = 0, SI_MasterIp = [], SI_LastAdverRx = [], SI_LastAdverTx = [],
       SI_PreviousFsmState = NoStateName, SI_CurrentFsmState = NoStateName, SI_ReasonForTransition = []\<rparr>\<rparr>"

definition VrrpInitGlobalDS :: VrrpServer where
  "VrrpInitGlobalDS = \<lparr>V_vrrpGblInfo = Map.empty, V_vrrpIntfStateSlice = None, V_vrrpLinuxIfIndex2AsicdIfIndex = Map.empty,
     V_vrrpIfIndexIpAddr = Map.empty, V_vrrpVlanId2Name = Map.empty, V_vrrpFsmCh = [], V_vrrpMacConfigAdded = False, V_timers = [], V_log = []\<rparr>"

abbreviation (input) VRRP_IGNORE_PRIORITY :: u16 where "VRRP_IGNORE_PRIORITY \<equiv> 65535"
abbreviation (input) VRRP_MASTER_DOWN_PRIORITY :: u16 where "VRRP_MASTER_DOWN_PRIORITY \<equiv> 0"
abbreviation (input) VRRP_MASTER_PRIORITY :: i32 where "VRRP_MASTER_PRIORITY \<equiv> 255"
abbreviation (input) VRRP_TTL :: u8 where "VRRP_TTL \<equiv> 255"

definition put_gbl :: "string \<Rightarrow> VrrpGlobalInfo \<Rightarrow> VrrpServer \<Rightarrow> VrrpServer" where
  "put_gbl key g svr = svr\<lparr>V_vrrpGblInfo := (V_vrrpGblInfo svr)(key \<mapsto> g)\<rparr>"

definition get_gbl :: "string \<Rightarrow> VrrpServer \<Rightarrow> VrrpGlobalInfo" where
  "get_gbl key svr = (case V_vrrpGblInfo svr key of None \<Rightarrow> zero_gbl | Some g \<Rightarrow> g)"

text \<open>Locking through a pointer that is \<open>nil\<close> panics.\<close>

definition with_locks :: "VrrpGlobalInfo \<Rightarrow> 'a vrun \<Rightarrow> 'a vrun" where
  "with_locks g r = (if GI_Locks g then r else Inl Panic)"

definition slice_keys :: "VrrpServer \<Rightarrow> string list" where
  "slice_keys svr = (case V_vrrpIntfStateSlice svr of None \<Rightarrow> [] | Some keys \<Rightarrow> keys)"

definition log_event :: "vrrp_event \<Rightarrow> VrrpServer \<Rightarrow> VrrpServer" where
  "log_event e svr = svr\<lparr>V_log := V_log svr @ [e]\<rparr>"

section \<open>Timers\<close>

definition AfterFunc :: "int \<Rightarrow> vrrp_callback \<Rightarrow> VrrpServer \<Rightarrow> nat \<times> VrrpServer" where
  "AfterFunc d cb svr = (length (V_timers svr), svr\<lparr>V_timers := V_timers svr @ [\<lparr>VT_callback = cb, VT_after = Some d\<rparr>]\<rparr>)"

definition set_timer :: "nat \<Rightarrow> int option \<Rightarrow> VrrpServer \<Rightarrow> VrrpServer" where
  "set_timer t d svr = svr\<lparr>V_timers := (V_timers svr)[t := (V_timers svr ! t)\<lparr>VT_after := d\<rparr>]\<rparr>"

definition stop_timer :: "nat option \<Rightarrow> VrrpServer \<Rightarrow> VrrpServer" where
  "stop_timer t svr = (case t of None \<Rightarrow> svr | Some t \<Rightarrow> set_timer t None svr)"

section \<open>Sending\<close>

definition VrrpCreateVrrpHeader :: "vrrp_env \<Rightarrow> VrrpGlobalInfo \<Rightarrow> (bytes \<times> u16) vres" where
  "VrrpCreateVrrpHeader E g =
     (let ip = (if C_VirtualIPv4Addr (GI_IntfConfig g) = [] then ParseCIDR (E_parseIPv6 E) (GI_IpAddr g)
                else ParseIP (E_parseIPv6 E) (C_VirtualIPv4Addr (GI_IntfConfig g)))
      in VrrpEncodeHeader
           \<lparr>VH_Version = VRRP_VERSION2, VH_Type = VRRP_PKT_TYPE_ADVERTISEMENT, VH_VirtualRtrId = ucast (C_VRID (GI_IntfConfig g)),
            VH_Priority = ucast (C_Priority (GI_IntfConfig g)), VH_CountIPv4Addr = 1, VH_Rsvd = 0,
            VH_MaxAdverInt = ucast (C_AdvertisementInterval (GI_IntfConfig g)), VH_CheckSum = 0, VH_IPv4Addr = [ip]\<rparr>)"

definition VrrpCreateSendPkt :: "vrrp_env \<Rightarrow> VrrpGlobalInfo \<Rightarrow> bytes \<Rightarrow> u16 \<Rightarrow> bytes" where
  "VrrpCreateSendPkt E g vrrpEncHdr hdrLen =
     E_SerializeLayers E (ParseMAC (GI_VirtualRouterMACAddress g), ParseMAC VRRP_PROTOCOL_MAC)
       (20 + hdrLen, ParseCIDR (E_parseIPv6 E) (GI_IpAddr g), ParseIP (E_parseIPv6 E) VRRP_GROUP_IP) vrrpEncHdr"

definition VrrpUpdateMasterTimerStateInfo :: "vrrp_env \<Rightarrow> VrrpGlobalInfo \<Rightarrow> VrrpGlobalInfo" where
  "VrrpUpdateMasterTimerStateInfo E g =
     g\<lparr>GI_StateInfo := (GI_StateInfo g)\<lparr>SI_LastAdverTx := E_Now E, SI_AdverTx := SI_AdverTx (GI_StateInfo g) + 1\<rparr>\<rparr>"

text \<open>The second component says whether the waiting goroutine is told.\<close>

definition VrrpSendPkt :: "vrrp_env \<Rightarrow> string \<Rightarrow> u16 \<Rightarrow> VrrpServer \<Rightarrow> (VrrpServer \<times> bool) vrun" where
  "VrrpSendPkt E key priority svr =
     (case V_vrrpGblInfo svr key of
        None \<Rightarrow> Inr (svr, False)
      | Some g \<Rightarrow> with_locks g
          (case GI_pHandle g of
             None \<Rightarrow> Inr (svr, False)
           | Some h \<Rightarrow>
               let g' = (if priority = VRRP_MASTER_DOWN_PRIORITY
                         then g\<lparr>GI_IntfConfig := (GI_IntfConfig g)\<lparr>C_Priority := ucast priority\<rparr>\<rparr> else g)
               in (case VrrpCreateVrrpHeader E g' of
                     Inl _ \<Rightarrow> Inl Panic
                   | Inr (vrrpEncHdr, hdrLen) \<Rightarrow>
                       let svr = log_event (WritePacketData h (VrrpCreateSendPkt E g' vrrpEncHdr hdrLen)) svr
                       in Inr (put_gbl key (VrrpUpdateMasterTimerStateInfo E g) svr, True))))"

text \<open>The request \<open>vrrpTxPktCh <- ...; <-vrrpPktSend\<close>, by the goroutine that makes it.\<close>

definition advertise :: "vrrp_env \<Rightarrow> vrrp_goroutine \<Rightarrow> string \<Rightarrow> u16 \<Rightarrow> VrrpServer \<Rightarrow> VrrpServer vrun" where
  "advertise E who key priority svr =
     (case who of
        MainLoop \<Rightarrow> Inl (Error (WaitPktSend, svr))
      | OtherGoroutine \<Rightarrow>
          bind_r (VrrpSendPkt E key priority svr) (\<lambda>(svr, told). if told then Inr svr else Inl (Error (WaitPktSend, svr))))"

section \<open>State machine\<close>

definition VrrpUpdateSubIntf :: "VrrpGlobalInfo \<Rightarrow> bool \<Rightarrow> VrrpServer \<Rightarrow> VrrpServer" where
  "VrrpUpdateSubIntf g configure svr =
     (let vip = C_VirtualIPv4Addr (GI_IntfConfig g);
          vip = (if CHR ''/'' \<in> set vip then vip else vip @ ''/32'')
      in log_event (UpdateSubIPv4Intf vip (itoa (sint (C_IfIndex (GI_IntfConfig g)))) configure (GI_VirtualRouterMACAddress g)
           [False, False, False, configure, True]) svr)"

definition VrrpUpdateStateInfo :: "string \<Rightarrow> string \<Rightarrow> VrrpStateName \<Rightarrow> VrrpServer \<Rightarrow> VrrpServer vrun" where
  "VrrpUpdateStateInfo key reason currentSt svr =
     (case V_vrrpGblInfo svr key of
        None \<Rightarrow> Inr svr
      | Some g \<Rightarrow> with_locks g
          (Inr (put_gbl key
             (g\<lparr>GI_StateInfo := (GI_StateInfo g)\<lparr>SI_CurrentFsmState := currentSt, SI_PreviousFsmState := GI_StateName g,
                SI_ReasonForTransition := reason\<rparr>\<rparr>) svr)))"

definition VrrpHandleMasterAdverTimer :: "string \<Rightarrow> VrrpServer \<Rightarrow> VrrpServer vrun" where
  "VrrpHandleMasterAdverTimer key svr =
     (case V_vrrpGblInfo svr key of
        None \<Rightarrow> Inr svr
      | Some g \<Rightarrow>
          let (t, svr) = AfterFunc (sint (C_AdvertisementInterval (GI_IntfConfig g))) (Adver key) svr
          in with_locks g (Inr (put_gbl key (g\<lparr>GI_AdverTimer := Some t, GI_StateName := VRRP_MASTER_STATE\<rparr>) svr)))"

definition VrrpTransitionToMaster :: "vrrp_env \<Rightarrow> vrrp_goroutine \<Rightarrow> string \<Rightarrow> string \<Rightarrow> VrrpServer \<Rightarrow> VrrpServer vrun" where
  "VrrpTransitionToMaster E who key reason svr =
     bind_r (advertise E who key VRRP_IGNORE_PRIORITY svr) (\<lambda>svr.
     bind_r (VrrpUpdateStateInfo key reason VRRP_MASTER_STATE svr) (\<lambda>svr.
     case V_vrrpGblInfo svr key of
       None \<Rightarrow> Inr svr
     | Some g \<Rightarrow> VrrpHandleMasterAdverTimer key (VrrpUpdateSubIntf g True svr)))"

definition VrrpHandleMasterDownTimer :: "string \<Rightarrow> VrrpServer \<Rightarrow> VrrpServer vrun" where
  "VrrpHandleMasterDownTimer key svr =
     (case V_vrrpGblInfo svr key of
        None \<Rightarrow> Inr svr
      | Some g \<Rightarrow> with_locks g
          (case GI_MasterDownTimer g of
             Some t \<Rightarrow> Inr (put_gbl key (g\<lparr>GI_StateName := VRRP_BACKUP_STATE\<rparr>) (set_timer t (Some (sint (GI_MasterDownValue g))) svr))
           | None \<Rightarrow>
               let (t, svr) = AfterFunc (sint (GI_MasterDownValue g)) (MasterDown key) svr
               in Inr (put_gbl key (g\<lparr>GI_MasterDownTimer := Some t, GI_StateName := VRRP_BACKUP_STATE\<rparr>) svr)))"

definition VrrpCalculateDownValue :: "i32 \<Rightarrow> VrrpGlobalInfo \<Rightarrow> VrrpGlobalInfo" where
  "VrrpCalculateDownValue AdvertisementInterval g =
     (let g = g\<lparr>GI_MasterAdverInterval := AdvertisementInterval\<rparr>;
          g = (if C_Priority (GI_IntfConfig g) \<noteq> 0 \<and> GI_MasterAdverInterval g \<noteq> 0
               then g\<lparr>GI_SkewTime := word_of_int (sint ((256 - C_Priority (GI_IntfConfig g)) * GI_MasterAdverInterval g) sdiv 256)\<rparr> else g)
      in g\<lparr>GI_MasterDownValue := 3 * GI_MasterAdverInterval g + GI_SkewTime g\<rparr>)"

definition VrrpTransitionToBackup :: "string \<Rightarrow> i32 \<Rightarrow> string \<Rightarrow> VrrpServer \<Rightarrow> VrrpServer vrun" where
  "VrrpTransitionToBackup key AdvertisementInterval reason svr =
     (case V_vrrpGblInfo svr key of
        None \<Rightarrow> Inr svr
      | Some g \<Rightarrow> with_locks g
          (bind_r (VrrpUpdateStateInfo key reason VRRP_BACKUP_STATE
             (put_gbl key (VrrpCalculateDownValue AdvertisementInterval g) (VrrpUpdateSubIntf g False svr)))
           (VrrpHandleMasterDownTimer key)))"

definition VrrpInitState :: "vrrp_env \<Rightarrow> vrrp_goroutine \<Rightarrow> string \<Rightarrow> VrrpServer \<Rightarrow> VrrpServer vrun" where
  "VrrpInitState E who key svr =
     (case V_vrrpGblInfo svr key of
        None \<Rightarrow> Inr svr
      | Some g \<Rightarrow>
          if C_Priority (GI_IntfConfig g) = VRRP_MASTER_PRIORITY then VrrpTransitionToMaster E who key ''Priority is 255'' svr
          else VrrpTransitionToBackup key (C_AdvertisementInterval (GI_IntfConfig g)) ''Priority is not 255'' svr)"

text \<open>An advertisement in the backup state, after the checks of the addresses.\<close>

definition backup_advertisement ::
    "vrrp_env \<Rightarrow> vrrp_goroutine \<Rightarrow> vrrp_ipv4 \<Rightarrow> VrrpPktHeader \<Rightarrow> string \<Rightarrow> VrrpGlobalInfo \<Rightarrow> VrrpServer \<Rightarrow> VrrpServer vrun" where
  "backup_advertisement E who ip h key g svr = with_locks g
     (let g = g\<lparr>GI_StateInfo := (GI_StateInfo g)\<lparr>SI_MasterIp := IP_String (IP_SrcIP ip), SI_AdverRx := SI_AdverRx (GI_StateInfo g) + 1,
                SI_LastAdverRx := E_Now E, SI_CurrentFsmState := GI_StateName g\<rparr>\<rparr>;
          svr = put_gbl key g svr
      in if VH_Priority h = 0
         then VrrpHandleMasterDownTimer key (put_gbl key (g\<lparr>GI_MasterDownValue := GI_SkewTime g\<rparr>) svr)
         else if \<not> C_PreemptMode (GI_IntfConfig g)
         then if VH_Priority h \<ge> ucast (C_Priority (GI_IntfConfig g))
              then VrrpHandleMasterDownTimer key (put_gbl key (VrrpCalculateDownValue (ucast (VH_MaxAdverInt h)) g) svr)
              else Inr svr
         else if VH_Priority h \<ge> ucast (C_Priority (GI_IntfConfig g)) then Inr svr
         else VrrpTransitionToMaster E who key ''Preempt is true and local Priority is higher than remote'' svr)"

definition VrrpBackupState ::
    "vrrp_env \<Rightarrow> vrrp_goroutine \<Rightarrow> vrrp_frame option \<Rightarrow> VrrpPktHeader option \<Rightarrow> string \<Rightarrow> VrrpServer \<Rightarrow> VrrpServer vrun" where
  "VrrpBackupState E who inPkt vrrpHdr key svr =
     (case inPkt of
        None \<Rightarrow> Inl Panic
      | Some p \<Rightarrow>
          (case PK_DstMAC p of
             None \<Rightarrow> Inr svr
           | Some dmac \<Rightarrow>
               (case V_vrrpGblInfo svr key of
                  None \<Rightarrow> Inr svr
                | Some g \<Rightarrow>
                    if mac_string dmac = GI_VirtualRouterMACAddress g then Inr svr
                    else
                      (case PK_IPv4 p of
                         None \<Rightarrow> Inr svr
                       | Some ip \<Rightarrow>
                           if IP_String (IP_DstIP ip) = GI_IpAddr g then Inr svr
                           else
                             (case vrrpHdr of
                                None \<Rightarrow> Inl Panic
                              | Some h \<Rightarrow>
                                  if VH_Type h = VRRP_PKT_TYPE_ADVERTISEMENT then backup_advertisement E who ip h key g svr
                                  else Inr svr)))))"

text \<open>Whether the sender takes over from this master.\<close>

definition remote_wins :: "vrrp_env \<Rightarrow> VrrpPktHeader \<Rightarrow> bytes \<Rightarrow> VrrpGlobalInfo \<Rightarrow> bool" where
  "remote_wins E h src g \<longleftrightarrow>
     uint (VH_Priority h) > sint (C_Priority (GI_IntfConfig g)) \<or>
     uint (VH_Priority h) = sint (C_Priority (GI_IntfConfig g)) \<and> bytes_greater src (ParseIP (E_parseIPv6 E) (GI_IpAddr g))"

definition VrrpMasterState ::
    "vrrp_env \<Rightarrow> vrrp_goroutine \<Rightarrow> vrrp_frame option \<Rightarrow> VrrpPktHeader option \<Rightarrow> string \<Rightarrow> VrrpServer \<Rightarrow> VrrpServer vrun" where
  "VrrpMasterState E who inPkt vrrpHdr key svr =
     (case vrrpHdr of
        None \<Rightarrow> Inl Panic
      | Some h \<Rightarrow>
          if VH_Priority h = 0
          then bind_r (advertise E who key VRRP_IGNORE_PRIORITY svr) (VrrpHandleMasterAdverTimer key)
          else
            (case inPkt of
               None \<Rightarrow> Inl Panic
             | Some p \<Rightarrow>
                 (case PK_IPv4 p of
                    None \<Rightarrow> Inr svr
                  | Some ip \<Rightarrow>
                      (case V_vrrpGblInfo svr key of
                         None \<Rightarrow> Inr svr
                       | Some g \<Rightarrow>
                           if remote_wins E h (IP_SrcIP ip) g
                           then VrrpTransitionToBackup key (ucast (VH_MaxAdverInt h))
                                  ''Remote Priority is higher OR (priority are equal AND remote ip is higher than local ip)''
                                  (put_gbl key g (stop_timer (GI_AdverTimer g) svr))
                           else Inr svr))))"

text \<open>The event with the header of an entry, which nothing sends.\<close>

definition VrrpCreateObject :: "VrrpGlobalInfo \<Rightarrow> VrrpFsm" where
  "VrrpCreateObject g =
     \<lparr>F_key = [],
      F_vrrpHdr = Some \<lparr>VH_Version = VRRP_VERSION2, VH_Type = VRRP_PKT_TYPE_ADVERTISEMENT, VH_VirtualRtrId = ucast (C_VRID (GI_IntfConfig g)),
        VH_Priority = ucast (C_Priority (GI_IntfConfig g)), VH_CountIPv4Addr = 1, VH_Rsvd = 0,
        VH_MaxAdverInt = ucast (C_AdvertisementInterval (GI_IntfConfig g)), VH_CheckSum = 0, VH_IPv4Addr = []\<rparr>,
      F_inPkt = None\<rparr>"

definition VrrpFsmStart :: "vrrp_env \<Rightarrow> vrrp_goroutine \<Rightarrow> VrrpFsm \<Rightarrow> VrrpServer \<Rightarrow> VrrpServer vrun" where
  "VrrpFsmStart E who fsmObj svr =
     (case V_vrrpGblInfo svr (F_key fsmObj) of
        None \<Rightarrow> Inr svr
      | Some g \<Rightarrow> with_locks g
          (case GI_StateName g of
             VRRP_INITIALIZE_STATE \<Rightarrow> VrrpInitState E who (F_key fsmObj) svr
           | VRRP_BACKUP_STATE \<Rightarrow> VrrpBackupState E who (F_inPkt fsmObj) (F_vrrpHdr fsmObj) (F_key fsmObj) svr
           | VRRP_MASTER_STATE \<Rightarrow> VrrpMasterState E who (F_inPkt fsmObj) (F_vrrpHdr fsmObj) (F_key fsmObj) svr
           | _ \<Rightarrow> Inr svr))"

section \<open>Interface events\<close>

fun stop_timers :: "vrrp_env \<Rightarrow> vrrp_goroutine \<Rightarrow> i32 \<Rightarrow> string list \<Rightarrow> VrrpServer \<Rightarrow> VrrpServer vrun" where
  "stop_timers E who IfIndex [] svr = Inr svr"
| "stop_timers E who IfIndex (key # keys) svr =
     (if key_ifindex key \<noteq> IfIndex then stop_timers E who IfIndex keys svr
      else
        (case V_vrrpGblInfo svr key of
           None \<Rightarrow> Inr svr
         | Some g \<Rightarrow> with_locks g
             (let svr = stop_timer (GI_AdverTimer g) (stop_timer (GI_MasterDownTimer g) svr)
              in bind_r (if GI_StateName g = VRRP_MASTER_STATE then advertise E who key VRRP_MASTER_DOWN_PRIORITY svr else Inr svr) (\<lambda>svr.
                 stop_timers E who IfIndex keys (put_gbl key (g\<lparr>GI_StateName := VRRP_INITIALIZE_STATE\<rparr>) svr)))))"

definition VrrpHandleIntfShutdownEvent :: "vrrp_env \<Rightarrow> i32 \<Rightarrow> VrrpServer \<Rightarrow> VrrpServer vrun" where
  "VrrpHandleIntfShutdownEvent E IfIndex svr = stop_timers E OtherGoroutine IfIndex (slice_keys svr) svr"

text \<open>
  Sending an event to the state machine. The main loop waits for ever where the channel is full; another goroutine waits until the main
  loop has taken the pending event.
\<close>

definition send_fsm :: "vrrp_env \<Rightarrow> vrrp_goroutine \<Rightarrow> VrrpFsm \<Rightarrow> VrrpServer \<Rightarrow> VrrpServer vrun" where
  "send_fsm E who f svr =
     (case V_vrrpFsmCh svr of
        [] \<Rightarrow> Inr (svr\<lparr>V_vrrpFsmCh := [f]\<rparr>)
      | pending # _ \<Rightarrow>
          (case who of
             MainLoop \<Rightarrow> Inl (Error (WaitFsmCh, svr))
           | OtherGoroutine \<Rightarrow>
               bind_r (VrrpFsmStart E MainLoop pending (svr\<lparr>V_vrrpFsmCh := []\<rparr>)) (\<lambda>svr. Inr (svr\<lparr>V_vrrpFsmCh := [f]\<rparr>))))"

definition start_event :: "string \<Rightarrow> VrrpFsm" where
  "start_event key = \<lparr>F_key = key, F_vrrpHdr = None, F_inPkt = None\<rparr>"

fun up_events :: "vrrp_env \<Rightarrow> i32 \<Rightarrow> string list \<Rightarrow> VrrpServer \<Rightarrow> VrrpServer vrun" where
  "up_events E IfIndex [] svr = Inr svr"
| "up_events E IfIndex (key # keys) svr =
     (if key_ifindex key \<noteq> IfIndex then up_events E IfIndex keys svr
      else
        (case V_vrrpGblInfo svr key of
           None \<Rightarrow> Inr svr
         | Some g \<Rightarrow> bind_r (send_fsm E OtherGoroutine (start_event key) svr) (up_events E IfIndex keys)))"

definition VrrpHandleIntfUpEvent :: "vrrp_env \<Rightarrow> i32 \<Rightarrow> VrrpServer \<Rightarrow> VrrpServer vrun" where
  "VrrpHandleIntfUpEvent E IfIndex svr = up_events E IfIndex (slice_keys svr) svr"

section \<open>Receiving\<close>

definition VrrpCheckRcvdPkt :: "vrrp_env \<Rightarrow> vrrp_frame \<Rightarrow> string \<Rightarrow> VrrpServer \<Rightarrow> VrrpServer vrun" where
  "VrrpCheckRcvdPkt E packet key svr =
     (let g = get_gbl key svr
      in with_locks g
        (if GI_StateName g = VRRP_INITIALIZE_STATE then Inr svr
         else
           (case PK_IPv4 packet of
              None \<Rightarrow> Inr svr
            | Some ip \<Rightarrow>
                if IP_TTL ip \<noteq> VRRP_TTL then Inr svr
                else
                  (case IP_Payload ip of
                     None \<Rightarrow> Inr svr
                   | Some payload \<Rightarrow>
                       (case VrrpDecodeHeader payload (IP_Spare ip) of
                          Inl _ \<Rightarrow> Inl Panic
                        | Inr hdr \<Rightarrow>
                            (case VrrpCheckHeader (C_VirtualIPv4Addr (GI_IntfConfig g)) (GI_IpAddr g) (C_VRID (GI_IntfConfig g)) hdr payload
                                    (IP_Spare ip) of
                               Inl (Error _) \<Rightarrow> Inr svr
                             | Inl _ \<Rightarrow> Inl Panic
                             | Inr _ \<Rightarrow> send_fsm E MainLoop \<lparr>F_key = key, F_vrrpHdr = Some hdr, F_inPkt = Some packet\<rparr> svr))))))"

text \<open>A filter that cannot be set is logged only.\<close>

definition VrrpInitPacketListener :: "vrrp_env \<Rightarrow> string \<Rightarrow> i32 \<Rightarrow> VrrpServer \<Rightarrow> VrrpServer vrun" where
  "VrrpInitPacketListener E key IfIndex svr =
     (case V_vrrpLinuxIfIndex2AsicdIfIndex svr IfIndex of
        None \<Rightarrow> Inr svr
      | Some name \<Rightarrow>
          (case E_OpenLive E name of
             None \<Rightarrow> Inr svr
           | Some handle \<Rightarrow>
               let g = get_gbl key svr in with_locks g (Inr (put_gbl key (g\<lparr>GI_pHandle := Some handle\<rparr>) svr))))"

definition VrrpUpdateProtocolMacEntry :: "vrrp_env \<Rightarrow> bool \<Rightarrow> VrrpServer \<Rightarrow> VrrpServer" where
  "VrrpUpdateProtocolMacEntry E add svr =
     (let svr = log_event (RsvdProtocolMac add) svr
      in if E_PacketReception E add then svr\<lparr>V_vrrpMacConfigAdded := add\<rparr> else svr)"

section \<open>Configuration\<close>

definition VrrpUpdateIntfIpAddr :: "VrrpServer \<Rightarrow> VrrpGlobalInfo \<Rightarrow> VrrpGlobalInfo" where
  "VrrpUpdateIntfIpAddr svr g =
     (case V_vrrpIfIndexIpAddr svr (C_IfIndex (GI_IntfConfig g)) of None \<Rightarrow> g\<lparr>GI_IpAddr := []\<rparr> | Some a \<Rightarrow> g\<lparr>GI_IpAddr := a\<rparr>)"

definition configured_gbl :: "VrrpIntf \<Rightarrow> VrrpServer \<Rightarrow> VrrpGlobalInfo \<Rightarrow> VrrpGlobalInfo" where
  "configured_gbl config svr g =
     (VrrpUpdateIntfIpAddr svr
        (g\<lparr>GI_IntfConfig := \<lparr>C_IfIndex = C_IfIndex config, C_VRID = C_VRID config, C_Priority = C_Priority config,
             C_VirtualIPv4Addr = C_VirtualIPv4Addr config,
             C_AdvertisementInterval = (if C_AdvertisementInterval config = 0 then 1 else C_AdvertisementInterval config),
             C_PreemptMode = C_PreemptMode config, C_AcceptMode = C_AcceptMode config\<rparr>,
           GI_VirtualRouterMACAddress := virtual_mac (C_VRID config), GI_Locks := True\<rparr>))\<lparr>GI_StateName := VRRP_INITIALIZE_STATE\<rparr>"

definition VrrpCreateGblInfo :: "vrrp_env \<Rightarrow> VrrpIntf \<Rightarrow> VrrpServer \<Rightarrow> VrrpServer vrun" where
  "VrrpCreateGblInfo E config svr =
     (let key = vrrp_key (C_IfIndex config) (C_VRID config);
          svr = put_gbl key (configured_gbl config svr (get_gbl key svr)) svr;
          svr = svr\<lparr>V_vrrpIntfStateSlice := Some (slice_keys svr @ [key])\<rparr>
      in bind_r (VrrpInitPacketListener E key (C_IfIndex config) svr) (\<lambda>svr.
         let svr = (if V_vrrpMacConfigAdded svr then svr else VrrpUpdateProtocolMacEntry E True svr)
         in send_fsm E MainLoop (start_event key) svr))"

text \<open>The removal of the key from a slice that is \<open>nil\<close> leaves it so.\<close>

definition VrrpDeleteGblInfo :: "vrrp_env \<Rightarrow> VrrpIntf \<Rightarrow> VrrpServer \<Rightarrow> VrrpServer" where
  "VrrpDeleteGblInfo E config svr =
     (let key = vrrp_key (C_IfIndex config) (C_VRID config);
          svr = (case V_vrrpGblInfo svr key of None \<Rightarrow> svr | Some g \<Rightarrow> VrrpUpdateSubIntf g False svr);
          svr = svr\<lparr>V_vrrpGblInfo := (V_vrrpGblInfo svr)(key := None),
                    V_vrrpIntfStateSlice := map_option (remove1 key) (V_vrrpIntfStateSlice svr)\<rparr>
      in if slice_keys svr \<noteq> [] then svr else VrrpUpdateProtocolMacEntry E False svr)"

text \<open>The attributes that are set, from the first; the flag is \<open>updDownTimer\<close>.\<close>

fun update_attrs :: "VrrpIntf \<Rightarrow> nat \<Rightarrow> bool list \<Rightarrow> VrrpIntf \<times> bool \<Rightarrow> VrrpIntf \<times> bool" where
  "update_attrs new elem [] (c, upd) = (c, upd)"
| "update_attrs new elem (False # attrset) (c, upd) = update_attrs new (Suc elem) attrset (c, upd)"
| "update_attrs new elem (True # attrset) (c, upd) =
     update_attrs new (Suc elem) attrset
       (if elem = 2 then (c\<lparr>C_Priority := C_Priority new\<rparr>, upd)
        else if elem = 3 then (c\<lparr>C_VirtualIPv4Addr := C_VirtualIPv4Addr new\<rparr>, upd)
        else if elem = 4 then (c\<lparr>C_AdvertisementInterval := C_AdvertisementInterval new\<rparr>, True)
        else if elem = 5 then (c\<lparr>C_PreemptMode := C_PreemptMode new\<rparr>, upd)
        else if elem = 6 then (c\<lparr>C_AcceptMode := C_AcceptMode new\<rparr>, upd)
        else (c, upd))"

definition VrrpUpdateIntf :: "VrrpIntf \<Rightarrow> VrrpIntf \<Rightarrow> bool list \<Rightarrow> VrrpServer \<Rightarrow> VrrpServer vrun" where
  "VrrpUpdateIntf origconfig newconfig attrset svr =
     (let key = vrrp_key (C_IfIndex origconfig) (C_VRID origconfig)
      in case V_vrrpGblInfo svr key of
           None \<Rightarrow> Inr svr
         | Some g \<Rightarrow>
             let (c, updDownTimer) = update_attrs newconfig 0 attrset (GI_IntfConfig g, False);
                 g = g\<lparr>GI_IntfConfig := c\<rparr>
             in if updDownTimer
                then with_locks g
                  (VrrpHandleMasterDownTimer key (put_gbl key (VrrpCalculateDownValue (C_AdvertisementInterval (GI_IntfConfig g)) g) svr))
                else Inr (put_gbl key g svr))"

section \<open>Interface manager\<close>

definition VrrpMapIfIndexToLinuxIfIndex :: "vrrp_env \<Rightarrow> i32 \<Rightarrow> VrrpServer \<Rightarrow> VrrpServer" where
  "VrrpMapIfIndexToLinuxIfIndex E IfIndex svr =
     (if V_vrrpLinuxIfIndex2AsicdIfIndex svr IfIndex \<noteq> None then svr
      else
        (case V_vrrpVlanId2Name svr (E_IntfId E IfIndex) of
           None \<Rightarrow> svr
         | Some vlanName \<Rightarrow>
             (case E_InterfaceByName E vlanName of
                None \<Rightarrow> svr
              | Some linux \<Rightarrow>
                  svr\<lparr>V_vrrpLinuxIfIndex2AsicdIfIndex := (V_vrrpLinuxIfIndex2AsicdIfIndex svr)(IfIndex \<mapsto> linux)\<rparr>)))"

definition VrrpCreateIfIndexEntry :: "i32 \<Rightarrow> string \<Rightarrow> VrrpServer \<Rightarrow> VrrpServer" where
  "VrrpCreateIfIndexEntry IfIndex IpAddr svr = svr\<lparr>V_vrrpIfIndexIpAddr := (V_vrrpIfIndexIpAddr svr)(IfIndex \<mapsto> IpAddr)\<rparr>"

definition VrrpCreateVlanEntry :: "int \<Rightarrow> string \<Rightarrow> VrrpServer \<Rightarrow> VrrpServer" where
  "VrrpCreateVlanEntry vlanId vlanName svr = svr\<lparr>V_vrrpVlanId2Name := (V_vrrpVlanId2Name svr)(vlanId \<mapsto> vlanName)\<rparr>"

definition VrrpUpdateVlanGblInfo :: "int \<Rightarrow> string \<Rightarrow> bool \<Rightarrow> VrrpServer \<Rightarrow> VrrpServer" where
  "VrrpUpdateVlanGblInfo vlanId vlanName create svr =
     (if create then VrrpCreateVlanEntry vlanId vlanName svr
      else svr\<lparr>V_vrrpVlanId2Name := (V_vrrpVlanId2Name svr)(vlanId := None)\<rparr>)"

definition VrrpUpdateIPv4GblInfo :: "vrrp_env \<Rightarrow> i32 \<Rightarrow> string \<Rightarrow> bool \<Rightarrow> VrrpServer \<Rightarrow> VrrpServer" where
  "VrrpUpdateIPv4GblInfo E IfIndex IpAddr create svr =
     (if E_SubInterface E IfIndex then svr
      else if create then VrrpMapIfIndexToLinuxIfIndex E IfIndex (VrrpCreateIfIndexEntry IfIndex IpAddr svr)
      else svr\<lparr>V_vrrpIfIndexIpAddr := (V_vrrpIfIndexIpAddr svr)(IfIndex := None)\<rparr>)"

definition VrrpUpdateL3IntfStateChange :: "vrrp_env \<Rightarrow> i32 \<Rightarrow> bool \<Rightarrow> VrrpServer \<Rightarrow> VrrpServer vrun" where
  "VrrpUpdateL3IntfStateChange E IfIndex up svr =
     (if E_SubInterface E IfIndex then Inr svr
      else if up then VrrpHandleIntfUpEvent E IfIndex svr else VrrpHandleIntfShutdownEvent E IfIndex svr)"

definition VrrpValidateIntfConfig :: "vrrp_env \<Rightarrow> i32 \<Rightarrow> VrrpServer \<Rightarrow> string + unit" where
  "VrrpValidateIntfConfig E IfIndex svr =
     (if V_vrrpVlanId2Name svr (E_IntfId E IfIndex) = None then Inl ''Create Vlan before configuring VRRP''
      else if V_vrrpLinuxIfIndex2AsicdIfIndex svr IfIndex = None then Inl ''Create IPv4 interface before configuring VRRP''
      else Inr ())"

text \<open>The update of the address of an interface, which no notification calls yet.\<close>

fun check_update :: "vrrp_env \<Rightarrow> i32 \<Rightarrow> string \<Rightarrow> string list \<Rightarrow> VrrpServer \<Rightarrow> VrrpServer vrun" where
  "check_update E IfIndex IpAddr [] svr = Inr svr"
| "check_update E IfIndex IpAddr (key # keys) svr =
     (if key_ifindex key \<noteq> IfIndex then check_update E IfIndex IpAddr keys svr
      else
        (case V_vrrpGblInfo svr key of
           None \<Rightarrow> check_update E IfIndex IpAddr keys svr
         | Some g \<Rightarrow> with_locks g
             (let startFsm = (GI_StateName g = VRRP_UNINTIALIZE_STATE);
                  g = g\<lparr>GI_IpAddr := IpAddr, GI_StateName := (if startFsm then VRRP_INITIALIZE_STATE else GI_StateName g)\<rparr>;
                  svr = put_gbl key g svr
              in bind_r (if GI_pHandle g = None then VrrpInitPacketListener E key IfIndex svr else Inr svr) (\<lambda>svr.
                 let svr = (if V_vrrpMacConfigAdded svr then svr else VrrpUpdateProtocolMacEntry E True svr)
                 in bind_r (if startFsm then send_fsm E OtherGoroutine (start_event key) svr else Inr svr) (check_update E IfIndex IpAddr keys)))))"

definition VrrpChecknUpdateGblInfo :: "vrrp_env \<Rightarrow> i32 \<Rightarrow> string \<Rightarrow> VrrpServer \<Rightarrow> VrrpServer vrun" where
  "VrrpChecknUpdateGblInfo E IfIndex IpAddr svr = check_update E IfIndex IpAddr (slice_keys svr) svr"

section \<open>Reading\<close>

record VrrpIntfState =
  IS_IfIndex :: i32
  IS_VRID :: i32
  IS_IntfIpAddr :: string
  IS_Priority :: i32
  IS_VirtualIPv4Addr :: string
  IS_AdvertisementInterval :: i32
  IS_PreemptMode :: bool
  IS_VirtualRouterMACAddress :: string
  IS_SkewTime :: i32
  IS_MasterDownTimer :: i32
  IS_VrrpState :: VrrpStateName

record VrrpVridState =
  VS_IfIndex :: i32
  VS_VRID :: i32
  VS_AdverRx :: i32
  VS_AdverTx :: i32
  VS_CurrentState :: VrrpStateName
  VS_PreviousState :: VrrpStateName
  VS_LastAdverRx :: string
  VS_LastAdverTx :: string
  VS_MasterIp :: string
  VS_TransitionReason :: string

text \<open>The entry is left as it is where the key is not found.\<close>

definition VrrpPopulateIntfState :: "string \<Rightarrow> VrrpServer \<Rightarrow> VrrpIntfState \<Rightarrow> (VrrpIntfState \<times> bool) vrun" where
  "VrrpPopulateIntfState key svr entry =
     (case V_vrrpGblInfo svr key of
        None \<Rightarrow> Inr (entry, False)
      | Some g \<Rightarrow> with_locks g
          (Inr (\<lparr>IS_IfIndex = C_IfIndex (GI_IntfConfig g), IS_VRID = C_VRID (GI_IntfConfig g), IS_IntfIpAddr = GI_IpAddr g,
             IS_Priority = C_Priority (GI_IntfConfig g), IS_VirtualIPv4Addr = C_VirtualIPv4Addr (GI_IntfConfig g),
             IS_AdvertisementInterval = C_AdvertisementInterval (GI_IntfConfig g), IS_PreemptMode = C_PreemptMode (GI_IntfConfig g),
             IS_VirtualRouterMACAddress = GI_VirtualRouterMACAddress g, IS_SkewTime = GI_SkewTime g, IS_MasterDownTimer = GI_MasterDownValue g,
             IS_VrrpState = GI_StateName g\<rparr>, True)))"

definition VrrpPopulateVridState :: "string \<Rightarrow> VrrpServer \<Rightarrow> VrrpVridState \<Rightarrow> (VrrpVridState \<times> bool) vrun" where
  "VrrpPopulateVridState key svr entry =
     (case V_vrrpGblInfo svr key of
        None \<Rightarrow> Inr (entry, False)
      | Some g \<Rightarrow> with_locks g
          (let i = GI_StateInfo g
           in Inr (\<lparr>VS_IfIndex = C_IfIndex (GI_IntfConfig g), VS_VRID = C_VRID (GI_IntfConfig g), VS_AdverRx = ucast (SI_AdverRx i),
             VS_AdverTx = ucast (SI_AdverTx i), VS_CurrentState = SI_CurrentFsmState i, VS_PreviousState = SI_PreviousFsmState i,
             VS_LastAdverRx = SI_LastAdverRx i, VS_LastAdverTx = SI_LastAdverTx i, VS_MasterIp = SI_MasterIp i,
             VS_TransitionReason = SI_ReasonForTransition i\<rparr>, True)))"

fun populate_all :: "(string \<Rightarrow> VrrpServer \<Rightarrow> 'a \<Rightarrow> ('a \<times> bool) vrun) \<Rightarrow> 'a \<Rightarrow> VrrpServer \<Rightarrow> string list \<Rightarrow> 'a list vrun" where
  "populate_all pop z svr [] = Inr []"
| "populate_all pop z svr (key # keys) =
     bind_r (pop key svr z) (\<lambda>(e, _). bind_r (populate_all pop z svr keys) (\<lambda>es. Inr (e # es)))"

text \<open>
  Both bulk calls: the next index, the number of entries, and the entries, followed by zero entries up to the count asked for; \<open>None\<close> is
  \<open>nil\<close>.
\<close>

definition get_bulk ::
    "(string \<Rightarrow> VrrpServer \<Rightarrow> 'a \<Rightarrow> ('a \<times> bool) vrun) \<Rightarrow> 'a \<Rightarrow> int \<Rightarrow> int \<Rightarrow> VrrpServer \<Rightarrow> (int \<times> int \<times> 'a list option) vrun" where
  "get_bulk pop z idx cnt svr =
     (case V_vrrpIntfStateSlice svr of
        None \<Rightarrow> Inr (0, 0, None)
      | Some keys \<Rightarrow>
          if cnt < 0 \<or> idx < 0 \<and> cnt > 0 then Inl Panic
          else bind_r (populate_all pop z svr (take (nat cnt) (drop (nat idx) keys))) (\<lambda>es.
            Inr (0, int (length es), Some (es @ replicate (nat cnt - length es) z))))"

definition zero_intf_state :: VrrpIntfState where
  "zero_intf_state = \<lparr>IS_IfIndex = 0, IS_VRID = 0, IS_IntfIpAddr = [], IS_Priority = 0, IS_VirtualIPv4Addr = [], IS_AdvertisementInterval = 0,
     IS_PreemptMode = False, IS_VirtualRouterMACAddress = [], IS_SkewTime = 0, IS_MasterDownTimer = 0, IS_VrrpState = NoStateName\<rparr>"

definition zero_vrid_state :: VrrpVridState where
  "zero_vrid_state = \<lparr>VS_IfIndex = 0, VS_VRID = 0, VS_AdverRx = 0, VS_AdverTx = 0, VS_CurrentState = NoStateName, VS_PreviousState = NoStateName,
     VS_LastAdverRx = [], VS_LastAdverTx = [], VS_MasterIp = [], VS_TransitionReason = []\<rparr>"

definition VrrpGetBulkVrrpIntfStates :: "int \<Rightarrow> int \<Rightarrow> VrrpServer \<Rightarrow> (int \<times> int \<times> VrrpIntfState list option) vrun" where
  "VrrpGetBulkVrrpIntfStates = get_bulk VrrpPopulateIntfState zero_intf_state"

definition VrrpGetBulkVrrpVridStates :: "int \<Rightarrow> int \<Rightarrow> VrrpServer \<Rightarrow> (int \<times> int \<times> VrrpVridState list option) vrun" where
  "VrrpGetBulkVrrpVridStates = get_bulk VrrpPopulateVridState zero_vrid_state"

definition VrrpCloseAllPcapHandlers :: "VrrpServer \<Rightarrow> VrrpServer" where
  "VrrpCloseAllPcapHandlers svr =
     fold (\<lambda>key svr. case GI_pHandle (get_gbl key svr) of None \<Rightarrow> svr | Some h \<Rightarrow> log_event (ClosePcap h) svr) (slice_keys svr) svr"

section \<open>Start and main loop\<close>

text \<open>The stored configurations are created before the main loop runs.\<close>

fun VrrpReadDB :: "vrrp_env \<Rightarrow> VrrpIntf list \<Rightarrow> VrrpServer \<Rightarrow> VrrpServer vrun" where
  "VrrpReadDB E [] svr = Inr svr"
| "VrrpReadDB E (obj # objList) svr = bind_r (VrrpCreateGblInfo E obj svr) (VrrpReadDB E objList)"

datatype vrrp_input =
  CreateConf VrrpIntf
| DeleteConf VrrpIntf
| UpdateConf VrrpIntf VrrpIntf "bool list"
| FsmReady
| RcvdPkt vrrp_frame string
| TimerFires nat
| VlanNotify int string bool
| IPv4Notify i32 string bool
| L3StateNotify i32 bool

definition timer_callback :: "vrrp_env \<Rightarrow> vrrp_callback \<Rightarrow> VrrpServer \<Rightarrow> VrrpServer vrun" where
  "timer_callback E cb svr =
     (case cb of
        MasterDown key \<Rightarrow> VrrpTransitionToMaster E OtherGoroutine key ''Master Down Timer expired'' svr
      | Adver key \<Rightarrow>
          bind_r (advertise E OtherGoroutine key VRRP_IGNORE_PRIORITY svr) (\<lambda>svr.
          case V_vrrpGblInfo svr key of
            None \<Rightarrow> Inr svr
          | Some g \<Rightarrow>
              (case GI_AdverTimer g of
                 None \<Rightarrow> Inl Panic
               | Some t \<Rightarrow> Inr (put_gbl key g (set_timer t (Some (sint (C_AdvertisementInterval (GI_IntfConfig g)))) svr)))))"

text \<open>One case of the select of the main loop, one timer that expires, or one notification.\<close>

definition vrrp_step :: "vrrp_env \<Rightarrow> vrrp_input \<Rightarrow> VrrpServer \<Rightarrow> VrrpServer vrun" where
  "vrrp_step E i svr =
     (case i of
        CreateConf c \<Rightarrow> VrrpCreateGblInfo E c svr
      | DeleteConf c \<Rightarrow> Inr (VrrpDeleteGblInfo E c svr)
      | UpdateConf old new attrset \<Rightarrow> VrrpUpdateIntf old new attrset svr
      | FsmReady \<Rightarrow> (case V_vrrpFsmCh svr of [] \<Rightarrow> Inr svr | f # fs \<Rightarrow> VrrpFsmStart E MainLoop f (svr\<lparr>V_vrrpFsmCh := fs\<rparr>))
      | RcvdPkt p key \<Rightarrow> VrrpCheckRcvdPkt E p key svr
      | TimerFires t \<Rightarrow>
          if t < length (V_timers svr) \<and> VT_after (V_timers svr ! t) \<noteq> None
          then timer_callback E (VT_callback (V_timers svr ! t)) (set_timer t None svr) else Inr svr
      | VlanNotify v n create \<Rightarrow> Inr (VrrpUpdateVlanGblInfo v n create svr)
      | IPv4Notify ifi a create \<Rightarrow> Inr (VrrpUpdateIPv4GblInfo E ifi a create svr)
      | L3StateNotify ifi up \<Rightarrow> VrrpUpdateL3IntfStateChange E ifi up svr)"

fun vrrp_run :: "vrrp_env \<Rightarrow> vrrp_input list \<Rightarrow> VrrpServer \<Rightarrow> VrrpServer vrun" where
  "vrrp_run E [] svr = Inr svr"
| "vrrp_run E (i # is) svr = bind_r (vrrp_step E i svr) (vrrp_run E is)"

section \<open>Configuration calls\<close>

text \<open>The calls check their arguments and hand the configuration to the main loop.\<close>

definition VrrpCheckConfig :: "vrrp_env \<Rightarrow> VrrpIntf \<Rightarrow> VrrpServer \<Rightarrow> string + unit" where
  "VrrpCheckConfig E config svr = (if C_VRID config = 0 then Inl ''VRID is invalid'' else VrrpValidateIntfConfig E (C_IfIndex config) svr)"

definition CreateVrrpIntf :: "vrrp_env \<Rightarrow> VrrpIntf \<Rightarrow> VrrpServer \<Rightarrow> string + vrrp_input" where
  "CreateVrrpIntf E config svr = (case VrrpCheckConfig E config svr of Inl e \<Rightarrow> Inl e | Inr _ \<Rightarrow> Inr (CreateConf config))"

definition UpdateVrrpIntf :: "vrrp_env \<Rightarrow> VrrpIntf \<Rightarrow> VrrpIntf \<Rightarrow> bool list \<Rightarrow> VrrpServer \<Rightarrow> string + vrrp_input" where
  "UpdateVrrpIntf E origconfig newconfig attrset svr =
     (if C_IfIndex origconfig \<noteq> C_IfIndex newconfig \<or> C_VRID origconfig \<noteq> C_VRID newconfig
      then Inl ''Original IfIndex & new IfIndex have different ifindex or VRID, hence cannot do an update''
      else
        (case VrrpCheckConfig E origconfig svr of
           Inl e \<Rightarrow> Inl e
         | Inr _ \<Rightarrow>
             (case VrrpCheckConfig E newconfig svr of Inl e \<Rightarrow> Inl e | Inr _ \<Rightarrow> Inr (UpdateConf origconfig newconfig attrset))))"

definition DeleteVrrpIntf :: "VrrpIntf \<Rightarrow> vrrp_input" where
  "DeleteVrrpIntf config = DeleteConf config"

definition GetVrrpIntfState :: "i32 \<Rightarrow> i32 \<Rightarrow> VrrpServer \<Rightarrow> (string + VrrpIntfState) vrun" where
  "GetVrrpIntfState ifIndex vrId svr =
     bind_r (VrrpPopulateIntfState (vrrp_key ifIndex vrId) svr zero_intf_state) (\<lambda>(response, rv).
     Inr (if rv then Inr response
          else Inl (''Cannot find entry in db'' @ itoa (sint ifIndex) @ '' and Virtual Router Id:'' @ itoa (sint vrId))))"

definition GetVrrpVridState :: "i32 \<Rightarrow> i32 \<Rightarrow> VrrpServer \<Rightarrow> (string + VrrpVridState) vrun" where
  "GetVrrpVridState ifIndex vrId svr =
     bind_r (VrrpPopulateVridState (vrrp_key ifIndex vrId) svr zero_vrid_state) (\<lambda>(response, rv).
     Inr (if rv then Inr response
          else Inl (''Cannot find entry in db'' @ itoa (sint ifIndex) @ '' and Virtual Router Id:'' @ itoa (sint vrId))))"

record 'a vrrp_bulk =
  VB_List :: "'a list"
  VB_StartIdx :: int
  VB_EndIdx :: int
  VB_Count :: int
  VB_More :: bool

definition bulk_answer :: "int \<Rightarrow> int \<times> int \<times> 'a list option \<Rightarrow> string + 'a vrrp_bulk" where
  "bulk_answer fromIndex r =
     (case r of
        (nextIdx, currCount, None) \<Rightarrow> Inl ''Interface Slice is not initialized''
      | (nextIdx, currCount, Some entries) \<Rightarrow>
          Inr \<lparr>VB_List = entries, VB_StartIdx = fromIndex, VB_EndIdx = nextIdx, VB_Count = currCount, VB_More = (nextIdx \<noteq> 0)\<rparr>)"

definition GetBulkVrrpIntfState :: "int \<Rightarrow> int \<Rightarrow> VrrpServer \<Rightarrow> (string + VrrpIntfState vrrp_bulk) vrun" where
  "GetBulkVrrpIntfState fromIndex count svr =
     bind_r (VrrpGetBulkVrrpIntfStates fromIndex count svr) (\<lambda>r. Inr (bulk_answer fromIndex r))"

definition GetBulkVrrpVridState :: "int \<Rightarrow> int \<Rightarrow> VrrpServer \<Rightarrow> (string + VrrpVridState vrrp_bulk) vrun" where
  "GetBulkVrrpVridState fromIndex count svr =
     bind_r (VrrpGetBulkVrrpVridStates fromIndex count svr) (\<lambda>r. Inr (bulk_answer fromIndex r))"

end
