(* ===== verification/VrrpInv.thy ===== *)
theory VrrpInv
  imports VrrpDaemon
begin

text \<open>
  The invariant of the VRRP daemon's table of virtual routers and its timers, kept by every handler, and which handlers make an entry the
  master.
\<close>

section \<open>Timers and entries\<close>

definition callbacks :: "VrrpServer \<Rightarrow> vrrp_callback list" where
  "callbacks svr = map VT_callback (V_timers svr)"

lemma callbacks_set_timer [simp]: "callbacks (set_timer t d svr) = callbacks svr"
proof (cases "t < length (V_timers svr)")
  case True
  then show ?thesis by (simp add: callbacks_def set_timer_def map_update) (metis list_update_id nth_map)
qed (simp add: callbacks_def set_timer_def list_update_beyond)

lemma set_timer_fields [simp]:
  "V_vrrpGblInfo (set_timer t d svr) = V_vrrpGblInfo svr"
  "V_vrrpIntfStateSlice (set_timer t d svr) = V_vrrpIntfStateSlice svr"
  "V_vrrpFsmCh (set_timer t d svr) = V_vrrpFsmCh svr"
  by (simp_all add: set_timer_def)

lemma stop_timer_fields [simp]:
  "V_vrrpGblInfo (stop_timer t svr) = V_vrrpGblInfo svr"
  "V_vrrpIntfStateSlice (stop_timer t svr) = V_vrrpIntfStateSlice svr"
  "V_vrrpFsmCh (stop_timer t svr) = V_vrrpFsmCh svr"
  "callbacks (stop_timer t svr) = callbacks svr"
  by (simp_all add: stop_timer_def split: option.split)

lemma put_gbl_fields [simp]:
  "V_vrrpGblInfo (put_gbl key g svr) = (V_vrrpGblInfo svr)(key \<mapsto> g)"
  "V_vrrpIntfStateSlice (put_gbl key g svr) = V_vrrpIntfStateSlice svr"
  "V_vrrpFsmCh (put_gbl key g svr) = V_vrrpFsmCh svr"
  "V_timers (put_gbl key g svr) = V_timers svr"
  "V_log (put_gbl key g svr) = V_log svr"
  "callbacks (put_gbl key g svr) = callbacks svr"
  by (simp_all add: put_gbl_def callbacks_def)

lemma log_event_fields [simp]:
  "V_vrrpGblInfo (log_event e svr) = V_vrrpGblInfo svr"
  "V_vrrpIntfStateSlice (log_event e svr) = V_vrrpIntfStateSlice svr"
  "V_vrrpFsmCh (log_event e svr) = V_vrrpFsmCh svr"
  "V_timers (log_event e svr) = V_timers svr"
  "V_log (log_event e svr) = V_log svr @ [e]"
  "callbacks (log_event e svr) = callbacks svr"
  by (simp_all add: log_event_def callbacks_def)

lemma put_gbl_twice [simp]: "put_gbl key g (put_gbl key g' svr) = put_gbl key g svr"
  by (simp add: put_gbl_def)

lemma slice_keys_fields [simp]:
  "slice_keys (set_timer t d svr) = slice_keys svr" "slice_keys (stop_timer u svr) = slice_keys svr"
  "slice_keys (put_gbl key g svr) = slice_keys svr" "slice_keys (log_event e svr) = slice_keys svr"
  by (simp_all add: slice_keys_def)

lemma with_locks_Inr [simp]: "with_locks g r = Inr x \<longleftrightarrow> GI_Locks g \<and> r = Inr x"
  by (simp add: with_locks_def)

lemma VrrpUpdateSubIntf_fields [simp]:
  "V_vrrpGblInfo (VrrpUpdateSubIntf g b svr) = V_vrrpGblInfo svr"
  "V_vrrpIntfStateSlice (VrrpUpdateSubIntf g b svr) = V_vrrpIntfStateSlice svr"
  "V_vrrpFsmCh (VrrpUpdateSubIntf g b svr) = V_vrrpFsmCh svr"
  "V_timers (VrrpUpdateSubIntf g b svr) = V_timers svr"
  "callbacks (VrrpUpdateSubIntf g b svr) = callbacks svr"
  "slice_keys (VrrpUpdateSubIntf g b svr) = slice_keys svr"
  by (simp_all add: VrrpUpdateSubIntf_def Let_def)

section \<open>Invariant\<close>

definition timer_ok :: "vrrp_callback list \<Rightarrow> nat option \<Rightarrow> vrrp_callback \<Rightarrow> bool" where
  "timer_ok cbs t cb \<longleftrightarrow> (case t of None \<Rightarrow> True | Some t \<Rightarrow> t < length cbs \<and> cbs ! t = cb)"

text \<open>
  An entry: its locks are there, its key and its MAC address are those of its configuration, its state is one of the three of the
  protocol, a backup has the timer that makes it the master and a master the one of its advertisements, and each timer runs its callback for
  this entry.
\<close>

definition gbl_ok :: "vrrp_callback list \<Rightarrow> string \<Rightarrow> VrrpGlobalInfo \<Rightarrow> bool" where
  "gbl_ok cbs key g \<longleftrightarrow>
     GI_Locks g \<and> key = vrrp_key (C_IfIndex (GI_IntfConfig g)) (C_VRID (GI_IntfConfig g)) \<and>
     GI_VirtualRouterMACAddress g = virtual_mac (C_VRID (GI_IntfConfig g)) \<and>
     GI_StateName g \<in> {VRRP_INITIALIZE_STATE, VRRP_BACKUP_STATE, VRRP_MASTER_STATE} \<and>
     (GI_StateName g = VRRP_BACKUP_STATE \<longrightarrow> GI_MasterDownTimer g \<noteq> None) \<and>
     (GI_StateName g = VRRP_MASTER_STATE \<longrightarrow> GI_AdverTimer g \<noteq> None) \<and>
     timer_ok cbs (GI_MasterDownTimer g) (MasterDown key) \<and> timer_ok cbs (GI_AdverTimer g) (Adver key)"

definition vrrp_inv :: "VrrpServer \<Rightarrow> bool" where
  "vrrp_inv svr \<longleftrightarrow>
     (\<forall>key g. V_vrrpGblInfo svr key = Some g \<longrightarrow> gbl_ok (callbacks svr) key g \<and> key \<in> set (slice_keys svr)) \<and>
     length (V_vrrpFsmCh svr) \<le> 1"

lemma timer_ok_append: "timer_ok cbs t cb \<Longrightarrow> timer_ok (cbs @ cbs') t cb"
  by (auto simp: timer_ok_def nth_append split: option.splits)

lemma timer_ok_new: "timer_ok (cbs @ [cb]) (Some (length cbs)) cb"
  by (simp add: timer_ok_def)

lemma gbl_ok_append: "gbl_ok cbs key g \<Longrightarrow> gbl_ok (cbs @ cbs') key g"
  by (auto simp: gbl_ok_def timer_ok_append)

lemma vrrp_invD: "vrrp_inv svr \<Longrightarrow> V_vrrpGblInfo svr key = Some g \<Longrightarrow> gbl_ok (callbacks svr) key g \<and> key \<in> set (slice_keys svr)"
  by (simp add: vrrp_inv_def)

lemma vrrp_inv_cong:
  assumes "vrrp_inv svr" "V_vrrpGblInfo svr' = V_vrrpGblInfo svr" "callbacks svr' = callbacks svr" "slice_keys svr' = slice_keys svr"
    "length (V_vrrpFsmCh svr') \<le> 1"
  shows "vrrp_inv svr'"
  using assms by (simp add: vrrp_inv_def)

lemma vrrp_inv_put:
  "vrrp_inv svr \<Longrightarrow> gbl_ok (callbacks svr) key g \<Longrightarrow> key \<in> set (slice_keys svr) \<Longrightarrow> vrrp_inv (put_gbl key g svr)"
  by (simp add: vrrp_inv_def)

lemma vrrp_inv_simps [simp]:
  "vrrp_inv (set_timer t d svr) \<longleftrightarrow> vrrp_inv svr" "vrrp_inv (stop_timer u svr) \<longleftrightarrow> vrrp_inv svr"
  "vrrp_inv (log_event e svr) \<longleftrightarrow> vrrp_inv svr" "vrrp_inv (VrrpUpdateSubIntf g b svr) \<longleftrightarrow> vrrp_inv svr"
  by (simp_all add: vrrp_inv_def)

lemma AfterFunc_fields:
  assumes "AfterFunc d cb svr = (t, svr')"
  shows "t = length (callbacks svr)" "callbacks svr' = callbacks svr @ [cb]" "V_vrrpGblInfo svr' = V_vrrpGblInfo svr"
    "slice_keys svr' = slice_keys svr" "V_vrrpFsmCh svr' = V_vrrpFsmCh svr"
  using assms by (auto simp: AfterFunc_def callbacks_def slice_keys_def)

lemma AfterFunc_inv: "AfterFunc d cb svr = (t, svr') \<Longrightarrow> vrrp_inv svr \<Longrightarrow> vrrp_inv svr'"
  by (auto simp: vrrp_inv_def AfterFunc_fields gbl_ok_append)

lemma CalculateDown_fields [simp]:
  "GI_Locks (VrrpCalculateDownValue i g) = GI_Locks g" "GI_StateName (VrrpCalculateDownValue i g) = GI_StateName g"
  "GI_MasterDownTimer (VrrpCalculateDownValue i g) = GI_MasterDownTimer g" "GI_AdverTimer (VrrpCalculateDownValue i g) = GI_AdverTimer g"
  "GI_VirtualRouterMACAddress (VrrpCalculateDownValue i g) = GI_VirtualRouterMACAddress g"
  "GI_IntfConfig (VrrpCalculateDownValue i g) = GI_IntfConfig g" "GI_pHandle (VrrpCalculateDownValue i g) = GI_pHandle g"
  by (simp_all add: VrrpCalculateDownValue_def Let_def)

section \<open>What every handler keeps\<close>

text \<open>
  A handler that returns keeps the invariant, and a key is the master's after it only where it was before, apart from the keys it is allowed
  to promote. The slice of keys stays as it is in the handlers of one entry.
\<close>

definition promotes :: "string set \<Rightarrow> VrrpServer \<Rightarrow> VrrpServer \<Rightarrow> bool" where
  "promotes K svr svr' \<longleftrightarrow>
     (\<forall>key g'. V_vrrpGblInfo svr' key = Some g' \<longrightarrow> GI_StateName g' = VRRP_MASTER_STATE \<longrightarrow>
        key \<in> K \<or> (\<exists>g. V_vrrpGblInfo svr key = Some g \<and> GI_StateName g = VRRP_MASTER_STATE))"

lemma promotes_refl [intro]: "promotes K svr svr"
  by (simp add: promotes_def)

lemma promotes_trans [trans]: "promotes K svr svr' \<Longrightarrow> promotes K svr' svr'' \<Longrightarrow> promotes K svr svr''"
  unfolding promotes_def by blast

lemma promotes_mono: "promotes K svr svr' \<Longrightarrow> K \<subseteq> L \<Longrightarrow> promotes L svr svr'"
  unfolding promotes_def by blast

lemma promotes_same: "V_vrrpGblInfo svr' = V_vrrpGblInfo svr \<Longrightarrow> promotes K svr svr'"
  by (simp add: promotes_def)

lemma promotes_put:
  "GI_StateName g' \<noteq> VRRP_MASTER_STATE \<or> key \<in> K \<or> (\<exists>g. V_vrrpGblInfo svr key = Some g \<and> GI_StateName g = VRRP_MASTER_STATE) \<Longrightarrow>
   V_vrrpGblInfo svr' = (V_vrrpGblInfo svr)(key \<mapsto> g') \<Longrightarrow> promotes K svr svr'"
  by (auto simp: promotes_def split: if_splits)

definition vhandled :: "string set \<Rightarrow> VrrpServer \<Rightarrow> VrrpServer vrun \<Rightarrow> bool" where
  "vhandled K svr r \<longleftrightarrow> (\<forall>svr'. r = Inr svr' \<longrightarrow> (vrrp_inv svr \<longrightarrow> vrrp_inv svr') \<and> promotes K svr svr')"

named_theorems handled_rules \<open>handlers that keep the invariant\<close>

lemma handled_Inr [simp]: "vhandled K svr (Inr svr') \<longleftrightarrow> (vrrp_inv svr \<longrightarrow> vrrp_inv svr') \<and> promotes K svr svr'"
  by (simp add: vhandled_def)

lemma handled_Inl [simp]: "vhandled K svr (Inl e)"
  by (simp add: vhandled_def)

lemma handled_same: "vhandled K svr (Inr svr)"
  by (simp add: promotes_refl)

lemma handled_bind:
  "vhandled K svr r \<Longrightarrow> (\<And>svr'. r = Inr svr' \<Longrightarrow> vhandled K svr' (f svr')) \<Longrightarrow> vhandled K svr (bind_r r f)"
  by (cases r) (auto simp: vhandled_def intro: promotes_trans)

lemma handled_after:
  "vhandled K svr' r \<Longrightarrow> vrrp_inv svr \<longrightarrow> vrrp_inv svr' \<Longrightarrow> promotes K svr svr' \<Longrightarrow> vhandled K svr r"
  by (auto simp: vhandled_def intro: promotes_trans)

lemma handled_locks: "vhandled K svr r \<Longrightarrow> vhandled K svr (with_locks g r)"
  by (simp add: vhandled_def)

lemma handled_mono: "vhandled K svr r \<Longrightarrow> K \<subseteq> L \<Longrightarrow> vhandled L svr r"
  unfolding vhandled_def using promotes_mono by blast

lemma inv_put_entry:
  assumes "V_vrrpGblInfo svr key = Some g" "gbl_ok (callbacks svr) key g \<Longrightarrow> gbl_ok (callbacks svr) key g'"
  shows "vrrp_inv svr \<longrightarrow> vrrp_inv (put_gbl key g' svr)"
  using assms vrrp_invD [OF _ assms(1)] vrrp_inv_put by blast

text \<open>Replacing an entry by one that differs in what does not matter here.\<close>

definition same_kind :: "VrrpGlobalInfo \<Rightarrow> VrrpGlobalInfo \<Rightarrow> bool" where
  "same_kind g g' \<longleftrightarrow>
     GI_Locks g' = GI_Locks g \<and> GI_StateName g' = GI_StateName g \<and> GI_MasterDownTimer g' = GI_MasterDownTimer g \<and>
     GI_AdverTimer g' = GI_AdverTimer g \<and> GI_VirtualRouterMACAddress g' = GI_VirtualRouterMACAddress g \<and>
     C_IfIndex (GI_IntfConfig g') = C_IfIndex (GI_IntfConfig g) \<and> C_VRID (GI_IntfConfig g') = C_VRID (GI_IntfConfig g)"

lemma put_same_kind:
  assumes "V_vrrpGblInfo svr key = Some g" "same_kind g g'"
  shows "vrrp_inv svr \<longrightarrow> vrrp_inv (put_gbl key g' svr)" "promotes K svr (put_gbl key g' svr)"
proof -
  have "gbl_ok cbs key g'" if "gbl_ok cbs key g" for cbs using assms(2) that unfolding gbl_ok_def same_kind_def by auto
  then show "vrrp_inv svr \<longrightarrow> vrrp_inv (put_gbl key g' svr)" by (intro inv_put_entry [OF assms(1)])
  show "promotes K svr (put_gbl key g' svr)"
    by (rule promotes_put [of g' key]) (use assms in \<open>auto simp: same_kind_def\<close>)
qed

lemma handled_via_put:
  "vhandled K (put_gbl key g' svr) r \<Longrightarrow> V_vrrpGblInfo svr key = Some g \<Longrightarrow> same_kind g g' \<Longrightarrow> vhandled K svr r"
  by (erule handled_after) (erule (1) put_same_kind)+

lemma handled_put_same: "V_vrrpGblInfo svr key = Some g \<Longrightarrow> same_kind g g' \<Longrightarrow> vhandled K svr (Inr (put_gbl key g' svr))"
  by (simp add: put_same_kind)

lemma same_kind_down [simp]: "same_kind g (VrrpCalculateDownValue i g') = same_kind g g'"
  by (simp add: same_kind_def)

section \<open>The state machine\<close>

text \<open>What sending leaves alone.\<close>

lemma VrrpSendPkt_Inr:
  assumes "VrrpSendPkt E key prio svr = Inr (svr', told)"
  shows "svr' = svr \<and> \<not> told \<or>
    (\<exists>g h frame. V_vrrpGblInfo svr key = Some g \<and> GI_pHandle g = Some h \<and> told \<and>
       svr' = put_gbl key (VrrpUpdateMasterTimerStateInfo E g) (log_event (WritePacketData h frame) svr))"
  using assms by (auto simp: VrrpSendPkt_def Let_def with_locks_def split: option.splits if_splits sum.splits)

lemma advertise_Inr:
  assumes "advertise E who key prio svr = Inr svr'"
  obtains g h frame where "who = OtherGoroutine" "V_vrrpGblInfo svr key = Some g" "GI_pHandle g = Some h"
    "svr' = put_gbl key (VrrpUpdateMasterTimerStateInfo E g) (log_event (WritePacketData h frame) svr)"
  using assms VrrpSendPkt_Inr [of E key prio svr]
  by (fastforce simp: advertise_def bind_r_eq_Inr split: vrrp_goroutine.splits prod.splits if_splits)

lemma advertise_callbacks: "advertise E who key prio svr = Inr svr' \<Longrightarrow> callbacks svr' = callbacks svr \<and> slice_keys svr' = slice_keys svr"
  by (erule advertise_Inr) simp

lemma handled_advertise [handled_rules]: "vhandled K svr (advertise E who key prio svr)"
proof (cases "advertise E who key prio svr")
  case (Inr svr')
  then obtain g h frame where g: "V_vrrpGblInfo svr key = Some g"
      and s: "svr' = put_gbl key (VrrpUpdateMasterTimerStateInfo E g) (log_event (WritePacketData h frame) svr)"
    by (rule advertise_Inr)
  have "vhandled K (log_event (WritePacketData h frame) svr) (Inr svr')" unfolding s
    by (rule handled_put_same [of _ _ g]) (use g in \<open>simp_all add: VrrpUpdateMasterTimerStateInfo_def same_kind_def\<close>)
  then show ?thesis unfolding Inr by (rule handled_after) (simp_all add: promotes_same)
qed simp

lemma handled_VrrpUpdateStateInfo [handled_rules]: "vhandled K svr (VrrpUpdateStateInfo key reason st svr)"
  unfolding VrrpUpdateStateInfo_def
  by (auto split: option.split intro!: handled_locks handled_put_same promotes_refl simp: same_kind_def simp del: handled_Inr)
    (simp add: promotes_refl)

lemma handled_VrrpHandleMasterDownTimer [handled_rules]: "vhandled K svr (VrrpHandleMasterDownTimer key svr)"
proof (cases "V_vrrpGblInfo svr key")
  case None
  then show ?thesis by (simp add: VrrpHandleMasterDownTimer_def promotes_refl)
next
  case (Some g)
  show ?thesis
  proof (cases "GI_MasterDownTimer g")
    case None
    obtain t svr1 where a: "AfterFunc (sint (GI_MasterDownValue g)) (MasterDown key) svr = (t, svr1)" by fastforce
    note f = AfterFunc_fields [OF a]
    let ?g = "g\<lparr>GI_MasterDownTimer := Some t, GI_StateName := VRRP_BACKUP_STATE\<rparr>"
    have "vrrp_inv (put_gbl key ?g svr1)" if i: "vrrp_inv svr"
    proof (rule vrrp_inv_put)
      show "gbl_ok (callbacks svr1) key ?g" using vrrp_invD [OF i Some] by (auto simp: gbl_ok_def f timer_ok_append timer_ok_new)
    qed (use AfterFunc_inv [OF a i] vrrp_invD [OF i Some] f in simp_all)
    moreover have "promotes K svr (put_gbl key ?g svr1)" by (rule promotes_put [of ?g key]) (simp_all add: f)
    ultimately have "vhandled K svr (Inr (put_gbl key ?g svr1))" by simp
    then show ?thesis using Some None a by (simp add: VrrpHandleMasterDownTimer_def handled_locks)
  next
    case t: (Some t)
    let ?g = "g\<lparr>GI_StateName := VRRP_BACKUP_STATE\<rparr>"
    have "vrrp_inv (put_gbl key ?g (set_timer t d svr))" if i: "vrrp_inv svr" for d
      by (rule vrrp_inv_put) (use vrrp_invD [OF i Some] i t in \<open>auto simp: gbl_ok_def\<close>)
    moreover have "promotes K svr (put_gbl key ?g (set_timer t d svr))" for d by (rule promotes_put [of ?g key]) simp_all
    ultimately have "vhandled K svr (Inr (put_gbl key ?g (set_timer t (Some (sint (GI_MasterDownValue g))) svr)))" by simp
    then show ?thesis using Some t by (simp add: VrrpHandleMasterDownTimer_def handled_locks)
  qed
qed

lemma handled_VrrpHandleMasterAdverTimer: "vhandled (insert key K) svr (VrrpHandleMasterAdverTimer key svr)"
proof (cases "V_vrrpGblInfo svr key")
  case None
  then show ?thesis by (simp add: VrrpHandleMasterAdverTimer_def promotes_refl)
next
  case (Some g)
  obtain t svr1 where a: "AfterFunc (sint (C_AdvertisementInterval (GI_IntfConfig g))) (Adver key) svr = (t, svr1)" by fastforce
  note f = AfterFunc_fields [OF a]
  let ?g = "g\<lparr>GI_AdverTimer := Some t, GI_StateName := VRRP_MASTER_STATE\<rparr>"
  have "vrrp_inv (put_gbl key ?g svr1)" if i: "vrrp_inv svr"
  proof (rule vrrp_inv_put)
    show "gbl_ok (callbacks svr1) key ?g" using vrrp_invD [OF i Some] by (auto simp: gbl_ok_def f timer_ok_append timer_ok_new)
  qed (use AfterFunc_inv [OF a i] vrrp_invD [OF i Some] f in simp_all)
  moreover have "promotes (insert key K) svr (put_gbl key ?g svr1)" by (rule promotes_put [of ?g key]) (simp_all add: f)
  ultimately have "vhandled (insert key K) svr (Inr (put_gbl key ?g svr1))" by simp
  then show ?thesis using Some a by (simp add: VrrpHandleMasterAdverTimer_def handled_locks)
qed

lemma handled_VrrpTransitionToMaster: "vhandled (insert key K) svr (VrrpTransitionToMaster E who key reason svr)"
proof -
  have "vhandled (insert key K) svr (case V_vrrpGblInfo svr key of None \<Rightarrow> Inr svr
      | Some g \<Rightarrow> VrrpHandleMasterAdverTimer key (VrrpUpdateSubIntf g True svr))" for svr
  proof (cases "V_vrrpGblInfo svr key")
    case (Some g)
    have "vhandled (insert key K) svr (VrrpHandleMasterAdverTimer key (VrrpUpdateSubIntf g True svr))"
      by (rule handled_after [OF handled_VrrpHandleMasterAdverTimer]) (simp_all add: promotes_same)
    then show ?thesis using Some by simp
  qed (simp add: promotes_refl)
  then show ?thesis unfolding VrrpTransitionToMaster_def by (intro handled_bind handled_rules)
qed

text \<open>The main loop cannot get there.\<close>

lemma master_blocks_main: "VrrpTransitionToMaster E MainLoop key reason svr = Inl (Error (WaitPktSend, svr))"
  by (simp add: VrrpTransitionToMaster_def advertise_def)

lemma handled_VrrpTransitionToBackup [handled_rules]: "vhandled K svr (VrrpTransitionToBackup key i reason svr)"
proof (cases "V_vrrpGblInfo svr key")
  case (Some g)
  let ?svr = "put_gbl key (VrrpCalculateDownValue i g) (VrrpUpdateSubIntf g False svr)"
  have "vhandled K (VrrpUpdateSubIntf g False svr) (bind_r (VrrpUpdateStateInfo key reason VRRP_BACKUP_STATE ?svr) (VrrpHandleMasterDownTimer key))"
    by (rule handled_via_put [where key = key and g = g and g' = "VrrpCalculateDownValue i g"])
      (use Some in \<open>simp_all add: same_kind_def handled_bind handled_VrrpUpdateStateInfo handled_VrrpHandleMasterDownTimer\<close>)
  then have "vhandled K svr (bind_r (VrrpUpdateStateInfo key reason VRRP_BACKUP_STATE ?svr) (VrrpHandleMasterDownTimer key))"
    by (rule handled_after) (simp_all add: promotes_same)
  then show ?thesis using Some by (simp add: VrrpTransitionToBackup_def handled_locks)
qed (simp add: VrrpTransitionToBackup_def promotes_refl)

lemma handled_backup_advertisement [handled_rules]:
  assumes g: "V_vrrpGblInfo svr key = Some g"
  shows "vhandled K svr (backup_advertisement E MainLoop ip h key g svr)"
  unfolding backup_advertisement_def Let_def put_gbl_twice master_blocks_main
  by (auto intro!: handled_locks handled_put_same [OF g] handled_via_put [OF handled_VrrpHandleMasterDownTimer g]
    simp: same_kind_def simp del: handled_Inr)

lemma handled_VrrpInitState [handled_rules]: "vhandled K svr (VrrpInitState E MainLoop key svr)"
  by (auto simp: VrrpInitState_def master_blocks_main handled_VrrpTransitionToBackup promotes_refl split: option.split)

lemma handled_VrrpBackupState [handled_rules]: "vhandled K svr (VrrpBackupState E MainLoop inPkt h key svr)"
  by (auto simp: VrrpBackupState_def handled_backup_advertisement promotes_refl split: option.split)

lemma handled_VrrpMasterState [handled_rules]: "vhandled K svr (VrrpMasterState E MainLoop inPkt h key svr)"
proof -
  have "vhandled K svr (VrrpTransitionToBackup key i reason (put_gbl key g (stop_timer t svr)))"
    if g: "V_vrrpGblInfo svr key = Some g" for i reason g t
  proof (rule handled_after)
    show "vhandled K (stop_timer t svr) (VrrpTransitionToBackup key i reason (put_gbl key g (stop_timer t svr)))"
      by (rule handled_via_put [OF handled_VrrpTransitionToBackup, where g = g]) (use g in \<open>simp_all add: same_kind_def\<close>)
  qed (simp_all add: promotes_same)
  then show ?thesis by (auto simp: VrrpMasterState_def advertise_def promotes_refl split: option.split)
qed

lemma handled_VrrpFsmStart [handled_rules]: "vhandled K svr (VrrpFsmStart E MainLoop f svr)"
  by (auto simp: VrrpFsmStart_def promotes_refl intro!: handled_locks handled_rules split: option.split VrrpStateName.split)

section \<open>Interfaces, packets and configurations\<close>

text \<open>The entry as it was before the advertisement is written back.\<close>

lemma handled_back_to_init:
  assumes g: "V_vrrpGblInfo svr key = Some g" and a: "(if m then advertise E who key p svr else Inr svr) = Inr svr1"
  shows "vhandled K svr (Inr (put_gbl key (g\<lparr>GI_StateName := VRRP_INITIALIZE_STATE\<rparr>) svr1))"
proof -
  let ?g = "g\<lparr>GI_StateName := VRRP_INITIALIZE_STATE\<rparr>"
  have f: "callbacks svr1 = callbacks svr" "slice_keys svr1 = slice_keys svr" "vrrp_inv svr \<longrightarrow> vrrp_inv svr1" "promotes K svr svr1"
    using a advertise_callbacks [of E who key p svr svr1] handled_advertise [of K svr E who key p]
    by (auto simp: promotes_refl split: if_splits)
  have "vrrp_inv (put_gbl key ?g svr1)" if i: "vrrp_inv svr"
    by (rule vrrp_inv_put) (use vrrp_invD [OF i g] f i in \<open>auto simp: gbl_ok_def\<close>)
  moreover have "promotes K svr1 (put_gbl key ?g svr1)" by (rule promotes_put [of ?g key]) simp_all
  ultimately show ?thesis using f(4) promotes_trans by auto
qed

lemma handled_stop_timers [handled_rules]: "vhandled K svr (stop_timers E who IfIndex keys svr)"
proof (induction keys arbitrary: svr)
  case (Cons key keys)
  show ?case
  proof (cases "key_ifindex key = IfIndex")
    case True
    show ?thesis
    proof (cases "V_vrrpGblInfo svr key")
      case (Some g)
      let ?svr = "stop_timer (GI_AdverTimer g) (stop_timer (GI_MasterDownTimer g) svr)"
      let ?a = "if GI_StateName g = VRRP_MASTER_STATE then advertise E who key VRRP_MASTER_DOWN_PRIORITY ?svr else Inr ?svr"
      have "vhandled K ?svr (bind_r ?a (\<lambda>svr. stop_timers E who IfIndex keys (put_gbl key (g\<lparr>GI_StateName := VRRP_INITIALIZE_STATE\<rparr>) svr)))"
      proof (cases ?a)
        case (Inr svr1)
        have "vhandled K ?svr (Inr (put_gbl key (g\<lparr>GI_StateName := VRRP_INITIALIZE_STATE\<rparr>) svr1))"
          by (rule handled_back_to_init [OF _ Inr]) (use Some in simp)
        then show ?thesis unfolding Inr bind_r_Inr by (intro handled_after [OF Cons.IH]) simp_all
      qed simp
      then have "vhandled K svr (bind_r ?a (\<lambda>svr. stop_timers E who IfIndex keys (put_gbl key (g\<lparr>GI_StateName := VRRP_INITIALIZE_STATE\<rparr>) svr)))"
        by (rule handled_after) (simp_all add: promotes_same)
      then show ?thesis using True Some by (simp add: Let_def handled_locks)
    qed (use True in \<open>simp add: promotes_refl\<close>)
  qed (simp add: Cons.IH)
qed (simp add: promotes_refl)

lemma inv_fsm [simp]: "length fs \<le> 1 \<Longrightarrow> vrrp_inv svr \<Longrightarrow> vrrp_inv (svr\<lparr>V_vrrpFsmCh := fs\<rparr>)"
  by (simp add: vrrp_inv_def callbacks_def slice_keys_def)

lemma handled_send_fsm [handled_rules]: "vhandled K svr (send_fsm E who f svr)"
proof -
  have e: "vhandled K svr (Inr (svr\<lparr>V_vrrpFsmCh := fs\<rparr>))" if "length fs \<le> 1" for svr fs
    using that by (simp add: promotes_same)
  have "vhandled K svr (bind_r (VrrpFsmStart E MainLoop p (svr\<lparr>V_vrrpFsmCh := []\<rparr>)) (\<lambda>svr. Inr (svr\<lparr>V_vrrpFsmCh := [f]\<rparr>)))" for p
  proof (rule handled_bind)
    show "vhandled K svr (VrrpFsmStart E MainLoop p (svr\<lparr>V_vrrpFsmCh := []\<rparr>))"
      by (rule handled_after [OF handled_VrrpFsmStart]) (simp_all add: promotes_same)
  qed (rule e, simp)
  then show ?thesis using e [of "[f]"] by (simp add: send_fsm_def split: list.split vrrp_goroutine.split)
qed

lemma handled_up_events [handled_rules]: "vhandled K svr (up_events E IfIndex keys svr)"
proof (induction keys arbitrary: svr)
  case (Cons key keys)
  have "vhandled K svr (bind_r (send_fsm E OtherGoroutine (start_event key) svr) (up_events E IfIndex keys))"
    by (rule handled_bind [OF handled_send_fsm]) (rule Cons.IH)
  then show ?case using Cons.IH by (simp add: promotes_refl split: option.split)
qed (simp add: promotes_refl)

lemma handled_VrrpUpdateL3IntfStateChange [handled_rules]: "vhandled K svr (VrrpUpdateL3IntfStateChange E IfIndex up svr)"
  by (simp add: VrrpUpdateL3IntfStateChange_def VrrpHandleIntfUpEvent_def VrrpHandleIntfShutdownEvent_def promotes_refl
      handled_up_events handled_stop_timers)

lemma handled_VrrpCheckRcvdPkt [handled_rules]: "vhandled K svr (VrrpCheckRcvdPkt E p key svr)"
  unfolding VrrpCheckRcvdPkt_def Let_def
  by (intro handled_locks) (simp add: promotes_refl handled_send_fsm split: option.split sum.split go_error.split)

lemma handled_VrrpInitPacketListener [handled_rules]:
  assumes "V_vrrpGblInfo svr key = Some g"
  shows "vhandled K svr (VrrpInitPacketListener E key IfIndex svr)"
proof -
  have "vhandled K svr (Inr (put_gbl key (g\<lparr>GI_pHandle := Some h\<rparr>) svr))" for h
    by (rule handled_put_same [OF assms]) (simp add: same_kind_def)
  then show ?thesis using assms
    by (simp add: VrrpInitPacketListener_def get_gbl_def Let_def handled_locks promotes_refl del: handled_Inr split: option.split)
      (simp add: promotes_refl)
qed

lemma VrrpUpdateProtocolMacEntry_fields [simp]:
  "V_vrrpGblInfo (VrrpUpdateProtocolMacEntry E b svr) = V_vrrpGblInfo svr"
  "V_vrrpFsmCh (VrrpUpdateProtocolMacEntry E b svr) = V_vrrpFsmCh svr"
  "callbacks (VrrpUpdateProtocolMacEntry E b svr) = callbacks svr"
  "slice_keys (VrrpUpdateProtocolMacEntry E b svr) = slice_keys svr"
  by (simp_all add: VrrpUpdateProtocolMacEntry_def Let_def callbacks_def slice_keys_def log_event_def)

lemma inv_mac [simp]: "vrrp_inv (VrrpUpdateProtocolMacEntry E b svr) \<longleftrightarrow> vrrp_inv svr"
  by (simp add: vrrp_inv_def)

lemma configured_fields [simp]:
  "GI_Locks (configured_gbl c svr g)" "GI_StateName (configured_gbl c svr g) = VRRP_INITIALIZE_STATE"
  "GI_MasterDownTimer (configured_gbl c svr g) = GI_MasterDownTimer g" "GI_AdverTimer (configured_gbl c svr g) = GI_AdverTimer g"
  "GI_VirtualRouterMACAddress (configured_gbl c svr g) = virtual_mac (C_VRID c)"
  "C_IfIndex (GI_IntfConfig (configured_gbl c svr g)) = C_IfIndex c" "C_VRID (GI_IntfConfig (configured_gbl c svr g)) = C_VRID c"
  "C_Priority (GI_IntfConfig (configured_gbl c svr g)) = C_Priority c" "GI_pHandle (configured_gbl c svr g) = GI_pHandle g"
  by (simp_all add: configured_gbl_def VrrpUpdateIntfIpAddr_def split: option.split)

lemma get_gbl_timers:
  "vrrp_inv svr \<Longrightarrow> timer_ok (callbacks svr) (GI_MasterDownTimer (get_gbl key svr)) (MasterDown key)"
  "vrrp_inv svr \<Longrightarrow> timer_ok (callbacks svr) (GI_AdverTimer (get_gbl key svr)) (Adver key)"
  using vrrp_invD [of svr key] by (auto simp: get_gbl_def zero_gbl_def timer_ok_def gbl_ok_def split: option.split)

definition entered :: "VrrpIntf \<Rightarrow> VrrpServer \<Rightarrow> VrrpServer" where
  "entered config svr =
     (let key = vrrp_key (C_IfIndex config) (C_VRID config)
      in (put_gbl key (configured_gbl config svr (get_gbl key svr)) svr)\<lparr>V_vrrpIntfStateSlice := Some (slice_keys svr @ [key])\<rparr>)"

lemma entered_fields [simp]:
  "V_vrrpGblInfo (entered c svr) = (V_vrrpGblInfo svr)(vrrp_key (C_IfIndex c) (C_VRID c) \<mapsto>
     configured_gbl c svr (get_gbl (vrrp_key (C_IfIndex c) (C_VRID c)) svr))"
  "slice_keys (entered c svr) = slice_keys svr @ [vrrp_key (C_IfIndex c) (C_VRID c)]" "callbacks (entered c svr) = callbacks svr"
  "V_vrrpFsmCh (entered c svr) = V_vrrpFsmCh svr"
  by (simp_all add: entered_def Let_def slice_keys_def callbacks_def)

lemma handled_entered: "vhandled K svr (Inr (entered c svr))"
proof -
  let ?key = "vrrp_key (C_IfIndex c) (C_VRID c)"
  let ?g = "configured_gbl c svr (get_gbl ?key svr)"
  have "gbl_ok (callbacks svr) ?key ?g" if "vrrp_inv svr" using get_gbl_timers [OF that] by (simp add: gbl_ok_def)
  then have "vrrp_inv svr \<longrightarrow> vrrp_inv (entered c svr)" by (auto simp: vrrp_inv_def)
  moreover have "promotes K svr (entered c svr)" by (rule promotes_put [of ?g ?key]) simp_all
  ultimately show ?thesis by simp
qed

lemma handled_VrrpCreateGblInfo [handled_rules]: "vhandled K svr (VrrpCreateGblInfo E c svr)"
proof -
  let ?key = "vrrp_key (C_IfIndex c) (C_VRID c)"
  have "vhandled K svr' (send_fsm E MainLoop f (if V_vrrpMacConfigAdded svr' then svr' else VrrpUpdateProtocolMacEntry E True svr'))" for svr' f
    by (rule handled_after [OF handled_send_fsm]) (simp_all add: promotes_same promotes_refl)
  then have "vhandled K (entered c svr) (bind_r (VrrpInitPacketListener E ?key (C_IfIndex c) (entered c svr)) (\<lambda>svr.
      send_fsm E MainLoop (start_event ?key) (if V_vrrpMacConfigAdded svr then svr else VrrpUpdateProtocolMacEntry E True svr)))"
    by (intro handled_bind) (simp_all add: handled_VrrpInitPacketListener)
  then have "vhandled K svr (bind_r (VrrpInitPacketListener E ?key (C_IfIndex c) (entered c svr)) (\<lambda>svr.
      send_fsm E MainLoop (start_event ?key) (if V_vrrpMacConfigAdded svr then svr else VrrpUpdateProtocolMacEntry E True svr)))"
    using handled_entered [of K svr c] by (auto intro: handled_after)
  then show ?thesis by (simp add: VrrpCreateGblInfo_def entered_def Let_def)
qed

lemma handled_VrrpDeleteGblInfo [handled_rules]: "vhandled K svr (Inr (VrrpDeleteGblInfo E c svr))"
proof -
  define key where "key = vrrp_key (C_IfIndex c) (C_VRID c)"
  define svr1 where "svr1 = (case V_vrrpGblInfo svr key of None \<Rightarrow> svr | Some g \<Rightarrow> VrrpUpdateSubIntf g False svr)"
  define svr2 where "svr2 = svr1\<lparr>V_vrrpGblInfo := (V_vrrpGblInfo svr1)(key := None),
      V_vrrpIntfStateSlice := map_option (remove1 key) (V_vrrpIntfStateSlice svr1)\<rparr>"
  have f: "V_vrrpGblInfo svr1 = V_vrrpGblInfo svr" "callbacks svr1 = callbacks svr" "V_vrrpFsmCh svr1 = V_vrrpFsmCh svr"
      "V_vrrpIntfStateSlice svr1 = V_vrrpIntfStateSlice svr"
    by (simp_all add: svr1_def split: option.split)
  have k: "set (slice_keys svr) - {key} \<subseteq> set (slice_keys svr2)"
    by (auto simp: svr2_def slice_keys_def f split: option.splits)
  have c: "callbacks svr2 = callbacks svr" using f by (simp add: svr2_def callbacks_def)
  have m: "V_vrrpGblInfo svr2 = (V_vrrpGblInfo svr)(key := None)" "V_vrrpFsmCh svr2 = V_vrrpFsmCh svr" by (simp_all add: svr2_def f)
  have "vrrp_inv svr2" if "vrrp_inv svr" using that k by (auto simp: vrrp_inv_def c m)
  moreover have "promotes K svr svr2" by (auto simp: promotes_def m split: if_splits)
  moreover have "VrrpDeleteGblInfo E c svr = (if slice_keys svr2 \<noteq> [] then svr2 else VrrpUpdateProtocolMacEntry E False svr2)"
    by (simp add: VrrpDeleteGblInfo_def Let_def svr2_def svr1_def key_def)
  ultimately show ?thesis by (auto simp: promotes_def)
qed

lemma update_attrs_identity:
  "C_IfIndex (fst (update_attrs new n attrs cu)) = C_IfIndex (fst cu)" "C_VRID (fst (update_attrs new n attrs cu)) = C_VRID (fst cu)"
  by (induction new n attrs cu rule: update_attrs.induct) simp_all

lemma handled_VrrpUpdateIntf [handled_rules]: "vhandled K svr (VrrpUpdateIntf old new attrs svr)"
proof (cases "V_vrrpGblInfo svr (vrrp_key (C_IfIndex old) (C_VRID old))")
  case (Some g)
  obtain c upd where u: "update_attrs new 0 attrs (GI_IntfConfig g, False) = (c, upd)" by fastforce
  have "same_kind g (g\<lparr>GI_IntfConfig := c\<rparr>)"
    using update_attrs_identity [of new 0 attrs "(GI_IntfConfig g, False)"] u by (simp add: same_kind_def)
  then show ?thesis using Some u
    by (auto simp: VrrpUpdateIntf_def Let_def simp del: handled_Inr
        intro!: handled_locks handled_put_same handled_via_put [OF handled_VrrpHandleMasterDownTimer Some])
qed (simp add: VrrpUpdateIntf_def promotes_refl)

lemma handled_fields:
  assumes "V_vrrpGblInfo svr' = V_vrrpGblInfo svr" "V_timers svr' = V_timers svr" "V_vrrpIntfStateSlice svr' = V_vrrpIntfStateSlice svr"
    "V_vrrpFsmCh svr' = V_vrrpFsmCh svr"
  shows "vhandled K svr (Inr svr')"
  using assms by (simp add: promotes_same vrrp_inv_def callbacks_def slice_keys_def)

lemma handled_notifications [handled_rules]:
  "vhandled K svr (Inr (VrrpUpdateVlanGblInfo v n create svr))" "vhandled K svr (Inr (VrrpUpdateIPv4GblInfo E i a create svr))"
  by (rule handled_fields;
      simp add: VrrpUpdateVlanGblInfo_def VrrpCreateVlanEntry_def VrrpUpdateIPv4GblInfo_def VrrpMapIfIndexToLinuxIfIndex_def
        VrrpCreateIfIndexEntry_def split: option.split)+

section \<open>Steps\<close>

text \<open>The keys a step may make the master's.\<close>

definition may_promote :: "vrrp_input \<Rightarrow> VrrpServer \<Rightarrow> string set" where
  "may_promote i svr =
     (case i of
        TimerFires t \<Rightarrow>
          if t < length (V_timers svr) \<and> VT_after (V_timers svr ! t) \<noteq> None
          then (case VT_callback (V_timers svr ! t) of MasterDown key \<Rightarrow> {key} | Adver _ \<Rightarrow> {}) else {}
      | _ \<Rightarrow> {})"

lemma handled_adver_callback: "vhandled K svr (timer_callback E (Adver key) svr)"
proof -
  have "vhandled K svr (case V_vrrpGblInfo svr key of None \<Rightarrow> Inr svr
      | Some g \<Rightarrow> (case GI_AdverTimer g of None \<Rightarrow> Inl Panic
          | Some t \<Rightarrow> Inr (put_gbl key g (set_timer t (Some (sint (C_AdvertisementInterval (GI_IntfConfig g)))) svr))))" for svr
  proof (cases "V_vrrpGblInfo svr key")
    case (Some g)
    have "vhandled K svr (Inr (put_gbl key g (set_timer t d svr)))" for t d
    proof (rule handled_after)
      show "vhandled K (set_timer t d svr) (Inr (put_gbl key g (set_timer t d svr)))"
        by (rule handled_put_same [of _ _ g]) (use Some in \<open>simp_all add: same_kind_def\<close>)
    qed (simp_all add: promotes_same)
    then show ?thesis using Some by (simp del: handled_Inr split: option.split)
  qed (simp add: promotes_refl)
  then show ?thesis by (simp add: timer_callback_def handled_bind [OF handled_advertise])
qed

lemma handled_timer: "vhandled (case cb of MasterDown key \<Rightarrow> {key} | Adver _ \<Rightarrow> {}) svr (timer_callback E cb svr)"
proof (cases cb)
  case (MasterDown key)
  then show ?thesis using handled_VrrpTransitionToMaster [of key "{}" svr] by (simp add: timer_callback_def)
qed (simp add: handled_adver_callback)

lemma handled_vrrp_step: "vhandled (may_promote i svr) svr (vrrp_step E i svr)"
proof (cases i)
  case FsmReady
  have "vhandled {} svr (VrrpFsmStart E MainLoop f (svr\<lparr>V_vrrpFsmCh := fs\<rparr>))" if "V_vrrpFsmCh svr = f # fs" for f fs
    by (rule handled_after [OF handled_VrrpFsmStart]) (use that in \<open>auto simp: promotes_same vrrp_inv_def callbacks_def slice_keys_def\<close>)
  then show ?thesis using FsmReady by (simp add: vrrp_step_def may_promote_def promotes_refl split: list.split)
next
  case (TimerFires t)
  have "vhandled (case cb of MasterDown key \<Rightarrow> {key} | Adver _ \<Rightarrow> {}) svr (timer_callback E cb (set_timer t None svr))" for cb
    by (rule handled_after [OF handled_timer]) (simp_all add: promotes_same)
  then show ?thesis using TimerFires by (simp add: vrrp_step_def may_promote_def promotes_refl)
qed (simp_all add: vrrp_step_def may_promote_def handled_VrrpCreateGblInfo handled_VrrpDeleteGblInfo handled_VrrpUpdateIntf
    handled_VrrpCheckRcvdPkt handled_notifications handled_VrrpUpdateL3IntfStateChange del: handled_Inr)

section \<open>Reachable states\<close>

lemma vrrp_inv_init: "vrrp_inv VrrpInitGlobalDS"
  by (simp add: vrrp_inv_def VrrpInitGlobalDS_def)

locale vrrp_handler =
  fixes op :: "'i \<Rightarrow> VrrpServer \<Rightarrow> VrrpServer vrun" and K :: "'i \<Rightarrow> VrrpServer \<Rightarrow> string set"
  assumes handled_op: "vhandled (K i svr) svr (op i svr)"
begin

lemma step_keeps_inv: "vrrp_inv svr \<Longrightarrow> op i svr = Inr svr' \<Longrightarrow> vrrp_inv svr'"
  using handled_op [of i svr] by (simp add: vhandled_def)

lemma new_masters:
  "op i svr = Inr svr' \<Longrightarrow> V_vrrpGblInfo svr' key = Some g' \<Longrightarrow> GI_StateName g' = VRRP_MASTER_STATE \<Longrightarrow>
   key \<in> K i svr \<or> (\<exists>g. V_vrrpGblInfo svr key = Some g \<and> GI_StateName g = VRRP_MASTER_STATE)"
  using handled_op [of i svr] by (simp add: vhandled_def promotes_def)

lemma runs_keep_inv: "vrrp_inv svr \<Longrightarrow> seq_ops (map op is) svr = Inr svr' \<Longrightarrow> vrrp_inv svr'"
proof (induction "is" arbitrary: svr)
  case (Cons i "is")
  then show ?case using step_keeps_inv by (auto simp: bind_r_eq_Inr)
qed simp

end

interpretation vrrp_steps: vrrp_handler "vrrp_step E" may_promote for E
  by unfold_locales (rule handled_vrrp_step)

interpretation vrrp_creates: vrrp_handler "VrrpCreateGblInfo E" "\<lambda>_ _. {}" for E
  by unfold_locales (rule handled_VrrpCreateGblInfo)

lemma vrrp_run_seq: "vrrp_run E is = seq_ops (map (vrrp_step E) is)"
  by (induction "is") (rule ext, simp)+

lemma VrrpReadDB_seq: "VrrpReadDB E cs = seq_ops (map (VrrpCreateGblInfo E) cs)"
  by (induction cs) (rule ext, simp)+

end
