(* ===== verification/VrrpRuns.thy ===== *)
theory VrrpRuns
  imports VrrpInv
begin

text \<open>
  Runs of the VRRP daemon: its advertisements are accepted by its peers, a silent link makes a backup the master and a better router makes a
  master a backup, the time a backup waits, and where the daemon stops: events that leave the main loop waiting for itself, and events that
  panic.
\<close>

section \<open>Advertisements\<close>

lemma encode_addrs_one:
  assumes "length buf = 20"
  shows "encode_addrs [ip] 8 (Suc 0) buf = Inr (take 8 buf @ To4 ip @ drop (8 + length (To4 ip)) buf)"
  using assms length_To4 [of ip] by (auto simp: slice_r_def copy_r_def)

lemma encode_one_total:
  assumes "VH_CountIPv4Addr h = 1" "VH_IPv4Addr h = [ip]"
  shows "\<exists>bs. VrrpEncodeHeader h = Inr (bs, 20)"
proof -
  have l: "header_len h = 20" by (simp add: header_len_def assms)
  define buf where "buf = [push_bit 4 (VH_Version h) OR VH_Type h, VH_VirtualRtrId h, VH_Priority h, VH_CountIPv4Addr h] @
    be16 (push_bit 13 (ucast (VH_Rsvd h)) OR VH_MaxAdverInt h) @ be16 (VH_CheckSum h) @ replicate (unat (header_len h) - 8) 0"
  define b where "b = take 8 buf @ To4 ip @ drop (8 + length (To4 ip)) buf"
  have buf: "length buf = 20" by (simp add: buf_def l)
  then have b: "length b = 20" using length_To4 [of ip] by (auto simp: b_def)
  obtain c where "VrrpComputeChecksum (VH_Version h) b = Inr c" using checksum_total [of b] b by auto
  moreover have "encode_addrs (VH_IPv4Addr h) 8 (unat (VH_CountIPv4Addr h)) buf = Inr b"
    using encode_addrs_one [OF buf, of ip] assms by (simp add: b_def)
  ultimately show ?thesis
    using b unfolding VrrpEncodeHeader_def Let_def buf_def [symmetric] by (simp add: l put_r_def)
qed

lemma create_header_total: "\<exists>bs. VrrpCreateVrrpHeader E g = Inr (bs, 20)"
  unfolding VrrpCreateVrrpHeader_def Let_def by (rule encode_one_total) simp_all

text \<open>The header of an entry with a virtual address.\<close>

definition advertisement :: "bytes \<Rightarrow> VrrpGlobalInfo \<Rightarrow> VrrpPktHeader" where
  "advertisement ip g =
     \<lparr>VH_Version = 2, VH_Type = 1, VH_VirtualRtrId = ucast (C_VRID (GI_IntfConfig g)), VH_Priority = ucast (C_Priority (GI_IntfConfig g)),
      VH_CountIPv4Addr = 1, VH_Rsvd = 0, VH_MaxAdverInt = ucast (C_AdvertisementInterval (GI_IntfConfig g)), VH_CheckSum = 0,
      VH_IPv4Addr = [ip]\<rparr>"

lemma encode_To4: "VrrpEncodeHeader (advertisement (To4 ip) g) = VrrpEncodeHeader (advertisement ip g)"
  by (simp add: VrrpEncodeHeader_def advertisement_def header_len_def)

lemma ucast_interval:
  assumes "0 < (i :: i32)" "i < 0x2000"
  shows "(ucast i :: u16) < 0x2000" "(ucast i :: u16) \<noteq> 0"
proof -
  have u: "unat (ucast i :: u16) = unat i"
    using assms(2) by (simp add: word_less_nat_alt unsigned_ucast_eq take_bit_nat_eq_self)
  show "(ucast i :: u16) < 0x2000" using assms(2) by (simp add: word_less_nat_alt u)
  show "(ucast i :: u16) \<noteq> 0" using assms(1) u by (auto simp: word_less_nat_alt)
qed

lemma advertisement_accepted:
  assumes "length (To4 ip) = 4" "0 < C_AdvertisementInterval (GI_IntfConfig g)" "C_AdvertisementInterval (GI_IntfConfig g) < 0x2000"
    "vip \<noteq> []" "vrid \<noteq> 0"
  shows "\<exists>bs c. VrrpEncodeHeader (advertisement ip g) = Inr (bs, 20) \<and>
    VrrpDecodeHeader bs spare = Inr ((advertisement (To4 ip) g)\<lparr>VH_CheckSum := c\<rparr>) \<and>
    VrrpCheckHeader vip ipAddr vrid ((advertisement (To4 ip) g)\<lparr>VH_CheckSum := c\<rparr>) bs spare = Inr ()"
proof -
  let ?h = "advertisement (To4 ip) g"
  have w: "wf_header ?h" using assms ucast_interval by (simp add: wf_header_def advertisement_def)
  obtain c where c: "VrrpComputeChecksum (VH_Version ?h) (encoded ?h 0) = Inr c"
    using checksum_total even_encoded [OF w] by blast
  have "VrrpEncodeHeader (advertisement ip g) = Inr (encoded ?h c, 20)"
    using encode_encoded [OF w c] encode_To4 [of ip g] by (simp add: header_len_def advertisement_def)
  moreover have "VrrpCheckHeader vip ipAddr vrid (?h\<lparr>VH_CheckSum := c\<rparr>) (encoded ?h c) spare = Inr ()"
    by (rule check_encoded [OF w c]) (use assms ucast_interval in \<open>simp_all add: advertisement_def\<close>)
  ultimately show ?thesis using decode_encoded [OF w] by blast
qed

lemma create_header_advertisement:
  "C_VirtualIPv4Addr (GI_IntfConfig g) \<noteq> [] \<Longrightarrow>
   VrrpCreateVrrpHeader E g = VrrpEncodeHeader (advertisement (ParseIP (E_parseIPv6 E) (C_VirtualIPv4Addr (GI_IntfConfig g))) g)"
  by (simp add: VrrpCreateVrrpHeader_def advertisement_def)

section \<open>Becoming the master\<close>

lemma VrrpSendPkt_ok:
  assumes "V_vrrpGblInfo svr key = Some g" "GI_Locks g" "GI_pHandle g = Some h"
  shows "\<exists>frame. VrrpSendPkt E key VRRP_IGNORE_PRIORITY svr =
    Inr (put_gbl key (VrrpUpdateMasterTimerStateInfo E g) (log_event (WritePacketData h frame) svr), True)"
proof -
  obtain bs where "VrrpCreateVrrpHeader E g = Inr (bs, 20)" using create_header_total by blast
  then show ?thesis using assms by (auto simp: VrrpSendPkt_def with_locks_def Let_def)
qed

lemma transition_to_master:
  assumes g: "V_vrrpGblInfo svr key = Some g" and locks: "GI_Locks g" and h: "GI_pHandle g = Some h"
  shows "\<exists>svr' g' frame vip mac.
    VrrpTransitionToMaster E OtherGoroutine key reason svr = Inr svr' \<and> V_vrrpGblInfo svr' key = Some g' \<and>
    GI_StateName g' = VRRP_MASTER_STATE \<and> GI_AdverTimer g' = Some (length (V_timers svr)) \<and>
    V_timers svr' = V_timers svr @ [\<lparr>VT_callback = Adver key, VT_after = Some (sint (C_AdvertisementInterval (GI_IntfConfig g)))\<rparr>] \<and>
    V_log svr' = V_log svr @ [WritePacketData h frame,
      UpdateSubIPv4Intf vip (itoa (sint (C_IfIndex (GI_IntfConfig g)))) True mac [False, False, False, True, True]]"
proof -
  obtain frame where f: "VrrpSendPkt E key VRRP_IGNORE_PRIORITY svr =
      Inr (put_gbl key (VrrpUpdateMasterTimerStateInfo E g) (log_event (WritePacketData h frame) svr), True)"
    using VrrpSendPkt_ok [OF assms] by blast
  show ?thesis
    by (simp add: VrrpTransitionToMaster_def advertise_def f VrrpUpdateStateInfo_def with_locks_def locks VrrpUpdateMasterTimerStateInfo_def
        VrrpHandleMasterAdverTimer_def AfterFunc_def VrrpUpdateSubIntf_def Let_def)
qed

lemma set_timer_V_timers [simp]:
  "V_timers (set_timer t d svr) = (V_timers svr)[t := (V_timers svr ! t)\<lparr>VT_after := d\<rparr>]" "V_log (set_timer t d svr) = V_log svr"
  by (simp_all add: set_timer_def)

lemma backup_timer_fires:
  assumes inv: "vrrp_inv svr" and g: "V_vrrpGblInfo svr key = Some g" and b: "GI_StateName g = VRRP_BACKUP_STATE"
    and h: "GI_pHandle g = Some h" and t: "GI_MasterDownTimer g = Some t" and d: "VT_after (V_timers svr ! t) = Some d"
  shows "\<exists>svr' g' u frame vip mac.
    vrrp_step E (TimerFires t) svr = Inr svr' \<and> V_vrrpGblInfo svr' key = Some g' \<and> GI_StateName g' = VRRP_MASTER_STATE \<and>
    GI_AdverTimer g' = Some u \<and>
    V_timers svr' ! u = \<lparr>VT_callback = Adver key, VT_after = Some (sint (C_AdvertisementInterval (GI_IntfConfig g)))\<rparr> \<and>
    V_log svr' = V_log svr @ [WritePacketData h frame,
      UpdateSubIPv4Intf vip (itoa (sint (C_IfIndex (GI_IntfConfig g)))) True mac [False, False, False, True, True]]"
proof -
  have ok: "gbl_ok (callbacks svr) key g" using vrrp_invD [OF inv g] by simp
  then have cb: "t < length (V_timers svr)" "VT_callback (V_timers svr ! t) = MasterDown key"
    using t by (auto simp: gbl_ok_def timer_ok_def callbacks_def)
  then have "vrrp_step E (TimerFires t) svr = VrrpTransitionToMaster E OtherGoroutine key ''Master Down Timer expired'' (set_timer t None svr)"
    using d by (simp add: vrrp_step_def timer_callback_def)
  moreover have "V_vrrpGblInfo (set_timer t None svr) key = Some g" "GI_Locks g" using g ok by (simp_all add: gbl_ok_def)
  ultimately show ?thesis
    using transition_to_master [of "set_timer t None svr" key g h E "''Master Down Timer expired''"] h
    by (auto simp: nth_append)
qed

section \<open>Giving up\<close>

lemma remote_wins_iff:
  assumes "CHR ''/'' \<in> set (GI_IpAddr g)" "CHR '':'' \<notin> set (GI_IpAddr g)" "src \<noteq> []"
  shows "remote_wins E h src g \<longleftrightarrow> uint (VH_Priority h) \<ge> sint (C_Priority (GI_IntfConfig g))"
proof -
  have "bytes_greater src []" using assms(3) by (cases src) simp_all
  then show ?thesis using ParseIP_mask [OF assms(1,2)] by (auto simp: remote_wins_def)
qed

lemma fsm_fields [simp]: "callbacks (svr\<lparr>V_vrrpFsmCh := fs\<rparr>) = callbacks svr" "slice_keys (svr\<lparr>V_vrrpFsmCh := fs\<rparr>) = slice_keys svr"
  by (simp_all add: callbacks_def slice_keys_def)

text \<open>What a transition to the backup state leaves.\<close>

lemma transition_to_backup:
  assumes inv: "vrrp_inv svr" and g: "V_vrrpGblInfo svr key = Some g"
  shows "\<exists>svr' g' t.
    VrrpTransitionToBackup key i reason svr = Inr svr' \<and> V_vrrpGblInfo svr' key = Some g' \<and> GI_StateName g' = VRRP_BACKUP_STATE \<and>
    GI_MasterDownTimer g' = Some t \<and> VT_after (V_timers svr' ! t) = Some (sint (GI_MasterDownValue (VrrpCalculateDownValue i g))) \<and>
    GI_AdverTimer g' = GI_AdverTimer g \<and>
    (\<forall>u < length (V_timers svr). u \<noteq> t \<longrightarrow> V_timers svr' ! u = V_timers svr ! u)"
proof -
  have ok: "gbl_ok (callbacks svr) key g" using vrrp_invD [OF inv g] by simp
  then have t: "t < length (V_timers svr)" if "GI_MasterDownTimer g = Some t" for t
    using that by (auto simp: gbl_ok_def timer_ok_def callbacks_def)
  have l: "GI_Locks g" using ok by (simp add: gbl_ok_def)
  show ?thesis
  proof (cases "GI_MasterDownTimer g")
    case None
    then show ?thesis using g l
      by (simp add: VrrpTransitionToBackup_def with_locks_def VrrpUpdateStateInfo_def VrrpHandleMasterDownTimer_def AfterFunc_def nth_append)
  next
    case (Some t)
    then show ?thesis using g l t [OF Some]
      by (simp add: VrrpTransitionToBackup_def with_locks_def VrrpUpdateStateInfo_def VrrpHandleMasterDownTimer_def)
  qed
qed

lemma master_yields:
  assumes inv: "vrrp_inv svr" and g: "V_vrrpGblInfo svr key = Some g" and m: "GI_StateName g = VRRP_MASTER_STATE"
    and f: "V_vrrpFsmCh svr = [\<lparr>F_key = key, F_vrrpHdr = Some h, F_inPkt = Some p\<rparr>]" and p: "PK_IPv4 p = Some ip"
    and prio: "VH_Priority h \<noteq> 0" and wins: "remote_wins E h (IP_SrcIP ip) g"
  shows "\<exists>svr' g' t u.
    vrrp_step E FsmReady svr = Inr svr' \<and> V_vrrpGblInfo svr' key = Some g' \<and> GI_StateName g' = VRRP_BACKUP_STATE \<and>
    GI_MasterDownTimer g' = Some t \<and>
    VT_after (V_timers svr' ! t) = Some (sint (GI_MasterDownValue (VrrpCalculateDownValue (ucast (VH_MaxAdverInt h)) g))) \<and>
    GI_AdverTimer g' = Some u \<and> VT_after (V_timers svr' ! u) = None"
proof -
  have ok: "gbl_ok (callbacks svr) key g" using vrrp_invD [OF inv g] by simp
  then obtain u where u: "GI_AdverTimer g = Some u" "u < length (V_timers svr)" "VT_callback (V_timers svr ! u) = Adver key"
    using m by (auto simp: gbl_ok_def timer_ok_def callbacks_def)
  let ?svr = "put_gbl key g (set_timer u None (svr\<lparr>V_vrrpFsmCh := []\<rparr>))"
  have i: "vrrp_inv ?svr" by (rule vrrp_inv_put) (use inv ok vrrp_invD [OF inv g] in simp_all)
  have "vrrp_step E FsmReady svr = VrrpTransitionToBackup key (ucast (VH_MaxAdverInt h))
      ''Remote Priority is higher OR (priority are equal AND remote ip is higher than local ip)'' ?svr"
    using g m f p prio wins ok u
    by (simp add: vrrp_step_def VrrpFsmStart_def with_locks_def gbl_ok_def VrrpMasterState_def stop_timer_def)
  moreover have gs: "V_vrrpGblInfo ?svr key = Some g" by simp
  obtain svr' g' t where b: "VrrpTransitionToBackup key (ucast (VH_MaxAdverInt h))
      ''Remote Priority is higher OR (priority are equal AND remote ip is higher than local ip)'' ?svr = Inr svr'"
      "V_vrrpGblInfo svr' key = Some g'" "GI_StateName g' = VRRP_BACKUP_STATE" "GI_MasterDownTimer g' = Some t"
      "VT_after (V_timers svr' ! t) = Some (sint (GI_MasterDownValue (VrrpCalculateDownValue (ucast (VH_MaxAdverInt h)) g)))"
      "GI_AdverTimer g' = GI_AdverTimer g" "\<forall>u < length (V_timers ?svr). u \<noteq> t \<longrightarrow> V_timers svr' ! u = V_timers ?svr ! u"
    using transition_to_backup [OF i gs] by blast
  have inv': "vrrp_inv svr'" using handled_VrrpTransitionToBackup [of "{}" ?svr] b(1) i by (simp add: vhandled_def)
  have "u \<noteq> t" using vrrp_invD [OF inv' b(2)] b(4,6) u(1) by (auto simp: gbl_ok_def timer_ok_def)
  then have "VT_after (V_timers svr' ! u) = None" using b(7) u(2) by simp
  ultimately show ?thesis using b u(1) by (intro exI [of _ svr'] exI [of _ g'] exI [of _ t] exI [of _ u]) simp
qed

lemma master_stays:
  assumes "V_vrrpGblInfo svr key = Some g" "GI_StateName g = VRRP_MASTER_STATE"
    and "V_vrrpFsmCh svr = [\<lparr>F_key = key, F_vrrpHdr = Some h, F_inPkt = Some p\<rparr>]" "PK_IPv4 p = Some ip" "VH_Priority h \<noteq> 0"
    and "\<not> remote_wins E h (IP_SrcIP ip) g" "GI_Locks g"
  shows "vrrp_step E FsmReady svr = Inr (svr\<lparr>V_vrrpFsmCh := []\<rparr>)"
  using assms by (simp add: vrrp_step_def VrrpFsmStart_def with_locks_def VrrpMasterState_def)

text \<open>A preempting backup does not restart its timer on an advertisement of at least its own priority.\<close>

lemma preempting_backup_ignores:
  assumes inv: "vrrp_inv svr" and g: "V_vrrpGblInfo svr key = Some g" and b: "GI_StateName g = VRRP_BACKUP_STATE"
    and pre: "C_PreemptMode (GI_IntfConfig g)" and f: "V_vrrpFsmCh svr = [\<lparr>F_key = key, F_vrrpHdr = Some h, F_inPkt = Some p\<rparr>]"
    and prio: "VH_Priority h \<noteq> 0" "VH_Priority h \<ge> ucast (C_Priority (GI_IntfConfig g))"
  shows "\<exists>svr'. vrrp_step E FsmReady svr = Inr svr' \<and> V_timers svr' = V_timers svr \<and> V_log svr' = V_log svr"
proof -
  have ok: "gbl_ok (callbacks svr) key g" using vrrp_invD [OF inv g] by simp
  then show ?thesis using assms
    by (simp add: vrrp_step_def VrrpFsmStart_def with_locks_def gbl_ok_def VrrpBackupState_def backup_advertisement_def split: option.split)
qed

section \<open>The time a backup waits\<close>

lemma sdiv_nonneg: "0 \<le> (x :: int) \<Longrightarrow> x sdiv 256 = x div 256"
  by (cases "x = 0") (simp_all add: signed_divide_int_def sgn_if)

lemma down_value:
  assumes "1 \<le> p" "p \<le> 255" "1 \<le> i" "i \<le> 8191" "C_Priority (GI_IntfConfig g) = word_of_int p"
  shows "sint (GI_MasterDownValue (VrrpCalculateDownValue (word_of_int i) g)) = 3 * i + (256 - p) * i div 256"
proof -
  have b: "0 \<le> (256 - p) * i" "(256 - p) * i \<le> 255 * 8191" using assms mult_mono [of "256 - p" 255 i 8191] by simp_all
  have s: "sint (word_of_int k :: i32) = k" if "0 \<le> k" "k < 2 ^ 31" for k
    using that by (simp add: signed_of_int signed_take_bit_int_eq_self)
  have "sint ((256 - word_of_int p) * word_of_int i :: i32) = (256 - p) * i"
    using s [of "(256 - p) * i"] b by simp
  then have k: "sint ((256 - word_of_int p) * word_of_int i :: i32) sdiv 256 = (256 - p) * i div 256"
    using sdiv_nonneg [OF b(1)] by simp
  have "sint (word_of_int p :: i32) \<noteq> sint (0 :: i32)" "sint (word_of_int i :: i32) \<noteq> sint (0 :: i32)"
    using assms(1-4) s [of p] s [of i] by (simp_all only: signed_0) simp_all
  then have n: "word_of_int p \<noteq> (0 :: i32)" "word_of_int i \<noteq> (0 :: i32)" by metis+
  have "0 \<le> (256 - p) * i div 256" "(256 - p) * i div 256 \<le> 255 * 8191" using b by (auto intro: div_le_dividend)
  then have v: "sint (3 * word_of_int i + word_of_int ((256 - p) * i div 256) :: i32) = 3 * i + (256 - p) * i div 256"
    using s [of "3 * i + (256 - p) * i div 256"] assms(3,4) by simp
  show ?thesis unfolding VrrpCalculateDownValue_def Let_def using n by (simp add: assms(5) k v)
qed

end
