(* ===== verification/VrrpFaults.thy ===== *)
theory VrrpFaults
  imports VrrpRuns
begin

text \<open>
  Where the VRRP daemon stops: the main loop waits for itself when it must advertise or when a second event finds the channel of the state
  machine full, and a restart event, a packet of a deleted entry and the timer of a deleted master panic. Also: a change of the interval that
  leaves a backup advertising, and bulk reads that never continue.
\<close>

section \<open>Creating entries\<close>

lemma listener_fields:
  assumes "V_vrrpGblInfo svr key = Some g" "GI_Locks g"
  shows "\<exists>svr' hd. VrrpInitPacketListener E key i svr = Inr svr' \<and> V_vrrpGblInfo svr' = (V_vrrpGblInfo svr)(key \<mapsto> g\<lparr>GI_pHandle := hd\<rparr>) \<and>
    V_vrrpFsmCh svr' = V_vrrpFsmCh svr \<and> V_timers svr' = V_timers svr \<and> slice_keys svr' = slice_keys svr \<and>
    (\<forall>name h. V_vrrpLinuxIfIndex2AsicdIfIndex svr i = Some name \<longrightarrow> E_OpenLive E name = Some h \<longrightarrow> hd = Some h)"
proof (cases "V_vrrpLinuxIfIndex2AsicdIfIndex svr i")
  case None
  then show ?thesis using assms by (auto simp: VrrpInitPacketListener_def intro!: exI [of _ "GI_pHandle g"])
next
  case (Some name)
  show ?thesis
  proof (cases "E_OpenLive E name")
    case None
    then show ?thesis using assms Some by (auto simp: VrrpInitPacketListener_def intro!: exI [of _ "GI_pHandle g"])
  next
    case h: (Some h)
    then show ?thesis using assms Some
      by (auto simp: VrrpInitPacketListener_def get_gbl_def with_locks_def Let_def intro!: exI [of _ "Some h"])
  qed
qed

definition prepared :: "vrrp_env \<Rightarrow> VrrpIntf \<Rightarrow> VrrpServer \<Rightarrow> VrrpServer \<Rightarrow> bool" where
  "prepared E c svr svr' \<longleftrightarrow>
     (let key = vrrp_key (C_IfIndex c) (C_VRID c)
      in V_vrrpFsmCh svr' = V_vrrpFsmCh svr \<and> V_timers svr' = V_timers svr \<and>
         (\<exists>hd. V_vrrpGblInfo svr' = (V_vrrpGblInfo svr)(key \<mapsto> (configured_gbl c svr (get_gbl key svr))\<lparr>GI_pHandle := hd\<rparr>) \<and>
           (\<forall>name h. V_vrrpLinuxIfIndex2AsicdIfIndex svr (C_IfIndex c) = Some name \<longrightarrow> E_OpenLive E name = Some h \<longrightarrow> hd = Some h)))"

lemma create_prepared:
  "\<exists>svr'. prepared E c svr svr' \<and> VrrpCreateGblInfo E c svr = send_fsm E MainLoop (start_event (vrrp_key (C_IfIndex c) (C_VRID c))) svr'"
proof -
  let ?key = "vrrp_key (C_IfIndex c) (C_VRID c)"
  have g: "V_vrrpGblInfo (entered c svr) ?key = Some (configured_gbl c svr (get_gbl ?key svr))" by simp
  have lin: "V_vrrpLinuxIfIndex2AsicdIfIndex (entered c svr) = V_vrrpLinuxIfIndex2AsicdIfIndex svr" "V_timers (entered c svr) = V_timers svr"
    by (simp_all add: entered_def Let_def put_gbl_def)
  obtain svr1 hd where l: "VrrpInitPacketListener E ?key (C_IfIndex c) (entered c svr) = Inr svr1"
      "V_vrrpGblInfo svr1 = (V_vrrpGblInfo (entered c svr))(?key \<mapsto> (configured_gbl c svr (get_gbl ?key svr))\<lparr>GI_pHandle := hd\<rparr>)"
      "V_vrrpFsmCh svr1 = V_vrrpFsmCh svr" "V_timers svr1 = V_timers svr"
      "\<forall>name h. V_vrrpLinuxIfIndex2AsicdIfIndex svr (C_IfIndex c) = Some name \<longrightarrow> E_OpenLive E name = Some h \<longrightarrow> hd = Some h"
    using listener_fields [OF g, of E "C_IfIndex c"] lin by auto
  let ?svr2 = "if V_vrrpMacConfigAdded svr1 then svr1 else VrrpUpdateProtocolMacEntry E True svr1"
  have mac: "V_timers (VrrpUpdateProtocolMacEntry E True svr1) = V_timers svr1"
    by (simp add: VrrpUpdateProtocolMacEntry_def Let_def)
  have "prepared E c svr ?svr2" using l mac by (auto simp: prepared_def Let_def)
  moreover have "VrrpCreateGblInfo E c svr = send_fsm E MainLoop (start_event ?key) ?svr2"
    using l(1) by (simp add: VrrpCreateGblInfo_def entered_def Let_def)
  ultimately show ?thesis by blast
qed

lemma create_ok:
  assumes "V_vrrpFsmCh svr = []"
  shows "\<exists>svr'. VrrpCreateGblInfo E c svr = Inr (svr'\<lparr>V_vrrpFsmCh := [start_event (vrrp_key (C_IfIndex c) (C_VRID c))]\<rparr>) \<and> prepared E c svr svr'"
  using create_prepared [of E c svr] assms by (auto simp: send_fsm_def prepared_def Let_def)

lemma create_waits:
  assumes "V_vrrpFsmCh svr \<noteq> []"
  shows "\<exists>svr'. VrrpCreateGblInfo E c svr = Inl (Error (WaitFsmCh, svr'))"
  using create_prepared [of E c svr] assms by (auto simp: send_fsm_def prepared_def Let_def neq_Nil_conv)

section \<open>The main loop waits for itself\<close>

lemma owner_waits:
  assumes "V_vrrpFsmCh svr = []" "C_Priority c = 255"
  shows "\<exists>svr'. vrrp_run E [CreateConf c, FsmReady] svr = Inl (Error (WaitPktSend, svr'))"
proof -
  let ?key = "vrrp_key (C_IfIndex c) (C_VRID c)"
  obtain svr1 where c: "VrrpCreateGblInfo E c svr = Inr (svr1\<lparr>V_vrrpFsmCh := [start_event ?key]\<rparr>)" "prepared E c svr svr1"
    using create_ok [OF assms(1)] by blast
  then obtain hd where "V_vrrpGblInfo svr1 ?key = Some ((configured_gbl c svr (get_gbl ?key svr))\<lparr>GI_pHandle := hd\<rparr>)"
    by (auto simp: prepared_def Let_def)
  then show ?thesis
    using c(1) assms(2)
    by (simp add: vrrp_step_def VrrpFsmStart_def start_event_def with_locks_def VrrpInitState_def master_blocks_main)
qed

text \<open>With any other priority it becomes a backup.\<close>

lemma new_router_is_backup:
  assumes inv: "vrrp_inv svr" and f: "V_vrrpFsmCh svr = []" and p: "C_Priority c \<noteq> 255"
  shows "\<exists>svr' g t d. vrrp_run E [CreateConf c, FsmReady] svr = Inr svr' \<and> V_vrrpGblInfo svr' (vrrp_key (C_IfIndex c) (C_VRID c)) = Some g \<and>
    GI_StateName g = VRRP_BACKUP_STATE \<and> GI_MasterDownTimer g = Some t \<and> VT_after (V_timers svr' ! t) = Some d"
proof -
  let ?key = "vrrp_key (C_IfIndex c) (C_VRID c)"
  obtain svr1 where c: "VrrpCreateGblInfo E c svr = Inr (svr1\<lparr>V_vrrpFsmCh := [start_event ?key]\<rparr>)" "prepared E c svr svr1"
    using create_ok [OF f] by blast
  then obtain hd where g: "V_vrrpGblInfo svr1 ?key = Some ((configured_gbl c svr (get_gbl ?key svr))\<lparr>GI_pHandle := hd\<rparr>)"
    by (auto simp: prepared_def Let_def)
  have "vrrp_inv (svr1\<lparr>V_vrrpFsmCh := [start_event ?key]\<rparr>)" using vrrp_creates.step_keeps_inv [OF inv c(1)] .
  then have i: "vrrp_inv (svr1\<lparr>V_vrrpFsmCh := []\<rparr>)" using inv_fsm [of "[]" "svr1\<lparr>V_vrrpFsmCh := [start_event ?key]\<rparr>"] by simp
  have "V_vrrpGblInfo (svr1\<lparr>V_vrrpFsmCh := []\<rparr>) ?key = Some ((configured_gbl c svr (get_gbl ?key svr))\<lparr>GI_pHandle := hd\<rparr>)"
    using g by simp
  note b = transition_to_backup [OF i this]
  have "vrrp_run E [CreateConf c, FsmReady] svr = VrrpTransitionToBackup ?key
      (C_AdvertisementInterval (GI_IntfConfig (configured_gbl c svr (get_gbl ?key svr)))) ''Priority is not 255'' (svr1\<lparr>V_vrrpFsmCh := []\<rparr>)"
    using c(1) g p by (simp add: vrrp_step_def VrrpFsmStart_def start_event_def with_locks_def VrrpInitState_def bind_r_def split: sum.split)
  then show ?thesis using b by metis
qed

lemma stored_configurations_wait:
  assumes "V_vrrpFsmCh svr = []"
  shows "\<exists>svr'. VrrpReadDB E (c # d # cs) svr = Inl (Error (WaitFsmCh, svr'))"
proof -
  obtain svr1 where "VrrpCreateGblInfo E c svr = Inr (svr1\<lparr>V_vrrpFsmCh := [start_event (vrrp_key (C_IfIndex c) (C_VRID c))]\<rparr>)"
    using create_ok [OF assms] by blast
  then show ?thesis using create_waits [of "svr1\<lparr>V_vrrpFsmCh := [start_event (vrrp_key (C_IfIndex c) (C_VRID c))]\<rparr>" E d] by auto
qed

text \<open>A packet that passes the checks for an entry.\<close>

definition accepted :: "vrrp_frame \<Rightarrow> VrrpGlobalInfo \<Rightarrow> VrrpPktHeader \<Rightarrow> bool" where
  "accepted p g hdr \<longleftrightarrow>
     (case PK_IPv4 p of
        None \<Rightarrow> False
      | Some ip \<Rightarrow> IP_TTL ip = 255 \<and>
          (case IP_Payload ip of
             None \<Rightarrow> False
           | Some payload \<Rightarrow> VrrpDecodeHeader payload (IP_Spare ip) = Inr hdr \<and>
               VrrpCheckHeader (C_VirtualIPv4Addr (GI_IntfConfig g)) (GI_IpAddr g) (C_VRID (GI_IntfConfig g)) hdr payload (IP_Spare ip) = Inr ()))"

lemma accepted_sends:
  assumes "V_vrrpGblInfo svr key = Some g" "GI_Locks g" "GI_StateName g \<noteq> VRRP_INITIALIZE_STATE" "accepted p g hdr"
  shows "vrrp_step E (RcvdPkt p key) svr = send_fsm E MainLoop \<lparr>F_key = key, F_vrrpHdr = Some hdr, F_inPkt = Some p\<rparr> svr"
  using assms by (auto simp: vrrp_step_def VrrpCheckRcvdPkt_def get_gbl_def with_locks_def Let_def accepted_def split: option.splits)

lemma two_packets_wait:
  assumes "V_vrrpGblInfo svr key = Some g" "GI_Locks g" "GI_StateName g \<noteq> VRRP_INITIALIZE_STATE" "accepted p g hdr" "accepted q g hdr'"
  shows "\<exists>svr'. vrrp_run E [RcvdPkt p key, RcvdPkt q key] svr = Inl (Error (WaitFsmCh, svr'))"
proof (cases "V_vrrpFsmCh svr")
  case Nil
  let ?f = "\<lparr>F_key = key, F_vrrpHdr = Some hdr, F_inPkt = Some p\<rparr>"
  have "vrrp_step E (RcvdPkt p key) svr = Inr (svr\<lparr>V_vrrpFsmCh := [?f]\<rparr>)"
    using accepted_sends [OF assms(1-4)] Nil by (simp add: send_fsm_def)
  moreover have "vrrp_step E (RcvdPkt q key) (svr\<lparr>V_vrrpFsmCh := [?f]\<rparr>) = Inl (Error (WaitFsmCh, svr\<lparr>V_vrrpFsmCh := [?f]\<rparr>))"
    using accepted_sends [of "svr\<lparr>V_vrrpFsmCh := [?f]\<rparr>" key g q hdr' E] assms by (simp add: send_fsm_def)
  ultimately show ?thesis by simp
next
  case (Cons f fs)
  then show ?thesis using accepted_sends [OF assms(1-4)] by (simp add: send_fsm_def)
qed

section \<open>Panics\<close>

lemma deleted_packet_panics: "vrrp_run E [DeleteConf c, RcvdPkt p (vrrp_key (C_IfIndex c) (C_VRID c))] svr = Inl Panic"
proof -
  have "V_vrrpGblInfo (VrrpDeleteGblInfo E c svr) (vrrp_key (C_IfIndex c) (C_VRID c)) = None"
    by (simp add: VrrpDeleteGblInfo_def Let_def)
  then show ?thesis by (simp add: vrrp_step_def VrrpCheckRcvdPkt_def get_gbl_def zero_gbl_def with_locks_def)
qed

text \<open>A start event for an entry that is not in its first state has no packet.\<close>

lemma restart_panics:
  assumes "V_vrrpGblInfo svr key = Some g" "GI_StateName g \<in> {VRRP_BACKUP_STATE, VRRP_MASTER_STATE}"
  shows "VrrpFsmStart E who (start_event key) svr = Inl Panic"
  using assms by (auto simp: VrrpFsmStart_def start_event_def with_locks_def VrrpBackupState_def VrrpMasterState_def)

lemma pending_restart:
  assumes "V_vrrpGblInfo svr key = Some g" "GI_StateName g \<in> {VRRP_BACKUP_STATE, VRRP_MASTER_STATE}" "V_vrrpFsmCh svr = [start_event key]"
  shows "up_events E i keys svr \<in> {Inl Panic, Inr svr}"
proof (induction keys)
  case (Cons k keys)
  have "send_fsm E OtherGoroutine f svr = Inl Panic" for f
    using restart_panics [of "svr\<lparr>V_vrrpFsmCh := []\<rparr>" key g E MainLoop] assms by (simp add: send_fsm_def)
  then show ?case using Cons by (auto split: option.split)
qed simp

lemma up_event_panics:
  assumes g: "V_vrrpGblInfo svr key = Some g" "GI_StateName g \<in> {VRRP_BACKUP_STATE, VRRP_MASTER_STATE}"
    and f: "V_vrrpFsmCh svr = []" and k: "key_ifindex key = i" "slice_keys svr = others @ key # rest"
    and o: "\<forall>k\<in>set others. key_ifindex k \<noteq> i" and s: "\<not> E_SubInterface E i"
  shows "vrrp_run E [L3StateNotify i True, FsmReady] svr = Inl Panic"
proof -
  have skip: "up_events E i (others @ key # rest) svr = up_events E i (key # rest) svr" using o by (induction others) auto
  let ?svr = "svr\<lparr>V_vrrpFsmCh := [start_event key]\<rparr>"
  have p: "up_events E i rest ?svr \<in> {Inl Panic, Inr ?svr}"
    by (rule pending_restart [of _ key g]) (use g in simp_all)
  have "vrrp_step E (L3StateNotify i True) svr = up_events E i rest ?svr"
    using s k f g(1) skip by (simp add: vrrp_step_def VrrpUpdateL3IntfStateChange_def VrrpHandleIntfUpEvent_def send_fsm_def)
  moreover have "vrrp_step E FsmReady ?svr = Inl Panic"
    using restart_panics [of "svr\<lparr>V_vrrpFsmCh := []\<rparr>" key g E MainLoop] g by (simp add: vrrp_step_def)
  ultimately show ?thesis using p by auto
qed

text \<open>The timer of a deleted master finds the entry created again, which has no timer.\<close>

lemma delete_fields:
  "V_vrrpGblInfo (VrrpDeleteGblInfo E c svr) (vrrp_key (C_IfIndex c) (C_VRID c)) = None"
  "V_vrrpFsmCh (VrrpDeleteGblInfo E c svr) = V_vrrpFsmCh svr" "V_timers (VrrpDeleteGblInfo E c svr) = V_timers svr"
  "V_vrrpLinuxIfIndex2AsicdIfIndex (VrrpDeleteGblInfo E c svr) = V_vrrpLinuxIfIndex2AsicdIfIndex svr"
  by (simp_all add: VrrpDeleteGblInfo_def VrrpUpdateProtocolMacEntry_def VrrpUpdateSubIntf_def log_event_def Let_def split: option.split)

lemma recreated_master_panics:
  assumes inv: "vrrp_inv svr" and f: "V_vrrpFsmCh svr = []"
    and g: "V_vrrpGblInfo svr (vrrp_key (C_IfIndex c) (C_VRID c)) = Some g" and m: "GI_StateName g = VRRP_MASTER_STATE"
    and t: "GI_AdverTimer g = Some t" and d: "VT_after (V_timers svr ! t) = Some d"
    and l: "V_vrrpLinuxIfIndex2AsicdIfIndex svr (C_IfIndex c) = Some name" "E_OpenLive E name = Some h"
  shows "vrrp_run E [DeleteConf c, CreateConf c, TimerFires t] svr = Inl Panic"
proof -
  let ?key = "vrrp_key (C_IfIndex c) (C_VRID c)"
  let ?svr = "VrrpDeleteGblInfo E c svr"
  have "gbl_ok (callbacks svr) ?key g" using vrrp_invD [OF inv g] by simp
  then have cb: "t < length (V_timers svr)" "VT_callback (V_timers svr ! t) = Adver ?key"
    using t by (auto simp: gbl_ok_def timer_ok_def callbacks_def)
  obtain svr1 where c: "VrrpCreateGblInfo E c ?svr = Inr (svr1\<lparr>V_vrrpFsmCh := [start_event ?key]\<rparr>)" "prepared E c ?svr svr1"
    using create_ok [of ?svr E c] f by (auto simp: delete_fields)
  let ?g = "(configured_gbl c ?svr zero_gbl)\<lparr>GI_pHandle := Some h\<rparr>"
  let ?svr1 = "set_timer t None (svr1\<lparr>V_vrrpFsmCh := [start_event ?key]\<rparr>)"
  have s: "V_vrrpGblInfo ?svr1 ?key = Some ?g" "V_timers svr1 = V_timers svr"
    using c(2) l by (auto simp: prepared_def Let_def delete_fields get_gbl_def)
  obtain frame where "VrrpSendPkt E ?key VRRP_IGNORE_PRIORITY ?svr1 =
      Inr (put_gbl ?key (VrrpUpdateMasterTimerStateInfo E ?g) (log_event (WritePacketData h frame) ?svr1), True)"
    using VrrpSendPkt_ok [OF s(1)] by auto
  then have "timer_callback E (Adver ?key) ?svr1 = Inl Panic"
    by (simp add: timer_callback_def advertise_def VrrpUpdateMasterTimerStateInfo_def zero_gbl_def)
  then show ?thesis using c(1) s(2) cb d by (simp add: vrrp_step_def)
qed

section \<open>A changed interval, and bulk reads\<close>

lemma update_interval:
  assumes inv: "vrrp_inv svr" and g: "V_vrrpGblInfo svr (vrrp_key (C_IfIndex c) (C_VRID c)) = Some g"
    and m: "GI_StateName g = VRRP_MASTER_STATE" and t: "GI_AdverTimer g = Some t"
  shows "\<exists>svr' g'. vrrp_step E (UpdateConf c new [False, False, False, False, True, False, False]) svr = Inr svr' \<and>
    V_vrrpGblInfo svr' (vrrp_key (C_IfIndex c) (C_VRID c)) = Some g' \<and> GI_StateName g' = VRRP_BACKUP_STATE \<and>
    GI_AdverTimer g' = Some t \<and> V_timers svr' ! t = V_timers svr ! t \<and> V_log svr' = V_log svr"
proof -
  let ?key = "vrrp_key (C_IfIndex c) (C_VRID c)"
  have ok: "gbl_ok (callbacks svr) ?key g" using vrrp_invD [OF inv g] by simp
  then have t': "t < length (V_timers svr)" "VT_callback (V_timers svr ! t) = Adver ?key"
    using t by (auto simp: gbl_ok_def timer_ok_def callbacks_def)
  have u: "u < length (V_timers svr) \<and> VT_callback (V_timers svr ! u) = MasterDown ?key" if "GI_MasterDownTimer g = Some u" for u
    using ok that by (auto simp: gbl_ok_def timer_ok_def callbacks_def)
  then have ne: "u \<noteq> t" if "GI_MasterDownTimer g = Some u" for u using t' that by force
  have l: "GI_Locks g" using ok by (simp add: gbl_ok_def)
  show ?thesis
  proof (cases "GI_MasterDownTimer g")
    case None
    then show ?thesis using g l t t'
      by (simp add: vrrp_step_def VrrpUpdateIntf_def with_locks_def VrrpHandleMasterDownTimer_def AfterFunc_def nth_append Let_def)
  next
    case (Some u)
    then show ?thesis using g l t t' ne [OF Some]
      by (simp add: vrrp_step_def VrrpUpdateIntf_def with_locks_def VrrpHandleMasterDownTimer_def Let_def)
  qed
qed

lemma bulk_never_more:
  "GetBulkVrrpIntfState from count svr = Inr (Inr b) \<Longrightarrow> VB_EndIdx b = 0 \<and> \<not> VB_More b"
  "GetBulkVrrpVridState from count svr = Inr (Inr b') \<Longrightarrow> VB_EndIdx b' = 0 \<and> \<not> VB_More b'"
  by (auto simp: GetBulkVrrpIntfState_def GetBulkVrrpVridState_def VrrpGetBulkVrrpIntfStates_def VrrpGetBulkVrrpVridStates_def get_bulk_def
      bulk_answer_def bind_r_eq_Inr split: option.splits if_splits)

end
