(* ===== verification/VrrpSamples.thy ===== *)
theory VrrpSamples
  imports VrrpFaults
begin

text \<open>Concrete values for the properties of the VRRP daemon: an environment, a configuration, a backup, a master, and a packet.\<close>

definition venv :: vrrp_env where
  "venv = \<lparr>E_OpenLive = (\<lambda>_. Some 7), E_PacketReception = (\<lambda>_. True), E_InterfaceByName = Some, E_IntfId = sint, E_SubInterface = (\<lambda>_. False),
     E_Now = ''now'', E_parseIPv6 = (\<lambda>_. []), E_SerializeLayers = (\<lambda>_ _ payload. payload)\<rparr>"

definition vconf :: VrrpIntf where
  "vconf = \<lparr>C_IfIndex = 3, C_VRID = 5, C_Priority = 100, C_VirtualIPv4Addr = ''10.0.0.9'', C_AdvertisementInterval = 1, C_PreemptMode = False,
     C_AcceptMode = False\<rparr>"

definition backup_entry :: VrrpGlobalInfo where
  "backup_entry = zero_gbl\<lparr>GI_IntfConfig := vconf, GI_VirtualRouterMACAddress := virtual_mac 5, GI_MasterDownValue := 3, GI_MasterDownTimer := Some 0,
     GI_IpAddr := ''10.0.0.1/24'', GI_pHandle := Some 7, GI_Locks := True, GI_StateName := VRRP_BACKUP_STATE\<rparr>"

definition vrouter :: "VrrpGlobalInfo \<Rightarrow> VrrpServer" where
  "vrouter g = VrrpInitGlobalDS\<lparr>V_vrrpGblInfo := [''3_5'' \<mapsto> g], V_vrrpIntfStateSlice := Some [''3_5''],
     V_vrrpLinuxIfIndex2AsicdIfIndex := [3 \<mapsto> ''vlan3''], V_vrrpIfIndexIpAddr := [3 \<mapsto> ''10.0.0.1/24''],
     V_timers := [\<lparr>VT_callback = MasterDown ''3_5'', VT_after = Some 3\<rparr>, \<lparr>VT_callback = Adver ''3_5'', VT_after = Some 1\<rparr>]\<rparr>"

definition master_entry :: VrrpGlobalInfo where
  "master_entry = backup_entry\<lparr>GI_AdverTimer := Some 1, GI_StateName := VRRP_MASTER_STATE\<rparr>"

text \<open>An advertisement of another router with priority 200.\<close>

definition vpayload :: bytes where
  "vpayload = [0x21, 5, 200, 1, 0, 1, 0x0C, 0xEF, 10, 0, 0, 9, 0, 0, 0, 0, 0, 0, 0, 0]"

definition vframe :: vrrp_frame where
  "vframe = \<lparr>PK_DstMAC = Some [1, 0, 0x5E, 0, 0, 0x12],
     PK_IPv4 = Some \<lparr>IP_TTL = 255, IP_SrcIP = [10, 0, 0, 2], IP_DstIP = [224, 0, 0, 18], IP_Payload = Some vpayload, IP_Spare = []\<rparr>\<rparr>"

definition vheader :: VrrpPktHeader where
  "vheader = \<lparr>VH_Version = 2, VH_Type = 1, VH_VirtualRtrId = 5, VH_Priority = 200, VH_CountIPv4Addr = 1, VH_Rsvd = 0, VH_MaxAdverInt = 1,
     VH_CheckSum = 0x0CEF, VH_IPv4Addr = [[10, 0, 0, 9]]\<rparr>"

lemma vkey: "vrrp_key 3 5 = ''3_5''"
  by code_simp

lemma vkey_ifindex: "key_ifindex ''3_5'' = 3"
  using key_ifindex_key [of 3 5] by (simp add: vkey)

lemma vaddress: "To4 (ParseIP v6 ''10.0.0.9'') = [10, 0, 0, 9]"
proof -
  have "4 = Suc (Suc (Suc (Suc 0)))" by simp
  then have "parse_octets 4 ''10.0.0.9'' = Some [10, 0, 0, 9]" by (simp only: parse_octets.simps) (simp add: dtoi_def is_digit_def)
  then show ?thesis by (simp add: ParseIP_def parseIPv4_def To4_def v4_mapped_def)
qed

lemma vheader_decoded: "VrrpDecodeHeader vpayload [] = Inr vheader"
  by code_simp

lemma vheader_checked: "VrrpCheckHeader ''10.0.0.9'' ''10.0.0.1/24'' 5 vheader vpayload [] = Inr ()"
  by code_simp

lemma vframe_accepted: "accepted vframe backup_entry vheader" "accepted vframe master_entry vheader"
  by (simp_all add: accepted_def vframe_def master_entry_def backup_entry_def vconf_def vheader_decoded vheader_checked)

lemma vrouter_inv: "vrrp_inv (vrouter backup_entry)" "vrrp_inv (vrouter master_entry)"
  by (simp_all add: vrrp_inv_def vrouter_def gbl_ok_def timer_ok_def callbacks_def slice_keys_def backup_entry_def master_entry_def vconf_def vkey
      VrrpInitGlobalDS_def zero_gbl_def)

lemma vrouter_fields [simp]:
  "V_vrrpGblInfo (vrouter g) = [''3_5'' \<mapsto> g]" "slice_keys (vrouter g) = [''3_5'']" "V_vrrpFsmCh (vrouter g) = []"
  "V_timers (vrouter g) = [\<lparr>VT_callback = MasterDown ''3_5'', VT_after = Some 3\<rparr>, \<lparr>VT_callback = Adver ''3_5'', VT_after = Some 1\<rparr>]"
  "V_vrrpLinuxIfIndex2AsicdIfIndex (vrouter g) = [3 \<mapsto> ''vlan3'']"
  by (simp_all add: vrouter_def VrrpInitGlobalDS_def slice_keys_def)

text \<open>A daemon that knows its interface and has no virtual router yet.\<close>

definition vstart :: VrrpServer where
  "vstart = VrrpInitGlobalDS\<lparr>V_vrrpVlanId2Name := [3 \<mapsto> ''vlan3''], V_vrrpIfIndexIpAddr := [3 \<mapsto> ''10.0.0.1/24''],
     V_vrrpLinuxIfIndex2AsicdIfIndex := [3 \<mapsto> ''vlan3'']\<rparr>"

lemma vstart_reached: "vrrp_run venv [VlanNotify 3 ''vlan3'' True, IPv4Notify 3 ''10.0.0.1/24'' True] VrrpInitGlobalDS = Inr vstart"
  by (simp add: vstart_def vrrp_step_def VrrpUpdateVlanGblInfo_def VrrpUpdateIPv4GblInfo_def VrrpCreateVlanEntry_def VrrpCreateIfIndexEntry_def
      VrrpMapIfIndexToLinuxIfIndex_def VrrpInitGlobalDS_def venv_def)

lemma vstart_empty: "V_vrrpFsmCh vstart = []"
  by (simp add: vstart_def VrrpInitGlobalDS_def)

lemma vstart_inv: "vrrp_inv vstart"
  using vrrp_steps.runs_keep_inv [OF vrrp_inv_init] vstart_reached unfolding vrrp_run_seq by blast

end
