(* ===== verification/Spec2Isabelle.thy ===== *)
theory Spec2Isabelle
  imports BgpFacts BfdFacts VrrpSamples
begin

text \<open>
  Verification of the BGP speaker, the BFD daemon and the VRRP daemon of the L3 protocol stack (src/bgp, src/bfd and src/vrrp, written in Go).

  \<^bold>\<open>The program.\<close> The repository holds the routing daemons of a network operating system: ARP, BFD, BGP, DHCP and its relay,
  NDP, OSPF, the route daemon, VXLAN, VRRP. This development follows three of them from the bytes of a connection upwards.

  BGP exchanges routes.
  A connection (fsm/conn.go) cuts the byte stream of a peer into messages and decodes them (packet/*.go); the session
  machine of the connection (fsm/fsm.go) takes the decoded messages, timer expiries and commands, writes its own
  messages, and tells its manager (fsm/fsm_manager.go) and the server when the session comes up or breaks; in Established it hands
  UPDATEs to the server, which rewrites their attributes with the helpers of packet/helpers.go. The routing table (rib/*.go) keeps
  the paths of every destination, runs the decision process on them and tells the route daemon which routes to create and delete.

  BFD watches whether a neighbour is alive, for BGP among others. Control packets (bfd/server/bfdControl.go, bfdAuth.go) are exchanged by
  sessions (bfdSession.go, for the links of a group bfdLag.go); a session that sees no packets in time tells its clients. The
  server (bfdSessionServer.go, bfdSessionParam.go, bfdGlobalConf.go, bfdSessionGetBulk.go) keeps the table of the sessions, makes
  and deletes them by configuration and hands them the received packets.

  VRRP lets several routers share a virtual address: the master of a virtual router advertises itself (vrrp/server/vrrpdProtocolTx.go), the
  backups listen (vrrpdProtocolRx.go) and take over when they hear nothing (vrrpdFsm.go). The server (vrrpdServer.go, vrrpdIntf.go, vrrpdDB.go) keeps
  the table of the virtual routers and serves configuration calls, notifications, packets and events in one main loop, beside timer callbacks and the
  subscriber of the interface manager.

  \<^bold>\<open>Theories.\<close>
  \<^item> \<open>Prelude\<close>: results with Go's errors, panics and endless loops as values, slices with their bounds checks, big-endian integers
    and their round trips. \<open>Codec\<close>: loops over encoded items, and the locale \<open>tlv\<close> of a self-delimiting encoding, which the
    prefixes and the path attributes interpret.
  \<^item> \<open>AfiSafi\<close> (packet/afisafi.go, the error type of packet/bgp.go), \<open>OpenMsg\<close> (OPEN, capabilities, optional parameters), \<open>Nlri\<close>
    (prefixes, decodeNLRI), \<open>AsPath\<close> (segments, the iterator of packet/aspathiter.go; the locale \<open>fixed_codec\<close> of fixed-width
    numbers), \<open>AttrBase\<close> (attribute header and its checks), \<open>MpBgp\<close> (packet/mpbgp.go), \<open>PathAttr\<close> (all attributes and their
    dispatch; the locale \<open>seg_codec\<close> of path segments), \<open>UpdateMsg\<close> (header, UPDATE), \<open>AttrHelpers\<close> (packet/helpers.go), \<open>Message\<close>
    (whole messages, framing and decoding of fsm/conn.go).
  \<^item> \<open>Fsm\<close>: the session machine as a record with the fields of \<open>FSM\<close>, one definition per method, one handler per state, and
    \<open>fsm_step\<close> for a round of \<open>StartFSM\<close>; what it does to the outside is a log. \<open>FsmInv\<close>: its invariant, the transition table it
    refines, progress and timers.
  \<^item> \<open>FsmManager\<close>: the manager of the machines of a neighbour, with its mutex (\<open>locked\<close>; locking it twice is \<open>Diverges\<close>), collision
    detection and the loop of \<open>Init\<close>.
  \<^item> \<open>BgpPath\<close> (rib/path.go), \<open>BestPath\<close> (rib/pathsort.go and the rules of rib/destination.go) with the locale \<open>ranking\<close> of a rule that
    keeps the best by a key, interpreted for the smallest and the greatest key, \<open>Decision\<close> (the decision process as a whole),
    \<open>Destination\<close> (rib/destination.go, route.go, ipv4Route.go), \<open>DestInv\<close> (its invariant; the locale \<open>allocator\<close> of identifiers,
    interpreted for the path ids; selection), \<open>RouteList\<close> (the list of destinations of rib/rib.go and its readers), \<open>IpText\<close> (the text of
    addresses and prefixes, which the table uses as keys), \<open>LocRib\<close> (the rest of rib/rib.go: updates, connected routes, lost neighbours),
    \<open>LocRibInv\<close> (its invariant and the map it refines).
  \<^item> \<open>Tables\<close>: association lists, which both daemons use for Go's maps whose order matters.
  \<^item> \<open>BfdPacket\<close> (control packets and their round trip), \<open>Float32\<close> (Go's 32-bit floating point, for the jitter), \<open>BfdSession\<close> (a session as
    a record, one definition per method, and \<open>session_step\<close> for everything that reaches it), \<open>BfdInv\<close> (its invariant and the diagram it
    refines), \<open>BfdRuns\<close> (runs: the handshake, detection of failures, and where they fail), \<open>BfdLag\<close> (sessions on links), \<open>BfdServer\<close>
    (the table, and \<open>server_step\<close>), \<open>BfdTable\<close> (its invariant; the locale \<open>session_command\<close> of an operation that keeps what identifies a
    session, interpreted for every operation; creation undone by deletion), \<open>BfdFaults\<close> (where the table fails).
  \<^item> \<open>VrrpPacket\<close> (advertisements, their round trip, and the Internet checksum), \<open>VrrpText\<close> (keys, addresses and MAC addresses as texts),
    \<open>VrrpDaemon\<close> (the server as a record, one definition per method, and \<open>vrrp_step\<close> for a case of the main loop, a timer or a
    notification), \<open>VrrpInv\<close> (its invariant and which steps make a master; the locale \<open>vrrp_handler\<close>, interpreted for the steps and the stored
    configurations), \<open>VrrpRuns\<close> (taking over, giving up, waiting), \<open>VrrpFaults\<close> (where the daemon waits for itself or panics).
  \<^item> \<open>Samples\<close>, \<open>RibSamples\<close>, \<open>LocRibSamples\<close>, \<open>BfdSamples\<close>, \<open>VrrpSamples\<close>: the concrete values of the witnesses. \<open>BgpFacts\<close>, \<open>BfdFacts\<close>: further facts
    about these daemons with their instances. This theory: the main properties.

  \<^bold>\<open>Correspondence.\<close> A Go struct is a record, an interface with its implementations a datatype, a method \<open>T.m\<close> the definition \<open>T_m\<close>;
  integers are words of their width and wrap around as in Go; a pointer that is updated in place is passed and returned. A
  result is \<open>Inr\<close> of a value, or \<open>Inl\<close> of an error, of a panic, or of \<open>Diverges\<close> for a loop that never ends; loops are functions with
  termination proofs in which a round that makes no progress is \<open>Diverges\<close>, so there is no fuel in the model
  (\<open>iter_drain\<close>, which runs an iterator to its end, counts rounds; one more than the AS numbers of the path are enough; \<open>read_pages\<close>,
  a client that reads the list of destinations page by page, counts pages, and it is shown that some number of them is enough). What Go leaves
  open is a parameter: \<open>runtime\<close> is the result of sorting and of iterating over a map, and \<open>fair_runtime\<close> says that sorting
  permutes; \<open>rib_env\<close> holds it together with the route daemon's answer to a query for a next hop. Pointers to paths and routes of a destination are numbers
  into a heap, since the code compares them. For BFD, MD5 and SHA-1 are parameters of which only the lengths of the digests
  are assumed; \<open>bfd_env\<close> holds the random numbers, the orders of iteration, the answers of the route daemon and of the operating
  system. A session operation is one step; the code does not always lock the session for all of it. For VRRP, a handler is one step as well, but its
  waits on channels are modelled: a wait that no other goroutine can end is an error value (\<open>vrrp_wait\<close>); timers are references, since the code
  loses timers that still run; \<open>vrrp_env\<close> holds the answers of the packet library, the switch and the operating system, and
  the parser of IPv6 texts.

  \<^bold>\<open>What is shown.\<close> Round trips of every message and attribute over the wire; safety of the decoders on arbitrary bytes as far as it
  holds, and the inputs on which it does not; functional correctness of the attribute helpers; the invariant of the session
  machine, that it refines the transition table of the protocol, that it cannot panic, is never stuck, and how it negotiates
  and loses the hold time; that updates go to the established machine and a collision keeps one connection; that the decision
  process returns the paths of the lowest rank, a destination and the list of destinations keep their invariants, and the routing
  table refines a map from prefix, neighbour and path id under updates and lost neighbours. For BFD: the
  invariant of a session, that it refines the diagram of the source, comes up with its peer and detects a silent peer, the bounds of the jitter, the
  round trip of the packets, and the invariant of the session table under all inputs of the daemon. For VRRP: the invariant of the table, that only its own timer makes a router the
  master, that silence makes a backup the master and a better router a master the backup, the round trip of the advertisements, the waiting time, and the runs
  that stop the daemon. Where the
  code does not do what it means to, the theorem states what it does.

  \<^bold>\<open>Not modelled.\<close> Goroutines, channel capacities (but for VRRP) and sockets; logging; the helpers
  whose effect depends on aliasing of Go slices (AggregateASPaths, ConstructPathAttrForAggRoutes,
  ConstructMaxSizedUpdatePackets); Clone methods, which are the identity on values. Of the routing
  table, the aggregation of routes; of the BGP daemon, the server and its peers; of BFD, the frames around packets on links, the subscriptions to the
  other daemons and RPC; of VRRP, start-up, connections and interleavings inside a handler. The other daemons are not modelled.
\<close>

section \<open>The session state machine\<close>

text \<open>
  C1: No input that the rest of the program produces makes a session machine panic: from every state it can reach,
  every connection event, decoded message or error, forwarded command, BFD change and timer is handled, and no nil
  connection is used.
\<close>

theorem fsm_never_panics:
  assumes "fsm_reach c s f" "wf_conf c" "s < BGPFSMOpensent" "\<not> F_close f" "valid_input i"
  shows "\<exists>f'. fsm_step i f = Inr f'"
  using assms by (rule fsm_progress)

theorem fsm_never_panics_witness:
  "\<exists>f. start_fsm (FSM_Init conf0 BGPFSMIdle) = Inr f \<and>
     (\<exists>f'. fsm_step (In_pktRx (Some peer_open_msg) None True) f = Inr f')"
proof -
  obtain f where f: "start_fsm (FSM_Init conf0 BGPFSMIdle) = Inr f" "fsm_reach conf0 BGPFSMIdle f" "\<not> F_close f"
    using conf0_start by blast
  have "\<exists>f'. fsm_step (In_pktRx (Some peer_open_msg) None True) f = Inr f'"
    by (rule fsm_never_panics [OF f(2) conf0_wf _ f(3)])
       (simp_all add: peer_open_msg_def NewBGPOpenMessage_def msg_consistent_def NewBGPHeader_def)
  with f show ?thesis by blast
qed

text \<open>
  C2: In every state a machine can reach, what it told the manager and the server is a well-formed session: established
  and broken alternate, updates are delivered and written only in between, and the session is up exactly in Established.
  Until the machine is closed it holds a connection exactly from OpenSent on, with the current id; without one the hold
  and keepalive timers are stopped, and in Idle no connection attempt is under way.
\<close>

theorem fsm_session_invariant:
  assumes "fsm_reach c s f" "wf_conf c" "s < BGPFSMOpensent"
  shows "session_from False (F_log f) = Some (F_State f = BGPFSMEstablished) \<and>
     (if F_close f then F_peerConn f = None
      else (F_peerConn f = None \<longleftrightarrow> F_State f < BGPFSMOpensent) \<and>
        (F_peerConn f = None \<longrightarrow> F_connId f = 0 \<and> F_holdTimer f = None \<and> F_keepAliveTimer f = None) \<and>
        (\<forall>d i. F_peerConn f = Some (d, i) \<longrightarrow> i = F_connId f) \<and>
        (F_State f = BGPFSMIdle \<longrightarrow> \<not> F_outTCPConn f))"
  using fsm_reach_inv [OF assms] by (auto simp: fsm_inv_def split: option.splits)

theorem fsm_session_invariant_witness:
  "\<exists>f. start_fsm (FSM_Init conf0 BGPFSMIdle) = Inr f \<and>
     session_from False (F_log f) = Some (F_State f = BGPFSMEstablished)"
proof -
  obtain f where f: "start_fsm (FSM_Init conf0 BGPFSMIdle) = Inr f" "fsm_reach conf0 BGPFSMIdle f"
    using conf0_start by blast
  with fsm_session_invariant [OF f(2) conf0_wf] show ?thesis by auto
qed

text \<open>
  C4: The handlers refine the protocol's transition table: whatever else a handler does, the state after an event is the
  one \<open>next_state\<close> gives for the state before it, BFD's view of the neighbour, the passive flag and the manager's answer
  to an OPEN.
\<close>

theorem fsm_refines_the_table:
  assumes "fsm_inv f" "wf_conf (F_conf f)" "data_ok ev d" "\<not> F_close f"
  shows "\<exists>f'. ProcessEvent ev d f = Inr f' \<and> fsm_inv f' \<and>
     F_State f' = next_state (Conf_BfdDown (F_conf f)) (F_passive f) (data_answer d) (F_State f) ev"
  using ProcessEvent_good [OF assms] by (auto simp: good_def)

theorem fsm_refines_the_table_witness:
  "\<exists>f'. ProcessEvent BGPEventKeepAliveMsg NoData (in_state BGPFSMOpenconfirm) = Inr f' \<and> F_State f' = BGPFSMEstablished"
  using fsm_refines_the_table [of "in_state BGPFSMOpenconfirm" BGPEventKeepAliveMsg NoData] in_state_inv conf0_wf
  by (auto simp: in_state_def NewFSM_def table_defs)

text \<open>
  C25: A machine that starts in Idle comes up: after its outgoing connection succeeds, the peer's OPEN is accepted and a
  KEEPALIVE arrives, it is in Established, has told the manager so, and has written exactly its OPEN, with the configured
  hold time, and one KEEPALIVE.
\<close>

theorem session_comes_up:
  assumes "wf_conf c" "\<not> Conf_BfdDown c" "\<not> Conf_UnknownNeighbor c"
    and "Hdr_Type (Msg_Header m) = BGPMsgTypeOpen" "Msg_Body m = Some (Body_Open b)"
    and "Hdr_Type (Msg_Header k) = BGPMsgTypeKeepAlive"
  shows "\<exists>f. bind_r (start_fsm (FSM_Init c BGPFSMIdle))
                 (run_fsm [In_outConn r1 r2, In_pktRx (Some m) None True, In_pktRx (Some k) None a]) = Inr f \<and>
     F_State f = BGPFSMEstablished \<and> MgrEstablished \<in> set (F_log f) \<and>
     writes (F_log f) = [open_message c (Conf_HoldTime c), NewBGPKeepAliveMessage]"
  using assms by (rule session_comes_up_lemma)

theorem session_comes_up_witness:
  "\<exists>f. bind_r (start_fsm (FSM_Init conf0 BGPFSMIdle))
         (run_fsm [In_outConn 3 4, In_pktRx (Some peer_open_msg) None True, In_pktRx (Some NewBGPKeepAliveMessage) None True]) = Inr f \<and>
     F_State f = BGPFSMEstablished \<and> MgrEstablished \<in> set (F_log f) \<and>
     writes (F_log f) = [open_message conf0 (Conf_HoldTime conf0), NewBGPKeepAliveMessage]"
  by (rule session_comes_up [where b = peer_open])
     (simp_all add: conf0_wf, simp_all add: conf0_def peer_open_msg_def peer_open_def NewBGPOpenMessage_def
       NewBGPHeader_def NewBGPKeepAliveMessage_def)



section \<open>The session manager\<close>



text \<open>
  C32: When two connections with a peer collide, one in each direction and neither established, the OPEN on one of them
  closes exactly one machine: the incoming connection's if the local router id compares as greater, else the outgoing
  connection's; the other machine stays, and the OPEN is accepted exactly if its own machine does.
\<close>

theorem collision_keeps_exactly_one:
  assumes "mgr_inv m" "M_fsms m = [(i, f), (j, g)] \<or> M_fsms m = [(j, g), (i, f)]" "i \<noteq> j"
    and "fsm_dir f = Some d" "fsm_dir g = Some e" "d \<noteq> e" "F_State g \<in> {BGPFSMOpensent, BGPFSMOpenconfirm}"
    and "id_of (Conf_RouterId (M_conf m)) = Inr a" "id_of (Open_BGPId openMsg) = Inr b"
    and "GetASSize openMsg = Inr n"
  shows "\<exists>m'. receivedBGPOpenMessage i d openMsg m = Inr (m', (d = (if a > b then ConnDirOut else ConnDirIn))) \<and>
     fsm_ids m' = [if d = (if a > b then ConnDirOut else ConnDirIn) then i else j] \<and>
     SendClose (if d = (if a > b then ConnDirOut else ConnDirIn) then j else i) \<in> set (M_log m') \<and> \<not> M_locked m'"
  using assms by (rule collision_closes_one)

theorem collision_keeps_exactly_one_witness:
  "\<exists>m'. receivedBGPOpenMessage 0 ConnDirOut peer_open (colliding conf0) = Inr (m', False) \<and> fsm_ids m' = [1]"
  using collision_keeps_exactly_one
    [of "colliding conf0" 0 "in_state BGPFSMOpensent" 1 "(in_state BGPFSMOpensent)\<lparr>F_peerConn := Some (ConnDirIn, 8)\<rparr>"
        ConnDirOut ConnDirIn "push_bit 24 10 OR 1" peer_open "push_bit 24 10 OR 2" 4]
  by (auto simp: colliding_def NewFSMManager_def mgr_inv_def fsm_ids_def fsm_dir_def in_state_def NewFSM_def conf0_def peer_open_id
      id_of_bytes peer_open_as)

section \<open>The routing table\<close>

text \<open>
  C7: The decision process returns and keeps exactly the candidates of the lowest rank: greater preference, then the shorter AS
  path, the lower origin, external before internal, the lower router id, the shorter cluster list, the lower address. This
  holds for paths of neighbours whose next hops are known, with or without multiple and additional paths, if the candidates come in
  the order of their origins.
\<close>

theorem best_path_has_the_lowest_rank:
  assumes "xs \<noteq> []" "fair_runtime rt" "\<forall>p \<in> set (xs @ removed). rankable n p"
    and "sorted_wrt (\<lambda>p q. projr (Path_GetOrigin p) \<le> projr (Path_GetOrigin q)) xs"
    and "known_next_hops fam (mset (xs @ removed))"
  shows "\<exists>ys ecmp addPaths. calculateBestPath rt fam xs removed ebgpMultiPath ibgpMultiPath addPathCount = Inr (ys, ecmp, addPaths) \<and>
    ys \<noteq> [] \<and> mset ys = {#p \<in># mset xs. \<forall>q \<in># mset xs. rank p \<le> rank q#}"
proof -
  obtain ys ecmp addPaths where r: "calculateBestPath rt fam xs removed ebgpMultiPath ibgpMultiPath addPathCount = Inr (ys, ecmp, addPaths)"
    "mset ys = mset (optimal (<) rank xs)"
    using calculateBestPath_optimal [OF assms(1,2) _ assms(4,5), of n] assms(3) by blast
  have "ys \<noteq> []" using r(2) lowest.optimal_nonempty [OF assms(1), of rank] by auto
  with r show ?thesis by (auto simp: mset_optimal not_less)
qed

theorem best_path_has_the_lowest_rank_witness:
  "\<exists>ys ecmp addPaths. calculateBestPath rt0 fam4 [rpath 1 1 65001 0, rpath 2 2 65000 2] [] True True 1 = Inr (ys, ecmp, addPaths) \<and>
    ys \<noteq> [] \<and> mset ys = {#p \<in># mset [rpath 1 1 65001 0, rpath 2 2 65000 2]. \<forall>q \<in># mset [rpath 1 1 65001 0, rpath 2 2 65000 2]. rank p \<le> rank q#}"
  by (rule best_path_has_the_lowest_rank [where n = 4])
     (simp_all add: rt0_fair rpath_rankable known_next_hops_def)



text \<open>
  C16: Selecting a path for a destination with none chosen yet, whose paths come from neighbours in the order of their origins, installs
  the reachable, loop-free path of the lowest rank: it becomes the path of the local routing table and the only installed one, its
  route is marked as the best, the change is reported, and the route daemon is told to create the route.
\<close>

theorem selection_installs_the_best_path:
  assumes "dest_inv d" "D_recalculate d" "D_LocRibPath d = None" "D_ecmpPaths d = []" "D_AddPaths d = []"
    and "\<forall>r. P_ref (ph r) = r" "fair_runtime rt" "\<not> G_UseMultiplePaths g"
    and "\<forall>r \<in> set (all_paths d). P_routeType (ph r) = RouteTypeEGP \<and> rankable n (ph r) \<and> \<not> isl (Path_HasASLoop (ph r))"
    and "sorted_wrt (\<lambda>p q. projr (Path_GetOrigin p) \<le> projr (Path_GetOrigin q)) (map ph (all_paths d))"
    and "E = filter (eligible (D_protoFamily d)) (map ph (all_paths d))" "E \<noteq> []"
    and "unat (Length (D_Prefix d)) \<le> 8 * nat (GetAddressLengthForFamily (D_protoFamily d))" "GetAddressLengthForFamily (D_protoFamily d) > 0"
  shows "\<exists>d' s p r cfg. SelectRouteForLocRib rt g ph 0 d = Inr (d', s) \<and> D_LocRibPath d' = Some p \<and> D_ecmpPaths d' = [(p, r)] \<and>
    ph p \<in> set E \<and> (\<forall>q \<in> set E. rank (ph p) \<le> rank q) \<and> D_pathRouteMap d p = Some r \<and> R_BestPath (D_heap d' r) \<and>
    S_locRibAction s = RouteActionAdd \<and> D_log d' = D_log d @ [CreateRoute cfg] \<and> dest_inv d'"
  using selection_installs [OF assms(1-5) _ assms(7,8) _ assms(10-14), of n] assms(6,9) by blast

theorem selection_installs_the_best_path_witness:
  "\<exists>d' s. SelectRouteForLocRib rt0 g0 ph0 0 dest2 = Inr (d', s) \<and> D_LocRibPath d' = Some 1"
proof -
  have "filter (eligible (D_protoFamily dest2)) (map ph0 (all_paths dest2)) = [ph0 2, ph0 1]"
    by (simp add: dest2_eval ph0_def rpath_eligible)
  from selection_installs_the_best_path [OF dest2_inv(1), of ph0 rt0 g0 4 "[ph0 2, ph0 1]", unfolded this]
  obtain d' s p r cfg where sel: "SelectRouteForLocRib rt0 g0 ph0 0 dest2 = Inr (d', s)" "D_LocRibPath d' = Some p"
    and p: "ph0 p \<in> set [ph0 2, ph0 1]" "\<forall>q \<in> set [ph0 2, ph0 1]. rank (ph0 p) \<le> rank q"
    by (auto simp: dest2_eval ph0_def rt0_fair g0_def rpath_rankable fam4_length)
  have "P_ref (ph0 p) \<in> P_ref ` set [ph0 2, ph0 1]" using p(1) by (rule imageI)
  then have "p = 1 \<or> p = 2" by (auto simp: ph0_def)
  moreover have "p \<noteq> 2" using p(2) by (auto simp: ph0_def rank_def rank_head_def rank_tail_def rpath_id)
  ultimately show ?thesis using sel by auto
qed

text \<open>
  C30: The list of destinations behaves as a set: a new destination is added, removing one never panics and removes just it, and
  compacting and reading change nothing; meanwhile every destination in the list knows its index, and there are no holes
  unless a reader is active.
\<close>

theorem route_list_refines_a_set:
  assumes "rl_inv l" "new \<notin> dests l" "old \<in> dests l"
  shows "rl_inv (addRoutesToRouteList new l) \<and> dests (addRoutesToRouteList new l) = insert new (dests l) \<and>
    (\<exists>l'. removeRoutesFromRouteList old l = Inr l' \<and> rl_inv l' \<and> dests l' = dests l - {old}) \<and>
    rl_inv (ResetRouteList l) \<and> dests (ResetRouteList l) = dests l \<and>
    rl_inv (fst (BulkGetBGPRoutes shown index limit l)) \<and> dests (fst (BulkGetBGPRoutes shown index limit l)) = dests l"
proof -
  obtain l' i res where b: "BulkGetBGPRoutes shown index limit l = (l', i, res)" by (cases "BulkGetBGPRoutes shown index limit l")
  show ?thesis
    using add_inv [OF assms(1,2)] remove_inv [OF assms(1,3)] ResetRouteList_inv [OF assms(1)] BulkGetBGPRoutes_inv [OF assms(1) b] b by simp
qed

theorem route_list_refines_a_set_witness:
  "\<exists>l'. removeRoutesFromRouteList 4 (addRoutesToRouteList 2 (addRoutesToRouteList 4 NewRouteList)) = Inr l' \<and> rl_inv l' \<and> dests l' = {2}"
proof -
  have 1: "rl_inv (addRoutesToRouteList 4 NewRouteList)" "dests (addRoutesToRouteList 4 NewRouteList) = {4}"
    using add_inv [OF NewRouteList_inv(1), of 4] by (simp_all add: NewRouteList_inv(2))
  have "rl_inv (addRoutesToRouteList 2 (addRoutesToRouteList 4 NewRouteList))" "dests (addRoutesToRouteList 2 (addRoutesToRouteList 4 NewRouteList)) = {2, 4}"
    using add_inv [OF 1(1), of 2] by (simp_all add: 1(2))
  then show ?thesis
    using route_list_refines_a_set [of "addRoutesToRouteList 2 (addRoutesToRouteList 4 NewRouteList)" 3 4 "\<lambda>_. True" 0 1] by auto
qed






section \<open>Messages on the wire\<close>

text \<open>
  C3: An UPDATE made by \<open>NewBGPUpdateMessage\<close> from well-formed withdrawn routes, path attributes and routes, of at
  most 4096 bytes, is encoded to exactly its size, and a peer that finds the bytes at the front of its stream reads one
  frame and decodes it to the same routes and attributes, with the length fields filled in.
\<close>

theorem update_survives_the_wire:
  assumes "wf_update_parts peer (NewBGPUpdate wd pas ns)" "update_size (NewBGPUpdate wd pas ns) \<le> 4096"
  shows "\<exists>msg bs hdr body. BGPMessage_Encode (NewBGPUpdateMessage wd pas ns) = Inr (msg, bs) \<and>
           length bs = update_size (NewBGPUpdate wd pas ns) \<and>
           (\<forall>rest. read_frame (bs @ rest) = Some (hdr, body, rest)) \<and> Hdr_Type hdr = BGPMsgTypeUpdate \<and>
           BGPUpdate_Decode hdr body peer = Inr (with_lengths (NewBGPUpdate wd pas ns))"
  by (rule update_message_roundtrip [OF assms refl])

theorem update_survives_the_wire_witness:
  "\<exists>msg bs hdr body. BGPMessage_Encode (NewBGPUpdateMessage [] attrs4 [net10]) = Inr (msg, bs) \<and>
     length bs = update_size (NewBGPUpdate [] attrs4 [net10]) \<and>
     (\<forall>rest. read_frame (bs @ rest) = Some (hdr, body, rest)) \<and> Hdr_Type hdr = BGPMsgTypeUpdate \<and>
     BGPUpdate_Decode hdr body peer4 = Inr (with_lengths (NewBGPUpdate [] attrs4 [net10]))"
  by (rule update_survives_the_wire) (simp_all add: sample_update_wf sample_update_size)

text \<open>
  C5: Every well-formed path attribute of every type (ORIGIN, AS_PATH with two- or four-byte segments, NEXT_HOP, MED,
  LOCAL_PREF, ATOMIC_AGGREGATE, AGGREGATOR, ORIGINATOR_ID, CLUSTER_LIST, MP_REACH, MP_UNREACH, AS4_PATH,
  AS4_AGGREGATOR, unknown) is encoded to \<open>TotalLen\<close> bytes, and the decoder that its type code selects gives it back,
  whatever follows it.
\<close>

theorem attribute_roundtrip:
  assumes "wf_attr peer pa"
  shows "\<exists>bs. PA_Encode pa = Inr bs \<and> length bs = unat (PA_TotalLen pa) \<and> (\<forall>rest. PA_Decode peer (bs @ rest) = Inr pa)"
  using attr_codec.enc_ok [OF assms] attr_codec.dec_enc [OF assms] by blast

theorem attribute_roundtrip_witness:
  "\<exists>bs. PA_Encode (PA_ASPath path4) = Inr bs \<and> length bs = unat (PA_TotalLen (PA_ASPath path4)) \<and>
     (\<forall>rest. PA_Decode peer4 (bs @ rest) = Inr (PA_ASPath path4))"
  by (rule attribute_roundtrip) (use attrs4_wf in \<open>simp add: attrs4_def\<close>)

text \<open>
  C6: The OPEN the code makes for up to 23 configured address families is read by a peer as an OPEN with that hold time
  and router id; the peer learns four-byte AS numbers, the offered families, and that additional paths may be
  received exactly when both sides want it.
\<close>

theorem open_is_understood:
  assumes "length fs \<le> 23" "\<forall>f \<in> set fs. f < 65536" "To4 rid \<noteq> []"
  shows "\<exists>msg bs p' d m. BGPMessage_Encode (NewBGPOpenMessage as holdTime rid (ConstructOptParams as fs rx tx)) = Inr (msg, bs) \<and>
     (\<forall>rest. read_message p (bs @ rest) = Inr (Some (p', d, rest))) \<and> Dec_Ok d \<and> Dec_Error d = None \<and>
     map_option Msg_Body (Dec_Msg d) = Some (Some (Body_Open m)) \<and>
     Open_HoldTime m = holdTime \<and> Open_BGPId m = To4 rid \<and> GetProtocolFromOpenMsg m = set fs \<and>
     PeerASSize (Conn_peerAttrs p') = 4 \<and>
     AddPathsRxActual (Conn_peerAttrs p') =
       (AddPathsRxActual (Conn_peerAttrs p) \<or> (Conn_AddPathsRx p \<and> tx > 0 \<and> fs \<noteq> []))"
  using assms by (rule open_read)

theorem open_is_understood_witness:
  "\<exists>msg bs p' d m. BGPMessage_Encode (NewBGPOpenMessage 65001 180 [10, 0, 0, 1] (ConstructOptParams 65001 [257] True 2)) = Inr (msg, bs) \<and>
     (\<forall>rest. read_message (NewPeerConn True) (bs @ rest) = Inr (Some (p', d, rest))) \<and> Dec_Ok d \<and> Dec_Error d = None \<and>
     map_option Msg_Body (Dec_Msg d) = Some (Some (Body_Open m)) \<and>
     Open_HoldTime m = 180 \<and> Open_BGPId m = To4 [10, 0, 0, 1] \<and> GetProtocolFromOpenMsg m = set [257] \<and>
     PeerASSize (Conn_peerAttrs p') = 4 \<and>
     AddPathsRxActual (Conn_peerAttrs p') =
       (AddPathsRxActual (Conn_peerAttrs (NewPeerConn True)) \<or> (Conn_AddPathsRx (NewPeerConn True) \<and> (2 :: u8) > 0 \<and> [257 :: u32] \<noteq> []))"
  by (rule open_is_understood) (simp_all add: To4_def)

text \<open>
  C24: For IPv4 and IPv6, whatever bytes arrive, \<open>decodeNLRI\<close> neither panics nor loops: it fails only by returning an
  error.
\<close>

theorem nlri_decoding_is_safe:
  assumes "known_afi afi" "decodeNLRI pkt len afi safi pa = Inl f"
  shows "\<exists>e. f = Error e"
  using assms by (rule decodeNLRI_safe)

theorem nlri_decoding_is_safe_witness:
  "decodeNLRI [33, 1, 2, 3, 4, 5] 6 1 1 peer4 \<noteq> Inl Panic \<and> (\<exists>f. decodeNLRI [33, 1, 2, 3, 4, 5] 6 1 1 peer4 = Inl f)"
proof -
  have f: "\<exists>f. decodeNLRI [33, 1, 2, 3, 4, 5] 6 1 1 peer4 = Inl f"
    by (simp add: decodeNLRI_def peer4_def decode_loop.simps NLRI_Decode_def IPPrefix_Decode_def AFINextHopLenMap_def
        index_r_def slice_r_def Let_def msg_error_def)
  then show ?thesis
    using nlri_decoding_is_safe [of 1 "[33, 1, 2, 3, 4, 5]" 6 1 peer4] by (auto simp: known_afi_def)
qed

text \<open>
  C27: From a peer with four-byte AS numbers, every attribute but MP_REACH and MP_UNREACH whose length field cannot
  overflow is decoded without a panic and without an endless loop, whatever its bytes are.
\<close>

theorem attribute_decoding_is_safe:
  assumes "attr_len_ok pkt" "PeerASSize peer = 4" "2 \<le> length pkt" "pkt ! 1 \<noteq> 14" "pkt ! 1 \<noteq> 15"
  shows "PA_Decode peer pkt \<noteq> Inl Panic \<and> PA_Decode peer pkt \<noteq> Inl Diverges"
  using PA_Decode_no_fault [OF assms] by (simp add: no_fault_def)

theorem attribute_decoding_is_safe_witness:
  "PA_Decode peer4 [64, 2, 3, 2, 200, 0] \<noteq> Inl Panic \<and> PA_Decode peer4 [64, 2, 3, 2, 200, 0] \<noteq> Inl Diverges"
  by (rule attribute_decoding_is_safe)
     (simp_all add: peer4_def attr_len_ok_def base_header_def hdr_no_overflow_def index_r_def Let_def)

section \<open>Path attributes of a route\<close>

text \<open>
  C28: Iterating an AS path of non-empty four-byte segments yields every AS number once, in order and with the type of
  its segment, and then ends.
\<close>

theorem aspath_iterator_visits_all:
  assumes "list_all (\<lambda>s. AS4_AS s \<noteq> []) ss"
  shows "\<exists>a. NewASPathIter (map Seg4 ss) = Some a \<and>
           iter_drain (Suc (length (concat (map AS4_AS ss)))) a = Inr (concat (map seg_items ss))"
  using assms by (rule iter_all_ases)

theorem aspath_iterator_visits_all_witness:
  "\<exists>a. NewASPathIter [Seg4 seg_seq, Seg4 seg_seq] = Some a \<and>
     iter_drain 5 a = Inr [(65001, 2), (70000, 2), (65001, 2), (70000, 2)]"
  using aspath_iterator_visits_all [of "[seg_seq, seg_seq]"]
  by (simp add: seg_seq_def seg_items_def eval_nat_numeral)

section \<open>The BFD daemon\<close>



text \<open>
  C11: The state of a reachable BFD session follows the diagram of the source, extended by the administrative events: an accepted packet
  acts as the event of its state, the session timer as a timeout, and nothing else changes the state but the commands.
\<close>

theorem bfd_session_follows_the_diagram:
  assumes "session_reach md5 sha1 s" "input_ok i" "session_step md5 sha1 i s = Inr s'"
  shows "session_state s' = next_session_state md5 sha1 i s"
  using session_step_ok [OF session_reach_inv [OF assms(1)] assms(2)] assms(3) by simp

theorem bfd_session_follows_the_diagram_witness:
  "\<exists>s'. session_step digest16 digest20 Start (StartSessionClient (made 1)) = Inr s' \<and> session_state s' = STATE_DOWN"
proof -
  obtain s' where s': "session_step digest16 digest20 Start (StartSessionClient (made 1)) = Inr s'"
    using session_step_ok [OF made_inv, of Start digest16 digest20 1] by (auto simp: holds_def input_ok_def split: sum.splits)
  show ?thesis using bfd_session_follows_the_diagram [OF made_reach _ s'] s' by (simp add: input_ok_def next_session_state_def)
qed

text \<open>
  C21: A well-formed control packet is decoded to itself, with the key of an authentication section replaced by the digest that was sent
  (MD5 of 16 bytes, SHA-1 of 20), for all authentication types.
\<close>

theorem bfd_packet_roundtrip:
  assumes "wf_packet p" "\<And>b. length (md5 b) = 16" "\<And>b. length (sha1 b) = 20"
  shows "DecodeBfdControlPacket (CreateBfdControlPacket md5 sha1 p) = Inr (wire_packet md5 sha1 p)"
  by (rule CreateBfdControlPacket_roundtrip) (use assms in simp_all)

theorem bfd_packet_roundtrip_witness:
  "DecodeBfdControlPacket (CreateBfdControlPacket digest16 digest20
     (packet0\<lparr>CP_AuthPresent := True, CP_AuthHeader := Some \<lparr>BA_Type = 2, BA_AuthKeyID = 1, BA_SequenceNumber = 5, BA_AuthData = [7]\<rparr>\<rparr>)) =
   Inr (packet0\<lparr>CP_AuthPresent := True,
     CP_AuthHeader := Some \<lparr>BA_Type = 2, BA_AuthKeyID = 1, BA_SequenceNumber = 5, BA_AuthData = replicate 16 0\<rparr>\<rparr>)"
  by (subst bfd_packet_roundtrip)
    (simp_all add: digest16_def digest20_def wf_packet_def packet0_def NewBfdControlPacketDefault_def wf_auth_def is_md5_def wire_packet_def
      auth_digest_def)

text \<open>
  C17: Two sessions that are down and can send and receive come up by three packets, each of which is received by the other end, and the
  clients of both are told.
\<close>

theorem bfd_sessions_come_up:
  assumes "ready md5 sha1 a" "ready md5 sha1 b" "session_state a = STATE_DOWN" "session_state b = STATE_DOWN"
  shows "\<exists>a' b'. handshake md5 sha1 a b = Inr (a', b') \<and> session_state a' = STATE_UP \<and> session_state b' = STATE_UP \<and> told a' \<and> told b'"
  using handshake_ok [OF assms] by blast

theorem bfd_sessions_come_up_witness:
  "\<exists>a' b'. handshake digest16 digest20 (StartSessionClient (made 1)) (StartSessionClient (made 2)) = Inr (a', b') \<and>
     session_state a' = STATE_UP \<and> session_state b' = STATE_UP \<and> told a' \<and> told b'"
  by (rule bfd_sessions_come_up) (use made_ready in simp_all)



text \<open>
  C35: The jitter, computed in 32-bit floating point, shortens the transmission interval by at most a tenth, up to the rounding to whole
  milliseconds, and never lengthens it, for all intervals below \<open>2 ^ 24\<close> milliseconds and all jitters the daemon draws.
\<close>

theorem bfd_jitter_bounds:
  assumes "unat (B_txJitter s) < 10" "0 \<le> sint (B_txInterval s)" "sint (B_txInterval s) < 2 ^ 24"
  shows "sint (ApplyTxJitter s) \<le> sint (B_txInterval s) \<and> 9 * sint (B_txInterval s) < 10 * (sint (ApplyTxJitter s) + 1)"
  unfolding ApplyTxJitter_def by (rule jittered_range [OF assms])

theorem bfd_jitter_bounds_witness:
  "sint (ApplyTxJitter (made 1)) \<le> 2000 \<and> 1799 \<le> sint (ApplyTxJitter (made 1))"
  using bfd_jitter_bounds [of "made 1"] by (simp add: made_def new_session_def)

text \<open>
  C12: The session table stays well-formed, whatever reaches the daemon and in whatever order: every session is kept once under its own
  identifier, which is also its discriminator, between 1 and 1023; the slice of identifiers and the counter agree with the table; an
  address leads to a session of that address.
\<close>

theorem bfd_session_table_is_well_formed:
  assumes "server_reach md5 sha1 g"
  shows "table_inv g \<and> length (G_Sessions g) \<le> 1023"
  using server_reach_inv [OF assms] table_size by blast

theorem bfd_session_table_is_well_formed_witness:
  "\<exists>g. CreateBfdSession benv mgmt bfd0 = Inr (g, False) \<and> table_inv g \<and> length (G_Sessions g) \<le> 1023"
proof -
  obtain g where g: "CreateBfdSession benv mgmt bfd0 = Inr (g, False)" using sample_created by blast
  have "mgmt\<lparr>M_ForceDel := False\<rparr> = mgmt" by (simp add: mgmt_def)
  then have "server_step digest16 digest20 benv (Session_config CREATE mgmt) bfd0 = Inr g"
    using g by (simp add: server_step_def processSessionConfig_def)
  from server_reach.reacts [OF bfd0_reach benv_ok this] show ?thesis
    using bfd_session_table_is_well_formed [of digest16 digest20 g] g by blast
qed



text \<open>
  C36: The search for an identifier returns exactly if a free one is drawn at some time. With 1023 sessions there is none, but the guard
  lets the search begin, and it never returns.
\<close>

theorem bfd_identifier_search_ends:
  assumes "server_reach md5 sha1 g" "env_ok E"
  shows "((\<exists>sid. GetNewSessionId E g = Inr sid) \<longleftrightarrow> (\<exists>k. E_random E k \<noteq> 0 \<and> session_at (E_random E k) g = None)) \<and>
    (length (G_Sessions g) = 1023 \<longrightarrow> GetNewSessionId E g = Inl Diverges)"
  using GetNewSessionId_returns [OF server_reach_inv [OF assms(1)], of E] full_table_diverges [OF server_reach_inv [OF assms(1)] assms(2)] by blast

theorem bfd_identifier_search_ends_witness:
  "\<exists>sid. GetNewSessionId benv bfd0 = Inr sid"
  using bfd_identifier_search_ends [OF bfd0_reach [of digest16 digest20] benv_ok]
  by (auto simp: benv_def session_at_def bfd0_empty intro: exI [of _ "Suc 0"])

text \<open>
  C37: A session on a link of an aggregation group never comes up: its client does not mark it as active, so whatever the peer sends and
  whatever timer expires, it stays down, and no client is told anything.
\<close>

theorem bfd_link_session_stays_down:
  assumes "\<not> SP_AuthenticationEnabled q"
    and "\<forall>i\<in>set inputs. case i of Link_receive _ _ p \<Rightarrow> CP_AuthPresent p \<longrightarrow> CP_AuthHeader p \<noteq> None | _ \<Rightarrow> True"
  shows "\<exists>s. seq_ops (map (link_step md5 sha1) inputs)
      (StartPerLinkSessionClient (new_session sid dest loc intf True mac gmac prots jit name q)) = Inr s \<and>
    session_state s = STATE_DOWN \<and> B_notifications s = []"
  by (rule perlink_stays_down [OF assms])

theorem bfd_link_session_stays_down_witness:
  "\<exists>s. seq_ops (map (link_step digest16 digest20)
      [Link_tx True, Link_receive [2] [3] (packet0\<lparr>CP_State := STATE_INIT\<rparr>), Link_receive [2] [3] packet0, Link_expire])
      (StartPerLinkSessionClient (new_session 1 ''10.0.0.2'' ''10.0.0.1'' '''' True [] [] [False, True, False, False, False] 5 ''fast'' param0)) = Inr s \<and>
    session_state s = STATE_DOWN \<and> B_notifications s = []"
  by (rule bfd_link_session_stays_down) (simp_all add: param0_def packet0_def NewBfdControlPacketDefault_def)

section \<open>The VRRP daemon\<close>



text \<open>
  C20: What the daemon sends for an entry with a virtual IPv4 address is what its peers read: the advertisement is 20 octets long, decoding
  it gives the identifier, the priority, the interval and the address of the entry, and it passes all the checks of a peer that has a virtual
  address configured.
\<close>

theorem vrrp_advertisements_are_accepted:
  assumes "C_VirtualIPv4Addr (GI_IntfConfig g) \<noteq> []"
    and "To4 (ParseIP (E_parseIPv6 E) (C_VirtualIPv4Addr (GI_IntfConfig g))) = ip" "length ip = 4"
    and "0 < C_AdvertisementInterval (GI_IntfConfig g)" "C_AdvertisementInterval (GI_IntfConfig g) < 0x2000"
    and "vip \<noteq> []" "vrid \<noteq> 0"
  shows "\<exists>bs hdr. VrrpCreateVrrpHeader E g = Inr (bs, 20) \<and> VrrpDecodeHeader bs spare = Inr hdr \<and>
    VrrpCheckHeader vip ipAddr vrid hdr bs spare = Inr () \<and>
    VH_VirtualRtrId hdr = ucast (C_VRID (GI_IntfConfig g)) \<and> VH_Priority hdr = ucast (C_Priority (GI_IntfConfig g)) \<and>
    VH_MaxAdverInt hdr = ucast (C_AdvertisementInterval (GI_IntfConfig g)) \<and> VH_IPv4Addr hdr = [ip]"
proof -
  have "length (To4 (ParseIP (E_parseIPv6 E) (C_VirtualIPv4Addr (GI_IntfConfig g)))) = 4" using assms(2,3) by simp
  from advertisement_accepted [OF this assms(4-7), of spare ipAddr] obtain bs c where
    "VrrpCreateVrrpHeader E g = Inr (bs, 20)" "VrrpDecodeHeader bs spare = Inr ((advertisement ip g)\<lparr>VH_CheckSum := c\<rparr>)"
    "VrrpCheckHeader vip ipAddr vrid ((advertisement ip g)\<lparr>VH_CheckSum := c\<rparr>) bs spare = Inr ()"
    unfolding create_header_advertisement [OF assms(1)] assms(2) by blast
  then show ?thesis by (intro exI [of _ bs] exI [of _ "(advertisement ip g)\<lparr>VH_CheckSum := c\<rparr>"]) (simp add: advertisement_def)
qed

theorem vrrp_advertisements_are_accepted_witness:
  "\<exists>bs hdr. VrrpCreateVrrpHeader venv backup_entry = Inr (bs, 20) \<and> VrrpDecodeHeader bs [] = Inr hdr \<and>
     VrrpCheckHeader ''10.0.0.9'' ''10.0.0.2/24'' 5 hdr bs [] = Inr () \<and> VH_VirtualRtrId hdr = 5 \<and> VH_Priority hdr = 100 \<and>
     VH_MaxAdverInt hdr = 1 \<and> VH_IPv4Addr hdr = [[10, 0, 0, 9]]"
proof -
  have "To4 (ParseIP (E_parseIPv6 venv) (C_VirtualIPv4Addr (GI_IntfConfig backup_entry))) = [10, 0, 0, 9]"
    using vaddress by (simp add: backup_entry_def vconf_def)
  from vrrp_advertisements_are_accepted [OF _ this, of "''10.0.0.9''" 5 "[]" "''10.0.0.2/24''"] show ?thesis
    by (simp add: backup_entry_def vconf_def)
qed

text \<open>
  C33: The checksum of version 2 is the Internet checksum of RFC 1071 exactly where adding the carries once is enough. Where this addition
  carries again, the daemon computes another value, and a correct advertisement of a peer is dropped.
\<close>

theorem vrrp_checksum_is_the_internet_checksum:
  assumes "even (length content)" "length content \<le> 65536"
  shows "VrrpComputeChecksum 2 content = Inr (internet_checksum content) \<longleftrightarrow>
    word_sum content div 65536 + word_sum content mod 65536 < 65536"
  by (rule checksum_internet [OF assms])

theorem vrrp_checksum_is_the_internet_checksum_witness:
  "VrrpComputeChecksum 2 [0x21, 0x05] = Inr (internet_checksum [0x21, 0x05]) \<and>
   VrrpComputeChecksum 2 [0xFF, 0xFF, 0xFF, 0xFF, 0, 1] \<noteq> Inr (internet_checksum [0xFF, 0xFF, 0xFF, 0xFF, 0, 1])"
  using vrrp_checksum_is_the_internet_checksum [of "[0x21, 0x05]"] vrrp_checksum_is_the_internet_checksum [of "[0xFF, 0xFF, 0xFF, 0xFF, 0, 1]"]
  by simp





text \<open>
  C19: A master gives up exactly to an advertisement of at least its own priority: with the address of its interface written with its mask,
  as the interface manager gives it, the comparison of the addresses for equal priorities is never made, and the sender always wins. The
  entry becomes a backup, its advertisements stop, and it waits for the time computed from the interval of the sender.
\<close>

theorem vrrp_better_router_takes_over:
  assumes "vrrp_inv svr" "V_vrrpGblInfo svr key = Some g" "GI_StateName g = VRRP_MASTER_STATE"
    and "V_vrrpFsmCh svr = [\<lparr>F_key = key, F_vrrpHdr = Some h, F_inPkt = Some p\<rparr>]" "PK_IPv4 p = Some ip" "IP_SrcIP ip \<noteq> []"
    and "CHR ''/'' \<in> set (GI_IpAddr g)" "CHR '':'' \<notin> set (GI_IpAddr g)" "VH_Priority h \<noteq> 0"
  shows "(sint (C_Priority (GI_IntfConfig g)) \<le> uint (VH_Priority h) \<longrightarrow>
      (\<exists>svr' g' t u. vrrp_step E FsmReady svr = Inr svr' \<and> V_vrrpGblInfo svr' key = Some g' \<and> GI_StateName g' = VRRP_BACKUP_STATE \<and>
         GI_MasterDownTimer g' = Some t \<and>
         VT_after (V_timers svr' ! t) = Some (sint (GI_MasterDownValue (VrrpCalculateDownValue (ucast (VH_MaxAdverInt h)) g))) \<and>
         GI_AdverTimer g' = Some u \<and> VT_after (V_timers svr' ! u) = None)) \<and>
    (uint (VH_Priority h) < sint (C_Priority (GI_IntfConfig g)) \<longrightarrow> vrrp_step E FsmReady svr = Inr (svr\<lparr>V_vrrpFsmCh := []\<rparr>))"
proof -
  note w = remote_wins_iff [OF assms(7,8,6), of E h]
  have "GI_Locks g" using vrrp_invD [OF assms(1,2)] by (simp add: gbl_ok_def)
  then show ?thesis using master_yields [OF assms(1-5,9), of E] master_stays [OF assms(2-5,9), of E] w by auto
qed

theorem vrrp_better_router_takes_over_witness:
  "\<exists>svr' g'. vrrp_step venv FsmReady ((vrouter master_entry)\<lparr>V_vrrpFsmCh := [\<lparr>F_key = ''3_5'', F_vrrpHdr = Some vheader, F_inPkt = Some vframe\<rparr>]\<rparr>) =
     Inr svr' \<and> V_vrrpGblInfo svr' ''3_5'' = Some g' \<and> GI_StateName g' = VRRP_BACKUP_STATE"
proof -
  let ?svr = "(vrouter master_entry)\<lparr>V_vrrpFsmCh := [\<lparr>F_key = ''3_5'', F_vrrpHdr = Some vheader, F_inPkt = Some vframe\<rparr>]\<rparr>"
  have "vrrp_inv ?svr" using vrouter_inv(2) by simp
  from vrrp_better_router_takes_over [OF this, of "''3_5''" master_entry vheader vframe _ venv] show ?thesis
    by (auto simp: master_entry_def backup_entry_def vconf_def vheader_def vframe_def)
qed



text \<open>
  C38: Creating an entry and starting it makes it a backup with its timer running, unless its priority is 255: the owner of the address
  should become the master at once, but the main loop then waits for its own advertisement, and the daemon handles nothing any more.
\<close>

theorem vrrp_owner_stops_the_daemon:
  assumes "vrrp_inv svr" "V_vrrpFsmCh svr = []"
  shows "(C_Priority c = 255 \<longrightarrow> (\<exists>svr'. vrrp_run E [CreateConf c, FsmReady] svr = Inl (Error (WaitPktSend, svr')))) \<and>
    (C_Priority c \<noteq> 255 \<longrightarrow>
      (\<exists>svr' g t d. vrrp_run E [CreateConf c, FsmReady] svr = Inr svr' \<and> V_vrrpGblInfo svr' (vrrp_key (C_IfIndex c) (C_VRID c)) = Some g \<and>
         GI_StateName g = VRRP_BACKUP_STATE \<and> GI_MasterDownTimer g = Some t \<and> VT_after (V_timers svr' ! t) = Some d))"
  using owner_waits [OF assms(2)] new_router_is_backup [OF assms] by blast

theorem vrrp_owner_stops_the_daemon_witness:
  "\<exists>svr'. vrrp_run venv [CreateConf (vconf\<lparr>C_Priority := 255\<rparr>), FsmReady] vstart = Inl (Error (WaitPktSend, svr'))"
  using vrrp_owner_stops_the_daemon [OF vstart_inv vstart_empty, of "vconf\<lparr>C_Priority := 255\<rparr>" venv] by simp

text \<open>
  C39: The channel of the state machine holds one event and only the main loop empties it. Two packets for an entry that are both accepted,
  taken one after the other, leave the main loop waiting for itself, and so do two stored configurations at the start.
\<close>

theorem vrrp_second_event_stops_the_daemon:
  assumes "vrrp_inv svr" "V_vrrpGblInfo svr key = Some g" "GI_StateName g \<noteq> VRRP_INITIALIZE_STATE" "accepted p g hdr" "accepted q g hdr'"
    and "V_vrrpFsmCh s = []"
  shows "(\<exists>svr'. vrrp_run E [RcvdPkt p key, RcvdPkt q key] svr = Inl (Error (WaitFsmCh, svr'))) \<and>
    (\<exists>svr'. VrrpReadDB E (c # d # cs) s = Inl (Error (WaitFsmCh, svr')))"
proof -
  have "GI_Locks g" using vrrp_invD [OF assms(1,2)] by (simp add: gbl_ok_def)
  from two_packets_wait [OF assms(2) this assms(3-5)] stored_configurations_wait [OF assms(6)] show ?thesis by blast
qed

theorem vrrp_second_event_stops_the_daemon_witness:
  "(\<exists>svr'. vrrp_run venv [RcvdPkt vframe ''3_5'', RcvdPkt vframe ''3_5''] (vrouter backup_entry) = Inl (Error (WaitFsmCh, svr'))) \<and>
   (\<exists>svr'. VrrpReadDB venv [vconf, vconf] vstart = Inl (Error (WaitFsmCh, svr')))"
  by (rule vrrp_second_event_stops_the_daemon [OF vrouter_inv(1) _ _ vframe_accepted(1) vframe_accepted(1) vstart_empty])
    (simp_all add: backup_entry_def)



end
